(* ===== verification/Prelude.thy ===== *)
theory Prelude
  imports Complex_Main "HOL-Library.AList" "HOL-Library.Sublist"
begin

text \<open>
  Shared vocabulary of the development: the Go idioms the components use (byte strings and the
  parts of package \<open>strings\<close> the source calls, instants, first-error-wins results), generic lemmas on
  lists and maps, and the reachability scaffold on which every state machine of the program rests.
\<close>

named_theorems go_simps \<open>evaluation of the Go string and time idioms\<close>

section \<open>Instants\<close>

text \<open>
  A \<open>time.Time\<close> is the number of nanoseconds since Go's zero time, so that \<open>IsZero\<close> is being 0; a
  \<open>time.Duration\<close> is a number of nanoseconds.
\<close>

type_synonym time = int
type_synonym duration = int

definition IsZero :: "time \<Rightarrow> bool" where
  "IsZero t \<longleftrightarrow> t = 0"

definition second :: duration where "second = 1000000000"
definition minute :: duration where "minute = 60 * second"
definition hour :: duration where "hour = 60 * minute"

declare IsZero_def [go_simps] second_def [go_simps] minute_def [go_simps] hour_def [go_simps]

section \<open>Strings\<close>

text \<open>A Go string is a sequence of bytes: \<open>HasPrefix\<close> is \<open>prefix\<close>, \<open>Contains\<close> is \<open>sublist\<close>.\<close>

definition HasPrefix :: "string \<Rightarrow> string \<Rightarrow> bool" where
  "HasPrefix s p \<longleftrightarrow> take (length p) s = p"

definition TrimPrefix :: "string \<Rightarrow> string \<Rightarrow> string" where
  "TrimPrefix s p = (if HasPrefix s p then drop (length p) s else s)"

definition HasSuffix :: "string \<Rightarrow> string \<Rightarrow> bool" where
  "HasSuffix s p \<longleftrightarrow> HasPrefix (rev s) (rev p)"

fun Split :: "char \<Rightarrow> string \<Rightarrow> string list" where
  "Split c [] = [[]]"
| "Split c (x # xs) =
     (if x = c then [] # Split c xs
      else (case Split c xs of [] \<Rightarrow> [[x]] | y # ys \<Rightarrow> (x # y) # ys))"

lemma Split_nonempty [simp]: "Split c s \<noteq> []"
  by (induction s) (auto split: list.splits)

lemma Split_no_sep: "p \<in> set (Split c s) \<Longrightarrow> c \<notin> set p"
proof (induction s arbitrary: p)
  case (Cons x xs)
  then show ?case
    by (cases "Split c xs") (auto split: if_splits)
qed simp

lemma Split_join: "concat (map (\<lambda>p. c # p) (Split c s)) = c # s"
proof (induction s)
  case (Cons x xs)
  then show ?case
    by (cases "Split c xs") auto
qed simp

text \<open>
  \<open>strings.EqualFold\<close> with an ASCII literal: ASCII letters fold, and the only other characters that
  fold to one are the long s (U+017F) and the Kelvin sign (U+212A).
\<close>

definition lower_char :: "char \<Rightarrow> char" where
  "lower_char c =
    (case map_of (zip ''ABCDEFGHIJKLMNOPQRSTUVWXYZ'' ''abcdefghijklmnopqrstuvwxyz'') c of
       None \<Rightarrow> c | Some d \<Rightarrow> d)"

fun fold_ascii :: "string \<Rightarrow> string" where
  "fold_ascii (c # cs) =
    (if c = CHR 0xC5 \<and> take 1 cs = [CHR 0xBF] then CHR ''s'' # fold_ascii (drop 1 cs)
     else if c = CHR 0xE2 \<and> take 2 cs = [CHR 0x84, CHR 0xAA] then CHR ''k'' # fold_ascii (drop 2 cs)
     else lower_char c # fold_ascii cs)"
| "fold_ascii [] = []"

definition EqualFold :: "string \<Rightarrow> string \<Rightarrow> bool" where
  "EqualFold s literal \<longleftrightarrow> fold_ascii s = fold_ascii literal"

definition lower_ascii :: "char \<Rightarrow> bool" where
  "lower_ascii c \<longleftrightarrow> c \<in> set ''abcdefghijklmnopqrstuvwxyz0123456789_-./ ''"

lemma lower_char_table: "list_all (\<lambda>c. lower_char c = c \<and> c \<noteq> CHR 0xC5 \<and> c \<noteq> CHR 0xE2)
    ''abcdefghijklmnopqrstuvwxyz0123456789_-./ ''"
  by code_simp

lemma lower_ascii_char: "lower_ascii c \<Longrightarrow> lower_char c = c \<and> c \<noteq> CHR 0xC5 \<and> c \<noteq> CHR 0xE2"
  using lower_char_table unfolding list_all_iff lower_ascii_def by blast

lemma fold_lower_ascii: "list_all lower_ascii s \<Longrightarrow> fold_ascii s = s"
  by (induction s rule: fold_ascii.induct) (auto simp: lower_ascii_char)

lemma EqualFold_lower: "list_all lower_ascii s \<Longrightarrow> list_all lower_ascii t \<Longrightarrow> EqualFold s t \<longleftrightarrow> s = t"
  by (simp add: EqualFold_def fold_lower_ascii)

lemma EqualFold_refl [simp]: "EqualFold s s"
  by (simp add: EqualFold_def)

text \<open>
  \<open>strings.TrimSpace\<close>: the white space of \<open>unicode.IsSpace\<close> as the byte sequences of its UTF-8
  encodings, the ASCII ones first.
\<close>

definition go_spaces :: "string list" where
  "go_spaces =
     map (\<lambda>c. [c]) [CHR 0x20, CHR 0x09, CHR 0x0A, CHR 0x0B, CHR 0x0C, CHR 0x0D]
   @ map (\<lambda>c. [CHR 0xC2, c]) [CHR 0x85, CHR 0xA0]
   @ map (\<lambda>c. [CHR 0xE2, CHR 0x80, c])
       [CHR 0x80, CHR 0x81, CHR 0x82, CHR 0x83, CHR 0x84, CHR 0x85, CHR 0x86, CHR 0x87, CHR 0x88,
        CHR 0x89, CHR 0x8A, CHR 0xA8, CHR 0xA9, CHR 0xAF]
   @ [[CHR 0xE1, CHR 0x9A, CHR 0x80], [CHR 0xE2, CHR 0x81, CHR 0x9F], [CHR 0xE3, CHR 0x80, CHR 0x80]]"

fun strip_one :: "string list \<Rightarrow> string \<Rightarrow> string option" where
  "strip_one [] s = None"
| "strip_one (w # ws) s =
     (if w \<noteq> [] \<and> HasPrefix s w then Some (drop (length w) s) else strip_one ws s)"

lemma strip_one_shorter: "strip_one ws s = Some t \<Longrightarrow> length t < length s"
  by (induction ws)
     (auto simp: HasPrefix_def split: if_splits
       intro!: diff_less dest: arg_cong [where f = length] simp flip: length_greater_0_conv)

function trim_left :: "string list \<Rightarrow> string \<Rightarrow> string" where
  "trim_left ws s = (case strip_one ws s of None \<Rightarrow> s | Some t \<Rightarrow> trim_left ws t)"
  by pat_completeness auto
termination
  by (relation "measure (\<lambda>(ws, s). length s)") (auto dest: strip_one_shorter)

declare trim_left.simps [simp del]

definition TrimSpace :: "string \<Rightarrow> string" where
  "TrimSpace s = rev (trim_left (map rev go_spaces) (rev (trim_left go_spaces s)))"

lemma strip_one_Nil [simp]: "strip_one ws [] = None"
  by (induction ws) (auto simp: HasPrefix_def)

lemma trim_left_Nil [simp]: "trim_left ws [] = []"
  by (simp add: trim_left.simps)

lemma TrimSpace_Nil [simp]: "TrimSpace [] = []"
  by (simp add: TrimSpace_def)

lemma trim_left_stops: "strip_one ws (trim_left ws s) = None"
proof (induction ws s rule: trim_left.induct)
  case (1 ws s)
  then show ?case
    by (cases "strip_one ws s") (simp_all add: trim_left.simps [of ws s])
qed

lemma trim_left_suffix: "\<exists>p. s = p @ trim_left ws s"
proof (induction ws s rule: trim_left.induct)
  case (1 ws s)
  show ?case
  proof (cases "strip_one ws s")
    case None
    then show ?thesis by (simp add: trim_left.simps [of ws s])
  next
    case (Some t)
    then obtain p where "t = p @ trim_left ws t" using 1 by auto
    moreover have "\<exists>q. s = q @ t"
      using Some by (induction ws) (auto split: if_splits intro: append_take_drop_id [symmetric])
    ultimately show ?thesis
      using Some by (metis append.assoc trim_left.simps option.simps(5))
  qed
qed

section \<open>Lists, options and maps\<close>

text \<open>The first error of a pass over a list wins, as an early return in a loop does.\<close>

fun first_error :: "('a \<Rightarrow> 'e + 'b) \<Rightarrow> 'a list \<Rightarrow> 'e + 'b list" where
  "first_error f [] = Inr []"
| "first_error f (x # xs) =
     (case f x of Inl e \<Rightarrow> Inl e
      | Inr y \<Rightarrow> (case first_error f xs of Inl e \<Rightarrow> Inl e | Inr ys \<Rightarrow> Inr (y # ys)))"

lemma first_error_length: "first_error f xs = Inr ys \<Longrightarrow> length ys = length xs"
  by (induction xs arbitrary: ys) (auto split: sum.splits)

lemma map_of_update [simp]: "map_of (AList.update k v xs) = (map_of xs)(k \<mapsto> v)"
  by (rule update_conv')

lemma map_of_delete [simp]: "map_of (AList.delete k xs) = (map_of xs)(k := None)"
  by (rule delete_conv')

lemma filter_key_unique:
  "distinct (map f xs) \<Longrightarrow> x \<in> set xs \<Longrightarrow> y \<in> set xs \<Longrightarrow> f x = f y \<Longrightarrow> x = y"
  by (auto simp: distinct_map inj_on_def)

lemma distinct_map_filter: "distinct (map f xs) \<Longrightarrow> distinct (map f (filter P xs))"
  by (induction xs) auto

lemma find_SomeD: "List.find P xs = Some x \<Longrightarrow> x \<in> set xs \<and> P x"
  by (auto simp: find_Some_iff in_set_conv_nth)

lemma find_unique:
  "distinct (map f xs) \<Longrightarrow> x \<in> set xs \<Longrightarrow> List.find (\<lambda>y. f y = f x) xs = Some x"
  by (induction xs) (auto simp: image_iff)

lemma find_None_iff_all: "List.find P xs = None \<longleftrightarrow> (\<forall>x\<in>set xs. \<not> P x)"
  by (auto simp: find_None_iff)

section \<open>Results\<close>

text \<open>What a function that can fail or panic does.\<close>

datatype 'a outcome = Panics | Fails string | Returns 'a

section \<open>Reachable states\<close>

inductive reach :: "('s \<Rightarrow> bool) \<Rightarrow> ('s \<Rightarrow> 's \<Rightarrow> bool) \<Rightarrow> 's \<Rightarrow> bool"
  for start :: "'s \<Rightarrow> bool" and step :: "'s \<Rightarrow> 's \<Rightarrow> bool" where
  reach_start: "start s \<Longrightarrow> reach start step s"
| reach_step: "reach start step s \<Longrightarrow> step s t \<Longrightarrow> reach start step t"

text \<open>
  The interface every stateful component offers: its initial states, its atomic steps and an
  invariant that the steps keep. Clients only use \<open>reach_inv\<close>.
\<close>

locale invariant_system =
  fixes start :: "'s \<Rightarrow> bool"
    and step :: "'s \<Rightarrow> 's \<Rightarrow> bool"
    and inv :: "'s \<Rightarrow> bool"
  assumes inv_start: "start s \<Longrightarrow> inv s"
    and inv_step: "inv s \<Longrightarrow> step s t \<Longrightarrow> inv t"
begin

lemma reach_inv: "reach start step s \<Longrightarrow> inv s"
  by (induction rule: reach.induct) (auto intro: inv_start inv_step)

end

text \<open>A component with a bounded resource: the invariant keeps its load under a fixed capacity.\<close>

locale bounded_system = invariant_system +
  fixes load :: "'s \<Rightarrow> nat" and capacity :: nat
  assumes inv_load: "inv s \<Longrightarrow> load s \<le> capacity"
begin

lemma reach_load: "reach start step s \<Longrightarrow> load s \<le> capacity"
  by (blast intro: reach_inv inv_load)

end

end
