(* ===== verification/Json.thy ===== *)
theory Json
  imports Prelude "HOL-Library.List_Lexorder" "HOL-Library.Char_ord"
begin

text \<open>
  JSON as \<open>encoding/json\<close> reads and writes it. A document is its syntax tree with the members of every
  object in the order of the text, a repeated key included; white space and the spelling of a number or
  string are not represented. Decoding into \<open>any\<close> or a map is \<open>canon\<close>: the last of two members with one
  key wins, keys are exact, and the keys are sorted, which is also how a map is written. Decoding into a
  struct goes through \<open>field\<close>: a member fills the field whose name it equals up to case, in text order.
\<close>

section \<open>Documents\<close>

datatype json =
    JNull
  | JBool bool
  | JNum rat
  | JStr string
  | JArr "json list"
  | JObj "(string \<times> json) list"

type_synonym object = "(string \<times> json) list"

datatype raw_json = Malformed string | Document json

fun as_object :: "json \<Rightarrow> object option" where
  "as_object (JObj m) = Some m"
| "as_object _ = None"

fun as_array :: "json \<Rightarrow> json list option" where
  "as_array (JArr xs) = Some xs"
| "as_array _ = None"

fun as_string :: "json \<Rightarrow> string option" where
  "as_string (JStr s) = Some s"
| "as_string _ = None"

definition member_object :: "object \<Rightarrow> string \<Rightarrow> object option" where
  "member_object m k = Option.bind (map_of m k) as_object"

definition member_array :: "object \<Rightarrow> string \<Rightarrow> json list option" where
  "member_array m k = Option.bind (map_of m k) as_array"

definition member_string :: "object \<Rightarrow> string \<Rightarrow> string option" where
  "member_string m k = Option.bind (map_of m k) as_string"

lemma member_update_same [simp]:
  "member_object (AList.update k (JObj v) m) k = Some v"
  "member_array (AList.update k (JArr xs) m) k = Some xs"
  "member_string (AList.update k (JStr s) m) k = Some s"
  by (simp_all add: member_object_def member_array_def member_string_def)

lemma member_update_other [simp]:
  "j \<noteq> k \<Longrightarrow> member_object (AList.update k v m) j = member_object m j"
  "j \<noteq> k \<Longrightarrow> member_array (AList.update k v m) j = member_array m j"
  "j \<noteq> k \<Longrightarrow> member_string (AList.update k v m) j = member_string m j"
  by (simp_all add: member_object_def member_array_def member_string_def)

lemma member_objectD: "member_object m k = Some v \<Longrightarrow> map_of m k = Some (JObj v)"
  by (auto simp: member_object_def bind_eq_Some_conv elim: as_object.elims)

section \<open>Decoding into a map\<close>

function canon :: "json \<Rightarrow> json" where
  "canon (JArr xs) = JArr (map canon xs)"
| "canon (JObj m) = JObj (sort_key fst (AList.clearjunk (rev (map (\<lambda>(k, v). (k, canon v)) m))))"
| "canon JNull = JNull"
| "canon (JBool b) = JBool b"
| "canon (JNum n) = JNum n"
| "canon (JStr s) = JStr s"
  by pat_completeness auto

lemma json_member_size: "(k, v) \<in> set m \<Longrightarrow> size v < Suc (size_list (size_prod (\<lambda>x. 0) size) m)"
  by (induction m) auto

lemma json_element_size: "x \<in> set xs \<Longrightarrow> size x < Suc (size_list size xs)"
  by (induction xs) auto

termination canon
  by (relation "measure size") (auto dest: json_member_size json_element_size)

definition members :: "object \<Rightarrow> object" where
  "members m = sort_key fst (AList.clearjunk (rev (map (\<lambda>(k, v). (k, canon v)) m)))"

lemma canon_JObj: "canon (JObj m) = JObj (members m)"
  by (simp add: members_def)

declare canon.simps(2) [simp del] canon_JObj [simp]

text \<open>
  \<open>json.Unmarshal\<close> into a \<open>map[string]any\<close>: a malformed text and a document that is neither an object
  nor null are errors, null leaves the nil map. \<open>json.Marshal\<close> of a map sorts its keys.
\<close>

fun unmarshal_object :: "raw_json \<Rightarrow> object option" where
  "unmarshal_object (Malformed _) = None"
| "unmarshal_object (Document JNull) = Some []"
| "unmarshal_object (Document (JObj m)) = Some (members m)"
| "unmarshal_object (Document _) = None"

definition marshal :: "object \<Rightarrow> raw_json" where
  "marshal m = Document (canon (JObj m))"

lemma distinct_sort_key: "distinct (map f (sort_key g m)) = distinct (map f m)"
  by (simp add: distinct_map)

lemma map_of_sort_key: "distinct (map fst m) \<Longrightarrow> map_of (sort_key fst m) = map_of m"
  by (rule map_of_inject_set [THEN iffD2]) (simp_all add: distinct_sort_key)

lemma distinct_members [simp]: "distinct (map fst (members m))"
  by (simp add: members_def distinct_sort_key distinct_clearjunk)

lemma sorted_members [simp]: "sorted (map fst (members m))"
  by (simp add: members_def)

lemma map_of_map_canon: "map_of (map (\<lambda>(k, v). (k, canon v)) m) k = map_option canon (map_of m k)"
  by (induction m) auto

lemma map_of_members: "map_of (members m) k = map_option canon (map_of (rev m) k)"
  by (simp add: members_def map_of_sort_key map_of_clearjunk rev_map map_of_map_canon)

lemma map_of_rev: "distinct (map fst m) \<Longrightarrow> map_of (rev m) = map_of m"
  by (rule map_of_inject_set [THEN iffD2]) (simp_all add: rev_map [symmetric])

lemma map_of_members_distinct:
  "distinct (map fst m) \<Longrightarrow> map_of (members m) k = map_option canon (map_of m k)"
  by (simp add: map_of_members map_of_rev)

lemma members_sorted_id:
  assumes "sorted (map fst m)" "distinct (map fst m)" "\<And>k v. (k, v) \<in> set m \<Longrightarrow> canon v = v"
  shows "members m = m"
proof -
  have "map (\<lambda>(k, v). (k, canon v)) m = m"
    using assms(3) by (auto intro: map_idI)
  moreover have "AList.clearjunk (rev m) = rev m"
    using assms(2) by (simp add: distinct_clearjunk_id rev_map [symmetric])
  ultimately have "members m = sort_key fst (rev m)" by (simp add: members_def)
  moreover have "sort_key fst (rev m) = m"
  proof (rule map_sorted_distinct_set_unique)
    show "inj_on fst (set (sort_key fst (rev m)) \<union> set m)"
      using assms(2) by (simp add: distinct_map)
  next
    show "distinct (map fst (sort_key fst (rev m)))"
      using assms(2) by (simp add: distinct_sort_key rev_map [symmetric])
  qed (use assms in simp_all)
  ultimately show ?thesis by simp
qed

lemma canon_idem [simp]: "canon (canon j) = canon j"
proof (induction j)
  case (JObj m)
  have "members (members m) = members m"
  proof (rule members_sorted_id)
    fix k v assume "(k, v) \<in> set (members m)"
    then have "map_of (members m) k = Some v" by simp
    then obtain u where "map_of (rev m) k = Some u" "v = canon u" by (auto simp: map_of_members)
    moreover from this have "(k, u) \<in> set m" by (auto dest: map_of_SomeD)
    ultimately show "canon v = v" using JObj by (force simp: snds.simps)
  qed simp_all
  then show ?case by simp
qed simp_all

lemma members_idem [simp]: "members (members m) = members m"
  using canon_idem [of "JObj m"] by simp

lemma members_value: "map_of (members m) k = Some v \<Longrightarrow> canon v = v"
  by (auto simp: map_of_members)

lemma canon_member: "canon (JObj m) = JObj m \<Longrightarrow> map_of m k = Some v \<Longrightarrow> canon v = v"
  using members_value [of m k v] by simp

lemma unmarshal_marshal [simp]: "unmarshal_object (marshal m) = Some (members m)"
  by (simp add: marshal_def)

lemma unmarshal_object_Some:
  "unmarshal_object r = Some m \<longleftrightarrow>
     (\<exists>m0. r = Document (JObj m0) \<and> m = members m0) \<or> r = Document JNull \<and> m = []"
  by (cases r rule: unmarshal_object.cases) auto

lemma unmarshal_object_canon:
  "unmarshal_object r = Some m \<Longrightarrow> members m = m \<and> distinct (map fst m)"
  by (auto simp: unmarshal_object_Some) (simp add: members_def)

section \<open>Decoding into a struct\<close>

text \<open>The values of the members that fill one field, in the order of the text.\<close>

definition field :: "string \<Rightarrow> object \<Rightarrow> json list" where
  "field name m = map snd (filter (\<lambda>(k, v). EqualFold k name) m)"

text \<open>The members a struct is filled from; null fills nothing.\<close>

fun struct_members :: "raw_json \<Rightarrow> object option" where
  "struct_members (Document JNull) = Some []"
| "struct_members (Document (JObj m)) = Some m"
| "struct_members _ = None"

text \<open>
  Filling a field again and again: a string field keeps the last string, a \<open>json.RawMessage\<close> the last
  value, a struct, a pointer to one and a map are filled further, and null leaves a string or struct
  alone but empties a pointer or map.
\<close>

fun string_field :: "string \<Rightarrow> json list \<Rightarrow> string option" where
  "string_field s [] = Some s"
| "string_field s (JNull # vs) = string_field s vs"
| "string_field s (JStr t # vs) = string_field t vs"
| "string_field s (v # vs) = None"

fun bool_field :: "bool \<Rightarrow> json list \<Rightarrow> bool option" where
  "bool_field b [] = Some b"
| "bool_field b (JNull # vs) = bool_field b vs"
| "bool_field b (JBool c # vs) = bool_field c vs"
| "bool_field b (v # vs) = None"

definition raw_field :: "json list \<Rightarrow> json option" where
  "raw_field vs = (if vs = [] then None else Some (last vs))"

fun struct_field :: "json list \<Rightarrow> object option" where
  "struct_field [] = Some []"
| "struct_field (JNull # vs) = struct_field vs"
| "struct_field (JObj m # vs) = map_option ((@) m) (struct_field vs)"
| "struct_field (v # vs) = None"

fun pointer_field :: "object option \<Rightarrow> json list \<Rightarrow> object option option" where
  "pointer_field acc [] = Some acc"
| "pointer_field acc (JNull # vs) = pointer_field None vs"
| "pointer_field acc (JObj m # vs) = pointer_field (Some (case acc of None \<Rightarrow> m | Some n \<Rightarrow> n @ m)) vs"
| "pointer_field acc (v # vs) = None"

definition map_field :: "json list \<Rightarrow> object option option" where
  "map_field vs = map_option (map_option members) (pointer_field None vs)"

section \<open>Comparing documents\<close>

text \<open>\<open>reflect.DeepEqual\<close> on decoded documents: objects are compared as maps.\<close>

function (sequential) DeepEqual :: "json \<Rightarrow> json \<Rightarrow> bool" where
  "DeepEqual (JArr xs) (JArr ys) =
     (length xs = length ys \<and> list_all (\<lambda>(x, y). DeepEqual x y) (zip xs ys))"
| "DeepEqual (JObj m) (JObj n) =
     (set (map fst m) = set (map fst n)
      \<and> list_all (\<lambda>(k, v). case map_of n k of None \<Rightarrow> False | Some w \<Rightarrow> DeepEqual v w) m)"
| "DeepEqual x y = (x = y)"
  by pat_completeness auto
termination
proof (relation "measure (\<lambda>(x, y). size x)", goal_cases)
  case 1
  then show ?case by simp
next
  case (2 xs ys z x y)
  then have "x \<in> set xs" by (auto dest: set_zip_leftD)
  then show ?case by (auto dest: json_element_size)
next
  case (3 m n x k v w)
  then show ?case using json_member_size [of k v m] by auto
qed

lemma DeepEqual_refl: "canon j = j \<Longrightarrow> DeepEqual j j"
proof (induction j)
  case (JArr xs)
  then show ?case by (auto simp: list_all_iff zip_same_conv_map map_eq_conv [of _ _ "\<lambda>x. x", simplified])
next
  case (JObj m)
  have d: "distinct (map fst m)" using JObj.prems distinct_members [of m] by simp
  have "map_of m k = Some v \<and> DeepEqual v v" if "(k, v) \<in> set m" for k v
    using that d JObj.IH canon_member [OF JObj.prems] by (force simp: snds.simps)
  then show ?case by (auto simp: list_all_iff)
qed auto

end
