(* ===== verification/ToolPolicy.thy ===== *)
theory ToolPolicy
  imports Json
begin

text \<open>
  \<open>cmd/gate/tool_policy.go\<close>: the per-agent tool policy. A policy is the pair of name sets parsed from
  the two comma-separated columns of the agent's row; the deny list wins, an empty allow list allows
  everything else. \<open>filterToolsList\<close> prunes a \<open>tools/list\<close> reply with it.
\<close>

record toolPolicy =
  allowed :: "string set"
  denied :: "string set"

definition parseToolSet :: "string \<Rightarrow> string set" where
  "parseToolSet value = set (filter (\<lambda>name. name \<noteq> []) (map TrimSpace (Split (CHR '','') value)))"

definition newToolPolicy :: "string \<Rightarrow> string \<Rightarrow> toolPolicy" where
  "newToolPolicy allowedStr deniedStr =
     \<lparr>allowed = parseToolSet allowedStr, denied = parseToolSet deniedStr\<rparr>"

definition allows :: "toolPolicy \<Rightarrow> string \<Rightarrow> bool" where
  "allows p name =
     (if name \<in> denied p then False
      else if allowed p = {} then True
      else name \<in> allowed p)"

text \<open>An entry of the tool array is kept unless it is an object with a name the policy refuses.\<close>

definition keep_tool :: "toolPolicy \<Rightarrow> json \<Rightarrow> bool" where
  "keep_tool policy tool =
     (case as_object tool of
        None \<Rightarrow> True
      | Some toolObject \<Rightarrow>
          (case member_string toolObject ''name'' of
             None \<Rightarrow> True
           | Some name \<Rightarrow> allows policy name))"

definition filterToolsList :: "raw_json \<Rightarrow> toolPolicy \<Rightarrow> string + raw_json" where
  "filterToolsList response policy =
     (case unmarshal_object response of
        None \<Rightarrow> Inl ''parse tools/list response''
      | Some msg \<Rightarrow>
          (case member_object msg ''result'' of
             None \<Rightarrow> Inr response
           | Some result \<Rightarrow>
               (case member_array result ''tools'' of
                  None \<Rightarrow> Inr response
                | Some tools \<Rightarrow>
                    Inr (marshal (AList.update ''result''
                      (JObj (AList.update ''tools'' (JArr (filter (keep_tool policy) tools)) result)) msg)))))"

section \<open>The policy\<close>

lemma parseToolSet_nonempty: "name \<in> parseToolSet v \<Longrightarrow> name \<noteq> []"
  by (auto simp: parseToolSet_def)

lemma parseToolSet_Nil [simp]: "parseToolSet [] = {}"
  by (simp add: parseToolSet_def)

lemma allows_iff:
  "allows p name \<longleftrightarrow> name \<notin> denied p \<and> (allowed p = {} \<or> name \<in> allowed p)"
  by (auto simp: allows_def)

text \<open>The names an agent may run are exactly those the deny column does not list and the allow
  column, when it lists any name, does; blank entries and the white space around a name do not count.\<close>

theorem policy_of_columns:
  "allows (newToolPolicy a d) name \<longleftrightarrow>
     (name = [] \<or> name \<notin> TrimSpace ` set (Split (CHR '','') d))
     \<and> ((\<forall>part \<in> set (Split (CHR '','') a). TrimSpace part = [])
        \<or> (name \<noteq> [] \<and> name \<in> TrimSpace ` set (Split (CHR '','') a)))"
  unfolding allows_iff newToolPolicy_def parseToolSet_def by auto

theorem policy_of_columns_witness:
  "allows (newToolPolicy '' read_file, ,write_file'' ''exec_command'') ''write_file''
   \<and> \<not> allows (newToolPolicy '' read_file, ,write_file'' ''exec_command'') ''find_files''"
proof -
  have "map TrimSpace (Split (CHR '','') '' read_file, ,write_file'') = [''read_file'', [], ''write_file'']"
    "map TrimSpace (Split (CHR '','') ''exec_command'') = [''exec_command'']"
    by code_simp+
  then have parts: "TrimSpace ` set (Split (CHR '','') '' read_file, ,write_file'') = set [''read_file'', [], ''write_file'']"
    "TrimSpace ` set (Split (CHR '','') ''exec_command'') = set [''exec_command'']"
    unfolding list.set_map [symmetric] by (simp_all only:)
  have "\<not> (\<forall>part \<in> set (Split (CHR '','') '' read_file, ,write_file''). TrimSpace part = [])"
  proof
    assume "\<forall>part \<in> set (Split (CHR '','') '' read_file, ,write_file''). TrimSpace part = []"
    then have "TrimSpace ` set (Split (CHR '','') '' read_file, ,write_file'') \<subseteq> {[]}" by blast
    then show False unfolding parts by simp
  qed
  then show ?thesis unfolding policy_of_columns parts by simp
qed

section \<open>Filtering a reply\<close>

definition reply_tools :: "raw_json \<Rightarrow> json list option" where
  "reply_tools r =
     Option.bind (unmarshal_object r)
       (\<lambda>msg. Option.bind (member_object msg ''result'') (\<lambda>result. member_array result ''tools''))"

lemma canon_JArr_id: "canon (JArr xs) = JArr xs \<Longrightarrow> x \<in> set xs \<Longrightarrow> canon x = x"
  by simp (metis map_eq_conv list.map_ident)

lemma reply_tools_canon:
  assumes "member_object msg ''result'' = Some result" "members msg = msg"
    "member_array result ''tools'' = Some tools"
  shows "members result = result \<and> map canon tools = tools"
proof -
  from assms(1) have r: "map_of msg ''result'' = Some (JObj result)" by (rule member_objectD)
  then have "canon (JObj result) = JObj result" using members_value [of msg] assms(2) by metis
  then have res: "members result = result" by simp
  moreover have "map_of result ''tools'' = Some (JArr tools)"
    using assms(3) by (auto simp: member_array_def bind_eq_Some_conv elim: as_array.elims)
  ultimately have "canon (JArr tools) = JArr tools" using members_value [of result] by metis
  with res show ?thesis by simp
qed

lemma filterToolsList_tools:
  assumes "filterToolsList r p = Inr r'"
  shows "reply_tools r' = map_option (filter (keep_tool p)) (reply_tools r)"
proof (cases "reply_tools r")
  case None
  then show ?thesis using assms
    by (auto simp: filterToolsList_def reply_tools_def split: option.splits)
next
  case (Some tools)
  then obtain msg result where
    m: "unmarshal_object r = Some msg" "member_object msg ''result'' = Some result"
      "member_array result ''tools'' = Some tools"
    by (auto simp: reply_tools_def bind_eq_Some_conv)
  then have c: "members msg = msg" "distinct (map fst msg)" by (auto dest: unmarshal_object_canon)
  have res: "members result = result" "map canon tools = tools"
    using reply_tools_canon [OF m(2) c(1) m(3)] by auto
  have d: "distinct (map fst result)" using distinct_members [of result] res(1) by simp
  have "map canon (filter (keep_tool p) tools) = filter (keep_tool p) tools"
    using res(2) by (induction tools) auto
  moreover have "r' = marshal (AList.update ''result''
      (JObj (AList.update ''tools'' (JArr (filter (keep_tool p) tools)) result)) msg)"
    using assms m by (simp add: filterToolsList_def)
  ultimately have "reply_tools r' = Some (filter (keep_tool p) tools)"
    using c(2) d
    by (simp add: reply_tools_def member_object_def member_array_def map_of_members_distinct distinct_update)
  then show ?thesis using Some by simp
qed

lemma filterToolsList_fails: "filterToolsList r p = Inl e \<longleftrightarrow>
    unmarshal_object r = None \<and> e = ''parse tools/list response''"
  by (auto simp: filterToolsList_def split: option.splits)

end
