(* ===== verification/Store.thy ===== *)
theory Store
  imports Prelude "HOL-Library.List_Lexorder" "HOL-Library.Char_ord" "HOL-Library.Product_Lexorder"
begin

text \<open>
  The gate's persistence layer: \<open>cmd/gate/models.go\<close>, \<open>store.go\<close>, \<open>mcp_clients.go\<close> and the grant
  queries of \<open>mcp_agents.go\<close>. The four tables are lists of rows, one definition per Go method, each the
  meaning of the SQL statement the method runs: \<open>UNIQUE\<close> and \<open>PRIMARY KEY\<close> refuse an insert or update,
  \<open>REFERENCES ... ON DELETE CASCADE\<close> refuses a dangling row and deletes the dependent ones, and
  \<open>RowsAffected\<close> counts the matching rows. \<open>reachable_db\<close> is False while the engine itself fails; then
  every operation is an error. A failed operation leaves the tables as they were. The invariant
  \<open>consistent\<close> is kept by every operation.
\<close>

section \<open>Rows\<close>

record agent =
  a_id :: string
  a_name :: string
  a_enabled :: bool
  a_tokenHash :: string
  a_allowedRoots :: string
  a_allowedTools :: string
  a_deniedTools :: string
  a_createdAt :: time
  a_updatedAt :: time
  a_lastSeenAt :: "time option"

record mcpClient =
  c_id :: string
  c_name :: string
  c_enabled :: bool
  c_oauthClientID :: string
  c_secretHash :: string
  c_createdAt :: time
  c_updatedAt :: time

record accessToken =
  t_hash :: string
  t_clientID :: string
  t_expiresAt :: time
  t_createdAt :: time

record db =
  agents :: "agent list"
  clients :: "mcpClient list"
  tokens :: "accessToken list"
  grants :: "(string \<times> string) list"
  reachable_db :: bool

datatype store_error = AgentNotFound | AccessTokenNotFound | NoRows | StoreFault string

definition DefaultAllowedRoots :: string where
  "DefaultAllowedRoots = ''C:'' @ [CHR 92] @ ''projects;W:'' @ [CHR 92]"

section \<open>Statements over one table\<close>

definition update_rows :: "('r \<Rightarrow> bool) \<Rightarrow> ('r \<Rightarrow> 'r) \<Rightarrow> 'r list \<Rightarrow> 'r list" where
  "update_rows P f rows = map (\<lambda>r. if P r then f r else r) rows"

definition delete_rows :: "('r \<Rightarrow> bool) \<Rightarrow> 'r list \<Rightarrow> 'r list" where
  "delete_rows P rows = filter (\<lambda>r. \<not> P r) rows"

definition rows_affected :: "('r \<Rightarrow> bool) \<Rightarrow> 'r list \<Rightarrow> nat" where
  "rows_affected P rows = length (filter P rows)"

lemma rows_affected_0: "rows_affected P rows = 0 \<longleftrightarrow> (\<forall>r\<in>set rows. \<not> P r)"
  by (simp add: rows_affected_def filter_empty_conv)

lemma set_delete_rows [simp]: "set (delete_rows P rows) = {r \<in> set rows. \<not> P r}"
  by (auto simp: delete_rows_def)

lemma set_update_rows: "set (update_rows P f rows) = (\<lambda>r. if P r then f r else r) ` set rows"
  by (simp add: update_rows_def)

lemma image_delete_rows: "k ` set rows \<subseteq> T \<Longrightarrow> k ` {r \<in> set rows. \<not> P r} \<subseteq> T"
  by auto

lemma distinct_delete_rows: "distinct (map k rows) \<Longrightarrow> distinct (map k (delete_rows P rows))"
  by (simp add: delete_rows_def distinct_map_filter)

lemma map_update_rows_frame:
  "(\<And>r. k (f r) = k r) \<Longrightarrow> map k (update_rows P f rows) = map k rows"
  by (simp add: update_rows_def)

lemma image_update_rows:
  assumes "\<And>r. k (f r) = k r" shows "k ` set (update_rows P f rows) = k ` set rows"
  using map_update_rows_frame [of k f, OF assms] by (metis list.set_map)

lemma distinct_update_one:
  assumes "distinct (map k rows)" "distinct (map i rows)"
    and "\<And>r. r \<in> set rows \<Longrightarrow> i r \<noteq> x \<Longrightarrow> k r \<noteq> h" "\<And>r. k (f r) = h"
  shows "distinct (map k (update_rows (\<lambda>r. i r = x) f rows))"
proof -
  let ?g = "\<lambda>r. k (if i r = x then f r else r)"
  have "inj_on ?g (set rows)"
  proof (rule inj_onI)
    fix r s assume "r \<in> set rows" "s \<in> set rows" "?g r = ?g s"
    then show "r = s"
      using assms(3) [of r] assms(3) [of s] assms(4)
        filter_key_unique [OF assms(1), of r s] filter_key_unique [OF assms(2), of r s]
      by (auto split: if_splits)
  qed
  moreover have "distinct rows"
    using assms(1) by (simp add: distinct_map)
  ultimately show ?thesis
    by (simp add: update_rows_def distinct_map comp_def inj_on_def)
qed

section \<open>Instants in the tables\<close>

text \<open>
  Instants are stored as \<open>RFC3339Nano\<close> text. Up to the seconds the text has a fixed width and orders
  as the instants do; the fraction is printed without its trailing zeros, and left out when it is 0.
\<close>

fun digits :: "nat \<Rightarrow> nat \<Rightarrow> string" where
  "digits 0 n = []"
| "digits (Suc k) n = digits k (n div 10) @ [char_of (48 + n mod 10)]"

definition fraction_text :: "nat \<Rightarrow> string" where
  "fraction_text n =
     (if n = 0 then ''Z''
      else ''.'' @ rev (dropWhile (\<lambda>c. c = CHR ''0'') (rev (digits 9 n))) @ ''Z'')"

definition RFC3339Nano :: "time \<Rightarrow> int \<times> string" where
  "RFC3339Nano t = (t div 1000000000, fraction_text (nat (t mod 1000000000)))"

text \<open>\<open>BINARY\<close> collation of two stored instants.\<close>

definition text_le :: "time \<Rightarrow> time \<Rightarrow> bool" where
  "text_le s t \<longleftrightarrow> RFC3339Nano s \<le> RFC3339Nano t"

definition formatNullableTime :: "time option \<Rightarrow> time option" where
  "formatNullableTime t = (case t of None \<Rightarrow> None | Some u \<Rightarrow> if IsZero u then None else Some u)"

lemma text_le_seconds:
  "s div 1000000000 \<noteq> t div 1000000000 \<Longrightarrow> text_le s t \<longleftrightarrow> s \<le> t"
  unfolding text_le_def RFC3339Nano_def less_eq_prod_simp
  by (auto simp: le_less dest: zdiv_mono1 [where b = 1000000000] zdiv_mono1 [of t s 1000000000])

section \<open>Agents\<close>

definition CreateAgent :: "time \<Rightarrow> agent \<Rightarrow> db \<Rightarrow> store_error + db" where
  "CreateAgent now a d =
    (let a = (if a_allowedRoots a = [] then a\<lparr>a_allowedRoots := DefaultAllowedRoots\<rparr> else a);
         a = (if IsZero (a_createdAt a) then a\<lparr>a_createdAt := now\<rparr> else a);
         a = (if IsZero (a_updatedAt a) then a\<lparr>a_updatedAt := now\<rparr> else a);
         a = a\<lparr>a_lastSeenAt := formatNullableTime (a_lastSeenAt a)\<rparr>
     in if \<not> reachable_db d then Inl (StoreFault ''create agent'')
        else if a_id a \<in> a_id ` set (agents d) \<or> a_tokenHash a \<in> a_tokenHash ` set (agents d)
        then Inl (StoreFault ''create agent'')
        else Inr (d\<lparr>agents := agents d @ [a]\<rparr>))"

definition ListAgents :: "db \<Rightarrow> store_error + agent list" where
  "ListAgents d =
    (if reachable_db d then Inr (sort_key (\<lambda>a. (a_name a, a_id a)) (agents d))
     else Inl (StoreFault ''list agents''))"

definition GetAgent :: "string \<Rightarrow> db \<Rightarrow> store_error + agent" where
  "GetAgent i d =
    (if \<not> reachable_db d then Inl (StoreFault ''scan agent'')
     else case List.find (\<lambda>a. a_id a = i) (agents d) of
       None \<Rightarrow> Inl AgentNotFound | Some a \<Rightarrow> Inr a)"

definition FindAgentByAgentTokenHash :: "string \<Rightarrow> db \<Rightarrow> store_error + agent" where
  "FindAgentByAgentTokenHash h d =
    (if \<not> reachable_db d then Inl (StoreFault ''scan agent'')
     else case List.find (\<lambda>a. a_tokenHash a = h) (agents d) of
       None \<Rightarrow> Inl AgentNotFound | Some a \<Rightarrow> Inr a)"

definition SetAgentEnabled :: "time \<Rightarrow> string \<Rightarrow> bool \<Rightarrow> db \<Rightarrow> store_error + db" where
  "SetAgentEnabled now i e d =
    (if \<not> reachable_db d then Inl (StoreFault ''set agent enabled'')
     else if rows_affected (\<lambda>a. a_id a = i) (agents d) = 0 then Inl AgentNotFound
     else Inr (d\<lparr>agents := update_rows (\<lambda>a. a_id a = i)
            (\<lambda>a. a\<lparr>a_enabled := e, a_updatedAt := now\<rparr>) (agents d)\<rparr>))"

definition UpdateAgentTokenHash :: "time \<Rightarrow> string \<Rightarrow> string \<Rightarrow> db \<Rightarrow> store_error + db" where
  "UpdateAgentTokenHash now i h d =
    (if \<not> reachable_db d then Inl (StoreFault ''update agent token hash'')
     else if rows_affected (\<lambda>a. a_id a = i) (agents d) = 0 then Inl AgentNotFound
     else if \<exists>a\<in>set (agents d). a_id a \<noteq> i \<and> a_tokenHash a = h
     then Inl (StoreFault ''update agent token hash'')
     else Inr (d\<lparr>agents := update_rows (\<lambda>a. a_id a = i)
            (\<lambda>a. a\<lparr>a_tokenHash := h, a_updatedAt := now\<rparr>) (agents d)\<rparr>))"

definition UpdateToolPolicy :: "time \<Rightarrow> string \<Rightarrow> string \<Rightarrow> string \<Rightarrow> db \<Rightarrow> store_error + db" where
  "UpdateToolPolicy now i al de d =
    (if \<not> reachable_db d then Inl (StoreFault ''update tool policy'')
     else if rows_affected (\<lambda>a. a_id a = i) (agents d) = 0 then Inl AgentNotFound
     else Inr (d\<lparr>agents := update_rows (\<lambda>a. a_id a = i)
            (\<lambda>a. a\<lparr>a_allowedTools := al, a_deniedTools := de, a_updatedAt := now\<rparr>) (agents d)\<rparr>))"

text \<open>Deleting an agent cascades to its grants.\<close>

definition DeleteAgent :: "string \<Rightarrow> db \<Rightarrow> store_error + db" where
  "DeleteAgent i d =
    (if \<not> reachable_db d then Inl (StoreFault ''delete agent'')
     else if rows_affected (\<lambda>a. a_id a = i) (agents d) = 0 then Inl AgentNotFound
     else Inr (d\<lparr>agents := delete_rows (\<lambda>a. a_id a = i) (agents d),
                 grants := delete_rows (\<lambda>g. snd g = i) (grants d)\<rparr>))"

definition UpdateLastSeen :: "string \<Rightarrow> time \<Rightarrow> db \<Rightarrow> store_error + db" where
  "UpdateLastSeen i seenAt d =
    (if \<not> reachable_db d then Inl (StoreFault ''update last seen'')
     else Inr (d\<lparr>agents := update_rows (\<lambda>a. a_id a = i)
            (\<lambda>a. a\<lparr>a_lastSeenAt := Some seenAt\<rparr>) (agents d)\<rparr>))"

definition UpdateAllowedRoots :: "time \<Rightarrow> string \<Rightarrow> string \<Rightarrow> db \<Rightarrow> store_error + db" where
  "UpdateAllowedRoots now i roots d =
    (if \<not> reachable_db d then Inl (StoreFault ''update roots'')
     else Inr (d\<lparr>agents := update_rows (\<lambda>a. a_id a = i)
            (\<lambda>a. a\<lparr>a_allowedRoots := roots, a_updatedAt := now\<rparr>) (agents d)\<rparr>))"

section \<open>MCP registrations, their tokens and their grants\<close>

definition CreateMCPClient :: "time \<Rightarrow> mcpClient \<Rightarrow> db \<Rightarrow> store_error + db" where
  "CreateMCPClient now c d =
    (let c = c\<lparr>c_createdAt := now, c_updatedAt := now\<rparr>
     in if \<not> reachable_db d then Inl (StoreFault ''create client'')
        else if c_id c \<in> c_id ` set (clients d) \<or> c_oauthClientID c \<in> c_oauthClientID ` set (clients d)
        then Inl (StoreFault ''create client'')
        else Inr (d\<lparr>clients := clients d @ [c]\<rparr>))"

definition GetMCPClient :: "string \<Rightarrow> db \<Rightarrow> store_error + mcpClient" where
  "GetMCPClient i d =
    (if \<not> reachable_db d then Inl (StoreFault ''scan client'')
     else case List.find (\<lambda>c. c_id c = i) (clients d) of None \<Rightarrow> Inl NoRows | Some c \<Rightarrow> Inr c)"

definition FindMCPClientByOAuthClientID :: "string \<Rightarrow> db \<Rightarrow> store_error + mcpClient" where
  "FindMCPClientByOAuthClientID i d =
    (if \<not> reachable_db d then Inl (StoreFault ''scan client'')
     else case List.find (\<lambda>c. c_oauthClientID c = i) (clients d) of
       None \<Rightarrow> Inl NoRows | Some c \<Rightarrow> Inr c)"

definition ListMCPClients :: "db \<Rightarrow> store_error + mcpClient list" where
  "ListMCPClients d =
    (if reachable_db d then Inr (sort_key (\<lambda>c. (c_name c, c_id c)) (clients d))
     else Inl (StoreFault ''list clients''))"

definition FindMCPClientByAccessTokenHash :: "string \<Rightarrow> db \<Rightarrow> store_error + (mcpClient \<times> accessToken)" where
  "FindMCPClientByAccessTokenHash h d =
    (if \<not> reachable_db d then Inl (StoreFault ''scan token'')
     else case List.find (\<lambda>t. t_hash t = h) (tokens d) of
       None \<Rightarrow> Inl AccessTokenNotFound
     | Some t \<Rightarrow> (case GetMCPClient (t_clientID t) d of
         Inl e \<Rightarrow> Inl e | Inr c \<Rightarrow> Inr (c, t)))"

definition SetMCPClientEnabled :: "time \<Rightarrow> string \<Rightarrow> bool \<Rightarrow> db \<Rightarrow> store_error + db" where
  "SetMCPClientEnabled now i e d =
    (if \<not> reachable_db d then Inl (StoreFault ''update client'')
     else Inr (d\<lparr>clients := update_rows (\<lambda>c. c_id c = i)
            (\<lambda>c. c\<lparr>c_enabled := e, c_updatedAt := now\<rparr>) (clients d)\<rparr>))"

text \<open>Rotating the OAuth secret revokes every live token of the registration in the same transaction.\<close>

definition UpdateOAuthSecretHash :: "time \<Rightarrow> string \<Rightarrow> string \<Rightarrow> db \<Rightarrow> store_error + db" where
  "UpdateOAuthSecretHash now i h d =
    (if \<not> reachable_db d then Inl (StoreFault ''rotate secret'')
     else Inr (d\<lparr>clients := update_rows (\<lambda>c. c_id c = i)
                 (\<lambda>c. c\<lparr>c_secretHash := h, c_updatedAt := now\<rparr>) (clients d),
               tokens := delete_rows (\<lambda>t. t_clientID t = i) (tokens d)\<rparr>))"

definition DeleteMCPClient :: "string \<Rightarrow> db \<Rightarrow> store_error + db" where
  "DeleteMCPClient i d =
    (if \<not> reachable_db d then Inl (StoreFault ''delete client'')
     else Inr (d\<lparr>clients := delete_rows (\<lambda>c. c_id c = i) (clients d),
               tokens := delete_rows (\<lambda>t. t_clientID t = i) (tokens d),
               grants := delete_rows (\<lambda>g. fst g = i) (grants d)\<rparr>))"

definition CreateAccessToken :: "time \<Rightarrow> accessToken \<Rightarrow> db \<Rightarrow> store_error + db" where
  "CreateAccessToken now t d =
    (let t = (if IsZero (t_createdAt t) then t\<lparr>t_createdAt := now\<rparr> else t)
     in if \<not> reachable_db d \<or> t_hash t \<in> t_hash ` set (tokens d) \<or> t_clientID t \<notin> c_id ` set (clients d)
        then Inl (StoreFault ''create access token'')
        else Inr (d\<lparr>tokens := tokens d @ [t]\<rparr>))"

definition RevokeAccessTokens :: "string \<Rightarrow> db \<Rightarrow> store_error + db" where
  "RevokeAccessTokens i d =
    (if \<not> reachable_db d then Inl (StoreFault ''revoke access tokens'')
     else Inr (d\<lparr>tokens := delete_rows (\<lambda>t. t_clientID t = i) (tokens d)\<rparr>))"

definition DeleteExpiredAccessTokens :: "time \<Rightarrow> db \<Rightarrow> store_error + db" where
  "DeleteExpiredAccessTokens now d =
    (if \<not> reachable_db d then Inl (StoreFault ''delete expired access tokens'')
     else Inr (d\<lparr>tokens := delete_rows (\<lambda>t. text_le (t_expiresAt t) now) (tokens d)\<rparr>))"

definition ListMCPAgentIDs :: "string \<Rightarrow> db \<Rightarrow> store_error + string list" where
  "ListMCPAgentIDs c d =
    (if reachable_db d then Inr (sort (map snd (filter (\<lambda>g. fst g = c) (grants d))))
     else Inl (StoreFault ''list grants''))"

text \<open>
  \<open>SetMCPAgents\<close> replaces the grants of a registration in one transaction: an unknown registration or
  agent rolls everything back.
\<close>

fun insert_grants :: "string \<Rightarrow> string list \<Rightarrow> db \<Rightarrow> store_error + db" where
  "insert_grants c [] d = Inr d"
| "insert_grants c (i # is) d =
    (if i \<notin> a_id ` set (agents d) then Inl AgentNotFound
     else if (c, i) \<in> set (grants d) then insert_grants c is d
     else insert_grants c is (d\<lparr>grants := grants d @ [(c, i)]\<rparr>))"

definition SetMCPAgents :: "string \<Rightarrow> string list \<Rightarrow> db \<Rightarrow> store_error + db" where
  "SetMCPAgents c targetIDs d =
    (if \<not> reachable_db d then Inl (StoreFault ''set grants'')
     else if c \<notin> c_id ` set (clients d) then Inl AgentNotFound
     else insert_grants c targetIDs (d\<lparr>grants := delete_rows (\<lambda>g. fst g = c) (grants d)\<rparr>))"

section \<open>Upgrading a database of per-agent registrations\<close>

text \<open>
  Before the split an agent's row also held its OAuth registration, and a token referred to the agent.
  \<open>migrateLegacyClients\<close> moves both inside one transaction; dropping the old \<open>agents\<close> table deletes the
  grants that referred to it. \<open>None\<close> is a database whose \<open>agents\<close> table has no \<open>oauth_client_id\<close> column.
\<close>

record legacyAgent =
  l_id :: string
  l_name :: string
  l_enabled :: bool
  l_oauthClientID :: string
  l_secretHash :: string
  l_tokenHash :: string
  l_allowedTools :: string
  l_deniedTools :: string
  l_createdAt :: time
  l_updatedAt :: time
  l_lastSeenAt :: "time option"

definition legacy_client :: "legacyAgent \<Rightarrow> mcpClient" where
  "legacy_client l = \<lparr>c_id = l_id l, c_name = l_name l, c_enabled = l_enabled l,
     c_oauthClientID = l_oauthClientID l, c_secretHash = l_secretHash l,
     c_createdAt = l_createdAt l, c_updatedAt = l_updatedAt l\<rparr>"

definition legacy_agent :: "legacyAgent \<Rightarrow> agent" where
  "legacy_agent l = \<lparr>a_id = l_id l, a_name = l_name l, a_enabled = l_enabled l,
     a_tokenHash = l_tokenHash l, a_allowedRoots = DefaultAllowedRoots,
     a_allowedTools = l_allowedTools l, a_deniedTools = l_deniedTools l,
     a_createdAt = l_createdAt l, a_updatedAt = l_updatedAt l, a_lastSeenAt = l_lastSeenAt l\<rparr>"

definition migrateLegacyClients ::
  "(legacyAgent list \<times> accessToken list) option \<Rightarrow> db \<Rightarrow> store_error + db" where
  "migrateLegacyClients legacy d =
    (case legacy of
       None \<Rightarrow> Inr d
     | Some (old, access_tokens) \<Rightarrow>
         let cs = clients d @ map legacy_client old;
             ts = tokens d @ access_tokens;
             as = map legacy_agent old
         in if \<not> reachable_db d
               \<or> \<not> distinct (map c_id cs) \<or> \<not> distinct (map c_oauthClientID cs)
               \<or> \<not> distinct (map t_hash ts) \<or> \<not> t_clientID ` set access_tokens \<subseteq> c_id ` set cs
               \<or> \<not> distinct (map a_id as) \<or> \<not> distinct (map a_tokenHash as)
            then Inl (StoreFault ''migrate MCP registrations'')
            else Inr (d\<lparr>clients := cs, tokens := ts, agents := as,
                        grants := map (\<lambda>a. (a_id a, a_id a)) as\<rparr>))"

end
