(* ===== verification/StoreFacts.thy ===== *)
theory StoreFacts
  imports Store
begin

text \<open>
  Correctness of the persistence layer: the integrity invariant \<open>consistent\<close> of the four tables, kept
  by every operation, and what each operation does to the lookups that authentication and routing use.
\<close>

definition consistent :: "db \<Rightarrow> bool" where
  "consistent d \<longleftrightarrow>
     distinct (map a_id (agents d)) \<and> distinct (map a_tokenHash (agents d))
     \<and> distinct (map c_id (clients d)) \<and> distinct (map c_oauthClientID (clients d))
     \<and> distinct (map t_hash (tokens d)) \<and> distinct (grants d)
     \<and> t_clientID ` set (tokens d) \<subseteq> c_id ` set (clients d)
     \<and> fst ` set (grants d) \<subseteq> c_id ` set (clients d)
     \<and> snd ` set (grants d) \<subseteq> a_id ` set (agents d)"

definition empty_db :: db where
  "empty_db = \<lparr>agents = [], clients = [], tokens = [], grants = [], reachable_db = True\<rparr>"

inductive store_step :: "db \<Rightarrow> db \<Rightarrow> bool" where
  "CreateAgent now a d = Inr d' \<Longrightarrow> store_step d d'"
| "SetAgentEnabled now i e d = Inr d' \<Longrightarrow> store_step d d'"
| "UpdateAgentTokenHash now i h d = Inr d' \<Longrightarrow> store_step d d'"
| "UpdateToolPolicy now i al de d = Inr d' \<Longrightarrow> store_step d d'"
| "DeleteAgent i d = Inr d' \<Longrightarrow> store_step d d'"
| "UpdateLastSeen i now d = Inr d' \<Longrightarrow> store_step d d'"
| "UpdateAllowedRoots now i roots d = Inr d' \<Longrightarrow> store_step d d'"
| "CreateMCPClient now c d = Inr d' \<Longrightarrow> store_step d d'"
| "SetMCPClientEnabled now i e d = Inr d' \<Longrightarrow> store_step d d'"
| "UpdateOAuthSecretHash now i h d = Inr d' \<Longrightarrow> store_step d d'"
| "DeleteMCPClient i d = Inr d' \<Longrightarrow> store_step d d'"
| "CreateAccessToken now t d = Inr d' \<Longrightarrow> store_step d d'"
| "RevokeAccessTokens i d = Inr d' \<Longrightarrow> store_step d d'"
| "DeleteExpiredAccessTokens now d = Inr d' \<Longrightarrow> store_step d d'"
| "SetMCPAgents i ids d = Inr d' \<Longrightarrow> store_step d d'"
| "migrateLegacyClients legacy d = Inr d' \<Longrightarrow> store_step d d'"
| "store_step d (d\<lparr>reachable_db := up\<rparr>)"

lemma consistent_update_agents:
  assumes "consistent d" "\<And>a. a_id (f a) = a_id a" "\<And>a. a_tokenHash (f a) = a_tokenHash a"
  shows "consistent (d\<lparr>agents := update_rows P f (agents d)\<rparr>)"
  using assms by (simp add: consistent_def map_update_rows_frame image_update_rows)

lemma consistent_update_clients:
  assumes "consistent d" "\<And>a. c_id (f a) = c_id a" "\<And>a. c_oauthClientID (f a) = c_oauthClientID a"
  shows "consistent (d\<lparr>clients := update_rows P f (clients d)\<rparr>)"
  using assms by (simp add: consistent_def map_update_rows_frame image_update_rows)

lemma consistent_fewer_tokens:
  assumes "consistent d" shows "consistent (d\<lparr>tokens := delete_rows P (tokens d)\<rparr>)"
  using assms by (simp add: consistent_def distinct_delete_rows image_delete_rows)

lemma insert_grants_frame:
  "insert_grants c is d = Inr d' \<Longrightarrow> agents d' = agents d \<and> clients d' = clients d \<and> tokens d' = tokens d
     \<and> reachable_db d' = reachable_db d"
  by (induction c "is" d rule: insert_grants.induct) (auto split: if_splits)

lemma insert_grants_set:
  "insert_grants c is d = Inr d' \<Longrightarrow>
     set (grants d') = set (grants d) \<union> Pair c ` set is \<and> set is \<subseteq> a_id ` set (agents d)"
  by (induction c "is" d rule: insert_grants.induct) (auto split: if_splits)

lemma insert_grants_consistent:
  "insert_grants c is d = Inr d' \<Longrightarrow> consistent d \<Longrightarrow> c \<in> c_id ` set (clients d) \<Longrightarrow> consistent d'"
proof (induction c "is" d rule: insert_grants.induct)
  case (2 c i "is" d)
  then show ?case
    by (auto split: if_splits simp: consistent_def)
qed simp

lemma consistent_fewer_grants:
  assumes "consistent d" shows "consistent (d\<lparr>grants := delete_rows P (grants d)\<rparr>)"
  using assms distinct_delete_rows [of id] by (auto simp: consistent_def)

lemma consistent_rehash:
  assumes "consistent d" "\<not> (\<exists>a\<in>set (agents d). a_id a \<noteq> i \<and> a_tokenHash a = h)"
    and "\<And>a. a_id (f a) = a_id a" "\<And>a. a_tokenHash (f a) = h"
  shows "consistent (d\<lparr>agents := update_rows (\<lambda>a. a_id a = i) f (agents d)\<rparr>)"
  using assms distinct_update_one [of a_tokenHash "agents d" a_id i h f]
  by (auto simp: consistent_def map_update_rows_frame image_update_rows)

lemma consistent_migrate:
  assumes "migrateLegacyClients legacy d = Inr d'" "consistent d"
  shows "consistent d'"
proof (cases legacy)
  case None
  then show ?thesis using assms by (simp add: migrateLegacyClients_def)
next
  case (Some l)
  obtain old ts where l: "l = (old, ts)" by (cases l)
  let ?cs = "clients d @ map legacy_client old" and ?as = "map legacy_agent old"
  have ids: "a_id ` set ?as = c_id ` legacy_client ` set old"
    by (force simp: legacy_client_def legacy_agent_def image_iff)
  have ok: "distinct (map c_id ?cs)" "distinct (map c_oauthClientID ?cs)"
      "distinct (map t_hash (tokens d @ ts))" "t_clientID ` set ts \<subseteq> c_id ` set ?cs"
      "distinct (map a_id ?as)" "distinct (map a_tokenHash ?as)"
    and d': "d' = d\<lparr>clients := ?cs, tokens := tokens d @ ts, agents := ?as,
        grants := map (\<lambda>a. (a_id a, a_id a)) ?as\<rparr>"
    using assms(1) unfolding Some l migrateLegacyClients_def Let_def
    by (simp_all split: if_splits)
  have "distinct (map (\<lambda>a. (a_id a, a_id a)) ?as)"
    using ok(5) unfolding distinct_map inj_on_def by blast
  moreover have "t_clientID ` set (tokens d @ ts) \<subseteq> c_id ` set ?cs"
    using ok(4) assms(2) by (auto simp: consistent_def)
  moreover have "fst ` set (map (\<lambda>a. (a_id a, a_id a)) ?as) \<subseteq> c_id ` set ?cs"
    and "snd ` set (map (\<lambda>a. (a_id a, a_id a)) ?as) \<subseteq> a_id ` set ?as"
    using ids by (simp_all add: image_image image_Un)
  ultimately show ?thesis
    using ok unfolding d' consistent_def by simp
qed

lemma consistent_delete_agent:
  assumes "consistent d"
  shows "consistent (d\<lparr>agents := delete_rows (\<lambda>a. a_id a = i) (agents d),
     grants := delete_rows (\<lambda>g. snd g = i) (grants d)\<rparr>)"
  using assms distinct_delete_rows [of id] by (auto simp: consistent_def distinct_delete_rows)

lemma consistent_delete_client:
  assumes "consistent d"
  shows "consistent (d\<lparr>clients := delete_rows (\<lambda>c. c_id c = i) (clients d),
     tokens := delete_rows (\<lambda>t. t_clientID t = i) (tokens d),
     grants := delete_rows (\<lambda>g. fst g = i) (grants d)\<rparr>)"
  using assms distinct_delete_rows [of id] by (auto simp: consistent_def distinct_delete_rows)

lemma consistent_set_grants:
  assumes "SetMCPAgents c ids d = Inr d'" "consistent d"
  shows "consistent d'"
proof -
  let ?d = "d\<lparr>grants := delete_rows (\<lambda>g. fst g = c) (grants d)\<rparr>"
  have "insert_grants c ids ?d = Inr d'" "c \<in> c_id ` set (clients ?d)"
    using assms(1) by (simp_all add: SetMCPAgents_def split: if_splits)
  moreover have "consistent ?d" using assms(2) by (rule consistent_fewer_grants)
  ultimately show ?thesis by (blast intro: insert_grants_consistent)
qed

lemma consistent_add_agent:
  "consistent d \<Longrightarrow> a_id a \<notin> a_id ` set (agents d) \<Longrightarrow> a_tokenHash a \<notin> a_tokenHash ` set (agents d)
     \<Longrightarrow> consistent (d\<lparr>agents := agents d @ [a]\<rparr>)"
  by (simp add: consistent_def subset_insertI2)

lemma consistent_add_client:
  "consistent d \<Longrightarrow> c_id c \<notin> c_id ` set (clients d) \<Longrightarrow>
     c_oauthClientID c \<notin> c_oauthClientID ` set (clients d)
     \<Longrightarrow> consistent (d\<lparr>clients := clients d @ [c]\<rparr>)"
  by (simp add: consistent_def subset_insertI2)

lemma consistent_add_token:
  "consistent d \<Longrightarrow> t_hash t \<notin> t_hash ` set (tokens d) \<Longrightarrow> t_clientID t \<in> c_id ` set (clients d)
     \<Longrightarrow> consistent (d\<lparr>tokens := tokens d @ [t]\<rparr>)"
  by (simp add: consistent_def)

lemma consistent_create_agent: "CreateAgent now a d = Inr d' \<Longrightarrow> consistent d \<Longrightarrow> consistent d'"
  unfolding CreateAgent_def Let_def
  by (simp split: if_split_asm; erule subst; rule consistent_add_agent; simp)

lemma consistent_create_client: "CreateMCPClient now c d = Inr d' \<Longrightarrow> consistent d \<Longrightarrow> consistent d'"
  unfolding CreateMCPClient_def Let_def
  by (simp split: if_split_asm; erule subst; rule consistent_add_client; simp)

lemma consistent_create_token: "CreateAccessToken now t d = Inr d' \<Longrightarrow> consistent d \<Longrightarrow> consistent d'"
  unfolding CreateAccessToken_def Let_def
  by (simp split: if_split_asm; elim conjE; erule subst; rule consistent_add_token; simp)

lemmas store_update_defs = SetAgentEnabled_def UpdateAgentTokenHash_def UpdateToolPolicy_def
  DeleteAgent_def UpdateLastSeen_def UpdateAllowedRoots_def SetMCPClientEnabled_def
  UpdateOAuthSecretHash_def DeleteMCPClient_def RevokeAccessTokens_def DeleteExpiredAccessTokens_def

lemma consistent_rotate:
  assumes "consistent d"
  shows "consistent (d\<lparr>clients := update_rows P (\<lambda>c. c\<lparr>c_secretHash := h, c_updatedAt := now\<rparr>) (clients d),
               tokens := delete_rows Q (tokens d)\<rparr>)"
  using assms
  by (simp add: consistent_def map_update_rows_frame image_update_rows distinct_delete_rows
      image_delete_rows)

lemma consistent_step: "consistent d \<Longrightarrow> store_step d d' \<Longrightarrow> consistent d'"
proof (rotate_tac, induction rule: store_step.induct)
  case (17 d up)
  then show ?case by (simp add: consistent_def)
qed (auto simp: store_update_defs split: if_splits
    intro: consistent_create_agent consistent_create_client consistent_create_token
      consistent_set_grants consistent_migrate consistent_delete_agent consistent_delete_client
      consistent_rotate consistent_fewer_tokens consistent_update_agents consistent_update_clients
      consistent_rehash)

interpretation sql: invariant_system "\<lambda>d. d = empty_db" store_step consistent
proof unfold_locales
  show "consistent d" if "d = empty_db" for d
    using that by (simp add: consistent_def empty_db_def)
qed (rule consistent_step)


definition first_agent :: agent where
  "first_agent = \<lparr>a_id = ''pc'', a_name = ''PC'', a_enabled = True, a_tokenHash = ''h'', a_allowedRoots = [],
     a_allowedTools = [], a_deniedTools = [], a_createdAt = 0, a_updatedAt = 0, a_lastSeenAt = Some 0\<rparr>"


section \<open>Lookups\<close>

lemma GetAgent_Inr:
  "GetAgent i d = Inr a \<Longrightarrow> reachable_db d \<and> a \<in> set (agents d) \<and> a_id a = i"
  by (auto simp: GetAgent_def split: if_splits option.splits dest: find_SomeD)

lemma FindAgent_Inr:
  "FindAgentByAgentTokenHash h d = Inr a \<Longrightarrow> reachable_db d \<and> a \<in> set (agents d) \<and> a_tokenHash a = h"
  by (auto simp: FindAgentByAgentTokenHash_def split: if_splits option.splits dest: find_SomeD)

lemma GetAgent_complete:
  "consistent d \<Longrightarrow> reachable_db d \<Longrightarrow> a \<in> set (agents d) \<Longrightarrow> GetAgent (a_id a) d = Inr a"
  by (simp add: GetAgent_def consistent_def find_unique)

lemma FindAgent_complete:
  "consistent d \<Longrightarrow> reachable_db d \<Longrightarrow> a \<in> set (agents d)
     \<Longrightarrow> FindAgentByAgentTokenHash (a_tokenHash a) d = Inr a"
  by (simp add: FindAgentByAgentTokenHash_def consistent_def find_unique)

lemma GetMCPClient_Inr:
  "GetMCPClient i d = Inr c \<Longrightarrow> reachable_db d \<and> c \<in> set (clients d) \<and> c_id c = i"
  by (auto simp: GetMCPClient_def split: if_splits option.splits dest: find_SomeD)

lemma GetMCPClient_complete:
  "consistent d \<Longrightarrow> reachable_db d \<Longrightarrow> c \<in> set (clients d) \<Longrightarrow> GetMCPClient (c_id c) d = Inr c"
  by (simp add: GetMCPClient_def consistent_def find_unique)

lemma FindByOAuth_Inr:
  "FindMCPClientByOAuthClientID i d = Inr c \<Longrightarrow>
     reachable_db d \<and> c \<in> set (clients d) \<and> c_oauthClientID c = i"
  by (auto simp: FindMCPClientByOAuthClientID_def split: if_splits option.splits dest: find_SomeD)

lemma FindToken_Inr:
  "FindMCPClientByAccessTokenHash h d = Inr (c, t) \<Longrightarrow>
     reachable_db d \<and> c \<in> set (clients d) \<and> t \<in> set (tokens d) \<and> t_hash t = h \<and> t_clientID t = c_id c"
  by (auto simp: FindMCPClientByAccessTokenHash_def split: if_splits option.splits sum.splits
      dest!: find_SomeD GetMCPClient_Inr)

lemma FindToken_complete:
  assumes "consistent d" "reachable_db d" "t \<in> set (tokens d)" "c \<in> set (clients d)" "t_clientID t = c_id c"
  shows "FindMCPClientByAccessTokenHash (t_hash t) d = Inr (c, t)"
proof -
  have "List.find (\<lambda>u. t_hash u = t_hash t) (tokens d) = Some t"
    using assms by (simp add: consistent_def find_unique)
  then show ?thesis
    using assms by (simp add: FindMCPClientByAccessTokenHash_def GetMCPClient_complete)
qed

lemma FindToken_None:
  "h \<notin> t_hash ` set (tokens d) \<Longrightarrow> \<exists>e. FindMCPClientByAccessTokenHash h d = Inl e"
  by (auto simp: FindMCPClientByAccessTokenHash_def split: option.splits dest!: find_SomeD)

lemma ListMCPAgentIDs_Inr:
  "ListMCPAgentIDs c d = Inr ids \<Longrightarrow> set ids = {i. (c, i) \<in> set (grants d)} \<and> sorted ids"
  by (force simp: ListMCPAgentIDs_def split: if_splits)

lemma ListMCPAgentIDs_distinct:
  assumes "ListMCPAgentIDs c d = Inr ids" "consistent d"
  shows "distinct ids"
proof -
  have "distinct (map snd (filter (\<lambda>g. fst g = c) (grants d)))"
    using assms(2) by (auto simp: consistent_def distinct_map inj_on_def)
  then show ?thesis using assms(1) by (auto simp: ListMCPAgentIDs_def split: if_splits)
qed

section \<open>Grants\<close>

text \<open>Replacing a registration's grants is all or nothing: it succeeds exactly when the registration
  and every named agent exist, and then the registration reaches exactly the named agents while every
  other registration keeps its own.\<close>

theorem SetMCPAgents_grants:
  assumes "reachable_db d"
  shows "(case SetMCPAgents c ids d of
     Inl e \<Rightarrow> e = AgentNotFound \<and> (c \<notin> c_id ` set (clients d) \<or> \<not> set ids \<subseteq> a_id ` set (agents d))
   | Inr d' \<Rightarrow> c \<in> c_id ` set (clients d) \<and> set ids \<subseteq> a_id ` set (agents d)
       \<and> set (grants d') = {g \<in> set (grants d). fst g \<noteq> c} \<union> Pair c ` set ids
       \<and> agents d' = agents d \<and> clients d' = clients d \<and> tokens d' = tokens d)"
proof -
  have err: "insert_grants c ids d0 = Inl e \<Longrightarrow> e = AgentNotFound \<and> \<not> set ids \<subseteq> a_id ` set (agents d0)"
    for e d0
    by (induction c ids d0 rule: insert_grants.induct) (auto split: if_splits)
  show ?thesis
    using assms err insert_grants_frame insert_grants_set
    by (fastforce simp: SetMCPAgents_def split: sum.splits)
qed

theorem SetMCPAgents_grants_witness:
  "SetMCPAgents ''c'' [''pc'', ''tv''] (empty_db\<lparr>agents := [first_agent]\<rparr>) = Inl AgentNotFound"
proof -
  have "reachable_db (empty_db\<lparr>agents := [first_agent]\<rparr>)" by (simp add: empty_db_def)
  from SetMCPAgents_grants [OF this, of "''c''" "[''pc'', ''tv'']"] show ?thesis
    by (auto simp: empty_db_def split: sum.splits)
qed

end
