(* ===== verification/Runtime.thy ===== *)
theory Runtime
  imports Json
begin

text \<open>
  \<open>cmd/gate/runtime.go\<close> and the two agent endpoints of \<open>cmd/gate/agent.go\<close>: the in-memory link between
  the gate and one local agent. A stream and a result channel are identified by the number of their
  creation; \<open>rt_cancelled\<close> holds the streams whose context the gate cancelled, \<open>rt_chans\<close> the buffered
  element of each result channel (capacity 1). Each definition is one critical section of the mutex or
  one channel operation; \<open>link_step\<close> interleaves them freely.
\<close>

section \<open>State\<close>

record request =
  req_ID :: string
  req_body :: raw_json
  req_deadline :: time

record response =
  resp_ID :: string
  resp_body :: raw_json
  resp_error :: string

record agentRuntime =
  rt_id :: string
  rt_queue :: "request list"
  rt_pending :: "string \<rightharpoonup> nat"
  rt_stream :: "nat option"
  rt_lastSeen :: time
  rt_cancelled :: "nat set"
  rt_nextStream :: nat
  rt_chans :: "nat \<rightharpoonup> response"
  rt_nextChan :: nat

definition queue_capacity :: nat where "queue_capacity = 128"

definition newAgentRuntime :: "string \<Rightarrow> agentRuntime" where
  "newAgentRuntime i = \<lparr>rt_id = i, rt_queue = [], rt_pending = Map.empty, rt_stream = None,
     rt_lastSeen = 0, rt_cancelled = {}, rt_nextStream = 0, rt_chans = Map.empty, rt_nextChan = 0\<rparr>"

section \<open>Streams\<close>

text \<open>The new stream, and whether it replaced one.\<close>

definition activateAgentStream :: "time \<Rightarrow> agentRuntime \<Rightarrow> agentRuntime \<times> nat \<times> bool" where
  "activateAgentStream now rt =
    (let stream = rt_nextStream rt; previous = rt_stream rt
     in (rt\<lparr>rt_stream := Some stream, rt_nextStream := Suc stream, rt_lastSeen := now,
            rt_cancelled := (case previous of None \<Rightarrow> rt_cancelled rt | Some p \<Rightarrow> insert p (rt_cancelled rt))\<rparr>,
         stream, previous \<noteq> None))"

definition deactivateAgentStream :: "time \<Rightarrow> nat \<Rightarrow> agentRuntime \<Rightarrow> agentRuntime" where
  "deactivateAgentStream now stream rt =
     rt\<lparr>rt_cancelled := insert stream (rt_cancelled rt),
        rt_stream := (if rt_stream rt = Some stream then None else rt_stream rt),
        rt_lastSeen := now\<rparr>"

definition disconnect :: "agentRuntime \<Rightarrow> agentRuntime" where
  "disconnect rt =
    (case rt_stream rt of
       None \<Rightarrow> rt
     | Some stream \<Rightarrow> rt\<lparr>rt_stream := None, rt_cancelled := insert stream (rt_cancelled rt)\<rparr>)"

definition isOnline :: "agentRuntime \<Rightarrow> bool" where
  "isOnline rt \<longleftrightarrow> rt_stream rt \<noteq> None"

definition rt_status :: "agentRuntime \<Rightarrow> bool \<times> time" where
  "rt_status rt = (rt_stream rt \<noteq> None, rt_lastSeen rt)"

definition touch :: "time \<Rightarrow> agentRuntime \<Rightarrow> agentRuntime" where
  "touch now rt = rt\<lparr>rt_lastSeen := now\<rparr>"

section \<open>Calls\<close>

text \<open>
  \<open>ctxDone\<close> is whether the caller's context is done; when the queue also has room the Go \<open>select\<close> may
  take either case, which \<open>pick\<close> decides.
\<close>

definition past_deadline :: "time \<Rightarrow> request \<Rightarrow> bool" where
  "past_deadline now r \<longleftrightarrow> \<not> IsZero (req_deadline r) \<and> \<not> now < req_deadline r"

definition enqueue :: "time \<Rightarrow> bool \<Rightarrow> bool \<Rightarrow> request \<Rightarrow> agentRuntime \<Rightarrow> string + agentRuntime" where
  "enqueue now ctxDone pick r rt =
    (if past_deadline now r then Inl ''request deadline expired''
     else if \<not> isOnline rt then Inl ''agent is offline''
     else if length (rt_queue rt) < queue_capacity \<and> \<not> (ctxDone \<and> pick)
     then Inr (rt\<lparr>rt_queue := rt_queue rt @ [r]\<rparr>)
     else if ctxDone then Inl ''request cancelled''
     else Inl ''agent queue is full'')"

definition forget :: "string \<Rightarrow> agentRuntime \<Rightarrow> agentRuntime" where
  "forget i rt = rt\<lparr>rt_pending := (rt_pending rt)(i := None)\<rparr>"

definition call_deadline :: "time \<Rightarrow> duration \<Rightarrow> time option \<Rightarrow> time" where
  "call_deadline now timeout ctxDeadline =
    (case ctxDeadline of
       Some c \<Rightarrow> if c < now + timeout then c else now + timeout
     | None \<Rightarrow> now + timeout)"

text \<open>
  \<open>callAgent\<close> up to its final \<open>select\<close>: the id (None when the random source fails) is registered with a
  fresh channel, the request enqueued, and a failed enqueue forgets the id again.
\<close>

definition callAgent_begin ::
  "string option \<Rightarrow> time \<Rightarrow> duration \<Rightarrow> time option \<Rightarrow> bool \<Rightarrow> bool \<Rightarrow> raw_json \<Rightarrow> agentRuntime
     \<Rightarrow> (string + string \<times> nat) \<times> agentRuntime" where
  "callAgent_begin fresh now timeout ctxDeadline ctxDone pick request rt =
    (case fresh of
       None \<Rightarrow> (Inl ''create request id'', rt)
     | Some i \<Rightarrow>
         let ch = rt_nextChan rt;
             rt1 = rt\<lparr>rt_pending := (rt_pending rt)(i \<mapsto> ch), rt_nextChan := Suc ch\<rparr>;
             r = \<lparr>req_ID = i, req_body = request, req_deadline = call_deadline now timeout ctxDeadline\<rparr>
         in (case enqueue now ctxDone pick r rt1 of
               Inl e \<Rightarrow> (Inl e, forget i rt1)
             | Inr rt2 \<Rightarrow> (Inr (i, ch), rt2)))"

text \<open>What the final \<open>select\<close> took: a result, the timer or the context.\<close>

datatype waited = GotResult response | TimerFired | ContextDone string

fun callAgent_outcome :: "waited \<Rightarrow> string + response" where
  "callAgent_outcome (GotResult r) = (if resp_error r \<noteq> [] then Inl (resp_error r) else Inr r)"
| "callAgent_outcome TimerFired = Inl ''agent call timed out''"
| "callAgent_outcome (ContextDone e) = Inl e"

text \<open>Receiving empties the channel; leaving for any reason forgets the id.\<close>

definition callAgent_end :: "string \<Rightarrow> nat \<Rightarrow> waited \<Rightarrow> agentRuntime \<Rightarrow> (string + response) \<times> agentRuntime" where
  "callAgent_end i ch w rt =
    (callAgent_outcome w,
     forget i (case w of GotResult r \<Rightarrow> rt\<lparr>rt_chans := (rt_chans rt)(ch := None)\<rparr> | _ \<Rightarrow> rt))"

text \<open>
  One call as its caller sees it: its inputs are what the random source, the context and the final
  \<open>select\<close> give it. What others do to the link in the meantime is the business of \<open>link_step\<close>.
\<close>

record callInput =
  ci_fresh :: "string option"
  ci_deadline :: "time option"
  ci_ctxDone :: bool
  ci_pick :: bool
  ci_waited :: waited

definition callAgent ::
  "time \<Rightarrow> duration \<Rightarrow> callInput \<Rightarrow> raw_json \<Rightarrow> agentRuntime \<Rightarrow> (string + response) \<times> agentRuntime" where
  "callAgent now timeout c request rt =
    (case callAgent_begin (ci_fresh c) now timeout (ci_deadline c) (ci_ctxDone c) (ci_pick c) request rt of
       (Inl e, rt1) \<Rightarrow> (Inl e, rt1)
     | (Inr (i, ch), rt1) \<Rightarrow> callAgent_end i ch (ci_waited c) rt1)"

section \<open>The agent's side\<close>

text \<open>
  One turn of the stream's loop that finds a request: an expired one is dropped, another is written,
  and a successful write counts as a sign of life.
\<close>

datatype dispatched = QueueEmpty | DroppedExpired request | Written request | WriteFailed request

definition stream_dispatch :: "time \<Rightarrow> bool \<Rightarrow> agentRuntime \<Rightarrow> dispatched \<times> agentRuntime" where
  "stream_dispatch now writable rt =
    (case rt_queue rt of
       [] \<Rightarrow> (QueueEmpty, rt)
     | r # rest \<Rightarrow>
         let rt1 = rt\<lparr>rt_queue := rest\<rparr>
         in if past_deadline now r then (DroppedExpired r, rt1)
            else if \<not> writable then (WriteFailed r, rt1)
            else (Written r, touch now rt1))"

text \<open>
  \<open>handleAgentResult\<close> after authentication and decoding: the lookup under the mutex, then the send,
  which blocks while the channel holds an earlier result.
\<close>

definition result_lookup :: "time \<Rightarrow> response \<Rightarrow> agentRuntime \<Rightarrow> (nat \<times> agentRuntime) option" where
  "result_lookup now r rt =
    (case rt_pending rt (resp_ID r) of None \<Rightarrow> None | Some ch \<Rightarrow> Some (ch, touch now rt))"

definition result_send :: "nat \<Rightarrow> response \<Rightarrow> agentRuntime \<Rightarrow> agentRuntime option" where
  "result_send ch r rt =
    (if rt_chans rt ch = None then Some (rt\<lparr>rt_chans := (rt_chans rt)(ch \<mapsto> r)\<rparr>) else None)"

lemmas runtime_defs = activateAgentStream_def deactivateAgentStream_def disconnect_def touch_def
  forget_def newAgentRuntime_def

section \<open>The link as a transition system\<close>

text \<open>
  The link with its goroutines: callers waiting on a channel, result handlers between lookup and send,
  and, as history, what was written to the stream and what each call returned.
\<close>

record link =
  lk_rt :: agentRuntime
  lk_calls :: "(string \<times> nat) list"
  lk_results :: "(nat \<times> response) list"
  lk_written :: "(time \<times> request) list"
  lk_returned :: "(string \<times> response) list"

definition new_link :: "string \<Rightarrow> link" where
  "new_link i = \<lparr>lk_rt = newAgentRuntime i, lk_calls = [], lk_results = [], lk_written = [], lk_returned = []\<rparr>"

inductive link_step :: "link \<Rightarrow> link \<Rightarrow> bool" where
  activate: "activateAgentStream now (lk_rt s) = (rt, stream, replaced) \<Longrightarrow> link_step s (s\<lparr>lk_rt := rt\<rparr>)"
| deactivate: "stream < rt_nextStream (lk_rt s) \<Longrightarrow>
    link_step s (s\<lparr>lk_rt := deactivateAgentStream now stream (lk_rt s)\<rparr>)"
| kick: "link_step s (s\<lparr>lk_rt := disconnect (lk_rt s)\<rparr>)"
| call: "callAgent_begin (Some i) now timeout cd ctxDone pick body (lk_rt s) = (Inr (i, ch), rt) \<Longrightarrow>
    link_step s (s\<lparr>lk_rt := rt, lk_calls := (i, ch) # lk_calls s\<rparr>)"
| call_fail: "callAgent_begin fresh now timeout cd ctxDone pick body (lk_rt s) = (Inl e, rt) \<Longrightarrow>
    link_step s (s\<lparr>lk_rt := rt\<rparr>)"
| dispatch: "stream_dispatch now True (lk_rt s) = (Written r, rt) \<Longrightarrow>
    link_step s (s\<lparr>lk_rt := rt, lk_written := (now, r) # lk_written s\<rparr>)"
| dispatch_lost: "stream_dispatch now writable (lk_rt s) = (out, rt) \<Longrightarrow> \<forall>r. out \<noteq> Written r \<Longrightarrow>
    link_step s (s\<lparr>lk_rt := rt\<rparr>)"
| result: "result_lookup now r (lk_rt s) = Some (ch, rt) \<Longrightarrow>
    link_step s (s\<lparr>lk_rt := rt, lk_results := (ch, r) # lk_results s\<rparr>)"
| send: "(ch, r) \<in> set (lk_results s) \<Longrightarrow> result_send ch r (lk_rt s) = Some rt \<Longrightarrow>
    link_step s (s\<lparr>lk_rt := rt, lk_results := remove1 (ch, r) (lk_results s)\<rparr>)"
| return_result: "(i, ch) \<in> set (lk_calls s) \<Longrightarrow> rt_chans (lk_rt s) ch = Some r \<Longrightarrow>
    callAgent_end i ch (GotResult r) (lk_rt s) = (out, rt) \<Longrightarrow>
    link_step s (s\<lparr>lk_rt := rt, lk_calls := remove1 (i, ch) (lk_calls s),
                   lk_returned := (i, r) # lk_returned s\<rparr>)"
| give_up: "(i, ch) \<in> set (lk_calls s) \<Longrightarrow> \<forall>r. w \<noteq> GotResult r \<Longrightarrow>
    callAgent_end i ch w (lk_rt s) = (out, rt) \<Longrightarrow>
    link_step s (s\<lparr>lk_rt := rt, lk_calls := remove1 (i, ch) (lk_calls s)\<rparr>)"

end
