(* ===== verification/RuntimeFacts.thy ===== *)
theory RuntimeFacts
  imports Runtime
begin

text \<open>
  Correctness of the gate's link to an agent, for every interleaving of its goroutines: the queue is
  bounded, a call only ever returns a result posted under its own id, nothing is written to the agent
  past its deadline, and there is at most one live stream.
\<close>

text \<open>\<open>owner\<close> names the id a channel was made for.\<close>

definition link_owned :: "(nat \<Rightarrow> string) \<Rightarrow> link \<Rightarrow> bool" where
  "link_owned owner s \<longleftrightarrow>
     (\<forall>i ch. rt_pending (lk_rt s) i = Some ch \<longrightarrow> owner ch = i \<and> ch < rt_nextChan (lk_rt s))
     \<and> (\<forall>i ch. (i, ch) \<in> set (lk_calls s) \<longrightarrow> owner ch = i \<and> ch < rt_nextChan (lk_rt s))
     \<and> (\<forall>ch r. (ch, r) \<in> set (lk_results s) \<longrightarrow> resp_ID r = owner ch \<and> ch < rt_nextChan (lk_rt s))
     \<and> (\<forall>ch r. rt_chans (lk_rt s) ch = Some r \<longrightarrow> resp_ID r = owner ch \<and> ch < rt_nextChan (lk_rt s))"

text \<open>The live stream, if any, is the only stream ever opened that is not cancelled.\<close>

definition streams_ok :: "agentRuntime \<Rightarrow> bool" where
  "streams_ok rt \<longleftrightarrow>
     (\<forall>n. n < rt_nextStream rt \<longrightarrow> n \<in> rt_cancelled rt \<or> rt_stream rt = Some n)
     \<and> (\<forall>n. rt_stream rt = Some n \<longrightarrow> n < rt_nextStream rt \<and> n \<notin> rt_cancelled rt)
     \<and> (\<forall>n \<in> rt_cancelled rt. n < rt_nextStream rt)"

definition link_inv :: "link \<Rightarrow> bool" where
  "link_inv s \<longleftrightarrow>
     (\<exists>owner. link_owned owner s)
     \<and> (\<forall>(i, r) \<in> set (lk_returned s). resp_ID r = i)
     \<and> (\<forall>(t, r) \<in> set (lk_written s). \<not> past_deadline t r)
     \<and> length (rt_queue (lk_rt s)) \<le> queue_capacity
     \<and> streams_ok (lk_rt s)"

lemma enqueue_Inr:
  "enqueue now cd pick r rt = Inr rt' \<Longrightarrow>
     rt' = rt\<lparr>rt_queue := rt_queue rt @ [r]\<rparr> \<and> length (rt_queue rt) < queue_capacity
     \<and> isOnline rt \<and> \<not> past_deadline now r"
  by (auto simp: enqueue_def split: if_splits)

lemma stream_dispatch_cases:
  "stream_dispatch now w rt = (out, rt') \<Longrightarrow>
     (rt' = rt \<and> out = QueueEmpty) \<or>
     (\<exists>r rest. rt_queue rt = r # rest \<and>
        (rt' = rt\<lparr>rt_queue := rest\<rparr> \<and> (out = DroppedExpired r \<and> past_deadline now r \<or> out = WriteFailed r)
         \<or> rt' = rt\<lparr>rt_queue := rest, rt_lastSeen := now\<rparr> \<and> out = Written r \<and> \<not> past_deadline now r))"
  by (auto simp: stream_dispatch_def touch_def Let_def split: list.splits if_splits)

lemma callAgent_begin_Inr:
  "callAgent_begin f now to cd x pick b rt = (Inr (i, ch), rt') \<Longrightarrow>
     \<exists>r. f = Some i \<and> ch = rt_nextChan rt \<and> req_ID r = i \<and> req_body r = b \<and> \<not> past_deadline now r
       \<and> length (rt_queue rt) < queue_capacity
       \<and> rt' = rt\<lparr>rt_pending := (rt_pending rt)(i \<mapsto> ch), rt_nextChan := Suc ch, rt_queue := rt_queue rt @ [r]\<rparr>"
  by (auto simp: callAgent_begin_def Let_def isOnline_def split: option.splits sum.splits
      dest!: enqueue_Inr intro!: exI)

lemma callAgent_begin_Inl:
  "callAgent_begin f now to cd x pick b rt = (Inl e, rt') \<Longrightarrow>
     rt' = rt \<or> (\<exists>i. rt' = rt\<lparr>rt_nextChan := Suc (rt_nextChan rt), rt_pending := (rt_pending rt)(i := None)\<rparr>)"
  by (auto simp: callAgent_begin_def Let_def forget_def split: option.splits sum.splits)

lemma callAgent_end_rt:
  "callAgent_end i ch w rt = (out, rt') \<Longrightarrow> \<exists>chans. rt' = rt\<lparr>rt_chans := chans, rt_pending := (rt_pending rt)(i := None)\<rparr>
     \<and> chans \<subseteq>\<^sub>m rt_chans rt"
proof (cases w)
  case (GotResult r)
  assume "callAgent_end i ch w rt = (out, rt')"
  then show ?thesis
    by (auto simp: GotResult callAgent_end_def forget_def map_le_def split: if_splits
        intro!: exI [of _ "(rt_chans rt)(ch := None)"])
qed (auto simp: callAgent_end_def forget_def map_le_def intro!: exI [of _ "rt_chans rt"])

lemma link_step_streams: "link_step s t \<Longrightarrow> streams_ok (lk_rt s) \<Longrightarrow> streams_ok (lk_rt t)"
proof (induction rule: link_step.induct)
  case (activate now s rt stream replaced)
  then show ?case
    by (auto simp: streams_ok_def activateAgentStream_def Let_def less_Suc_eq split: option.splits)
next
  case (deactivate stream s now)
  then show ?case by (auto simp: streams_ok_def deactivateAgentStream_def split: option.splits)
next
  case (kick s)
  then show ?case by (auto simp: streams_ok_def disconnect_def split: option.splits)
next
  case (give_up i ch s w out rt)
  then show ?case by (auto simp: streams_ok_def dest!: callAgent_end_rt)
qed (auto simp: streams_ok_def result_lookup_def result_send_def touch_def
    split: option.splits if_splits
    dest!: callAgent_begin_Inr callAgent_begin_Inl stream_dispatch_cases callAgent_end_rt)

lemma link_step_queue:
  "link_step s t \<Longrightarrow> length (rt_queue (lk_rt s)) \<le> queue_capacity \<Longrightarrow> length (rt_queue (lk_rt t)) \<le> queue_capacity"
  by (induction rule: link_step.induct)
    (auto simp: activateAgentStream_def deactivateAgentStream_def disconnect_def Let_def
      result_lookup_def result_send_def touch_def split: option.splits if_splits
      dest!: callAgent_begin_Inr callAgent_begin_Inl stream_dispatch_cases callAgent_end_rt)

lemma link_step_written:
  "link_step s t \<Longrightarrow> \<forall>(u, r) \<in> set (lk_written s). \<not> past_deadline u r \<Longrightarrow>
     \<forall>(u, r) \<in> set (lk_written t). \<not> past_deadline u r"
  by (induction rule: link_step.induct) (auto dest!: stream_dispatch_cases)

lemma link_owned_fewer:
  assumes "link_owned owner s"
    and "rt_pending (lk_rt t) \<subseteq>\<^sub>m rt_pending (lk_rt s)" "rt_chans (lk_rt t) \<subseteq>\<^sub>m rt_chans (lk_rt s)"
    and "set (lk_calls t) \<subseteq> set (lk_calls s)" "set (lk_results t) \<subseteq> set (lk_results s)"
    and "rt_nextChan (lk_rt s) \<le> rt_nextChan (lk_rt t)"
  shows "link_owned owner t"
proof -
  have p: "rt_pending (lk_rt t) i = Some c \<Longrightarrow> rt_pending (lk_rt s) i = Some c" for i c
    using assms(2) by (metis domI map_le_def)
  have c: "rt_chans (lk_rt t) n = Some r \<Longrightarrow> rt_chans (lk_rt s) n = Some r" for n r
    using assms(3) by (metis domI map_le_def)
  show ?thesis
    unfolding link_owned_def
    using assms(1,4,5,6) p c less_le_trans [OF _ assms(6)] unfolding link_owned_def by blast
qed

lemma link_owned_call:
  assumes "link_owned owner s" "callAgent_begin f now to cd x pick b (lk_rt s) = (Inr (i, ch), rt)"
  shows "link_owned (owner(ch := i)) (s\<lparr>lk_rt := rt, lk_calls := (i, ch) # lk_calls s\<rparr>)"
proof -
  obtain q where rt: "rt = (lk_rt s)\<lparr>rt_pending := (rt_pending (lk_rt s))(i \<mapsto> ch), rt_nextChan := Suc ch, rt_queue := q\<rparr>"
    and ch: "ch = rt_nextChan (lk_rt s)"
    using callAgent_begin_Inr [OF assms(2)] by blast
  show ?thesis
    using assms(1) unfolding rt ch link_owned_def by (auto simp: less_Suc_eq)
qed

lemma link_owned_result:
  assumes "link_owned owner s" "result_lookup now r (lk_rt s) = Some (ch, rt)"
  shows "link_owned owner (s\<lparr>lk_rt := rt, lk_results := (ch, r) # lk_results s\<rparr>)"
  using assms unfolding link_owned_def result_lookup_def touch_def
  by (auto split: option.splits)

lemma link_owned_send:
  assumes "link_owned owner s" "(ch, r) \<in> set (lk_results s)" "result_send ch r (lk_rt s) = Some rt"
  shows "link_owned owner (s\<lparr>lk_rt := rt, lk_results := remove1 (ch, r) (lk_results s)\<rparr>)"
proof -
  have "link_owned owner (s\<lparr>lk_rt := rt\<rparr>)"
    using assms unfolding link_owned_def result_send_def by (auto split: if_splits)
  then show ?thesis
    by (rule link_owned_fewer) (auto simp: set_remove1_subset)
qed

lemma link_step_owned:
  "link_step s t \<Longrightarrow> link_owned owner s \<Longrightarrow> \<exists>owner'. link_owned owner' t"
proof (induction rule: link_step.induct)
  case (call s i now timeout cd ctxDone pick body ch rt)
  then show ?case by (blast intro: link_owned_call)
next
  case (result now r s ch rt)
  then show ?case by (blast intro: link_owned_result)
next
  case (send ch r s rt)
  then show ?case by (blast intro: link_owned_send)
qed ((rule exI [of _ owner]; erule link_owned_fewer;
    use set_remove1_subset in \<open>fastforce simp: activateAgentStream_def deactivateAgentStream_def
      disconnect_def Let_def map_le_def split: option.splits if_splits
      dest!: callAgent_begin_Inl stream_dispatch_cases callAgent_end_rt\<close>)+)

lemma callAgent_end_result: "callAgent_end i ch (GotResult r) rt = (out, rt') \<Longrightarrow>
    out = (if resp_error r \<noteq> [] then Inl (resp_error r) else Inr r)"
  by (simp add: callAgent_end_def)

lemma link_step_returned:
  assumes "link_step s t" "link_owned owner s" "\<forall>(i, r) \<in> set (lk_returned s). resp_ID r = i"
  shows "\<forall>(i, r) \<in> set (lk_returned t). resp_ID r = i"
  using assms
proof (induction rule: link_step.induct)
  case (return_result i ch s r out rt)
  then have "owner ch = i" "resp_ID r = owner ch" unfolding link_owned_def by blast+
  with return_result show ?case by simp
qed auto

lemma link_step_inv:
  assumes "link_inv s" "link_step s t"
  shows "link_inv t"
proof -
  obtain owner where owner: "link_owned owner s" using assms(1) by (auto simp: link_inv_def)
  show ?thesis
    unfolding link_inv_def
  proof (intro conjI)
    show "\<exists>owner. link_owned owner t" using assms(2) owner by (rule link_step_owned)
    show "\<forall>(i, r) \<in> set (lk_returned t). resp_ID r = i"
      using assms(1) link_step_returned [OF assms(2) owner] by (simp add: link_inv_def)
    show "\<forall>(u, r) \<in> set (lk_written t). \<not> past_deadline u r"
      using assms(1) link_step_written [OF assms(2)] by (simp add: link_inv_def)
    show "length (rt_queue (lk_rt t)) \<le> queue_capacity"
      using assms(1) link_step_queue [OF assms(2)] by (simp add: link_inv_def)
    show "streams_ok (lk_rt t)"
      using assms(1) link_step_streams [OF assms(2)] by (simp add: link_inv_def)
  qed
qed

lemma link_inv_new: "link_inv (new_link i)"
  by (auto simp: link_inv_def link_owned_def streams_ok_def new_link_def newAgentRuntime_def)

interpretation gate_link: bounded_system "\<lambda>s. \<exists>i. s = new_link i" link_step link_inv
    "\<lambda>s. length (rt_queue (lk_rt s))" queue_capacity
proof unfold_locales
  show "link_inv s" if "\<exists>i. s = new_link i" for s
    using that link_inv_new by blast
  show "link_inv t" if "link_inv s" "link_step s t" for s t
    using that by (rule link_step_inv)
qed (simp add: link_inv_def)

section \<open>A run\<close>

text \<open>An agent connects, a call is queued, dispatched and answered, and returns the answer.\<close>

definition run_request :: request where
  "run_request = \<lparr>req_ID = ''q'', req_body = Document JNull, req_deadline = 7\<rparr>"

definition run_response :: response where
  "run_response = \<lparr>resp_ID = ''q'', resp_body = Document JNull, resp_error = []\<rparr>"

definition run1 :: link where
  "run1 = \<lparr>lk_rt = \<lparr>rt_id = ''pc'', rt_queue = [], rt_pending = Map.empty, rt_stream = Some 0,
     rt_lastSeen = 1, rt_cancelled = {}, rt_nextStream = 1, rt_chans = Map.empty, rt_nextChan = 0\<rparr>,
     lk_calls = [], lk_results = [], lk_written = [], lk_returned = []\<rparr>"

definition run2 :: link where
  "run2 = \<lparr>lk_rt = \<lparr>rt_id = ''pc'', rt_queue = [run_request], rt_pending = [''q'' \<mapsto> 0], rt_stream = Some 0,
     rt_lastSeen = 1, rt_cancelled = {}, rt_nextStream = 1, rt_chans = Map.empty, rt_nextChan = 1\<rparr>,
     lk_calls = [(''q'', 0)], lk_results = [], lk_written = [], lk_returned = []\<rparr>"

definition run3 :: link where
  "run3 = \<lparr>lk_rt = \<lparr>rt_id = ''pc'', rt_queue = [], rt_pending = [''q'' \<mapsto> 0], rt_stream = Some 0,
     rt_lastSeen = 3, rt_cancelled = {}, rt_nextStream = 1, rt_chans = Map.empty, rt_nextChan = 1\<rparr>,
     lk_calls = [(''q'', 0)], lk_results = [], lk_written = [(3, run_request)], lk_returned = []\<rparr>"

definition run4 :: link where
  "run4 = \<lparr>lk_rt = \<lparr>rt_id = ''pc'', rt_queue = [], rt_pending = [''q'' \<mapsto> 0], rt_stream = Some 0,
     rt_lastSeen = 4, rt_cancelled = {}, rt_nextStream = 1, rt_chans = Map.empty, rt_nextChan = 1\<rparr>,
     lk_calls = [(''q'', 0)], lk_results = [(0, run_response)], lk_written = [(3, run_request)], lk_returned = []\<rparr>"

definition run5 :: link where
  "run5 = \<lparr>lk_rt = \<lparr>rt_id = ''pc'', rt_queue = [], rt_pending = [''q'' \<mapsto> 0], rt_stream = Some 0,
     rt_lastSeen = 4, rt_cancelled = {}, rt_nextStream = 1, rt_chans = [0 \<mapsto> run_response], rt_nextChan = 1\<rparr>,
     lk_calls = [(''q'', 0)], lk_results = [], lk_written = [(3, run_request)], lk_returned = []\<rparr>"

definition run6 :: link where
  "run6 = \<lparr>lk_rt = \<lparr>rt_id = ''pc'', rt_queue = [], rt_pending = Map.empty, rt_stream = Some 0,
     rt_lastSeen = 4, rt_cancelled = {}, rt_nextStream = 1, rt_chans = Map.empty, rt_nextChan = 1\<rparr>,
     lk_calls = [], lk_results = [], lk_written = [(3, run_request)], lk_returned = [(''q'', run_response)]\<rparr>"

lemmas run_defs = run_request_def run_response_def run1_def run2_def run3_def run4_def run5_def run6_def

lemma run_step1: "link_step (new_link ''pc'') run1"
  using activate [where s = "new_link ''pc''" and now = 1 and rt = "lk_rt run1" and stream = 0 and replaced = False]
  by (simp add: run1_def new_link_def newAgentRuntime_def activateAgentStream_def)

lemma run_step2: "link_step run1 run2"
  using call [where s = run1 and i = "''q''" and ch = 0 and now = 2 and timeout = 5 and cd = None
      and ctxDone = False and pick = False and body = "Document JNull" and rt = "lk_rt run2"]
  by (simp add: run_defs callAgent_begin_def enqueue_def past_deadline_def IsZero_def isOnline_def
      queue_capacity_def call_deadline_def)

lemma run_step3: "link_step run2 run3"
  using dispatch [where s = run2 and now = 3 and r = run_request and rt = "lk_rt run3"]
  by (simp add: run_defs stream_dispatch_def past_deadline_def IsZero_def touch_def)

lemma run_step4: "link_step run3 run4"
  using result [where s = run3 and now = 4 and r = run_response and ch = 0 and rt = "lk_rt run4"]
  by (simp add: run_defs result_lookup_def touch_def)

lemma run_step5: "link_step run4 run5"
  using send [where s = run4 and r = run_response and ch = 0 and rt = "lk_rt run5"]
  by (simp add: run_defs result_send_def)

lemma run_step6: "link_step run5 run6"
  using return_result [where s = run5 and i = "''q''" and ch = 0 and r = run_response
      and out = "Inr run_response" and rt = "lk_rt run6"]
  by (simp add: run_defs callAgent_end_def forget_def)

lemma run_reach: "reach (\<lambda>s. \<exists>i. s = new_link i) link_step run6"
proof -
  have "reach (\<lambda>s. \<exists>i. s = new_link i) link_step (new_link ''pc'')"
    by (rule reach_start) blast
  then show ?thesis
    using run_step1 run_step2 run_step3 run_step4 run_step5 run_step6 by (meson reach_step)
qed

section \<open>Properties\<close>

text \<open>The queue of an agent never holds more than 128 requests, however calls, dispatches,
  reconnections and results interleave.\<close>

theorem queue_bounded: "reach (\<lambda>s. \<exists>i. s = new_link i) link_step s \<Longrightarrow> length (rt_queue (lk_rt s)) \<le> 128"
  using gate_link.reach_load by (simp add: queue_capacity_def)

theorem queue_bounded_witness: "length (rt_queue (lk_rt run6)) \<le> 128"
  by (rule queue_bounded [OF run_reach])

text \<open>Results are correlated: in every interleaving, a call that returns a result returns one that the
  agent posted under that call's own request id.\<close>

theorem results_correlated:
  "reach (\<lambda>s. \<exists>i. s = new_link i) link_step s \<Longrightarrow> (i, r) \<in> set (lk_returned s) \<Longrightarrow> resp_ID r = i"
  using gate_link.reach_inv unfolding link_inv_def by blast

theorem results_correlated_witness:
  "(''q'', run_response) \<in> set (lk_returned run6) \<and> resp_ID run_response = ''q''"
proof -
  have "(''q'', run_response) \<in> set (lk_returned run6)" by (simp add: run6_def)
  with results_correlated [OF run_reach this] show ?thesis by simp
qed

text \<open>No request is written to an agent at or after its deadline.\<close>

theorem no_expired_dispatch:
  "reach (\<lambda>s. \<exists>i. s = new_link i) link_step s \<Longrightarrow> (t, r) \<in> set (lk_written s) \<Longrightarrow>
     IsZero (req_deadline r) \<or> t < req_deadline r"
  using gate_link.reach_inv unfolding link_inv_def past_deadline_def by blast

theorem no_expired_dispatch_witness:
  "\<exists>r. lk_written run6 = [(3, r)] \<and> (IsZero (req_deadline r) \<or> 3 < req_deadline r)"
proof -
  obtain r where r: "lk_written run6 = [(3, r)]" by (simp add: run6_def)
  with no_expired_dispatch [OF run_reach, of 3 r] show ?thesis by simp
qed

text \<open>Of all the streams an agent ever opened, at most the current one is not cancelled, so a reconnect
  ends the connection it replaces; and the late clean-up of a replaced stream leaves its successor online.\<close>

theorem one_live_stream:
  assumes "reach (\<lambda>s. \<exists>i. s = new_link i) link_step s" "rt_stream (lk_rt s) = Some old"
    and "activateAgentStream now (lk_rt s) = (rt, new, replaced)"
  shows "replaced \<and> {n. n < rt_nextStream rt \<and> n \<notin> rt_cancelled rt} = {new}
     \<and> rt_stream (deactivateAgentStream later old rt) = Some new
     \<and> {n. n < rt_nextStream rt \<and> n \<notin> rt_cancelled (deactivateAgentStream later old rt)} = {new}"
proof -
  have "streams_ok (lk_rt s)"
    using gate_link.reach_inv [OF assms(1)] by (simp add: link_inv_def)
  then show ?thesis
    using assms(2,3)
    by (auto simp: streams_ok_def activateAgentStream_def deactivateAgentStream_def Let_def less_Suc_eq)
qed

theorem one_live_stream_witness:
  "\<exists>rt. activateAgentStream 9 (lk_rt run6) = (rt, 1, True)
     \<and> rt_stream (deactivateAgentStream 10 0 rt) = Some 1"
proof -
  obtain rt where "activateAgentStream 9 (lk_rt run6) = (rt, 1, True)"
    by (simp add: run6_def activateAgentStream_def)
  moreover have "rt_stream (lk_rt run6) = Some 0" by (simp add: run6_def)
  ultimately show ?thesis using one_live_stream [OF run_reach] by blast
qed

end
