(* ===== verification/Secrets.thy ===== *)
theory Secrets
  imports Prelude "HOL-Library.Word"
begin

unbundle bit_operations_syntax

text \<open>
  \<open>cmd/gate/secrets.go\<close> and \<open>verifyPKCE\<close> of \<open>auth.go\<close>: hashing of secrets. The functions of the Go
  standard library they call are written out: SHA-256 on 32-bit words, hexadecimal and unpadded
  URL-safe base64 text.
\<close>

section \<open>SHA-256\<close>

type_synonym u32 = "32 word"

text \<open>
  The constants as the standard defines them: the first 32 bits of the fractional parts of the cube roots of
  the first 64 primes and of the square roots of the first 8, from integer roots found bit by bit.
\<close>

primrec root_bits :: "nat \<Rightarrow> nat \<Rightarrow> nat \<Rightarrow> nat \<Rightarrow> nat" where
  "root_bits e n 0 x = x"
| "root_bits e n (Suc b) x = root_bits e n b (if (x + 2 ^ b) ^ e \<le> n then x + 2 ^ b else x)"

definition fraction_word :: "nat \<Rightarrow> nat \<Rightarrow> u32" where
  "fraction_word e p = word_of_nat (root_bits e (p * 2 ^ (32 * e)) 37 0)"

definition sha_primes :: "nat list" where
  "sha_primes = filter (\<lambda>p. list_all (\<lambda>q. p mod q \<noteq> 0) [2..<p]) [2..<312]"

definition sha_k :: "u32 list" where "sha_k = map (fraction_word 3) sha_primes"

definition sha_init :: "u32 list" where "sha_init = map (fraction_word 2) [2, 3, 5, 7, 11, 13, 17, 19]"

definition bytes_of :: "string \<Rightarrow> nat list" where
  "bytes_of s = map of_char s"

fun be_bytes :: "nat \<Rightarrow> nat \<Rightarrow> nat list" where
  "be_bytes 0 n = []"
| "be_bytes (Suc k) n = be_bytes k (n div 256) @ [n mod 256]"

definition sha_pad :: "nat list \<Rightarrow> nat list" where
  "sha_pad m = m @ [128] @ replicate ((119 - length m mod 64) mod 64) 0 @ be_bytes 8 (8 * length m)"

fun be_words :: "nat list \<Rightarrow> u32 list" where
  "be_words (a # b # c # d # rest) =
     (((word_of_nat a * 256 + word_of_nat b) * 256 + word_of_nat c) * 256 + word_of_nat d) # be_words rest"
| "be_words _ = []"

definition word_bytes :: "u32 \<Rightarrow> nat list" where
  "word_bytes w = map (\<lambda>k. unat (drop_bit k w AND 255)) [24, 16, 8, 0]"

text \<open>The message schedule, latest word first.\<close>

fun sha_schedule :: "nat \<Rightarrow> u32 list \<Rightarrow> u32 list" where
  "sha_schedule 0 rw = rw"
| "sha_schedule (Suc k) rw =
    (let w15 = rw ! 14; w2 = rw ! 1;
         s0 = word_rotr 7 w15 XOR word_rotr 18 w15 XOR drop_bit 3 w15;
         s1 = word_rotr 17 w2 XOR word_rotr 19 w2 XOR drop_bit 10 w2
     in sha_schedule k ((rw ! 15 + s0 + rw ! 6 + s1) # rw))"

fun sha_round :: "u32 list \<Rightarrow> u32 \<times> u32 \<Rightarrow> u32 list" where
  "sha_round [a, b, c, d, e, f, g, h] (k, w) =
    (let s1 = word_rotr 6 e XOR word_rotr 11 e XOR word_rotr 25 e;
         ch = (e AND f) XOR (NOT e AND g);
         t1 = h + s1 + ch + k + w;
         s0 = word_rotr 2 a XOR word_rotr 13 a XOR word_rotr 22 a;
         maj = (a AND b) XOR (a AND c) XOR (b AND c)
     in [t1 + s0 + maj, a, b, c, d + t1, e, f, g])"
| "sha_round st _ = st"

definition sha_block :: "u32 list \<Rightarrow> u32 list \<Rightarrow> u32 list" where
  "sha_block st ws =
     map2 (+) st (foldl sha_round st (zip sha_k (rev (sha_schedule 48 (rev ws)))))"

fun sha_blocks :: "nat \<Rightarrow> u32 list \<Rightarrow> u32 list \<Rightarrow> u32 list" where
  "sha_blocks 0 st ws = st"
| "sha_blocks (Suc n) st ws = sha_blocks n (sha_block st (take 16 ws)) (drop 16 ws)"

definition Sum256 :: "string \<Rightarrow> nat list" where
  "Sum256 s =
    (let ws = be_words (sha_pad (bytes_of s))
     in concat (map word_bytes (sha_blocks (length ws div 16) sha_init ws)))"

section \<open>Text encodings\<close>

definition hex_digit :: "nat \<Rightarrow> char" where
  "hex_digit n = char_of (if n < 10 then 48 + n else 87 + n)"

definition EncodeToHex :: "nat list \<Rightarrow> string" where
  "EncodeToHex bs = concat (map (\<lambda>b. [hex_digit (b div 16), hex_digit (b mod 16)]) bs)"

definition url64_digit :: "nat \<Rightarrow> char" where
  "url64_digit n = char_of (if n < 26 then 65 + n else if n < 52 then 71 + n
     else if n < 62 then n - 4 else if n = 62 then 45 else 95)"

fun RawURLEncoding :: "nat list \<Rightarrow> string" where
  "RawURLEncoding (a # b # c # rest) =
     [url64_digit (a div 4), url64_digit (a mod 4 * 16 + b div 16),
      url64_digit (b mod 16 * 4 + c div 64), url64_digit (c mod 64)] @ RawURLEncoding rest"
| "RawURLEncoding [a, b] =
     [url64_digit (a div 4), url64_digit (a mod 4 * 16 + b div 16), url64_digit (b mod 16 * 4)]"
| "RawURLEncoding [a] = [url64_digit (a div 4), url64_digit (a mod 4 * 16)]"
| "RawURLEncoding [] = []"

section \<open>Secrets\<close>

text \<open>The 32 random bytes are an argument; \<open>None\<close> is a failing random source.\<close>

definition generateSecret :: "string \<Rightarrow> nat list option \<Rightarrow> string option" where
  "generateSecret pre buf = (case buf of None \<Rightarrow> None | Some b \<Rightarrow> Some (pre @ RawURLEncoding b))"

definition hashSecret :: "string \<Rightarrow> string" where
  "hashSecret value = EncodeToHex (Sum256 value)"

definition secureCompare :: "string \<Rightarrow> string \<Rightarrow> bool" where
  "secureCompare a b \<longleftrightarrow> length a = length b \<and> list_all (\<lambda>(x, y). x = y) (zip a b)"

lemma secureCompare_iff [simp]: "secureCompare a b \<longleftrightarrow> a = b"
  by (auto simp: secureCompare_def list_all_iff list_eq_iff_zip_eq)

definition verifyPKCE :: "string \<Rightarrow> string \<Rightarrow> string \<Rightarrow> bool" where
  "verifyPKCE verifier challenge meth =
    (if verifier = [] \<or> challenge = [] \<or> meth \<noteq> ''S256'' then False
     else RawURLEncoding (Sum256 verifier) = challenge)"

lemma word_bytes_length [simp]: "length (word_bytes w) = 4"
  by (simp add: word_bytes_def)

lemma word_bytes_bound: "b \<in> set (word_bytes w) \<Longrightarrow> b < 256"
proof -
  have "unat (v AND 255) \<le> unat (255 :: u32)" for v :: u32
    by (rule word_and_le1 [THEN word_le_nat_alt [THEN iffD1]])
  then have "unat (v AND 255) < 256" for v :: u32
    using le_less_trans [of "unat (v AND 255)" 255 256] by simp
  then show "b \<in> set (word_bytes w) \<Longrightarrow> b < 256"
    by (auto simp: word_bytes_def)
qed

lemma sha_round_length: "length st = 8 \<Longrightarrow> length (sha_round st kw) = 8"
  by (cases "(st, kw)" rule: sha_round.cases) (auto simp: Let_def)

lemma foldl_sha_round_length: "length st = 8 \<Longrightarrow> length (foldl sha_round st kws) = 8"
  by (induction kws arbitrary: st) (auto simp: sha_round_length)

lemma sha_blocks_length: "length st = 8 \<Longrightarrow> length (sha_blocks n st ws) = 8"
  by (induction n arbitrary: st ws) (auto simp: sha_block_def foldl_sha_round_length)

lemma Sum256_length: "length (Sum256 s) = 32"
  by (simp add: Sum256_def Let_def length_concat comp_def sum_list_triv sha_blocks_length sha_init_def)

lemma Sum256_bytes: "b \<in> set (Sum256 s) \<Longrightarrow> b < 256"
  by (auto simp: Sum256_def Let_def dest: word_bytes_bound)

lemma EncodeToHex_length: "length (EncodeToHex bs) = 2 * length bs"
  by (induction bs) (auto simp: EncodeToHex_def)

lemma hashSecret_length: "length (hashSecret s) = 64"
  by (simp add: hashSecret_def EncodeToHex_length Sum256_length)

end
