(* ===== verification/Server.thy ===== *)
theory Server
  imports ToolPolicy StoreFacts RuntimeFacts Secrets
begin

text \<open>
  \<open>cmd/gate/server.go\<close>, \<open>auth.go\<close> and \<open>http_helpers.go\<close>: the state of the gate, what a handler sees of a
  request and how it answers, the rate limiter, the table of agent links, and authentication of
  workers, MCP clients, the administrator and forms. A handler takes the instant it runs at and the
  random bytes it draws as arguments, and returns its reply and the new state.
\<close>

section \<open>Requests and replies\<close>

text \<open>
  \<open>AgentStream\<close> is an opened agent stream, \<open>Aborted\<close> the connection \<open>net/http\<close> drops when a handler panics,
  \<open>Blocked\<close> a handler that waits on a channel and has not answered. A page always renders.
  A query or form value is the empty string when the parameter is absent, as \<open>Get\<close> and \<open>FormValue\<close> give
  it; \<open>hr_basicAuth\<close> is what \<open>BasicAuth\<close> decodes from the Authorization header; \<open>hr_splitHost\<close> is the
  host part of the remote address when \<open>SplitHostPort\<close> accepts it.
\<close>

datatype body = BodyTooLarge | BodyUnreadable | Body raw_json

record httpRequest =
  hr_method :: string
  hr_path :: string
  hr_pathID :: string
  hr_authorization :: string
  hr_basicAuth :: "(string \<times> string) option"
  hr_remoteAddr :: string
  hr_splitHost :: "string option"
  hr_accept :: string
  hr_contentType :: string
  hr_query :: "string \<Rightarrow> string"
  hr_form :: "string \<Rightarrow> string"
  hr_formList :: "string \<Rightarrow> string list option"
  hr_body :: body

datatype relativeTime = Never | JustNow | SecondsAgo int | MinutesAgo int | HoursAgo int | AtTime time

datatype page =
    IndexPage "(agent \<times> bool \<times> relativeTime) list" "mcpClient list"
  | AgentPage agent bool relativeTime
  | AgentCreatedPage agent string
  | ClientCreatedPage mcpClient string string
  | ClientPage mcpClient "(agent \<times> bool) list"
  | CommandsPage agent

datatype reply =
    HttpError nat string
  | Challenge nat string
  | WriteStatus nat
  | WriteJSON json
  | WriteRaw raw_json
  | EventStream string
  | PlainText string
  | Redirect string "(string \<times> string) list"
  | SeeOther string
  | Page page
  | AgentStream nat
  | Aborted
  | Blocked

text \<open>
  What a handler takes from outside: the clock, its random draws (None when the source fails), the
  environment, the parsers of packages \<open>time\<close> and \<open>net/url\<close>, and the text of a JSON document (as it was
  received, or as \<open>json.Marshal\<close> writes it).
\<close>

record url =
  u_scheme :: string
  u_hasUser :: bool
  u_host :: string
  u_path :: string
  u_rawQuery :: string
  u_forceQuery :: bool
  u_fragment :: string

record world =
  w_now :: time
  w_rnd :: "nat list option"
  w_rnd2 :: "nat list option"
  w_getenv :: "string \<Rightarrow> string"
  w_parseDuration :: "string \<Rightarrow> duration option"
  w_parseURL :: "string \<Rightarrow> url option"
  w_text :: "json \<Rightarrow> string"

section \<open>The gate's state\<close>

record oauthCode =
  oc_mcpClientID :: string
  oc_clientID :: string
  oc_redirectURI :: string
  oc_challenge :: string
  oc_method :: string
  oc_expiresAt :: time

record rateWindow =
  rw_started :: time
  rw_count :: nat

record server =
  srv_publicURL :: string
  srv_timeout :: duration
  srv_db :: db
  srv_runtimes :: "string \<rightharpoonup> agentRuntime"
  srv_adminUser :: string
  srv_adminPassword :: string
  srv_adminCSRF :: string
  srv_oauthCodes :: "string \<rightharpoonup> oauthCode"
  srv_rateLimits :: "string \<rightharpoonup> rateWindow"

text \<open>
  \<open>newServer\<close>: an unset variable is the empty string; the administrator's password has no default.
\<close>

definition env :: "(string \<Rightarrow> string) \<Rightarrow> string \<Rightarrow> string \<Rightarrow> string" where
  "env getenv name fallback =
    (let value = TrimSpace (getenv name) in if value = [] then fallback else value)"

text \<open>\<open>ParseDuration\<close> belongs to package \<open>time\<close>; it is the argument \<open>parse\<close>.\<close>

definition durationEnv ::
  "(string \<Rightarrow> duration option) \<Rightarrow> (string \<Rightarrow> string) \<Rightarrow> string \<Rightarrow> duration \<Rightarrow> duration" where
  "durationEnv parse getenv name fallback =
    (let value = TrimSpace (getenv name)
     in if value = [] then fallback
        else case parse value of
          None \<Rightarrow> fallback
        | Some d \<Rightarrow> if d \<le> 0 then fallback else d)"

definition TrimRightSlash :: "string \<Rightarrow> string" where
  "TrimRightSlash s = rev (dropWhile (\<lambda>c. c = CHR ''/'') (rev s))"

definition newServer ::
  "(string \<Rightarrow> duration option) \<Rightarrow> (string \<Rightarrow> string) \<Rightarrow> db option \<Rightarrow> nat list option \<Rightarrow> string + server" where
  "newServer parse getenv opened rnd =
    (case opened of
       None \<Rightarrow> Inl ''initialize database''
     | Some d \<Rightarrow>
       (case generateSecret ''csrf_'' rnd of
          None \<Rightarrow> Inl ''generate csrf secret''
        | Some csrf \<Rightarrow>
            let adminUser = env getenv ''WEBCODEX_ADMIN_USER'' ''admin'';
                adminPass = env getenv ''WEBCODEX_ADMIN_PASSWORD'' []
            in if adminPass = [] then Inl ''WEBCODEX_ADMIN_PASSWORD is required''
               else
                 let trimmed = TrimRightSlash (env getenv ''WEBCODEX_PUBLIC_URL'' ''https://codex.grom.world'');
                     publicURL = (if trimmed = []
                       then ''http://'' @ env getenv ''WEBCODEX_ADDR'' ''127.0.0.1:8080'' else trimmed)
                 in Inr \<lparr>srv_publicURL = publicURL,
                         srv_timeout = durationEnv parse getenv ''WEBCODEX_CALL_TIMEOUT'' (60 * second),
                         srv_db = d, srv_runtimes = Map.empty, srv_adminUser = adminUser,
                         srv_adminPassword = adminPass, srv_adminCSRF = csrf,
                         srv_oauthCodes = Map.empty, srv_rateLimits = Map.empty\<rparr>))"

section \<open>Rate limits\<close>

definition allowRequest ::
  "time \<Rightarrow> string \<Rightarrow> nat \<Rightarrow> duration \<Rightarrow> server \<Rightarrow> bool \<times> server" where
  "allowRequest now key limit window s =
    (let entry = (case srv_rateLimits s key of
           None \<Rightarrow> \<lparr>rw_started = 0, rw_count = 0\<rparr> | Some e \<Rightarrow> e)
     in if IsZero (rw_started entry) \<or> now - rw_started entry \<ge> window
        then (True, s\<lparr>srv_rateLimits := (srv_rateLimits s)(key \<mapsto> \<lparr>rw_started = now, rw_count = 1\<rparr>)\<rparr>)
        else if rw_count entry \<ge> limit then (False, s)
        else (True, s\<lparr>srv_rateLimits := (srv_rateLimits s)
                (key \<mapsto> entry\<lparr>rw_count := Suc (rw_count entry)\<rparr>)\<rparr>))"

definition remoteHost :: "httpRequest \<Rightarrow> string" where
  "remoteHost r = (case hr_splitHost r of Some host \<Rightarrow> host | None \<Rightarrow> hr_remoteAddr r)"

section \<open>Agent links\<close>

definition existingRuntime :: "string \<Rightarrow> server \<Rightarrow> agentRuntime option" where
  "existingRuntime i s = srv_runtimes s i"

definition runtimeFor :: "string \<Rightarrow> server \<Rightarrow> agentRuntime \<times> server" where
  "runtimeFor i s =
    (case srv_runtimes s i of
       Some rt \<Rightarrow> (rt, s)
     | None \<Rightarrow> (newAgentRuntime i, s\<lparr>srv_runtimes := (srv_runtimes s)(i \<mapsto> newAgentRuntime i)\<rparr>))"

definition put_runtime :: "string \<Rightarrow> agentRuntime \<Rightarrow> server \<Rightarrow> server" where
  "put_runtime i rt s = s\<lparr>srv_runtimes := (srv_runtimes s)(i \<mapsto> rt)\<rparr>"

text \<open>\<open>if rt := s.existingRuntime(id); rt != nil { rt.disconnect() }\<close>\<close>

definition disconnect_existing :: "string \<Rightarrow> server \<Rightarrow> server" where
  "disconnect_existing i s =
    (case existingRuntime i s of None \<Rightarrow> s | Some rt \<Rightarrow> put_runtime i (disconnect rt) s)"

section \<open>Authentication\<close>

definition bearerToken :: "httpRequest \<Rightarrow> string" where
  "bearerToken r =
    (let value = TrimSpace (hr_authorization r)
     in if \<not> HasPrefix value ''Bearer '' then [] else TrimSpace (TrimPrefix value ''Bearer ''))"

definition authenticateAgent :: "httpRequest \<Rightarrow> server \<Rightarrow> (string + agent \<times> agentRuntime) \<times> server" where
  "authenticateAgent r s =
    (let token = bearerToken r
     in if token = [] then (Inl ''missing bearer token'', s)
        else case FindAgentByAgentTokenHash (hashSecret token) (srv_db s) of
          Inl e \<Rightarrow> (Inl ''invalid agent token'', s)
        | Inr a \<Rightarrow>
            if \<not> a_enabled a then (Inl ''agent disabled'', s)
            else (case runtimeFor (a_id a) s of (rt, s') \<Rightarrow> (Inr (a, rt), s')))"

definition authenticateMCP :: "time \<Rightarrow> httpRequest \<Rightarrow> server \<Rightarrow> string + mcpClient" where
  "authenticateMCP now r s =
    (let token = bearerToken r
     in if token = [] then Inl ''missing bearer token''
        else case FindMCPClientByAccessTokenHash (hashSecret token) (srv_db s) of
          Inl e \<Rightarrow> Inl ''invalid access token''
        | Inr (c, t) \<Rightarrow>
            if now > t_expiresAt t then Inl ''access token expired''
            else if \<not> c_enabled c then Inl ''MCP client disabled''
            else Inr c)"

text \<open>The guard runs the next handler only for the administrator.\<close>

definition adminAuth ::
  "(httpRequest \<Rightarrow> server \<Rightarrow> reply \<times> server) \<Rightarrow> httpRequest \<Rightarrow> server \<Rightarrow> reply \<times> server" where
  "adminAuth handler r s =
    (case hr_basicAuth r of
       None \<Rightarrow> (Challenge 401 ''Basic realm=WebCodex Admin'', s)
     | Some (user, pass) \<Rightarrow>
         if user \<noteq> srv_adminUser s \<or> \<not> secureCompare pass (srv_adminPassword s)
         then (Challenge 401 ''Basic realm=WebCodex Admin'', s)
         else handler r s)"

definition verifyCSRF :: "httpRequest \<Rightarrow> server \<Rightarrow> bool" where
  "verifyCSRF r s =
    (let token = hr_form r ''csrf'' in token \<noteq> [] \<and> secureCompare token (srv_adminCSRF s))"

end
