(* ===== verification/ServerFacts.thy ===== *)
theory ServerFacts
  imports Server
begin

text \<open>
  The rate limiter bounds what one key gets through in any window, and authentication accepts exactly
  the credentials on record.
\<close>

section \<open>A concrete gate\<close>

text \<open>
  A gate with one agent, one client granted to it, and one token, on which the theorems of the server
  components are instantiated. The hashes stay symbolic.
\<close>

definition example_server :: "db \<Rightarrow> server" where
  "example_server d = \<lparr>srv_publicURL = ''https://gate'', srv_timeout = 60 * second, srv_db = d,
     srv_runtimes = Map.empty, srv_adminUser = ''admin'', srv_adminPassword = ''secret'',
     srv_adminCSRF = ''csrf_x'', srv_oauthCodes = Map.empty, srv_rateLimits = Map.empty\<rparr>"

definition example_agent :: agent where
  "example_agent = \<lparr>a_id = ''pc'', a_name = ''PC'', a_enabled = True, a_tokenHash = hashSecret ''worker'',
     a_allowedRoots = ''*'', a_allowedTools = [], a_deniedTools = ''exec_command'',
     a_createdAt = 1, a_updatedAt = 1, a_lastSeenAt = None\<rparr>"

definition example_client :: mcpClient where
  "example_client = \<lparr>c_id = ''c'', c_name = ''C'', c_enabled = True, c_oauthClientID = ''oc'',
     c_secretHash = hashSecret ''secret'', c_createdAt = 1, c_updatedAt = 1\<rparr>"

definition example_token :: accessToken where
  "example_token = \<lparr>t_hash = hashSecret ''tok'', t_clientID = ''c'', t_expiresAt = 1000, t_createdAt = 1\<rparr>"

definition example_db :: db where
  "example_db = \<lparr>agents = [example_agent], clients = [example_client], tokens = [example_token],
     grants = [(''c'', ''pc'')], reachable_db = True\<rparr>"

lemmas example_defs = example_server_def example_agent_def example_client_def example_token_def example_db_def

lemma example_db_consistent [simp]: "consistent example_db" "reachable_db example_db"
  by (simp_all add: consistent_def example_defs)

definition example_request :: "string \<Rightarrow> string \<Rightarrow> body \<Rightarrow> httpRequest" where
  "example_request meth token b = \<lparr>hr_method = meth, hr_path = ''/mcp'', hr_pathID = ''pc'',
     hr_authorization = ''Bearer '' @ token, hr_basicAuth = Some (''admin'', ''secret''),
     hr_remoteAddr = ''10.0.0.1:99'', hr_splitHost = Some ''10.0.0.1'', hr_accept = [], hr_contentType = [],
     hr_query = (\<lambda>_. []), hr_form = (\<lambda>_. []), hr_formList = Map.empty, hr_body = b\<rparr>"

definition example_world :: "time \<Rightarrow> world" where
  "example_world now = \<lparr>w_now = now, w_rnd = Some [1, 2, 3], w_rnd2 = Some [4, 5, 6], w_getenv = (\<lambda>_. []),
     w_parseDuration = (\<lambda>_. None), w_parseURL = (\<lambda>_. None), w_text = (\<lambda>_. [])\<rparr>"

section \<open>Rate limiting\<close>

text \<open>
  A run of the limiter over timed requests for arbitrary keys, each key with the limit its handlers
  pass; the number of requests of one key that it admits.
\<close>

fun admitted :: "(string \<Rightarrow> nat) \<Rightarrow> duration \<Rightarrow> string \<Rightarrow> (time \<times> string) list \<Rightarrow> server \<Rightarrow> nat" where
  "admitted quota window key [] s = 0"
| "admitted quota window key ((now, k) # evs) s =
    (case allowRequest now k (quota k) window s of
       (ok, s') \<Rightarrow> (if ok \<and> k = key then 1 else 0) + admitted quota window key evs s')"

definition rate_count :: "string \<Rightarrow> server \<Rightarrow> nat" where
  "rate_count key s = (case srv_rateLimits s key of None \<Rightarrow> 0 | Some e \<Rightarrow> rw_count e)"

lemma allowRequest_other: "allowRequest now k l w s = (ok, s') \<Longrightarrow> k \<noteq> key \<Longrightarrow>
    srv_rateLimits s' key = srv_rateLimits s key"
  by (auto simp: allowRequest_def Let_def split: if_splits)

lemma allowRequest_open:
  assumes "srv_rateLimits s key = Some e" "\<not> IsZero (rw_started e)" "now < rw_started e + w"
    and "allowRequest now key l w s = (ok, s')"
  shows "ok \<longleftrightarrow> rw_count e < l"
    and "srv_rateLimits s' key = Some (if ok then e\<lparr>rw_count := Suc (rw_count e)\<rparr> else e)"
  using assms by (auto simp: allowRequest_def Let_def split: if_splits)

lemma admitted_same_window:
  assumes "srv_rateLimits s key = Some e" "\<not> IsZero (rw_started e)"
    and "\<forall>(now, k) \<in> set evs. now < rw_started e + w"
  shows "admitted quota w key evs s \<le> quota key - rw_count e"
  using assms
proof (induction evs arbitrary: s e)
  case (Cons ev evs)
  obtain now k where ev: "ev = (now, k)" by (cases ev)
  obtain ok s' where step: "allowRequest now k (quota k) w s = (ok, s')"
    by (cases "allowRequest now k (quota k) w s")
  show ?case
  proof (cases "k = key")
    case False
    then have "srv_rateLimits s' key = Some e"
      using allowRequest_other [OF step] Cons.prems(1) by simp
    then show ?thesis using Cons.IH [of s' e] Cons.prems False by (simp add: ev step)
  next
    case True
    have ok: "ok \<longleftrightarrow> rw_count e < quota key"
      and s': "srv_rateLimits s' key = Some (if ok then e\<lparr>rw_count := Suc (rw_count e)\<rparr> else e)"
      using allowRequest_open [OF Cons.prems(1,2), of now w "quota key" ok s'] Cons.prems(3) step True
      by (auto simp: ev)
    show ?thesis
      using Cons.IH [OF s'] Cons.prems ok step [unfolded True] by (auto simp: ev True split: if_splits)
  qed
qed simp

lemma allowRequest_count: "allowRequest now key l w s = (ok, s') \<Longrightarrow>
    (ok \<and> srv_rateLimits s' key = Some \<lparr>rw_started = now, rw_count = 1\<rparr>)
    \<or> (ok \<and> rate_count key s < l \<and> rate_count key s' = Suc (rate_count key s))
    \<or> (\<not> ok \<and> rate_count key s' = rate_count key s)"
  by (cases "srv_rateLimits s key")
    (auto simp: allowRequest_def Let_def rate_count_def IsZero_def split: if_splits)

lemma admitted_budget:
  assumes "0 < t" "0 < quota key" "sorted (map fst evs)"
    and "\<forall>(now, k) \<in> set evs. t \<le> now \<and> now < t + w"
  shows "admitted quota w key evs s \<le> (quota key - rate_count key s) + quota key"
  using assms(3,4)
proof (induction evs arbitrary: s)
  case (Cons ev evs)
  obtain now k where ev: "ev = (now, k)" by (cases ev)
  obtain ok s' where step: "allowRequest now k (quota k) w s = (ok, s')"
    by (cases "allowRequest now k (quota k) w s")
  have IH: "admitted quota w key evs s' \<le> (quota key - rate_count key s') + quota key"
    using Cons.IH [of s'] Cons.prems by simp
  show ?case
  proof (cases "k = key")
    case False
    then show ?thesis
      using IH allowRequest_other [OF step] by (simp add: ev step rate_count_def)
  next
    case True
    note step' = step [unfolded True]
    consider (reset) "ok" "srv_rateLimits s' key = Some \<lparr>rw_started = now, rw_count = 1\<rparr>"
      | (more) "ok" "rate_count key s < quota key" "rate_count key s' = Suc (rate_count key s)"
      | (full) "\<not> ok" "rate_count key s' = rate_count key s"
      using allowRequest_count [OF step'] by blast
    then show ?thesis
    proof cases
      case reset
      have "\<forall>(u, k) \<in> set evs. u < now + w" and "now \<noteq> 0"
        using Cons.prems assms(1) by (fastforce simp: ev)+
      then have "admitted quota w key evs s' \<le> quota key - 1"
        using admitted_same_window [of s' key "\<lparr>rw_started = now, rw_count = 1\<rparr>" evs w quota] reset(2)
        by (simp add: IsZero_def)
      then show ?thesis using reset assms(2) by (simp add: ev True step')
    qed (use IH in \<open>simp_all add: ev True step'\<close>)
  qed
qed simp

text \<open>C39: however requests for different keys interleave, and whatever happened before, no key gets more
  than twice its limit through within one window length (a fixed window can be drained just before
  and just after it turns).\<close>

theorem rate_limit:
  assumes "0 < t" "0 < quota key" "sorted (map fst evs)"
    and "\<forall>(now, k) \<in> set evs. t \<le> now \<and> now < t + w"
  shows "admitted quota w key evs s \<le> 2 * quota key"
  using admitted_budget [of t quota key evs w s] assms by simp

theorem rate_limit_witness:
  "admitted (\<lambda>_. 1) 10 ''k'' [(5, ''k''), (6, ''j''), (7, ''k'')] (example_server empty_db) \<le> 2
   \<and> admitted (\<lambda>_. 1) 10 ''k'' [(5, ''k''), (6, ''j''), (7, ''k'')] (example_server empty_db) = 1"
proof
  show "admitted (\<lambda>_. 1) 10 ''k'' [(5, ''k''), (6, ''j''), (7, ''k'')] (example_server empty_db) \<le> 2"
    using rate_limit [of 5 "\<lambda>_. 1" "''k''" "[(5, ''k''), (6, ''j''), (7, ''k'')]" 10 "example_server empty_db"]
    by simp
qed (simp add: allowRequest_def example_server_def IsZero_def)

section \<open>Authentication\<close>

lemma bearerToken_example: "bearerToken (example_request m ''tok'' b) = ''tok''"
  "bearerToken (example_request m ''worker'' b) = ''worker''"
proof -
  have "bearerToken (example_request m t b)
      = TrimSpace (TrimPrefix (TrimSpace (''Bearer '' @ t)) ''Bearer '')" if "HasPrefix (TrimSpace (''Bearer '' @ t)) ''Bearer ''" for t
    using that by (simp add: bearerToken_def example_request_def Let_def)
  moreover have "TrimSpace (''Bearer '' @ ''tok'') = ''Bearer tok''" "TrimSpace (''Bearer '' @ ''worker'') = ''Bearer worker''"
    "TrimSpace ''tok'' = ''tok''" "TrimSpace ''worker'' = ''worker''"
    by code_simp+
  ultimately show "bearerToken (example_request m ''tok'' b) = ''tok''"
    "bearerToken (example_request m ''worker'' b) = ''worker''"
    by (simp_all add: HasPrefix_def TrimPrefix_def)
qed

lemma runtimeFor_frame:
  "runtimeFor i s = (rt, s') \<Longrightarrow> srv_db s' = srv_db s \<and> srv_oauthCodes s' = srv_oauthCodes s
     \<and> srv_rateLimits s' = srv_rateLimits s \<and> srv_publicURL s' = srv_publicURL s
     \<and> srv_adminCSRF s' = srv_adminCSRF s \<and> srv_runtimes s' i = Some rt
     \<and> (\<forall>j. j \<noteq> i \<longrightarrow> srv_runtimes s' j = srv_runtimes s j)"
  by (auto simp: runtimeFor_def split: option.splits)

lemma authenticateMCP_Inr:
  assumes "authenticateMCP now r s = Inr c"
  shows "c \<in> set (clients (srv_db s)) \<and> c_enabled c \<and> bearerToken r \<noteq> []
    \<and> (\<exists>t \<in> set (tokens (srv_db s)). t_hash t = hashSecret (bearerToken r)
         \<and> t_clientID t = c_id c \<and> now \<le> t_expiresAt t)"
  using assms
  by (auto simp: authenticateMCP_def Let_def split: if_splits sum.splits dest!: FindToken_Inr)

lemma authenticateMCP_holds:
  assumes "consistent (srv_db s)" "reachable_db (srv_db s)"
  shows "authenticateMCP now r s = Inr c \<longleftrightarrow>
     bearerToken r \<noteq> [] \<and> c \<in> set (clients (srv_db s)) \<and> c_enabled c
     \<and> (\<exists>t \<in> set (tokens (srv_db s)). t_hash t = hashSecret (bearerToken r)
          \<and> t_clientID t = c_id c \<and> now \<le> t_expiresAt t)"
proof
  show "authenticateMCP now r s = Inr c" if "bearerToken r \<noteq> [] \<and> c \<in> set (clients (srv_db s)) \<and> c_enabled c
     \<and> (\<exists>t \<in> set (tokens (srv_db s)). t_hash t = hashSecret (bearerToken r)
          \<and> t_clientID t = c_id c \<and> now \<le> t_expiresAt t)"
  proof -
    from that obtain t where t: "t \<in> set (tokens (srv_db s))" "t_hash t = hashSecret (bearerToken r)"
      "t_clientID t = c_id c" "now \<le> t_expiresAt t" and c: "c \<in> set (clients (srv_db s))" "c_enabled c"
      and b: "bearerToken r \<noteq> []" by blast
    have "FindMCPClientByAccessTokenHash (hashSecret (bearerToken r)) (srv_db s) = Inr (c, t)"
      using FindToken_complete [OF assms t(1) c(1) t(3)] t(2) by simp
    then show ?thesis using b c(2) t(4) by (simp add: authenticateMCP_def Let_def)
  qed
qed (use authenticateMCP_Inr in blast)

text \<open>C38: a bearer token authenticates an MCP client exactly when its hash is on record for that client,
  the client is enabled and the token has not expired.\<close>

theorem authenticateMCP_iff:
  assumes "consistent (srv_db s)" "reachable_db (srv_db s)"
  shows "authenticateMCP now r s = Inr c \<longleftrightarrow>
     bearerToken r \<noteq> [] \<and> c \<in> set (clients (srv_db s)) \<and> c_enabled c
     \<and> (\<exists>t \<in> set (tokens (srv_db s)). t_hash t = hashSecret (bearerToken r)
          \<and> t_clientID t = c_id c \<and> now \<le> t_expiresAt t)"
  using assms by (rule authenticateMCP_holds)

theorem authenticateMCP_iff_witness:
  "authenticateMCP 1000 (example_request ''GET'' ''tok'' (Body (Document JNull))) (example_server example_db) = Inr example_client"
  by (rule authenticateMCP_iff [THEN iffD2])
    (simp_all add: bearerToken_example example_server_def,
     simp_all add: example_db_def example_client_def example_token_def)

text \<open>The bearer token of a worker authenticates exactly the enabled agent whose row holds its hash;
  the request changes nothing but the table of links, where that agent now has one.\<close>

theorem authenticateAgent_iff:
  assumes "consistent (srv_db s)" "reachable_db (srv_db s)"
  shows "(\<exists>rt s'. authenticateAgent r s = (Inr (a, rt), s') \<and> srv_runtimes s' (a_id a) = Some rt \<and> srv_db s' = srv_db s)
     \<longleftrightarrow> bearerToken r \<noteq> [] \<and> a \<in> set (agents (srv_db s)) \<and> a_enabled a
         \<and> a_tokenHash a = hashSecret (bearerToken r)"
proof
  assume "\<exists>rt s'. authenticateAgent r s = (Inr (a, rt), s') \<and> srv_runtimes s' (a_id a) = Some rt \<and> srv_db s' = srv_db s"
  then show "bearerToken r \<noteq> [] \<and> a \<in> set (agents (srv_db s)) \<and> a_enabled a
         \<and> a_tokenHash a = hashSecret (bearerToken r)"
    by (auto simp: authenticateAgent_def Let_def split: if_splits sum.splits prod.splits dest!: FindAgent_Inr)
next
  assume R: "bearerToken r \<noteq> [] \<and> a \<in> set (agents (srv_db s)) \<and> a_enabled a
         \<and> a_tokenHash a = hashSecret (bearerToken r)"
  then have "FindAgentByAgentTokenHash (hashSecret (bearerToken r)) (srv_db s) = Inr a"
    using FindAgent_complete [OF assms, of a] by simp
  moreover obtain rt s' where rt: "runtimeFor (a_id a) s = (rt, s')" by (cases "runtimeFor (a_id a) s")
  ultimately show "\<exists>rt s'. authenticateAgent r s = (Inr (a, rt), s') \<and> srv_runtimes s' (a_id a) = Some rt
      \<and> srv_db s' = srv_db s"
    using R runtimeFor_frame [OF rt] by (simp add: authenticateAgent_def Let_def)
qed

theorem authenticateAgent_iff_witness:
  "\<exists>rt s'. authenticateAgent (example_request ''GET'' ''worker'' (Body (Document JNull))) (example_server example_db)
      = (Inr (example_agent, rt), s') \<and> srv_runtimes s' ''pc'' = Some rt"
proof -
  have "\<exists>rt s'. authenticateAgent (example_request ''GET'' ''worker'' (Body (Document JNull))) (example_server example_db)
      = (Inr (example_agent, rt), s') \<and> srv_runtimes s' (a_id example_agent) = Some rt
      \<and> srv_db s' = srv_db (example_server example_db)"
    by (rule authenticateAgent_iff [THEN iffD2])
      (simp_all add: bearerToken_example example_server_def, simp_all add: example_db_def example_agent_def)
  then show ?thesis by (auto simp: example_agent_def)
qed

end
