(* ===== verification/OAuth.thy ===== *)
theory OAuth
  imports ServerFacts
begin

text \<open>
  \<open>cmd/gate/oauth.go\<close>: discovery documents, the authorization endpoint that issues single-use codes bound
  to a client, a redirect URI and a PKCE challenge, and the token endpoint that redeems them.
\<close>

section \<open>Discovery\<close>

definition metadata_path :: "string \<Rightarrow> string" where
  "metadata_path p =
    (if HasSuffix p ''/mcp/v2'' then ''/mcp/v2''
     else if HasSuffix p ''/mcp/v3'' then ''/mcp/v3''
     else if HasSuffix p ''/mcp/v4'' then ''/mcp/v4''
     else if HasSuffix p ''/mcp/v5'' then ''/mcp/v5''
     else ''/mcp'')"

definition handleProtectedResource :: "httpRequest \<Rightarrow> server \<Rightarrow> reply" where
  "handleProtectedResource r s =
    (if hr_method r \<noteq> ''GET'' then HttpError 405 ''method not allowed''
     else WriteJSON (JObj
       [(''resource'', JStr (srv_publicURL s @ metadata_path (hr_path r))),
        (''authorization_servers'', JArr [JStr (srv_publicURL s)]),
        (''scopes_supported'', JArr [JStr ''mcp''])]))"

definition handleOAuthServer :: "httpRequest \<Rightarrow> server \<Rightarrow> reply" where
  "handleOAuthServer r s =
    (if hr_method r \<noteq> ''GET'' then HttpError 405 ''method not allowed''
     else WriteJSON (JObj
       [(''issuer'', JStr (srv_publicURL s)),
        (''authorization_response_iss_parameter_supported'', JBool True),
        (''authorization_endpoint'', JStr (srv_publicURL s @ ''/oauth/authorize'')),
        (''token_endpoint'', JStr (srv_publicURL s @ ''/oauth/token'')),
        (''response_types_supported'', JArr [JStr ''code'']),
        (''grant_types_supported'', JArr [JStr ''authorization_code'']),
        (''code_challenge_methods_supported'', JArr [JStr ''S256'']),
        (''token_endpoint_auth_methods_supported'', JArr [JStr ''client_secret_post'', JStr ''client_secret_basic'']),
        (''scopes_supported'', JArr [JStr ''mcp''])]))"

section \<open>Redirect URIs\<close>

definition allowedOAuthRedirect :: "(string \<Rightarrow> url option) \<Rightarrow> string \<Rightarrow> bool" where
  "allowedOAuthRedirect parse value =
    (if value = ''https://chatgpt.com/oauth/callback''
        \<or> value = ''https://chatgpt.com/connector_platform_oauth_redirect'' then True
     else case parse value of
       None \<Rightarrow> False
     | Some target \<Rightarrow>
         if u_scheme target \<noteq> ''https'' \<or> u_rawQuery target \<noteq> [] \<or> u_fragment target \<noteq> [] then False
         else
           let callback =
             (if EqualFold (u_host target) ''chatgpt.com''
              then Some (TrimPrefix (u_path target) ''/connector/oauth/'')
              else if EqualFold (u_host target) ''oauth-redirect.googleusercontent.com''
                      \<and> \<not> u_hasUser target \<and> \<not> u_forceQuery target
              then Some (TrimPrefix (u_path target) ''/r/user_bound_custom-mcp-'')
              else None)
           in (case callback of
                 None \<Rightarrow> False
               | Some callbackID \<Rightarrow>
                   callbackID \<noteq> u_path target \<and> callbackID \<noteq> [] \<and> CHR ''/'' \<notin> set callbackID))"

section \<open>The authorization endpoint\<close>

text \<open>\<open>Redirect\<close> carries the target and the parameters set on its query.\<close>

definition with_state :: "httpRequest \<Rightarrow> (string \<times> string) list \<Rightarrow> (string \<times> string) list" where
  "with_state r query =
    (let state = hr_query r ''state'' in if state \<noteq> [] then query @ [(''state'', state)] else query)"

definition redirectOAuthError :: "httpRequest \<Rightarrow> server \<Rightarrow> string \<Rightarrow> string \<Rightarrow> string \<Rightarrow> reply" where
  "redirectOAuthError r s target code description =
     Redirect target (with_state r
       [(''error'', code), (''error_description'', description), (''iss'', srv_publicURL s)])"

definition handleAuthorize :: "world \<Rightarrow> httpRequest \<Rightarrow> server \<Rightarrow> reply \<times> server" where
  "handleAuthorize w r s0 =
    (case allowRequest (w_now w) (''authorize:'' @ remoteHost r) 30 minute s0 of (ok, s) \<Rightarrow>
     if \<not> ok then (HttpError 429 ''too many requests'', s)
     else
       let clientID = hr_query r ''client_id''; redirectURI = hr_query r ''redirect_uri''
       in if hr_method r \<noteq> ''GET'' then (HttpError 405 ''method not allowed'', s)
          else if clientID = [] then (HttpError 400 ''missing client_id'', s)
          else (case FindMCPClientByOAuthClientID clientID (srv_db s) of
            Inl e \<Rightarrow> (HttpError 401 ''unknown or disabled client'', s)
          | Inr client \<Rightarrow>
            if \<not> c_enabled client then (HttpError 401 ''unknown or disabled client'', s)
            else if redirectURI = [] then (HttpError 400 ''missing redirect_uri'', s)
            else if \<not> allowedOAuthRedirect (w_parseURL w) redirectURI
            then (HttpError 400 ''redirect_uri is not allowed'', s)
            else if w_parseURL w redirectURI = None then (HttpError 400 ''invalid redirect_uri'', s)
            else if hr_query r ''response_type'' \<noteq> ''code''
            then (redirectOAuthError r s redirectURI ''unsupported_response_type'' ''response_type must be code'', s)
            else
              let challenge = hr_query r ''code_challenge''
              in if challenge = [] \<or> hr_query r ''code_challenge_method'' \<noteq> ''S256''
                 then (redirectOAuthError r s redirectURI ''invalid_request'' ''PKCE S256 is required'', s)
                 else (case generateSecret ''wc_code_'' (w_rnd w) of
                   None \<Rightarrow> (redirectOAuthError r s redirectURI ''server_error'' ''generate code error'', s)
                 | Some code \<Rightarrow>
                     let entry = \<lparr>oc_mcpClientID = c_id client, oc_clientID = clientID,
                           oc_redirectURI = redirectURI, oc_challenge = challenge, oc_method = ''S256'',
                           oc_expiresAt = w_now w + 5 * minute\<rparr>
                     in (Redirect redirectURI (with_state r [(''code'', code), (''iss'', srv_publicURL s)]),
                         s\<lparr>srv_oauthCodes := (srv_oauthCodes s)(code \<mapsto> entry)\<rparr>))))"

section \<open>The token endpoint\<close>

text \<open>Decoding into a \<open>map[string]string\<close>: null is the zero value, any other non-string an error.\<close>

fun decode_string_map :: "raw_json \<Rightarrow> (string \<Rightarrow> string) option" where
  "decode_string_map (Document JNull) = Some (\<lambda>_. [])"
| "decode_string_map (Document (JObj m)) =
    (if list_all (\<lambda>(k, v). v = JNull \<or> as_string v \<noteq> None) m
     then Some (\<lambda>k. case member_string (members m) k of None \<Rightarrow> [] | Some v \<Rightarrow> v) else None)"
| "decode_string_map _ = None"

definition tokenParams :: "httpRequest \<Rightarrow> (string \<Rightarrow> string) option" where
  "tokenParams r =
    (if HasPrefix (hr_contentType r) ''application/json''
     then (case hr_body r of Body raw \<Rightarrow> decode_string_map raw | _ \<Rightarrow> None)
     else (case hr_body r of Body raw \<Rightarrow> Some (hr_form r) | _ \<Rightarrow> None))"

text \<open>Looking a code up deletes it, whatever follows.\<close>

definition take_code :: "string \<Rightarrow> server \<Rightarrow> oauthCode option \<times> server" where
  "take_code code s =
    (srv_oauthCodes s code, s\<lparr>srv_oauthCodes := (srv_oauthCodes s)(code := None)\<rparr>)"

definition redeem ::
  "world \<Rightarrow> (string \<Rightarrow> string) \<Rightarrow> string \<Rightarrow> mcpClient \<Rightarrow> oauthCode option \<Rightarrow> server \<Rightarrow> reply \<times> server" where
  "redeem w params clientID client found s =
    (case found of
       None \<Rightarrow> (HttpError 400 ''invalid or expired authorization code'', s)
     | Some entry \<Rightarrow>
       if w_now w > oc_expiresAt entry \<or> oc_clientID entry \<noteq> clientID \<or> oc_mcpClientID entry \<noteq> c_id client
       then (HttpError 400 ''invalid or expired authorization code'', s)
       else if params ''redirect_uri'' = [] \<or> params ''redirect_uri'' \<noteq> oc_redirectURI entry
       then (HttpError 400 ''redirect_uri mismatch'', s)
       else if \<not> verifyPKCE (params ''code_verifier'') (oc_challenge entry) (oc_method entry)
       then (HttpError 400 ''invalid code_verifier'', s)
       else (case generateSecret ''wc_mcp_'' (w_rnd w) of
         None \<Rightarrow> (HttpError 500 ''generate access token error'', s)
       | Some rawToken \<Rightarrow>
           let tokenTTL = durationEnv (w_parseDuration w) (w_getenv w) ''WEBCODEX_ACCESS_TOKEN_TTL'' (24 * hour);
               token = \<lparr>t_hash = hashSecret rawToken, t_clientID = c_id client,
                        t_expiresAt = w_now w + tokenTTL, t_createdAt = 0\<rparr>
           in (case CreateAccessToken (w_now w) token (srv_db s) of
                 Inl e \<Rightarrow> (HttpError 500 ''failed to persist access token'', s)
               | Inr d \<Rightarrow>
                   (WriteJSON (JObj [(''access_token'', JStr rawToken), (''token_type'', JStr ''Bearer''),
                      (''expires_in'', JNum (of_int (tokenTTL div second))), (''scope'', JStr ''mcp'')]),
                    s\<lparr>srv_db := d\<rparr>))))"

definition handleToken :: "world \<Rightarrow> httpRequest \<Rightarrow> server \<Rightarrow> reply \<times> server" where
  "handleToken w r s0 =
    (case allowRequest (w_now w) (''token:'' @ remoteHost r) 30 minute s0 of (ok, s) \<Rightarrow>
     if \<not> ok then (HttpError 429 ''too many requests'', s)
     else if hr_method r \<noteq> ''POST'' then (HttpError 405 ''method not allowed'', s)
     else (case tokenParams r of
       None \<Rightarrow> (HttpError 400 ''bad token request'', s)
     | Some params \<Rightarrow>
         (case (case hr_basicAuth r of Some cred \<Rightarrow> cred
                | None \<Rightarrow> (params ''client_id'', params ''client_secret'')) of
          (clientID, clientSecret) \<Rightarrow>
          if clientID = [] \<or> clientSecret = [] then (HttpError 401 ''missing client credentials'', s)
          else (case FindMCPClientByOAuthClientID clientID (srv_db s) of
            Inl e \<Rightarrow> (HttpError 401 ''unknown or disabled client'', s)
          | Inr client \<Rightarrow>
            if \<not> c_enabled client then (HttpError 401 ''unknown or disabled client'', s)
            else if \<not> secureCompare (hashSecret clientSecret) (c_secretHash client)
            then (HttpError 401 ''bad client secret'', s)
            else if params ''grant_type'' \<noteq> ''authorization_code''
            then (HttpError 400 ''unsupported grant_type'', s)
            else if params ''code'' = [] then (HttpError 400 ''missing code'', s)
            else (case take_code (params ''code'') s of
                (found, s1) \<Rightarrow> redeem w params clientID client found s1)))))"

end
