(* ===== verification/OAuthFacts.thy ===== *)
theory OAuthFacts
  imports OAuth
begin

text \<open>
  Security of the OAuth flow: what a code certifies, what a token exchange proves, single use of codes,
  and the flow from authorization to an authenticated MCP request.
\<close>

lemma allowRequest_frame:
  "allowRequest now k l w s = (ok, s') \<Longrightarrow> \<exists>m. s' = s\<lparr>srv_rateLimits := m\<rparr>"
  by (auto simp: allowRequest_def Let_def intro: exI [of _ "srv_rateLimits s"] split: if_splits)

section \<open>Redirect URIs\<close>

text \<open>A redirect URI is accepted only if it is one of the two fixed ChatGPT callbacks or an https URL
  without query or fragment whose host is, up to case, ChatGPT's or Google's redirect host, and whose
  path is the connector prefix of that host followed by one non-empty segment.\<close>

theorem allowedOAuthRedirect_sound:
  assumes "allowedOAuthRedirect parse value"
  shows "value \<in> {''https://chatgpt.com/oauth/callback'', ''https://chatgpt.com/connector_platform_oauth_redirect''}
   \<or> (\<exists>u seg. parse value = Some u \<and> u_scheme u = ''https'' \<and> u_rawQuery u = [] \<and> u_fragment u = []
        \<and> seg \<noteq> [] \<and> CHR ''/'' \<notin> set seg
        \<and> (EqualFold (u_host u) ''chatgpt.com'' \<and> u_path u = ''/connector/oauth/'' @ seg
           \<or> EqualFold (u_host u) ''oauth-redirect.googleusercontent.com'' \<and> \<not> u_hasUser u
             \<and> u_path u = ''/r/user_bound_custom-mcp-'' @ seg))"
proof (cases "value \<in> {''https://chatgpt.com/oauth/callback'', ''https://chatgpt.com/connector_platform_oauth_redirect''}")
  case False
  have trim: "TrimPrefix p q \<noteq> p \<Longrightarrow> p = q @ TrimPrefix p q" for p q
    by (auto simp: TrimPrefix_def HasPrefix_def split: if_splits) (metis append_take_drop_id)
  note rest = assms [unfolded allowedOAuthRedirect_def Let_def]
  obtain u where u: "parse value = Some u" using rest False by (auto split: option.splits)
  have ok: "u_scheme u = ''https''" "u_rawQuery u = []" "u_fragment u = []"
    using rest False u by (auto split: if_split_asm)
  have "\<exists>pre. (EqualFold (u_host u) ''chatgpt.com'' \<and> pre = ''/connector/oauth/''
         \<or> EqualFold (u_host u) ''oauth-redirect.googleusercontent.com'' \<and> \<not> u_hasUser u
           \<and> pre = ''/r/user_bound_custom-mcp-'')
       \<and> TrimPrefix (u_path u) pre \<noteq> u_path u \<and> TrimPrefix (u_path u) pre \<noteq> []
       \<and> CHR ''/'' \<notin> set (TrimPrefix (u_path u) pre)"
    using rest False u ok by (simp split: if_split_asm) blast+
  then show ?thesis using u ok trim by blast
qed blast

definition example_url :: url where
  "example_url = \<lparr>u_scheme = ''https'', u_hasUser = False, u_host = ''ChatGPT.com'',
      u_path = ''/connector/oauth/abc'', u_rawQuery = [], u_forceQuery = False, u_fragment = []\<rparr>"

theorem allowedOAuthRedirect_sound_witness:
  "allowedOAuthRedirect (\<lambda>_. Some example_url) ''https://ChatGPT.com/connector/oauth/abc''
   \<and> (\<exists>seg. u_path example_url = ''/connector/oauth/'' @ seg \<and> CHR ''/'' \<notin> set seg \<and> seg \<noteq> [])"
proof -
  have ok: "allowedOAuthRedirect (\<lambda>_. Some example_url) ''https://ChatGPT.com/connector/oauth/abc''"
    by code_simp
  have "u_path example_url \<noteq> ''/r/user_bound_custom-mcp-'' @ seg" for seg
    by (simp add: example_url_def)
  with ok allowedOAuthRedirect_sound [OF ok] show ?thesis by auto
qed

section \<open>Issuing codes\<close>

lemma handleAuthorize_code:
  assumes "handleAuthorize w r s = (Redirect target q, s')" "(''code'', code) \<in> set q"
  shows "\<exists>c. c \<in> set (clients (srv_db s)) \<and> c_enabled c \<and> c_oauthClientID c = hr_query r ''client_id''
    \<and> hr_query r ''client_id'' \<noteq> [] \<and> target = hr_query r ''redirect_uri'' \<and> target \<noteq> []
    \<and> allowedOAuthRedirect (w_parseURL w) target
    \<and> hr_query r ''code_challenge'' \<noteq> [] \<and> generateSecret ''wc_code_'' (w_rnd w) = Some code
    \<and> srv_oauthCodes s' = (srv_oauthCodes s)(code \<mapsto>
        \<lparr>oc_mcpClientID = c_id c, oc_clientID = hr_query r ''client_id'', oc_redirectURI = target,
         oc_challenge = hr_query r ''code_challenge'', oc_method = ''S256'', oc_expiresAt = w_now w + 5 * minute\<rparr>)
    \<and> srv_db s' = srv_db s \<and> srv_publicURL s' = srv_publicURL s"
  using assms unfolding handleAuthorize_def Let_def redirectOAuthError_def with_state_def
  by (auto split: prod.splits if_splits sum.splits option.splits
      dest!: FindByOAuth_Inr allowRequest_frame)

lemma handleAuthorize_other:
  assumes "handleAuthorize w r s = (rep, s')"
    and "\<forall>target q code. rep = Redirect target q \<longrightarrow> (''code'', code) \<notin> set q"
  shows "srv_oauthCodes s' = srv_oauthCodes s \<and> srv_db s' = srv_db s"
  using assms unfolding handleAuthorize_def Let_def redirectOAuthError_def with_state_def
  by (auto split: prod.splits if_splits sum.splits option.splits dest!: allowRequest_frame)

text \<open>The authorization endpoint registers a code only when it redirects with that code, and then for an
  enabled client with an allowed redirect URI and a PKCE challenge, all of which the code records; every
  other reply leaves the codes and the database untouched.\<close>

theorem authorize_registers:
  assumes "handleAuthorize w r s = (rep, s')"
  shows "(srv_oauthCodes s' = srv_oauthCodes s
     \<or> (\<exists>code q c. rep = Redirect (hr_query r ''redirect_uri'') q \<and> (''code'', code) \<in> set q
          \<and> c \<in> set (clients (srv_db s)) \<and> c_enabled c \<and> c_oauthClientID c = hr_query r ''client_id''
          \<and> allowedOAuthRedirect (w_parseURL w) (hr_query r ''redirect_uri'')
          \<and> hr_query r ''code_challenge'' \<noteq> []
          \<and> srv_oauthCodes s' = (srv_oauthCodes s)(code \<mapsto>
              \<lparr>oc_mcpClientID = c_id c, oc_clientID = c_oauthClientID c,
               oc_redirectURI = hr_query r ''redirect_uri'', oc_challenge = hr_query r ''code_challenge'',
               oc_method = ''S256'', oc_expiresAt = w_now w + 5 * minute\<rparr>)))
   \<and> srv_db s' = srv_db s"
proof (cases "\<exists>target q code. rep = Redirect target q \<and> (''code'', code) \<in> set q")
  case True
  then obtain target q code where rep: "rep = Redirect target q" and q: "(''code'', code) \<in> set q" by blast
  then show ?thesis using handleAuthorize_code [OF assms [unfolded rep] q] by metis
qed (use handleAuthorize_other [OF assms] in blast)

section \<open>Redeeming codes\<close>

definition issued_token :: "world \<Rightarrow> string \<Rightarrow> string \<Rightarrow> accessToken" where
  "issued_token w raw c = \<lparr>t_hash = hashSecret raw, t_clientID = c, t_expiresAt = w_now w
     + durationEnv (w_parseDuration w) (w_getenv w) ''WEBCODEX_ACCESS_TOKEN_TTL'' (24 * hour), t_createdAt = w_now w\<rparr>"

lemma redeem_json:
  assumes "redeem w params cid c found s = (WriteJSON j, s')"
  shows "\<exists>entry raw. found = Some entry \<and> w_now w \<le> oc_expiresAt entry \<and> oc_clientID entry = cid
    \<and> oc_mcpClientID entry = c_id c \<and> params ''redirect_uri'' = oc_redirectURI entry
    \<and> verifyPKCE (params ''code_verifier'') (oc_challenge entry) (oc_method entry)
    \<and> generateSecret ''wc_mcp_'' (w_rnd w) = Some raw
    \<and> srv_db s' = (srv_db s)\<lparr>tokens := tokens (srv_db s) @ [issued_token w raw (c_id c)]\<rparr>
    \<and> srv_oauthCodes s' = srv_oauthCodes s"
  using assms unfolding redeem_def Let_def
  by (auto split: option.splits if_splits sum.splits
      simp: issued_token_def CreateAccessToken_def IsZero_def Let_def)

lemma redeem_codes: "redeem w params cid c found s = (rep, s') \<Longrightarrow> srv_oauthCodes s' = srv_oauthCodes s"
  unfolding redeem_def Let_def by (auto split: option.splits if_splits sum.splits)

lemma handleToken_json:
  assumes "handleToken w r s = (WriteJSON j, s')"
  shows "\<exists>params cid secret c m. tokenParams r = Some params
    \<and> (cid, secret) = (case hr_basicAuth r of Some cred \<Rightarrow> cred | None \<Rightarrow> (params ''client_id'', params ''client_secret''))
    \<and> c \<in> set (clients (srv_db s)) \<and> c_oauthClientID c = cid \<and> c_enabled c \<and> hashSecret secret = c_secretHash c
    \<and> params ''code'' \<noteq> []
    \<and> redeem w params cid c (srv_oauthCodes s (params ''code''))
        (s\<lparr>srv_rateLimits := m, srv_oauthCodes := (srv_oauthCodes s)(params ''code'' := None)\<rparr>) = (WriteJSON j, s')"
proof -
  obtain ok m where rate: "allowRequest (w_now w) (''token:'' @ remoteHost r) 30 minute s
      = (ok, s\<lparr>srv_rateLimits := m\<rparr>)"
    by (metis allowRequest_frame surj_pair)
  show ?thesis
    using assms unfolding handleToken_def rate take_code_def
    by (auto split: if_splits option.splits prod.splits sum.splits dest!: FindByOAuth_Inr)
qed

lemma handleToken_codes:
  "handleToken w r s = (rep, s') \<Longrightarrow>
     srv_oauthCodes s' k = srv_oauthCodes s k \<or> srv_oauthCodes s' k = None"
  unfolding handleToken_def take_code_def
  by (auto split: if_splits option.splits prod.splits sum.splits
      dest!: allowRequest_frame redeem_codes)

text \<open>C17: a token is issued only to a client that proves its identity and possession of the code: enabled
  client, right secret, a live code issued to that client, the same redirect URI and the verifier
  behind the challenge; then exactly one token row is added, for that client.\<close>

theorem token_requires_proof:
  assumes "handleToken w r s = (WriteJSON j, s')"
  shows "\<exists>params c entry raw.
      tokenParams r = Some params
    \<and> c \<in> set (clients (srv_db s)) \<and> c_enabled c
    \<and> hashSecret (case hr_basicAuth r of Some (_, secret) \<Rightarrow> secret | None \<Rightarrow> params ''client_secret'') = c_secretHash c
    \<and> srv_oauthCodes s (params ''code'') = Some entry
    \<and> oc_mcpClientID entry = c_id c \<and> oc_clientID entry = c_oauthClientID c
    \<and> w_now w \<le> oc_expiresAt entry
    \<and> params ''redirect_uri'' = oc_redirectURI entry
    \<and> verifyPKCE (params ''code_verifier'') (oc_challenge entry) (oc_method entry)
    \<and> generateSecret ''wc_mcp_'' (w_rnd w) = Some raw
    \<and> (\<exists>t. t_hash t = hashSecret raw \<and> t_clientID t = c_id c
         \<and> srv_db s' = (srv_db s)\<lparr>tokens := tokens (srv_db s) @ [t]\<rparr>)"
proof -
  from handleToken_json [OF assms] obtain params cid secret c m where
    p: "tokenParams r = Some params"
      "(cid, secret) = (case hr_basicAuth r of Some cred \<Rightarrow> cred | None \<Rightarrow> (params ''client_id'', params ''client_secret''))"
    and c: "c \<in> set (clients (srv_db s))" "c_oauthClientID c = cid" "c_enabled c" "hashSecret secret = c_secretHash c"
    and red: "redeem w params cid c (srv_oauthCodes s (params ''code''))
        (s\<lparr>srv_rateLimits := m, srv_oauthCodes := (srv_oauthCodes s)(params ''code'' := None)\<rparr>) = (WriteJSON j, s')"
    by blast
  have sec: "secret = (case hr_basicAuth r of Some (_, secret) \<Rightarrow> secret | None \<Rightarrow> params ''client_secret'')"
    using p(2) by (auto split: option.splits)
  obtain entry raw where e: "srv_oauthCodes s (params ''code'') = Some entry" "w_now w \<le> oc_expiresAt entry"
      "oc_clientID entry = cid" "oc_mcpClientID entry = c_id c" "params ''redirect_uri'' = oc_redirectURI entry"
      "verifyPKCE (params ''code_verifier'') (oc_challenge entry) (oc_method entry)"
      "generateSecret ''wc_mcp_'' (w_rnd w) = Some raw"
      "srv_db s' = (srv_db s)\<lparr>tokens := tokens (srv_db s) @ [issued_token w raw (c_id c)]\<rparr>"
    using redeem_json [OF red] by auto
  have t: "t_hash (issued_token w raw (c_id c)) = hashSecret raw" "t_clientID (issued_token w raw (c_id c)) = c_id c"
    by (simp_all add: issued_token_def)
  show ?thesis using p(1) c e t sec by blast
qed


section \<open>The whole flow\<close>

lemma FindByOAuth_complete:
  "consistent d \<Longrightarrow> reachable_db d \<Longrightarrow> c \<in> set (clients d) \<Longrightarrow>
     FindMCPClientByOAuthClientID (c_oauthClientID c) d = Inr c"
  by (simp add: FindMCPClientByOAuthClientID_def consistent_def find_unique)

lemma handleToken_run:
  assumes "fst (allowRequest (w_now w) (''token:'' @ remoteHost r) 30 minute s)"
    and "hr_method r = ''POST''" "tokenParams r = Some params" "hr_basicAuth r = None"
    and "params ''client_id'' \<noteq> []" "params ''client_secret'' \<noteq> []"
    and "FindMCPClientByOAuthClientID (params ''client_id'') (srv_db s) = Inr c" "c_enabled c"
    and "hashSecret (params ''client_secret'') = c_secretHash c"
    and "params ''grant_type'' = ''authorization_code''" "params ''code'' \<noteq> []"
  shows "\<exists>m. handleToken w r s = redeem w params (params ''client_id'') c (srv_oauthCodes s (params ''code''))
    (s\<lparr>srv_rateLimits := m, srv_oauthCodes := (srv_oauthCodes s)(params ''code'' := None)\<rparr>)"
proof -
  obtain ok s0 where eq: "allowRequest (w_now w) (''token:'' @ remoteHost r) 30 minute s = (ok, s0)"
    by (cases "allowRequest (w_now w) (''token:'' @ remoteHost r) 30 minute s")
  from allowRequest_frame [OF eq] obtain m where s0: "s0 = s\<lparr>srv_rateLimits := m\<rparr>" by blast
  have "ok" using assms(1) eq by simp
  then have "handleToken w r s = redeem w params (params ''client_id'') c (srv_oauthCodes s (params ''code''))
    (s\<lparr>srv_rateLimits := m, srv_oauthCodes := (srv_oauthCodes s)(params ''code'' := None)\<rparr>)"
    unfolding handleToken_def eq s0 using assms(2-) by (simp add: take_code_def)
  then show ?thesis by blast
qed

lemma handleToken_issues:
  assumes run: "fst (allowRequest (w_now w) (''token:'' @ remoteHost r) 30 minute s)"
      "hr_method r = ''POST''" "tokenParams r = Some params" "hr_basicAuth r = None"
      "params ''client_id'' \<noteq> []" "params ''client_secret'' \<noteq> []"
      "FindMCPClientByOAuthClientID (params ''client_id'') (srv_db s) = Inr c" "c_enabled c"
      "hashSecret (params ''client_secret'') = c_secretHash c"
      "params ''grant_type'' = ''authorization_code''" "params ''code'' \<noteq> []"
    and entry: "srv_oauthCodes s (params ''code'') = Some entry" "w_now w \<le> oc_expiresAt entry"
      "oc_clientID entry = params ''client_id''" "oc_mcpClientID entry = c_id c"
      "params ''redirect_uri'' = oc_redirectURI entry" "oc_redirectURI entry \<noteq> []"
      "verifyPKCE (params ''code_verifier'') (oc_challenge entry) (oc_method entry)"
    and token: "w_rnd w = Some b" "hashSecret (''wc_mcp_'' @ RawURLEncoding b) \<notin> t_hash ` set (tokens (srv_db s))"
  shows "\<exists>j s2. handleToken w r s = (WriteJSON j, s2) \<and> srv_db s2 = (srv_db s)
    \<lparr>tokens := tokens (srv_db s) @ [issued_token w (''wc_mcp_'' @ RawURLEncoding b) (c_id c)]\<rparr>"
proof -
  let ?t = "issued_token w (''wc_mcp_'' @ RawURLEncoding b) (c_id c)"
  obtain m where eq: "handleToken w r s = redeem w params (params ''client_id'') c (srv_oauthCodes s (params ''code''))
      (s\<lparr>srv_rateLimits := m, srv_oauthCodes := (srv_oauthCodes s)(params ''code'' := None)\<rparr>)"
    using handleToken_run [OF run] by blast
  have "c \<in> set (clients (srv_db s))" "reachable_db (srv_db s)"
    using run(7) by (auto dest: FindByOAuth_Inr)
  then have "CreateAccessToken (w_now w) (?t\<lparr>t_createdAt := 0\<rparr>) (srv_db s)
      = Inr ((srv_db s)\<lparr>tokens := tokens (srv_db s) @ [?t]\<rparr>)"
    using token(2) by (auto simp: CreateAccessToken_def issued_token_def IsZero_def)
  then show ?thesis
    unfolding eq entry(1) redeem_def using entry(2-) token(1)
    by (simp add: generateSecret_def issued_token_def Let_def)
qed

text \<open>C16: the flow works end to end: a client that was redirected with a code and presents it in time, with
  its secret, the same redirect URI and the verifier, obtains a token, and a request bearing that token
  authenticates as that client until the token expires.\<close>

theorem oauth_flow:
  assumes db: "consistent (srv_db s)" "reachable_db (srv_db s)" "c \<in> set (clients (srv_db s))"
    and auth: "handleAuthorize w1 r1 s = (Redirect target q, s1)" "(''code'', code) \<in> set q"
      "hr_query r1 ''client_id'' = c_oauthClientID c"
      "hr_query r1 ''code_challenge'' = RawURLEncoding (Sum256 verifier)" "verifier \<noteq> []"
    and token: "fst (allowRequest (w_now w2) (''token:'' @ remoteHost r2) 30 minute s1)"
      "hr_method r2 = ''POST''" "tokenParams r2 = Some params" "hr_basicAuth r2 = None"
      "params ''client_id'' = c_oauthClientID c" "params ''client_secret'' \<noteq> []"
      "hashSecret (params ''client_secret'') = c_secretHash c"
      "params ''grant_type'' = ''authorization_code''" "params ''code'' = code"
      "params ''redirect_uri'' = target" "params ''code_verifier'' = verifier"
      "w_now w2 \<le> w_now w1 + 5 * minute" "w_rnd w2 = Some b"
      "hashSecret (''wc_mcp_'' @ RawURLEncoding b) \<notin> t_hash ` set (tokens (srv_db s))"
    and use: "bearerToken r3 = ''wc_mcp_'' @ RawURLEncoding b"
      "now3 \<le> w_now w2 + durationEnv (w_parseDuration w2) (w_getenv w2) ''WEBCODEX_ACCESS_TOKEN_TTL'' (24 * hour)"
  shows "\<exists>j s2. handleToken w2 r2 s1 = (WriteJSON j, s2) \<and> authenticateMCP now3 r3 s2 = Inr c"
proof -
  from handleAuthorize_code [OF auth(1,2)] obtain c' where
    c': "c' \<in> set (clients (srv_db s))" "c_enabled c'" "c_oauthClientID c' = c_oauthClientID c"
    and ne: "c_oauthClientID c \<noteq> []" "target \<noteq> []" "hr_query r1 ''code_challenge'' \<noteq> []"
    and code: "generateSecret ''wc_code_'' (w_rnd w1) = Some code"
    and codes: "srv_oauthCodes s1 = (srv_oauthCodes s)(code \<mapsto>
        \<lparr>oc_mcpClientID = c_id c', oc_clientID = c_oauthClientID c, oc_redirectURI = target,
         oc_challenge = hr_query r1 ''code_challenge'', oc_method = ''S256'', oc_expiresAt = w_now w1 + 5 * minute\<rparr>)"
    and db1: "srv_db s1 = srv_db s"
    using auth(3) by auto
  have "c' = c" using db(1,3) c'(1,3) filter_key_unique [of c_oauthClientID] by (auto simp: consistent_def)
  have code_ne: "code \<noteq> []" using code by (auto simp: generateSecret_def split: option.splits)
  let ?t = "issued_token w2 (''wc_mcp_'' @ RawURLEncoding b) (c_id c)"
  have pkce: "verifyPKCE verifier (hr_query r1 ''code_challenge'') ''S256''"
    using auth(4,5) ne(3) by (simp add: verifyPKCE_def)
  have "\<exists>j s2. handleToken w2 r2 s1 = (WriteJSON j, s2)
      \<and> srv_db s2 = (srv_db s1)\<lparr>tokens := tokens (srv_db s1) @ [?t]\<rparr>"
    by (rule handleToken_issues [where params = params and b = b and entry = "\<lparr>oc_mcpClientID = c_id c,
          oc_clientID = c_oauthClientID c, oc_redirectURI = target, oc_challenge = hr_query r1 ''code_challenge'',
          oc_method = ''S256'', oc_expiresAt = w_now w1 + 5 * minute\<rparr>"])
      (simp_all add: token FindByOAuth_complete [OF db] c'(2) [unfolded \<open>c' = c\<close>] ne code_ne codes db1 pkce
        token(1) [simplified] token(14) [simplified] \<open>c' = c\<close>)
  then obtain j s2 where res: "handleToken w2 r2 s1 = (WriteJSON j, s2)"
    and db2: "srv_db s2 = (srv_db s)\<lparr>tokens := tokens (srv_db s) @ [?t]\<rparr>"
    using db1 by auto
  have "consistent (srv_db s2)"
    unfolding db2 using db token(14) consistent_add_token [of "srv_db s" ?t] by (simp add: issued_token_def)
  moreover have "\<exists>t \<in> set (tokens (srv_db s2)). t_hash t = hashSecret (bearerToken r3)
      \<and> t_clientID t = c_id c \<and> now3 \<le> t_expiresAt t"
    using use by (simp add: db2 issued_token_def)
  ultimately have "authenticateMCP now3 r3 s2 = Inr c"
    using db c'(2) use(1) \<open>c' = c\<close> by (intro authenticateMCP_holds [THEN iffD2]) (simp_all add: db2)
  with res show ?thesis by blast
qed

section \<open>Instances\<close>

text \<open>One client is sent to its callback with a code, and redeems it.\<close>

definition callback :: string where "callback = ''https://chatgpt.com/oauth/callback''"

definition flow_server :: server where
  "flow_server = example_server (example_db\<lparr>tokens := []\<rparr>)"

definition flow_authorize :: httpRequest where
  "flow_authorize = (example_request ''GET'' [] BodyUnreadable)\<lparr>hr_query := (\<lambda>_. [])
     (''client_id'' := ''oc'', ''redirect_uri'' := callback, ''response_type'' := ''code'',
      ''code_challenge'' := RawURLEncoding (Sum256 ''v''), ''code_challenge_method'' := ''S256'')\<rparr>"

definition flow_world :: world where
  "flow_world = (example_world 100)\<lparr>w_parseURL := (\<lambda>_. Some example_url)\<rparr>"

definition flow_server1 :: server where
  "flow_server1 = snd (handleAuthorize flow_world flow_authorize flow_server)"

definition flow_token :: httpRequest where
  "flow_token = (example_request ''POST'' [] (Body (Document JNull)))\<lparr>hr_basicAuth := None, hr_form := (\<lambda>_. [])
     (''client_id'' := ''oc'', ''client_secret'' := ''secret'', ''grant_type'' := ''authorization_code'',
      ''code'' := ''wc_code_AQID'', ''redirect_uri'' := callback, ''code_verifier'' := ''v'')\<rparr>"

lemma RawURLEncoding_Nil: "RawURLEncoding bs = [] \<longleftrightarrow> bs = []"
  by (cases bs rule: RawURLEncoding.cases) simp_all

lemma Sum256_not_Nil: "RawURLEncoding (Sum256 t) \<noteq> []"
  using Sum256_length [of t] by (auto simp: RawURLEncoding_Nil)

lemma example_code: "url64_digit 0 = CHR ''A''" "url64_digit 16 = CHR ''Q''" "url64_digit 8 = CHR ''I''"
  "url64_digit 3 = CHR ''D''"
  by code_simp+

lemma flow_redirects:
  "handleAuthorize flow_world flow_authorize flow_server
     = (Redirect callback [(''code'', ''wc_code_AQID''), (''iss'', ''https://gate'')], flow_server1)"
proof -
  have "fst (handleAuthorize flow_world flow_authorize flow_server)
      = Redirect callback [(''code'', ''wc_code_AQID''), (''iss'', ''https://gate'')]"
    using Sum256_not_Nil [of "''v''"]
    by (simp add: handleAuthorize_def flow_world_def flow_authorize_def flow_server_def allowRequest_def Let_def
        IsZero_def FindMCPClientByOAuthClientID_def allowedOAuthRedirect_def callback_def generateSecret_def
        with_state_def example_code example_defs example_request_def example_world_def)
  then show ?thesis unfolding flow_server1_def by (metis prod.collapse)
qed

lemma flow_codes: "srv_db flow_server1 = srv_db flow_server"
  "srv_rateLimits flow_server1 = [''authorize:10.0.0.1'' \<mapsto> \<lparr>rw_started = 100, rw_count = 1\<rparr>]"
  using Sum256_not_Nil [of "''v''"]
  by (simp_all add: flow_server1_def handleAuthorize_def flow_world_def flow_authorize_def flow_server_def
        allowRequest_def Let_def remoteHost_def
        IsZero_def FindMCPClientByOAuthClientID_def allowedOAuthRedirect_def callback_def generateSecret_def
        with_state_def example_code example_defs example_request_def example_world_def)

lemma flow_code:
  "srv_oauthCodes flow_server1 = [''wc_code_AQID'' \<mapsto> \<lparr>oc_mcpClientID = ''c'', oc_clientID = ''oc'',
     oc_redirectURI = callback, oc_challenge = RawURLEncoding (Sum256 ''v''), oc_method = ''S256'',
     oc_expiresAt = 100 + 5 * minute\<rparr>]"
  using Sum256_not_Nil [of "''v''"]
  by (simp add: flow_server1_def handleAuthorize_def flow_world_def flow_authorize_def flow_server_def
        allowRequest_def Let_def IsZero_def FindMCPClientByOAuthClientID_def allowedOAuthRedirect_def
        callback_def generateSecret_def with_state_def example_code example_defs example_request_def
        example_world_def)

lemma flow_params: "tokenParams flow_token = Some (hr_form flow_token)"
  by (simp add: tokenParams_def flow_token_def example_request_def HasPrefix_def)

lemma flow_form:
  "hr_form flow_token ''client_id'' = ''oc''" "hr_form flow_token ''client_secret'' = ''secret''"
  "hr_form flow_token ''grant_type'' = ''authorization_code''" "hr_form flow_token ''code'' = ''wc_code_AQID''"
  "hr_form flow_token ''redirect_uri'' = callback" "hr_form flow_token ''code_verifier'' = ''v''"
  by (simp_all add: flow_token_def)

lemma flow_rate: "fst (allowRequest (w_now (example_world 200)) (''token:'' @ remoteHost flow_token) 30 minute flow_server1)"
  by (simp add: allowRequest_def flow_codes flow_token_def example_request_def remoteHost_def IsZero_def Let_def)

lemma flow_issues: "\<exists>j s2. handleToken (example_world 200) flow_token flow_server1 = (WriteJSON j, s2)"
proof -
  have "\<exists>j s2. handleToken (example_world 200) flow_token flow_server1 = (WriteJSON j, s2)
      \<and> srv_db s2 = (srv_db flow_server1)\<lparr>tokens := tokens (srv_db flow_server1)
          @ [issued_token (example_world 200) (''wc_mcp_'' @ RawURLEncoding [1, 2, 3]) (c_id example_client)]\<rparr>"
    by (rule handleToken_issues [OF flow_rate _ flow_params, where b = "[1, 2, 3]"])
      (simp_all add: flow_form flow_code, simp_all add: flow_token_def example_request_def flow_codes flow_server_def
        FindMCPClientByOAuthClientID_def example_defs example_world_def go_simps callback_def verifyPKCE_def
        Sum256_not_Nil)
  then show ?thesis by blast
qed

theorem authorize_registers_witness:
  "\<exists>code c entry. srv_oauthCodes flow_server1 = [code \<mapsto> entry] \<and> c \<in> set (clients (srv_db flow_server))
     \<and> c_enabled c \<and> oc_mcpClientID entry = c_id c"
proof -
  have "srv_oauthCodes flow_server = Map.empty" by (simp add: flow_server_def example_server_def)
  moreover from this have "srv_oauthCodes flow_server1 \<noteq> srv_oauthCodes flow_server"
    by (simp add: flow_code)
  ultimately show ?thesis
    using authorize_registers [OF flow_redirects] by force
qed

theorem token_requires_proof_witness:
  "\<exists>c t s2. c \<in> set (clients (srv_db flow_server1)) \<and> c_secretHash c = hashSecret ''secret''
     \<and> snd (handleToken (example_world 200) flow_token flow_server1) = s2
     \<and> srv_db s2 = (srv_db flow_server1)\<lparr>tokens := tokens (srv_db flow_server1) @ [t]\<rparr> \<and> t_clientID t = c_id c"
proof -
  obtain j s2 where run: "handleToken (example_world 200) flow_token flow_server1 = (WriteJSON j, s2)"
    using flow_issues by blast
  have basic: "hr_basicAuth flow_token = None" by (simp add: flow_token_def)
  from token_requires_proof [OF run] show ?thesis
    unfolding flow_params run basic by (auto simp: flow_form)
qed


lemma flow_bearer: "bearerToken (example_request ''POST'' ''wc_mcp_AQID'' BodyUnreadable) = ''wc_mcp_'' @ RawURLEncoding [1, 2, 3]"
proof -
  have "TrimSpace ''Bearer wc_mcp_AQID'' = ''Bearer wc_mcp_AQID''" "TrimSpace ''wc_mcp_AQID'' = ''wc_mcp_AQID''"
    by code_simp+
  then show ?thesis
    by (simp add: bearerToken_def example_request_def HasPrefix_def TrimPrefix_def example_code)
qed

theorem oauth_flow_witness:
  "\<exists>j s2. handleToken (example_world 200) flow_token flow_server1 = (WriteJSON j, s2)
     \<and> authenticateMCP 300 (example_request ''POST'' ''wc_mcp_AQID'' BodyUnreadable) s2 = Inr example_client"
proof (rule oauth_flow [OF _ _ _ flow_redirects _ _ _ _ flow_rate _ flow_params])
  show "consistent (srv_db flow_server)" "reachable_db (srv_db flow_server)" "example_client \<in> set (clients (srv_db flow_server))"
    by (simp_all add: consistent_def flow_server_def example_defs)
  show "hr_query flow_authorize ''client_id'' = c_oauthClientID example_client"
    "hr_query flow_authorize ''code_challenge'' = RawURLEncoding (Sum256 ''v'')"
    by (simp_all add: flow_authorize_def example_client_def)
  show "hashSecret (hr_form flow_token ''client_secret'') = c_secretHash example_client"
    "hr_form flow_token ''client_id'' = c_oauthClientID example_client"
    by (simp_all add: flow_form example_client_def)
  show "w_now (example_world 200) \<le> w_now flow_world + 5 * minute"
    by (simp add: example_world_def flow_world_def go_simps)
  show "300 \<le> w_now (example_world 200) + durationEnv (w_parseDuration (example_world 200))
      (w_getenv (example_world 200)) ''WEBCODEX_ACCESS_TOKEN_TTL'' (24 * hour)"
    by (simp add: example_world_def durationEnv_def go_simps)
  show "hashSecret (''wc_mcp_'' @ RawURLEncoding [1, 2, 3]) \<notin> t_hash ` set (tokens (srv_db flow_server))"
    by (simp add: flow_server_def example_server_def)
  show "hr_method flow_token = ''POST''" "hr_basicAuth flow_token = None" "w_rnd (example_world 200) = Some [1, 2, 3]"
    by (simp_all add: flow_token_def example_request_def example_world_def)
qed (simp_all add: flow_form flow_bearer)

end
