(* ===== verification/Mcp.thy ===== *)
theory Mcp
  imports OAuthFacts Protocol
begin

text \<open>
  \<open>cmd/gate/mcp.go\<close> and the routing half of \<open>mcp_agents.go\<close>: the MCP entry point. It authenticates the
  client, parses the JSON-RPC message, answers \<open>initialize\<close>, \<open>ping\<close> and notifications itself, and routes a
  tool call to the one granted agent it names, marked with the contract version; \<open>tools/list\<close> merges
  the lists of the agents that are online.
\<close>

section \<open>Messages\<close>

record jsonrpcMessage =
  msg_ID :: "json option"
  msg_Method :: string

definition decode_message :: "raw_json \<Rightarrow> jsonrpcMessage option" where
  "decode_message body =
    (case struct_members body of
       None \<Rightarrow> None
     | Some m \<Rightarrow>
        (case string_field [] (field ''method'' m) of
           None \<Rightarrow> None
         | Some meth \<Rightarrow> Some \<lparr>msg_ID = raw_field (field ''id'' m), msg_Method = meth\<rparr>))"

definition id_json :: "json option \<Rightarrow> json" where
  "id_json i = (case i of None \<Rightarrow> JNull | Some j \<Rightarrow> j)"

definition rpc_result :: "json option \<Rightarrow> json \<Rightarrow> json" where
  "rpc_result i result = JObj [(''jsonrpc'', JStr ''2.0''), (''id'', id_json i), (''result'', result)]"

definition writeRPCError :: "json option \<Rightarrow> int \<Rightarrow> string \<Rightarrow> reply" where
  "writeRPCError i code message =
     WriteJSON (JObj ([(''jsonrpc'', JStr ''2.0''),
         (''error'', JObj [(''code'', JNum (of_int code)), (''message'', JStr message)])]
       @ (case i of None \<Rightarrow> [] | Some j \<Rightarrow> [(''id'', j)])))"

text \<open>A failed tool call is a result with \<open>isError\<close>.\<close>

definition tool_error :: "json option \<Rightarrow> string \<Rightarrow> json" where
  "tool_error i message = rpc_result i (JObj [(''isError'', JBool True),
     (''content'', JArr [JObj [(''type'', JStr ''text''), (''text'', JStr message)]])])"

definition writeToolCallError :: "json option \<Rightarrow> string \<Rightarrow> reply" where
  "writeToolCallError i message = WriteJSON (tool_error i message)"

section \<open>Tool calls\<close>

record toolCall =
  tc_name :: string
  tc_arguments :: object

definition parseToolCall :: "raw_json \<Rightarrow> string + toolCall" where
  "parseToolCall request =
    (case struct_members request of
       None \<Rightarrow> Inl ''parse tool call''
     | Some m \<Rightarrow>
        (case struct_field (field ''params'' m) of
           None \<Rightarrow> Inl ''parse tool call''
         | Some params \<Rightarrow>
            (case (string_field [] (field ''name'' params), map_field (field ''arguments'' params)) of
               (Some name, Some arguments) \<Rightarrow>
                  if name = [] then Inl ''missing tool name''
                  else Inr \<lparr>tc_name = name,
                       tc_arguments = (case arguments of None \<Rightarrow> [] | Some args \<Rightarrow> args)\<rparr>
             | _ \<Rightarrow> Inl ''parse tool call'')))"

text \<open>
  The routing argument is stripped from the forwarded message. The assertion that the message has a
  \<open>params\<close> object panics when it has none.
\<close>

definition selectMCPAgent :: "raw_json \<Rightarrow> toolCall \<Rightarrow> agent list \<Rightarrow> (agent \<times> raw_json) outcome" where
  "selectMCPAgent body call ags =
    (case (case map_of (tc_arguments call) ''agent_id'' of
             None \<Rightarrow> if length ags \<noteq> 1 then Inl ''agent_id is required; use list_agents to choose a computer''
                     else Inr (False, a_id (hd ags))
           | Some v \<Rightarrow> (case as_string v of
                 None \<Rightarrow> Inl ''agent_id must be a non-empty string''
               | Some i \<Rightarrow> if i = [] then Inl ''agent_id must be a non-empty string'' else Inr (True, i))) of
       Inl e \<Rightarrow> Fails e
     | Inr (provided, i) \<Rightarrow>
        (case List.find (\<lambda>a. a_id a = i) ags of
           None \<Rightarrow> Fails ''agent is not available to this MCP connection''
         | Some a \<Rightarrow>
            if \<not> a_enabled a then Fails ''agent disabled''
            else if \<not> provided then Returns (a, body)
            else (case unmarshal_object body of
                    None \<Rightarrow> Fails ''unmarshal''
                  | Some message \<Rightarrow>
                     (case member_object message ''params'' of
                        None \<Rightarrow> Panics
                      | Some params \<Rightarrow>
                          Returns (a, marshal (AList.update ''params''
                            (JObj (AList.update ''arguments''
                               (JObj (AList.delete ''agent_id'' (tc_arguments call))) params)) message))))))"

text \<open>Assigning to the nil map that null decodes to panics.\<close>

definition markContract :: "raw_json \<Rightarrow> string \<Rightarrow> raw_json outcome" where
  "markContract request version =
    (case unmarshal_object request of
       None \<Rightarrow> Fails ''parse request contract''
     | Some message \<Rightarrow>
        if request = Document JNull then Panics
        else
          let params = (case member_object message ''params'' of None \<Rightarrow> [] | Some p \<Rightarrow> p)
          in Returns (marshal (AList.update ''params''
               (JObj (AList.update ''_webcodex_contract'' (JStr version) params)) message)))"

fun raw_text :: "(json \<Rightarrow> string) \<Rightarrow> raw_json \<Rightarrow> string" where
  "raw_text text (Malformed s) = s"
| "raw_text text (Document j) = text j"

definition error_message :: "json \<Rightarrow> string" where
  "error_message e =
    (case e of
       JObj m \<Rightarrow> (case member_string m ''message'' of
           None \<Rightarrow> ''unknown tool error''
         | Some t \<Rightarrow> if t = [] then ''unknown tool error'' else t)
     | JStr t \<Rightarrow> t
     | _ \<Rightarrow> ''unknown tool error'')"

definition ensureToolCallResult :: "(json \<Rightarrow> string) \<Rightarrow> raw_json \<Rightarrow> json option \<Rightarrow> raw_json" where
  "ensureToolCallResult text response i =
    (case unmarshal_object response of
       None \<Rightarrow> Document (tool_error i (raw_text text response))
     | Some obj \<Rightarrow>
        (case map_of obj ''error'' of
           None \<Rightarrow> response
         | Some e \<Rightarrow> if e = JNull then response else Document (tool_error i (error_message e))))"

section \<open>The computers of a connection\<close>

definition mcpAgents :: "mcpClient \<Rightarrow> db \<Rightarrow> store_error + agent list" where
  "mcpAgents owner d =
    (case ListMCPAgentIDs (c_id owner) d of
       Inl e \<Rightarrow> Inl e
     | Inr ids \<Rightarrow> first_error (\<lambda>i. GetAgent i d) ids)"

definition online :: "string \<Rightarrow> server \<Rightarrow> bool" where
  "online i s = (case existingRuntime i s of None \<Rightarrow> False | Some rt \<Rightarrow> isOnline rt)"

definition listAgentsTool :: object where
  "listAgentsTool =
    [(''name'', JStr ''list_agents''),
     (''description'', JStr ''List computers available to this MCP connection and their online status.''),
     (''inputSchema'', JObj [(''type'', JStr ''object''), (''properties'', JObj []),
        (''additionalProperties'', JBool False)]),
     (''annotations'', JObj [(''readOnlyHint'', JBool True), (''destructiveHint'', JBool False),
        (''openWorldHint'', JBool False)])]"

definition writeMCPAgents :: "(json \<Rightarrow> string) \<Rightarrow> json option \<Rightarrow> agent list \<Rightarrow> server \<Rightarrow> reply" where
  "writeMCPAgents text i ags s =
    (let items = map (\<lambda>a. JObj [(''id'', JStr (a_id a)), (''name'', JStr (a_name a)),
               (''online'', JBool (online (a_id a) s))]) (filter a_enabled ags);
         data = JObj [(''agents'', JArr items)]
     in WriteJSON (rpc_result i (JObj [(''structuredContent'', data),
          (''content'', JArr [JObj [(''type'', JStr ''text''), (''text'', JStr (text data))]])])))"

section \<open>Merging the tool lists\<close>

text \<open>
  The reply of an agent as \<open>groupedTools\<close> decodes it: the error member, and the tools unless the result
  or its list is missing. A repeated list replaces the one before.
\<close>

fun tool_elements :: "json list \<Rightarrow> object list option" where
  "tool_elements [] = Some []"
| "tool_elements (JNull # xs) = map_option (Cons []) (tool_elements xs)"
| "tool_elements (JObj m # xs) = map_option (Cons (members m)) (tool_elements xs)"
| "tool_elements (x # xs) = None"

fun list_field :: "object list option \<Rightarrow> json list \<Rightarrow> object list option option" where
  "list_field acc [] = Some acc"
| "list_field acc (JNull # vs) = list_field None vs"
| "list_field acc (JArr xs # vs) =
    (case tool_elements xs of None \<Rightarrow> None | Some ts \<Rightarrow> list_field (Some ts) vs)"
| "list_field acc (v # vs) = None"

definition decode_tools :: "raw_json \<Rightarrow> (json option \<times> object list option) option" where
  "decode_tools response =
    (case struct_members response of
       None \<Rightarrow> None
     | Some m \<Rightarrow>
        (case pointer_field None (field ''result'' m) of
           None \<Rightarrow> None
         | Some None \<Rightarrow> Some (raw_field (field ''error'' m), None)
         | Some (Some result) \<Rightarrow>
             map_option (Pair (raw_field (field ''error'' m))) (list_field None (field ''tools'' result))))"

record grouping =
  gr_tools :: "object list"
  gr_byName :: "string \<rightharpoonup> object"
  gr_computers :: "string \<rightharpoonup> string list"

text \<open>A missing member of a map is the nil value, which null decodes to as well.\<close>

definition member_or_nil :: "object \<Rightarrow> string \<Rightarrow> json" where
  "member_or_nil m k = (case map_of m k of None \<Rightarrow> JNull | Some v \<Rightarrow> v)"

definition merge_tool :: "string \<Rightarrow> object \<Rightarrow> grouping \<Rightarrow> string + grouping" where
  "merge_tool agentID tool g =
    (case member_string tool ''name'' of
       None \<Rightarrow> Inr g
     | Some name \<Rightarrow>
        if name = ''list_agents'' then Inr g
        else (case gr_byName g name of
           Some previous \<Rightarrow>
             if \<not> DeepEqual (member_or_nil previous ''inputSchema'') (member_or_nil tool ''inputSchema'')
                \<or> \<not> DeepEqual (member_or_nil previous ''outputSchema'') (member_or_nil tool ''outputSchema'')
             then Inl (''incompatible schemas for '' @ name @ ''; update grouped agents to the same version'')
             else Inr (g\<lparr>gr_computers := (gr_computers g)
                    (name \<mapsto> (case gr_computers g name of None \<Rightarrow> [] | Some cs \<Rightarrow> cs) @ [agentID])\<rparr>)
         | None \<Rightarrow>
             Inr (g\<lparr>gr_byName := (gr_byName g)(name \<mapsto> tool), gr_computers := (gr_computers g)(name \<mapsto> [agentID]),
                     gr_tools := gr_tools g @ [tool]\<rparr>)))"

fun merge_tools :: "string \<Rightarrow> object list \<Rightarrow> grouping \<Rightarrow> string + grouping" where
  "merge_tools agentID [] g = Inr g"
| "merge_tools agentID (tool # rest) g =
    (case merge_tool agentID tool g of Inl e \<Rightarrow> Inl e | Inr g' \<Rightarrow> merge_tools agentID rest g')"

text \<open>One agent's reply: filtered by its policy, decoded and merged.\<close>

definition merge_reply :: "(json \<Rightarrow> string) \<Rightarrow> agent \<Rightarrow> raw_json \<Rightarrow> grouping \<Rightarrow> string + grouping" where
  "merge_reply text a response g =
    (case filterToolsList response (newToolPolicy (a_allowedTools a) (a_deniedTools a)) of
       Inl e \<Rightarrow> Inl (''filter tools for '' @ a_id a @ '': '' @ e)
     | Inr filtered \<Rightarrow>
        (case decode_tools filtered of
           None \<Rightarrow> Inl ''json''
         | Some (err, tools) \<Rightarrow>
            if err \<noteq> None \<and> err \<noteq> Some JNull
            then Inl (''list tools for '' @ a_id a @ '': '' @ text (the err))
            else (case tools of
               None \<Rightarrow> Inl (''invalid tools/list response from '' @ a_id a)
             | Some ts \<Rightarrow> merge_tools (a_id a) ts g)))"

fun collect_tools ::
  "world \<Rightarrow> (string \<Rightarrow> callInput) \<Rightarrow> raw_json \<Rightarrow> agent list \<Rightarrow> grouping \<Rightarrow> server \<Rightarrow> (string + grouping) \<times> server" where
  "collect_tools w ask request [] g s = (Inr g, s)"
| "collect_tools w ask request (a # rest) g s =
    (case existingRuntime (a_id a) s of
       None \<Rightarrow> collect_tools w ask request rest g s
     | Some rt \<Rightarrow>
        if \<not> a_enabled a \<or> \<not> isOnline rt then collect_tools w ask request rest g s
        else (case callAgent (w_now w) (srv_timeout s) (ask (a_id a)) request rt of
           (Inl e, rt') \<Rightarrow> (Inl (''list tools for '' @ a_id a @ '': '' @ e), put_runtime (a_id a) rt' s)
         | (Inr resp, rt') \<Rightarrow>
             (case merge_reply (w_text w) a (resp_body resp) g of
                Inl e \<Rightarrow> (Inl e, put_runtime (a_id a) rt' s)
              | Inr g' \<Rightarrow> collect_tools w ask request rest g' (put_runtime (a_id a) rt' s))))"

text \<open>Every routed tool gets the \<open>agent_id\<close> argument, restricted to the computers that offer it.\<close>

definition route_tool :: "nat \<Rightarrow> (string \<rightharpoonup> string list) \<Rightarrow> object \<Rightarrow> string + object" where
  "route_tool count computers tool =
    (case member_object tool ''inputSchema'' of
       None \<Rightarrow> Inl ''missing tool input schema''
     | Some schema \<Rightarrow>
        (case member_object schema ''properties'' of
           None \<Rightarrow> Inl ''missing tool input properties''
         | Some properties \<Rightarrow>
            if map_of properties ''agent_id'' \<noteq> None then Inl ''agent_id is reserved for MCP routing''
            else
              let name = (case member_string tool ''name'' of None \<Rightarrow> [] | Some n \<Rightarrow> n);
                  ids = (case computers name of None \<Rightarrow> [] | Some cs \<Rightarrow> cs);
                  prop = JObj [(''type'', JStr ''string''), (''enum'', JArr (map JStr ids)),
                    (''description'', JStr ''Computer ID returned by list_agents. Use the same ID for all operations on its files, browser and command sessions.'')];
                  schema1 = AList.update ''properties'' (JObj (AList.update ''agent_id'' prop properties)) schema;
                  required = (case member_array schema ''required'' of None \<Rightarrow> [] | Some xs \<Rightarrow> xs);
                  schema2 = (if count \<noteq> 1
                    then AList.update ''required'' (JArr (required @ [JStr ''agent_id''])) schema1 else schema1)
              in Inr (AList.update ''inputSchema'' (JObj schema2) tool)))"

definition groupedTools ::
  "world \<Rightarrow> (string \<Rightarrow> callInput) \<Rightarrow> agent list \<Rightarrow> raw_json \<Rightarrow> server \<Rightarrow> (string + object list) \<times> server" where
  "groupedTools w ask ags request s =
    (case collect_tools w ask request ags \<lparr>gr_tools = [], gr_byName = Map.empty, gr_computers = Map.empty\<rparr> s of
       (Inl e, s') \<Rightarrow> (Inl e, s')
     | (Inr g, s') \<Rightarrow>
        (case first_error (route_tool (length ags) (gr_computers g)) (gr_tools g) of
           Inl e \<Rightarrow> (Inl e, s')
         | Inr tools \<Rightarrow> (Inr (listAgentsTool # tools), s')))"

section \<open>The entry point\<close>

definition mcpProtocolVersion :: string where "mcpProtocolVersion = ''2025-06-18''"

definition multiple_computers :: string where
  "multiple_computers = '' This connection provides multiple computers. Call list_agents to discover their IDs ''
     @ ''and online status. Supply agent_id in every execution tool call, including browser and command ''
     @ ''session operations. Never switch computers implicitly.''"

definition mcp_instructions :: "string \<Rightarrow> agent list \<Rightarrow> string" where
  "mcp_instructions path ags =
     ExecutionInstructions @ (if path = ''/mcp/v5'' then V5Instructions else [])
     @ (if length ags \<noteq> 1 then multiple_computers else [])"

definition initialize_result :: "string \<Rightarrow> agent list \<Rightarrow> json" where
  "initialize_result path ags = JObj
    [(''protocolVersion'', JStr mcpProtocolVersion),
     (''capabilities'', JObj [(''tools'', JObj [(''listChanged'', JBool False)])]),
     (''serverInfo'', JObj [(''name'', JStr ''local-workspace''), (''title'', JStr ''Local Workspace''),
        (''version'', JStr ''1.0.0'')]),
     (''instructions'', JStr (mcp_instructions path ags))]"

text \<open>A quoted word, as \<open>%q\<close> prints one of printable ASCII characters.\<close>

definition quote :: "string \<Rightarrow> string" where
  "quote t = [CHR 0x22] @ concat (map (\<lambda>c. if c = CHR 0x22 \<or> c = CHR 0x5C then [CHR 0x5C, c] else [c]) t) @ [CHR 0x22]"

text \<open>The header of an unauthorized reply; \<open>code\<close> is the status the handler goes on to write.\<close>

definition writeMCPUnauthorized :: "nat \<Rightarrow> httpRequest \<Rightarrow> server \<Rightarrow> reply" where
  "writeMCPUnauthorized code r s =
    (let mcpPath = (if hr_path r \<in> {''/mcp/v2'', ''/mcp/v3'', ''/mcp/v4'', ''/mcp/v5''} then hr_path r else ''/mcp'')
     in Challenge code (''Bearer resource_metadata='' @ quote (srv_publicURL s
          @ ''/.well-known/oauth-protected-resource'' @ mcpPath) @ '', scope='' @ quote ''mcp''))"

definition handleMCPStream :: "httpRequest \<Rightarrow> bool \<Rightarrow> server \<Rightarrow> reply" where
  "handleMCPStream r authorized s =
    (if \<not> authorized then writeMCPUnauthorized 401 r s
     else if \<not> sublist ''text/event-stream'' (hr_accept r) then HttpError 405 ''method not allowed''
     else EventStream '': local workspace stream ready'')"

definition contract_version :: "string \<Rightarrow> string" where
  "contract_version path =
    (if path = ''/mcp/v4'' \<or> path = ''/mcp/v5'' then TrimPrefix path ''/mcp/'' else ''v3'')"

text \<open>A tool call, from parsing to the reply of the agent.\<close>

definition forward_call ::
  "world \<Rightarrow> (string \<Rightarrow> callInput) \<Rightarrow> string \<Rightarrow> json option \<Rightarrow> agent \<Rightarrow> raw_json \<Rightarrow> server \<Rightarrow> reply \<times> server" where
  "forward_call w ask path i a body s =
    (case markContract body (contract_version path) of
       Panics \<Rightarrow> (Aborted, s)
     | Fails e \<Rightarrow> (writeRPCError i (-32602) e, s)
     | Returns agentRequest \<Rightarrow>
        (case existingRuntime (a_id a) s of
           None \<Rightarrow> (writeRPCError i (-32601) ''method not supported'', s)
         | Some rt \<Rightarrow>
            (case callAgent (w_now w) (srv_timeout s) (ask (a_id a)) agentRequest rt of
               (Inl e, rt') \<Rightarrow> (writeToolCallError i (''execution error: '' @ e), put_runtime (a_id a) rt' s)
             | (Inr resp, rt') \<Rightarrow>
                 (WriteRaw (ensureToolCallResult (w_text w) (resp_body resp) i), put_runtime (a_id a) rt' s))))"

definition handle_tool_call ::
  "world \<Rightarrow> (string \<Rightarrow> callInput) \<Rightarrow> string \<Rightarrow> json option \<Rightarrow> agent list \<Rightarrow> raw_json \<Rightarrow> server \<Rightarrow> reply \<times> server" where
  "handle_tool_call w ask path i ags body s =
    (case parseToolCall body of
       Inl e \<Rightarrow> (writeToolCallError i e, s)
     | Inr call \<Rightarrow>
        if tc_name call = ''list_agents''
        then (if tc_arguments call \<noteq> [] then (writeToolCallError i ''list_agents takes no arguments'', s)
              else (writeMCPAgents (w_text w) i ags s, s))
        else (case selectMCPAgent body call ags of
           Panics \<Rightarrow> (Aborted, s)
         | Fails e \<Rightarrow> (writeToolCallError i e, s)
         | Returns (a, body') \<Rightarrow>
            (case runtimeFor (a_id a) s of (rt, s1) \<Rightarrow>
               if \<not> allows (newToolPolicy (a_allowedTools a) (a_deniedTools a)) (tc_name call)
               then (writeToolCallError i (''tool not allowed: '' @ quote (tc_name call)), s1)
               else forward_call w ask path i a body' s1)))"

definition handle_tool_list ::
  "world \<Rightarrow> (string \<Rightarrow> callInput) \<Rightarrow> string \<Rightarrow> json option \<Rightarrow> agent list \<Rightarrow> raw_json \<Rightarrow> server \<Rightarrow> reply \<times> server" where
  "handle_tool_list w ask path i ags body s =
    (case markContract body (contract_version path) of
       Panics \<Rightarrow> (Aborted, s)
     | Fails e \<Rightarrow> (writeRPCError i (-32602) e, s)
     | Returns agentRequest \<Rightarrow>
        (case groupedTools w ask ags agentRequest s of
           (Inl e, s1) \<Rightarrow> (writeRPCError i (-32000) e, s1)
         | (Inr tools, s1) \<Rightarrow>
             (WriteJSON (rpc_result i (JObj [(''tools'', JArr (map JObj tools))])), s1)))"

definition dispatch_message ::
  "world \<Rightarrow> (string \<Rightarrow> callInput) \<Rightarrow> string \<Rightarrow> jsonrpcMessage \<Rightarrow> agent list \<Rightarrow> raw_json \<Rightarrow> server \<Rightarrow> reply \<times> server" where
  "dispatch_message w ask path msg ags body s =
    (if msg_Method msg = ''initialize'' then (WriteJSON (rpc_result (msg_ID msg) (initialize_result path ags)), s)
     else if msg_Method msg = ''ping'' then (WriteJSON (rpc_result (msg_ID msg) (JObj [])), s)
     else if msg_ID msg = None
     then (if msg_Method msg = ''tools/call'' \<or> msg_Method msg = ''tools/list''
           then (writeRPCError None (-32600) ''tool requests require an id'', s)
           else (WriteStatus 202, s))
     else if msg_Method msg = ''tools/call'' then handle_tool_call w ask path (msg_ID msg) ags body s
     else if msg_Method msg = ''tools/list'' then handle_tool_list w ask path (msg_ID msg) ags body s
     else (case markContract body (contract_version path) of
             Panics \<Rightarrow> (Aborted, s)
           | Fails e \<Rightarrow> (writeRPCError (msg_ID msg) (-32602) e, s)
           | Returns _ \<Rightarrow> (writeRPCError (msg_ID msg) (-32601) ''method not supported'', s)))"

definition handleMCP ::
  "world \<Rightarrow> (string \<Rightarrow> callInput) \<Rightarrow> httpRequest \<Rightarrow> server \<Rightarrow> reply \<times> server" where
  "handleMCP w ask r s =
    (let client = authenticateMCP (w_now w) r s;
         authorized = (case client of Inl _ \<Rightarrow> False | Inr _ \<Rightarrow> True)
     in if hr_method r = ''GET'' then (handleMCPStream r authorized s, s)
        else if hr_method r = ''DELETE''
        then (if \<not> authorized then (writeMCPUnauthorized 200 r s, s) else (WriteStatus 204, s))
        else if hr_method r \<noteq> ''POST'' then (HttpError 405 ''method not allowed'', s)
        else (case client of
           Inl _ \<Rightarrow>
             (case allowRequest (w_now w) (''mcp-auth:'' @ remoteHost r) 60 minute s of (ok, s1) \<Rightarrow>
                if \<not> ok then (HttpError 429 ''too many requests'', s1)
                else (writeMCPUnauthorized 401 r s1, s1))
         | Inr c \<Rightarrow>
             (case hr_body r of
                BodyTooLarge \<Rightarrow> (HttpError 413 ''request body too large'', s)
              | BodyUnreadable \<Rightarrow> (writeRPCError None (-32700) ''read request'', s)
              | Body body \<Rightarrow>
                 (case decode_message body of
                    None \<Rightarrow> (writeRPCError None (-32700) ''invalid json'', s)
                  | Some msg \<Rightarrow>
                     (case mcpAgents c (srv_db s) of
                        Inl e \<Rightarrow> (writeRPCError (msg_ID msg) (-32000) ''failed to load available agents'', s)
                      | Inr ags \<Rightarrow> dispatch_message w ask (hr_path r) msg ags body s)))))"

end
