(* ===== verification/AgentCall.thy ===== *)
theory AgentCall
  imports Mcp
begin

text \<open>
  \<open>cmd/agent/native_executor.go\<close>, the entry of the local agent: it decodes the message the gate forwards,
  reads the contract version the gate put there, and picks the tool that runs.
\<close>

section \<open>Decoding the forwarded message\<close>

record agentMessage =
  am_ID :: "json option"
  am_Method :: string
  am_Params :: "json option"

definition decode_agent_message :: "raw_json \<Rightarrow> agentMessage option" where
  "decode_agent_message request =
    (case struct_members request of
       None \<Rightarrow> None
     | Some m \<Rightarrow>
        (case string_field [] (field ''method'' m) of
           None \<Rightarrow> None
         | Some meth \<Rightarrow> Some \<lparr>am_ID = raw_field (field ''id'' m), am_Method = meth,
             am_Params = raw_field (field ''params'' m)\<rparr>))"

text \<open>The contract marker is looked up by its exact name; without one the contract is v3.\<close>

definition contractVersion :: "json option \<Rightarrow> string" where
  "contractVersion params =
    (case params of
       Some (JObj m) \<Rightarrow>
         (case map_of (rev m) ''_webcodex_contract'' of
            Some (JStr version) \<Rightarrow> if version = ''v4'' \<or> version = ''v5'' then version else ''v3''
          | _ \<Rightarrow> ''v3'')
     | _ \<Rightarrow> ''v3'')"

text \<open>The name and arguments of a tool call; None is \<open>invalid_arguments\<close>.\<close>

definition decode_call :: "json option \<Rightarrow> (string \<times> object) option" where
  "decode_call params =
    (case params of
       None \<Rightarrow> None
     | Some p \<Rightarrow>
        (case struct_members (Document p) of
           None \<Rightarrow> None
         | Some m \<Rightarrow>
            (case (string_field [] (field ''name'' m), map_field (field ''arguments'' m)) of
               (Some name, Some arguments) \<Rightarrow>
                 if name = [] then None
                 else Some (name, case arguments of None \<Rightarrow> [] | Some args \<Rightarrow> args)
             | _ \<Rightarrow> None)))"

section \<open>Picking the tool\<close>

datatype tool =
    ListAllowedRoots | ReadFile | WriteFile bool | ListDirectory | SearchFiles
  | ExecCommand bool | ExecCommandOnce | PollCommand bool | CancelCommand bool | ListCommands
  | EditFile | FindFiles | MovePath | DeletePath | BrowserTool string | BrowserDisabled | UnknownTool

definition executeTool_v4 :: "bool \<Rightarrow> string \<Rightarrow> tool" where
  "executeTool_v4 v4 name =
    (if name = ''list_allowed_roots'' then ListAllowedRoots
     else if name = ''read_file'' then ReadFile
     else if name = ''write_file'' then WriteFile v4
     else if name = ''list_directory'' then ListDirectory
     else if name = ''search_files'' then SearchFiles
     else if name = ''exec_command'' then ExecCommand v4
     else if name = ''poll_command'' then PollCommand v4
     else if name = ''cancel_command'' then CancelCommand v4
     else if name = ''edit_file'' \<and> v4 then EditFile
     else if name = ''find_files'' \<and> v4 then FindFiles
     else if name = ''move_path'' \<and> v4 then MovePath
     else if name = ''delete_path'' \<and> v4 then DeletePath
     else UnknownTool)"

definition executeTool :: "bool \<Rightarrow> string \<Rightarrow> string \<Rightarrow> tool" where
  "executeTool browser version name =
    (if version = ''v5''
     then (if HasPrefix name ''browser_'' then (if browser then BrowserTool name else BrowserDisabled)
           else if name = ''exec_command'' then ExecCommandOnce
           else if name = ''list_commands'' then ListCommands
           else executeTool_v4 True name)
     else executeTool_v4 (version = ''v4'') name)"

section \<open>Routing a message\<close>

definition isRemoteBrowserTool :: "string \<Rightarrow> bool" where
  "isRemoteBrowserTool name \<longleftrightarrow> name \<in> {''browser_task_start'', ''browser_task_status'', ''browser_task_events'',
     ''browser_task_result'', ''browser_task_pause'', ''browser_task_resume'', ''browser_task_cancel''}"

text \<open>
  What \<open>call\<close> does with a message: the answers it gives itself, and the tool it runs otherwise. \<open>backend\<close> is
  the configured browser backend, \<open>remote\<close> whether the remote browser is configured and \<open>browser\<close> whether
  the native one is.
\<close>

datatype agentAction =
    InvalidJSON
  | Initialize string
  | Pong
  | ToolsList string
  | InvalidToolCall
  | RemoteUnavailable
  | RemoteCall string object
  | LocalCall tool object
  | MethodNotFound

definition default_cookies :: "string \<Rightarrow> object \<Rightarrow> object" where
  "default_cookies name args =
    (if name = ''browser_task_start'' \<and> map_of args ''sync_cookies'' = None
     then AList.update ''sync_cookies'' (JBool False) args else args)"

definition native_call :: "string \<Rightarrow> bool \<Rightarrow> bool \<Rightarrow> raw_json \<Rightarrow> agentAction" where
  "native_call backend remote browser request =
    (case decode_agent_message request of
       None \<Rightarrow> InvalidJSON
     | Some message \<Rightarrow>
        let version = contractVersion (am_Params message)
        in if am_Method message = ''initialize'' then Initialize version
           else if am_Method message = ''ping'' \<or> am_Method message = ''notifications/initialized'' then Pong
           else if am_Method message = ''tools/list'' then ToolsList version
           else if am_Method message = ''tools/call''
           then (case decode_call (am_Params message) of
                   None \<Rightarrow> InvalidToolCall
                 | Some (name, args) \<Rightarrow>
                    if version = ''v5'' \<and> isRemoteBrowserTool name \<and> backend = ''mcp''
                    then (if remote then RemoteCall name (default_cookies name args) else RemoteUnavailable)
                    else LocalCall (executeTool browser version name) args)
           else MethodNotFound)"

end
