(* ===== verification/McpFacts.thy ===== *)
theory McpFacts
  imports AgentCall
begin

text \<open>
  What the MCP entry point guarantees: which agent a request can reach, what that agent receives, and how
  it compares with what the gate checked.
\<close>

section \<open>Fields of an unambiguous object\<close>

definition exact :: "string list \<Rightarrow> object \<Rightarrow> bool" where
  "exact names m \<longleftrightarrow> distinct (map fst m)
     \<and> list_all (\<lambda>(k, v). list_all (\<lambda>n. EqualFold k n \<longrightarrow> k = n) names) m"

lemma field_exact:
  assumes "exact names m" "n \<in> set names"
  shows "field n m = (case map_of m n of None \<Rightarrow> [] | Some v \<Rightarrow> [v])"
proof -
  have "filter (\<lambda>(k, v). EqualFold k n) m = filter (\<lambda>(k, v). k = n) m"
    using assms by (intro filter_cong) (auto simp: exact_def list_all_iff)
  moreover have "distinct (map fst m) \<Longrightarrow>
      map snd (filter (\<lambda>(k, v). k = n) m) = (case map_of m n of None \<Rightarrow> [] | Some v \<Rightarrow> [v])"
    by (induction m) (force simp: filter_empty_conv split: option.splits dest: map_of_SomeD)+
  ultimately show ?thesis using assms by (simp add: field_def exact_def)
qed

lemma keys_members: "fst ` set (members m) = fst ` set m"
proof -
  have "fst ` set (members m) = dom (map_of (members m))" by (simp add: dom_map_of_conv_image_fst)
  also have "\<dots> = dom (map_of (rev m))" by (auto simp: map_of_members)
  also have "\<dots> = fst ` set m" by (simp add: dom_map_of_conv_image_fst)
  finally show ?thesis .
qed

lemma exact_keys:
  "exact names m \<longleftrightarrow> distinct (map fst m) \<and> (\<forall>k \<in> fst ` set m. \<forall>n \<in> set names. EqualFold k n \<longrightarrow> k = n)"
  by (auto simp: exact_def list_all_iff)

lemma exact_members: "exact names m \<Longrightarrow> exact names (members m)"
  by (simp add: exact_keys keys_members)

lemma exact_update:
  "exact names m \<Longrightarrow> list_all (\<lambda>n. EqualFold k n \<longrightarrow> k = n) names \<Longrightarrow> exact names (AList.update k v m)"
  by (auto simp: exact_keys distinct_update dom_update list_all_iff)

lemma members_delete: "members m = m \<Longrightarrow> members (AList.delete k m) = AList.delete k m"
proof (rule members_sorted_id)
  assume "members m = m"
  then have m: "sorted (map fst m)" "distinct (map fst m)" using sorted_members [of m] distinct_members [of m] by simp_all
  show "sorted (map fst (AList.delete k m))"
    using m(1) unfolding AList.delete_eq by (induction m) auto
  show "distinct (map fst (AList.delete k m))" using m(2) by (rule distinct_delete)
  show "canon v = v" if "(j, v) \<in> set (AList.delete k m)" for j v
    using that members_value [of m j v] \<open>members m = m\<close> m(2) by (auto simp: AList.delete_eq)
qed

section \<open>The gate and the agent read the same call\<close>

lemma EqualFold_keys [simp]:
  "\<not> EqualFold ''_webcodex_contract'' ''name''" "\<not> EqualFold ''_webcodex_contract'' ''arguments''"
  "\<not> EqualFold ''arguments'' ''name''"
  "\<not> EqualFold ''params'' ''id''" "\<not> EqualFold ''params'' ''method''"
  by (simp_all add: EqualFold_lower lower_ascii_def)

definition opt_list :: "'a option \<Rightarrow> 'a list" where
  "opt_list x = (case x of None \<Rightarrow> [] | Some v \<Rightarrow> [v])"

lemma opt_list_simps [simp]: "opt_list None = []" "opt_list (Some v) = [v]"
  by (simp_all add: opt_list_def)

lemmas field_opt = field_exact [folded opt_list_def]

lemma string_field_canon: "string_field t (opt_list (map_option canon x)) = string_field t (opt_list x)"
  by (cases x; simp; rename_tac v; case_tac v; simp)

lemma map_field_canon: "map_field (opt_list (map_option canon x)) = map_field (opt_list x)"
  by (cases x; simp; rename_tac v; case_tac v; simp add: map_field_def)

lemma decode_call_fields:
  assumes "exact [''name'', ''arguments''] m"
  shows "decode_call (Some (JObj m)) =
    (case (string_field [] (opt_list (map_of m ''name'')), map_field (opt_list (map_of m ''arguments''))) of
       (Some name, Some arguments) \<Rightarrow>
         if name = [] then None else Some (name, case arguments of None \<Rightarrow> [] | Some args \<Rightarrow> args)
     | _ \<Rightarrow> None)"
  using assms by (simp add: decode_call_def field_opt)

lemma decode_call_members:
  assumes "exact [''name'', ''arguments''] m"
  shows "decode_call (Some (JObj (members m))) = decode_call (Some (JObj m))"
proof -
  have "distinct (map fst m)" using assms by (simp add: exact_def)
  then show ?thesis
    unfolding decode_call_fields [OF assms] decode_call_fields [OF exact_members [OF assms]]
    by (simp only: map_of_members_distinct string_field_canon map_field_canon)
qed

lemma decode_call_cong:
  assumes "exact [''name'', ''arguments''] m" "exact [''name'', ''arguments''] n"
    and "map_of m ''name'' = map_of n ''name''" "map_of m ''arguments'' = map_of n ''arguments''"
  shows "decode_call (Some (JObj m)) = decode_call (Some (JObj n))"
  by (simp add: decode_call_fields assms)

lemma contractVersion_marked:
  "contractVersion (Some (JObj (members (AList.update ''_webcodex_contract'' (JStr v) m)))) =
     (if v = ''v4'' \<or> v = ''v5'' then v else ''v3'')"
  if "distinct (map fst m)" for m
  using that by (simp add: contractVersion_def map_of_rev map_of_members_distinct distinct_update)

lemma decode_forwarded:
  assumes "exact [''id'', ''method'', ''params''] m" "map_of m ''method'' = Some (JStr meth)"
  shows "decode_agent_message (marshal (AList.update ''params'' (JObj q) m)) =
    Some \<lparr>am_ID = map_option canon (map_of m ''id''), am_Method = meth, am_Params = Some (JObj (members q))\<rparr>"
proof -
  let ?m = "members (AList.update ''params'' (JObj q) m)"
  have ex: "exact [''id'', ''method'', ''params''] ?m"
    using assms(1) by (intro exact_members exact_update) simp_all
  have d: "distinct (map fst (AList.update ''params'' (JObj q) m))"
    using assms(1) by (simp add: exact_def distinct_update)
  have "field ''id'' ?m = opt_list (map_option canon (map_of m ''id''))"
    "field ''method'' ?m = [JStr meth]" "field ''params'' ?m = [JObj (members q)]"
    using assms(2) by (simp_all add: field_opt [OF ex] map_of_members_distinct [OF d])
  then show ?thesis
    by (cases "map_of m ''id''") (simp_all add: decode_agent_message_def marshal_def raw_field_def)
qed

lemma contract_version_range: "contract_version path \<in> {''v3'', ''v4'', ''v5''}"
  by (auto simp: contract_version_def TrimPrefix_def HasPrefix_def)

lemma parseToolCall_decode:
  assumes "exact [''id'', ''method'', ''params''] m" "map_of m ''params'' = Some (JObj p)"
    and "parseToolCall (Document (JObj m)) = Inr call"
  shows "decode_call (Some (JObj p)) = Some (tc_name call, tc_arguments call)"
  using assms by (auto simp: parseToolCall_def decode_call_def field_opt split: option.splits if_splits)

lemma decode_call_canon: "decode_call (Some p) = Some (name, args) \<Longrightarrow> members args = args"
proof -
  have "map_field vs = Some (Some a) \<Longrightarrow> members a = a" for vs a
    by (auto simp: map_field_def)
  then show "decode_call (Some p) = Some (name, args) \<Longrightarrow> members args = args"
    by (auto simp: decode_call_def members_def split: option.splits if_splits)
qed

text \<open>What is left of the request after the routing argument is stripped and the contract marked.\<close>

lemma forwarded_body:
  assumes m: "exact [''id'', ''method'', ''params''] m" "map_of m ''params'' = Some (JObj p)"
    and sel: "selectMCPAgent (Document (JObj m)) call ags = Returns (a, body')"
    and mark: "markContract body' v = Returns req"
  shows "\<exists>m1 q. exact [''id'', ''method'', ''params''] m1
    \<and> (\<forall>k. k \<noteq> ''params'' \<longrightarrow> map_of m1 k = map_option canon (map_of m k))
    \<and> (q = members p \<and> map_of (tc_arguments call) ''agent_id'' = None
       \<or> q = members (AList.update ''arguments'' (JObj (AList.delete ''agent_id'' (tc_arguments call))) (members p)))
    \<and> req = marshal (AList.update ''params'' (JObj (AList.update ''_webcodex_contract'' (JStr v) q)) m1)"
proof -
  have d: "distinct (map fst m)" using m(1) by (simp add: exact_def)
  have par: "member_object (members m) ''params'' = Some (members p)"
    by (simp add: member_object_def map_of_members_distinct [OF d] m(2))
  let ?args = "AList.update ''arguments'' (JObj (AList.delete ''agent_id'' (tc_arguments call))) (members p)"
  let ?upd = "AList.update ''params'' (JObj ?args) (members m)"
  from sel consider (same) "body' = Document (JObj m)" "map_of (tc_arguments call) ''agent_id'' = None"
    | (stripped) "body' = marshal ?upd"
    using par by (auto simp: selectMCPAgent_def split: option.splits if_splits sum.splits)
  then show ?thesis
  proof cases
    case same
    then have "req = marshal (AList.update ''params''
        (JObj (AList.update ''_webcodex_contract'' (JStr v) (members p))) (members m))"
      using mark par by (simp add: markContract_def split: if_splits)
    then show ?thesis
      using same m exact_members [OF m(1)] map_of_members_distinct [OF d] by blast
  next
    case stripped
    have ex: "exact [''id'', ''method'', ''params''] ?upd"
      using m(1) by (intro exact_members exact_update) simp_all
    then have d': "distinct (map fst ?upd)" by (simp add: exact_def)
    have "member_object (members ?upd) ''params'' = Some (members ?args)"
      by (simp add: member_object_def map_of_members_distinct [OF d'])
    then have "req = marshal (AList.update ''params''
        (JObj (AList.update ''_webcodex_contract'' (JStr v) (members ?args))) (members ?upd))"
      using mark stripped by (simp add: markContract_def marshal_def split: if_splits)
    moreover have "k \<noteq> ''params'' \<Longrightarrow> map_of (members ?upd) k = map_option canon (map_of m k)" for k
      by (simp add: map_of_members_distinct [OF d'] map_of_members_distinct [OF d] option.map_comp comp_def)
    ultimately show ?thesis using exact_members [OF ex] by blast
  qed
qed

lemma decode_stripped:
  assumes p: "exact [''name'', ''arguments''] p" and call: "decode_call (Some (JObj p)) = Some (name, args)"
    and q: "q = members p \<and> map_of args ''agent_id'' = None
       \<or> q = members (AList.update ''arguments'' (JObj (AList.delete ''agent_id'' args)) (members p))"
  shows "decode_call (Some (JObj q)) = Some (name, AList.delete ''agent_id'' args)"
  using q
proof
  assume "q = members p \<and> map_of args ''agent_id'' = None"
  then show ?thesis using decode_call_members [OF p] call by (simp add: map_of_eq_None_iff)
next
  let ?d = "AList.delete ''agent_id'' args"
  let ?q = "AList.update ''arguments'' (JObj ?d) (members p)"
  assume q: "q = members ?q"
  have ex: "exact [''name'', ''arguments''] ?q"
    by (rule exact_update [OF exact_members [OF p]]) simp
  have "decode_call (Some (JObj (members p))) = Some (name, args)"
    using decode_call_members [OF p] call by simp
  then have name: "string_field [] (opt_list (map_of (members p) ''name'')) = Some name" "name \<noteq> []"
    by (auto simp: decode_call_fields [OF exact_members [OF p]] split: option.splits if_splits)
  have "members ?d = ?d" using decode_call_canon [OF call] by (rule members_delete)
  then show ?thesis
    using name by (simp add: q decode_call_members [OF ex] decode_call_fields [OF ex] map_field_def)
qed

text \<open>C33: for a request whose keys are unambiguous, the agent runs what the gate checked: the message it
  decodes carries the same id and the contract of the endpoint, and its tool call has the name the
  policy was asked about and the caller's arguments without the routing one.\<close>

theorem gate_agent_agree:
  assumes m: "exact [''id'', ''method'', ''params''] m" "map_of m ''params'' = Some (JObj p)"
      "exact [''name'', ''arguments''] p" "map_of m ''method'' = Some (JStr meth)"
    and parse: "parseToolCall (Document (JObj m)) = Inr call"
    and sel: "selectMCPAgent (Document (JObj m)) call ags = Returns (a, body')"
    and mark: "markContract body' (contract_version path) = Returns req"
  shows "\<exists>msg. decode_agent_message req = Some msg \<and> am_Method msg = meth
    \<and> am_ID msg = map_option canon (map_of m ''id'')
    \<and> contractVersion (am_Params msg) = contract_version path
    \<and> decode_call (am_Params msg) = Some (tc_name call, AList.delete ''agent_id'' (tc_arguments call))"
proof -
  have call: "decode_call (Some (JObj p)) = Some (tc_name call, tc_arguments call)"
    using parseToolCall_decode [OF m(1,2) parse] .
  have canon_args: "members (tc_arguments call) = tc_arguments call"
    using call by (rule decode_call_canon)
  obtain m1 q where m1: "exact [''id'', ''method'', ''params''] m1"
      "\<And>k. k \<noteq> ''params'' \<Longrightarrow> map_of m1 k = map_option canon (map_of m k)"
    and q: "q = members p \<and> map_of (tc_arguments call) ''agent_id'' = None
       \<or> q = members (AList.update ''arguments'' (JObj (AList.delete ''agent_id'' (tc_arguments call))) (members p))"
    and req: "req = marshal (AList.update ''params''
        (JObj (AList.update ''_webcodex_contract'' (JStr (contract_version path)) q)) m1)"
    using forwarded_body [OF m(1,2) sel mark] by blast
  let ?q = "AList.update ''_webcodex_contract'' (JStr (contract_version path)) q"
  have dec: "decode_agent_message req = Some \<lparr>am_ID = map_option canon (map_of m ''id''), am_Method = meth,
      am_Params = Some (JObj (members ?q))\<rparr>"
    using decode_forwarded [OF m1(1), of meth ?q] m1(2) m(4)
    by (simp add: req option.map_comp comp_def)
  have "distinct (map fst q)" using q distinct_members by metis
  then have ver: "contractVersion (Some (JObj (members ?q))) = contract_version path"
    using contractVersion_marked contract_version_range [of path] by fastforce
  have exq: "exact [''name'', ''arguments''] q"
    using q m(3) by (auto intro!: exact_members exact_update)
  have "decode_call (Some (JObj (members ?q))) = decode_call (Some (JObj ?q))"
    by (rule decode_call_members, rule exact_update [OF exq]) simp
  also have "\<dots> = decode_call (Some (JObj q))"
    by (rule decode_call_cong [OF exact_update exq]) (simp_all add: exq)
  also have "\<dots> = Some (tc_name call, AList.delete ''agent_id'' (tc_arguments call))"
    using decode_stripped [OF m(3) call] q by blast
  finally show ?thesis using dec ver by simp
qed

section \<open>Ambiguous requests\<close>

text \<open>
  A request with two members that differ in case only. The gate's struct decoder takes the last of them
  in the order of the text; forwarding sorts the keys, so the agent's takes the lower-case one.
\<close>

definition ambiguous_request :: object where
  "ambiguous_request =
    [(''id'', JNum 1), (''method'', JStr ''tools/call''),
     (''params'', JObj [(''name'', JStr ''exec_command'')]),
     (''Params'', JObj [(''name'', JStr ''read_file'')])]"

lemma ambiguous_parse: "parseToolCall (Document (JObj ambiguous_request)) = Inr \<lparr>tc_name = ''read_file'', tc_arguments = []\<rparr>"
  by code_simp

lemma ambiguous_forwarded:
  "(case markContract (Document (JObj ambiguous_request)) ''v3'' of
      Returns req \<Rightarrow> map_option (decode_call \<circ> am_Params) (decode_agent_message req)
    | _ \<Rightarrow> None) = Some (Some (''exec_command'', []))"
  by code_simp

text \<open>C36: the tool policy can be bypassed: on a request with members that differ in case only, the name the
  policy allows is not the name the agent runs, which the policy denies.\<close>

theorem ambiguous_bypass:
  "\<exists>call req msg. parseToolCall (Document (JObj ambiguous_request)) = Inr call
     \<and> selectMCPAgent (Document (JObj ambiguous_request)) call [example_agent]
         = Returns (example_agent, Document (JObj ambiguous_request))
     \<and> allows (newToolPolicy (a_allowedTools example_agent) (a_deniedTools example_agent)) (tc_name call)
     \<and> markContract (Document (JObj ambiguous_request)) ''v3'' = Returns req
     \<and> decode_agent_message req = Some msg
     \<and> decode_call (am_Params msg) = Some (''exec_command'', [])
     \<and> \<not> allows (newToolPolicy (a_allowedTools example_agent) (a_deniedTools example_agent)) ''exec_command''"
proof -
  have "TrimSpace ''exec_command'' = ''exec_command''" by code_simp
  then have pol: "allows (newToolPolicy [] ''exec_command'') ''read_file''"
    "\<not> allows (newToolPolicy [] ''exec_command'') ''exec_command''"
    by (simp_all add: allows_iff newToolPolicy_def parseToolSet_def)
  have "\<exists>req msg. markContract (Document (JObj ambiguous_request)) ''v3'' = Returns req
      \<and> decode_agent_message req = Some msg \<and> decode_call (am_Params msg) = Some (''exec_command'', [])"
    using ambiguous_forwarded by (auto split: outcome.splits)
  then show ?thesis
    using ambiguous_parse pol by (auto simp: selectMCPAgent_def example_agent_def)
qed

text \<open>A request whose \<open>params\<close> member is spelled differently gets past parsing and then makes the handler
  panic, so that the connection is dropped without an answer.\<close>

theorem misspelled_params_panics:
  "\<exists>call. parseToolCall (Document (JObj [(''Params'', JObj [(''name'', JStr ''read_file''),
         (''arguments'', JObj [(''agent_id'', JStr ''pc'')])])])) = Inr call
     \<and> selectMCPAgent (Document (JObj [(''Params'', JObj [(''name'', JStr ''read_file''),
         (''arguments'', JObj [(''agent_id'', JStr ''pc'')])])])) call [example_agent] = Panics"
proof -
  let ?m = "[(''Params'', JObj [(''name'', JStr ''read_file''), (''arguments'', JObj [(''agent_id'', JStr ''pc'')])])]"
  have "parseToolCall (Document (JObj ?m)) = Inr \<lparr>tc_name = ''read_file'', tc_arguments = [(''agent_id'', JStr ''pc'')]\<rparr>"
    by code_simp
  moreover have "member_object (members ?m) ''params'' = None"
    by (simp add: member_object_def map_of_members)
  ultimately show ?thesis by (simp add: selectMCPAgent_def example_agent_def)
qed

section \<open>Who is reached\<close>

definition queue_of :: "string \<Rightarrow> server \<Rightarrow> request list" where
  "queue_of i s = (case srv_runtimes s i of None \<Rightarrow> [] | Some rt \<Rightarrow> rt_queue rt)"

lemma callAgent_queue:
  assumes "callAgent now timeout c request rt = (out, rt')"
  shows "rt_queue rt' = rt_queue rt \<or> (\<exists>r. rt_queue rt' = rt_queue rt @ [r] \<and> req_body r = request)"
  using assms
  by (auto simp: callAgent_def callAgent_begin_def callAgent_end_def enqueue_def forget_def Let_def
      split: option.splits sum.splits prod.splits if_splits waited.splits)

lemma queue_of_put: "queue_of i (put_runtime j rt s) = (if i = j then rt_queue rt else queue_of i s)"
  by (simp add: queue_of_def put_runtime_def)

lemma put_runtime_frame [simp]:
  "srv_db (put_runtime j rt s) = srv_db s" "srv_oauthCodes (put_runtime j rt s) = srv_oauthCodes s"
  "srv_rateLimits (put_runtime j rt s) = srv_rateLimits s"
  by (simp_all add: put_runtime_def)

lemma runtimeFor_queue: "runtimeFor j s = (rt, s') \<Longrightarrow> queue_of i s' = queue_of i s"
  by (auto simp: runtimeFor_def queue_of_def newAgentRuntime_def split: option.splits if_splits)

lemma forward_call_reaches:
  assumes "forward_call w ask path k a body s = (rep, s')"
  shows "srv_db s' = srv_db s \<and> (queue_of i s' \<noteq> queue_of i s \<longrightarrow> i = a_id a)"
  using assms
  by (auto simp: forward_call_def queue_of_put
      split: outcome.splits option.splits prod.splits sum.splits if_splits)

lemma selectMCPAgent_agent: "selectMCPAgent body call ags = Returns (a, body') \<Longrightarrow> a \<in> set ags \<and> a_enabled a"
  by (auto simp: selectMCPAgent_def split: option.splits sum.splits if_splits dest!: find_SomeD)

lemma handle_tool_call_reaches:
  assumes "handle_tool_call w ask path k ags body s = (rep, s')"
  shows "srv_db s' = srv_db s \<and> (queue_of i s' \<noteq> queue_of i s \<longrightarrow>
    (\<exists>a call. a \<in> set ags \<and> a_enabled a \<and> a_id a = i \<and> parseToolCall body = Inr call
       \<and> allows (newToolPolicy (a_allowedTools a) (a_deniedTools a)) (tc_name call)))"
  using assms
  by (auto simp: handle_tool_call_def runtimeFor_queue runtimeFor_frame
      split: outcome.splits prod.splits sum.splits if_splits
      dest!: selectMCPAgent_agent forward_call_reaches [where i = i])

lemma collect_tools_reaches:
  "collect_tools w ask request ags g s = (out, s') \<Longrightarrow>
     srv_db s' = srv_db s \<and> (queue_of i s' \<noteq> queue_of i s \<longrightarrow> (\<exists>a \<in> set ags. a_enabled a \<and> a_id a = i))"
proof (induction ags arbitrary: g s)
  case (Cons a rest)
  then show ?case
    by (fastforce simp: queue_of_put split: option.splits if_splits prod.splits sum.splits)
qed simp

lemma handle_tool_list_reaches:
  assumes "handle_tool_list w ask path k ags body s = (rep, s')"
  shows "srv_db s' = srv_db s \<and> (queue_of i s' \<noteq> queue_of i s \<longrightarrow> (\<exists>a \<in> set ags. a_enabled a \<and> a_id a = i))"
  using assms
  by (auto simp: handle_tool_list_def groupedTools_def
      split: outcome.splits prod.splits sum.splits dest!: collect_tools_reaches [where i = i])

lemma dispatch_message_reaches:
  assumes "dispatch_message w ask path msg ags body s = (rep, s')"
  shows "srv_db s' = srv_db s \<and> (queue_of i s' \<noteq> queue_of i s \<longrightarrow>
    (\<exists>a \<in> set ags. a_enabled a \<and> a_id a = i
       \<and> (msg_Method msg = ''tools/list''
          \<or> msg_Method msg = ''tools/call'' \<and> (\<exists>call. parseToolCall body = Inr call
               \<and> allows (newToolPolicy (a_allowedTools a) (a_deniedTools a)) (tc_name call)))))"
  using assms handle_tool_call_reaches [of w ask path "msg_ID msg" ags body s rep s' i]
    handle_tool_list_reaches [of w ask path "msg_ID msg" ags body s rep s' i]
  by (auto simp: dispatch_message_def split: if_splits outcome.splits)

lemma first_error_Inr: "first_error f xs = Inr ys \<Longrightarrow> y \<in> set ys \<Longrightarrow> \<exists>x \<in> set xs. f x = Inr y"
  by (induction xs arbitrary: ys) (auto split: sum.splits)

lemma mcpAgents_Inr:
  assumes "mcpAgents c d = Inr ags" "a \<in> set ags"
  shows "a \<in> set (agents d) \<and> (c_id c, a_id a) \<in> set (grants d)"
proof -
  obtain ids where ids: "ListMCPAgentIDs (c_id c) d = Inr ids" "first_error (\<lambda>i. GetAgent i d) ids = Inr ags"
    using assms(1) by (auto simp: mcpAgents_def split: sum.splits)
  then obtain i where "i \<in> set ids" "GetAgent i d = Inr a" using first_error_Inr assms(2) by metis
  then show ?thesis using GetAgent_Inr ListMCPAgentIDs_Inr [OF ids(1)] by fastforce
qed

text \<open>C1: an MCP request reaches the link of an agent only if its bearer token authenticates a client with a
  grant for that agent, the agent is enabled, and the message lists tools or calls one the agent's
  policy allows; in every other case, whatever the body says, no link receives anything.\<close>

theorem mcp_reaches_only_granted:
  assumes "handleMCP w ask r s = (rep, s')" "queue_of i s' \<noteq> queue_of i s"
  shows "\<exists>c a body msg. authenticateMCP (w_now w) r s = Inr c \<and> (c_id c, i) \<in> set (grants (srv_db s))
    \<and> a \<in> set (agents (srv_db s)) \<and> a_id a = i \<and> a_enabled a
    \<and> hr_method r = ''POST'' \<and> hr_body r = Body body \<and> decode_message body = Some msg
    \<and> (msg_Method msg = ''tools/list''
       \<or> msg_Method msg = ''tools/call'' \<and> (\<exists>call. parseToolCall body = Inr call
            \<and> allows (newToolPolicy (a_allowedTools a) (a_deniedTools a)) (tc_name call)))"
proof -
  have rate: "queue_of i s1 = queue_of i s" if "allowRequest now k l v s = (ok, s1)" for now k l v ok s1
    using allowRequest_frame [OF that] by (auto simp: queue_of_def)
  obtain c body msg ags where c: "authenticateMCP (w_now w) r s = Inr c" "hr_method r = ''POST''"
      "hr_body r = Body body" "decode_message body = Some msg" "mcpAgents c (srv_db s) = Inr ags"
    and run: "dispatch_message w ask (hr_path r) msg ags body s = (rep, s')"
    using assms rate
    by (auto simp: handleMCP_def Let_def split: if_splits sum.splits prod.splits body.splits option.splits)
  then obtain a where "a \<in> set ags" "a_enabled a" "a_id a = i"
    "msg_Method msg = ''tools/list''
       \<or> msg_Method msg = ''tools/call'' \<and> (\<exists>call. parseToolCall body = Inr call
            \<and> allows (newToolPolicy (a_allowedTools a) (a_deniedTools a)) (tc_name call))"
    using dispatch_message_reaches [OF run, of i] assms(2) by blast
  then show ?thesis using c mcpAgents_Inr [OF c(5)] by blast
qed

section \<open>Instances\<close>

definition example_call :: object where
  "example_call =
    [(''id'', JNum 7), (''method'', JStr ''tools/call''),
     (''params'', JObj [(''name'', JStr ''read_file''),
        (''arguments'', JObj [(''agent_id'', JStr ''pc''), (''path'', JStr ''a.txt'')])])]"

lemma example_call_parse: "parseToolCall (Document (JObj example_call))
    = Inr \<lparr>tc_name = ''read_file'', tc_arguments = [(''agent_id'', JStr ''pc''), (''path'', JStr ''a.txt'')]\<rparr>"
  by code_simp

lemma example_call_members:
  "members example_call = [(''id'', JNum 7), (''method'', JStr ''tools/call''),
     (''params'', JObj [(''arguments'', JObj [(''agent_id'', JStr ''pc''), (''path'', JStr ''a.txt'')]),
        (''name'', JStr ''read_file'')])]"
  by code_simp

definition example_stripped :: raw_json where
  "example_stripped = marshal (AList.update ''params''
     (JObj [(''arguments'', JObj [(''path'', JStr ''a.txt'')]), (''name'', JStr ''read_file'')]) (members example_call))"

lemma example_call_select:
  "selectMCPAgent (Document (JObj example_call))
     \<lparr>tc_name = ''read_file'', tc_arguments = [(''agent_id'', JStr ''pc''), (''path'', JStr ''a.txt'')]\<rparr> [example_agent]
   = Returns (example_agent, example_stripped)"
  by (simp add: selectMCPAgent_def example_agent_def example_call_members member_object_def example_stripped_def)

lemma example_call_mark: "\<exists>req. markContract example_stripped v = Returns req"
  by (simp add: markContract_def example_stripped_def marshal_def)

theorem gate_agent_agree_witness:
  "\<exists>req msg. markContract example_stripped ''v3'' = Returns req \<and> decode_agent_message req = Some msg
     \<and> decode_call (am_Params msg) = Some (''read_file'', [(''path'', JStr ''a.txt'')])"
proof -
  obtain req where mark: "markContract example_stripped (contract_version ''/mcp'') = Returns req"
    using example_call_mark by blast
  have "exact [''id'', ''method'', ''params''] example_call"
    by (simp add: exact_def example_call_def EqualFold_lower lower_ascii_def)
  moreover have "exact [''name'', ''arguments''] [(''name'', JStr ''read_file''),
        (''arguments'', JObj [(''agent_id'', JStr ''pc''), (''path'', JStr ''a.txt'')])]"
    by (simp add: exact_def EqualFold_lower lower_ascii_def)
  ultimately show ?thesis
    using gate_agent_agree [OF _ _ _ _ example_call_parse example_call_select mark] mark
    by (auto simp: example_call_def contract_version_def)
qed

definition online_link :: agentRuntime where
  "online_link = (newAgentRuntime ''pc'')\<lparr>rt_stream := Some 0, rt_nextStream := 1\<rparr>"

definition example_ask :: "string \<Rightarrow> callInput" where
  "example_ask i = \<lparr>ci_fresh = Some ''r1'', ci_deadline = None, ci_ctxDone = False, ci_pick = False, ci_waited = TimerFired\<rparr>"

definition online_server :: server where
  "online_server = (example_server example_db)\<lparr>srv_runtimes := [''pc'' \<mapsto> online_link]\<rparr>"

lemma example_client_ok:
  "authenticateMCP 9 (example_request m ''tok'' b) online_server = Inr example_client"
  by (rule authenticateMCP_holds [THEN iffD2])
    (simp_all add: bearerToken_example online_server_def example_server_def,
     simp_all add: example_db_def example_client_def example_token_def)

lemma example_call_queued:
  "queue_of ''pc'' (snd (handleMCP (example_world 9) example_ask
     (example_request ''POST'' ''tok'' (Body (Document (JObj example_call)))) online_server)) \<noteq> []"
proof -
  let ?r = "example_request ''POST'' ''tok'' (Body (Document (JObj example_call)))"
  have r: "hr_method ?r = ''POST''" "hr_body ?r = Body (Document (JObj example_call))" "hr_path ?r = ''/mcp''"
    by (simp_all add: example_request_def)
  have w: "w_now (example_world 9) = 9" by (simp add: example_world_def)
  have msg: "decode_message (Document (JObj example_call)) = Some \<lparr>msg_ID = Some (JNum 7), msg_Method = ''tools/call''\<rparr>"
    by code_simp
  have ags: "mcpAgents example_client (srv_db online_server) = Inr [example_agent]"
    by (simp add: mcpAgents_def ListMCPAgentIDs_def GetAgent_def online_server_def example_defs)
  obtain req where mark: "markContract example_stripped (contract_version ''/mcp'') = Returns req"
    using example_call_mark by blast
  have "TrimSpace ''exec_command'' = ''exec_command''" by code_simp
  then have pol: "allows (newToolPolicy (a_allowedTools example_agent) (a_deniedTools example_agent)) ''read_file''"
    by (simp add: allows_iff newToolPolicy_def parseToolSet_def example_agent_def)
  have "runtimeFor ''pc'' online_server = (online_link, online_server)"
    by (simp add: runtimeFor_def online_server_def)
  then have "runtimeFor (a_id example_agent) online_server = (online_link, online_server)"
    by (simp add: example_agent_def)
  then have "handleMCP (example_world 9) example_ask ?r online_server
      = forward_call (example_world 9) example_ask ''/mcp'' (Some (JNum 7)) example_agent example_stripped online_server"
    by (simp add: handleMCP_def r w example_client_ok msg ags dispatch_message_def handle_tool_call_def
        example_call_parse example_call_select pol)
  also have "queue_of ''pc'' (snd \<dots>) \<noteq> []"
    using mark
    by (simp add: forward_call_def existingRuntime_def online_server_def example_server_def example_agent_def
        callAgent_def callAgent_begin_def callAgent_end_def example_ask_def enqueue_def past_deadline_def
        isOnline_def online_link_def newAgentRuntime_def queue_capacity_def example_world_def call_deadline_def
        go_simps forget_def queue_of_put Let_def)
  finally show ?thesis .
qed

theorem mcp_reaches_only_granted_witness:
  "\<exists>c (a :: agent). authenticateMCP 9 (example_request ''POST'' ''tok'' (Body (Document (JObj example_call)))) online_server = Inr c
     \<and> (c_id c, ''pc'') \<in> set (grants (srv_db online_server)) \<and> a_id a = ''pc'' \<and> a_enabled a"
proof -
  let ?run = "handleMCP (example_world 9) example_ask
     (example_request ''POST'' ''tok'' (Body (Document (JObj example_call)))) online_server"
  have "queue_of ''pc'' online_server = []"
    by (simp add: queue_of_def online_server_def online_link_def newAgentRuntime_def)
  then have "queue_of ''pc'' (snd ?run) \<noteq> queue_of ''pc'' online_server"
    using example_call_queued by simp
  from mcp_reaches_only_granted [OF prod.collapse [symmetric] this] show ?thesis
    by (auto simp: example_world_def)
qed

end
