(* ===== verification/McpListFacts.thy ===== *)
theory McpListFacts
  imports McpFacts
begin

text \<open>
  The merged tool list of a connection: one entry per tool name, each routed to exactly computers that are
  granted, enabled, online and allowed by their policy to run it.
\<close>

section \<open>What one agent contributes\<close>

text \<open>A reply whose \<open>result\<close>, \<open>error\<close> and \<open>tools\<close> members are unambiguous.\<close>

definition plain_reply :: "raw_json \<Rightarrow> bool" where
  "plain_reply r \<longleftrightarrow> (case r of
     Document (JObj m) \<Rightarrow> exact [''result'', ''error''] m
       \<and> (case map_of m ''result'' of Some (JObj res) \<Rightarrow> exact [''tools''] res | _ \<Rightarrow> True)
   | _ \<Rightarrow> True)"

lemma tool_elements_kept:
  assumes "tool_elements xs = Some ts" "\<And>x. x \<in> set xs \<Longrightarrow> canon x = x \<and> keep_tool p x"
    and "t \<in> set ts" "member_string t ''name'' = Some n"
  shows "allows p n"
  using assms
proof (induction xs arbitrary: ts rule: tool_elements.induct)
  case (2 xs)
  then show ?case by (auto simp: member_string_def)
next
  case (3 m xs)
  obtain ts' where ts': "ts = members m # ts'" "tool_elements xs = Some ts'" using 3(2) by auto
  have "members m = m" "keep_tool p (JObj m)" using 3(3) [of "JObj m"] by simp_all
  then have "allows p n" if "t = members m" using that 3(5) by (simp add: keep_tool_def)
  then show ?case using 3(1) [OF ts'(2)] 3(3-5) ts'(1) by auto
qed simp_all

lemma decode_tools_object:
  assumes "exact [''result'', ''error''] m" "map_of m ''result'' = Some (JObj res)" "exact [''tools''] res"
  shows "decode_tools (Document (JObj m)) =
    map_option (Pair (map_of m ''error'')) (list_field None (opt_list (map_of res ''tools'')))"
  using assms by (cases "map_of m ''error''") (simp_all add: decode_tools_def field_opt raw_field_def)

lemma decode_tools_no_object:
  assumes "exact [''result'', ''error''] m" "\<forall>res. map_of m ''result'' \<noteq> Some (JObj res)"
  shows "decode_tools (Document (JObj m)) \<noteq> Some (e, Some ts)"
proof (cases "map_of m ''result''")
  case (Some v)
  then show ?thesis using assms by (cases v) (simp_all add: decode_tools_def field_opt)
qed (use assms in \<open>simp add: decode_tools_def field_opt\<close>)

lemma member_object_members:
  "distinct (map fst m) \<Longrightarrow> member_object (members m) k = map_option members (member_object m k)"
  by (cases "map_of m k"; simp add: member_object_def map_of_members_distinct; rename_tac v; case_tac v; simp)

lemma member_array_members:
  "distinct (map fst m) \<Longrightarrow> member_array (members m) k = map_option (map canon) (member_array m k)"
  by (cases "map_of m k"; simp add: member_array_def map_of_members_distinct; rename_tac v; case_tac v; simp)

lemma no_member_object: "\<forall>res. map_of m k \<noteq> Some (JObj res) \<Longrightarrow> member_object m k = None"
  by (cases "map_of m k"; simp add: member_object_def; rename_tac v; case_tac v; simp)

lemma member_arrayD: "member_array m k = Some xs \<Longrightarrow> map_of m k = Some (JArr xs)"
  by (auto simp: member_array_def bind_eq_Some_conv elim: as_array.elims)

lemma decode_filtered_object:
  assumes m: "exact [''result'', ''error''] m" "map_of m ''result'' = Some (JObj res)" "exact [''tools''] res"
    and "filterToolsList (Document (JObj m)) p = Inr r'" "decode_tools r' = Some (e, Some ts)"
    and "t \<in> set ts" "member_string t ''name'' = Some n"
  shows "allows p n"
proof -
  have d: "distinct (map fst m)" "distinct (map fst res)" using m by (simp_all add: exact_def)
  have result: "member_object (members m) ''result'' = Some (members res)"
    using m(2) d by (simp add: member_object_members) (simp add: member_object_def)
  show ?thesis
  proof (cases "member_array res ''tools''")
    case None
    then have "r' = Document (JObj m)"
      using assms(4) result d by (simp add: filterToolsList_def member_array_members)
    then obtain "list_field None (opt_list (map_of res ''tools'')) = Some (Some ts)"
      using assms(5) decode_tools_object [OF m] by auto
    then show ?thesis
      using None by (cases "map_of res ''tools''"; simp; rename_tac v; case_tac v; simp add: member_array_def)
  next
    case (Some xs)
    let ?kept = "filter (keep_tool p) (map canon xs)"
    let ?res = "AList.update ''tools'' (JArr ?kept) (members res)"
    let ?m = "AList.update ''result'' (JObj ?res) (members m)"
    have r': "r' = marshal ?m"
      using assms(4) result d Some by (simp add: filterToolsList_def member_array_members)
    have kept: "map canon ?kept = ?kept" by (induction xs) simp_all
    have ex: "exact [''result'', ''error''] ?m" "exact [''tools''] ?res"
      using m by (auto intro!: exact_update exact_members simp: EqualFold_lower lower_ascii_def)
    then have d': "distinct (map fst ?m)" "distinct (map fst ?res)" by (simp_all add: exact_def)
    have "map_of (members ?m) ''result'' = Some (JObj (members ?res))"
      "map_of (members ?res) ''tools'' = Some (JArr ?kept)"
      using kept by (simp_all add: map_of_members_distinct [OF d'(1)] map_of_members_distinct [OF d'(2)])
    then have "tool_elements ?kept = Some ts"
      using assms(5) decode_tools_object [OF exact_members [OF ex(1)] _ exact_members [OF ex(2)]]
      by (auto simp: r' marshal_def split: option.splits)
    moreover have "canon x = x \<and> keep_tool p x" if "x \<in> set ?kept" for x
      using that by auto
    ultimately show ?thesis using tool_elements_kept assms(6,7) by blast
  qed
qed

lemma decode_filtered:
  assumes "plain_reply r" "filterToolsList r p = Inr r'" "decode_tools r' = Some (e, Some ts)"
    and "t \<in> set ts" "member_string t ''name'' = Some n"
  shows "allows p n"
proof (cases r rule: unmarshal_object.cases)
  case 2
  then have "r' = r" using assms(2) by (simp add: filterToolsList_def member_object_def)
  then show ?thesis using assms(3) 2 by (simp add: decode_tools_def field_def)
next
  case (3 m)
  then have ex: "exact [''result'', ''error''] m" using assms(1) by (simp add: plain_reply_def)
  show ?thesis
  proof (cases "\<exists>res. map_of m ''result'' = Some (JObj res)")
    case True
    then show ?thesis
      using decode_filtered_object [OF ex] assms 3 by (auto simp: plain_reply_def)
  next
    case False
    then have "member_object (members m) ''result'' = None"
      using ex by (simp add: member_object_members no_member_object exact_def)
    then have "r' = r" using assms(2) 3 by (simp add: filterToolsList_def)
    then show ?thesis using decode_tools_no_object [OF ex] False assms(3) 3 by auto
  qed
qed (use assms(2) in \<open>simp_all add: filterToolsList_def\<close>)

section \<open>Merging\<close>

abbreviation tool_name :: "object \<Rightarrow> string option" where
  "tool_name t \<equiv> member_string t ''name''"

text \<open>\<open>P n i\<close> says that computer \<open>i\<close> may be listed for tool \<open>n\<close>.\<close>

definition grouping_inv :: "(string \<Rightarrow> string \<Rightarrow> bool) \<Rightarrow> grouping \<Rightarrow> bool" where
  "grouping_inv P g \<longleftrightarrow>
     distinct (map tool_name (gr_tools g))
     \<and> (\<forall>t \<in> set (gr_tools g). \<exists>n. tool_name t = Some n \<and> n \<noteq> ''list_agents'')
     \<and> (\<forall>n. gr_byName g n = None \<longleftrightarrow> Some n \<notin> tool_name ` set (gr_tools g))
     \<and> (\<forall>n. case gr_computers g n of
           None \<Rightarrow> gr_byName g n = None | Some ids \<Rightarrow> ids \<noteq> [] \<and> (\<forall>i \<in> set ids. P n i))"

lemma merge_tool_inv:
  assumes "merge_tool i t g = Inr g'" "grouping_inv P g" "\<And>n. tool_name t = Some n \<Longrightarrow> P n i"
  shows "grouping_inv P g'"
proof (cases "\<exists>n. tool_name t = Some n \<and> n \<noteq> ''list_agents''")
  case True
  then obtain n where n: "tool_name t = Some n" "n \<noteq> ''list_agents''" by blast
  note inv = assms(2) [unfolded grouping_inv_def]
  have comp: "case gr_computers g m of
      None \<Rightarrow> gr_byName g m = None | Some ids \<Rightarrow> ids \<noteq> [] \<and> (\<forall>i \<in> set ids. P m i)" for m
    using inv by blast
  show ?thesis
  proof (cases "gr_byName g n")
    case None
    then have g': "g' = g\<lparr>gr_byName := (gr_byName g)(n \<mapsto> t), gr_computers := (gr_computers g)(n \<mapsto> [i]),
        gr_tools := gr_tools g @ [t]\<rparr>"
      using assms(1) n by (simp add: merge_tool_def)
    have "case gr_computers g' m of
      None \<Rightarrow> gr_byName g' m = None | Some ids \<Rightarrow> ids \<noteq> [] \<and> (\<forall>i \<in> set ids. P m i)" for m
      using comp [of m] assms(3) n by (auto simp: g' split: option.splits)
    moreover have "distinct (map tool_name (gr_tools g'))"
      "\<forall>m. gr_byName g' m = None \<longleftrightarrow> Some m \<notin> tool_name ` set (gr_tools g')"
      "\<forall>t \<in> set (gr_tools g'). \<exists>n. tool_name t = Some n \<and> n \<noteq> ''list_agents''"
      using inv n None by (auto simp: g')
    ultimately show ?thesis unfolding grouping_inv_def by blast
  next
    case (Some prev)
    then have g': "g' = g\<lparr>gr_computers := (gr_computers g)
        (n \<mapsto> (case gr_computers g n of None \<Rightarrow> [] | Some cs \<Rightarrow> cs) @ [i])\<rparr>"
      using assms(1) n by (simp add: merge_tool_def split: if_splits)
    have "case gr_computers g' m of
      None \<Rightarrow> gr_byName g' m = None | Some ids \<Rightarrow> ids \<noteq> [] \<and> (\<forall>i \<in> set ids. P m i)" for m
      using comp [of m] assms(3) n by (auto simp: g' split: option.splits)
    then show ?thesis using inv unfolding grouping_inv_def by (simp add: g')
  qed
qed (use assms(1,2) in \<open>auto simp: merge_tool_def split: option.splits if_splits\<close>)

lemma merge_tools_inv:
  "merge_tools i ts g = Inr g' \<Longrightarrow> grouping_inv P g \<Longrightarrow>
     (\<And>t n. t \<in> set ts \<Longrightarrow> tool_name t = Some n \<Longrightarrow> P n i) \<Longrightarrow> grouping_inv P g'"
proof (induction ts arbitrary: g)
  case (Cons t ts)
  obtain g1 where g1: "merge_tool i t g = Inr g1" "merge_tools i ts g1 = Inr g'"
    using Cons.prems(1) by (auto split: sum.splits)
  have "grouping_inv P g1" using merge_tool_inv [OF g1(1) Cons.prems(2)] Cons.prems(3) by (meson list.set_intros(1))
  then show ?case using Cons.IH [OF g1(2)] Cons.prems(3) by (meson list.set_intros(2))
qed simp

lemma merge_reply_inv:
  assumes "merge_reply text a r g = Inr g'" "grouping_inv P g" "plain_reply r"
    and "\<And>n. allows (newToolPolicy (a_allowedTools a) (a_deniedTools a)) n \<Longrightarrow> P n (a_id a)"
  shows "grouping_inv P g'"
proof -
  from assms(1) obtain filtered e ts where
    f: "filterToolsList r (newToolPolicy (a_allowedTools a) (a_deniedTools a)) = Inr filtered"
      "decode_tools filtered = Some (e, Some ts)" "merge_tools (a_id a) ts g = Inr g'"
    by (auto simp: merge_reply_def split: sum.splits option.splits if_splits)
  show ?thesis
    using merge_tools_inv [OF f(3) assms(2)] decode_filtered [OF assms(3) f(1,2)] assms(4) by blast
qed

lemma callAgent_online:
  "callAgent now timeout c request rt = (out, rt') \<Longrightarrow> rt_stream rt' = rt_stream rt
     \<and> (\<forall>resp. out = Inr resp \<longrightarrow> ci_waited c = GotResult resp)"
  by (auto simp: callAgent_def callAgent_begin_def callAgent_end_def enqueue_def forget_def Let_def
      split: option.splits sum.splits prod.splits if_splits waited.splits elim!: callAgent_outcome.elims)

lemma online_put: "existingRuntime i s = Some rt \<Longrightarrow> rt_stream rt' = rt_stream rt \<Longrightarrow>
    online j (put_runtime i rt' s) = online j s"
  by (simp add: online_def existingRuntime_def put_runtime_def isOnline_def)

lemma collect_tools_inv:
  assumes "collect_tools w ask request ags g s = (Inr g', s')" "grouping_inv P g"
    and "\<And>i resp. ci_waited (ask i) = GotResult resp \<Longrightarrow> plain_reply (resp_body resp)"
    and "\<And>a n. a \<in> set ags \<Longrightarrow> a_enabled a \<Longrightarrow> online (a_id a) s \<Longrightarrow>
        allows (newToolPolicy (a_allowedTools a) (a_deniedTools a)) n \<Longrightarrow> P n (a_id a)"
  shows "grouping_inv P g'"
  using assms(1,2,4)
proof (induction ags arbitrary: g s)
  case (Cons a rest)
  show ?case
  proof (cases "a_enabled a \<and> online (a_id a) s")
    case False
    then have "collect_tools w ask request rest g s = (Inr g', s')"
      using Cons.prems(1) by (auto simp: online_def split: option.splits)
    then show ?thesis using Cons.IH Cons.prems(2,3) by simp
  next
    case True
    then obtain rt where rt: "existingRuntime (a_id a) s = Some rt" "isOnline rt"
      by (auto simp: online_def split: option.splits)
    obtain resp rt' g1 where call: "callAgent (w_now w) (srv_timeout s) (ask (a_id a)) request rt = (Inr resp, rt')"
      and g1: "merge_reply (w_text w) a (resp_body resp) g = Inr g1"
      and rest: "collect_tools w ask request rest g1 (put_runtime (a_id a) rt' s) = (Inr g', s')"
      using Cons.prems(1) rt True by (auto split: sum.splits prod.splits)
    have on: "online j (put_runtime (a_id a) rt' s) = online j s" for j
      using online_put [OF rt(1)] callAgent_online [OF call] by blast
    have "grouping_inv P g1"
      using merge_reply_inv [OF g1 Cons.prems(2)] assms(3) callAgent_online [OF call] Cons.prems(3) True
      by (metis list.set_intros(1))
    then show ?thesis using Cons.IH [OF rest] Cons.prems(3) on by (metis list.set_intros(2))
  qed
qed simp

section \<open>The list a client sees\<close>

definition routed_tool :: "nat \<Rightarrow> string list \<Rightarrow> object \<Rightarrow> bool" where
  "routed_tool count ids tool \<longleftrightarrow> (\<exists>schema properties description.
     member_object tool ''inputSchema'' = Some schema
     \<and> member_object schema ''properties'' = Some properties
     \<and> map_of properties ''agent_id'' = Some (JObj [(''type'', JStr ''string''), (''enum'', JArr (map JStr ids)),
          (''description'', description)])
     \<and> (count \<noteq> 1 \<longrightarrow> (\<exists>required. member_array schema ''required'' = Some required
          \<and> JStr ''agent_id'' \<in> set required)))"

lemma route_tool_routed:
  assumes "route_tool count computers tool = Inr tool'" "tool_name tool = Some n" "computers n = Some ids"
  shows "tool_name tool' = Some n \<and> routed_tool count ids tool'"
  using assms unfolding route_tool_def routed_tool_def
  by (auto simp: Let_def split: option.splits if_splits)

lemma first_error_nth: "first_error f xs = Inr ys \<Longrightarrow> list_all2 (\<lambda>x y. f x = Inr y) xs ys"
  by (induction xs arbitrary: ys) (auto split: sum.splits)

lemma routed_from_grouping:
  assumes "grouping_inv P g" and "first_error (route_tool n (gr_computers g)) (gr_tools g) = Inr routed"
  shows "list_all2 (\<lambda>t t'. \<exists>k ids. tool_name t = Some k \<and> k \<noteq> ''list_agents'' \<and> gr_computers g k = Some ids
      \<and> ids \<noteq> [] \<and> (\<forall>i \<in> set ids. P k i) \<and> tool_name t' = Some k \<and> routed_tool n ids t')
      (gr_tools g) routed"
proof (rule list.rel_mono_strong [OF first_error_nth [OF assms(2)]])
  fix t t' assume t: "t \<in> set (gr_tools g)" and t': "route_tool n (gr_computers g) t = Inr t'"
  obtain k where k: "tool_name t = Some k" "k \<noteq> ''list_agents''" using assms(1) t unfolding grouping_inv_def by blast
  then have "gr_byName g k \<noteq> None" using assms(1) t unfolding grouping_inv_def by force
  moreover have "case gr_computers g k of
    None \<Rightarrow> gr_byName g k = None | Some ids \<Rightarrow> ids \<noteq> [] \<and> (\<forall>i \<in> set ids. P k i)"
    using assms(1) unfolding grouping_inv_def by blast
  ultimately obtain ids where "gr_computers g k = Some ids" "ids \<noteq> []" "\<forall>i \<in> set ids. P k i"
    by (cases "gr_computers g k") simp_all
  then show "\<exists>k ids. tool_name t = Some k \<and> k \<noteq> ''list_agents'' \<and> gr_computers g k = Some ids
    \<and> ids \<noteq> [] \<and> (\<forall>i \<in> set ids. P k i) \<and> tool_name t' = Some k \<and> routed_tool n ids t'"
    using k route_tool_routed [OF t' k(1)] by blast
qed

text \<open>Provided the agents' replies are unambiguous, the tool list a client receives starts with
  \<open>list_agents\<close>, names no tool twice, and routes every other tool to a non-empty list of computers, each a
  granted, enabled agent that was online and whose policy allows that tool; the routing argument is
  required unless exactly one computer is granted.\<close>

theorem groupedTools_listing:
  assumes "groupedTools w ask ags request s = (Inr tools, s')"
    and "\<forall>i resp. ci_waited (ask i) = GotResult resp \<longrightarrow> plain_reply (resp_body resp)"
  shows "\<exists>routed. tools = listAgentsTool # routed \<and> distinct (map tool_name tools)
    \<and> (\<forall>tool \<in> set routed. \<exists>n ids. tool_name tool = Some n \<and> ids \<noteq> [] \<and> routed_tool (length ags) ids tool
         \<and> (\<forall>i \<in> set ids. \<exists>a \<in> set ags. a_id a = i \<and> a_enabled a \<and> online i s
              \<and> allows (newToolPolicy (a_allowedTools a) (a_deniedTools a)) n))"
proof -
  let ?P = "\<lambda>n i. \<exists>a \<in> set ags. a_id a = i \<and> a_enabled a \<and> online i s
              \<and> allows (newToolPolicy (a_allowedTools a) (a_deniedTools a)) n"
  let ?g = "\<lparr>gr_tools = [], gr_byName = Map.empty, gr_computers = Map.empty\<rparr>"
  obtain g routed where g: "collect_tools w ask request ags ?g s = (Inr g, s')"
    and routed: "first_error (route_tool (length ags) (gr_computers g)) (gr_tools g) = Inr routed"
    and tools: "tools = listAgentsTool # routed"
    using assms(1) by (auto simp: groupedTools_def split: prod.splits sum.splits)
  have "grouping_inv ?P ?g" by (simp add: grouping_inv_def)
  then have inv: "grouping_inv ?P g"
    using collect_tools_inv [OF g, of ?P] assms(2) by blast
  note all = routed_from_grouping [OF inv routed]
  have "list_all2 (=) (map tool_name (gr_tools g)) (map tool_name routed)"
    using all unfolding list_all2_map1 list_all2_map2 by (rule list_all2_mono) auto
  then have "map tool_name (gr_tools g) = map tool_name routed" by (simp only: list.rel_eq)
  then have dist: "distinct (map tool_name routed)" using inv by (simp add: grouping_inv_def)
  have each: "\<exists>n ids. tool_name t' = Some n \<and> n \<noteq> ''list_agents'' \<and> ids \<noteq> [] \<and> routed_tool (length ags) ids t'
      \<and> (\<forall>i \<in> set ids. ?P n i)" if t': "t' \<in> set routed" for t'
  proof -
    obtain k where "k < length routed" "routed ! k = t'" using t' by (auto simp: in_set_conv_nth)
    then show ?thesis using list_all2_nthD2 [OF all, of k] by blast
  qed
  have "Some ''list_agents'' \<notin> tool_name ` set routed"
  proof
    assume "Some ''list_agents'' \<in> tool_name ` set routed"
    then obtain t' where t': "Some ''list_agents'' = tool_name t'" "t' \<in> set routed" by (rule imageE)
    from each [OF t'(2)] t'(1) show False by (elim exE conjE) simp
  qed
  moreover have "tool_name listAgentsTool = Some ''list_agents''"
    by (simp add: listAgentsTool_def member_string_def)
  ultimately have "distinct (map tool_name tools)" using dist tools by simp
  moreover have "\<forall>tool \<in> set routed. \<exists>n ids. tool_name tool = Some n \<and> ids \<noteq> []
      \<and> routed_tool (length ags) ids tool \<and> (\<forall>i \<in> set ids. ?P n i)"
  proof
    fix tool assume "tool \<in> set routed"
    from each [OF this] show "\<exists>n ids. tool_name tool = Some n \<and> ids \<noteq> []
        \<and> routed_tool (length ags) ids tool \<and> (\<forall>i \<in> set ids. ?P n i)"
      by (elim exE conjE) (intro exI conjI; assumption)
  qed
  ultimately show ?thesis using tools by (intro exI [of _ routed] conjI)
qed

definition listing_agent :: agent where
  "listing_agent = \<lparr>a_id = ''pc'', a_name = ''PC'', a_enabled = True, a_tokenHash = ''h'',
     a_allowedRoots = ''*'', a_allowedTools = [], a_deniedTools = ''exec_command'',
     a_createdAt = 1, a_updatedAt = 1, a_lastSeenAt = None\<rparr>"

definition listing_reply :: object where
  "listing_reply = [(''id'', JNum 1), (''result'', JObj [(''tools'', JArr
     [JObj [(''name'', JStr ''read_file''), (''inputSchema'', JObj [(''properties'', JObj [])])],
      JObj [(''name'', JStr ''exec_command''), (''inputSchema'', JObj [(''properties'', JObj [])])]])])]"

definition listing_ask :: "string \<Rightarrow> callInput" where
  "listing_ask i = \<lparr>ci_fresh = Some ''r1'', ci_deadline = None, ci_ctxDone = False, ci_pick = False,
     ci_waited = GotResult \<lparr>resp_ID = ''r1'', resp_body = Document (JObj listing_reply), resp_error = []\<rparr>\<rparr>"

definition listing_server :: server where
  "listing_server = (example_server empty_db)\<lparr>srv_runtimes := [''pc'' \<mapsto> online_link]\<rparr>"

lemma listing_run:
  "case fst (groupedTools (example_world 9) listing_ask [listing_agent] (Document (JObj [])) listing_server) of
     Inl _ \<Rightarrow> False | Inr tools \<Rightarrow> map tool_name tools = [Some ''list_agents'', Some ''read_file'']"
  by code_simp

theorem groupedTools_listing_witness:
  "\<exists>tools s' tool. groupedTools (example_world 9) listing_ask [listing_agent] (Document (JObj [])) listing_server
      = (Inr tools, s') \<and> tool \<in> set tools \<and> tool_name tool = Some ''read_file''
    \<and> (\<exists>ids. routed_tool 1 ids tool \<and> ids \<noteq> [])"
proof -
  let ?run = "groupedTools (example_world 9) listing_ask [listing_agent] (Document (JObj [])) listing_server"
  obtain tools s' where run: "?run = (Inr tools, s')" "map tool_name tools = [Some ''list_agents'', Some ''read_file'']"
    using listing_run by (cases ?run; cases "fst ?run") auto
  have plain: "\<forall>i resp. ci_waited (listing_ask i) = GotResult resp \<longrightarrow> plain_reply (resp_body resp)"
    by (auto simp: listing_ask_def plain_reply_def listing_reply_def exact_def EqualFold_lower lower_ascii_def)
  obtain routed where r: "tools = listAgentsTool # routed"
      "\<forall>tool \<in> set routed. \<exists>ids. routed_tool (length [listing_agent]) ids tool \<and> ids \<noteq> []"
    using groupedTools_listing [OF run(1) plain] by metis
  obtain tool where "tool \<in> set routed" "tool_name tool = Some ''read_file''"
    using run(2) r(1) by auto
  then show ?thesis using run(1) r by auto
qed

end
