(* ===== verification/AgentEndpoints.thy ===== *)
theory AgentEndpoints
  imports Mcp
begin

text \<open>
  The worker's endpoints of \<open>cmd/gate/agent.go\<close>: configuration, the outbound stream (its opening, one turn of
  its loop, its clean-up) and results. The store's \<open>UpdateLastSeen\<close> runs in a goroutine whose error is dropped.
\<close>

definition update_last_seen :: "string \<Rightarrow> time \<Rightarrow> server \<Rightarrow> server" where
  "update_last_seen i now s =
    (case UpdateLastSeen i now (srv_db s) of Inl _ \<Rightarrow> s | Inr d \<Rightarrow> s\<lparr>srv_db := d\<rparr>)"

definition handleAgentConfig :: "httpRequest \<Rightarrow> server \<Rightarrow> reply \<times> server" where
  "handleAgentConfig r s =
    (case authenticateAgent r s of
       (Inl _, s1) \<Rightarrow> (HttpError 401 ''unauthorized'', s1)
     | (Inr (a, rt), s1) \<Rightarrow> (WriteJSON (JObj [(''allowed_roots'', JStr (a_allowedRoots a))]), s1))"

definition handleAgentStream :: "time \<Rightarrow> httpRequest \<Rightarrow> server \<Rightarrow> reply \<times> server" where
  "handleAgentStream now r s =
    (if hr_method r \<noteq> ''GET'' then (HttpError 405 ''method not allowed'', s)
     else case authenticateAgent r s of
       (Inl _, s1) \<Rightarrow> (HttpError 401 ''unauthorized'', s1)
     | (Inr (a, rt), s1) \<Rightarrow>
         (case activateAgentStream now rt of (rt', stream, replaced) \<Rightarrow>
            (AgentStream stream, update_last_seen (a_id a) now (put_runtime (a_id a) rt' s1))))"

text \<open>One turn of the loop that takes a request from the queue, and the deferred clean-up.\<close>

definition agent_stream_turn :: "time \<Rightarrow> bool \<Rightarrow> string \<Rightarrow> server \<Rightarrow> dispatched \<times> server" where
  "agent_stream_turn now writable i s =
    (case existingRuntime i s of
       None \<Rightarrow> (QueueEmpty, s)
     | Some rt \<Rightarrow> (case stream_dispatch now writable rt of (out, rt') \<Rightarrow> (out, put_runtime i rt' s)))"

definition agent_stream_end :: "time \<Rightarrow> nat \<Rightarrow> string \<Rightarrow> server \<Rightarrow> server" where
  "agent_stream_end now stream i s =
    (case existingRuntime i s of
       None \<Rightarrow> s
     | Some rt \<Rightarrow> update_last_seen i now (put_runtime i (deactivateAgentStream now stream rt) s))"

text \<open>
  A result fills the struct \<open>AgentResponse\<close>; an absent body is no JSON document.
\<close>

definition decode_response :: "raw_json \<Rightarrow> response option" where
  "decode_response body =
    (case struct_members body of
       None \<Rightarrow> None
     | Some m \<Rightarrow>
        (case (string_field [] (field ''id'' m), string_field [] (field ''error'' m)) of
           (Some i, Some e) \<Rightarrow> Some \<lparr>resp_ID = i,
              resp_body = (case raw_field (field ''response'' m) of None \<Rightarrow> Malformed [] | Some j \<Rightarrow> Document j),
              resp_error = e\<rparr>
         | _ \<Rightarrow> None))"

text \<open>The send blocks while the channel holds an earlier result that nobody received.\<close>

definition handleAgentResult :: "time \<Rightarrow> httpRequest \<Rightarrow> server \<Rightarrow> reply \<times> server" where
  "handleAgentResult now r s =
    (if hr_method r \<noteq> ''POST'' then (HttpError 405 ''method not allowed'', s)
     else case authenticateAgent r s of
       (Inl _, s1) \<Rightarrow> (HttpError 401 ''unauthorized'', s1)
     | (Inr (a, rt), s1) \<Rightarrow>
         (case hr_body r of
            BodyTooLarge \<Rightarrow> (HttpError 413 ''request body too large'', s1)
          | BodyUnreadable \<Rightarrow> (HttpError 400 ''bad json'', s1)
          | Body raw \<Rightarrow>
             (case decode_response raw of
                None \<Rightarrow> (HttpError 400 ''bad json'', s1)
              | Some result \<Rightarrow>
                 (case result_lookup now result rt of
                    None \<Rightarrow> (HttpError 404 ''unknown request id'', s1)
                  | Some (ch, rt1) \<Rightarrow>
                     (case result_send ch result rt1 of
                        None \<Rightarrow> (Blocked, put_runtime (a_id a) rt1 s1)
                      | Some rt2 \<Rightarrow> (WriteStatus 204, put_runtime (a_id a) rt2 s1))))))"

end
