(* ===== verification/Admin.thy ===== *)
theory Admin
  imports AgentEndpoints
begin

text \<open>
  The administration pages of \<open>cmd/gate/admin.go\<close> and \<open>admin_mcp.go\<close>: registration, policy, roots, grants,
  rotation, revocation and deletion. Every form handler checks the CSRF token before anything else; the
  checks of \<open>adminAuth\<close> come before that, in the router.
\<close>

section \<open>Validation\<close>

definition lower_digit :: "char \<Rightarrow> bool" where
  "lower_digit c \<longleftrightarrow> c \<in> set ''abcdefghijklmnopqrstuvwxyz0123456789''"

text \<open>\<open>^[a-z0-9][a-z0-9_-]{0,63}$\<close>\<close>

definition agentIDRegex :: "string \<Rightarrow> bool" where
  "agentIDRegex i = (case i of
     [] \<Rightarrow> False
   | c # cs \<Rightarrow> lower_digit c \<and> length cs \<le> 63
       \<and> list_all (\<lambda>c. lower_digit c \<or> c = CHR ''_'' \<or> c = CHR ''-'') cs)"

text \<open>\<open>^[a-zA-Z]:[\\/]\<close>\<close>

definition windowsRootRegex :: "string \<Rightarrow> bool" where
  "windowsRootRegex path =
    (case path of
       c # d # e # _ \<Rightarrow> c \<in> set ''abcdefghijklmnopqrstuvwxyzABCDEFGHIJKLMNOPQRSTUVWXYZ''
         \<and> d = CHR '':'' \<and> (e = CHR 0x5C \<or> e = CHR ''/'')
     | _ \<Rightarrow> False)"

definition absolute_root :: "string \<Rightarrow> bool" where
  "absolute_root path \<longleftrightarrow> path = ''*'' \<or> HasPrefix path ''/'' \<or> HasPrefix path [CHR 0x5C, CHR 0x5C]
     \<or> windowsRootRegex path"

definition validAllowedRoots :: "string \<Rightarrow> bool" where
  "validAllowedRoots roots =
    (if roots = [] \<or> (\<exists>c \<in> set roots. c \<in> {CHR 0x0D, CHR 0x0A, CHR 0x00, CHR 0x22}) then False
     else
       let separator = (if HasPrefix roots ''/'' then CHR '':'' else CHR '';'')
       in list_all (\<lambda>root. absolute_root (TrimSpace root)) (Split separator roots))"

section \<open>Views\<close>

definition formatTimeRelative :: "time \<Rightarrow> time \<Rightarrow> relativeTime" where
  "formatTimeRelative now t =
    (if IsZero t then Never
     else
       let diff = now - t
       in if diff < 10 * second then JustNow
          else if diff < minute then SecondsAgo (diff div second)
          else if diff < hour then MinutesAgo (diff div minute)
          else if diff < 24 * hour then HoursAgo (diff div hour)
          else AtTime t)"

text \<open>The later of the stored and the live sign of life.\<close>

definition agent_view :: "time \<Rightarrow> server \<Rightarrow> agent \<Rightarrow> agent \<times> bool \<times> relativeTime" where
  "agent_view now s a =
    (let stored = (case a_lastSeenAt a of None \<Rightarrow> 0 | Some t \<Rightarrow> t)
     in case existingRuntime (a_id a) s of
          None \<Rightarrow> (a, False, formatTimeRelative now stored)
        | Some rt \<Rightarrow>
           (case rt_status rt of (isOn, live) \<Rightarrow>
              (a, isOn, formatTimeRelative now
                 (if \<not> IsZero live \<and> (IsZero stored \<or> live > stored) then live else stored))))"

definition handleAdminIndex :: "world \<Rightarrow> httpRequest \<Rightarrow> server \<Rightarrow> reply \<times> server" where
  "handleAdminIndex w r s =
    (case ListAgents (srv_db s) of
       Inl _ \<Rightarrow> (HttpError 500 ''failed to load agents'', s)
     | Inr ags \<Rightarrow>
        (case ListMCPClients (srv_db s) of
           Inl _ \<Rightarrow> (HttpError 500 ''failed to load MCP registrations'', s)
         | Inr cs \<Rightarrow> (Page (IndexPage (map (agent_view (w_now w) s) ags) cs), s)))"

definition handleAdminAgent :: "world \<Rightarrow> httpRequest \<Rightarrow> server \<Rightarrow> reply \<times> server" where
  "handleAdminAgent w r s =
    (case GetAgent (hr_pathID r) (srv_db s) of
       Inl _ \<Rightarrow> (HttpError 404 ''agent not found'', s)
     | Inr a \<Rightarrow> (case agent_view (w_now w) s a of (a, isOn, seen) \<Rightarrow> (Page (AgentPage a isOn seen), s)))"

definition handleAdminMCPClient :: "world \<Rightarrow> httpRequest \<Rightarrow> server \<Rightarrow> reply \<times> server" where
  "handleAdminMCPClient w r s =
    (case GetMCPClient (hr_pathID r) (srv_db s) of
       Inl _ \<Rightarrow> (HttpError 404 ''MCP registration not found'', s)
     | Inr c \<Rightarrow>
        (case ListAgents (srv_db s) of
           Inl _ \<Rightarrow> (HttpError 500 ''failed to load agents'', s)
         | Inr ags \<Rightarrow>
            (case ListMCPAgentIDs (c_id c) (srv_db s) of
               Inl _ \<Rightarrow> (HttpError 500 ''failed to load MCP access'', s)
             | Inr ids \<Rightarrow> (Page (ClientPage c (map (\<lambda>a. (a, a_id a \<in> set ids)) ags)), s))))"

section \<open>Agents\<close>

text \<open>A form handler behind the CSRF check, and a handler that ends with a store operation.\<close>

definition csrf_guard :: "httpRequest \<Rightarrow> server \<Rightarrow> reply \<times> server \<Rightarrow> reply \<times> server" where
  "csrf_guard r s handled = (if \<not> verifyCSRF r s then (HttpError 403 ''invalid CSRF token'', s) else handled)"

definition default_denied :: string where
  "default_denied = ''edit_file,move_path,delete_path''"

definition handleAdminCreateAgent :: "world \<Rightarrow> httpRequest \<Rightarrow> server \<Rightarrow> reply \<times> server" where
  "handleAdminCreateAgent w r s = csrf_guard r s
    (let i = TrimSpace (hr_form r ''id''); name0 = TrimSpace (hr_form r ''name'')
     in if \<not> agentIDRegex i then (HttpError 400 ''invalid agent ID'', s)
        else
          let name = (if name0 = [] then i else name0);
              roots0 = TrimSpace (hr_form r ''allowed_roots'');
              roots = (if roots0 = [] then DefaultAllowedRoots else roots0)
          in if \<not> validAllowedRoots roots then (HttpError 400 ''invalid allowed roots'', s)
             else (case generateSecret ''wc_agent_'' (w_rnd w) of
               None \<Rightarrow> (HttpError 500 ''generate secret error'', s)
             | Some raw \<Rightarrow>
                 let a = \<lparr>a_id = i, a_name = name, a_enabled = True, a_tokenHash = hashSecret raw,
                       a_allowedRoots = roots, a_allowedTools = [], a_deniedTools = default_denied,
                       a_createdAt = 0, a_updatedAt = 0, a_lastSeenAt = None\<rparr>
                 in (case CreateAgent (w_now w) a (srv_db s) of
                       Inl _ \<Rightarrow> (HttpError 409 ''agent ID already exists'', s)
                     | Inr d \<Rightarrow> (Page (AgentCreatedPage a raw), s\<lparr>srv_db := d\<rparr>))))"

definition handleAdminToggleAgent :: "world \<Rightarrow> httpRequest \<Rightarrow> server \<Rightarrow> reply \<times> server" where
  "handleAdminToggleAgent w r s = csrf_guard r s
    (let i = hr_pathID r
     in case GetAgent i (srv_db s) of
          Inl _ \<Rightarrow> (HttpError 404 ''agent not found'', s)
        | Inr a \<Rightarrow>
           (case SetAgentEnabled (w_now w) i (\<not> a_enabled a) (srv_db s) of
              Inl _ \<Rightarrow> (HttpError 500 ''failed to update agent state'', s)
            | Inr d \<Rightarrow>
                let s1 = s\<lparr>srv_db := d\<rparr>
                in (SeeOther (''/admin/agents/'' @ i), if a_enabled a then disconnect_existing i s1 else s1)))"

definition handleAdminRotateAgentToken :: "world \<Rightarrow> httpRequest \<Rightarrow> server \<Rightarrow> reply \<times> server" where
  "handleAdminRotateAgentToken w r s = csrf_guard r s
    (let i = hr_pathID r
     in case GetAgent i (srv_db s) of
          Inl _ \<Rightarrow> (HttpError 404 ''agent not found'', s)
        | Inr a \<Rightarrow>
           (case generateSecret ''wc_agent_'' (w_rnd w) of
              None \<Rightarrow> (HttpError 500 ''generate secret error'', s)
            | Some raw \<Rightarrow>
               (case UpdateAgentTokenHash (w_now w) i (hashSecret raw) (srv_db s) of
                  Inl _ \<Rightarrow> (HttpError 500 ''failed to rotate agent token'', s)
                | Inr d \<Rightarrow> (Page (AgentCreatedPage a raw), disconnect_existing i (s\<lparr>srv_db := d\<rparr>)))))"

definition handleAdminPolicy :: "world \<Rightarrow> httpRequest \<Rightarrow> server \<Rightarrow> reply \<times> server" where
  "handleAdminPolicy w r s = csrf_guard r s
    (let i = hr_pathID r
     in case UpdateToolPolicy (w_now w) i (TrimSpace (hr_form r ''allowed_tools''))
               (TrimSpace (hr_form r ''denied_tools'')) (srv_db s) of
          Inl _ \<Rightarrow> (HttpError 500 ''failed to update tool policy'', s)
        | Inr d \<Rightarrow> (SeeOther (''/admin/agents/'' @ i), s\<lparr>srv_db := d\<rparr>))"

definition handleAdminDeleteAgent :: "world \<Rightarrow> httpRequest \<Rightarrow> server \<Rightarrow> reply \<times> server" where
  "handleAdminDeleteAgent w r s = csrf_guard r s
    (let i = hr_pathID r; s1 = disconnect_existing i s
     in case DeleteAgent i (srv_db s1) of
          Inl _ \<Rightarrow> (HttpError 500 ''failed to delete agent'', s1)
        | Inr d \<Rightarrow> (SeeOther ''/admin'', s1\<lparr>srv_db := d\<rparr>))"

definition handleAdminRoots :: "world \<Rightarrow> httpRequest \<Rightarrow> server \<Rightarrow> reply \<times> server" where
  "handleAdminRoots w r s = csrf_guard r s
    (let roots = TrimSpace (hr_form r ''allowed_roots''); i = hr_pathID r
     in if \<not> validAllowedRoots roots
        then (HttpError 400 ''allowed roots must be absolute paths without quotes or newlines'', s)
        else (case UpdateAllowedRoots (w_now w) i roots (srv_db s) of
          Inl _ \<Rightarrow> (HttpError 500 ''failed to save roots'', s)
        | Inr d \<Rightarrow> (SeeOther (''/admin/agents/'' @ i), s\<lparr>srv_db := d\<rparr>)))"

section \<open>MCP registrations\<close>

definition handleAdminCreateMCPClient :: "world \<Rightarrow> httpRequest \<Rightarrow> server \<Rightarrow> reply \<times> server" where
  "handleAdminCreateMCPClient w r s = csrf_guard r s
    (let i = TrimSpace (hr_form r ''id''); name0 = TrimSpace (hr_form r ''name'')
     in if \<not> agentIDRegex i then (HttpError 400 ''invalid MCP ID'', s)
        else (case generateSecret ''wc_client_'' (w_rnd w) of
          None \<Rightarrow> (HttpError 500 ''generate client ID error'', s)
        | Some oauthID \<Rightarrow>
           (case generateSecret ''wc_oauth_'' (w_rnd2 w) of
              None \<Rightarrow> (HttpError 500 ''generate secret error'', s)
            | Some secret \<Rightarrow>
                let c = \<lparr>c_id = i, c_name = (if name0 = [] then i else name0), c_enabled = True,
                      c_oauthClientID = oauthID, c_secretHash = hashSecret secret, c_createdAt = 0, c_updatedAt = 0\<rparr>
                in (case CreateMCPClient (w_now w) c (srv_db s) of
                      Inl _ \<Rightarrow> (HttpError 409 ''MCP ID already exists'', s)
                    | Inr d \<Rightarrow> (Page (ClientCreatedPage c oauthID secret), s\<lparr>srv_db := d\<rparr>)))))"

definition handleAdminMCPAgents :: "world \<Rightarrow> httpRequest \<Rightarrow> server \<Rightarrow> reply \<times> server" where
  "handleAdminMCPAgents w r s =
    (if hr_body r = BodyTooLarge \<or> hr_body r = BodyUnreadable then (HttpError 400 ''invalid form'', s)
     else csrf_guard r s
       (case SetMCPAgents (hr_pathID r) (case hr_formList r ''agent_id'' of None \<Rightarrow> [] | Some ids \<Rightarrow> ids) (srv_db s) of
          Inl e \<Rightarrow> (if e = AgentNotFound then HttpError 400 ''MCP registration or agent not found''
                    else HttpError 500 ''failed to update access'', s)
        | Inr d \<Rightarrow> (SeeOther (''/admin/mcp-clients/'' @ hr_pathID r), s\<lparr>srv_db := d\<rparr>)))"

definition handleAdminToggleMCPClient :: "world \<Rightarrow> httpRequest \<Rightarrow> server \<Rightarrow> reply \<times> server" where
  "handleAdminToggleMCPClient w r s = csrf_guard r s
    (case GetMCPClient (hr_pathID r) (srv_db s) of
       Inl _ \<Rightarrow> (HttpError 404 ''MCP registration not found'', s)
     | Inr c \<Rightarrow>
        (case SetMCPClientEnabled (w_now w) (hr_pathID r) (\<not> c_enabled c) (srv_db s) of
           Inl _ \<Rightarrow> (HttpError 500 ''failed to update MCP state'', s)
         | Inr d \<Rightarrow> (SeeOther (''/admin/mcp-clients/'' @ hr_pathID r), s\<lparr>srv_db := d\<rparr>)))"

definition handleAdminRotateOAuthSecret :: "world \<Rightarrow> httpRequest \<Rightarrow> server \<Rightarrow> reply \<times> server" where
  "handleAdminRotateOAuthSecret w r s = csrf_guard r s
    (case GetMCPClient (hr_pathID r) (srv_db s) of
       Inl _ \<Rightarrow> (HttpError 404 ''MCP registration not found'', s)
     | Inr c \<Rightarrow>
        (case generateSecret ''wc_oauth_'' (w_rnd w) of
           None \<Rightarrow> (HttpError 500 ''generate secret error'', s)
         | Some secret \<Rightarrow>
            (case UpdateOAuthSecretHash (w_now w) (c_id c) (hashSecret secret) (srv_db s) of
               Inl _ \<Rightarrow> (HttpError 500 ''failed to rotate secret'', s)
             | Inr d \<Rightarrow> (Page (ClientCreatedPage c (c_oauthClientID c) secret), s\<lparr>srv_db := d\<rparr>))))"

definition handleAdminRevokeAccess :: "world \<Rightarrow> httpRequest \<Rightarrow> server \<Rightarrow> reply \<times> server" where
  "handleAdminRevokeAccess w r s = csrf_guard r s
    (case RevokeAccessTokens (hr_pathID r) (srv_db s) of
       Inl _ \<Rightarrow> (HttpError 500 ''failed to revoke access'', s)
     | Inr d \<Rightarrow> (SeeOther (''/admin/mcp-clients/'' @ hr_pathID r), s\<lparr>srv_db := d\<rparr>))"

definition handleAdminDeleteMCPClient :: "world \<Rightarrow> httpRequest \<Rightarrow> server \<Rightarrow> reply \<times> server" where
  "handleAdminDeleteMCPClient w r s = csrf_guard r s
    (case DeleteMCPClient (hr_pathID r) (srv_db s) of
       Inl _ \<Rightarrow> (HttpError 500 ''failed to delete MCP registration'', s)
     | Inr d \<Rightarrow> (SeeOther ''/admin'', s\<lparr>srv_db := d\<rparr>))"

end
