(* ===== verification/Monitor.thy ===== *)
theory Monitor
  imports Admin
begin

text \<open>
  \<open>cmd/gate/command_monitor.go\<close>: the administrator's view of an agent's commands. Each request calls one tool
  of the agent through its link; the log download polls until the stream ends. \<open>parse\<close> is
  \<open>strconv.ParseInt\<close> with base 10 and 53 bits.
\<close>

definition commandMonitorAgent :: "string \<Rightarrow> httpRequest \<Rightarrow> server \<Rightarrow> reply + agent" where
  "commandMonitorAgent tool r s =
    (case GetAgent (hr_pathID r) (srv_db s) of
       Inl _ \<Rightarrow> Inl (HttpError 404 ''agent not found'')
     | Inr a \<Rightarrow>
        if \<not> a_enabled a \<or> \<not> allows (newToolPolicy (a_allowedTools a) (a_deniedTools a)) tool
        then Inl (HttpError 403 ''tool not allowed'')
        else Inr a)"

definition monitor_request :: "string \<Rightarrow> object \<Rightarrow> raw_json" where
  "monitor_request tool args = marshal
    [(''jsonrpc'', JStr ''2.0''), (''id'', JStr ''monitor''), (''method'', JStr ''tools/call''),
     (''params'', JObj [(''name'', JStr tool), (''arguments'', JObj args), (''_webcodex_contract'', JStr ''v5'')])]"

definition decode_monitor :: "raw_json \<Rightarrow> (bool \<times> object option) option" where
  "decode_monitor response =
    (case struct_members response of
       None \<Rightarrow> None
     | Some m \<Rightarrow>
        (case struct_field (field ''result'' m) of
           None \<Rightarrow> None
         | Some result \<Rightarrow>
            (case (bool_field False (field ''isError'' result), map_field (field ''structuredContent'' result)) of
               (Some isError, Some structured) \<Rightarrow> Some (isError, structured)
             | _ \<Rightarrow> None)))"

definition monitorCall ::
  "world \<Rightarrow> callInput \<Rightarrow> string \<Rightarrow> string \<Rightarrow> object \<Rightarrow> server \<Rightarrow> (string + object) \<times> server" where
  "monitorCall w c agentID tool args s =
    (case runtimeFor agentID s of (rt, s1) \<Rightarrow>
     (case callAgent (w_now w) (srv_timeout s1) c (monitor_request tool args) rt of
        (Inl e, rt') \<Rightarrow> (Inl e, put_runtime agentID rt' s1)
      | (Inr resp, rt') \<Rightarrow>
         ((case decode_monitor (resp_body resp) of
             None \<Rightarrow> Inl ''json''
           | Some (isError, structured) \<Rightarrow>
              if isError then Inl (''agent rejected '' @ tool)
              else (case structured of None \<Rightarrow> Inl (''agent rejected '' @ tool) | Some m \<Rightarrow> Inr m)),
          put_runtime agentID rt' s1)))"

definition handleCommandMonitor :: "httpRequest \<Rightarrow> server \<Rightarrow> reply \<times> server" where
  "handleCommandMonitor r s =
    (case commandMonitorAgent ''list_commands'' r s of
       Inl e \<Rightarrow> (e, s) | Inr a \<Rightarrow> (Page (CommandsPage a), s))"

definition monitor_offsets :: "(string \<Rightarrow> int option) \<Rightarrow> httpRequest \<Rightarrow> object option" where
  "monitor_offsets parse r =
    (case (parse (hr_query r ''stdout_offset''), parse (hr_query r ''stderr_offset'')) of
       (Some out, Some err) \<Rightarrow>
         if out < 0 \<or> err < 0 then None
         else Some [(''stdout_offset'', JNum (of_int out)), (''stderr_offset'', JNum (of_int err))]
     | _ \<Rightarrow> None)"

definition call_and_write ::
  "world \<Rightarrow> callInput \<Rightarrow> string \<Rightarrow> object \<Rightarrow> httpRequest \<Rightarrow> server \<Rightarrow> reply \<times> server" where
  "call_and_write w c tool args r s =
    (case commandMonitorAgent tool r s of
       Inl e \<Rightarrow> (e, s)
     | Inr a \<Rightarrow>
        (case monitorCall w c (a_id a) tool args s of
           (Inl e, s1) \<Rightarrow> (HttpError 502 e, s1)
         | (Inr result, s1) \<Rightarrow> (WriteJSON (JObj result), s1)))"

definition handleCommandData ::
  "world \<Rightarrow> (string \<Rightarrow> int option) \<Rightarrow> callInput \<Rightarrow> httpRequest \<Rightarrow> server \<Rightarrow> reply \<times> server" where
  "handleCommandData w parse c r s =
    (let i = hr_query r ''session_id''
     in if i = [] then call_and_write w c ''list_commands'' [(''limit'', JNum 500)] r s
        else (case monitor_offsets parse r of
          None \<Rightarrow> (HttpError 400 ''invalid offset'', s)
        | Some offsets \<Rightarrow> call_and_write w c ''poll_command''
            ([(''session_id'', JStr i), (''max_bytes'', JNum 65536)] @ offsets) r s))"

definition handleCommandStop :: "world \<Rightarrow> callInput \<Rightarrow> httpRequest \<Rightarrow> server \<Rightarrow> reply \<times> server" where
  "handleCommandStop w c r s = csrf_guard r s
    (case commandMonitorAgent ''cancel_command'' r s of
       Inl e \<Rightarrow> (e, s)
     | Inr a \<Rightarrow>
        let i = hr_form r ''session_id''
        in if i = [] then (HttpError 400 ''session_id required'', s)
           else (case monitorCall w c (a_id a) ''cancel_command'' [(''session_id'', JStr i)] s of
              (Inl e, s1) \<Rightarrow> (HttpError 502 e, s1)
            | (Inr result, s1) \<Rightarrow> (WriteJSON (JObj result), s1)))"

section \<open>The log download\<close>

definition log_limit :: int where "log_limit = 100 * 2 ^ 20"

text \<open>The text and next offset of an answer; an absent or foreign member is the zero value.\<close>

definition log_chunk :: "string \<Rightarrow> object \<Rightarrow> string \<times> rat" where
  "log_chunk stream result =
    ((case member_string result stream of None \<Rightarrow> [] | Some t \<Rightarrow> t),
     (case map_of result (stream @ ''_next_offset'') of Some (JNum n) \<Rightarrow> n | _ \<Rightarrow> 0))"

definition log_args :: "string \<Rightarrow> string \<Rightarrow> rat \<Rightarrow> object" where
  "log_args stream i offset = AList.update (stream @ ''_offset'') (JNum offset)
     [(''session_id'', JStr i), (''stdout_offset'', JNum 0), (''stderr_offset'', JNum 0), (''max_bytes'', JNum 65536)]"

text \<open>One poll: the agent may be gone or refuse the tool, the call may fail, or a chunk arrives.\<close>

datatype polled = Refused reply | CallFailed string | Chunk string rat

definition log_poll :: "world \<Rightarrow> callInput \<Rightarrow> httpRequest \<Rightarrow> rat \<Rightarrow> server \<Rightarrow> polled \<times> server" where
  "log_poll w c r offset s =
    (let stream = hr_query r ''stream''
     in case commandMonitorAgent ''poll_command'' r s of
          Inl e \<Rightarrow> (Refused e, s)
        | Inr a \<Rightarrow>
           (case monitorCall w c (a_id a) ''poll_command'' (log_args stream (hr_query r ''session_id'') offset) s of
              (Inl e, s1) \<Rightarrow> (CallFailed e, s1)
            | (Inr result, s1) \<Rightarrow> (case log_chunk stream result of (text, next) \<Rightarrow> (Chunk text next, s1))))"

text \<open>
  The loop. Before the first byte an error is the reply; after it a failed call ends the text silently,
  and a refusal writes its message into the text. \<open>ctxDone k\<close> is whether the request's context is done before
  the k-th poll; a failing write ends the handler with its text lost, and is not represented. \<open>fuel\<close>
  bounds the number of polls, None is running out of it.
\<close>

fun error_text :: "reply \<Rightarrow> string" where
  "error_text (HttpError code message) = message @ [CHR 0x0A]"
| "error_text _ = []"

fun log_loop ::
  "(nat \<Rightarrow> world) \<Rightarrow> (nat \<Rightarrow> callInput) \<Rightarrow> (nat \<Rightarrow> bool) \<Rightarrow> httpRequest \<Rightarrow> nat \<Rightarrow> nat \<Rightarrow> rat \<Rightarrow> server
     \<Rightarrow> ((reply + string) \<times> server) option" where
  "log_loop ws ask ctxDone r 0 k offset s = None"
| "log_loop ws ask ctxDone r (Suc fuel) k offset s =
    (if ctxDone k then Some (Inr [], s)
     else case log_poll (ws k) (ask k) r offset s of
       (Refused e, s1) \<Rightarrow> Some (if offset = 0 then Inl e else Inr (error_text e), s1)
     | (CallFailed e, s1) \<Rightarrow> Some (if offset = 0 then Inl (HttpError 502 e) else Inr [], s1)
     | (Chunk text next, s1) \<Rightarrow>
        if next \<le> offset \<or> text = [] \<or> next \<ge> of_int log_limit then Some (Inr text, s1)
        else (case log_loop ws ask ctxDone r fuel (Suc k) next s1 of
           None \<Rightarrow> None
         | Some (Inl e, s2) \<Rightarrow> Some (Inr text, s2)
         | Some (Inr rest, s2) \<Rightarrow> Some (Inr (text @ rest), s2)))"

definition handleCommandLog ::
  "(nat \<Rightarrow> world) \<Rightarrow> (nat \<Rightarrow> callInput) \<Rightarrow> (nat \<Rightarrow> bool) \<Rightarrow> nat \<Rightarrow> httpRequest \<Rightarrow> server
     \<Rightarrow> ((reply + string) \<times> server) option" where
  "handleCommandLog ws ask ctxDone fuel r s =
    (let stream = hr_query r ''stream'' in
     if (stream \<noteq> ''stdout'' \<and> stream \<noteq> ''stderr'') \<or> hr_query r ''session_id'' = []
     then Some (Inl (HttpError 400 ''invalid log''), s)
     else log_loop ws ask ctxDone r fuel 0 0 s)"

section \<open>The download ends\<close>

text \<open>The agent reports whole byte offsets.\<close>

definition whole_offsets :: "string \<Rightarrow> callInput \<Rightarrow> bool" where
  "whole_offsets stream c \<longleftrightarrow> (case ci_waited c of
     GotResult resp \<Rightarrow> (case decode_monitor (resp_body resp) of
         Some (_, Some m) \<Rightarrow> snd (log_chunk stream m) \<in> \<int> | _ \<Rightarrow> True)
   | _ \<Rightarrow> True)"

lemma callAgent_GotResult: "callAgent now timeout c request rt = (Inr resp, rt') \<Longrightarrow> ci_waited c = GotResult resp"
  by (auto simp: callAgent_def callAgent_end_def split: prod.splits sum.splits waited.splits
      elim!: callAgent_outcome.elims split: if_splits)

lemma log_poll_whole:
  assumes "log_poll w c r offset s = (Chunk text nxt, s1)" "whole_offsets (hr_query r ''stream'') c"
  shows "nxt \<in> \<int>"
proof -
  obtain resp m where "ci_waited c = GotResult resp" "decode_monitor (resp_body resp) = Some (False, Some m)"
    "log_chunk (hr_query r ''stream'') m = (text, nxt)"
    using assms(1)
    by (auto simp: log_poll_def monitorCall_def Let_def
        split: sum.splits prod.splits option.splits if_splits dest!: callAgent_GotResult)
  then show ?thesis using assms(2) by (simp add: whole_offsets_def)
qed

lemma log_loop_ends:
  assumes "\<forall>k. whole_offsets (hr_query r ''stream'') (ask k)"
  shows "0 \<le> m \<Longrightarrow> nat (log_limit - m) < fuel \<Longrightarrow> log_loop ws ask ctxDone r fuel k (of_int m) s \<noteq> None"
proof (induction fuel arbitrary: k m s)
  case (Suc fuel)
  show ?case
  proof (cases "\<exists>chunk nxt s1. log_poll (ws k) (ask k) r (of_int m) s = (Chunk chunk nxt, s1)
      \<and> \<not> (nxt \<le> of_int m \<or> chunk = [] \<or> nxt \<ge> of_int log_limit)")
    case False
    then show ?thesis by (auto split: prod.splits polled.splits)
  next
    case True
    then obtain chunk nxt s1 where poll: "log_poll (ws k) (ask k) r (of_int m) s = (Chunk chunk nxt, s1)"
      and more: "\<not> (nxt \<le> of_int m \<or> chunk = [] \<or> nxt \<ge> of_int log_limit)" by blast
    obtain n where n: "nxt = of_int n"
      using log_poll_whole [OF poll] assms by (auto elim: Ints_cases)
    then have "m < n" "n < log_limit" using more by simp_all
    then have "log_loop ws ask ctxDone r fuel (Suc k) nxt s1 \<noteq> None"
      unfolding n using Suc.prems by (intro Suc.IH) auto
    then show ?thesis using poll more by (auto split: sum.splits)
  qed
qed simp



end
