(* ===== verification/Router.thy ===== *)
theory Router
  imports Monitor
begin

text \<open>
  \<open>routes\<close> and \<open>withCORS\<close> of \<open>cmd/gate/server.go\<close>: from a method and a path to the handler, and the gate's
  response to one request. A \<open>GET\<close> pattern also matches \<open>HEAD\<close>; every administration pattern is wrapped in
  \<open>adminAuth\<close>. The response headers of \<open>withCORS\<close> are the same for every reply and not represented.
\<close>

datatype adminEndpoint =
    CommandMonitor | CommandData | CommandLog | CommandStop
  | AdminIndex | AdminCreateAgent | AdminAgent | AdminToggleAgent | AdminRotateAgentToken | AdminPolicy
  | AdminDeleteAgent | AdminRoots | AdminCreateMCPClient | AdminMCPClient | AdminMCPAgents
  | AdminToggleMCPClient | AdminRotateOAuthSecret | AdminRevokeAccess | AdminDeleteMCPClient

datatype endpoint =
    RootInfo | MCP | ProtectedResource | OAuthServer | Authorize | Token
  | AgentConfig | AgentStreaming | AgentResult | Healthz | AdminPage adminEndpoint

definition mcp_suffixes :: "string list" where
  "mcp_suffixes = [''/mcp'', ''/mcp/v2'', ''/mcp/v3'', ''/mcp/v4'', ''/mcp/v5'']"

text \<open>The patterns with an \<open>{id}\<close> segment, by the segments around it.\<close>

definition agent_page :: "bool \<Rightarrow> bool \<Rightarrow> string list \<Rightarrow> adminEndpoint option" where
  "agent_page get post rest =
    (if get \<and> rest = [] then Some AdminAgent
     else if get \<and> rest = [''commands''] then Some CommandMonitor
     else if get \<and> rest = [''commands'', ''data''] then Some CommandData
     else if get \<and> rest = [''commands'', ''log''] then Some CommandLog
     else if post \<and> rest = [''commands'', ''stop''] then Some CommandStop
     else if post \<and> rest = [''toggle''] then Some AdminToggleAgent
     else if post \<and> rest = [''rotate-agent-token''] then Some AdminRotateAgentToken
     else if post \<and> rest = [''policy''] then Some AdminPolicy
     else if post \<and> rest = [''delete''] then Some AdminDeleteAgent
     else if post \<and> rest = [''roots''] then Some AdminRoots
     else None)"

definition client_page :: "bool \<Rightarrow> bool \<Rightarrow> string list \<Rightarrow> adminEndpoint option" where
  "client_page get post rest =
    (if get \<and> rest = [] then Some AdminMCPClient
     else if post \<and> rest = [''agents''] then Some AdminMCPAgents
     else if post \<and> rest = [''toggle''] then Some AdminToggleMCPClient
     else if post \<and> rest = [''rotate-oauth-secret''] then Some AdminRotateOAuthSecret
     else if post \<and> rest = [''revoke-access''] then Some AdminRevokeAccess
     else if post \<and> rest = [''delete''] then Some AdminDeleteMCPClient
     else None)"

definition admin_page :: "bool \<Rightarrow> bool \<Rightarrow> string list \<Rightarrow> (adminEndpoint \<times> string) option" where
  "admin_page get post segments =
    (case segments of
       [] \<Rightarrow> if get then Some (AdminIndex, []) else None
     | [x] \<Rightarrow> if post \<and> x = ''agents'' then Some (AdminCreateAgent, [])
              else if post \<and> x = ''mcp-clients'' then Some (AdminCreateMCPClient, [])
              else None
     | x # i # rest \<Rightarrow>
         if i = [] then None
         else if x = ''agents'' then map_option (\<lambda>e. (e, i)) (agent_page get post rest)
         else if x = ''mcp-clients'' then map_option (\<lambda>e. (e, i)) (client_page get post rest)
         else None)"

definition route :: "string \<Rightarrow> string \<Rightarrow> (endpoint \<times> string) option" where
  "route meth path =
    (let get = meth \<in> {''GET'', ''HEAD''}; post = (meth = ''POST'')
     in if path = ''/'' then (if get then Some (RootInfo, []) else None)
        else if path \<in> set mcp_suffixes
        then (if get \<or> post \<or> meth = ''DELETE'' then Some (MCP, []) else None)
        else if path \<in> (@) ''/.well-known/oauth-protected-resource'' ` set ([] # mcp_suffixes)
        then (if get then Some (ProtectedResource, []) else None)
        else if path \<in> (@) ''/.well-known/oauth-authorization-server'' ` set ([] # mcp_suffixes)
        then (if get then Some (OAuthServer, []) else None)
        else if path = ''/oauth/authorize'' then (if get then Some (Authorize, []) else None)
        else if path = ''/oauth/token'' then (if post then Some (Token, []) else None)
        else if path = ''/agent/config'' then (if get then Some (AgentConfig, []) else None)
        else if path = ''/agent/stream'' then (if get then Some (AgentStreaming, []) else None)
        else if path = ''/agent/result'' then (if post then Some (AgentResult, []) else None)
        else if path = ''/healthz'' then (if get then Some (Healthz, []) else None)
        else (case Split (CHR ''/'') path of
           _ # a # segments \<Rightarrow>
             if a = ''admin'' then map_option (\<lambda>(e, i). (AdminPage e, i)) (admin_page get post segments) else None
         | _ \<Rightarrow> None))"

text \<open>What the handlers take from outside, in one record: the log download polls many times.\<close>

record outside =
  o_world :: world
  o_ask :: "string \<Rightarrow> callInput"
  o_parseInt :: "string \<Rightarrow> int option"
  o_monitor :: callInput
  o_logWorld :: "nat \<Rightarrow> world"
  o_logAsk :: "nat \<Rightarrow> callInput"
  o_logDone :: "nat \<Rightarrow> bool"
  o_logFuel :: nat

definition serve_log :: "outside \<Rightarrow> httpRequest \<Rightarrow> server \<Rightarrow> reply \<times> server" where
  "serve_log oe r s =
    (case handleCommandLog (o_logWorld oe) (o_logAsk oe) (o_logDone oe) (o_logFuel oe) r s of
       None \<Rightarrow> (Blocked, s)
     | Some (Inl rep, s1) \<Rightarrow> (rep, s1)
     | Some (Inr t, s1) \<Rightarrow> (PlainText t, s1))"

fun admin_handler :: "outside \<Rightarrow> adminEndpoint \<Rightarrow> httpRequest \<Rightarrow> server \<Rightarrow> reply \<times> server" where
  "admin_handler oe CommandMonitor = handleCommandMonitor"
| "admin_handler oe CommandData = handleCommandData (o_world oe) (o_parseInt oe) (o_monitor oe)"
| "admin_handler oe CommandLog = serve_log oe"
| "admin_handler oe CommandStop = handleCommandStop (o_world oe) (o_monitor oe)"
| "admin_handler oe AdminIndex = handleAdminIndex (o_world oe)"
| "admin_handler oe AdminCreateAgent = handleAdminCreateAgent (o_world oe)"
| "admin_handler oe AdminAgent = handleAdminAgent (o_world oe)"
| "admin_handler oe AdminToggleAgent = handleAdminToggleAgent (o_world oe)"
| "admin_handler oe AdminRotateAgentToken = handleAdminRotateAgentToken (o_world oe)"
| "admin_handler oe AdminPolicy = handleAdminPolicy (o_world oe)"
| "admin_handler oe AdminDeleteAgent = handleAdminDeleteAgent (o_world oe)"
| "admin_handler oe AdminRoots = handleAdminRoots (o_world oe)"
| "admin_handler oe AdminCreateMCPClient = handleAdminCreateMCPClient (o_world oe)"
| "admin_handler oe AdminMCPClient = handleAdminMCPClient (o_world oe)"
| "admin_handler oe AdminMCPAgents = handleAdminMCPAgents (o_world oe)"
| "admin_handler oe AdminToggleMCPClient = handleAdminToggleMCPClient (o_world oe)"
| "admin_handler oe AdminRotateOAuthSecret = handleAdminRotateOAuthSecret (o_world oe)"
| "admin_handler oe AdminRevokeAccess = handleAdminRevokeAccess (o_world oe)"
| "admin_handler oe AdminDeleteMCPClient = handleAdminDeleteMCPClient (o_world oe)"

definition rootInfo :: json where
  "rootInfo = JObj [(''service'', JStr ''WebCodex Gate''), (''status'', JStr ''ok''), (''admin'', JStr ''/admin''),
     (''mcp'', JStr ''/mcp'')]"

fun handler :: "outside \<Rightarrow> endpoint \<Rightarrow> httpRequest \<Rightarrow> server \<Rightarrow> reply \<times> server" where
  "handler oe RootInfo r s = (WriteJSON rootInfo, s)"
| "handler oe MCP r s = handleMCP (o_world oe) (o_ask oe) r s"
| "handler oe ProtectedResource r s = (handleProtectedResource r s, s)"
| "handler oe OAuthServer r s = (handleOAuthServer r s, s)"
| "handler oe Authorize r s = handleAuthorize (o_world oe) r s"
| "handler oe Token r s = handleToken (o_world oe) r s"
| "handler oe AgentConfig r s = handleAgentConfig r s"
| "handler oe AgentStreaming r s = handleAgentStream (w_now (o_world oe)) r s"
| "handler oe AgentResult r s = handleAgentResult (w_now (o_world oe)) r s"
| "handler oe Healthz r s =
     (if reachable_db (srv_db s) then WriteStatus 204 else HttpError 503 ''database unavailable'', s)"
| "handler oe (AdminPage e) r s = adminAuth (admin_handler oe e) r s"

definition serve :: "outside \<Rightarrow> httpRequest \<Rightarrow> server \<Rightarrow> reply \<times> server" where
  "serve oe r s =
    (if hr_method r = ''OPTIONS'' then (WriteStatus 204, s)
     else case route (hr_method r) (hr_path r) of
       None \<Rightarrow> (if list_ex (\<lambda>m. route m (hr_path r) \<noteq> None) [''GET'', ''POST'', ''DELETE'']
                then HttpError 405 ''Method Not Allowed'' else HttpError 404 ''404 page not found'', s)
     | Some (e, i) \<Rightarrow> handler oe e (r\<lparr>hr_pathID := i\<rparr>) s)"

end
