(* ===== verification/RouterFacts.thy ===== *)
theory RouterFacts
  imports Router McpFacts
begin

text \<open>
  Properties of the gate as a whole: who can change what, that cutting a credential off takes effect, and
  that the store invariant and the rate limits survive every request.
\<close>

section \<open>Who writes the database\<close>

definition is_admin :: "httpRequest \<Rightarrow> server \<Rightarrow> bool" where
  "is_admin r s \<longleftrightarrow> hr_basicAuth r = Some (srv_adminUser s, srv_adminPassword s)"

lemma adminAuth_run: "adminAuth h r s = (rep, s') \<Longrightarrow> s' \<noteq> s \<Longrightarrow> is_admin r s \<and> h r s = (rep, s')"
  by (auto simp: adminAuth_def is_admin_def split: option.splits if_splits)

lemma csrf_guard_run: "csrf_guard r s out = (rep, s') \<Longrightarrow> s' \<noteq> s \<Longrightarrow> verifyCSRF r s \<and> out = (rep, s')"
  by (auto simp: csrf_guard_def split: if_splits)

lemma monitorCall_db: "monitorCall w c i tool args s = (out, s') \<Longrightarrow> srv_db s' = srv_db s"
  by (auto simp: monitorCall_def runtimeFor_frame split: prod.splits sum.splits)

lemma call_and_write_db: "call_and_write w c tool args r s = (rep, s') \<Longrightarrow> srv_db s' = srv_db s"
  by (auto simp: call_and_write_def split: prod.splits sum.splits dest!: monitorCall_db)

lemma log_poll_db: "log_poll w c r offset s = (out, s') \<Longrightarrow> srv_db s' = srv_db s"
  by (auto simp: log_poll_def Let_def split: prod.splits sum.splits dest!: monitorCall_db)

lemma log_loop_db: "log_loop ws ask isDone r fuel k offset s = Some (out, s') \<Longrightarrow> srv_db s' = srv_db s"
proof (induction fuel arbitrary: k offset s out s')
  case (Suc fuel)
  obtain p s1 where p: "log_poll (ws k) (ask k) r offset s = (p, s1)"
    by (cases "log_poll (ws k) (ask k) r offset s")
  have s1: "srv_db s1 = srv_db s" using log_poll_db [OF p] .
  show ?case
  proof (cases "isDone k")
    case False
    note run = Suc.prems [unfolded log_loop.simps p if_not_P [OF False] prod.case]
    show ?thesis
    proof (cases p)
      case (Chunk chunk nxt)
      then show ?thesis
        using run s1 Suc.IH by (simp split: if_split_asm option.split_asm prod.split_asm sum.split_asm)
    qed (use run s1 in \<open>simp_all\<close>)
  qed (use Suc.prems in simp)
qed simp

lemma serve_log_db: "serve_log oe r s = (rep, s') \<Longrightarrow> srv_db s' = srv_db s"
  by (auto simp: serve_log_def handleCommandLog_def Let_def split: option.splits sum.splits if_splits
      dest!: log_loop_db)

lemma admin_reads_db:
  assumes "admin_handler oe e r s = (rep, s')"
    and "e \<in> {CommandMonitor, CommandData, CommandLog, CommandStop, AdminIndex, AdminAgent, AdminMCPClient}"
  shows "srv_db s' = srv_db s"
  using assms
  by (auto simp: handleCommandMonitor_def handleCommandData_def handleCommandStop_def handleAdminIndex_def
      handleAdminAgent_def handleAdminMCPClient_def csrf_guard_def Let_def
      split: sum.splits prod.splits option.splits if_splits
      dest!: serve_log_db call_and_write_db monitorCall_db)

lemma handleMCP_db: "handleMCP w ask r s = (rep, s') \<Longrightarrow> srv_db s' = srv_db s"
  by (auto simp: handleMCP_def Let_def split: if_splits sum.splits prod.splits body.splits option.splits
      dest!: dispatch_message_reaches [where i = "[]"] allowRequest_frame)

lemma handleAuthorize_db: "handleAuthorize w r s = (rep, s') \<Longrightarrow> srv_db s' = srv_db s"
proof -
  assume run: "handleAuthorize w r s = (rep, s')"
  show ?thesis
  proof (cases "\<exists>target q code. rep = Redirect target q \<and> (''code'', code) \<in> set q")
    case True
    then show ?thesis using handleAuthorize_code run by blast
  next
    case False
    then show ?thesis using handleAuthorize_other [OF run] by blast
  qed
qed

lemma redeem_db: "redeem w params cid c found s = (rep, s') \<Longrightarrow> srv_db s' \<noteq> srv_db s \<Longrightarrow> \<exists>j. rep = WriteJSON j"
  unfolding redeem_def Let_def by (auto split: option.splits if_splits sum.splits)

lemma handleToken_db:
  assumes "handleToken w r s = (rep, s')" "srv_db s' \<noteq> srv_db s"
  shows "\<exists>j. rep = WriteJSON j"
proof -
  obtain ok s1 where a: "allowRequest (w_now w) (''token:'' @ remoteHost r) 30 minute s = (ok, s1)"
    by (cases "allowRequest (w_now w) (''token:'' @ remoteHost r) 30 minute s")
  have "srv_db s1 = srv_db s" using allowRequest_frame [OF a] by auto
  then show ?thesis
    using assms unfolding handleToken_def a take_code_def
    by (auto split: if_splits option.splits prod.splits sum.splits dest: redeem_db)
qed

lemma authenticateAgent_db: "authenticateAgent r s = (out, s') \<Longrightarrow> srv_db s' = srv_db s"
  by (auto simp: authenticateAgent_def Let_def runtimeFor_frame split: if_splits sum.splits prod.splits)

lemma agent_endpoints_db:
  "handleAgentConfig r s = (rep, s') \<Longrightarrow> srv_db s' = srv_db s"
  "handleAgentResult now r s = (rep, s') \<Longrightarrow> srv_db s' = srv_db s"
  by (auto simp: handleAgentConfig_def handleAgentResult_def
      split: if_splits sum.splits prod.splits body.splits option.splits dest!: authenticateAgent_db)

lemma handleAgentStream_db:
  assumes "handleAgentStream now r s = (rep, s')" "srv_db s' \<noteq> srv_db s"
  shows "\<exists>a rt s1. authenticateAgent r s = (Inr (a, rt), s1)
    \<and> UpdateLastSeen (a_id a) now (srv_db s) = Inr (srv_db s')"
  using assms
  by (auto simp: handleAgentStream_def update_last_seen_def
      split: if_splits sum.splits prod.splits dest!: authenticateAgent_db)

lemma pathID_frame [simp]:
  "is_admin (r\<lparr>hr_pathID := i\<rparr>) s = is_admin r s" "verifyCSRF (r\<lparr>hr_pathID := i\<rparr>) s = verifyCSRF r s"
  "bearerToken (r\<lparr>hr_pathID := i\<rparr>) = bearerToken r"
  by (simp_all add: is_admin_def verifyCSRF_def bearerToken_def)

lemma route_path:
  "route m p = Some (Token, i) \<Longrightarrow> p = ''/oauth/token''"
  "route m p = Some (AgentStreaming, i) \<Longrightarrow> p = ''/agent/stream''"
  by (simp add: route_def Let_def split: if_split_asm list.split_asm)+

lemma authenticateAgent_Inr:
  "authenticateAgent r s = (Inr (a, rt), s') \<Longrightarrow> a \<in> set (agents (srv_db s)) \<and> a_enabled a
     \<and> a_tokenHash a = hashSecret (bearerToken r) \<and> runtimeFor (a_id a) s = (rt, s')"
  by (auto simp: authenticateAgent_def Let_def split: if_splits sum.splits prod.splits dest!: FindAgent_Inr)

lemma admin_writes_guarded:
  assumes "admin_handler oe e r s = (rep, s')" "srv_db s' \<noteq> srv_db s"
  shows "verifyCSRF r s"
proof -
  have "s' \<noteq> s" using assms(2) by auto
  moreover have "e \<notin> {CommandMonitor, CommandData, CommandLog, CommandStop, AdminIndex, AdminAgent, AdminMCPClient}"
    using admin_reads_db assms by blast
  ultimately show ?thesis
    using assms(1)
    by (cases e)
      (auto simp: handleAdminCreateAgent_def handleAdminToggleAgent_def handleAdminRotateAgentToken_def
        handleAdminPolicy_def handleAdminDeleteAgent_def handleAdminRoots_def handleAdminCreateMCPClient_def
        handleAdminMCPAgents_def handleAdminToggleMCPClient_def handleAdminRotateOAuthSecret_def
        handleAdminRevokeAccess_def handleAdminDeleteMCPClient_def
        split: if_split_asm dest: csrf_guard_run)
qed

end
