(* ===== verification/Credentials.thy ===== *)
theory Credentials
  imports StoreFacts
begin

text \<open>
  The interface of a credential store: which owner a credential authenticates, and that nothing but issuing
  a credential makes it work. The access tokens of MCP registrations and the tokens of workers both
  provide it, so that a credential cut off once stays dead whatever the store does next.
\<close>

locale credential_store =
  fixes ok :: "'s \<Rightarrow> bool"
    and holder :: "'s \<Rightarrow> string \<Rightarrow> string option"
    and step :: "'e \<Rightarrow> 's \<Rightarrow> 's"
    and issued :: "'e \<Rightarrow> string option"
  assumes step_ok: "ok s \<Longrightarrow> ok (step e s)"
    and step_holder: "ok s \<Longrightarrow> holder (step e s) k = Some p \<Longrightarrow> issued e \<noteq> Some k \<Longrightarrow> holder s k = Some p"
begin

lemma fold_ok: "ok s \<Longrightarrow> ok (fold step es s)"
  by (induction es arbitrary: s) (auto intro: step_ok)

lemma fold_holder:
  "ok s \<Longrightarrow> \<forall>e \<in> set es. issued e \<noteq> Some k \<Longrightarrow> holder (fold step es s) k = Some p \<Longrightarrow> holder s k = Some p"
  by (induction es arbitrary: s) (auto dest: step_ok step_holder)

lemma stays_dead:
  "ok s \<Longrightarrow> \<forall>e \<in> set es. issued e \<noteq> Some k \<Longrightarrow> holder s k \<noteq> Some p \<Longrightarrow> holder (fold step es s) k \<noteq> Some p"
  using fold_holder by blast

end

section \<open>Operations that never fail\<close>

text \<open>A failed operation leaves the database as it was.\<close>

definition or_same :: "(db \<Rightarrow> store_error + db) \<Rightarrow> db \<Rightarrow> db" where
  "or_same f d = (case f d of Inl _ \<Rightarrow> d | Inr d' \<Rightarrow> d')"

definition sound_db :: "db \<Rightarrow> bool" where
  "sound_db d \<longleftrightarrow> consistent d \<and> reachable_db d"

lemma or_same_cases: "(or_same f d = d) \<or> (f d = Inr (or_same f d))"
  by (cases "f d") (simp_all add: or_same_def)

lemma or_same_sound:
  assumes "sound_db d" "\<And>d'. f d = Inr d' \<Longrightarrow> store_step d d'" "\<And>d'. f d = Inr d' \<Longrightarrow> reachable_db d'"
  shows "sound_db (or_same f d)"
  using or_same_cases [of f d] assms consistent_step by (auto simp: sound_db_def)

lemma store_up:
  "CreateAgent now a d = Inr d' \<Longrightarrow> reachable_db d'" "UpdateAgentTokenHash now i h d = Inr d' \<Longrightarrow> reachable_db d'"
  "SetAgentEnabled now i e d = Inr d' \<Longrightarrow> reachable_db d'" "UpdateToolPolicy now i al de d = Inr d' \<Longrightarrow> reachable_db d'"
  "UpdateAllowedRoots now i roots d = Inr d' \<Longrightarrow> reachable_db d'" "UpdateLastSeen i now d = Inr d' \<Longrightarrow> reachable_db d'"
  "DeleteAgent i d = Inr d' \<Longrightarrow> reachable_db d'" "CreateAccessToken now t d = Inr d' \<Longrightarrow> reachable_db d'"
  "RevokeAccessTokens c d = Inr d' \<Longrightarrow> reachable_db d'" "UpdateOAuthSecretHash now c h d = Inr d' \<Longrightarrow> reachable_db d'"
  "SetMCPClientEnabled now c e d = Inr d' \<Longrightarrow> reachable_db d'" "DeleteMCPClient c d = Inr d' \<Longrightarrow> reachable_db d'"
  "DeleteExpiredAccessTokens now d = Inr d' \<Longrightarrow> reachable_db d'"
  by (auto simp: store_update_defs CreateAgent_def CreateAccessToken_def Let_def split: if_splits)

section \<open>Access tokens\<close>

datatype token_event =
    IssueToken time accessToken
  | RevokeTokens string
  | RotateSecret time string string
  | EnableClient time string bool
  | RemoveClient string
  | SweepTokens time

fun token_step :: "token_event \<Rightarrow> db \<Rightarrow> db" where
  "token_step (IssueToken now t) = or_same (CreateAccessToken now t)"
| "token_step (RevokeTokens c) = or_same (RevokeAccessTokens c)"
| "token_step (RotateSecret now c h) = or_same (UpdateOAuthSecretHash now c h)"
| "token_step (EnableClient now c e) = or_same (SetMCPClientEnabled now c e)"
| "token_step (RemoveClient c) = or_same (DeleteMCPClient c)"
| "token_step (SweepTokens now) = or_same (DeleteExpiredAccessTokens now)"

fun token_issued :: "token_event \<Rightarrow> string option" where
  "token_issued (IssueToken now t) = Some (t_hash t)"
| "token_issued _ = None"

definition token_holder :: "db \<Rightarrow> string \<Rightarrow> string option" where
  "token_holder d h = (case FindMCPClientByAccessTokenHash h d of Inl _ \<Rightarrow> None | Inr (c, t) \<Rightarrow> Some (c_id c))"

lemma token_holder_iff:
  assumes "sound_db d"
  shows "token_holder d h = Some p \<longleftrightarrow> (\<exists>t \<in> set (tokens d). t_hash t = h \<and> t_clientID t = p)"
proof
  show "token_holder d h = Some p \<Longrightarrow> \<exists>t \<in> set (tokens d). t_hash t = h \<and> t_clientID t = p"
    by (auto simp: token_holder_def split: sum.splits dest!: FindToken_Inr)
next
  assume "\<exists>t \<in> set (tokens d). t_hash t = h \<and> t_clientID t = p"
  then obtain t where t: "t \<in> set (tokens d)" "t_hash t = h" "t_clientID t = p" by blast
  then obtain c where "c \<in> set (clients d)" "t_clientID t = c_id c"
    using assms unfolding sound_db_def consistent_def by blast
  then show "token_holder d h = Some p"
    using FindToken_complete [of d t c] t assms by (simp add: token_holder_def sound_db_def)
qed

lemma token_step_sound: "sound_db d \<Longrightarrow> sound_db (token_step e d)"
  by (cases e) (auto intro!: or_same_sound intro: store_step.intros store_up)

lemma token_step_tokens:
  "t \<in> set (tokens (token_step e d)) \<Longrightarrow> t \<in> set (tokens d) \<or> token_issued e = Some (t_hash t)"
  by (cases e) (auto simp: or_same_def store_update_defs CreateAccessToken_def Let_def split: sum.splits if_splits)

interpretation access: credential_store sound_db token_holder token_step token_issued
proof unfold_locales
  fix d e h p
  assume d: "sound_db d"
  then show "sound_db (token_step e d)" by (rule token_step_sound)
  assume "token_holder (token_step e d) h = Some p" "token_issued e \<noteq> Some h"
  then obtain t where "t \<in> set (tokens (token_step e d))" "t_hash t = h" "t_clientID t = p"
    using token_holder_iff [OF token_step_sound [OF d]] by blast
  with \<open>token_issued e \<noteq> Some h\<close> show "token_holder d h = Some p"
    using token_step_tokens token_holder_iff [OF d] by blast
qed

text \<open>Revoking a registration's access, rotating its secret or deleting it kills its tokens for good: no
  later sequence of token operations, short of issuing that very token again, makes one authenticate it.\<close>

theorem revoked_tokens_stay_dead:
  assumes "sound_db d"
    and "RevokeAccessTokens c d = Inr d' \<or> UpdateOAuthSecretHash now c secret d = Inr d' \<or> DeleteMCPClient c d = Inr d'"
    and "\<forall>e \<in> set es. token_issued e \<noteq> Some h"
  shows "token_holder (fold token_step es d') h \<noteq> Some c"
proof -
  have "d' = token_step (RevokeTokens c) d \<or> d' = token_step (RotateSecret now c secret) d
      \<or> d' = token_step (RemoveClient c) d"
    using assms(2) by (auto simp: or_same_def)
  then have d': "sound_db d'" using token_step_sound [OF assms(1)] by blast
  have "\<forall>t \<in> set (tokens d'). t_clientID t \<noteq> c"
    using assms(2) by (auto simp: store_update_defs split: if_splits)
  then have "token_holder d' h \<noteq> Some c" using token_holder_iff [OF d'] by blast
  with d' assms(3) show ?thesis by (intro access.stays_dead)
qed

definition revoke_db :: db where
  "revoke_db = \<lparr>agents = [], clients = [\<lparr>c_id = ''c'', c_name = ''C'', c_enabled = True, c_oauthClientID = ''oc'',
     c_secretHash = ''s'', c_createdAt = 1, c_updatedAt = 1\<rparr>],
     tokens = [\<lparr>t_hash = ''h'', t_clientID = ''c'', t_expiresAt = 9, t_createdAt = 1\<rparr>], grants = [], reachable_db = True\<rparr>"

theorem revoked_tokens_stay_dead_witness:
  "token_holder revoke_db ''h'' = Some ''c''
   \<and> (\<exists>d'. RevokeAccessTokens ''c'' revoke_db = Inr d'
        \<and> token_holder (fold token_step [SweepTokens 3, EnableClient 4 ''c'' True] d') ''h'' \<noteq> Some ''c'')"
proof
  have sound: "sound_db revoke_db" by (simp add: sound_db_def consistent_def revoke_db_def)
  show "token_holder revoke_db ''h'' = Some ''c''"
    using token_holder_iff [OF sound] by (simp add: revoke_db_def)
  obtain d' where d': "RevokeAccessTokens ''c'' revoke_db = Inr d'"
    by (simp add: RevokeAccessTokens_def revoke_db_def)
  with revoked_tokens_stay_dead [OF sound disjI1 [OF d'], of "[SweepTokens 3, EnableClient 4 ''c'' True]" "''h''"]
  show "\<exists>d'. RevokeAccessTokens ''c'' revoke_db = Inr d'
        \<and> token_holder (fold token_step [SweepTokens 3, EnableClient 4 ''c'' True] d') ''h'' \<noteq> Some ''c''"
    by simp
qed

section \<open>Tokens of workers\<close>

datatype agent_event =
    IssueAgent time agent
  | RotateAgent time string string
  | EnableAgent time string bool
  | PolicyAgent time string string string
  | RootsAgent time string string
  | SeenAgent string time
  | RemoveAgent string

fun agent_step :: "agent_event \<Rightarrow> db \<Rightarrow> db" where
  "agent_step (IssueAgent now a) = or_same (CreateAgent now a)"
| "agent_step (RotateAgent now i h) = or_same (UpdateAgentTokenHash now i h)"
| "agent_step (EnableAgent now i e) = or_same (SetAgentEnabled now i e)"
| "agent_step (PolicyAgent now i al de) = or_same (UpdateToolPolicy now i al de)"
| "agent_step (RootsAgent now i roots) = or_same (UpdateAllowedRoots now i roots)"
| "agent_step (SeenAgent i now) = or_same (UpdateLastSeen i now)"
| "agent_step (RemoveAgent i) = or_same (DeleteAgent i)"

fun agent_issued :: "agent_event \<Rightarrow> string option" where
  "agent_issued (IssueAgent now a) = Some (a_tokenHash a)"
| "agent_issued (RotateAgent now i h) = Some h"
| "agent_issued _ = None"

definition agent_holder :: "db \<Rightarrow> string \<Rightarrow> string option" where
  "agent_holder d h = (case FindAgentByAgentTokenHash h d of Inl _ \<Rightarrow> None | Inr a \<Rightarrow> Some (a_id a))"

lemma agent_holder_iff:
  assumes "sound_db d"
  shows "agent_holder d h = Some p \<longleftrightarrow> (\<exists>a \<in> set (agents d). a_tokenHash a = h \<and> a_id a = p)"
proof
  show "agent_holder d h = Some p \<Longrightarrow> \<exists>a \<in> set (agents d). a_tokenHash a = h \<and> a_id a = p"
    by (auto simp: agent_holder_def split: sum.splits dest!: FindAgent_Inr)
  show "\<exists>a \<in> set (agents d). a_tokenHash a = h \<and> a_id a = p \<Longrightarrow> agent_holder d h = Some p"
    using FindAgent_complete [of d] assms by (auto simp: agent_holder_def sound_db_def)
qed

lemma agent_step_sound: "sound_db d \<Longrightarrow> sound_db (agent_step e d)"
  by (cases e) (auto intro!: or_same_sound intro: store_step.intros store_up)

lemma agent_step_agents:
  "a \<in> set (agents (agent_step e d)) \<Longrightarrow> agent_issued e \<noteq> Some (a_tokenHash a) \<Longrightarrow>
     \<exists>b \<in> set (agents d). a_tokenHash b = a_tokenHash a \<and> a_id b = a_id a"
  by (cases e; auto simp: or_same_def store_update_defs CreateAgent_def Let_def set_update_rows
      split: sum.splits if_splits; blast)

interpretation workers: credential_store sound_db agent_holder agent_step agent_issued
proof unfold_locales
  fix d e h p
  assume d: "sound_db d"
  then show "sound_db (agent_step e d)" by (rule agent_step_sound)
  assume "agent_holder (agent_step e d) h = Some p" "agent_issued e \<noteq> Some h"
  then obtain a where "a \<in> set (agents (agent_step e d))" "a_tokenHash a = h" "a_id a = p"
    using agent_holder_iff [OF agent_step_sound [OF d]] by blast
  with \<open>agent_issued e \<noteq> Some h\<close> show "agent_holder d h = Some p"
    using agent_step_agents agent_holder_iff [OF d] by blast
qed

lemma rotated_hash:
  assumes "new \<noteq> h"
  shows "\<forall>a \<in> set (update_rows (\<lambda>a. a_id a = i) (\<lambda>a. a\<lparr>a_tokenHash := new, a_updatedAt := now\<rparr>) rows).
    a_id a = i \<longrightarrow> a_tokenHash a \<noteq> h"
  using assms by (induction rows) (simp_all add: update_rows_def)

text \<open>Rotating a worker's token or deleting the worker kills the old token for good: whatever store
  operations follow, it authenticates that worker again only if that very token is issued again.\<close>

theorem worker_token_stays_dead:
  assumes "sound_db d" "agent_holder d h = Some i"
    and "UpdateAgentTokenHash now i new d = Inr d' \<and> new \<noteq> h \<or> DeleteAgent i d = Inr d'"
    and "\<forall>e \<in> set es. agent_issued e \<noteq> Some h"
  shows "agent_holder (fold agent_step es d') h \<noteq> Some i"
proof -
  have "d' = agent_step (RotateAgent now i new) d \<or> d' = agent_step (RemoveAgent i) d"
    using assms(3) by (auto simp: or_same_def)
  then have d': "sound_db d'" using agent_step_sound [OF assms(1)] by blast
  have "\<forall>a \<in> set (agents d'). a_id a = i \<longrightarrow> a_tokenHash a \<noteq> h"
    using assms(3)
  proof (elim disjE conjE)
    assume "UpdateAgentTokenHash now i new d = Inr d'" and new: "new \<noteq> h"
    then have "agents d' = update_rows (\<lambda>a. a_id a = i) (\<lambda>a. a\<lparr>a_tokenHash := new, a_updatedAt := now\<rparr>) (agents d)"
      by (simp add: UpdateAgentTokenHash_def split: if_split_asm) force
    with rotated_hash [OF new] show ?thesis by simp
  next
    assume "DeleteAgent i d = Inr d'"
    then have "agents d' = delete_rows (\<lambda>a. a_id a = i) (agents d)"
      by (simp add: DeleteAgent_def split: if_split_asm) force
    then show ?thesis by simp
  qed
  then have "agent_holder d' h \<noteq> Some i" using agent_holder_iff [OF d'] by blast
  with d' assms(4) show ?thesis by (intro workers.stays_dead)
qed

theorem worker_token_stays_dead_witness:
  "\<exists>d d'. agent_holder d ''h'' = Some ''pc'' \<and> DeleteAgent ''pc'' d = Inr d'
     \<and> agent_holder (fold agent_step [SeenAgent ''pc'' 7, EnableAgent 8 ''pc'' True] d') ''h'' \<noteq> Some ''pc''"
proof -
  let ?d = "empty_db\<lparr>agents := [first_agent]\<rparr>"
  have sound: "sound_db ?d" by (simp add: sound_db_def consistent_def empty_db_def)
  have holder: "agent_holder ?d ''h'' = Some ''pc''"
    using agent_holder_iff [OF sound] by (simp add: first_agent_def)
  obtain d' where d': "DeleteAgent ''pc'' ?d = Inr d'"
    by (simp add: DeleteAgent_def empty_db_def rows_affected_def first_agent_def)
  have "agent_holder (fold agent_step [SeenAgent ''pc'' 7, EnableAgent 8 ''pc'' True] d') ''h'' \<noteq> Some ''pc''"
    by (rule worker_token_stays_dead [OF sound holder disjI2 [OF d']]) simp
  with holder d' show ?thesis by (intro exI [of _ ?d] exI [of _ d'] conjI)
qed

end
