(* ===== verification/AdminFacts.thy ===== *)
theory AdminFacts
  imports RouterFacts Credentials
begin

text \<open>
  What the administrator's actions achieve: a worker that is disabled, rotated or deleted loses its link and
  its old token, and a registration that is revoked, rotated or deleted loses its tokens while the others
  keep theirs.
\<close>

section \<open>Cutting a worker off\<close>

lemma disconnect_existing_offline: "\<not> online i (disconnect_existing i s)"
  by (auto simp: online_def disconnect_existing_def existingRuntime_def put_runtime_def disconnect_def isOnline_def
      split: option.splits)

lemma disconnect_existing_frame [simp]: "srv_db (disconnect_existing i s) = srv_db s"
  by (simp add: disconnect_existing_def split: option.split)

lemma disconnect_existing_cancels:
  assumes "srv_runtimes s i = Some rt" "rt_stream rt = Some stream"
  shows "\<exists>rt'. srv_runtimes (disconnect_existing i s) i = Some rt' \<and> stream \<in> rt_cancelled rt'"
  using assms by (simp add: disconnect_existing_def existingRuntime_def put_runtime_def disconnect_def)

lemma disconnect_existing_db: "srv_runtimes (disconnect_existing i (s\<lparr>srv_db := d\<rparr>)) = srv_runtimes (disconnect_existing i s)"
  by (simp add: disconnect_existing_def existingRuntime_def put_runtime_def split: option.split)

lemma online_cong: "srv_runtimes s = srv_runtimes t \<Longrightarrow> online i s = online i t"
  by (simp add: online_def existingRuntime_def)

text \<open>The outcome of the three actions: the link is cut, and no enabled row of the worker has the old hash.\<close>

definition cut_off :: "string \<Rightarrow> string \<Rightarrow> server \<Rightarrow> server \<Rightarrow> bool" where
  "cut_off i h s s' \<longleftrightarrow> srv_runtimes s' = srv_runtimes (disconnect_existing i s)
     \<and> (\<forall>a \<in> set (agents (srv_db s')). a_id a = i \<longrightarrow> a_tokenHash a = h \<longrightarrow> \<not> a_enabled a)"

lemma all_updated_rows:
  assumes "\<And>r. i r = x \<Longrightarrow> P (f r)"
  shows "\<forall>a \<in> set (update_rows (\<lambda>r. i r = x) f rows). i a = x \<longrightarrow> P a"
proof (intro ballI impI)
  fix a assume "a \<in> set (update_rows (\<lambda>r. i r = x) f rows)" and a: "i a = x"
  then obtain r where "a = (if i r = x then f r else r)" unfolding update_rows_def set_map by (elim imageE)
  with a show "P a" using assms by (cases "i r = x") simp_all
qed

lemma disabled_rows:
  "\<forall>a \<in> set (update_rows (\<lambda>a. a_id a = i) (\<lambda>a. a\<lparr>a_enabled := False, a_updatedAt := now\<rparr>) rows).
     a_id a = i \<longrightarrow> (a_tokenHash a = h \<longrightarrow> \<not> a_enabled a)"
  by (rule all_updated_rows) simp

lemma rehashed_rows:
  "new \<noteq> h \<Longrightarrow> \<forall>a \<in> set (update_rows (\<lambda>a. a_id a = i) (\<lambda>a. a\<lparr>a_tokenHash := new, a_updatedAt := now\<rparr>) rows).
     a_id a = i \<longrightarrow> (a_tokenHash a = h \<longrightarrow> \<not> a_enabled a)"
  by (rule all_updated_rows) simp

lemma cut_offI:
  assumes "s' = disconnect_existing i (s\<lparr>srv_db := d\<rparr>) \<or> s' = (disconnect_existing i s)\<lparr>srv_db := d\<rparr>"
    and "agents d = rows" "\<forall>a \<in> set rows. a_id a = i \<longrightarrow> a_tokenHash a = h \<longrightarrow> \<not> a_enabled a"
  shows "cut_off i h s s'"
  unfolding cut_off_def
proof
  show "srv_runtimes s' = srv_runtimes (disconnect_existing i s)"
    using assms(1) by (auto simp: disconnect_existing_db)
  have "srv_db s' = d" using assms(1) by auto
  then show "\<forall>a \<in> set (agents (srv_db s')). a_id a = i \<longrightarrow> a_tokenHash a = h \<longrightarrow> \<not> a_enabled a"
    unfolding assms(2) [symmetric] using assms(2,3) by blast
qed

lemma toggle_cuts_off:
  assumes "handleAdminToggleAgent w r s = (SeeOther t, s')" "GetAgent (hr_pathID r) (srv_db s) = Inr a" "a_enabled a"
  shows "cut_off (hr_pathID r) h s s'"
proof -
  obtain d where d: "SetAgentEnabled (w_now w) (hr_pathID r) False (srv_db s) = Inr d"
    and s': "s' = disconnect_existing (hr_pathID r) (s\<lparr>srv_db := d\<rparr>)"
    using assms by (auto simp: handleAdminToggleAgent_def csrf_guard_def Let_def split: if_splits sum.splits)
  have "agents d = update_rows (\<lambda>a. a_id a = hr_pathID r)
      (\<lambda>a. a\<lparr>a_enabled := False, a_updatedAt := w_now w\<rparr>) (agents (srv_db s))"
    using d by (simp add: SetAgentEnabled_def split: if_split_asm) force
  from cut_offI [OF disjI1 [OF s'] this disabled_rows] show ?thesis .
qed

lemma rotate_cuts_off:
  assumes "handleAdminRotateAgentToken w r s = (Page (AgentCreatedPage a raw), s')" "hashSecret raw \<noteq> h"
  shows "cut_off (hr_pathID r) h s s'"
proof -
  obtain d where d: "UpdateAgentTokenHash (w_now w) (hr_pathID r) (hashSecret raw) (srv_db s) = Inr d"
    and s': "s' = disconnect_existing (hr_pathID r) (s\<lparr>srv_db := d\<rparr>)"
    using assms by (auto simp: handleAdminRotateAgentToken_def csrf_guard_def Let_def
        split: if_splits sum.splits option.splits)
  have "agents d = update_rows (\<lambda>a. a_id a = hr_pathID r)
      (\<lambda>a. a\<lparr>a_tokenHash := hashSecret raw, a_updatedAt := w_now w\<rparr>) (agents (srv_db s))"
    using d by (simp add: UpdateAgentTokenHash_def split: if_split_asm) force
  from cut_offI [OF disjI1 [OF s'] this rehashed_rows [OF assms(2)]] show ?thesis .
qed

lemma delete_cuts_off:
  assumes "handleAdminDeleteAgent w r s = (SeeOther t, s')"
  shows "cut_off (hr_pathID r) h s s'"
proof -
  obtain d where d: "DeleteAgent (hr_pathID r) (srv_db s) = Inr d"
    and s': "s' = (disconnect_existing (hr_pathID r) s)\<lparr>srv_db := d\<rparr>"
    using assms by (auto simp: handleAdminDeleteAgent_def csrf_guard_def Let_def split: if_splits sum.splits)
  have "agents d = delete_rows (\<lambda>a. a_id a = hr_pathID r) (agents (srv_db s))"
    using d by (simp add: DeleteAgent_def split: if_split_asm) force
  from cut_offI [OF disjI2 [OF s'] this] show ?thesis by simp
qed

text \<open>Disabling, rotating or deleting a worker takes effect at once: its link is offline, the stream it had
  is cancelled, and no request bearing its old token authenticates it.\<close>

theorem worker_cut_off:
  assumes "GetAgent (hr_pathID r) (srv_db s) = Inr a"
    and "handleAdminToggleAgent w r s = (SeeOther t, s') \<and> a_enabled a
       \<or> handleAdminRotateAgentToken w r s = (Page (AgentCreatedPage a raw), s') \<and> hashSecret raw \<noteq> a_tokenHash a
       \<or> handleAdminDeleteAgent w r s = (SeeOther t, s')"
  shows "\<not> online (hr_pathID r) s'
    \<and> (\<forall>rt stream. srv_runtimes s (hr_pathID r) = Some rt \<and> rt_stream rt = Some stream \<longrightarrow>
         (\<exists>rt'. srv_runtimes s' (hr_pathID r) = Some rt' \<and> stream \<in> rt_cancelled rt'))
    \<and> (\<forall>q b rt s2. hashSecret (bearerToken q) = a_tokenHash a \<and> authenticateAgent q s' = (Inr (b, rt), s2) \<longrightarrow>
         a_id b \<noteq> hr_pathID r)"
proof -
  have cut: "cut_off (hr_pathID r) (a_tokenHash a) s s'"
    using assms toggle_cuts_off rotate_cuts_off delete_cuts_off by blast
  then have rts: "srv_runtimes s' = srv_runtimes (disconnect_existing (hr_pathID r) s)"
    by (simp add: cut_off_def)
  have "\<not> online (hr_pathID r) s'"
    using online_cong [OF rts] disconnect_existing_offline by simp
  moreover have "\<exists>rt'. srv_runtimes s' (hr_pathID r) = Some rt' \<and> stream \<in> rt_cancelled rt'"
    if "srv_runtimes s (hr_pathID r) = Some rt \<and> rt_stream rt = Some stream" for rt stream
    unfolding rts using that disconnect_existing_cancels by blast
  moreover have "a_id b \<noteq> hr_pathID r"
    if "hashSecret (bearerToken q) = a_tokenHash a \<and> authenticateAgent q s' = (Inr (b, rt), s2)" for q b rt s2
    using cut authenticateAgent_Inr [of q s' b rt s2] that unfolding cut_off_def by metis
  ultimately show ?thesis by blast
qed

definition cut_server :: server where
  "cut_server = (example_server (empty_db\<lparr>agents := [first_agent]\<rparr>))\<lparr>srv_runtimes := [''pc'' \<mapsto> online_link]\<rparr>"

definition admin_form :: httpRequest where
  "admin_form = (example_request ''POST'' [] BodyUnreadable)\<lparr>hr_form := (\<lambda>_. [])(''csrf'' := ''csrf_x'')\<rparr>"

lemma admin_form_csrf: "verifyCSRF admin_form (example_server d)" "verifyCSRF admin_form cut_server" "is_admin admin_form cut_server"
  by (simp_all add: verifyCSRF_def admin_form_def example_server_def cut_server_def is_admin_def example_request_def)

lemma admin_form_fields: "hr_pathID admin_form = ''pc''" "hr_method admin_form = ''POST''"
  by (simp_all add: admin_form_def example_request_def)

theorem worker_cut_off_witness:
  "\<exists>s'. handleAdminToggleAgent (example_world 9) admin_form cut_server = (SeeOther ''/admin/agents/pc'', s')
     \<and> \<not> online ''pc'' s' \<and> online ''pc'' cut_server"
proof -
  have get: "GetAgent (hr_pathID admin_form) (srv_db cut_server) = Inr first_agent"
    by (simp add: GetAgent_def admin_form_fields cut_server_def example_server_def empty_db_def first_agent_def)
  obtain d where "SetAgentEnabled 9 ''pc'' False (srv_db cut_server) = Inr d"
    by (simp add: SetAgentEnabled_def cut_server_def example_server_def empty_db_def rows_affected_def first_agent_def)
  then obtain s' where run: "handleAdminToggleAgent (example_world 9) admin_form cut_server = (SeeOther ''/admin/agents/pc'', s')"
    using get by (simp add: handleAdminToggleAgent_def csrf_guard_def admin_form_csrf admin_form_fields
        example_world_def first_agent_def Let_def)
  have "a_enabled first_agent" by (simp add: first_agent_def)
  with worker_cut_off [OF get disjI1 [OF conjI [OF run]]] have "\<not> online ''pc'' s'"
    by (simp add: admin_form_fields)
  moreover have "online ''pc'' cut_server"
    by (simp add: online_def existingRuntime_def cut_server_def isOnline_def online_link_def)
  ultimately show ?thesis using run by blast
qed

section \<open>Cutting a registration off\<close>

lemma revoking_db:
  assumes "RevokeAccessTokens i d = Inr d' \<or> UpdateOAuthSecretHash now i h d = Inr d' \<or> DeleteMCPClient i d = Inr d'"
    and "sound_db d"
  shows "sound_db d'" "tokens d' = delete_rows (\<lambda>t. t_clientID t = i) (tokens d)"
    "c_id c \<noteq> i \<Longrightarrow> c \<in> set (clients d') \<longleftrightarrow> c \<in> set (clients d)"
proof -
  have "d' = token_step (RevokeTokens i) d \<or> d' = token_step (RotateSecret now i h) d \<or> d' = token_step (RemoveClient i) d"
    using assms(1) by (auto simp: or_same_def)
  then show "sound_db d'" using token_step_sound [OF assms(2)] by blast
  show "tokens d' = delete_rows (\<lambda>t. t_clientID t = i) (tokens d)"
    using assms(1) by (auto simp: store_update_defs split: if_splits)
  have "clients d' = clients d
      \<or> clients d' = update_rows (\<lambda>c. c_id c = i) (\<lambda>c. c\<lparr>c_secretHash := h, c_updatedAt := now\<rparr>) (clients d)
      \<or> clients d' = delete_rows (\<lambda>c. c_id c = i) (clients d)"
    using assms(1) by (elim disjE) (force simp: store_update_defs split: if_splits)+
  then show "c_id c \<noteq> i \<Longrightarrow> c \<in> set (clients d') \<longleftrightarrow> c \<in> set (clients d)"
    by (elim disjE) (auto simp: update_rows_def image_iff)
qed

lemma revoking_authenticates:
  assumes "RevokeAccessTokens i (srv_db s) = Inr d' \<or> UpdateOAuthSecretHash now i h (srv_db s) = Inr d'
      \<or> DeleteMCPClient i (srv_db s) = Inr d'"
    and "sound_db (srv_db s)"
  shows "authenticateMCP t q (s\<lparr>srv_db := d'\<rparr>) = Inr c \<longleftrightarrow> c_id c \<noteq> i \<and> authenticateMCP t q s = Inr c"
proof -
  note rev = revoking_db [OF assms]
  have "sound_db (srv_db (s\<lparr>srv_db := d'\<rparr>))" using rev(1) by simp
  then show ?thesis
    using authenticateMCP_holds [of "s\<lparr>srv_db := d'\<rparr>" t q c] authenticateMCP_holds [of s t q c] assms(2) rev(2,3)
    by (auto simp: sound_db_def)
qed

text \<open>Revoking a registration's access, rotating its OAuth secret or deleting it cuts off exactly that
  registration: afterwards a request authenticates as a client if and only if it did before and the
  client is another one.\<close>

theorem registration_cut_off:
  assumes "sound_db (srv_db s)"
    and "handleAdminRevokeAccess w r s = (SeeOther t, s') \<or> handleAdminDeleteMCPClient w r s = (SeeOther t, s')
       \<or> handleAdminRotateOAuthSecret w r s = (Page p, s')"
  shows "authenticateMCP now q s' = Inr c \<longleftrightarrow> c_id c \<noteq> hr_pathID r \<and> authenticateMCP now q s = Inr c"
proof -
  have "\<exists>d' h. s' = s\<lparr>srv_db := d'\<rparr> \<and> (RevokeAccessTokens (hr_pathID r) (srv_db s) = Inr d'
     \<or> UpdateOAuthSecretHash (w_now w) (hr_pathID r) h (srv_db s) = Inr d'
     \<or> DeleteMCPClient (hr_pathID r) (srv_db s) = Inr d')"
    using assms(2)
  proof (elim disjE)
    assume "handleAdminRevokeAccess w r s = (SeeOther t, s')"
    then show ?thesis by (auto simp: handleAdminRevokeAccess_def csrf_guard_def split: if_splits sum.splits)
  next
    assume "handleAdminDeleteMCPClient w r s = (SeeOther t, s')"
    then show ?thesis by (auto simp: handleAdminDeleteMCPClient_def csrf_guard_def split: if_splits sum.splits)
  next
    assume "handleAdminRotateOAuthSecret w r s = (Page p, s')"
    then obtain d raw where "UpdateOAuthSecretHash (w_now w) (hr_pathID r) (hashSecret raw) (srv_db s) = Inr d"
      "s' = s\<lparr>srv_db := d\<rparr>"
      by (auto simp: handleAdminRotateOAuthSecret_def csrf_guard_def
          split: if_splits sum.splits option.splits dest!: GetMCPClient_Inr)
    then show ?thesis by (intro exI [of _ d] exI [of _ "hashSecret raw"]) simp
  qed
  then show ?thesis using revoking_authenticates [OF _ assms(1)] by blast
qed

theorem registration_cut_off_witness:
  "authenticateMCP 9 (example_request ''GET'' ''tok'' BodyUnreadable) (example_server example_db) = Inr example_client
   \<and> (\<exists>s'. handleAdminRevokeAccess (example_world 9) (admin_form\<lparr>hr_pathID := ''c''\<rparr>) (example_server example_db)
          = (SeeOther ''/admin/mcp-clients/c'', s')
        \<and> authenticateMCP 9 (example_request ''GET'' ''tok'' BodyUnreadable) s' \<noteq> Inr example_client)"
proof
  show "authenticateMCP 9 (example_request ''GET'' ''tok'' BodyUnreadable) (example_server example_db) = Inr example_client"
    by (rule authenticateMCP_holds [THEN iffD2])
      (simp_all add: bearerToken_example example_server_def,
       simp_all add: example_db_def example_client_def example_token_def)
  have sound: "sound_db (srv_db (example_server example_db))" by (simp add: sound_db_def example_server_def)
  have "verifyCSRF (admin_form\<lparr>hr_pathID := ''c''\<rparr>) (example_server example_db)"
    by (simp add: admin_form_csrf)
  then obtain s' where run: "handleAdminRevokeAccess (example_world 9) (admin_form\<lparr>hr_pathID := ''c''\<rparr>)
      (example_server example_db) = (SeeOther ''/admin/mcp-clients/c'', s')"
    by (simp add: handleAdminRevokeAccess_def csrf_guard_def RevokeAccessTokens_def)
      (simp add: example_server_def example_db_def)
  have "c_id example_client = ''c''" by (simp add: example_client_def)
  with registration_cut_off [OF sound disjI1 [OF run]]
  have "authenticateMCP 9 (example_request ''GET'' ''tok'' BodyUnreadable) s' \<noteq> Inr example_client" by simp
  with run show "\<exists>s'. handleAdminRevokeAccess (example_world 9) (admin_form\<lparr>hr_pathID := ''c''\<rparr>) (example_server example_db)
          = (SeeOther ''/admin/mcp-clients/c'', s')
        \<and> authenticateMCP 9 (example_request ''GET'' ''tok'' BodyUnreadable) s' \<noteq> Inr example_client"
    by blast
qed

section \<open>Instances\<close>

definition example_outside :: outside where
  "example_outside = \<lparr>o_world = example_world 9, o_ask = example_ask, o_parseInt = (\<lambda>_. None),
     o_monitor = example_ask [], o_logWorld = (\<lambda>_. example_world 9), o_logAsk = (\<lambda>_. example_ask []),
     o_logDone = (\<lambda>_. True), o_logFuel = 1\<rparr>"

definition toggle_form :: httpRequest where
  "toggle_form = admin_form\<lparr>hr_path := ''/admin/agents/pc/toggle''\<rparr>"

lemma toggle_route: "route (hr_method toggle_form) (hr_path toggle_form) = Some (AdminPage AdminToggleAgent, ''pc'')"
proof -
  have "route ''POST'' ''/admin/agents/pc/toggle'' = Some (AdminPage AdminToggleAgent, ''pc'')" by code_simp
  then show ?thesis by (simp add: toggle_form_def admin_form_def example_request_def)
qed

section \<open>Who writes the database\<close>



end
