(* ===== verification/Utf8.thy ===== *)
theory Utf8
  imports Prelude
begin

text \<open>
  UTF-8 text on the agent (\<open>cmd/agent/native_executor.go\<close>): validity as \<open>unicode/utf8\<close> of the Go standard
  library decides it, cutting a string at a rune boundary, and the test for binary data.
\<close>

section \<open>Validity\<close>

text \<open>
  The ranges of the bytes after a first byte of value \<open>n\<close>; None when no rune starts with it. Overlong
  encodings, surrogates and values above U+10FFFF are excluded by the range of the second byte.
\<close>

definition tail_ranges :: "nat \<Rightarrow> (nat \<times> nat) list option" where
  "tail_ranges n =
    (let c = (0x80, 0xBF)
     in if n < 0x80 then Some []
        else if n < 0xC2 then None
        else if n < 0xE0 then Some [c]
        else if n = 0xE0 then Some [(0xA0, 0xBF), c]
        else if n = 0xED then Some [(0x80, 0x9F), c]
        else if n < 0xF0 then Some [c, c]
        else if n = 0xF0 then Some [(0x90, 0xBF), c, c]
        else if n < 0xF4 then Some [c, c, c]
        else if n = 0xF4 then Some [(0x80, 0x8F), c, c]
        else None)"

fun starts_in :: "(nat \<times> nat) list \<Rightarrow> string \<Rightarrow> bool" where
  "starts_in [] s = True"
| "starts_in ((l, h) # rs) (c # s) = (l \<le> of_char c \<and> of_char c \<le> h \<and> starts_in rs s)"
| "starts_in (r # rs) [] = False"

text \<open>The length of the rune a string starts with, 0 when it starts with none.\<close>

fun rune_len :: "string \<Rightarrow> nat" where
  "rune_len [] = 0"
| "rune_len (b # s) =
    (case tail_ranges (of_char b) of
       None \<Rightarrow> 0
     | Some rs \<Rightarrow> if starts_in rs s then Suc (length rs) else 0)"

function valid_utf8 :: "string \<Rightarrow> bool" where
  "valid_utf8 s =
    (if s = [] then True else if rune_len s = 0 then False else valid_utf8 (drop (rune_len s) s))"
  by pat_completeness auto
termination
  by (relation "measure length") (auto simp: neq_Nil_conv)

declare valid_utf8.simps [simp del]

lemma valid_iff: "valid_utf8 s \<longleftrightarrow> s = [] \<or> 0 < rune_len s \<and> valid_utf8 (drop (rune_len s) s)"
  using valid_utf8.simps [of s] by (simp split: if_split_asm)

lemma valid_Nil [simp]: "valid_utf8 []"
  by (simp add: valid_utf8.simps)

lemma starts_in_length: "starts_in rs s \<Longrightarrow> length rs \<le> length s"
  by (induction rs s rule: starts_in.induct) auto

lemma starts_in_take: "starts_in rs (take k s) \<longleftrightarrow> starts_in rs s \<and> length rs \<le> k"
proof (induction rs s arbitrary: k rule: starts_in.induct)
  case (2 l h rs c s)
  then show ?case by (cases k) auto
qed auto

lemma starts_in_append: "length rs \<le> length s \<Longrightarrow> starts_in rs (s @ t) \<longleftrightarrow> starts_in rs s"
  by (induction rs s rule: starts_in.induct) auto

lemma tail_ranges_length: "tail_ranges n = Some rs \<Longrightarrow> length rs \<le> 3"
  by (auto simp: tail_ranges_def Let_def split: if_splits)

lemma rune_len_le: "rune_len s \<le> length s" "rune_len s \<le> 4"
  by (cases s; auto split: option.splits dest: starts_in_length tail_ranges_length)+

lemma rune_len_take: "rune_len (take k s) = (if rune_len s \<le> k then rune_len s else 0)"
proof (cases s)
  case (Cons b t)
  then show ?thesis by (cases k) (auto split: option.splits simp: starts_in_take)
qed simp

lemma rune_len_append: "0 < rune_len s \<Longrightarrow> rune_len (s @ t) = rune_len s"
  by (cases s) (auto split: option.splits if_splits simp: starts_in_append dest: starts_in_length)

lemma valid_append: "valid_utf8 s \<Longrightarrow> valid_utf8 (s @ t) \<longleftrightarrow> valid_utf8 t"
proof (induction s rule: valid_utf8.induct)
  case (1 s)
  show ?case
  proof (cases "s = []")
    case False
    then have n: "0 < rune_len s" "valid_utf8 (drop (rune_len s) s)"
      using "1.prems" valid_iff [of s] by auto
    have "valid_utf8 (s @ t) \<longleftrightarrow> valid_utf8 (drop (rune_len s) s @ t)"
      using valid_iff [of "s @ t"] rune_len_append [OF n(1)] n(1) rune_len_le(1) [of s] False by simp
    also have "\<dots> \<longleftrightarrow> valid_utf8 t" using "1.IH" n False by simp
    finally show ?thesis .
  qed simp
qed

lemma valid_rune: "0 < rune_len s \<Longrightarrow> valid_utf8 (take (rune_len s) s)"
  using valid_iff [of "take (rune_len s) s"] by (simp add: rune_len_take)

text \<open>The prefixes of a valid string that are valid lie at most three bytes apart.\<close>

lemma valid_near: "valid_utf8 s \<Longrightarrow> k \<le> length s \<Longrightarrow> \<exists>m. k \<le> m + 3 \<and> m \<le> k \<and> valid_utf8 (take m s)"
proof (induction s arbitrary: k rule: valid_utf8.induct)
  case (1 s)
  show ?case
  proof (cases "k < rune_len s \<or> s = []")
    case True
    then show ?thesis using rune_len_le(2) [of s] "1.prems"(2) by (intro exI [of _ 0]) auto
  next
    case False
    then have n: "0 < rune_len s" "valid_utf8 (drop (rune_len s) s)"
      using "1.prems" valid_iff [of s] by auto
    obtain m where m: "k - rune_len s \<le> m + 3" "m \<le> k - rune_len s" "valid_utf8 (take m (drop (rune_len s) s))"
      using "1.IH" [of "k - rune_len s"] n "1.prems"(2) False by (auto simp: diff_le_mono)
    have "take (rune_len s + m) s = take (rune_len s) s @ take m (drop (rune_len s) s)"
      by (rule take_add)
    then have "valid_utf8 (take (rune_len s + m) s)" using valid_rune [OF n(1)] m(3) valid_append by simp
    then show ?thesis using m(1,2) False by (intro exI [of _ "rune_len s + m"]) auto
  qed
qed

section \<open>Cutting at a boundary\<close>

text \<open>The loop that steps back from \<open>cut\<close> to the longest prefix that is valid.\<close>

fun valid_cut :: "nat \<Rightarrow> string \<Rightarrow> nat" where
  "valid_cut 0 s = 0"
| "valid_cut (Suc k) s = (if valid_utf8 (take (Suc k) s) then Suc k else valid_cut k s)"

lemma valid_cut_le: "valid_cut k s \<le> k"
  by (induction k) auto

lemma valid_cut_valid: "valid_utf8 (take (valid_cut k s) s)"
  by (induction k) auto

lemma valid_cut_longest: "m \<le> k \<Longrightarrow> valid_utf8 (take m s) \<Longrightarrow> m \<le> valid_cut k s"
  by (induction k) (auto simp: le_Suc_eq)

lemma valid_cut_near: "valid_utf8 s \<Longrightarrow> k \<le> length s \<Longrightarrow> k \<le> valid_cut k s + 3"
proof -
  assume "valid_utf8 s" "k \<le> length s"
  then obtain m where "k \<le> m + 3" "m \<le> k" "valid_utf8 (take m s)" using valid_near by blast
  then show ?thesis using valid_cut_longest [of m k s] by simp
qed

lemma valid_cut_drop: "valid_utf8 s \<Longrightarrow> valid_utf8 (drop (valid_cut k s) s)"
  using valid_append [OF valid_cut_valid] by (metis append_take_drop_id)

definition truncateUTF8 :: "string \<Rightarrow> nat \<Rightarrow> string \<times> bool" where
  "truncateUTF8 value maxBytes =
    (if length value \<le> maxBytes then (value, False)
     else (take (valid_cut maxBytes value) value, True))"

definition isBinary :: "string \<Rightarrow> bool" where
  "isBinary data \<longleftrightarrow> CHR 0x00 \<in> set data \<or> \<not> valid_utf8 data"

text \<open>Cutting a text to a number of bytes keeps a prefix that fits; of a valid text the result is valid,
  no longer valid prefix fits, and at most three bytes of the room are left unused.\<close>

theorem truncateUTF8_longest:
  assumes "truncateUTF8 s n = (t, short)"
  shows "prefix t s \<and> length t \<le> n \<and> (short \<longleftrightarrow> n < length s)
    \<and> (valid_utf8 s \<longrightarrow> valid_utf8 t \<and> (short \<longrightarrow> n \<le> length t + 3)
         \<and> (\<forall>u. prefix u s \<and> length u \<le> n \<and> valid_utf8 u \<longrightarrow> prefix u t))"
proof (cases "length s \<le> n")
  case False
  let ?m = "valid_cut n s"
  have t: "t = take ?m s" "short" using assms False by (auto simp: truncateUTF8_def)
  have len: "length t = ?m" using t valid_cut_le [of n s] False by simp
  have "prefix u t" if "prefix u s" "length u \<le> n" "valid_utf8 u" for u
  proof -
    have "u = take (length u) s" using that(1) by (auto simp: prefix_def)
    with that valid_cut_longest [of "length u" n s] have "length u \<le> ?m" by simp
    then show ?thesis using \<open>u = take (length u) s\<close> t(1) by (metis min.absorb1 take_is_prefix take_take)
  qed
  then show ?thesis
    using t len valid_cut_le [of n s] valid_cut_valid [of n s] valid_cut_near [of s n] False
    by (auto simp: take_is_prefix)
qed (use assms in \<open>auto simp: truncateUTF8_def\<close>)

theorem truncateUTF8_longest_witness:
  "truncateUTF8 [CHR ''a'', CHR 0xE2, CHR 0x82, CHR 0xAC] 3 = (''a'', True) \<and> prefix ''a'' [CHR ''a'', CHR 0xE2, CHR 0x82, CHR 0xAC]"
proof
  show run: "truncateUTF8 [CHR ''a'', CHR 0xE2, CHR 0x82, CHR 0xAC] 3 = (''a'', True)" by code_simp
  show "prefix ''a'' [CHR ''a'', CHR 0xE2, CHR 0x82, CHR 0xAC]" using truncateUTF8_longest [OF run] by simp
qed

end
