(* ===== verification/FileSystem.thy ===== *)
theory FileSystem
  imports Prelude
begin

text \<open>
  The file system as the agent uses it through the packages \<open>os\<close> and \<open>path/filepath\<close> of the Go standard
  library on Unix. A path is the list of the components of its cleaned absolute text, so the root directory
  is the empty list; the entries are an association list in which every entry lies in a directory.
\<close>

section \<open>Paths\<close>

type_synonym path = "string list"

definition IsAbs :: "string \<Rightarrow> bool" where
  "IsAbs raw \<longleftrightarrow> HasPrefix raw ''/''"

text \<open>\<open>filepath.Clean\<close> of an absolute path: empty and dot components go, a double dot drops the one before.\<close>

fun clean_parts :: "path \<Rightarrow> string list \<Rightarrow> path" where
  "clean_parts acc [] = rev acc"
| "clean_parts acc (c # cs) =
    (if c = [] \<or> c = ''.'' then clean_parts acc cs
     else if c = ''..'' then clean_parts (drop 1 acc) cs
     else clean_parts (c # acc) cs)"

definition Clean :: "string \<Rightarrow> path" where
  "Clean raw = clean_parts [] (Split (CHR ''/'') raw)"

definition clean_component :: "string \<Rightarrow> bool" where
  "clean_component c \<longleftrightarrow> c \<noteq> [] \<and> c \<noteq> ''.'' \<and> c \<noteq> ''..'' \<and> CHR ''/'' \<notin> set c"

lemma clean_parts_clean:
  "list_all clean_component acc \<Longrightarrow> list_all (\<lambda>c. CHR ''/'' \<notin> set c) cs
     \<Longrightarrow> list_all clean_component (clean_parts acc cs)"
proof (induction acc cs rule: clean_parts.induct)
  case (2 acc c cs)
  then show ?case by (cases acc) (auto simp: clean_component_def)
qed (simp add: list_all_iff)

lemma Clean_clean: "list_all clean_component (Clean raw)"
  unfolding Clean_def
  by (rule clean_parts_clean) (auto simp: list_all_iff dest: Split_no_sep)

text \<open>
  \<open>filepath.Rel\<close> between two clean absolute paths: a double dot for every component of the base that is
  left after the common part, then the rest of the target.
\<close>

fun Rel :: "path \<Rightarrow> path \<Rightarrow> path" where
  "Rel (b # base) (t # targ) = (if b = t then Rel base targ else ''..'' # replicate (length base) ''..'' @ t # targ)"
| "Rel base targ = replicate (length base) ''..'' @ targ"

lemma Rel_prefix:
  "list_all clean_component targ \<Longrightarrow> take 1 (Rel base targ) \<noteq> [''..''] \<longleftrightarrow> prefix base targ"
proof (induction base arbitrary: targ)
  case Nil
  then show ?case by (cases targ) (auto simp: clean_component_def)
next
  case (Cons b base)
  then show ?case by (cases targ) (auto simp: clean_component_def)
qed

section \<open>Entries\<close>

text \<open>A link holds whether its target is absolute and the components of the target, dots included.\<close>

datatype node = File string | Dir | Link bool "string list" | Special

type_synonym fs = "(path \<times> node) list"

definition node_at :: "fs \<Rightarrow> path \<Rightarrow> node option" where
  "node_at fs p = (if p = [] then Some Dir else map_of fs p)"

definition tree :: "fs \<Rightarrow> bool" where
  "tree fs \<longleftrightarrow> list_all (\<lambda>(p, _). p \<noteq> [] \<and> list_all clean_component p \<and> node_at fs (butlast p) = Some Dir) fs"

lemma node_at_Nil [simp]: "node_at fs [] = Some Dir"
  by (simp add: node_at_def)

lemma tree_parent: "tree fs \<Longrightarrow> node_at fs p = Some n \<Longrightarrow> p \<noteq> [] \<Longrightarrow> node_at fs (butlast p) = Some Dir"
  by (auto simp: tree_def node_at_def list_all_iff dest!: map_of_SomeD split: if_splits)

lemma tree_prefix: "tree fs \<Longrightarrow> node_at fs (p @ q) = Some n \<Longrightarrow> q \<noteq> [] \<Longrightarrow> node_at fs p = Some Dir"
proof (induction q arbitrary: n rule: rev_induct)
  case (snoc c q)
  then have "node_at fs (p @ q) = Some Dir" using tree_parent [of fs "p @ q @ [c]"] by (simp add: butlast_append)
  then show ?case using snoc by (cases "q = []") simp_all
qed simp

lemma node_at_update [simp]:
  "q \<noteq> [] \<Longrightarrow> node_at (AList.update q n fs) p = (if p = q then Some n else node_at fs p)"
  by (simp add: node_at_def)

lemma node_at_delete [simp]:
  "q \<noteq> [] \<Longrightarrow> node_at (AList.delete q fs) p = (if p = q then None else node_at fs p)"
  by (simp add: node_at_def)

section \<open>Following links\<close>

datatype os_error = NotExist | NotDirectory | TooManyLinks | Denied

text \<open>\<open>filepath.EvalSymlinks\<close>: the walk from a directory already resolved; 255 links at most.\<close>

function walk :: "fs \<Rightarrow> nat \<Rightarrow> path \<Rightarrow> string list \<Rightarrow> os_error + path" where
  "walk fs links dir [] = Inr dir"
| "walk fs links dir (c # cs) =
    (if c = [] \<or> c = ''.'' then walk fs links dir cs
     else if c = ''..'' then walk fs links (butlast dir) cs
     else (case node_at fs (dir @ [c]) of
       None \<Rightarrow> Inl NotExist
     | Some (Link absolute target) \<Rightarrow>
         (case links of
            0 \<Rightarrow> Inl TooManyLinks
          | Suc k \<Rightarrow> walk fs k (if absolute then [] else dir) (target @ cs))
     | Some Dir \<Rightarrow> walk fs links (dir @ [c]) cs
     | Some _ \<Rightarrow> if cs = [] then Inr (dir @ [c]) else Inl NotDirectory))"
  by pat_completeness auto
termination
  by (relation "measures [\<lambda>(fs, links, dir, cs). links, \<lambda>(fs, links, dir, cs). length cs]") auto

definition EvalSymlinks :: "fs \<Rightarrow> path \<Rightarrow> os_error + path" where
  "EvalSymlinks fs p = walk fs 255 [] p"

text \<open>A path that exists and contains no link.\<close>

definition physical :: "fs \<Rightarrow> path \<Rightarrow> bool" where
  "physical fs p \<longleftrightarrow> list_all clean_component p \<and> (p \<noteq> [] \<longrightarrow> node_at fs (butlast p) = Some Dir)
     \<and> (\<exists>n. node_at fs p = Some n \<and> (\<forall>a t. n \<noteq> Link a t))"

lemma physical_butlast: "tree fs \<Longrightarrow> physical fs p \<Longrightarrow> physical fs (butlast p) \<and> node_at fs (butlast p) = Some Dir"
proof -
  assume t: "tree fs" "physical fs p"
  have "node_at fs (butlast p) = Some Dir" using t(2) by (cases "p = []") (auto simp: physical_def)
  moreover from this have "butlast p \<noteq> [] \<longrightarrow> node_at fs (butlast (butlast p)) = Some Dir"
    using tree_parent [OF t(1)] by blast
  ultimately show ?thesis using t(2) by (auto simp: physical_def list_all_iff dest: in_set_butlastD)
qed

lemma walk_physical:
  assumes "tree fs" "walk fs links dir cs = Inr q" "physical fs dir" "node_at fs dir = Some Dir"
    "list_all (\<lambda>c. CHR ''/'' \<notin> set c) cs"
    "\<And>p a t. node_at fs p = Some (Link a t) \<Longrightarrow> list_all (\<lambda>c. CHR ''/'' \<notin> set c) t"
  shows "physical fs q"
  using assms
proof (induction fs links dir cs rule: walk.induct)
  case (2 fs links dir c cs)
  show ?case
  proof (cases "c = [] \<or> c = ''.'' \<or> c = ''..''")
    case True
    then show ?thesis using 2 physical_butlast [OF 2(5,7)] by (auto split: if_splits)
  next
    case False
    then have c: "clean_component c" using 2(9) by (simp add: clean_component_def)
    have r: "physical fs (dir @ [c])" if "node_at fs (dir @ [c]) = Some n" "\<forall>a t. n \<noteq> Link a t" for n
      using that c 2(7,8) by (auto simp: physical_def)
    show ?thesis
    proof (cases "node_at fs (dir @ [c])")
      case None
      then show ?thesis using False 2(6) by simp
    next
      case (Some n)
      then show ?thesis
      proof (cases n)
        case (Link absolute target)
        then obtain k where k: "links = Suc k" using False 2(6) Some by (cases links) simp_all
        have "list_all (\<lambda>c. CHR ''/'' \<notin> set c) target" using 2(10) Some Link by blast
        then show ?thesis
          using False Some Link k 2 by (cases absolute) (simp_all add: physical_def)
      next
        case Dir
        have "physical fs (dir @ [c])" using r Some Dir by simp
        then show ?thesis using False Some Dir 2 by simp
      qed (use False Some 2(6) r in \<open>auto split: if_splits\<close>)
    qed
  qed
qed simp

lemma walk_physical_self:
  "physical fs (dir @ cs) \<Longrightarrow> tree fs \<Longrightarrow> walk fs links dir cs = Inr (dir @ cs)"
proof (induction cs arbitrary: dir)
  case (Cons c cs)
  have c: "clean_component c" using Cons.prems(1) by (simp add: physical_def)
  show ?case
  proof (cases "cs = []")
    case True
    obtain n where "node_at fs (dir @ [c]) = Some n" "\<forall>a t. n \<noteq> Link a t"
      using Cons.prems(1) True by (auto simp: physical_def)
    then show ?thesis using c True by (cases n) (auto simp: clean_component_def)
  next
    case False
    obtain n where "node_at fs (dir @ c # cs) = Some n" using Cons.prems(1) by (auto simp: physical_def)
    then have "node_at fs (dir @ [c]) = Some Dir" using tree_prefix [OF Cons.prems(2), of "dir @ [c]" cs n] False by simp
    then show ?thesis using Cons.IH [of "dir @ [c]"] Cons.prems c by (simp add: clean_component_def)
  qed
qed simp

lemma EvalSymlinks_physical: "physical fs p \<Longrightarrow> tree fs \<Longrightarrow> EvalSymlinks fs p = Inr p"
  using walk_physical_self [of fs "[]" p] by (simp add: EvalSymlinks_def)

text \<open>More links allowed change no answer, a failure stays one when more components follow, and a walk may start
  at a directory that is already resolved.\<close>

lemma walk_more: "walk fs links dir cs = r \<Longrightarrow> r \<noteq> Inl TooManyLinks \<Longrightarrow> walk fs (links + k) dir cs = r"
  by (induction fs links dir cs rule: walk.induct)
    (auto split: if_splits option.splits node.splits nat.splits)

lemma walk_fails: "walk fs links dir cs = Inl e \<Longrightarrow> walk fs links dir (cs @ ds) = Inl e"
  by (induction fs links dir cs rule: walk.induct)
    (auto split: if_splits option.splits node.splits nat.splits)

lemma walk_from:
  "physical fs (dir @ cs) \<Longrightarrow> tree fs \<Longrightarrow> node_at fs (dir @ cs) = Some Dir \<Longrightarrow>
     walk fs links dir (cs @ ds) = walk fs links (dir @ cs) ds"
proof (induction cs arbitrary: dir)
  case (Cons c cs)
  have c: "clean_component c" using Cons.prems(1) by (simp add: physical_def)
  have "node_at fs (dir @ [c]) = Some Dir"
    using tree_prefix [OF Cons.prems(2), of "dir @ [c]" cs Dir] Cons.prems(3) by (cases "cs = []") simp_all
  then show ?case using Cons.IH [of "dir @ [c]"] Cons.prems c by (simp add: clean_component_def)
qed simp

lemma EvalSymlinks_from:
  "physical fs q \<Longrightarrow> tree fs \<Longrightarrow> node_at fs q = Some Dir \<Longrightarrow> EvalSymlinks fs (q @ ds) = walk fs 255 q ds"
  using walk_from [of fs "[]" q 255 ds] by (simp add: EvalSymlinks_def)

section \<open>System calls\<close>

text \<open>The place a path names when its last component is not followed.\<close>

definition place :: "fs \<Rightarrow> path \<Rightarrow> os_error + path" where
  "place fs p =
    (if p = [] then Inr []
     else (case EvalSymlinks fs (butlast p) of
       Inl e \<Rightarrow> Inl e
     | Inr d \<Rightarrow> if node_at fs d = Some Dir then Inr (d @ [last p]) else Inl NotDirectory))"

definition Lstat :: "fs \<Rightarrow> path \<Rightarrow> os_error + node" where
  "Lstat fs p =
    (case place fs p of
       Inl e \<Rightarrow> Inl e
     | Inr q \<Rightarrow> (case node_at fs q of None \<Rightarrow> Inl NotExist | Some n \<Rightarrow> Inr n))"

definition Stat :: "fs \<Rightarrow> path \<Rightarrow> os_error + node" where
  "Stat fs p =
    (case EvalSymlinks fs p of
       Inl e \<Rightarrow> Inl e
     | Inr q \<Rightarrow> (case node_at fs q of None \<Rightarrow> Inl NotExist | Some n \<Rightarrow> Inr n))"

text \<open>The names in a directory, in the order of the entries.\<close>

definition entries_of :: "fs \<Rightarrow> path \<Rightarrow> string list" where
  "entries_of fs d = map (\<lambda>(p, _). last p) (filter (\<lambda>(p, _). p \<noteq> [] \<and> butlast p = d) fs)"

definition Readdirnames :: "fs \<Rightarrow> path \<Rightarrow> os_error + string list" where
  "Readdirnames fs p =
    (case EvalSymlinks fs p of
       Inl e \<Rightarrow> Inl e
     | Inr d \<Rightarrow> if node_at fs d = Some Dir then Inr (entries_of fs d) else Inl NotDirectory)"

text \<open>\<open>os.MkdirAll\<close>: whether it succeeded, and what it made until then.\<close>

definition Mkdir :: "fs \<Rightarrow> path \<Rightarrow> bool \<times> fs" where
  "Mkdir fs p =
    (case place fs p of
       Inl _ \<Rightarrow> (False, fs)
     | Inr q \<Rightarrow> (case node_at fs q of None \<Rightarrow> (True, AList.update q Dir fs) | Some n \<Rightarrow> (n = Dir, fs)))"

function MkdirAll :: "fs \<Rightarrow> path \<Rightarrow> bool \<times> fs" where
  "MkdirAll fs p =
    (case Stat fs p of
       Inr n \<Rightarrow> (n = Dir, fs)
     | Inl _ \<Rightarrow>
        if p = [] then (False, fs)
        else (case MkdirAll fs (butlast p) of (ok, fs1) \<Rightarrow> if ok then Mkdir fs1 p else (False, fs1)))"
  by pat_completeness auto
termination
  by (relation "measure (\<lambda>(fs, p). length p)") auto

declare MkdirAll.simps [simp del]

text \<open>
  Writing a temporary file beside the target and renaming it over the target: the target must not be a
  directory. Linking it instead fails when the target exists.
\<close>

definition rename_over :: "fs \<Rightarrow> path \<Rightarrow> string \<Rightarrow> fs option" where
  "rename_over fs p data =
    (case place fs p of
       Inl _ \<Rightarrow> None
     | Inr q \<Rightarrow> if q = [] \<or> node_at fs q = Some Dir then None else Some (AList.update q (File data) fs))"

definition link_new :: "fs \<Rightarrow> path \<Rightarrow> string \<Rightarrow> os_error + fs option" where
  "link_new fs p data =
    (case place fs p of
       Inl e \<Rightarrow> Inl e
     | Inr q \<Rightarrow> if node_at fs q \<noteq> None then Inr None else Inr (Some (AList.update q (File data) fs)))"

text \<open>
  Removing an entry, a directory only when it is empty. Moving one replaces a target that is not a
  directory; only files and empty directories are ever moved, so no entry lies below the source.
\<close>

definition Remove :: "fs \<Rightarrow> path \<Rightarrow> fs option" where
  "Remove fs p =
    (case place fs p of
       Inl _ \<Rightarrow> None
     | Inr q \<Rightarrow> if q = [] \<or> node_at fs q = None \<or> (node_at fs q = Some Dir \<and> entries_of fs q \<noteq> []) then None
              else Some (AList.delete q fs))"

definition Rename :: "fs \<Rightarrow> path \<Rightarrow> path \<Rightarrow> fs option" where
  "Rename fs p r =
    (case (place fs p, place fs r) of
       (Inr q, Inr t) \<Rightarrow>
         (case node_at fs q of
            None \<Rightarrow> None
          | Some n \<Rightarrow>
              if q = [] \<or> t = [] \<or> node_at fs t = Some Dir \<or> (n = Dir \<and> node_at fs t \<noteq> None)
                 \<or> entries_of fs q \<noteq> [] \<or> strict_prefix q t then None
              else Some (AList.update t n (AList.delete q fs)))
     | _ \<Rightarrow> None)"

lemmas syscall_defs = Mkdir_def rename_over_def link_new_def Remove_def Rename_def

lemma place_physical:
  assumes "tree fs" "physical fs d" "node_at fs d = Some Dir"
  shows "place fs (d @ [c]) = Inr (d @ [c])"
  using assms EvalSymlinks_physical by (simp add: place_def)

lemma Stat_physical: "tree fs \<Longrightarrow> physical fs p \<Longrightarrow> Stat fs p = Inr (the (node_at fs p))"
  by (auto simp: Stat_def EvalSymlinks_physical physical_def)

lemma place_physical_path: "tree fs \<Longrightarrow> physical fs p \<Longrightarrow> place fs p = Inr p"
proof (cases "p = []")
  case False
  assume "tree fs" "physical fs p"
  then have "place fs (butlast p @ [last p]) = Inr (butlast p @ [last p])"
    using physical_butlast place_physical by blast
  then show ?thesis using False by simp
qed (simp add: place_def)

lemma Lstat_physical: "tree fs \<Longrightarrow> physical fs p \<Longrightarrow> Lstat fs p = Inr (the (node_at fs p))"
  by (auto simp: Lstat_def place_physical_path physical_def)

end
