(* ===== verification/AgentArgs.thy ===== *)
theory AgentArgs
  imports Json Utf8 FileSystem
begin

text \<open>
  \<open>cmd/agent/native_executor.go\<close>: errors of a tool call, the readers of its arguments, and the resolution of
  a path against the allowed roots. Arguments are the members of a decoded object. The text of the cause an
  error wraps is not represented.
\<close>

section \<open>Errors and arguments\<close>

record codedError =
  ce_code :: string
  ce_message :: string

definition toolErr :: "string \<Rightarrow> string \<Rightarrow> codedError" where
  "toolErr code message = \<lparr>ce_code = code, ce_message = message\<rparr>"

type_synonym 'a result = "codedError + 'a"

definition bind_result :: "'a result \<Rightarrow> ('a \<Rightarrow> 'b result) \<Rightarrow> 'b result" where
  "bind_result r f = (case r of Inl e \<Rightarrow> Inl e | Inr x \<Rightarrow> f x)"

lemma bind_result_simps [simp]: "bind_result (Inl e) f = Inl e" "bind_result (Inr x) f = f x"
  by (simp_all add: bind_result_def)

lemma bind_result_Inr: "bind_result r f = Inr y \<longleftrightarrow> (\<exists>x. r = Inr x \<and> f x = Inr y)"
  by (cases r) auto

lemma case_sum_Inr:
  "(case s of Inl e \<Rightarrow> f e | Inr x \<Rightarrow> g x) = Inr y \<longleftrightarrow> (\<exists>e. s = Inl e \<and> f e = Inr y) \<or> (\<exists>x. s = Inr x \<and> g x = Inr y)"
  by (cases s) auto

lemma case_option_Inr:
  "(case m of None \<Rightarrow> r | Some v \<Rightarrow> g v) = Inr y \<longleftrightarrow> (m = None \<and> r = Inr y) \<or> (\<exists>v. m = Some v \<and> g v = Inr y)"
  by (cases m) auto

lemma if_Inr:
  "(if c then Inl e else r) = Inr y \<longleftrightarrow> \<not> c \<and> r = Inr y"
  "(if c then r else Inl e) = Inr y \<longleftrightarrow> c \<and> r = Inr y"
  by simp_all

lemma case_json_Inr:
  "(case v of JNull \<Rightarrow> a | JBool b \<Rightarrow> f b | JNum n \<Rightarrow> g n | JStr s \<Rightarrow> h s | JArr xs \<Rightarrow> i xs | JObj m \<Rightarrow> j m) = Inr y \<longleftrightarrow>
     (v = JNull \<and> a = Inr y) \<or> (\<exists>b. v = JBool b \<and> f b = Inr y) \<or> (\<exists>n. v = JNum n \<and> g n = Inr y)
   \<or> (\<exists>s. v = JStr s \<and> h s = Inr y) \<or> (\<exists>xs. v = JArr xs \<and> i xs = Inr y) \<or> (\<exists>m. v = JObj m \<and> j m = Inr y)"
  by (cases v) auto

lemma case_node_Inr:
  "(case n of File d \<Rightarrow> f d | Dir \<Rightarrow> a | Link x t \<Rightarrow> g x t | Special \<Rightarrow> b) = Inr y \<longleftrightarrow>
     (\<exists>d. n = File d \<and> f d = Inr y) \<or> (n = Dir \<and> a = Inr y) \<or> (\<exists>x t. n = Link x t \<and> g x t = Inr y)
   \<or> (n = Special \<and> b = Inr y)"
  by (cases n) auto

text \<open>How a chain of checks succeeds: every check did.\<close>

lemmas result_Inr = bind_result_Inr case_sum_Inr case_option_Inr if_Inr case_json_Inr case_node_Inr

text \<open>Which unknown argument is named depends on the order of a Go map; here it is the first.\<close>

definition onlyArgs :: "object \<Rightarrow> string list \<Rightarrow> unit result" where
  "onlyArgs args allowed =
    (case List.find (\<lambda>k. k \<notin> set allowed) (map fst args) of
       None \<Rightarrow> Inr ()
     | Some name \<Rightarrow> Inl (toolErr ''invalid_arguments'' (''unknown argument: '' @ name)))"

definition requiredString :: "object \<Rightarrow> string \<Rightarrow> string result" where
  "requiredString args name =
    (case map_of args name of
       Some (JStr s) \<Rightarrow> if s = [] then Inl (toolErr ''invalid_arguments'' (name @ '' is required'')) else Inr s
     | _ \<Rightarrow> Inl (toolErr ''invalid_arguments'' (name @ '' is required'')))"

definition maxInt :: int where "maxInt = 2 ^ 63 - 1"

definition optionalInt :: "object \<Rightarrow> string \<Rightarrow> int \<Rightarrow> int \<Rightarrow> int \<Rightarrow> int result" where
  "optionalInt args name fallback minimum maximum =
    (case map_of args name of
       None \<Rightarrow> Inr fallback
     | Some (JNum number) \<Rightarrow>
         if number \<noteq> of_int \<lfloor>number\<rfloor> \<or> \<lfloor>number\<rfloor> < minimum \<or> \<lfloor>number\<rfloor> > maximum
         then Inl (toolErr ''invalid_arguments'' (name @ '' must be an integer''))
         else Inr \<lfloor>number\<rfloor>
     | Some _ \<Rightarrow> Inl (toolErr ''invalid_arguments'' (name @ '' must be an integer'')))"

definition optionalString :: "object \<Rightarrow> string \<Rightarrow> string result" where
  "optionalString args name =
    (case map_of args name of
       None \<Rightarrow> Inr []
     | Some (JStr s) \<Rightarrow> Inr s
     | Some _ \<Rightarrow> Inl (toolErr ''invalid_arguments'' (name @ '' must be a string'')))"

text \<open>The flag and whether it was given.\<close>

definition optionalBool :: "object \<Rightarrow> string \<Rightarrow> (bool \<times> bool) result" where
  "optionalBool args name =
    (case map_of args name of
       None \<Rightarrow> Inr (False, False)
     | Some (JBool b) \<Rightarrow> Inr (b, True)
     | Some _ \<Rightarrow> Inl (toolErr ''invalid_arguments'' (name @ '' must be a boolean'')))"

lemma optionalInt_range:
  "optionalInt args name fallback lo hi = Inr n \<Longrightarrow> lo \<le> fallback \<Longrightarrow> fallback \<le> hi \<Longrightarrow> lo \<le> n \<and> n \<le> hi"
  by (auto simp: optionalInt_def split: option.splits json.splits if_splits)

section \<open>Allowed roots\<close>

text \<open>The list separator is the colon on Unix.\<close>

definition splitPathList :: "string \<Rightarrow> string list" where
  "splitPathList value = filter (\<lambda>part. TrimSpace part \<noteq> []) (Split (CHR '':'') value)"

definition skippedDirectory :: "string \<Rightarrow> bool" where
  "skippedDirectory name \<longleftrightarrow> map lower_char name \<in> {''.git'', ''.hg'', ''.svn'', ''node_modules'', ''vendor'', ''dist'',
     ''build'', ''.idea'', ''.vscode''}"

record rootsConfig =
  rc_allowed :: "path list"
  rc_unavailable :: "path list"
  rc_allowAll :: bool

text \<open>
  The roots as the executor keeps them: a star lifts the restriction, a root that does not exist grants
  nothing, a relative one and one that cannot be resolved are fatal.
\<close>

fun add_roots :: "fs \<Rightarrow> string list \<Rightarrow> rootsConfig \<Rightarrow> string + rootsConfig" where
  "add_roots fs [] rc = Inr rc"
| "add_roots fs (raw # rest) rc =
    (let root = TrimSpace raw
     in if root = ''*'' then add_roots fs rest (rc\<lparr>rc_allowAll := True\<rparr>)
        else if \<not> IsAbs root then Inl ''allowed root must be absolute''
        else (case EvalSymlinks fs (Clean root) of
          Inl NotExist \<Rightarrow> add_roots fs rest (rc\<lparr>rc_unavailable := rc_unavailable rc @ [Clean root]\<rparr>)
        | Inl _ \<Rightarrow> Inl ''resolve allowed root''
        | Inr resolved \<Rightarrow> add_roots fs rest (rc\<lparr>rc_allowed := rc_allowed rc @ [resolved]\<rparr>)))"

definition configure_roots :: "fs \<Rightarrow> string list \<Rightarrow> string + rootsConfig" where
  "configure_roots fs roots =
    (if roots = [] then Inl ''at least one allowed root is required''
     else add_roots fs roots \<lparr>rc_allowed = [], rc_unavailable = [], rc_allowAll = False\<rparr>)"

section \<open>Resolving a path\<close>

text \<open>
  The longest prefix of the path that resolves, with the components after it put back. \<open>after\<close> collects
  them from the end; the root directory always resolves, so the loop ends there at the latest.
\<close>

function resolve_prefix :: "fs \<Rightarrow> path \<Rightarrow> string list \<Rightarrow> path result" where
  "resolve_prefix fs current after =
    (case EvalSymlinks fs current of
       Inr resolved \<Rightarrow> Inr (resolved @ after)
     | Inl e \<Rightarrow>
        if e \<noteq> NotExist \<or> current = [] then Inl (toolErr ''invalid_path'' ''resolve path'')
        else resolve_prefix fs (butlast current) (last current # after))"
  by pat_completeness auto
termination
  by (relation "measure (\<lambda>(fs, current, after). length current)") auto

declare resolve_prefix.simps [simp del]

definition resolveExistingPrefix :: "fs \<Rightarrow> path \<Rightarrow> path result" where
  "resolveExistingPrefix fs p = resolve_prefix fs p []"

text \<open>The test on the relative path: it must not lead up.\<close>

definition inside :: "path \<Rightarrow> path \<Rightarrow> bool" where
  "inside base resolved \<longleftrightarrow> take 1 (Rel base resolved) \<noteq> [''..'']"

definition resolvePath :: "fs \<Rightarrow> rootsConfig \<Rightarrow> string \<Rightarrow> path result" where
  "resolvePath fs rc raw =
    (if raw = [] then Inl (toolErr ''invalid_path'' ''absolute path is required'')
     else if \<not> IsAbs raw then Inl (toolErr ''invalid_path'' ''path must be absolute'')
     else bind_result (resolveExistingPrefix fs (Clean raw)) (\<lambda>resolved.
       if rc_allowAll rc \<or> list_ex (\<lambda>root. inside root resolved) (rc_allowed rc) then Inr resolved
       else Inl (toolErr ''outside_allowed_roots'' ''path is outside WEBCODEX_ALLOWED_ROOTS'')))"

definition links_clean :: "fs \<Rightarrow> bool" where
  "links_clean fs \<longleftrightarrow> (\<forall>p a t. node_at fs p = Some (Link a t) \<longrightarrow> list_all (\<lambda>c. CHR ''/'' \<notin> set c) t)"

lemma EvalSymlinks_is_physical:
  assumes "tree fs" "links_clean fs" "EvalSymlinks fs p = Inr q" "list_all clean_component p"
  shows "physical fs q"
proof (rule walk_physical [OF assms(1)])
  show "walk fs 255 [] p = Inr q" using assms(3) by (simp add: EvalSymlinks_def)
  show "physical fs []" by (simp add: physical_def)
  show "list_all (\<lambda>c. CHR ''/'' \<notin> set c) p" using assms(4) by (auto simp: list_all_iff clean_component_def)
  show "list_all (\<lambda>c. CHR ''/'' \<notin> set c) t" if "node_at fs p = Some (Link a t)" for p a t
    using assms(2) that unfolding links_clean_def by blast
qed simp

text \<open>Where a walk stops when one more component does not exist: at a directory in which that component resolves
  to nothing, because there is no such entry or a link there leads nowhere.\<close>

definition missing :: "fs \<Rightarrow> path \<Rightarrow> string \<Rightarrow> bool" where
  "missing fs d c \<longleftrightarrow> node_at fs d = Some Dir \<and> EvalSymlinks fs (d @ [c]) = Inl NotExist"

lemma walk_missing:
  assumes "walk fs links d cs = Inr q" "walk fs links d (cs @ [c]) = Inl NotExist" "clean_component c"
    "node_at fs d = Some Dir" "tree fs"
  shows "node_at fs q = Some Dir \<and> (\<exists>k \<le> links. walk fs k q [c] = Inl NotExist)"
  using assms
proof (induction fs links d cs rule: walk.induct)
  case (1 fs links dir)
  then show ?case by (auto simp del: walk.simps(2))
next
  case (2 fs links dir b cs)
  have up: "node_at fs (butlast dir) = Some Dir"
    using tree_parent [OF 2(9), of dir] 2(8) by (cases "dir = []") auto
  show ?case
  proof (cases "b = [] \<or> b = ''.'' \<or> b = ''..''")
    case True
    then show ?thesis using 2 up by (auto split: if_splits)
  next
    case False
    show ?thesis
    proof (cases "node_at fs (dir @ [b])")
      case None
      then show ?thesis using False 2(5) by simp
    next
      case (Some n)
      then show ?thesis
      proof (cases n)
        case (Link absolute target)
        then obtain k where k: "links = Suc k" using False 2(5) Some by (cases links) simp_all
        have "node_at fs q = Some Dir \<and> (\<exists>j \<le> k. walk fs j q [c] = Inl NotExist)"
          using False Some Link k 2 by (cases absolute) simp_all
        then show ?thesis using k le_SucI by blast
      qed (use False Some 2 in \<open>auto split: if_splits\<close>)
    qed
  qed
qed

definition reachable_path :: "fs \<Rightarrow> path \<Rightarrow> bool" where
  "reachable_path fs p \<longleftrightarrow> (\<exists>q rest. p = q @ rest \<and> physical fs q \<and> (rest = [] \<or> missing fs q (hd rest)))"

lemma resolve_prefix_sound:
  assumes "resolve_prefix fs current after = Inr p" "tree fs" "links_clean fs" "list_all clean_component current"
    "after \<noteq> [] \<Longrightarrow> EvalSymlinks fs (current @ [hd after]) = Inl NotExist \<and> list_all clean_component after"
  shows "reachable_path fs p \<and> list_all clean_component p"
  using assms
proof (induction fs current after rule: resolve_prefix.induct)
  case (1 fs current after)
  show ?case
  proof (cases "EvalSymlinks fs current")
    case (Inr q)
    then have p: "p = q @ after" using 1(2) by (simp add: resolve_prefix.simps [of fs current after])
    have q: "physical fs q" using EvalSymlinks_is_physical 1(3,4,5) Inr by blast
    have "missing fs q (hd after)" if ne: "after \<noteq> []"
    proof -
      have "clean_component (hd after)" using ne 1(6) by (cases after) auto
      then obtain k where "node_at fs q = Some Dir" "k \<le> 255" "walk fs k q [hd after] = Inl NotExist"
        using walk_missing [of fs 255 "[]" current q "hd after"] 1(3) 1(6) [OF ne] Inr by (auto simp: EvalSymlinks_def simp del: walk.simps(2))
      then show ?thesis using walk_more [of fs k q "[hd after]" "Inl NotExist" "255 - k"] q 1(3)
        by (simp add: missing_def EvalSymlinks_from)
    qed
    then have "reachable_path fs p" using p q unfolding reachable_path_def by blast
    moreover have "list_all clean_component q" using q by (simp add: physical_def)
    ultimately show ?thesis using p 1(6) by (cases "after = []") simp_all
  next
    case (Inl e)
    then have run: "e = NotExist" "current \<noteq> []" "resolve_prefix fs (butlast current) (last current # after) = Inr p"
      using 1(2) by (auto simp: resolve_prefix.simps [of fs current after] split: if_splits)
    have "list_all clean_component (butlast current)" "clean_component (last current)"
      using 1(5) run(2) by (auto simp: list_all_iff dest: in_set_butlastD)
    then show ?thesis using 1(1) [OF Inl _ run(3) 1(3,4)] run(1,2) Inl 1(6) by (cases after) auto
  qed
qed

lemma resolvePath_sound:
  assumes "resolvePath fs rc raw = Inr p" "tree fs" "links_clean fs"
  shows "reachable_path fs p \<and> list_all clean_component p
    \<and> (rc_allowAll rc \<or> (\<exists>root \<in> set (rc_allowed rc). prefix root p))"
proof -
  have run: "resolve_prefix fs (Clean raw) [] = Inr p"
    and allowed: "rc_allowAll rc \<or> list_ex (\<lambda>root. inside root p) (rc_allowed rc)"
    using assms(1) by (auto simp: resolvePath_def resolveExistingPrefix_def bind_result_Inr split: if_splits)
  have "reachable_path fs p \<and> list_all clean_component p"
    using resolve_prefix_sound [OF run assms(2,3) Clean_clean] by simp
  then show ?thesis using allowed Rel_prefix by (auto simp: inside_def list_ex_iff)
qed

text \<open>A path a tool accepts lies under an allowed root component by component, and it is the file it seems to
  be: the part of it that exists contains no symbolic link, and where that part ends the next component
  leads nowhere. No spelling with dots, empty components or links gets out of the roots.\<close>

theorem resolvePath_confined:
  assumes "tree fs" "links_clean fs" "configure_roots fs roots = Inr rc" "''*'' \<notin> TrimSpace ` set roots"
    and "resolvePath fs rc raw = Inr p"
  shows "\<exists>base \<in> set (rc_allowed rc). \<exists>q rest. p = q @ rest \<and> prefix base p \<and> physical fs base \<and> physical fs q
    \<and> (rest = [] \<or> missing fs q (hd rest)) \<and> list_all clean_component p"
proof -
  have add: "(''*'' \<notin> TrimSpace ` set rs \<longrightarrow> \<not> rc_allowAll rc0 \<longrightarrow> \<not> rc_allowAll rc1)
      \<and> (list_all (physical fs) (rc_allowed rc0) \<longrightarrow> list_all (physical fs) (rc_allowed rc1))"
    if "add_roots fs rs rc0 = Inr rc1" for rs rc0 rc1
    using that
  proof (induction rs arbitrary: rc0)
    case (Cons raw rs)
    show ?case
    proof (cases "EvalSymlinks fs (Clean (TrimSpace raw))")
      case (Inr q)
      have "physical fs q" using EvalSymlinks_is_physical assms(1,2) Inr Clean_clean by blast
      then show ?thesis using Cons Inr by (auto simp: Let_def split: if_splits)
    next
      case (Inl e)
      then show ?thesis using Cons by (cases e) (auto simp: Let_def split: if_splits)
    qed
  qed auto
  have "\<not> rc_allowAll rc \<and> list_all (physical fs) (rc_allowed rc)"
    using add [of roots _ rc] assms(3,4) by (auto simp: configure_roots_def split: if_splits)
  then show ?thesis
    using resolvePath_sound [OF assms(5,1,2)] unfolding reachable_path_def list_all_iff by metis
qed

definition example_fs :: fs where
  "example_fs = [([''home''], Dir), ([''home'', ''me''], Dir), ([''home'', ''me'', ''a.txt''], File ''hello''),
     ([''home'', ''me'', ''out''], Link True [''etc'']), ([''etc''], Dir), ([''etc'', ''passwd''], File ''secret'')]"

lemma example_fs_tree: "tree example_fs" "links_clean example_fs"
proof -
  show "tree example_fs" by code_simp
  show "links_clean example_fs"
    by (auto simp: links_clean_def node_at_def example_fs_def split: if_splits)
qed

lemma example_roots: "configure_roots example_fs [''/home/./me''] = Inr \<lparr>rc_allowed = [[''home'', ''me'']], rc_unavailable = [], rc_allowAll = False\<rparr>"
  by code_simp

theorem resolvePath_confined_witness:
  "\<exists>rc. configure_roots example_fs [''/home/./me''] = Inr rc
     \<and> resolvePath example_fs rc ''/home//me/x/../a.txt'' = Inr [''home'', ''me'', ''a.txt'']
     \<and> resolvePath example_fs rc ''/home/me/out/passwd'' = Inl (toolErr ''outside_allowed_roots'' ''path is outside WEBCODEX_ALLOWED_ROOTS'')
     \<and> (\<exists>base \<in> set (rc_allowed rc). prefix base [''home'', ''me'', ''a.txt''])"
proof -
  let ?rc = "\<lparr>rc_allowed = [[''home'', ''me'']], rc_unavailable = [], rc_allowAll = False\<rparr>"
  have run: "resolvePath example_fs ?rc ''/home//me/x/../a.txt'' = Inr [''home'', ''me'', ''a.txt'']"
    "resolvePath example_fs ?rc ''/home/me/out/passwd'' = Inl (toolErr ''outside_allowed_roots'' ''path is outside WEBCODEX_ALLOWED_ROOTS'')"
    by code_simp+
  have "''*'' \<notin> TrimSpace ` set [''/home/./me'']" by code_simp
  from resolvePath_confined [OF example_fs_tree example_roots this run(1)] example_roots run
  show ?thesis by blast
qed

end
