(* ===== verification/FileTools.thy ===== *)
theory FileTools
  imports AgentArgs Secrets "HOL-Library.Product_Lexorder"
begin

text \<open>
  \<open>cmd/agent/file_tools.go\<close>: the tools that read, write, edit, list, move and delete files. A tool takes the
  decoded arguments and the file system and returns its result and the file system afterwards. \<open>fault\<close> names
  the system operations that fail for a reason of their own (a full disk, a revoked permission);
  \<open>ex_fold\<close> and \<open>ex_lower\<close> are the Unicode case folding of \<open>EqualFold\<close> and the lower case of \<open>ToLower\<close>. The
  temporary file a write goes through exists only while the call runs and is not represented, nor is the
  preview that is logged.
\<close>

section \<open>Common parts\<close>

record executor =
  ex_roots :: rootsConfig
  ex_maxResponse :: nat
  ex_fault :: "string \<Rightarrow> bool"
  ex_fold :: "string \<Rightarrow> string"
  ex_lower :: "string \<Rightarrow> string"

definition maxReadBytes :: nat where "maxReadBytes = 10 * 2 ^ 20"

text \<open>Arithmetic on Go's 64-bit \<open>int\<close> wraps around.\<close>

definition wrap_int :: "int \<Rightarrow> int" where
  "wrap_int n = (n + 2 ^ 63) mod 2 ^ 64 - 2 ^ 63"

definition pathError :: "string \<Rightarrow> os_error \<Rightarrow> codedError" where
  "pathError action e =
    (if e = NotExist then toolErr ''not_found'' action
     else if e = Denied then toolErr ''access_denied'' action
     else toolErr ''io_error'' action)"

definition readLimitedFile :: "executor \<Rightarrow> string \<Rightarrow> nat \<Rightarrow> (bool + string)" where
  "readLimitedFile ex data maxBytes =
    (if ex_fault ex ''read file'' then Inl False
     else if length data > maxBytes then Inl True else Inr data)"

definition readRegularFile :: "executor \<Rightarrow> fs \<Rightarrow> path \<Rightarrow> nat \<Rightarrow> string result" where
  "readRegularFile ex fs p maxBytes =
    (case Stat fs p of
       Inl e \<Rightarrow> Inl (pathError ''inspect file'' e)
     | Inr (File data) \<Rightarrow>
         (case readLimitedFile ex data maxBytes of
            Inl True \<Rightarrow> Inl (toolErr ''too_large'' ''file exceeds size limit'')
          | Inl False \<Rightarrow> Inl (toolErr ''io_error'' ''read file'')
          | Inr d \<Rightarrow> Inr d)
     | Inr _ \<Rightarrow> Inl (toolErr ''not_file'' ''path is not a regular file''))"

definition hashBytes :: "string \<Rightarrow> string" where
  "hashBytes data = EncodeToHex (Sum256 data)"

definition lower_hex :: "char \<Rightarrow> bool" where
  "lower_hex c \<longleftrightarrow> c \<in> set ''0123456789abcdef''"

definition validateHash :: "string \<Rightarrow> unit result" where
  "validateHash value =
    (if length value = 64 \<and> list_all lower_hex value then Inr ()
     else Inl (toolErr ''invalid_arguments'' ''expected_sha256 must be 64 lowercase hexadecimal characters''))"

definition requireFileHash :: "executor \<Rightarrow> fs \<Rightarrow> path \<Rightarrow> string \<Rightarrow> unit result" where
  "requireFileHash ex fs p expected =
    bind_result (validateHash expected) (\<lambda>_.
    bind_result (readRegularFile ex fs p maxReadBytes) (\<lambda>data.
      if hashBytes data \<noteq> expected
      then Inl (toolErr ''stale_hash'' ''expected_sha256 does not match the current file'') else Inr ()))"

definition requireEmptyDirectory :: "fs \<Rightarrow> path \<Rightarrow> unit result" where
  "requireEmptyDirectory fs p =
    (case Readdirnames fs p of
       Inl e \<Rightarrow> Inl (pathError ''open directory'' e)
     | Inr names \<Rightarrow> if names \<noteq> [] then Inl (toolErr ''not_empty'' ''directory is not empty'') else Inr ())"

definition rejectFinalSymlink :: "fs \<Rightarrow> string \<Rightarrow> unit result" where
  "rejectFinalSymlink fs rawPath =
    (case Lstat fs (Clean rawPath) of
       Inl e \<Rightarrow> Inl (pathError ''inspect path'' e)
     | Inr (Link _ _) \<Rightarrow> Inl (toolErr ''symlink_unsupported'' ''symlinks are not accepted for this operation'')
     | Inr _ \<Rightarrow> Inr ())"

section \<open>Writing\<close>

definition atomicWrite :: "executor \<Rightarrow> path \<Rightarrow> string \<Rightarrow> bool \<Rightarrow> fs \<Rightarrow> unit result \<times> fs" where
  "atomicWrite ex p data createParents fs =
    (case (if createParents then MkdirAll fs (butlast p) else (True, fs)) of (ok, fs1) \<Rightarrow>
     if createParents \<and> (\<not> ok \<or> ex_fault ex ''create parent directory'')
     then (Inl (toolErr ''io_error'' ''create parent directory''), fs1)
     else if Stat fs1 (butlast p) \<noteq> Inr Dir \<or> ex_fault ex ''create temporary file''
     then (Inl (toolErr ''io_error'' ''create temporary file''), fs1)
     else if ex_fault ex ''write temporary file''
     then (Inl (toolErr ''io_error'' ''write temporary file''), fs1)
     else (case rename_over fs1 p data of
             None \<Rightarrow> (Inl (toolErr ''io_error'' ''replace file''), fs1)
           | Some fs2 \<Rightarrow> if ex_fault ex ''replace file'' then (Inl (toolErr ''io_error'' ''replace file''), fs1)
                        else (Inr (), fs2)))"

definition atomicCreate :: "executor \<Rightarrow> path \<Rightarrow> string \<Rightarrow> fs \<Rightarrow> unit result \<times> fs" where
  "atomicCreate ex p data fs =
    (case MkdirAll fs (butlast p) of (ok, fs1) \<Rightarrow>
     if \<not> ok \<or> ex_fault ex ''create parent directory''
     then (Inl (toolErr ''io_error'' ''create parent directory''), fs1)
     else if Stat fs1 (butlast p) \<noteq> Inr Dir \<or> ex_fault ex ''create temporary file''
     then (Inl (toolErr ''io_error'' ''create temporary file''), fs1)
     else if ex_fault ex ''write temporary file''
     then (Inl (toolErr ''io_error'' ''write temporary file''), fs1)
     else (case link_new fs1 p data of
             Inl _ \<Rightarrow> (Inl (toolErr ''io_error'' ''create file''), fs1)
           | Inr None \<Rightarrow> (Inl (toolErr ''already_exists'' ''destination already exists''), fs1)
           | Inr (Some fs2) \<Rightarrow> if ex_fault ex ''create file'' then (Inl (toolErr ''io_error'' ''create file''), fs1)
                              else (Inr (), fs2)))"

text \<open>The precondition of a v4 write: create only, or a hash the current file must have.\<close>

definition write_precondition :: "executor \<Rightarrow> object \<Rightarrow> path \<Rightarrow> fs \<Rightarrow> bool result" where
  "write_precondition ex args p fs =
    bind_result (optionalBool args ''if_absent'') (\<lambda>(ifAbsent, hasIfAbsent).
    bind_result (optionalString args ''expected_sha256'') (\<lambda>expected.
      if (hasIfAbsent \<and> ifAbsent \<and> expected = []) = (expected \<noteq> [] \<and> \<not> hasIfAbsent)
      then Inl (toolErr ''invalid_arguments'' ''exactly one of if_absent=true or expected_sha256 is required'')
      else if hasIfAbsent \<and> \<not> ifAbsent
      then Inl (toolErr ''invalid_arguments'' ''if_absent must be true when provided'')
      else if ifAbsent
      then (case Lstat fs p of
              Inr _ \<Rightarrow> Inl (toolErr ''already_exists'' ''destination already exists'')
            | Inl e \<Rightarrow> if e \<noteq> NotExist then Inl (toolErr ''io_error'' ''inspect destination'') else Inr True)
      else bind_result (requireFileHash ex fs p expected) (\<lambda>_. Inr False)))"

record writeResult =
  wr_path :: path
  wr_bytes :: nat
  wr_sha256 :: string

definition write_checks :: "executor \<Rightarrow> object \<Rightarrow> bool \<Rightarrow> fs \<Rightarrow> (path \<times> string \<times> bool) result" where
  "write_checks ex args requirePrecondition fs =
    bind_result (onlyArgs args ([''path'', ''content'']
        @ (if requirePrecondition then [''if_absent'', ''expected_sha256''] else []))) (\<lambda>_.
    bind_result (requiredString args ''path'') (\<lambda>rawPath.
    bind_result (resolvePath fs (ex_roots ex) rawPath) (\<lambda>p.
      case map_of args ''content'' of
        Some (JStr content) \<Rightarrow>
          if length content > maxReadBytes
          then Inl (toolErr ''too_large'' ''content exceeds file size limit'')
          else bind_result (if requirePrecondition then write_precondition ex args p fs else Inr False)
                 (\<lambda>createOnly. Inr (p, content, createOnly))
      | _ \<Rightarrow> Inl (toolErr ''invalid_arguments'' ''content must be a string''))))"

definition writeFile :: "executor \<Rightarrow> object \<Rightarrow> bool \<Rightarrow> fs \<Rightarrow> writeResult result \<times> fs" where
  "writeFile ex args requirePrecondition fs =
    (case write_checks ex args requirePrecondition fs of
       Inl e \<Rightarrow> (Inl e, fs)
     | Inr (p, content, createOnly) \<Rightarrow>
        (case (if createOnly then atomicCreate ex p content fs else atomicWrite ex p content True fs) of
           (Inl e, fs1) \<Rightarrow> (Inl e, fs1)
         | (Inr _, fs1) \<Rightarrow>
             (Inr \<lparr>wr_path = p, wr_bytes = length content, wr_sha256 = hashBytes content\<rparr>, fs1)))"

section \<open>Editing\<close>

text \<open>\<open>strings.Count\<close> and \<open>strings.Replace\<close>: leftmost matches that do not overlap, at most \<open>n\<close> replaced.\<close>

function Count :: "string \<Rightarrow> string \<Rightarrow> nat" where
  "Count old s =
    (if s = [] \<or> old = [] then 0
     else if HasPrefix s old then Suc (Count old (drop (length old) s))
     else Count old (tl s))"
  by pat_completeness auto
termination
  by (relation "measure (\<lambda>(old, s). length s)") auto

function Replace :: "string \<Rightarrow> string \<Rightarrow> nat \<Rightarrow> string \<Rightarrow> string" where
  "Replace old new n s =
    (if n = 0 \<or> s = [] \<or> old = [] then s
     else if HasPrefix s old then new @ Replace old new (n - 1) (drop (length old) s)
     else hd s # Replace old new n (tl s))"
  by pat_completeness auto
termination
  by (relation "measure (\<lambda>(old, new, n, s). length s)") auto

declare Count.simps [simp del] Replace.simps [simp del]

definition apply_edit :: "json \<Rightarrow> string \<Rightarrow> (string \<times> nat) result" where
  "apply_edit rawEdit content =
    (case rawEdit of
       JObj edit \<Rightarrow>
         bind_result (onlyArgs edit [''old_text'', ''new_text'', ''replace_all'']) (\<lambda>_.
         case map_of edit ''old_text'' of
           Some (JStr oldText) \<Rightarrow>
             if oldText = [] then Inl (toolErr ''invalid_arguments'' ''old_text must be non-empty'')
             else (case map_of edit ''new_text'' of
               Some (JStr newText) \<Rightarrow>
                 bind_result (optionalBool edit ''replace_all'') (\<lambda>(replaceAll, _).
                   let count = Count oldText content
                   in if count = 0 then Inl (toolErr ''text_not_found'' ''old_text was not found'')
                      else if \<not> replaceAll \<and> count \<noteq> 1 then Inl (toolErr ''ambiguous_match'' ''old_text occurs several times'')
                      else let content1 = Replace oldText newText (if replaceAll then count else 1) content
                           in if length content1 > maxReadBytes
                              then Inl (toolErr ''too_large'' ''edited file exceeds size limit'')
                              else Inr (content1, if replaceAll then count else 1))
             | _ \<Rightarrow> Inl (toolErr ''invalid_arguments'' ''new_text must be a string''))
         | _ \<Rightarrow> Inl (toolErr ''invalid_arguments'' ''old_text must be non-empty''))
     | _ \<Rightarrow> Inl (toolErr ''invalid_arguments'' ''edit must be an object''))"

fun apply_edits :: "json list \<Rightarrow> string \<Rightarrow> nat \<Rightarrow> (string \<times> nat) result" where
  "apply_edits [] content replacements = Inr (content, replacements)"
| "apply_edits (edit # rest) content replacements =
    bind_result (apply_edit edit content) (\<lambda>(content1, n). apply_edits rest content1 (replacements + n))"

record editResult =
  er_path :: path
  er_old :: string
  er_new :: string
  er_replacements :: nat
  er_bytes :: nat

definition edit_checks :: "executor \<Rightarrow> object \<Rightarrow> fs \<Rightarrow> (path \<times> string \<times> string \<times> nat) result" where
  "edit_checks ex args fs =
    bind_result (onlyArgs args [''path'', ''expected_sha256'', ''edits'']) (\<lambda>_.
    bind_result (requiredString args ''path'') (\<lambda>rawPath.
    bind_result (resolvePath fs (ex_roots ex) rawPath) (\<lambda>p.
    bind_result (requiredString args ''expected_sha256'') (\<lambda>expected.
    bind_result (readRegularFile ex fs p maxReadBytes) (\<lambda>data.
      if isBinary data then Inl (toolErr ''binary_file'' ''binary files are not supported'')
      else bind_result (validateHash expected) (\<lambda>_.
        if hashBytes data \<noteq> expected
        then Inl (toolErr ''stale_hash'' ''expected_sha256 does not match the current file'')
        else (case map_of args ''edits'' of
          Some (JArr rawEdits) \<Rightarrow>
            if rawEdits = [] then Inl (toolErr ''invalid_arguments'' ''edits must be a non-empty array'')
            else bind_result (apply_edits rawEdits data 0) (\<lambda>(content, n). Inr (p, data, content, n))
        | _ \<Rightarrow> Inl (toolErr ''invalid_arguments'' ''edits must be a non-empty array''))))))))"

definition editFile :: "executor \<Rightarrow> object \<Rightarrow> fs \<Rightarrow> editResult result \<times> fs" where
  "editFile ex args fs =
    (case edit_checks ex args fs of
       Inl e \<Rightarrow> (Inl e, fs)
     | Inr (p, data, content, n) \<Rightarrow>
        (case atomicWrite ex p content False fs of
           (Inl e, fs1) \<Rightarrow> (Inl e, fs1)
         | (Inr _, fs1) \<Rightarrow>
             (Inr \<lparr>er_path = p, er_old = hashBytes data, er_new = hashBytes content,
                   er_replacements = n, er_bytes = length content\<rparr>, fs1)))"

section \<open>Moving and deleting\<close>

datatype kind = FileKind | DirectoryKind

text \<open>What may be moved or deleted: a regular file whose hash is given, an empty directory without one.\<close>

definition removable :: "executor \<Rightarrow> object \<Rightarrow> path \<Rightarrow> fs \<Rightarrow> node \<Rightarrow> kind result" where
  "removable ex args p fs info =
    (case info of
       File _ \<Rightarrow>
         bind_result (requiredString args ''expected_sha256'') (\<lambda>expected.
         bind_result (requireFileHash ex fs p expected) (\<lambda>_. Inr FileKind))
     | Dir \<Rightarrow>
         bind_result (requireEmptyDirectory fs p) (\<lambda>_.
           if map_of args ''expected_sha256'' \<noteq> None
           then Inl (toolErr ''invalid_arguments'' ''expected_sha256 is only valid for regular files'')
           else Inr DirectoryKind)
     | _ \<Rightarrow> Inl (toolErr ''unsupported_type'' ''only regular files and empty directories''))"

definition samePath :: "executor \<Rightarrow> path \<Rightarrow> path \<Rightarrow> bool" where
  "samePath ex left right \<longleftrightarrow> map (ex_fold ex) left = map (ex_fold ex) right \<or> left = right"

definition move_checks :: "executor \<Rightarrow> object \<Rightarrow> fs \<Rightarrow> (path \<times> path \<times> kind) result" where
  "move_checks ex args fs =
    bind_result (onlyArgs args [''source'', ''destination'', ''expected_sha256'']) (\<lambda>_.
    bind_result (requiredString args ''source'') (\<lambda>rawSource.
    bind_result (requiredString args ''destination'') (\<lambda>rawDestination.
    bind_result (resolvePath fs (ex_roots ex) rawSource) (\<lambda>source.
    bind_result (resolvePath fs (ex_roots ex) rawDestination) (\<lambda>destination.
      if samePath ex source destination
      then Inl (toolErr ''same_path'' ''source and destination must be different'')
      else bind_result (rejectFinalSymlink fs rawSource) (\<lambda>_.
        case Lstat fs source of
          Inl e \<Rightarrow> Inl (pathError ''inspect source'' e)
        | Inr info \<Rightarrow>
           (case Lstat fs destination of
              Inr _ \<Rightarrow> Inl (toolErr ''already_exists'' ''destination already exists'')
            | Inl e \<Rightarrow>
               if e \<noteq> NotExist then Inl (toolErr ''io_error'' ''inspect destination'')
               else bind_result (removable ex args source fs info) (\<lambda>k.
                 case Stat fs (butlast destination) of
                   Inl e \<Rightarrow> Inl (pathError ''inspect destination parent'' e)
                 | Inr _ \<Rightarrow> Inr (source, destination, k)))))))))"

definition movePath :: "executor \<Rightarrow> object \<Rightarrow> fs \<Rightarrow> (path \<times> path \<times> kind) result \<times> fs" where
  "movePath ex args fs =
    (case move_checks ex args fs of
       Inl e \<Rightarrow> (Inl e, fs)
     | Inr (source, destination, k) \<Rightarrow>
        (case Rename fs source destination of
           None \<Rightarrow> (Inl (toolErr ''rename_failed'' ''rename path''), fs)
         | Some fs1 \<Rightarrow> if ex_fault ex ''rename path'' then (Inl (toolErr ''rename_failed'' ''rename path''), fs)
                      else (Inr (source, destination, k), fs1)))"

definition delete_checks :: "executor \<Rightarrow> object \<Rightarrow> fs \<Rightarrow> (path \<times> kind) result" where
  "delete_checks ex args fs =
    bind_result (onlyArgs args [''path'', ''expected_sha256'']) (\<lambda>_.
    bind_result (requiredString args ''path'') (\<lambda>rawPath.
    bind_result (resolvePath fs (ex_roots ex) rawPath) (\<lambda>p.
    bind_result (rejectFinalSymlink fs rawPath) (\<lambda>_.
      case Lstat fs p of
        Inl e \<Rightarrow> Inl (pathError ''inspect path'' e)
      | Inr info \<Rightarrow> bind_result (removable ex args p fs info) (\<lambda>k. Inr (p, k))))))"

definition deletePath :: "executor \<Rightarrow> object \<Rightarrow> fs \<Rightarrow> (path \<times> kind) result \<times> fs" where
  "deletePath ex args fs =
    (case delete_checks ex args fs of
       Inl e \<Rightarrow> (Inl e, fs)
     | Inr (p, k) \<Rightarrow>
        (case Remove fs p of
           None \<Rightarrow> (Inl (toolErr ''delete_failed'' ''delete path''), fs)
         | Some fs1 \<Rightarrow> if ex_fault ex ''delete path'' then (Inl (toolErr ''delete_failed'' ''delete path''), fs)
                      else (Inr (p, k), fs1)))"

section \<open>Reading\<close>

fun SplitAfter :: "char \<Rightarrow> string \<Rightarrow> string list" where
  "SplitAfter c [] = [[]]"
| "SplitAfter c (x # xs) =
    (if x = c then [x] # SplitAfter c xs
     else (case SplitAfter c xs of [] \<Rightarrow> [[x]] | y # ys \<Rightarrow> (x # y) # ys))"

definition file_lines :: "string \<Rightarrow> string list" where
  "file_lines data =
    (let ls = SplitAfter (CHR 0x0A) data
     in if ls = [[]] then [] else if last ls = [] then butlast ls else ls)"

text \<open>The lines that fit the response; a first line that does not fit is cut.\<close>

fun take_lines :: "nat \<Rightarrow> string list \<Rightarrow> string \<Rightarrow> nat \<Rightarrow> string \<times> nat \<times> bool" where
  "take_lines maxResponse [] content n = (content, n, False)"
| "take_lines maxResponse (line # rest) content n =
    (if length content + length line > maxResponse
     then (if content = [] then (fst (truncateUTF8 line maxResponse), Suc n, True) else (content, n, True))
     else take_lines maxResponse rest (content @ line) (Suc n))"

record readResult =
  rr_path :: path
  rr_content :: string
  rr_sha256 :: string
  rr_size :: nat
  rr_offset :: int
  rr_lineCount :: int
  rr_nextOffset :: int
  rr_truncated :: bool

definition read_page :: "nat \<Rightarrow> path \<Rightarrow> string \<Rightarrow> int \<Rightarrow> int \<Rightarrow> readResult" where
  "read_page maxResponse p data offset limit =
    (let ls = file_lines data; total = int (length ls);
         start = min (offset - 1) total;
         requestedEnd = min (wrap_int (start + limit)) total
     in case take_lines maxResponse (take (nat (requestedEnd - start)) (drop (nat start) ls)) [] 0 of
          (content, n, byteTruncated) \<Rightarrow>
            let stop = start + int n
            in \<lparr>rr_path = p, rr_content = content, rr_sha256 = hashBytes data, rr_size = length data,
                rr_offset = offset, rr_lineCount = stop - start, rr_nextOffset = stop + 1,
                rr_truncated = (stop < total \<or> byteTruncated)\<rparr>)"

definition readFile :: "executor \<Rightarrow> object \<Rightarrow> fs \<Rightarrow> readResult result" where
  "readFile ex args fs =
    bind_result (onlyArgs args [''path'', ''offset'', ''limit'']) (\<lambda>_.
    bind_result (requiredString args ''path'') (\<lambda>rawPath.
    bind_result (resolvePath fs (ex_roots ex) rawPath) (\<lambda>p.
    bind_result (readRegularFile ex fs p maxReadBytes) (\<lambda>data.
      if isBinary data then Inl (toolErr ''binary_file'' ''binary files are not supported'')
      else bind_result (optionalInt args ''offset'' 1 1 maxInt) (\<lambda>offset.
           bind_result (optionalInt args ''limit'' maxInt 1 maxInt) (\<lambda>limit.
             Inr (read_page (ex_maxResponse ex) p data offset limit)))))))"

end
