(* ===== verification/FileToolFacts.thy ===== *)
theory FileToolFacts
  imports FileTools
begin

text \<open>
  What the file tools do to the file system: every change lies under an allowed root, nothing is overwritten,
  moved or deleted unless the caller proves to know its content, and paging through a file.
\<close>

section \<open>The tree after a system call\<close>

lemma update_new: "k \<notin> fst ` set al \<Longrightarrow> AList.update k v al = al @ [(k, v)]"
  by (induction al) auto

lemma set_update_subset: "set (AList.update k v al) \<subseteq> insert (k, v) (set al)"
  by (induction al) auto

lemma tree_update:
  assumes "tree fs" "q \<noteq> []" "list_all clean_component q" "node_at fs (butlast q) = Some Dir"
    "node_at fs q \<noteq> Some Dir \<or> n = Dir"
  shows "tree (AList.update q n fs)"
proof -
  have "p \<noteq> [] \<and> list_all clean_component p \<and> node_at (AList.update q n fs) (butlast p) = Some Dir"
    if "(p, m) \<in> set (AList.update q n fs)" for p m
  proof -
    have p: "p \<noteq> [] \<and> list_all clean_component p \<and> node_at fs (butlast p) = Some Dir"
    proof -
      have "(p, m) = (q, n) \<or> (p, m) \<in> set fs" using that set_update_subset [of q n fs] by blast
      then show ?thesis using assms(1-4) by (auto simp: tree_def list_all_def)
    qed
    then show ?thesis using assms(2,5) by auto
  qed
  then show ?thesis by (auto simp: tree_def list_all_iff)
qed

text \<open>
  A change that keeps every entry, or replaces the entry at one place, or removes it; directories may have
  been made under \<open>q\<close> where there was nothing.
\<close>

definition grown :: "path \<Rightarrow> fs \<Rightarrow> fs \<Rightarrow> bool" where
  "grown q fs fs1 \<longleftrightarrow> tree fs1
     \<and> (\<forall>x. node_at fs1 x = node_at fs x \<or> node_at fs x = None \<and> node_at fs1 x = Some Dir \<and> strict_prefix q x)"

lemma grown_refl: "tree fs \<Longrightarrow> grown q fs fs"
  by (simp add: grown_def)

lemma Stat_missing:
  assumes "tree fs" "physical fs q" "missing fs q c"
  shows "\<exists>e. Stat fs (q @ c # cs) = Inl e"
proof -
  have q: "node_at fs q = Some Dir" "EvalSymlinks fs (q @ [c]) = Inl NotExist" using assms(3) by (simp_all add: missing_def)
  then have "walk fs 255 q [c] = Inl NotExist" using EvalSymlinks_from assms(1,2) by metis
  from walk_fails [OF this, of cs] have "EvalSymlinks fs (q @ c # cs) = Inl NotExist"
    using EvalSymlinks_from [OF assms(2,1) q(1), of "c # cs"] by simp
  then show ?thesis by (simp add: Stat_def)
qed

lemma physical_Dir: "tree fs \<Longrightarrow> node_at fs p = Some Dir \<Longrightarrow> list_all clean_component p \<Longrightarrow> physical fs p"
  by (auto simp: physical_def dest: tree_parent)

lemma MkdirAll_grown:
  assumes "tree fs" "physical fs q" "node_at fs q = Some Dir" "rest \<noteq> [] \<Longrightarrow> missing fs q (hd rest)"
    "list_all clean_component rest" "MkdirAll fs (q @ rest) = (ok, fs1)"
  shows "grown q fs fs1 \<and> (ok \<longrightarrow> node_at fs1 (q @ rest) = Some Dir)"
  using assms(4-)
proof (induction rest arbitrary: ok fs1 rule: rev_induct)
  case Nil
  have "MkdirAll fs q = (True, fs)"
    using assms(1-3) by (simp add: MkdirAll.simps [of fs q] Stat_physical)
  then show ?case using Nil assms(1,3) by (simp add: grown_refl)
next
  case (snoc c rest)
  obtain d cs where d: "rest @ [c] = d # cs" by (cases rest) auto
  obtain e where e: "Stat fs (q @ rest @ [c]) = Inl e"
    using Stat_missing [OF assms(1,2), of d cs] snoc.prems(1) d by auto
  obtain ok1 fs2 where m: "MkdirAll fs (q @ rest) = (ok1, fs2)" by (cases "MkdirAll fs (q @ rest)")
  have "rest \<noteq> [] \<Longrightarrow> missing fs q (hd rest)" using snoc.prems(1) by simp
  then have g: "grown q fs fs2" "ok1 \<longrightarrow> node_at fs2 (q @ rest) = Some Dir"
    using snoc.IH [OF _ _ m] snoc.prems(2) by auto
  have run: "(if ok1 then Mkdir fs2 (q @ rest @ [c]) else (False, fs2)) = (ok, fs1)"
    using snoc.prems(3) e m by (simp add: MkdirAll.simps [of fs "q @ rest @ [c]"] butlast_append)
  show ?case
  proof (cases ok1)
    case False
    then show ?thesis using run g by simp
  next
    case True
    let ?p = "(q @ rest) @ [c]"
    have clean: "list_all clean_component ?p" using assms(2) snoc.prems(2) by (simp add: physical_def)
    moreover have "tree fs2" "node_at fs2 (q @ rest) = Some Dir" using g True by (simp_all add: grown_def)
    ultimately have pl: "place fs2 ?p = Inr ?p"
      using place_physical [of fs2 "q @ rest" c] physical_Dir [of fs2 "q @ rest"] by simp
    show ?thesis
    proof (cases "node_at fs2 ?p")
      case None
      then have fs1: "fs1 = AList.update ?p Dir fs2" "ok" using run True pl by (simp_all add: Mkdir_def)
      have "tree fs1" unfolding fs1
        using g True clean by (intro tree_update) (simp_all add: grown_def butlast_append)
      moreover have "node_at fs ?p = None" using g(1) None unfolding grown_def by (metis option.distinct(1))
      ultimately show ?thesis using g(1) fs1 by (auto simp: grown_def strict_prefix_def)
    next
      case (Some n)
      then show ?thesis using run True pl g by (auto simp: Mkdir_def)
    qed
  qed
qed

text \<open>A path a tool has resolved: the directory part can be made, and then its last component is a place of its own.\<close>

definition existing_part :: "fs \<Rightarrow> path \<Rightarrow> path \<Rightarrow> bool" where
  "existing_part fs q p \<longleftrightarrow> (\<exists>rest. p = q @ rest \<and> physical fs q \<and> (rest \<noteq> [] \<longrightarrow> missing fs q (hd rest)))"

lemma reachable_existing: "reachable_path fs p \<longleftrightarrow> (\<exists>q. existing_part fs q p)"
  by (auto simp: reachable_path_def existing_part_def)

lemma existing_parent:
  assumes "tree fs" "existing_part fs q p" "list_all clean_component p" "p \<noteq> []" "MkdirAll fs (butlast p) = (ok, fs1)"
  shows "grown (if p = q then butlast q else q) fs fs1
    \<and> (ok \<longrightarrow> Stat fs1 (butlast p) = Inr Dir \<and> place fs1 p = Inr p) \<and> (p = q \<longrightarrow> fs1 = fs)"
proof -
  obtain rest where r: "p = q @ rest" "physical fs q" "rest \<noteq> [] \<longrightarrow> missing fs q (hd rest)"
    using assms(2) by (auto simp: existing_part_def)
  have fin: "Stat fs1 (butlast p) = Inr Dir \<and> place fs1 p = Inr p"
    if "tree fs1" "node_at fs1 (butlast p) = Some Dir"
  proof -
    have "list_all clean_component (butlast p)" using assms(3) by (auto simp: list_all_iff dest: in_set_butlastD)
    then have "physical fs1 (butlast p)" using physical_Dir that by blast
    then show ?thesis
      using Stat_physical [of fs1 "butlast p"] place_physical [of fs1 "butlast p" "last p"] that assms(4) by simp
  qed
  show ?thesis
  proof (cases "rest = []")
    case True
    then have p: "p = q" using r by simp
    have d: "physical fs (butlast p)" "node_at fs (butlast p) = Some Dir"
      using physical_butlast assms(1) r(2) p by blast+
    then have "MkdirAll fs (butlast p) = (True, fs)"
      using assms(1) by (simp add: MkdirAll.simps [of fs "butlast p"] Stat_physical)
    then have "ok" "fs1 = fs" using assms(5) by simp_all
    then show ?thesis using d p assms(1) fin by (simp add: grown_refl)
  next
    case False
    then have q: "missing fs q (hd rest)" "node_at fs q = Some Dir" "butlast p = q @ butlast rest" "p \<noteq> q"
      using r by (auto simp: missing_def butlast_append)
    have b: "butlast rest \<noteq> [] \<Longrightarrow> missing fs q (hd (butlast rest))"
      using q(1) by (cases rest) (auto split: if_splits)
    have "list_all clean_component (butlast rest)"
      using assms(3) r(1) by (auto simp: list_all_iff dest: in_set_butlastD)
    from MkdirAll_grown [OF assms(1) r(2) q(2) b this, of ok fs1] assms(5) q(3)
    have "grown q fs fs1 \<and> (ok \<longrightarrow> node_at fs1 (butlast p) = Some Dir)" by simp
    then show ?thesis using fin q(4) by (auto simp: grown_def)
  qed
qed

text \<open>Making the parent directory, when the tool does that, and the place of the target afterwards.\<close>

lemma prepared:
  assumes "tree fs" "existing_part fs q p" "list_all clean_component p"
    "(if mk then MkdirAll fs (butlast p) else (True, fs)) = (ok, fs1)"
  shows "grown q fs fs1 \<and> (ok \<longrightarrow> Stat fs1 (butlast p) = Inr Dir \<longrightarrow> place fs1 p = Inr p)"
proof (cases "p = []")
  case True
  have "MkdirAll fs [] = (True, fs)" by (simp add: MkdirAll.simps [of fs "[]"] Stat_def EvalSymlinks_def)
  then show ?thesis using assms(1,4) True by (simp add: grown_refl place_def split: if_splits)
next
  case ne: False
  show ?thesis
  proof (cases mk)
    case True
    then have "MkdirAll fs (butlast p) = (ok, fs1)" using assms(4) by simp
    from existing_parent [OF assms(1-3) ne this] show ?thesis
      using assms(1) by (auto simp: grown_refl split: if_splits)
  next
    case False
    obtain rest where r: "p = q @ rest" "physical fs q" "rest \<noteq> [] \<longrightarrow> missing fs q (hd rest)"
      using assms(2) by (auto simp: existing_part_def)
    have "place fs p = Inr p" if "Stat fs (butlast p) = Inr Dir"
    proof (cases rest)
      case Nil
      then show ?thesis using place_physical_path assms(1) r by simp
    next
      case (Cons c cs)
      then have m: "missing fs q c" using r(3) by simp
      show ?thesis
      proof (cases "cs = []")
        case True
        then show ?thesis using place_physical [OF assms(1) r(2)] m r(1) Cons by (simp add: missing_def)
      next
        case False
        then have "butlast p = q @ c # butlast cs" using r(1) Cons by (simp add: butlast_append)
        then show ?thesis using Stat_missing [OF assms(1) r(2) m, of "butlast cs"] that by auto
      qed
    qed
    then show ?thesis using assms(1,4) False by (simp add: grown_refl)
  qed
qed

definition wrote :: "path \<Rightarrow> path \<Rightarrow> string \<Rightarrow> bool \<Rightarrow> fs \<Rightarrow> fs \<Rightarrow> bool" where
  "wrote q p data done fs fs1 \<longleftrightarrow>
     (\<forall>x. node_at fs1 x = node_at fs x
        \<or> node_at fs x = None \<and> node_at fs1 x = Some Dir \<and> strict_prefix q x
        \<or> done \<and> x = p \<and> node_at fs p \<noteq> Some Dir)
   \<and> (done \<longrightarrow> node_at fs1 p = Some (File data))"

lemma grown_wrote: "grown q fs fs1 \<Longrightarrow> wrote q p data False fs fs1"
  by (auto simp: grown_def wrote_def)

lemma wrote_update:
  assumes "grown q fs fs1" "p \<noteq> []" "node_at fs1 p \<noteq> Some Dir"
  shows "wrote q p data True fs (AList.update p (File data) fs1)"
proof -
  have "node_at fs p \<noteq> Some Dir" using assms(1,3) unfolding grown_def by metis
  then show ?thesis using assms(1,2) by (auto simp: grown_def wrote_def)
qed

lemma atomicWrite_wrote:
  assumes "tree fs" "existing_part fs q p" "list_all clean_component p" "atomicWrite ex p data mk fs = (r, fs')"
  shows "wrote q p data (r = Inr ()) fs fs'"
proof -
  obtain ok fs1 where m: "(if mk then MkdirAll fs (butlast p) else (True, fs)) = (ok, fs1)" by fastforce
  note g = prepared [OF assms(1-3) m]
  have step: "ok \<Longrightarrow> Stat fs1 (butlast p) = Inr Dir \<Longrightarrow> rename_over fs1 p data = Some fs2 \<Longrightarrow>
      wrote q p data True fs fs2" for fs2
    using g wrote_update [of q fs fs1 p data] by (auto simp: rename_over_def split: if_splits)
  have ok: "\<not> mk \<Longrightarrow> ok" using m by simp
  show ?thesis
    using assms(4) grown_wrote [OF conjunct1 [OF g]] step ok
    unfolding atomicWrite_def m prod.case by (auto split: if_split_asm option.split_asm)
qed

lemma atomicCreate_wrote:
  assumes "tree fs" "existing_part fs q p" "list_all clean_component p" "atomicCreate ex p data fs = (r, fs')"
  shows "wrote q p data (r = Inr ()) fs fs' \<and> (r = Inr () \<longrightarrow> node_at fs p = None)"
proof -
  obtain ok fs1 where m: "MkdirAll fs (butlast p) = (ok, fs1)" by fastforce
  have g: "grown q fs fs1 \<and> (ok \<longrightarrow> Stat fs1 (butlast p) = Inr Dir \<longrightarrow> place fs1 p = Inr p)"
    using prepared [OF assms(1-3), of True] m by simp
  have step: "wrote q p data True fs fs2 \<and> node_at fs p = None"
    if "ok" "Stat fs1 (butlast p) = Inr Dir" "link_new fs1 p data = Inr (Some fs2)" for fs2
  proof -
    have n: "node_at fs1 p = None" "fs2 = AList.update p (File data) fs1"
      using g that by (auto simp: link_new_def split: if_splits)
    then have "p \<noteq> []" by auto
    moreover have "node_at fs p = None" using g n(1) unfolding grown_def by (metis option.distinct(1))
    ultimately show ?thesis using g n wrote_update [of q fs fs1 p data] by simp
  qed
  show ?thesis
    using assms(4) grown_wrote [OF conjunct1 [OF g]] step
    unfolding atomicCreate_def m prod.case by (auto split: if_split_asm option.split_asm sum.split_asm)
qed

section \<open>What each tool changes\<close>

lemma write_checks_Inr:
  assumes "write_checks ex args v4 fs = Inr (p, content, createOnly)"
  shows "\<exists>raw. resolvePath fs (ex_roots ex) raw = Inr p \<and> map_of args ''content'' = Some (JStr content)
    \<and> (v4 \<longrightarrow> \<not> createOnly \<longrightarrow> (\<exists>expected. map_of args ''expected_sha256'' = Some (JStr expected)
         \<and> requireFileHash ex fs p expected = Inr ()))"
  using assms
  by (auto simp: write_checks_def write_precondition_def result_Inr optionalString_def optionalBool_def split: if_split_asm)

lemma edit_checks_Inr:
  assumes "edit_checks ex args fs = Inr (p, data, content, n)"
  shows "\<exists>raw edits. resolvePath fs (ex_roots ex) raw = Inr p \<and> readRegularFile ex fs p maxReadBytes = Inr data
    \<and> map_of args ''expected_sha256'' = Some (JStr (hashBytes data))
    \<and> map_of args ''edits'' = Some (JArr edits) \<and> apply_edits edits data 0 = Inr (content, n)"
  using assms
  by (auto simp: edit_checks_def result_Inr requiredString_def split: if_split_asm)

lemma removable_Inr:
  assumes "removable ex args p fs info = Inr k"
  shows "info = Dir \<or> (\<exists>expected. map_of args ''expected_sha256'' = Some (JStr expected) \<and> requireFileHash ex fs p expected = Inr ())"
  using assms
  by (auto simp: removable_def result_Inr requiredString_def split: if_split_asm)

lemma move_checks_Inr:
  assumes "move_checks ex args fs = Inr (src, dst, k)"
  shows "\<exists>raw1 raw2 info. resolvePath fs (ex_roots ex) raw1 = Inr src \<and> resolvePath fs (ex_roots ex) raw2 = Inr dst
    \<and> Lstat fs src = Inr info \<and> Lstat fs dst = Inl NotExist \<and> removable ex args src fs info = Inr k
    \<and> src \<noteq> dst"
  using assms
  by (auto simp: move_checks_def result_Inr samePath_def split: if_split_asm)

lemma delete_checks_Inr:
  assumes "delete_checks ex args fs = Inr (p, k)"
  shows "\<exists>raw info. resolvePath fs (ex_roots ex) raw = Inr p \<and> Lstat fs p = Inr info \<and> removable ex args p fs info = Inr k"
  using assms
  by (auto simp: delete_checks_def result_Inr split: if_split_asm)

lemma resolved_existing:
  assumes "resolvePath fs rc raw = Inr p" "tree fs" "links_clean fs"
  shows "\<exists>q. existing_part fs q p" "list_all clean_component p"
  using resolvePath_sound [OF assms] reachable_existing by blast+

text \<open>A regular file that can be read at a resolved path lies exactly there.\<close>

lemma readRegularFile_at:
  assumes "readRegularFile ex fs p m = Inr data" "tree fs" "existing_part fs q p"
  shows "p = q \<and> node_at fs p = Some (File data)"
proof -
  obtain rest where r: "p = q @ rest" "physical fs q" "rest \<noteq> [] \<longrightarrow> missing fs q (hd rest)"
    using assms(3) by (auto simp: existing_part_def)
  have st: "Stat fs p = Inr (File data)"
    using assms(1) by (auto simp: readRegularFile_def readLimitedFile_def split: sum.splits node.splits if_splits bool.splits)
  have "rest = []"
  proof (cases rest)
    case (Cons c cs)
    then show ?thesis using Stat_missing [OF assms(2) r(2), of c cs] r st by simp
  qed
  then show ?thesis using st Stat_physical assms(2) r by (auto simp: physical_def)
qed

lemma requireFileHash_at:
  assumes "requireFileHash ex fs p expected = Inr ()" "tree fs" "existing_part fs q p"
  shows "\<exists>data. p = q \<and> node_at fs p = Some (File data) \<and> expected = hashBytes data"
  using assms readRegularFile_at by (auto simp: requireFileHash_def bind_result_Inr split: if_splits)

text \<open>The four tools that change files, as one operation.\<close>

datatype fileTool = WriteTool bool | EditTool | MoveTool | DeleteTool

definition file_tool :: "fileTool \<Rightarrow> executor \<Rightarrow> object \<Rightarrow> fs \<Rightarrow> bool \<times> fs" where
  "file_tool t ex args fs =
    (case t of
       WriteTool v4 \<Rightarrow> (case writeFile ex args v4 fs of (r, fs1) \<Rightarrow> (\<not> isl r, fs1))
     | EditTool \<Rightarrow> (case editFile ex args fs of (r, fs1) \<Rightarrow> (\<not> isl r, fs1))
     | MoveTool \<Rightarrow> (case movePath ex args fs of (r, fs1) \<Rightarrow> (\<not> isl r, fs1))
     | DeleteTool \<Rightarrow> (case deletePath ex args fs of (r, fs1) \<Rightarrow> (\<not> isl r, fs1)))"

text \<open>
  What a tool did: it wrote one file, took one away, or moved one, besides directories made where there was
  nothing; a file that was there was only touched with its hash in hand.
\<close>

definition knows :: "object \<Rightarrow> node option \<Rightarrow> bool" where
  "knows args n \<longleftrightarrow> (\<forall>data. n = Some (File data) \<longrightarrow> map_of args ''expected_sha256'' = Some (JStr (hashBytes data)))"

definition changed_at :: "rootsConfig \<Rightarrow> fs \<Rightarrow> fs \<Rightarrow> path \<Rightarrow> path \<Rightarrow> path \<Rightarrow> bool" where
  "changed_at rc fs fs1 x q p \<longleftrightarrow> (\<exists>raw. resolvePath fs rc raw = Inr p) \<and> existing_part fs q p
     \<and> (x = p \<or> node_at fs x = None \<and> strict_prefix q x)"

lemma write_changes:
  assumes "writeFile ex args v4 fs = (r, fs1)" "tree fs" "links_clean fs" "node_at fs1 x \<noteq> node_at fs x"
  shows "(\<exists>p q. changed_at (ex_roots ex) fs fs1 x q p) \<and> (v4 \<longrightarrow> knows args (node_at fs x))"
proof -
  obtain p content createOnly where c: "write_checks ex args v4 fs = Inr (p, content, createOnly)"
    using assms(1,4) by (cases "write_checks ex args v4 fs") (auto simp: writeFile_def)
  obtain raw where raw: "resolvePath fs (ex_roots ex) raw = Inr p"
    and hash: "v4 \<longrightarrow> \<not> createOnly \<longrightarrow> (\<exists>expected. map_of args ''expected_sha256'' = Some (JStr expected)
         \<and> requireFileHash ex fs p expected = Inr ())"
    using write_checks_Inr [OF c] by blast
  obtain q where q: "existing_part fs q p" using resolved_existing(1) [OF raw assms(2,3)] by blast
  note cl = resolved_existing(2) [OF raw assms(2,3)]
  obtain r1 where w: "(if createOnly then atomicCreate ex p content fs else atomicWrite ex p content True fs) = (r1, fs1)"
    using assms(1) c by (auto simp: writeFile_def split: prod.splits sum.splits)
  have "wrote q p content (r1 = Inr ()) fs fs1 \<and> (createOnly \<longrightarrow> r1 = Inr () \<longrightarrow> node_at fs p = None)"
    using w atomicCreate_wrote [OF assms(2) q cl] atomicWrite_wrote [OF assms(2) q cl] by (cases createOnly) auto
  then have x: "node_at fs x = None \<and> strict_prefix q x \<or> x = p \<and> (createOnly \<longrightarrow> node_at fs p = None)"
    using assms(4) unfolding wrote_def by metis
  have "knows args (node_at fs p)" if "v4" "\<not> createOnly"
    using hash that requireFileHash_at [OF _ assms(2) q] by (auto simp: knows_def)
  then have "v4 \<longrightarrow> knows args (node_at fs x)" using x by (cases createOnly) (auto simp: knows_def)
  moreover have "changed_at (ex_roots ex) fs fs1 x q p" using raw q x unfolding changed_at_def by blast
  ultimately show ?thesis by blast
qed

lemma edit_changes:
  assumes "editFile ex args fs = (r, fs1)" "tree fs" "links_clean fs" "node_at fs1 x \<noteq> node_at fs x"
  shows "(\<exists>p q. changed_at (ex_roots ex) fs fs1 x q p) \<and> knows args (node_at fs x)"
proof -
  obtain p data content n where c: "edit_checks ex args fs = Inr (p, data, content, n)"
    using assms(1,4) by (cases "edit_checks ex args fs") (auto simp: editFile_def)
  obtain raw where raw: "resolvePath fs (ex_roots ex) raw = Inr p" "readRegularFile ex fs p maxReadBytes = Inr data"
    "map_of args ''expected_sha256'' = Some (JStr (hashBytes data))"
    using edit_checks_Inr [OF c] by blast
  obtain q where q: "existing_part fs q p" using resolved_existing(1) [OF raw(1) assms(2,3)] by blast
  obtain r1 where "atomicWrite ex p content False fs = (r1, fs1)"
    using assms(1) c by (auto simp: editFile_def split: prod.splits sum.splits)
  then have "wrote q p content (r1 = Inr ()) fs fs1"
    using atomicWrite_wrote [OF assms(2) q resolved_existing(2) [OF raw(1) assms(2,3)]] by blast
  then have x: "node_at fs x = None \<and> strict_prefix q x \<or> x = p"
    using assms(4) unfolding wrote_def by metis
  moreover have "node_at fs p = Some (File data)" using readRegularFile_at [OF raw(2) assms(2) q] by blast
  ultimately have "knows args (node_at fs x)" using raw(3) by (auto simp: knows_def)
  moreover have "changed_at (ex_roots ex) fs fs1 x q p" using raw(1) q x unfolding changed_at_def by blast
  ultimately show ?thesis by blast
qed

lemma place_resolved:
  assumes "Lstat fs p = Inr info" "tree fs" "existing_part fs q p"
  shows "place fs p = Inr p \<and> node_at fs p = Some info"
proof -
  obtain rest where r: "p = q @ rest" "physical fs q" "rest \<noteq> [] \<longrightarrow> missing fs q (hd rest)"
    using assms(3) by (auto simp: existing_part_def)
  show ?thesis
  proof (cases rest)
    case Nil
    then show ?thesis
      using assms(1,2) r place_physical_path [OF assms(2) r(2)] by (auto simp: Lstat_def split: option.splits)
  next
    case (Cons c cs)
    have m: "missing fs q c" using r(3) Cons by simp
    show ?thesis
    proof (cases "cs = []")
      case True
      then have "place fs p = Inr p" using place_physical [OF assms(2) r(2)] m r(1) Cons by (simp add: missing_def)
      then show ?thesis using assms(1) by (auto simp: Lstat_def split: option.splits)
    next
      case False
      then have "butlast p = q @ c # butlast cs" using r(1) Cons by (simp add: butlast_append)
      then obtain e where "Stat fs (butlast p) = Inl e" using Stat_missing [OF assms(2) r(2) m] by metis
      moreover obtain d where "EvalSymlinks fs (butlast p) = Inr d" "node_at fs d = Some Dir"
        using assms(1) r(1) Cons by (auto simp: Lstat_def place_def split: sum.splits if_splits)
      ultimately show ?thesis by (simp add: Stat_def)
    qed
  qed
qed

lemma removable_knows:
  assumes "removable ex args p fs info = Inr k" "tree fs" "existing_part fs q p" "node_at fs p = Some info"
  shows "knows args (node_at fs p)"
  using removable_Inr [OF assms(1)] requireFileHash_at [OF _ assms(2,3)] assms(4) by (auto simp: knows_def)

lemma delete_changes:
  assumes "deletePath ex args fs = (r, fs1)" "tree fs" "links_clean fs" "node_at fs1 x \<noteq> node_at fs x"
  shows "(\<exists>p q. changed_at (ex_roots ex) fs fs1 x q p) \<and> knows args (node_at fs x)"
proof -
  obtain p k where c: "delete_checks ex args fs = Inr (p, k)"
    using assms(1,4) by (cases "delete_checks ex args fs") (auto simp: deletePath_def)
  obtain raw info where raw: "resolvePath fs (ex_roots ex) raw = Inr p" "Lstat fs p = Inr info"
    "removable ex args p fs info = Inr k"
    using delete_checks_Inr [OF c] by blast
  obtain q where q: "existing_part fs q p" using resolved_existing(1) [OF raw(1) assms(2,3)] by blast
  note pl = place_resolved [OF raw(2) assms(2) q]
  have "fs1 = AList.delete p fs" "p \<noteq> []"
    using assms(1,4) c pl by (auto simp: deletePath_def Remove_def split: option.splits if_splits)
  then have x: "x = p" using assms(4) by (auto split: if_splits)
  then have "changed_at (ex_roots ex) fs fs1 x q p" using raw(1) q unfolding changed_at_def by blast
  then show ?thesis using removable_knows [OF raw(3) assms(2) q] pl x by blast
qed

lemma place_free:
  assumes "Lstat fs p = Inl NotExist" "place fs p = Inr t" "tree fs" "existing_part fs q p"
  shows "t = p \<and> node_at fs p = None"
proof -
  obtain rest where r: "p = q @ rest" "physical fs q" "rest \<noteq> [] \<longrightarrow> missing fs q (hd rest)"
    using assms(4) by (auto simp: existing_part_def)
  have "t = p"
  proof (cases rest)
    case Nil
    then show ?thesis using assms(2) r place_physical_path [OF assms(3) r(2)] by simp
  next
    case (Cons c cs)
    have m: "missing fs q c" using r(3) Cons by simp
    show ?thesis
    proof (cases "cs = []")
      case True
      then have "place fs p = Inr p" using place_physical [OF assms(3) r(2)] m r(1) Cons by (simp add: missing_def)
      then show ?thesis using assms(2) by simp
    next
      case False
      then have "butlast p = q @ c # butlast cs" using r(1) Cons by (simp add: butlast_append)
      then obtain e where "Stat fs (butlast p) = Inl e" using Stat_missing [OF assms(3) r(2) m] by metis
      moreover obtain d where "EvalSymlinks fs (butlast p) = Inr d" "node_at fs d = Some Dir"
        using assms(2) r(1) Cons by (auto simp: place_def split: sum.splits if_splits)
      ultimately show ?thesis by (simp add: Stat_def)
    qed
  qed
  then show ?thesis using assms(1,2) by (auto simp: Lstat_def split: option.splits)
qed

lemma move_changes:
  assumes "movePath ex args fs = (r, fs1)" "tree fs" "links_clean fs" "node_at fs1 x \<noteq> node_at fs x"
  shows "(\<exists>p q. changed_at (ex_roots ex) fs fs1 x q p) \<and> knows args (node_at fs x)"
proof -
  obtain src dst k where c: "move_checks ex args fs = Inr (src, dst, k)"
    using assms(1,4) by (cases "move_checks ex args fs") (auto simp: movePath_def)
  obtain raw1 raw2 info where raw: "resolvePath fs (ex_roots ex) raw1 = Inr src"
    "resolvePath fs (ex_roots ex) raw2 = Inr dst" "Lstat fs src = Inr info" "Lstat fs dst = Inl NotExist"
    "removable ex args src fs info = Inr k"
    using move_checks_Inr [OF c] by blast
  obtain q1 q2 where q: "existing_part fs q1 src" "existing_part fs q2 dst"
    using resolved_existing(1) [OF raw(1) assms(2,3)] resolved_existing(1) [OF raw(2) assms(2,3)] by blast
  note s = place_resolved [OF raw(3) assms(2) q(1)]
  obtain fs2 where "Rename fs src dst = Some fs2" "fs1 = fs2"
    using assms(1,4) c by (auto simp: movePath_def split: option.splits if_splits)
  then obtain t where t: "place fs dst = Inr t" "src \<noteq> []" "t \<noteq> []" "fs1 = AList.update t info (AList.delete src fs)"
    using s by (auto simp: Rename_def split: sum.splits if_splits)
  have d: "t = dst" "node_at fs dst = None" using place_free [OF raw(4) t(1) assms(2) q(2)] by simp_all
  then have "x = src \<or> x = dst" using assms(4) t by (auto split: if_splits)
  then show ?thesis
  proof
    assume x: "x = src"
    then have "changed_at (ex_roots ex) fs fs1 x q1 src" using raw(1) q(1) unfolding changed_at_def by blast
    then show ?thesis using removable_knows [OF raw(5) assms(2) q(1)] s x by blast
  next
    assume x: "x = dst"
    then have "changed_at (ex_roots ex) fs fs1 x q2 dst" using raw(2) q(2) unfolding changed_at_def by blast
    then show ?thesis using d x by (auto simp: knows_def)
  qed
qed

lemma file_tool_changes:
  assumes "file_tool t ex args fs = (done, fs1)" "tree fs" "links_clean fs" "node_at fs1 x \<noteq> node_at fs x"
  shows "(\<exists>p q. changed_at (ex_roots ex) fs fs1 x q p) \<and> (t \<noteq> WriteTool False \<longrightarrow> knows args (node_at fs x))"
proof (cases t)
  case (WriteTool v4)
  then obtain r where "writeFile ex args v4 fs = (r, fs1)"
    using assms(1) by (auto simp: file_tool_def split: prod.splits)
  from write_changes [OF this assms(2-4)] show ?thesis using WriteTool by auto
next
  case EditTool
  then obtain r where "editFile ex args fs = (r, fs1)" using assms(1) by (auto simp: file_tool_def split: prod.splits)
  from edit_changes [OF this assms(2-4)] show ?thesis by blast
next
  case MoveTool
  then obtain r where "movePath ex args fs = (r, fs1)" using assms(1) by (auto simp: file_tool_def split: prod.splits)
  from move_changes [OF this assms(2-4)] show ?thesis by blast
next
  case DeleteTool
  then obtain r where "deletePath ex args fs = (r, fs1)" using assms(1) by (auto simp: file_tool_def split: prod.splits)
  from delete_changes [OF this assms(2-4)] show ?thesis by blast
qed

section \<open>An example\<close>

definition example_executor :: executor where
  "example_executor = \<lparr>ex_roots = \<lparr>rc_allowed = [[''home'', ''me'']], rc_unavailable = [], rc_allowAll = False\<rparr>,
     ex_maxResponse = 1000, ex_fault = (\<lambda>_. False), ex_fold = id, ex_lower = id\<rparr>"

lemma example_paths:
  "resolvePath example_fs (ex_roots example_executor) ''/home/me/a.txt'' = Inr [''home'', ''me'', ''a.txt'']"
  "Lstat example_fs (Clean ''/home/me/a.txt'') = Inr (File ''hello'')"
  "Lstat example_fs [''home'', ''me'', ''a.txt''] = Inr (File ''hello'')"
  "Stat example_fs [''home'', ''me'', ''a.txt''] = Inr (File ''hello'')"
  "place example_fs [''home'', ''me'', ''a.txt''] = Inr [''home'', ''me'', ''a.txt'']"
  "node_at example_fs [''home'', ''me'', ''a.txt''] = Some (File ''hello'')"
  by code_simp+

lemma lower_hex_digit: "n < 16 \<Longrightarrow> lower_hex (hex_digit n)"
proof -
  have "list_all (\<lambda>n. lower_hex (hex_digit n)) [0..<16]" by code_simp
  then show "n < 16 \<Longrightarrow> lower_hex (hex_digit n)" by (simp add: list_all_iff)
qed

lemma validateHash_hashBytes: "validateHash (hashBytes data) = Inr ()"
proof -
  have hex: "list_all lower_hex (EncodeToHex bs)" if "list_all (\<lambda>b. b < 256) bs" for bs
    using that by (induction bs) (auto simp: EncodeToHex_def lower_hex_digit)
  have "list_all (\<lambda>b. b < 256) (Sum256 data)" unfolding list_all_iff using Sum256_bytes by blast
  from hex [OF this] have "list_all lower_hex (hashBytes data)" unfolding hashBytes_def .
  moreover have "length (hashBytes data) = 64"
    by (simp add: hashBytes_def EncodeToHex_length Sum256_length)
  ultimately show ?thesis by (simp add: validateHash_def)
qed

definition delete_args :: object where
  "delete_args = [(''path'', JStr ''/home/me/a.txt''), (''expected_sha256'', JStr (hashBytes ''hello''))]"

lemma example_delete: "file_tool DeleteTool example_executor delete_args example_fs
    = (True, AList.delete [''home'', ''me'', ''a.txt''] example_fs)"
proof -
  have "hashBytes ''hello'' \<noteq> []" using validateHash_hashBytes [of "''hello''"] by (auto simp: validateHash_def)
  then have "delete_checks example_executor delete_args example_fs = Inr ([''home'', ''me'', ''a.txt''], FileKind)"
    by (simp add: delete_checks_def delete_args_def onlyArgs_def requiredString_def rejectFinalSymlink_def
        removable_def requireFileHash_def readRegularFile_def readLimitedFile_def validateHash_hashBytes
        example_paths maxReadBytes_def) (simp add: example_executor_def)
  then show ?thesis
    by (simp add: file_tool_def deletePath_def Remove_def example_paths) (simp add: example_executor_def)
qed

section \<open>The properties\<close>


lemma example_confined: "tree example_fs" "links_clean example_fs" "\<not> rc_allowAll (ex_roots example_executor)"
  "\<forall>base \<in> set (rc_allowed (ex_roots example_executor)). physical example_fs base \<and> node_at example_fs base = Some Dir"
proof -
  have "node_at example_fs [''home''] = Some Dir" "node_at example_fs [''home'', ''me''] = Some Dir"
    "list_all clean_component [''home'', ''me'']" by code_simp+
  then show "\<forall>base \<in> set (rc_allowed (ex_roots example_executor)). physical example_fs base \<and> node_at example_fs base = Some Dir"
    by (simp add: example_executor_def physical_def)
qed (simp_all add: example_fs_tree example_executor_def)




section \<open>Edits\<close>

lemma HasPrefix_append: "HasPrefix s p \<longleftrightarrow> s = p @ drop (length p) s"
  unfolding HasPrefix_def by (metis append_eq_conv_conj append_take_drop_id)

lemma HasPrefix_iff: "HasPrefix s p \<longleftrightarrow> prefix p s"
  unfolding HasPrefix_append by (auto simp: prefix_def)

lemma Replace_first:
  assumes "0 < Count old s"
  shows "\<exists>before after. s = before @ old @ after \<and> Replace old new 1 s = before @ new @ after
    \<and> Count old after = Count old s - 1"
  using assms
proof (induction old s rule: Count.induct)
  case (1 old s)
  have ne: "s \<noteq> []" "old \<noteq> []" using 1(3) by (auto simp: Count.simps [of old s])
  show ?case
  proof (cases "HasPrefix s old")
    case True
    have "Replace old new 0 t = t" for t by (simp add: Replace.simps)
    then show ?thesis
      using True ne HasPrefix_append [of s old] Count.simps [of old s] Replace.simps [of old new "Suc 0" s]
      by (intro exI [of _ "[]"] exI [of _ "drop (length old) s"]) simp
  next
    case False
    have "Count old (tl s) = Count old s" using False ne by (simp add: Count.simps [of old s])
    then obtain b a where "tl s = b @ old @ a" "Replace old new 1 (tl s) = b @ new @ a" "Count old a = Count old s - 1"
      using 1(2) [OF _ False] 1(3) ne by auto
    moreover have "Replace old new 1 s = hd s # Replace old new 1 (tl s)"
      using False ne by (simp add: Replace.simps [of old new "Suc 0" s])
    moreover have "s = hd s # tl s" using ne by simp
    ultimately have "s = (hd s # b) @ old @ a \<and> Replace old new 1 s = (hd s # b) @ new @ a
        \<and> Count old a = Count old s - 1" by simp
    then show ?thesis by blast
  qed
qed

lemma Count_0: "Count old s = 0 \<Longrightarrow> old \<noteq> [] \<Longrightarrow> \<not> sublist old s"
proof (induction old s rule: Count.induct)
  case (1 old s)
  show ?case
  proof (cases "s = []")
    case False
    then have "\<not> HasPrefix s old" using 1(3,4) by (auto simp: Count.simps [of old s])
    moreover from this have "\<not> sublist old (tl s)" using 1 False Count.simps [of old s] by auto
    ultimately show ?thesis using False by (cases s) (simp_all add: sublist_Cons_right HasPrefix_iff)
  qed (use 1 in simp)
qed

text \<open>An edit without \<open>replace_all\<close> is exact: it succeeds only when the old text occurs, and once its first
  occurrence is replaced and taken out it occurs no more in what follows; the result differs from the old
  content at that one place and nowhere else.\<close>

theorem apply_edit_exact:
  assumes "apply_edit (JObj edit) content = Inr (content1, n)"
    and "map_of edit ''old_text'' = Some (JStr old)" "map_of edit ''new_text'' = Some (JStr new)"
    and "map_of edit ''replace_all'' \<noteq> Some (JBool True)"
  shows "\<exists>before after. content = before @ old @ after \<and> content1 = before @ new @ after
    \<and> \<not> sublist old after \<and> n = 1 \<and> length content1 \<le> maxReadBytes"
proof -
  have old: "old \<noteq> []" "Count old content = 1" "content1 = Replace old new 1 content" "n = 1"
    "length content1 \<le> maxReadBytes"
    using assms by (auto simp: apply_edit_def result_Inr optionalBool_def Let_def split: if_split_asm)
  then show ?thesis using Replace_first [of old content new] Count_0 [of old] by auto
qed

theorem apply_edit_exact_witness:
  "apply_edit (JObj [(''old_text'', JStr ''b''), (''new_text'', JStr ''xy'')]) ''abc'' = Inr (''axyc'', 1)
   \<and> (\<exists>before after. ''abc'' = before @ ''b'' @ after \<and> ''axyc'' = before @ ''xy'' @ after)"
proof -
  have run: "apply_edit (JObj [(''old_text'', JStr ''b''), (''new_text'', JStr ''xy'')]) ''abc'' = Inr (''axyc'', 1)"
    by (simp add: apply_edit_def onlyArgs_def optionalBool_def Count.simps Replace.simps HasPrefix_def Let_def maxReadBytes_def)
  have args: "map_of [(''old_text'', JStr ''b''), (''new_text'', JStr ''xy'')] ''old_text'' = Some (JStr ''b'')"
    "map_of [(''old_text'', JStr ''b''), (''new_text'', JStr ''xy'')] ''new_text'' = Some (JStr ''xy'')"
    "map_of [(''old_text'', JStr ''b''), (''new_text'', JStr ''xy'')] ''replace_all'' \<noteq> Some (JBool True)"
    by simp_all
  obtain before after where "''abc'' = before @ ''b'' @ after" "''axyc'' = before @ ''xy'' @ after"
    using apply_edit_exact [OF run args] by (elim exE conjE)
  with run show ?thesis by (intro conjI exI [of _ before] exI [of _ after])
qed

end
