(* ===== verification/ReadFacts.thy ===== *)
theory ReadFacts
  imports FileToolFacts
begin

text \<open>
  Reading a file page by page (\<open>readFile\<close> of \<open>cmd/agent/file_tools.go\<close>): following the returned offset with a
  line limit yields the whole file; without a limit the second page is always empty.
\<close>

section \<open>Lines\<close>

lemma SplitAfter_not_Nil [simp]: "SplitAfter c s \<noteq> []"
  by (cases s) (auto split: list.splits)

lemma concat_SplitAfter: "concat (SplitAfter c s) = s"
proof (induction s)
  case (Cons x xs)
  then show ?case by (cases "SplitAfter c xs") auto
qed simp

lemma concat_file_lines: "concat (file_lines data) = data"
proof -
  have "concat (butlast ls) = concat ls" if "ls \<noteq> []" "last ls = []" for ls :: "string list"
    using that append_butlast_last_id [of ls] by (metis append_Nil2 concat_append concat.simps)
  then show ?thesis
    using concat_SplitAfter [of "CHR 0x0A" data] by (auto simp: file_lines_def Let_def)
qed

lemma file_lines_nonempty: "l \<in> set (file_lines data) \<Longrightarrow> l \<noteq> []"
proof -
  have inner: "l \<noteq> []" if "l \<in> set (butlast (SplitAfter c s))" for c s l
    using that
  proof (induction s arbitrary: l)
    case (Cons x xs)
    then show ?case by (cases "SplitAfter c xs") (auto split: if_splits)
  qed simp
  assume "l \<in> set (file_lines data)"
  then show ?thesis
    using inner [of l "CHR 0x0A" data] in_set_butlastD
    by (cases "SplitAfter (CHR 0x0A) data" rule: rev_cases) (auto simp: file_lines_def Let_def split: if_splits)
qed

text \<open>What fits: a non-empty run of lines, when every line fits on its own.\<close>

lemma take_lines_fits:
  assumes "list_all (\<lambda>l. length l \<le> m \<and> l \<noteq> []) ls"
  shows "\<exists>k \<le> length ls. take_lines m ls content n = (content @ concat (take k ls), n + k, k < length ls)
    \<and> (content = [] \<longrightarrow> ls \<noteq> [] \<longrightarrow> 0 < k)"
  using assms
proof (induction ls arbitrary: content n)
  case (Cons l ls)
  show ?case
  proof (cases "length content + length l > m")
    case True
    then show ?thesis using Cons.prems by (intro exI [of _ 0]) auto
  next
    case False
    obtain k where "k \<le> length ls" "take_lines m ls (content @ l) (Suc n)
        = ((content @ l) @ concat (take k ls), Suc n + k, k < length ls)"
      using Cons.IH [of "content @ l" "Suc n"] Cons.prems by auto
    then show ?thesis using False by (intro exI [of _ "Suc k"]) simp
  qed
qed simp

section \<open>Following the offset\<close>

text \<open>A client that reads from the first line with a fixed line limit until nothing is left.\<close>

fun follow_file :: "nat \<Rightarrow> nat \<Rightarrow> path \<Rightarrow> string \<Rightarrow> int \<Rightarrow> int \<Rightarrow> string option" where
  "follow_file 0 maxResponse p data limit offset = None"
| "follow_file (Suc fuel) maxResponse p data limit offset =
    (let page = read_page maxResponse p data offset limit
     in if rr_truncated page
        then map_option ((@) (rr_content page)) (follow_file fuel maxResponse p data limit (rr_nextOffset page))
        else Some (rr_content page))"

lemma wrap_int_id: "- (2 ^ 63) \<le> n \<Longrightarrow> n < 2 ^ 63 \<Longrightarrow> wrap_int n = n"
  by (simp add: wrap_int_def)

lemma read_page_lines:
  assumes "list_all (\<lambda>l. length l \<le> m) (file_lines data)" "i \<le> length (file_lines data)"
    "1 \<le> limit" "limit + int (length (file_lines data)) < 2 ^ 63"
  shows "\<exists>k. i + k \<le> length (file_lines data) \<and> (i < length (file_lines data) \<longrightarrow> 0 < k)
    \<and> rr_content (read_page m p data (int i + 1) limit) = concat (take k (drop i (file_lines data)))
    \<and> rr_nextOffset (read_page m p data (int i + 1) limit) = int (i + k) + 1
    \<and> rr_truncated (read_page m p data (int i + 1) limit) = (i + k < length (file_lines data))"
proof -
  let ?ls = "file_lines data"
  let ?r = "min (nat limit) (length ?ls - i)"
  have req: "nat (min (wrap_int (int i + limit)) (int (length ?ls)) - int i) = ?r"
    using assms(2-4) by (subst wrap_int_id) auto
  let ?win = "take ?r (drop i ?ls)"
  have ok: "list_all (\<lambda>l. length l \<le> m \<and> l \<noteq> []) ?win"
    using assms(1) file_lines_nonempty by (auto simp: list_all_iff dest!: in_set_takeD in_set_dropD)
  obtain k where k: "k \<le> length ?win" "take_lines m ?win [] 0 = (concat (take k ?win), k, k < length ?win)"
    "?win \<noteq> [] \<longrightarrow> 0 < k"
    using take_lines_fits [OF ok, of "[]" 0] unfolding append_Nil add_0 by blast
  have page: "read_page m p data (int i + 1) limit = \<lparr>rr_path = p, rr_content = concat (take k ?win),
      rr_sha256 = hashBytes data, rr_size = length data, rr_offset = int i + 1, rr_lineCount = int k,
      rr_nextOffset = int i + int k + 1, rr_truncated = (int i + int k < int (length ?ls) \<or> k < length ?win)\<rparr>"
    using assms(2) k(2) req by (simp add: read_page_def Let_def min_absorb1)
  have "take k ?win = take k (drop i ?ls)" using k(1) by (simp add: min_absorb1)
  then show ?thesis
    using k assms(2,3) unfolding page by (intro exI [of _ k]) auto
qed

lemma follow_file_from:
  assumes "list_all (\<lambda>l. length l \<le> m) (file_lines data)" "1 \<le> limit"
    "limit + int (length (file_lines data)) < 2 ^ 63"
    "i \<le> length (file_lines data)" "length (file_lines data) - i < fuel"
  shows "follow_file fuel m p data limit (int i + 1) = Some (concat (drop i (file_lines data)))"
  using assms(4,5)
proof (induction fuel arbitrary: i)
  case (Suc fuel)
  let ?ls = "file_lines data"
  obtain k where k: "i + k \<le> length ?ls" "i < length ?ls \<longrightarrow> 0 < k"
    "rr_content (read_page m p data (int i + 1) limit) = concat (take k (drop i ?ls))"
    "rr_nextOffset (read_page m p data (int i + 1) limit) = int (i + k) + 1"
    "rr_truncated (read_page m p data (int i + 1) limit) = (i + k < length ?ls)"
    using read_page_lines [OF assms(1) Suc.prems(1) assms(2,3)] by blast
  have "drop (i + k) ?ls = drop k (drop i ?ls)" by (simp add: add.commute)
  then have split: "concat (drop i ?ls) = concat (take k (drop i ?ls)) @ concat (drop (i + k) ?ls)"
    by (simp only: concat_append [symmetric] append_take_drop_id)
  show ?case
  proof (cases "i + k < length ?ls")
    case True
    then have "follow_file fuel m p data limit (int (i + k) + 1) = Some (concat (drop (i + k) ?ls))"
      using k(1,2) Suc.prems by (intro Suc.IH) auto
    then show ?thesis unfolding follow_file.simps Let_def k(3-5) split using True by simp
  next
    case False
    then show ?thesis unfolding follow_file.simps Let_def k(3-5) split by simp
  qed
qed simp



text \<open>Without a line limit only the first page can be read: on any later offset within the file the default
  limit, the largest \<open>int\<close>, overflows when the offset is added, so that the page is empty, claims to be truncated and
  sends the client back to the same offset.\<close>

theorem read_without_limit_stalls:
  assumes "2 \<le> offset" "offset \<le> int (length (file_lines data))" "offset \<le> maxInt"
  shows "rr_content (read_page maxResponse p data offset maxInt) = []
    \<and> rr_nextOffset (read_page maxResponse p data offset maxInt) = offset
    \<and> rr_truncated (read_page maxResponse p data offset maxInt)
    \<and> follow_file fuel maxResponse p data maxInt offset = None"
proof -
  have "(offset - 2) mod 2 ^ 64 = offset - 2"
    using assms(1,3) by (intro mod_pos_pos_trivial) (simp_all add: maxInt_def)
  then have "(offset - 2 + 2 ^ 64) mod 2 ^ 64 = offset - 2" using mod_add_self2 [of "offset - 2" "2 ^ 64"] by (simp only:)
  moreover have "offset - 1 + maxInt + 2 ^ 63 = offset - 2 + 2 ^ 64" by (simp add: maxInt_def)
  ultimately have "wrap_int (offset - 1 + maxInt) = offset - 2 - 2 ^ 63" by (simp only: wrap_int_def)
  then have page: "rr_content (read_page maxResponse p data offset maxInt) = []
    \<and> rr_nextOffset (read_page maxResponse p data offset maxInt) = offset
    \<and> rr_truncated (read_page maxResponse p data offset maxInt)"
    using assms by (simp add: read_page_def Let_def maxInt_def)
  moreover from this have "follow_file fuel maxResponse p data maxInt offset = None"
    by (induction fuel) (simp_all add: Let_def)
  ultimately show ?thesis by blast
qed

theorem read_without_limit_stalls_witness:
  "\<exists>res. readFile example_executor [(''path'', JStr ''/home/me/two.txt''), (''offset'', JNum 2)]
       (([''home'', ''me'', ''two.txt''], File [CHR ''a'', CHR 0x0A, CHR ''b'']) # example_fs) = Inr res
     \<and> rr_content res = [] \<and> rr_nextOffset res = 2 \<and> rr_truncated res"
proof -
  let ?d = "[CHR ''a'', CHR 0x0A, CHR ''b'']"
  let ?fs = "([''home'', ''me'', ''two.txt''], File ?d) # example_fs" and ?p = "[''home'', ''me'', ''two.txt'']"
  have "resolvePath ?fs (ex_roots example_executor) ''/home/me/two.txt'' = Inr ?p" "Stat ?fs ?p = Inr (File ?d)"
    "\<not> isBinary ?d" by code_simp+
  then have run: "readFile example_executor [(''path'', JStr ''/home/me/two.txt''), (''offset'', JNum 2)] ?fs
      = Inr (read_page (ex_maxResponse example_executor) ?p ?d 2 maxInt)"
    by (simp add: readFile_def onlyArgs_def requiredString_def readRegularFile_def readLimitedFile_def optionalInt_def
        maxReadBytes_def) (simp add: example_executor_def maxInt_def)
  have "file_lines ?d = [[CHR ''a'', CHR 0x0A], [CHR ''b'']]" by code_simp
  then show ?thesis
    using run read_without_limit_stalls [of 2 ?d "ex_maxResponse example_executor" ?p 0] by (simp add: maxInt_def)
qed

end
