(* ===== verification/Launch.thy ===== *)
theory Launch
  imports FileTools
begin

text \<open>
  The first half of \<open>execCommand\<close> (\<open>cmd/agent/command_sessions.go\<close>): what the arguments of a command are
  checked for and the process they describe. \<open>environ\<close> is \<open>os.Environ()\<close>. The shell is the one of Unix.
\<close>

record launch =
  la_command :: string
  la_argv :: "string list"
  la_env :: "string list"
  la_stdin :: "string option"
  la_cwd :: path
  la_timeout :: int
  la_yield :: int

definition maxStdinBytes :: nat where "maxStdinBytes = 10 * 2 ^ 20"

definition localShellCommand :: "string \<Rightarrow> string list" where
  "localShellCommand command = [''/bin/sh'', ''-c'', command]"

section \<open>Argument vectors and environments\<close>

definition no_NUL :: "string \<Rightarrow> bool" where
  "no_NUL s \<longleftrightarrow> CHR 0x00 \<notin> set s"

fun argv_strings :: "bool \<Rightarrow> json list \<Rightarrow> string list option" where
  "argv_strings start [] = Some []"
| "argv_strings start (v # vs) =
    (case v of
       JStr argument \<Rightarrow>
         if start \<and> argument = [] \<or> \<not> no_NUL argument then None
         else map_option ((#) argument) (argv_strings False vs)
     | _ \<Rightarrow> None)"

definition parseArgv :: "json \<Rightarrow> string list result" where
  "parseArgv raw =
    (case raw of
       JArr values \<Rightarrow>
         if values = [] then Inl (toolErr ''invalid_arguments'' ''argv must be a non-empty string array'')
         else (case argv_strings True values of
             None \<Rightarrow> Inl (toolErr ''invalid_arguments'' ''argv must contain valid strings and a non-empty executable'')
           | Some argv \<Rightarrow> Inr argv)
     | _ \<Rightarrow> Inl (toolErr ''invalid_arguments'' ''argv must be a non-empty string array''))"

definition name_start :: "char \<Rightarrow> bool" where
  "name_start c \<longleftrightarrow> c \<in> set ''ABCDEFGHIJKLMNOPQRSTUVWXYZabcdefghijklmnopqrstuvwxyz_''"

definition environmentName :: "string \<Rightarrow> bool" where
  "environmentName s \<longleftrightarrow> s \<noteq> [] \<and> name_start (hd s) \<and> list_all (\<lambda>c. name_start c \<or> c \<in> set ''0123456789'') (tl s)"

definition environment_entry :: "string \<times> json \<Rightarrow> (string \<times> string) option" where
  "environment_entry v =
    (case snd v of
       JStr value \<Rightarrow> if environmentName (fst v) \<and> no_NUL value then Some (fst v, value) else None
     | _ \<Rightarrow> None)"

definition parseEnvironment :: "json option \<Rightarrow> string list result" where
  "parseEnvironment raw =
    (case raw of
       None \<Rightarrow> Inr []
     | Some JNull \<Rightarrow> Inr []
     | Some (JObj values) \<Rightarrow>
         (case those (map environment_entry values) of
            None \<Rightarrow> Inl (toolErr ''invalid_arguments'' ''env contains an invalid name or value'')
          | Some entries \<Rightarrow> Inr (map (\<lambda>(name, value). name @ ''='' @ value) (sort_key fst entries)))
     | Some _ \<Rightarrow> Inl (toolErr ''invalid_arguments'' ''env must be an object of string values''))"

section \<open>The command\<close>

text \<open>Exactly one of a shell command and an argument vector; before v4 only the former.\<close>

definition command_of :: "object \<Rightarrow> bool \<Rightarrow> (string \<times> string list) result" where
  "command_of args v4 =
    (let rawArgv = map_of args ''argv'';
         command = (case map_of args ''command'' of Some (JStr c) \<Rightarrow> Some c | _ \<Rightarrow> None)
     in if \<not> v4 \<and> (command = None \<or> command = Some [])
        then Inl (toolErr ''invalid_arguments'' ''command is required'')
        else if v4 \<and> ((command \<noteq> None) = (rawArgv \<noteq> None) \<or> command = Some [])
        then Inl (toolErr ''invalid_arguments'' ''exactly one non-empty command or argv is required'')
        else (case command of
               Some c \<Rightarrow> Inr (c, localShellCommand c)
             | None \<Rightarrow> bind_result (parseArgv (case rawArgv of Some v \<Rightarrow> v | None \<Rightarrow> JNull)) (\<lambda>argv. Inr ([], argv))))"

definition surroundings :: "string list \<Rightarrow> object \<Rightarrow> bool \<Rightarrow> (string list \<times> string option) result" where
  "surroundings environ args v4 =
    (if v4
     then bind_result (parseEnvironment (map_of args ''env'')) (\<lambda>overlay.
          bind_result (optionalString args ''stdin'') (\<lambda>stdin.
            if length stdin > maxStdinBytes then Inl (toolErr ''too_large'' ''stdin exceeds size limit'')
            else Inr (environ @ overlay, if map_of args ''stdin'' = None then None else Some stdin)))
     else Inr (environ, None))"

definition exec_checks :: "executor \<Rightarrow> string list \<Rightarrow> object \<Rightarrow> bool \<Rightarrow> fs \<Rightarrow> launch result" where
  "exec_checks ex environ args v4 fs =
    bind_result (onlyArgs args ([''command'', ''cwd'', ''timeout_seconds'', ''yield_time_ms'']
                                @ (if v4 then [''argv'', ''env'', ''stdin''] else []))) (\<lambda>_.
    bind_result (requiredString args ''cwd'') (\<lambda>rawCWD.
    bind_result (resolvePath fs (ex_roots ex) rawCWD) (\<lambda>cwd.
      case Stat fs cwd of
        Inl e \<Rightarrow> Inl (pathError ''inspect cwd'' e)
      | Inr info \<Rightarrow>
          if info \<noteq> Dir then Inl (toolErr ''not_directory'' ''cwd is not a directory'')
          else bind_result (optionalInt args ''timeout_seconds'' 1200 1 86400) (\<lambda>timeoutSeconds.
               bind_result (optionalInt args ''yield_time_ms'' 1000 0 30000) (\<lambda>yieldMS.
               bind_result (command_of args v4) (\<lambda>(command, argv).
               bind_result (surroundings environ args v4) (\<lambda>(environment, stdin).
                 Inr \<lparr>la_command = command, la_argv = argv, la_env = environment, la_stdin = stdin, la_cwd = cwd,
                      la_timeout = timeoutSeconds, la_yield = yieldMS\<rparr>)))))))"

text \<open>A command that passes the checks runs under a root, in a directory, with an executable to run.\<close>

lemma argv_strings_Some:
  "argv_strings start vs = Some argv \<Longrightarrow> vs \<noteq> [] \<Longrightarrow> argv \<noteq> [] \<and> (start \<longrightarrow> hd argv \<noteq> []) \<and> list_all no_NUL argv"
proof (induction vs arbitrary: start argv)
  case (Cons v vs)
  then show ?case by (cases v; cases "vs = []") (auto split: if_splits)
qed simp

lemma command_of_Inr:
  "command_of args v4 = Inr (command, argv) \<Longrightarrow> argv \<noteq> [] \<and> hd argv \<noteq> []"
  by (auto simp: command_of_def parseArgv_def localShellCommand_def Let_def result_Inr split: json.splits option.splits if_splits
      dest!: argv_strings_Some)

lemma exec_checks_Inr:
  assumes "exec_checks ex environ args v4 fs = Inr la"
  shows "(\<exists>raw. resolvePath fs (ex_roots ex) raw = Inr (la_cwd la)) \<and> Stat fs (la_cwd la) = Inr Dir
    \<and> la_argv la \<noteq> [] \<and> hd (la_argv la) \<noteq> [] \<and> 1 \<le> la_timeout la \<and> la_timeout la \<le> 86400
    \<and> 0 \<le> la_yield la \<and> la_yield la \<le> 30000"
proof -
  obtain raw cwd secs ms command argv environment stdin where r: "resolvePath fs (ex_roots ex) raw = Inr cwd"
    "Stat fs cwd = Inr Dir" "optionalInt args ''timeout_seconds'' 1200 1 86400 = Inr secs"
    "optionalInt args ''yield_time_ms'' 1000 0 30000 = Inr ms" "command_of args v4 = Inr (command, argv)"
    "la = \<lparr>la_command = command, la_argv = argv, la_env = environment, la_stdin = stdin, la_cwd = cwd,
           la_timeout = secs, la_yield = ms\<rparr>"
    using assms by (auto simp: exec_checks_def result_Inr split: prod.splits)
  then show ?thesis
    using optionalInt_range [OF r(3)] optionalInt_range [OF r(4)] command_of_Inr [OF r(5)] by auto
qed

end
