(* ===== verification/CommandLogs.thy ===== *)
theory CommandLogs
  imports Utf8
begin

text \<open>
  The logs of a command session (\<open>cmd/agent/command_sessions.go\<close>): writing a stream under the budget that the
  two streams share, and reading pages back from a byte offset. A file is its bytes; None stands for a
  file that cannot be opened or read.
\<close>

section \<open>Writing under a budget\<close>

record logBudget =
  lb_remaining :: int
  lb_stdoutTruncated :: bool
  lb_stderrTruncated :: bool

record commandLog =
  cl_budget :: logBudget
  cl_stdout :: string
  cl_stderr :: string

definition fresh_log :: "nat \<Rightarrow> commandLog" where
  "fresh_log maxLogBytes =
     \<lparr>cl_budget = \<lparr>lb_remaining = int maxLogBytes, lb_stdoutTruncated = False, lb_stderrTruncated = False\<rparr>,
      cl_stdout = [], cl_stderr = []\<rparr>"

text \<open>\<open>fault\<close> is the number of bytes the disk took before it failed, None for a write that succeeds.\<close>

definition mark_truncated :: "bool \<Rightarrow> logBudget \<Rightarrow> logBudget" where
  "mark_truncated stderr b =
    (if stderr then b\<lparr>lb_stderrTruncated := True\<rparr> else b\<lparr>lb_stdoutTruncated := True\<rparr>)"

definition append_log :: "bool \<Rightarrow> string \<Rightarrow> commandLog \<Rightarrow> commandLog" where
  "append_log stderr part s =
    (let b = cl_budget s; s1 = s\<lparr>cl_budget := b\<lparr>lb_remaining := lb_remaining b - int (length part)\<rparr>\<rparr>
     in if stderr then s1\<lparr>cl_stderr := cl_stderr s @ part\<rparr> else s1\<lparr>cl_stdout := cl_stdout s @ part\<rparr>)"

definition Write :: "bool \<Rightarrow> string \<Rightarrow> nat option \<Rightarrow> commandLog \<Rightarrow> nat option \<times> commandLog" where
  "Write stderr data fault s =
    (let b = cl_budget s;
         over = int (length data) > lb_remaining b;
         part = (if over then take (nat (lb_remaining b)) data else data);
         s1 = (if over then s\<lparr>cl_budget := mark_truncated stderr b\<rparr> else s)
     in if part = [] then (Some (length data), s1)
        else (case fault of
                None \<Rightarrow> (Some (length data), append_log stderr part s1)
              | Some n \<Rightarrow> (None, append_log stderr (take n part) s1)))"

lemmas log_write_defs = Write_def append_log_def mark_truncated_def fresh_log_def

definition stored :: "commandLog \<Rightarrow> nat" where
  "stored s = length (cl_stdout s) + length (cl_stderr s)"

lemma Write_stored:
  assumes "0 \<le> lb_remaining (cl_budget s)" "Write stderr data fault s = (r, s')"
  shows "0 \<le> lb_remaining (cl_budget s')
    \<and> int (stored s') + lb_remaining (cl_budget s') = int (stored s) + lb_remaining (cl_budget s)"
  using assms
  by (auto simp: log_write_defs stored_def Let_def split: if_splits option.splits)

inductive log_step :: "commandLog \<Rightarrow> commandLog \<Rightarrow> bool" where
  "Write stderr data fault s = (r, s') \<Longrightarrow> log_step s s'"

interpretation command_log: bounded_system "\<lambda>s. s = fresh_log maxLogBytes" log_step
  "\<lambda>s. 0 \<le> lb_remaining (cl_budget s) \<and> int (stored s) + lb_remaining (cl_budget s) = int maxLogBytes"
  stored maxLogBytes for maxLogBytes
proof
  show "0 \<le> lb_remaining (cl_budget s) \<and> int (stored s) + lb_remaining (cl_budget s) = int maxLogBytes"
    if "s = fresh_log maxLogBytes" for s
    using that by (simp add: fresh_log_def stored_def)
qed (auto elim!: log_step.cases dest: Write_stored)

text \<open>What the two streams sent, and a run of writes that the disk takes in full.\<close>

definition sent :: "bool \<Rightarrow> (bool \<times> string) list \<Rightarrow> string" where
  "sent stderr ws = concat (map snd (filter (\<lambda>(e, _). e = stderr) ws))"

definition write_all :: "(bool \<times> string) list \<Rightarrow> commandLog \<Rightarrow> commandLog" where
  "write_all ws s = fold (\<lambda>(stderr, data) s. snd (Write stderr data None s)) ws s"

definition saved :: "bool \<Rightarrow> commandLog \<Rightarrow> string" where
  "saved stderr s = (if stderr then cl_stderr s else cl_stdout s)"

definition truncated :: "bool \<Rightarrow> commandLog \<Rightarrow> bool" where
  "truncated stderr s = (if stderr then lb_stderrTruncated else lb_stdoutTruncated) (cl_budget s)"

text \<open>
  The relation between what a stream sent and what was saved of it: everything while nothing was cut, a
  proper prefix afterwards, and then nothing more fits.
\<close>

definition faithful :: "(bool \<times> string) list \<Rightarrow> commandLog \<Rightarrow> bool" where
  "faithful ws s \<longleftrightarrow> 0 \<le> lb_remaining (cl_budget s)
     \<and> (\<forall>e. (truncated e s \<longrightarrow> lb_remaining (cl_budget s) = 0 \<and> strict_prefix (saved e s) (sent e ws))
          \<and> (\<not> truncated e s \<longrightarrow> saved e s = sent e ws))"

lemma sent_snoc: "sent e (ws @ [(e', data)]) = sent e ws @ (if e' = e then data else [])"
  by (simp add: sent_def)

lemma strict_prefix_append: "strict_prefix a b \<Longrightarrow> strict_prefix a (b @ c)"
  by (auto simp: strict_prefix_def prefix_def)

lemma strict_prefix_take: "n < length b \<Longrightarrow> strict_prefix (a @ take n b) (a @ b)"
  by (simp add: take_is_prefix strict_prefix_def)

lemma Write_faithful:
  assumes "faithful ws s"
  shows "faithful (ws @ [(e, data)]) (snd (Write e data None s))"
proof -
  define s' where "s' = snd (Write e data None s)"
  let ?r = "lb_remaining (cl_budget s)"
  have r: "0 \<le> ?r" using assms by (simp add: faithful_def)
  have other: "saved (\<not> e) s' = saved (\<not> e) s" "truncated (\<not> e) s' = truncated (\<not> e) s"
    by (auto simp: s'_def saved_def truncated_def log_write_defs Let_def)
  have self: "saved e s' = saved e s @ take (nat ?r) data"
    "truncated e s' \<longleftrightarrow> truncated e s \<or> int (length data) > ?r"
    "lb_remaining (cl_budget s') = ?r - int (min (nat ?r) (length data))"
    using r by (auto simp: s'_def saved_def truncated_def log_write_defs Let_def)
  show ?thesis
    unfolding faithful_def s'_def [symmetric]
  proof (intro conjI allI)
    show "0 \<le> lb_remaining (cl_budget s')" using self(3) r by simp
    fix d
    have d: "truncated d s \<Longrightarrow> ?r = 0 \<and> strict_prefix (saved d s) (sent d ws)"
      "\<not> truncated d s \<Longrightarrow> saved d s = sent d ws"
      using assms by (simp_all add: faithful_def)
    show "truncated d s' \<longrightarrow> lb_remaining (cl_budget s') = 0
        \<and> strict_prefix (saved d s') (sent d (ws @ [(e, data)]))"
    proof
      assume t: "truncated d s'"
      show "lb_remaining (cl_budget s') = 0 \<and> strict_prefix (saved d s') (sent d (ws @ [(e, data)]))"
      proof (cases "truncated d s")
        case True
        then have "?r = 0" "strict_prefix (saved d s) (sent d ws)" using d(1) by simp_all
        moreover from this have "saved d s' = saved d s" using self(1) other(1) by (cases "d = e") simp_all
        ultimately show ?thesis using self(3) by (simp add: sent_snoc strict_prefix_append)
      next
        case False
        then have de: "d = e" "int (length data) > ?r" using t other(2) self(2) by (cases "d = e"; simp)+
        then show ?thesis using self(1,3) d(2) [OF False] r by (simp add: sent_snoc strict_prefix_take)
      qed
    qed
    show "\<not> truncated d s' \<longrightarrow> saved d s' = sent d (ws @ [(e, data)])"
      using d(2) self(1,2) other r by (cases "d = e") (auto simp: sent_snoc)
  qed
qed

lemma fresh_faithful: "faithful [] (fresh_log n)"
  by (simp add: faithful_def fresh_log_def saved_def sent_def truncated_def)

lemma write_all_faithful: "faithful ws s \<Longrightarrow> faithful (ws @ vs) (write_all vs s)"
proof (induction vs arbitrary: ws s)
  case (Cons v vs)
  obtain e data where v: "v = (e, data)" by force
  have "faithful ((ws @ [v]) @ vs) (write_all vs (snd (Write e data None s)))"
    using Cons.IH [OF Write_faithful [OF Cons.prems, of e data]] v by simp
  then show ?case by (simp add: write_all_def v)
qed (simp add: write_all_def)



section \<open>Reading a page\<close>

definition continuation :: "char \<Rightarrow> bool" where
  "continuation c \<longleftrightarrow> 0x80 \<le> (of_char c :: nat) \<and> (of_char c :: nat) < 0xC0"

text \<open>The text, the offset after it, and whether more bytes follow.\<close>

definition readLog :: "string option \<Rightarrow> nat \<Rightarrow> nat \<Rightarrow> string + string \<times> nat \<times> bool" where
  "readLog file offset maxBytes =
    (case file of
       None \<Rightarrow> Inl ''read log''
     | Some data \<Rightarrow>
         let offset = min offset (length data);
             buffer = take (min maxBytes (length data - offset)) (drop offset data);
             leading = length (takeWhile continuation buffer);
             rest = drop leading buffer;
             validLength = valid_cut (length rest) rest;
             nxt = offset + leading + validLength
         in Inr (take validLength rest, nxt, nxt < length data))"

definition fileSize :: "string option \<Rightarrow> string + nat" where
  "fileSize file = (case file of None \<Rightarrow> Inl ''stat log'' | Some data \<Rightarrow> Inr (length data))"

text \<open>Where each stream starts when no offset is given, and how the page is shared between the two.\<close>

definition log_start :: "nat option \<Rightarrow> nat \<Rightarrow> nat \<Rightarrow> nat" where
  "log_start offset fsize maxBytes =
    (case offset of
       Some n \<Rightarrow> min n fsize
     | None \<Rightarrow> if fsize > maxBytes div 2 then fsize - maxBytes div 2 else 0)"

definition log_limits :: "nat \<Rightarrow> nat \<Rightarrow> nat \<Rightarrow> nat \<times> nat" where
  "log_limits outAvailable errAvailable maxBytes =
    (if errAvailable > 0
     then let outLimit = (maxBytes + 1) div 2; errLimit = maxBytes div 2
          in if outAvailable < outLimit then (outLimit, errLimit + (outLimit - outAvailable))
             else if errAvailable < errLimit then (outLimit + (errLimit - errAvailable), errLimit)
             else (outLimit, errLimit)
     else (maxBytes, 0))"

record separateLogs =
  sl_stdout :: string
  sl_stderr :: string
  sl_stdoutNext :: nat
  sl_stderrNext :: nat
  sl_stdoutMore :: bool
  sl_stderrMore :: bool

definition readSeparateLogs ::
  "string option \<Rightarrow> string option \<Rightarrow> nat option \<Rightarrow> nat option \<Rightarrow> nat \<Rightarrow> string + separateLogs" where
  "readSeparateLogs outFile errFile outOffset errOffset maxBytes =
    (case (fileSize outFile, fileSize errFile) of
       (Inr outSize, Inr errSize) \<Rightarrow>
         let outStart = log_start outOffset outSize maxBytes; errStart = log_start errOffset errSize maxBytes
         in (case log_limits (outSize - outStart) (errSize - errStart) maxBytes of (outLimit, errLimit) \<Rightarrow>
             (case readLog outFile outStart outLimit of
                Inl e \<Rightarrow> Inl e
              | Inr (out, outNext, outMore) \<Rightarrow>
                 (case readLog errFile errStart errLimit of
                    Inl e \<Rightarrow> Inl e
                  | Inr (err, errNext, errMore) \<Rightarrow>
                      Inr \<lparr>sl_stdout = out, sl_stderr = err, sl_stdoutNext = outNext, sl_stderrNext = errNext,
                           sl_stdoutMore = outMore \<or> outStart > 0, sl_stderrMore = errMore \<or> errStart > 0\<rparr>)))
     | (Inl e, _) \<Rightarrow> Inl e
     | (_, Inl e) \<Rightarrow> Inl e)"

text \<open>The older contract numbers the bytes of stdout first and then those of stderr.\<close>

definition readCompatibilityLog ::
  "string option \<Rightarrow> string option \<Rightarrow> nat \<Rightarrow> nat \<Rightarrow> string + string \<times> nat \<times> bool" where
  "readCompatibilityLog outFile errFile offset0 maxBytes =
    (case (fileSize outFile, fileSize errFile) of
       (Inr outSize, Inr errSize) \<Rightarrow>
         let total = outSize + errSize; offset = min offset0 total
         in (case (if offset < outSize then map_sum id (\<lambda>(t, nxt, _). (t, nxt)) (readLog outFile offset maxBytes)
                   else Inr ([], offset)) of
               Inl e \<Rightarrow> Inl e
             | Inr (text1, virtualOffset) \<Rightarrow>
                 if virtualOffset \<ge> outSize \<and> length text1 < maxBytes
                 then (case readLog errFile (virtualOffset - outSize) (maxBytes - length text1) of
                         Inl e \<Rightarrow> Inl e
                       | Inr (text2, nxt, _) \<Rightarrow> Inr (text1 @ text2, outSize + nxt, outSize + nxt < total))
                 else Inr (text1, virtualOffset, virtualOffset < total))
     | (Inl e, _) \<Rightarrow> Inl e
     | (_, Inl e) \<Rightarrow> Inl e)"

section \<open>Reading page after page\<close>

text \<open>A page that starts at a rune boundary of a valid text continues it to another boundary.\<close>

lemma continuation_rune: "continuation c \<Longrightarrow> rune_len (c # s) = 0"
  by (auto simp: continuation_def tail_ranges_def Let_def)

lemma valid_no_continuation: "valid_utf8 s \<Longrightarrow> takeWhile continuation (take k s) = []"
  using valid_iff [of s] continuation_rune by (cases s; cases k) auto

definition page :: "nat \<Rightarrow> string \<Rightarrow> nat" where
  "page k b = valid_cut (min k (length b)) b"

lemma page_le: "page k b \<le> k" "page k b \<le> length b"
  using valid_cut_le [of "min k (length b)" b] by (simp_all add: page_def)

lemma page_progress: "valid_utf8 b \<Longrightarrow> b \<noteq> [] \<Longrightarrow> 4 \<le> k \<Longrightarrow> 0 < page k b"
proof -
  assume b: "valid_utf8 b" "b \<noteq> []" "4 \<le> k"
  show ?thesis
  proof (cases "length b \<le> k")
    case True
    then have "length b \<le> page k b" using valid_cut_longest [of "length b" "length b" b] b(1) by (simp add: page_def)
    then show ?thesis using b(2) by (cases "page k b") simp_all
  next
    case False
    then show ?thesis using valid_cut_near [OF b(1), of k] b(3) by (simp add: page_def)
  qed
qed

lemma page_rest: "valid_utf8 b \<Longrightarrow> valid_utf8 (drop (page k b) b)"
  by (simp add: page_def valid_cut_drop)

lemma valid_cut_take: "k \<le> n \<Longrightarrow> valid_cut k (take n s) = valid_cut k s"
  by (induction k) (simp_all add: min_def)

lemma readLog_page:
  assumes "valid_utf8 b"
  shows "readLog (Some (a @ b)) (length a) k
    = Inr (take (page k b) b, length a + page k b, page k b < length b)"
proof -
  have "takeWhile continuation (take (min k (length b)) b) = []" using valid_no_continuation [OF assms] .
  moreover have "take (valid_cut (min k (length b)) b) (take (min k (length b)) b) = take (page k b) b"
    using valid_cut_le [of "min k (length b)" b] by (simp add: page_def min_def)
  ultimately show ?thesis
    by (simp add: readLog_def Let_def page_def valid_cut_take)
qed

text \<open>
  A client that polls from the start and follows the returned offset until nothing more follows; None when
  \<open>fuel\<close> polls were not enough.
\<close>

fun follow_log :: "nat \<Rightarrow> nat \<Rightarrow> string option \<Rightarrow> string option \<Rightarrow> nat \<Rightarrow> string option" where
  "follow_log 0 maxBytes outFile errFile offset = None"
| "follow_log (Suc fuel) maxBytes outFile errFile offset =
    (case readCompatibilityLog outFile errFile offset maxBytes of
       Inl e \<Rightarrow> None
     | Inr (t, nxt, again) \<Rightarrow>
         if again then map_option ((@) t) (follow_log fuel maxBytes outFile errFile nxt) else Some t)"

lemma compatibility_err:
  assumes "valid_utf8 d"
  shows "readCompatibilityLog (Some out) (Some (c @ d)) (length out + length c) maxBytes
    = Inr (take (page maxBytes d) d, length out + (length c + page maxBytes d), page maxBytes d < length d)"
proof -
  have "page maxBytes d < length d \<longleftrightarrow> d \<noteq> []" if "\<not> 0 < maxBytes"
    using that page_le(1) [of maxBytes d] by simp
  then show ?thesis
    using page_le(1) [of maxBytes d]
    by (auto simp: readCompatibilityLog_def fileSize_def Let_def readLog_page [OF assms])
qed

lemma compatibility_out:
  assumes "valid_utf8 b" "valid_utf8 err" "b \<noteq> []"
  shows "readCompatibilityLog (Some (a @ b)) (Some err) (length a) maxBytes
    = (let n = page maxBytes b; m = (if n = length b then page (maxBytes - n) err else 0)
       in Inr (take n b @ take m err, length a + n + m, n + m < length b + length err))"
proof -
  note out = readLog_page [OF assms(1), of a maxBytes]
  note err = readLog_page [OF assms(2), of "[]"]
  show ?thesis
    using assms(3) page_le [of maxBytes b] page_le(1) [of "maxBytes - page maxBytes b" err]
    by (auto simp: readCompatibilityLog_def fileSize_def Let_def out err [simplified])
qed

lemma follow_err:
  assumes "valid_utf8 d" "4 \<le> maxBytes" "length d < fuel"
  shows "follow_log fuel maxBytes (Some out) (Some (c @ d)) (length out + length c) = Some d"
  using assms
proof (induction fuel arbitrary: c d)
  case (Suc fuel)
  show ?case
  proof (cases "page maxBytes d < length d")
    case False
    then have "take (page maxBytes d) d = d" by simp
    then show ?thesis using False Suc.prems(1) by (simp add: compatibility_err)
  next
    case True
    let ?n = "page maxBytes d"
    have "d \<noteq> []" using True by auto
    then have "0 < ?n" using page_progress Suc.prems(1,2) by simp
    then have "follow_log fuel maxBytes (Some out) (Some ((c @ take ?n d) @ drop ?n d))
        (length out + length (c @ take ?n d)) = Some (drop ?n d)"
      using Suc.prems True by (intro Suc.IH) (simp_all add: page_rest)
    then show ?thesis using Suc.prems(1) True by (simp add: compatibility_err add.assoc)
  qed
qed simp

lemma follow_out:
  assumes "valid_utf8 b" "valid_utf8 err" "4 \<le> maxBytes" "length b + length err < fuel"
  shows "follow_log fuel maxBytes (Some (a @ b)) (Some err) (length a) = Some (b @ err)"
  using assms
proof (induction fuel arbitrary: a b)
  case (Suc fuel)
  let ?n = "page maxBytes b"
  show ?case
  proof (cases "b = []")
    case True
    then show ?thesis using follow_err [of err maxBytes "Suc fuel" a "[]"] Suc.prems by simp
  next
    case False
    then have n: "0 < ?n" using page_progress Suc.prems(1,3) by simp
    note page = compatibility_out [OF Suc.prems(1,2) False, of a maxBytes]
    show ?thesis
    proof (cases "?n = length b")
      case partial: False
      then have less: "?n < length b" using page_le(2) [of maxBytes b] by simp
      have "follow_log fuel maxBytes (Some ((a @ take ?n b) @ drop ?n b)) (Some err) (length (a @ take ?n b))
          = Some (drop ?n b @ err)"
        using Suc.prems n less by (intro Suc.IH) (simp_all add: page_rest)
      then show ?thesis using page less by (simp add: Let_def)
    next
      case True
      let ?m = "page (maxBytes - ?n) err"
      have "0 < length b" using False by simp
      then have "length err - ?m < fuel" using Suc.prems(4) by linarith
      then have "follow_log fuel maxBytes (Some (a @ b)) (Some (take ?m err @ drop ?m err))
          (length (a @ b) + length (take ?m err)) = Some (drop ?m err)"
        using Suc.prems(2,3) by (intro follow_err) (simp_all add: page_rest)
      then show ?thesis
        using page True page_le(2) [of "maxBytes - ?n" err] by (auto simp: Let_def add.assoc)
    qed
  qed
qed simp

text \<open>C31: polling a finished command from the start and following the returned offset ends, and the pages
  together are its output: all of stdout and then all of stderr, provided the output is UTF-8 text and a page
  has room for one rune.\<close>

theorem follow_log_complete:
  assumes "valid_utf8 out" "valid_utf8 err" "4 \<le> maxBytes"
  shows "follow_log (length out + length err + 1) maxBytes (Some out) (Some err) 0 = Some (out @ err)"
  using follow_out [OF assms, of "length out + length err + 1" "[]"] by (simp del: follow_log.simps)

theorem follow_log_complete_witness:
  "follow_log 8 4 (Some ''abcde'') (Some ''fg'') 0 = Some ''abcdefg''"
proof -
  have "valid_utf8 ''abcde''" "valid_utf8 ''fg''" by code_simp+
  from follow_log_complete [OF this, of 4] show ?thesis by (simp add: numeral_eq_Suc del: follow_log.simps)
qed

text \<open>Output that is not UTF-8 stops a poll for good: at a byte that starts no rune every page is empty, the
  offset does not move, and more output is promised.\<close>

theorem invalid_output_stalls:
  assumes "\<not> continuation c" "rune_len (c # rest) = 0" "0 < maxBytes"
  shows "readLog (Some (out @ c # rest)) (length out) maxBytes = Inr ([], length out, True)
    \<and> follow_log fuel maxBytes (Some (out @ c # rest)) (Some err) (length out) = None"
proof -
  let ?buf = "take (min maxBytes (Suc (length rest))) (c # rest)"
  have buf: "takeWhile continuation ?buf = []" "0 < length ?buf"
    using assms(1,3) by (cases maxBytes; simp)+
  have "\<not> valid_utf8 (take (Suc k) ?buf)" for k
    using assms(2,3) valid_iff [of "take (Suc k) ?buf"] rune_len_take [of "min (Suc k) (min maxBytes (Suc (length rest)))" "c # rest"]
    by (simp add: min.assoc del: rune_len.simps)
  then have cut: "valid_cut k ?buf = 0" for k
    by (induction k) simp_all
  have read: "readLog (Some (out @ c # rest)) (length out) maxBytes = Inr ([], length out, True)"
    using buf cut by (simp add: readLog_def Let_def)
  then have "readCompatibilityLog (Some (out @ c # rest)) (Some err) (length out) maxBytes = Inr ([], length out, True)"
    by (simp add: readCompatibilityLog_def fileSize_def)
  then have "follow_log fuel maxBytes (Some (out @ c # rest)) (Some err) (length out) = None"
    by (induction fuel) simp_all
  with read show ?thesis by blast
qed

theorem invalid_output_stalls_witness:
  "follow_log 1000 65536 (Some [CHR ''a'', CHR 0xFF]) (Some []) 1 = None"
  using invalid_output_stalls [of "CHR 0xFF" "[]" 65536 "''a''" 1000 "[]"]
  by (simp add: continuation_def tail_ranges_def)

lemma log_limits_fit:
  assumes "log_limits x y maxBytes = (k, l)" "n \<le> k" "n \<le> x" "m \<le> l" "m \<le> y"
  shows "n + m \<le> maxBytes"
proof -
  obtain h g where h: "h = (maxBytes + 1) div 2" "g = maxBytes div 2" by blast
  then have sum: "h + g = maxBytes" by presburger
  have lim: "log_limits x y maxBytes = (if 0 < y then if x < h then (h, g + (h - x))
      else if y < g then (h + (g - y), g) else (h, g) else (maxBytes, 0))"
    by (simp add: log_limits_def h Let_def)
  show ?thesis
  proof (cases "0 < y")
    case True
    then show ?thesis
      using assms(1) [unfolded lim] assms(2-) sum by (cases "x < h"; cases "y < g"; simp; arith)
  next
    case False
    then show ?thesis using assms(1) [unfolded lim] assms(2-) by simp
  qed
qed

text \<open>C37: a page of the two separate logs, taken at rune boundaries of valid streams, continues each stream at
  its offset; both parts together fit the page; and with room for eight bytes every stream that has
  bytes left advances, so neither can starve the other.\<close>

theorem separate_pages:
  assumes "valid_utf8 b" "valid_utf8 d"
  shows "\<exists>n m. readSeparateLogs (Some (a @ b)) (Some (c @ d)) (Some (length a)) (Some (length c)) maxBytes
      = Inr \<lparr>sl_stdout = take n b, sl_stderr = take m d, sl_stdoutNext = length a + n,
             sl_stderrNext = length c + m, sl_stdoutMore = (n < length b \<or> a \<noteq> []),
             sl_stderrMore = (m < length d \<or> c \<noteq> [])\<rparr>
    \<and> n \<le> length b \<and> m \<le> length d \<and> n + m \<le> maxBytes
    \<and> valid_utf8 (drop n b) \<and> valid_utf8 (drop m d)
    \<and> (8 \<le> maxBytes \<longrightarrow> (b \<noteq> [] \<longrightarrow> 0 < n) \<and> (d \<noteq> [] \<longrightarrow> 0 < m))"
proof -
  obtain k l where limits: "log_limits (length b) (length d) maxBytes = (k, l)"
    by (cases "log_limits (length b) (length d) maxBytes")
  let ?n = "page k b" and ?m = "page l d"
  have "readSeparateLogs (Some (a @ b)) (Some (c @ d)) (Some (length a)) (Some (length c)) maxBytes
      = Inr \<lparr>sl_stdout = take ?n b, sl_stderr = take ?m d, sl_stdoutNext = length a + ?n,
             sl_stderrNext = length c + ?m, sl_stdoutMore = (?n < length b \<or> a \<noteq> []),
             sl_stderrMore = (?m < length d \<or> c \<noteq> [])\<rparr>"
    by (simp add: readSeparateLogs_def fileSize_def log_start_def limits readLog_page [OF assms(1)]
        readLog_page [OF assms(2)])
  moreover have "?n + ?m \<le> maxBytes"
    by (rule log_limits_fit [OF limits page_le page_le])
  moreover have "(b \<noteq> [] \<longrightarrow> 0 < ?n) \<and> (d \<noteq> [] \<longrightarrow> 0 < ?m)" if "8 \<le> maxBytes"
  proof -
    have "4 \<le> k \<and> (d \<noteq> [] \<longrightarrow> 4 \<le> l)"
      using that limits by (auto simp: log_limits_def Let_def split: if_splits)
    then show ?thesis using page_progress assms by blast
  qed
  ultimately show ?thesis
    using page_le(2) [of k b] page_le(2) [of l d] page_rest assms by blast
qed

theorem separate_pages_witness:
  "\<exists>n m. readSeparateLogs (Some ''abcdefgh'') (Some ''xy'') (Some 3) (Some 0) 8
      = Inr \<lparr>sl_stdout = take n ''defgh'', sl_stderr = take m ''xy'', sl_stdoutNext = 3 + n,
             sl_stderrNext = m, sl_stdoutMore = True, sl_stderrMore = (m < 2)\<rparr> \<and> 0 < n \<and> 0 < m"
proof -
  have "valid_utf8 ''defgh''" "valid_utf8 ''xy''" by code_simp+
  from separate_pages [OF this, of "''abc''" "[]" 8] obtain n m where
    "readSeparateLogs (Some ''abcdefgh'') (Some ''xy'') (Some 3) (Some 0) 8
      = Inr \<lparr>sl_stdout = take n ''defgh'', sl_stderr = take m ''xy'', sl_stdoutNext = 3 + n,
             sl_stderrNext = m, sl_stdoutMore = True, sl_stderrMore = (m < 2)\<rparr>" "0 < n" "0 < m"
    by (elim exE conjE) (simp add: numeral_3_eq_3 numeral_2_eq_2)
  then show ?thesis by (intro exI [of _ n] exI [of _ m] conjI)
qed

end
