(* ===== verification/Sessions.thy ===== *)
theory Sessions
  imports Launch CommandLogs
begin

text \<open>
  Command sessions (\<open>cmd/agent/command_sessions.go, command_history.go\<close>): the table of sessions an agent
  keeps in memory, the session directories it can restore them from, and every operation on the two.

  A session directory is an entry of \<open>es_dirs\<close>: its metadata document, or None where there is none that can
  be read. The files of a session have fixed names in its directory and are not fields of the record.
  \<open>s_cmd\<close> is whether this process of the agent holds the handle of the command's process. \<open>alive\<close> is
  \<open>processAliveWithIdentity\<close>. \<open>fault op i\<close> says that the operation \<open>op\<close> on the files of session \<open>i\<close> fails.
\<close>

section \<open>State\<close>

record processSession =
  s_requestKeyHash :: string
  s_requestHash :: string
  s_requestID :: string
  s_id :: string
  s_command :: string
  s_cwd :: path
  s_status :: string
  s_startedAt :: time
  s_finishedAt :: time
  s_exitCode :: "int option"
  s_deadline :: time
  s_pid :: int
  s_processIdentity :: string
  s_stdoutTruncated :: bool
  s_stderrTruncated :: bool
  s_cmd :: bool
  s_budget :: "logBudget option"
  s_done :: bool

record sessionMetadata =
  md_RequestKeyHash :: string
  md_RequestHash :: string
  md_RequestID :: string
  md_ID :: string
  md_CWD :: path
  md_PID :: int
  md_ProcessIdentity :: string
  md_Status :: string
  md_StartedAt :: time
  md_FinishedAt :: "time option"
  md_ExitCode :: "int option"
  md_TimeoutDeadline :: time
  md_StdoutTruncated :: bool
  md_StderrTruncated :: bool

record eventEntry =
  ev_At :: time
  ev_Event :: string
  ev_SessionID :: string
  ev_RequestID :: string
  ev_Status :: string
  ev_PID :: int
  ev_ExitCode :: "int option"

record sessionStore =
  es_sessions :: "(string \<times> processSession) list"
  es_dirs :: "(string \<times> sessionMetadata option) list"
  es_events :: "(string \<times> eventEntry list) list"

type_synonym faults = "string \<Rightarrow> string \<Rightarrow> bool"

text \<open>The only update of the table: setting the entry of an id.\<close>

definition put_session :: "processSession \<Rightarrow> sessionStore \<Rightarrow> sessionStore" where
  "put_session session e = e\<lparr>es_sessions := AList.update (s_id session) session (es_sessions e)\<rparr>"

definition find_session :: "string \<Rightarrow> sessionStore \<Rightarrow> processSession option" where
  "find_session i e = map_of (es_sessions e) i"

section \<open>Metadata on disk\<close>

definition metadata_of :: "processSession \<Rightarrow> sessionMetadata" where
  "metadata_of session =
    \<lparr>md_RequestKeyHash = s_requestKeyHash session, md_RequestHash = s_requestHash session,
     md_RequestID = s_requestID session, md_ID = s_id session, md_CWD = s_cwd session, md_PID = s_pid session,
     md_ProcessIdentity = s_processIdentity session, md_Status = s_status session,
     md_StartedAt = s_startedAt session,
     md_FinishedAt = (if IsZero (s_finishedAt session) then None else Some (s_finishedAt session)),
     md_ExitCode = s_exitCode session, md_TimeoutDeadline = s_deadline session,
     md_StdoutTruncated = s_stdoutTruncated session, md_StderrTruncated = s_stderrTruncated session\<rparr>"

definition session_of :: "sessionMetadata \<Rightarrow> processSession" where
  "session_of metadata =
    \<lparr>s_requestKeyHash = md_RequestKeyHash metadata, s_requestHash = md_RequestHash metadata,
     s_requestID = md_RequestID metadata, s_id = md_ID metadata, s_command = [], s_cwd = md_CWD metadata,
     s_status = md_Status metadata, s_startedAt = md_StartedAt metadata,
     s_finishedAt = (case md_FinishedAt metadata of None \<Rightarrow> 0 | Some t \<Rightarrow> t),
     s_exitCode = md_ExitCode metadata, s_deadline = md_TimeoutDeadline metadata, s_pid = md_PID metadata,
     s_processIdentity = md_ProcessIdentity metadata, s_stdoutTruncated = md_StdoutTruncated metadata,
     s_stderrTruncated = md_StderrTruncated metadata, s_cmd = False, s_budget = None, s_done = False\<rparr>"

text \<open>The metadata is replaced as a whole or, when the write fails, left as it was.\<close>

definition persistSession :: "faults \<Rightarrow> processSession \<Rightarrow> sessionStore \<Rightarrow> bool \<times> sessionStore" where
  "persistSession fault session e =
    (if fault ''persist'' (s_id session) \<or> map_of (es_dirs e) (s_id session) = None then (False, e)
     else (True, e\<lparr>es_dirs := AList.update (s_id session) (Some (metadata_of session)) (es_dirs e)\<rparr>))"

definition closeDone :: "processSession \<Rightarrow> processSession" where
  "closeDone session = session\<lparr>s_done := True\<rparr>"

section \<open>The event log\<close>

text \<open>\<open>enc\<close> is the length of the line the JSON encoder writes for an event.\<close>

definition commandEvent ::
  "(eventEntry \<Rightarrow> nat) \<Rightarrow> time \<Rightarrow> processSession \<Rightarrow> string \<Rightarrow> sessionStore \<Rightarrow> sessionStore" where
  "commandEvent enc now session event e =
    (let entry = \<lparr>ev_At = now, ev_Event = event, ev_SessionID = s_id session, ev_RequestID = s_requestID session,
           ev_Status = s_status session, ev_PID = s_pid session, ev_ExitCode = s_exitCode session\<rparr>;
         logged = (case map_of (es_events e) (s_id session) of None \<Rightarrow> [] | Some es \<Rightarrow> es)
     in if map_of (es_dirs e) (s_id session) = None \<or> sum_list (map enc logged) \<ge> 64 * 2 ^ 10 then e
        else e\<lparr>es_events := AList.update (s_id session) (logged @ [entry]) (es_events e)\<rparr>)"

definition commandEvents :: "processSession \<Rightarrow> sessionStore \<Rightarrow> eventEntry list" where
  "commandEvents session e =
    (case map_of (es_events e) (s_id session) of None \<Rightarrow> [] | Some es \<Rightarrow> take 128 es)"

section \<open>Starting a command\<close>

text \<open>
  The reservation: directory, log files and metadata exist and the session is in the table before the process
  is spawned. \<open>fresh\<close> is the random id; \<open>identity\<close> holds the hashes of the request key and of the arguments.
\<close>

definition new_session ::
  "time \<Rightarrow> string \<Rightarrow> (string \<times> string) option \<Rightarrow> string \<Rightarrow> nat \<Rightarrow> launch \<Rightarrow> processSession" where
  "new_session now i identity requestID maxLogBytes la =
    \<lparr>s_requestKeyHash = (case identity of None \<Rightarrow> [] | Some (k, _) \<Rightarrow> k),
     s_requestHash = (case identity of None \<Rightarrow> [] | Some (_, h) \<Rightarrow> h), s_requestID = requestID,
     s_id = i, s_command = la_command la, s_cwd = la_cwd la, s_status = ''starting'', s_startedAt = now,
     s_finishedAt = 0, s_exitCode = None, s_deadline = now + la_timeout la * second, s_pid = 0,
     s_processIdentity = [], s_stdoutTruncated = False, s_stderrTruncated = False, s_cmd = True,
     s_budget = Some (cl_budget (fresh_log maxLogBytes)), s_done = False\<rparr>"

definition reserve ::
  "faults \<Rightarrow> (eventEntry \<Rightarrow> nat) \<Rightarrow> time \<Rightarrow> string option \<Rightarrow> (string \<times> string) option \<Rightarrow> string \<Rightarrow> nat \<Rightarrow> launch
    \<Rightarrow> sessionStore \<Rightarrow> string result \<times> sessionStore" where
  "reserve fault enc now fresh identity requestID maxLogBytes la e =
    (case fresh of
       None \<Rightarrow> (Inl (toolErr ''io_error'' ''create session id''), e)
     | Some i \<Rightarrow>
        if map_of (es_dirs e) i \<noteq> None \<or> fault ''mkdir'' i
        then (Inl (toolErr ''io_error'' ''create session directory''), e)
        else let e1 = e\<lparr>es_dirs := AList.update i None (es_dirs e)\<rparr>
             in if fault ''stdout'' i then (Inl (toolErr ''io_error'' ''create stdout log''), e1)
                else if fault ''stderr'' i then (Inl (toolErr ''io_error'' ''create stderr log''), e1)
                else let session = new_session now i identity requestID maxLogBytes la
                     in (case persistSession fault session e1 of
                           (False, e2) \<Rightarrow> (Inl (toolErr ''io_error'' ''reserve command session''), e2)
                         | (True, e2) \<Rightarrow> (Inr i, commandEvent enc now session ''received'' (put_session session e2))))"

text \<open>A change of one session, followed by the write of its metadata and an event; a failed write is ignored.\<close>

definition change_session ::
  "faults \<Rightarrow> (eventEntry \<Rightarrow> nat) \<Rightarrow> time \<Rightarrow> string \<Rightarrow> processSession \<Rightarrow> sessionStore \<Rightarrow> sessionStore" where
  "change_session fault enc now event session e =
    commandEvent enc now session event (snd (persistSession fault session (put_session session e)))"

text \<open>\<open>cmd.Start\<close> failed.\<close>

definition start_failed ::
  "faults \<Rightarrow> (eventEntry \<Rightarrow> nat) \<Rightarrow> time \<Rightarrow> string \<Rightarrow> sessionStore \<Rightarrow> sessionStore" where
  "start_failed fault enc now i e =
    (case find_session i e of
       None \<Rightarrow> e
     | Some session \<Rightarrow>
         change_session fault enc now ''start_failed''
           (closeDone (session\<lparr>s_status := ''failed'', s_finishedAt := now\<rparr>)) e)"

text \<open>\<open>cmd.Start\<close> succeeded with this process; the metadata is written by a step of its own.\<close>

definition start_running ::
  "(eventEntry \<Rightarrow> nat) \<Rightarrow> time \<Rightarrow> int \<Rightarrow> string \<Rightarrow> string \<Rightarrow> sessionStore \<Rightarrow> sessionStore" where
  "start_running enc now pid identity i e =
    (case find_session i e of
       None \<Rightarrow> e
     | Some session \<Rightarrow>
         let running = session\<lparr>s_status := ''running'', s_pid := pid, s_processIdentity := identity\<rparr>
         in commandEvent enc now running ''started'' (put_session running e))"

section \<open>Stopping and ending\<close>

text \<open>\<open>kill\<close> says whether the process tree could be terminated.\<close>

definition stopSession ::
  "faults \<Rightarrow> (eventEntry \<Rightarrow> nat) \<Rightarrow> (int \<Rightarrow> string \<Rightarrow> bool) \<Rightarrow> bool \<Rightarrow> time \<Rightarrow> string \<Rightarrow> string \<Rightarrow> sessionStore
    \<Rightarrow> unit result \<times> sessionStore" where
  "stopSession fault enc alive kill now i status e =
    (case find_session i e of
       None \<Rightarrow> (Inr (), e)
     | Some session \<Rightarrow>
        if s_status session \<noteq> ''running'' then (Inr (), e)
        else if \<not> s_cmd session \<and> \<not> alive (s_pid session) (s_processIdentity session)
        then let ended = closeDone (session\<lparr>s_status := ''orphaned'', s_finishedAt := now\<rparr>)
             in (Inl (toolErr ''process_identity_mismatch'' ''process identity no longer matches the persisted session''),
                 snd (persistSession fault ended (put_session ended e)))
        else let e1 = change_session fault enc now status (session\<lparr>s_status := status\<rparr>) e
             in if kill then (Inr (), e1)
                else (Inl (toolErr ''cancel_failed''
                        (if s_cmd session then ''terminate process tree'' else ''terminate restored process tree'')), e1))"

text \<open>
  The end of a process this agent started: \<open>waited\<close> is the exit code, None when there is no process state, and
  \<open>err\<close> whether \<open>Wait\<close> returned an error. \<open>budget\<close> is the budget of the logs by then.
\<close>

definition exited_session ::
  "time \<Rightarrow> int option \<Rightarrow> bool \<Rightarrow> logBudget \<Rightarrow> processSession \<Rightarrow> processSession" where
  "exited_session now waited err budget session =
    (let status1 = (if s_status session = ''running'' then ''exited'' else s_status session);
         status2 = (if err \<and> waited = None \<and> status1 = ''exited'' then ''failed'' else status1);
         s1 = session\<lparr>s_status := status2,
                s_exitCode := (case waited of None \<Rightarrow> s_exitCode session | Some c \<Rightarrow> Some c), s_finishedAt := now\<rparr>
     in if s_budget session = None then s1
        else s1\<lparr>s_budget := Some budget, s_stdoutTruncated := lb_stdoutTruncated budget,
                s_stderrTruncated := lb_stderrTruncated budget\<rparr>)"

definition waitProcess ::
  "faults \<Rightarrow> (eventEntry \<Rightarrow> nat) \<Rightarrow> time \<Rightarrow> int option \<Rightarrow> bool \<Rightarrow> logBudget \<Rightarrow> string \<Rightarrow> sessionStore \<Rightarrow> sessionStore" where
  "waitProcess fault enc now waited err budget i e =
    (case find_session i e of
       None \<Rightarrow> e
     | Some session \<Rightarrow>
         let ended = exited_session now waited err budget session
         in put_session (closeDone ended) (change_session fault enc now ''finished'' ended e))"

text \<open>
  One tick of the watch over a process that an earlier process of the agent started; \<open>alive1\<close> is what is alive
  once a stop at the deadline has been tried.
\<close>

definition restored_ended :: "time \<Rightarrow> processSession \<Rightarrow> processSession" where
  "restored_ended now session =
    session\<lparr>s_status := (if s_status session = ''running'' then ''exited'' else s_status session), s_finishedAt := now\<rparr>"

definition monitorRestored ::
  "faults \<Rightarrow> (eventEntry \<Rightarrow> nat) \<Rightarrow> (int \<Rightarrow> string \<Rightarrow> bool) \<Rightarrow> (int \<Rightarrow> string \<Rightarrow> bool) \<Rightarrow> bool \<Rightarrow> time \<Rightarrow> string
    \<Rightarrow> sessionStore \<Rightarrow> sessionStore" where
  "monitorRestored fault enc alive alive1 kill now i e =
    (case find_session i e of
       None \<Rightarrow> e
     | Some session \<Rightarrow>
        let e1 = (if \<not> IsZero (s_deadline session) \<and> now > s_deadline session
                  then snd (stopSession fault enc alive kill now i ''timed_out'' e) else e)
        in (case find_session i e1 of
              None \<Rightarrow> e1
            | Some session1 \<Rightarrow>
               if alive1 (s_pid session1) (s_processIdentity session1) then e1
               else let ended = restored_ended now session1
                    in put_session (closeDone ended) (change_session fault enc now ''finished'' ended e1)))"

section \<open>Expiry and restart\<close>

definition remove_dir :: "faults \<Rightarrow> string \<Rightarrow> sessionStore \<Rightarrow> sessionStore" where
  "remove_dir fault i e =
    (if fault ''remove'' i then e
     else e\<lparr>es_dirs := AList.delete i (es_dirs e), es_events := AList.delete i (es_events e)\<rparr>)"

definition expired_session :: "time \<Rightarrow> processSession \<Rightarrow> bool" where
  "expired_session cutoff session \<longleftrightarrow>
     s_status session \<noteq> ''running'' \<and> \<not> IsZero (s_finishedAt session) \<and> s_finishedAt session < cutoff"

text \<open>One turn of \<open>cleanupLoop\<close>.\<close>

definition cleanup :: "faults \<Rightarrow> time \<Rightarrow> duration \<Rightarrow> sessionStore \<Rightarrow> sessionStore" where
  "cleanup fault now ttl e =
    (let dead = filter (\<lambda>(i, session). expired_session (now - ttl) session) (es_sessions e)
     in foldr (remove_dir fault) (map fst dead)
          (e\<lparr>es_sessions := filter (\<lambda>(i, session). \<not> expired_session (now - ttl) session) (es_sessions e)\<rparr>))"

definition stale_metadata :: "time \<Rightarrow> sessionMetadata \<Rightarrow> bool" where
  "stale_metadata cutoff metadata \<longleftrightarrow> md_Status metadata \<noteq> ''running''
     \<and> (case md_FinishedAt metadata of None \<Rightarrow> md_StartedAt metadata | Some t \<Rightarrow> t) < cutoff"

text \<open>A process that still runs is watched; any other session is over, and one that was starting has an unknown outcome.\<close>

definition restored_session :: "(int \<Rightarrow> string \<Rightarrow> bool) \<Rightarrow> time \<Rightarrow> sessionMetadata \<Rightarrow> processSession" where
  "restored_session alive now metadata =
    (let session = session_of metadata
     in if s_status session = ''running'' \<and> alive (s_pid session) (s_processIdentity session) then session
        else closeDone
          (if s_status session = ''starting'' then session\<lparr>s_status := ''outcome_unknown'', s_finishedAt := now\<rparr>
           else if s_status session = ''running'' then session\<lparr>s_status := ''orphaned'', s_finishedAt := now\<rparr>
           else session))"

text \<open>What becomes of one entry of the log directory when the agent starts.\<close>

definition restore_entry ::
  "faults \<Rightarrow> (int \<Rightarrow> string \<Rightarrow> bool) \<Rightarrow> time \<Rightarrow> duration \<Rightarrow> string \<times> sessionMetadata option \<Rightarrow> sessionStore \<Rightarrow> sessionStore" where
  "restore_entry fault alive now ttl entry e =
    (case entry of
       (name, None) \<Rightarrow> e
     | (name, Some metadata) \<Rightarrow>
        if \<not> HasPrefix name ''proc_'' \<or> md_ID metadata \<noteq> name then e
        else if stale_metadata (now - ttl) metadata then remove_dir fault name e
        else let session = restored_session alive now metadata
             in if s_done session then snd (persistSession fault session (put_session session e)) else put_session session e)"

definition restoreSessions ::
  "faults \<Rightarrow> (int \<Rightarrow> string \<Rightarrow> bool) \<Rightarrow> time \<Rightarrow> duration \<Rightarrow> sessionStore \<Rightarrow> sessionStore" where
  "restoreSessions fault alive now ttl e =
    fold (restore_entry fault alive now ttl) (es_dirs e) (e\<lparr>es_sessions := []\<rparr>)"

end
