(* ===== verification/SessionTools.thy ===== *)
theory SessionTools
  imports Sessions
begin

text \<open>
  The tools over command sessions (\<open>cmd/agent/command_sessions.go, command_history.go\<close>): starting a command,
  once per request key, polling, cancelling and listing. \<open>logs i\<close> is what the two log files of session \<open>i\<close>
  hold when they are read; \<open>during\<close> is what the other goroutines do to the table while a call waits.
\<close>

section \<open>Results\<close>

record resultV4 =
  v4_session_id :: string
  v4_cwd :: path
  v4_status :: string
  v4_started_at :: time
  v4_finished_at :: "time option"
  v4_exit_code :: "int option"
  v4_duration_ms :: int
  v4_stdout :: string
  v4_stderr :: string
  v4_stdout_next_offset :: nat
  v4_stderr_next_offset :: nat
  v4_stdout_truncated :: bool
  v4_stderr_truncated :: bool

record resultV3 =
  v3_session_id :: string
  v3_command :: string
  v3_cwd :: path
  v3_status :: string
  v3_started_at :: time
  v3_finished_at :: "time option"
  v3_exit_code :: "int option"
  v3_duration_ms :: int
  v3_output :: string
  v3_next_offset :: nat
  v3_truncated :: bool
  v3_already_finished :: bool

datatype commandResult = V4 resultV4 | V3 resultV3

definition Milliseconds :: "duration \<Rightarrow> int" where
  "Milliseconds d = (if d < 0 then - (- d div 1000000) else d div 1000000)"

definition duration_ms :: "time \<Rightarrow> processSession \<Rightarrow> int" where
  "duration_ms now session =
    max 0 (Milliseconds ((if IsZero (s_finishedAt session) then now else s_finishedAt session) - s_startedAt session))"

text \<open>The older contract has no word for a command of unknown outcome nor for one that is being started.\<close>

definition shown_status :: "string \<Rightarrow> string" where
  "shown_status status =
    (if status = ''outcome_unknown'' then ''orphaned'' else if status = ''starting'' then ''running'' else status)"

definition sessionResult ::
  "time \<Rightarrow> (string \<Rightarrow> string option \<times> string option) \<Rightarrow> string \<Rightarrow> nat option \<Rightarrow> nat option \<Rightarrow> nat \<Rightarrow> bool \<Rightarrow> bool
    \<Rightarrow> sessionStore \<Rightarrow> commandResult result" where
  "sessionResult now logs i stdoutOffset stderrOffset maxBytes v4 alreadyFinished e =
    (case find_session i e of
       None \<Rightarrow> Inl (toolErr ''unknown_session'' ''unknown session_id'')
     | Some session \<Rightarrow>
        let finishedValue = (if IsZero (s_finishedAt session) then None else Some (s_finishedAt session))
        in if v4
           then (case readSeparateLogs (fst (logs i)) (snd (logs i)) stdoutOffset stderrOffset maxBytes of
                   Inl _ \<Rightarrow> Inl (toolErr ''io_error'' ''read command logs'')
                 | Inr sl \<Rightarrow> Inr (V4 \<lparr>v4_session_id = i, v4_cwd = s_cwd session,
                     v4_status = shown_status (s_status session), v4_started_at = s_startedAt session,
                     v4_finished_at = finishedValue, v4_exit_code = s_exitCode session,
                     v4_duration_ms = duration_ms now session, v4_stdout = sl_stdout sl, v4_stderr = sl_stderr sl,
                     v4_stdout_next_offset = sl_stdoutNext sl, v4_stderr_next_offset = sl_stderrNext sl,
                     v4_stdout_truncated = (s_stdoutTruncated session \<or> sl_stdoutMore sl),
                     v4_stderr_truncated = (s_stderrTruncated session \<or> sl_stderrMore sl)\<rparr>))
           else (case readCompatibilityLog (fst (logs i)) (snd (logs i))
                        (case stdoutOffset of None \<Rightarrow> 0 | Some n \<Rightarrow> n) maxBytes of
                   Inl _ \<Rightarrow> Inl (toolErr ''io_error'' ''read command logs'')
                 | Inr (output, nxt, more_output) \<Rightarrow> Inr (V3 \<lparr>v3_session_id = i, v3_command = s_command session,
                     v3_cwd = s_cwd session, v3_status = shown_status (s_status session),
                     v3_started_at = s_startedAt session, v3_finished_at = finishedValue,
                     v3_exit_code = s_exitCode session, v3_duration_ms = duration_ms now session,
                     v3_output = output, v3_next_offset = nxt,
                     v3_truncated = (s_stdoutTruncated session \<or> s_stderrTruncated session \<or> more_output),
                     v3_already_finished = alreadyFinished\<rparr>)))"

section \<open>Starting\<close>

text \<open>What a call meets outside the table: \<open>cl_spawn\<close> is the process \<open>cmd.Start\<close> created and its identity.\<close>

record callEnv =
  cl_executor :: executor
  cl_environ :: "string list"
  cl_maxLogBytes :: nat
  cl_fault :: faults
  cl_enc :: "eventEntry \<Rightarrow> nat"
  cl_now :: time
  cl_fresh :: "string option"
  cl_spawn :: "(int \<times> string) option"
  cl_alive :: "int \<Rightarrow> string \<Rightarrow> bool"
  cl_kill :: bool
  cl_during :: "sessionStore \<Rightarrow> sessionStore"
  cl_logs :: "string \<Rightarrow> string option \<times> string option"

definition execCommand ::
  "callEnv \<Rightarrow> fs \<Rightarrow> (string \<times> string) option \<Rightarrow> string \<Rightarrow> object \<Rightarrow> bool \<Rightarrow> sessionStore
    \<Rightarrow> commandResult result \<times> sessionStore" where
  "execCommand c fs identity requestID args v4 e =
    (case exec_checks (cl_executor c) (cl_environ c) args v4 fs of
       Inl err \<Rightarrow> (Inl err, e)
     | Inr la \<Rightarrow>
        (case reserve (cl_fault c) (cl_enc c) (cl_now c) (cl_fresh c) identity requestID (cl_maxLogBytes c) la e of
           (Inl err, e1) \<Rightarrow> (Inl err, e1)
         | (Inr i, e1) \<Rightarrow>
            (case cl_spawn c of
               None \<Rightarrow>
                 let e2 = start_failed (cl_fault c) (cl_enc c) (cl_now c) i e1
                 in (sessionResult (cl_now c) (cl_logs c) i None None (64 * 2 ^ 10) v4 False e2, e2)
             | Some (pid, ident) \<Rightarrow>
                 let e2 = start_running (cl_enc c) (cl_now c) pid ident i e1
                 in (case find_session i e2 of
                       None \<Rightarrow> (Inl (toolErr ''io_error'' ''persist command session''), e2)
                     | Some session \<Rightarrow>
                        (case persistSession (cl_fault c) session e2 of
                           (False, e3) \<Rightarrow>
                             (Inl (toolErr ''io_error'' ''persist command session''),
                              snd (stopSession (cl_fault c) (cl_enc c) (cl_alive c) (cl_kill c) (cl_now c) i ''failed'' e3))
                         | (True, e3) \<Rightarrow>
                             let e4 = (if la_yield la > 0 then cl_during c e3 else e3)
                             in (sessionResult (cl_now c) (cl_logs c) i None None (64 * 2 ^ 10) v4 False e4, e4))))))"

text \<open>\<open>encode\<close> is the JSON encoder.\<close>

definition commandHash :: "(json \<Rightarrow> string) \<Rightarrow> json \<Rightarrow> string" where
  "commandHash encode v = hashBytes (encode v)"

definition command_identity :: "(json \<Rightarrow> string) \<Rightarrow> string \<Rightarrow> object \<Rightarrow> string \<times> string" where
  "command_identity encode key args =
    (commandHash encode (JStr key),
     commandHash encode (JObj (filter (\<lambda>(name, _). name \<notin> {''request_key'', ''yield_time_ms''}) args)))"

definition keyed_session :: "string \<Rightarrow> sessionStore \<Rightarrow> processSession option" where
  "keyed_session key e = List.find (\<lambda>session. s_requestKeyHash session = key) (map snd (es_sessions e))"

text \<open>
  A key that is in use names the session it started; which session a key used twice would name depends on the
  order of a Go map, and \<open>launches_at_most_once\<close> shows that this cannot happen.
\<close>

definition execCommandOnce ::
  "callEnv \<Rightarrow> fs \<Rightarrow> (json \<Rightarrow> string) \<Rightarrow> bool \<Rightarrow> string \<Rightarrow> object \<Rightarrow> sessionStore
    \<Rightarrow> commandResult result \<times> sessionStore" where
  "execCommandOnce c fs encode ctxDone requestID args e =
    (case requiredString args ''request_key'' of
       Inl _ \<Rightarrow> (Inl (toolErr ''invalid_arguments'' ''request_key must contain 1 to 128 characters''), e)
     | Inr key \<Rightarrow>
        if length key > 128
        then (Inl (toolErr ''invalid_arguments'' ''request_key must contain 1 to 128 characters''), e)
        else if ctxDone then (Inl (toolErr ''operation_failed'' ''context done''), e)
        else (case command_identity encode key args of
               (key_hash, args_hash) \<Rightarrow>
                 (case keyed_session key_hash e of
                    Some session \<Rightarrow>
                      (if s_requestHash session \<noteq> args_hash
                       then Inl (toolErr ''request_key_conflict''
                                   ''request_key was already used with different command arguments'')
                       else sessionResult (cl_now c) (cl_logs c) (s_id session) None None (64 * 2 ^ 10) True False e, e)
                  | None \<Rightarrow>
                      execCommand c fs (Some (key_hash, args_hash)) requestID
                        (filter (\<lambda>(name, _). name \<noteq> ''request_key'') args) True e)))"

section \<open>Polling, cancelling, listing\<close>

definition pollCommand ::
  "callEnv \<Rightarrow> object \<Rightarrow> bool \<Rightarrow> sessionStore \<Rightarrow> commandResult result" where
  "pollCommand c args v4 e =
    bind_result (onlyArgs args (if v4 then [''session_id'', ''stdout_offset'', ''stderr_offset'', ''max_bytes'']
                                else [''session_id'', ''offset'', ''max_bytes''])) (\<lambda>_.
    bind_result (requiredString args ''session_id'') (\<lambda>i.
    bind_result (optionalInt args ''max_bytes'' (64 * 2 ^ 10) 1 (2 ^ 20)) (\<lambda>maxBytes0.
      let maxBytes = min (nat maxBytes0) (ex_maxResponse (cl_executor c))
      in if v4
         then bind_result (optionalInt args ''stdout_offset'' 0 0 maxInt) (\<lambda>stdoutOffset.
              bind_result (optionalInt args ''stderr_offset'' 0 0 maxInt) (\<lambda>stderrOffset.
                sessionResult (cl_now c) (cl_logs c) i (Some (nat stdoutOffset)) (Some (nat stderrOffset)) maxBytes True False e))
         else bind_result (optionalInt args ''offset'' 0 0 maxInt) (\<lambda>offset.
                sessionResult (cl_now c) (cl_logs c) i (Some (nat offset)) None maxBytes False False e))))"

text \<open>\<open>during\<close> is what happens in the up to ten seconds of waiting; whether the session is done by then decides.\<close>

definition cancelCommand ::
  "callEnv \<Rightarrow> object \<Rightarrow> bool \<Rightarrow> sessionStore \<Rightarrow> (commandResult \<times> bool) result \<times> sessionStore" where
  "cancelCommand c args v4 e =
    (case bind_result (onlyArgs args [''session_id'']) (\<lambda>_. requiredString args ''session_id'') of
       Inl err \<Rightarrow> (Inl err, e)
     | Inr i \<Rightarrow>
        (case find_session i e of
           None \<Rightarrow> (Inl (toolErr ''unknown_session'' ''unknown session_id''), e)
         | Some session \<Rightarrow>
            let alreadyFinished = s_status session \<noteq> ''running'';
                answer = (\<lambda>e'. bind_result (sessionResult (cl_now c) (cl_logs c) i None None (64 * 2 ^ 10) v4 alreadyFinished e')
                                 (\<lambda>r. Inr (r, alreadyFinished)))
            in if alreadyFinished then (answer e, e)
               else (case stopSession (cl_fault c) (cl_enc c) (cl_alive c) (cl_kill c) (cl_now c) i ''cancelled'' e of
                       (Inl err, e1) \<Rightarrow> (Inl err, e1)
                     | (Inr (), e1) \<Rightarrow>
                         let e2 = cl_during c e1
                         in if (case find_session i e2 of None \<Rightarrow> False | Some s2 \<Rightarrow> s_done s2)
                            then (answer e2, e2)
                            else (Inl (toolErr ''cancel_failed'' ''process tree did not stop within 10 seconds''), e2))))"

record listedCommand =
  lc_session_id :: string
  lc_cwd :: path
  lc_pid :: int
  lc_status :: string
  lc_started_at :: time
  lc_exit_code :: "int option"
  lc_duration_ms :: int

definition listed :: "time \<Rightarrow> processSession \<Rightarrow> listedCommand" where
  "listed now session =
    \<lparr>lc_session_id = s_id session, lc_cwd = s_cwd session, lc_pid = s_pid session, lc_status = s_status session,
     lc_started_at = s_startedAt session, lc_exit_code = s_exitCode session, lc_duration_ms = duration_ms now session\<rparr>"

definition listCommands :: "time \<Rightarrow> object \<Rightarrow> sessionStore \<Rightarrow> (listedCommand list \<times> bool) result" where
  "listCommands now args e =
    bind_result (onlyArgs args [''limit'', ''status'']) (\<lambda>_.
    bind_result (optionalInt args ''limit'' 100 1 500) (\<lambda>limit.
    bind_result (optionalString args ''status'') (\<lambda>status.
      let sessions = sort_key (\<lambda>session. - s_startedAt session)
            (filter (\<lambda>session. status = [] \<or> status = s_status session) (map snd (es_sessions e)))
      in Inr (map (listed now) (take (nat limit) sessions), int (length sessions) > limit))))"

text \<open>What \<open>executeTool\<close> adds to a result under the v5 contract.\<close>

record resultV5 =
  v5_result :: commandResult
  v5_pid :: int
  v5_status :: "string option"
  v5_events :: "eventEntry list"

definition result_id :: "commandResult \<Rightarrow> string" where
  "result_id r = (case r of V4 x \<Rightarrow> v4_session_id x | V3 x \<Rightarrow> v3_session_id x)"

definition v5_view :: "commandResult \<Rightarrow> sessionStore \<Rightarrow> resultV5 result" where
  "v5_view r e =
    (case find_session (result_id r) e of
       None \<Rightarrow> Inl (toolErr ''unknown_session'' ''command session expired'')
     | Some session \<Rightarrow>
         Inr \<lparr>v5_result = r, v5_pid = s_pid session,
              v5_status = (if s_status session \<in> {''outcome_unknown'', ''starting''} then Some (s_status session) else None),
              v5_events = commandEvents session e\<rparr>)"

end
