(* ===== verification/SessionFacts.thy ===== *)
theory SessionFacts
  imports SessionTools
begin

text \<open>
  What every operation on the session table keeps: the request keys of the table and of the session
  directories, and every session but the one it is about.
\<close>

section \<open>The two views of the request keys\<close>

definition mem_key :: "sessionStore \<Rightarrow> string \<Rightarrow> string option" where
  "mem_key e i = map_option s_requestKeyHash (find_session i e)"

definition disk_key :: "sessionStore \<Rightarrow> string \<Rightarrow> string option" where
  "disk_key e i =
    (case map_of (es_dirs e) i of
       Some (Some md) \<Rightarrow> if HasPrefix i ''proc_'' \<and> md_ID md = i then Some (md_RequestKeyHash md) else None
     | _ \<Rightarrow> None)"

text \<open>The sessions in memory are filed under their id, and their directories, where they exist, hold their keys.\<close>

definition coherent :: "sessionStore \<Rightarrow> bool" where
  "coherent e \<longleftrightarrow> distinct (map fst (es_dirs e)) \<and> distinct (map fst (es_sessions e))
    \<and> (\<forall>i session. find_session i e = Some session \<longrightarrow> s_id session = i \<and> HasPrefix i ''proc_''
         \<and> (map_of (es_dirs e) i = None \<or> disk_key e i = Some (s_requestKeyHash session)))"

lemma coherentD:
  assumes "coherent e" "find_session i e = Some session"
  shows "s_id session = i" "HasPrefix i ''proc_''"
    "map_of (es_dirs e) i = None \<or> disk_key e i = Some (s_requestKeyHash session)"
  using assms by (auto simp: coherent_def)

text \<open>A step that touches the one session \<open>i\<close> and leaves all keys as they are.\<close>

definition updates :: "string \<Rightarrow> sessionStore \<Rightarrow> sessionStore \<Rightarrow> bool" where
  "updates i e e' \<longleftrightarrow> coherent e' \<and> mem_key e' = mem_key e \<and> disk_key e' = disk_key e
    \<and> map fst (es_dirs e') = map fst (es_dirs e) \<and> (\<forall>j. j \<noteq> i \<longrightarrow> find_session j e' = find_session j e)"

lemma updates_refl: "coherent e \<Longrightarrow> updates i e e"
  by (simp add: updates_def)

lemma updates_trans: "updates i e e' \<Longrightarrow> updates i e' e'' \<Longrightarrow> updates i e e''"
  by (simp add: updates_def)

lemma updates_coherent: "updates i e e' \<Longrightarrow> coherent e'"
  by (simp add: updates_def)

lemma dirs_domain: "map fst (es_dirs e') = map fst (es_dirs e) \<Longrightarrow>
    map_of (es_dirs e') i = None \<longleftrightarrow> map_of (es_dirs e) i = None"
  by (metis map_of_eq_None_iff list.set_map)

lemma find_put [simp]:
  "find_session i (put_session session e) = (if i = s_id session then Some session else find_session i e)"
  by (simp add: find_session_def put_session_def)

lemma dirs_put [simp]: "es_dirs (put_session session e) = es_dirs e"
  by (simp add: put_session_def)

lemma disk_key_dirs: "es_dirs e' = es_dirs e \<Longrightarrow> disk_key e' = disk_key e"
  by (simp add: disk_key_def fun_eq_iff)

lemma put_updates:
  assumes "coherent e" "find_session i e = Some session" "s_id session' = i"
    and "s_requestKeyHash session' = s_requestKeyHash session"
  shows "updates i e (put_session session' e)"
proof -
  have "disk_key (put_session session' e) = disk_key e" by (rule disk_key_dirs) simp
  moreover have "distinct (map fst (es_sessions (put_session session' e)))"
    using assms(1) by (simp add: put_session_def coherent_def distinct_update)
  ultimately show ?thesis
    using assms by (auto simp: updates_def coherent_def mem_key_def fun_eq_iff)
qed

lemma find_persist [simp]: "find_session i (snd (persistSession fault session e)) = find_session i e"
  by (simp add: persistSession_def find_session_def)

lemma sessions_persist [simp]: "es_sessions (snd (persistSession fault session e)) = es_sessions e"
  by (simp add: persistSession_def)

lemma names_update: "map_of xs i \<noteq> None \<Longrightarrow> map fst (AList.update i v xs) = map fst xs"
  by (induction xs) auto

lemma persist_updates:
  assumes "coherent e" "find_session i e = Some session" "s_id session' = i"
    and "s_requestKeyHash session' = s_requestKeyHash session"
  shows "updates i e (snd (persistSession fault session' e))"
proof (cases "fault ''persist'' i \<or> map_of (es_dirs e) i = None")
  case True
  then show ?thesis using assms by (auto simp: persistSession_def intro: updates_refl)
next
  case False
  let ?e = "snd (persistSession fault session' e)"
  have dirs: "es_dirs ?e = AList.update i (Some (metadata_of session')) (es_dirs e)"
    using False assms(3) by (auto simp: persistSession_def)
  have names: "map fst (es_dirs ?e) = map fst (es_dirs e)" unfolding dirs using False by (intro names_update) simp
  have "disk_key e i = Some (s_requestKeyHash session)" using coherentD(3) [OF assms(1,2)] False by blast
  moreover have "disk_key ?e i = Some (s_requestKeyHash session)"
    using coherentD(2) [OF assms(1,2)] assms(3,4) by (simp add: disk_key_def dirs metadata_of_def)
  moreover have "disk_key ?e j = disk_key e j" if "j \<noteq> i" for j using that by (simp add: disk_key_def dirs)
  ultimately have "disk_key ?e j = disk_key e j" for j by (cases "j = i") simp_all
  then have disk: "disk_key ?e = disk_key e" by blast
  have "mem_key ?e = mem_key e" by (simp add: mem_key_def fun_eq_iff)
  moreover have "coherent ?e"
    using assms(1) disk names dirs_domain [OF names] by (auto simp: coherent_def)
  ultimately show ?thesis using disk names by (simp add: updates_def)
qed

lemma event_same [simp]:
  "es_sessions (commandEvent enc now session event e) = es_sessions e"
  "es_dirs (commandEvent enc now session event e) = es_dirs e"
  by (simp_all add: commandEvent_def Let_def)

lemma find_event [simp]: "find_session i (commandEvent enc now session event e) = find_session i e"
  by (simp add: find_session_def)

lemma event_updates:
  assumes "coherent e" shows "updates i e (commandEvent enc now session event e)"
proof -
  have "disk_key (commandEvent enc now session event e) = disk_key e" by (rule disk_key_dirs) simp
  then show ?thesis using assms by (simp add: updates_def coherent_def mem_key_def fun_eq_iff)
qed

section \<open>The operations\<close>

lemma change_updates:
  assumes "coherent e" "find_session i e = Some session" "s_id session' = i"
    and "s_requestKeyHash session' = s_requestKeyHash session"
  shows "updates i e (change_session fault enc now event session' e)"
proof -
  note put = put_updates [OF assms]
  have "updates i (put_session session' e) (snd (persistSession fault session' (put_session session' e)))"
    by (rule persist_updates [OF updates_coherent [OF put]]) (use assms(3) in auto)
  from updates_trans [OF put this] show ?thesis
    unfolding change_session_def by (rule updates_trans) (rule event_updates, rule updates_coherent, fact)
qed

lemma find_change [simp]:
  "find_session j (change_session fault enc now event session e) = (if j = s_id session then Some session else find_session j e)"
  by (simp add: change_session_def)

lemma exited_same [simp]:
  "s_id (exited_session now waited err budget session) = s_id session"
  "s_requestKeyHash (exited_session now waited err budget session) = s_requestKeyHash session"
  by (simp_all add: exited_session_def Let_def)

lemma ended_same [simp]:
  "s_id (closeDone session) = s_id session" "s_requestKeyHash (closeDone session) = s_requestKeyHash session"
  "s_id (restored_ended now session) = s_id session"
  "s_requestKeyHash (restored_ended now session) = s_requestKeyHash session"
  by (simp_all add: closeDone_def restored_ended_def)

lemma finish_updates:
  assumes "coherent e" "find_session i e = Some session" "s_id ended = i"
    and "s_requestKeyHash ended = s_requestKeyHash session"
  shows "updates i e (put_session (closeDone ended) (change_session fault enc now ''finished'' ended e))"
proof -
  note change = change_updates [OF assms, of fault enc now "''finished''"]
  have "updates i (change_session fault enc now ''finished'' ended e)
      (put_session (closeDone ended) (change_session fault enc now ''finished'' ended e))"
    by (rule put_updates [OF updates_coherent [OF change]]) (use assms(3) in auto)
  from updates_trans [OF change this] show ?thesis .
qed

lemma start_failed_updates: "coherent e \<Longrightarrow> updates i e (start_failed fault enc now i e)"
  by (auto simp: start_failed_def coherentD split: option.split intro!: updates_refl change_updates)

lemma start_running_updates: "coherent e \<Longrightarrow> updates i e (start_running enc now pid identity i e)"
proof (cases "find_session i e")
  case (Some session)
  assume e: "coherent e"
  let ?running = "session\<lparr>s_status := ''running'', s_pid := pid, s_processIdentity := identity\<rparr>"
  have "updates i e (put_session ?running e)"
    by (rule put_updates [OF e Some]) (use coherentD [OF e Some] in auto)
  from updates_trans [OF this event_updates [OF updates_coherent [OF this]]] show ?thesis
    by (simp add: start_running_def Some Let_def)
qed (simp add: start_running_def updates_refl)

lemma stopSession_updates: "coherent e \<Longrightarrow> updates i e (snd (stopSession fault enc alive kill now i status e))"
proof (cases "find_session i e")
  case (Some session)
  assume e: "coherent e"
  note same = coherentD [OF e Some]
  let ?ended = "closeDone (session\<lparr>s_status := ''orphaned'', s_finishedAt := now\<rparr>)"
  have put: "updates i e (put_session ?ended e)" by (rule put_updates [OF e Some]) (use same in auto)
  have "updates i (put_session ?ended e) (snd (persistSession fault ?ended (put_session ?ended e)))"
    by (rule persist_updates [OF updates_coherent [OF put], where session = ?ended]) (use same in simp_all)
  with put have orphan: "updates i e (snd (persistSession fault ?ended (put_session ?ended e)))" by (rule updates_trans)
  have "updates i e (change_session fault enc now status (session\<lparr>s_status := status\<rparr>) e)"
    by (rule change_updates [OF e Some]) (use same in auto)
  with orphan show ?thesis using e by (simp add: stopSession_def Some Let_def updates_refl)
qed (simp add: stopSession_def updates_refl)

lemma waitProcess_updates: "coherent e \<Longrightarrow> updates i e (waitProcess fault enc now waited err budget i e)"
  by (auto simp: waitProcess_def coherentD Let_def split: option.split intro!: updates_refl finish_updates)

lemma monitorRestored_updates: "coherent e \<Longrightarrow> updates i e (monitorRestored fault enc alive alive1 kill now i e)"
proof (cases "find_session i e")
  case (Some session)
  assume e: "coherent e"
  define e1 where "e1 = (if \<not> IsZero (s_deadline session) \<and> now > s_deadline session
    then snd (stopSession fault enc alive kill now i ''timed_out'' e) else e)"
  have e1: "updates i e e1" using e by (simp add: e1_def stopSession_updates updates_refl)
  have "updates i e1 (put_session (closeDone (restored_ended now session1))
      (change_session fault enc now ''finished'' (restored_ended now session1) e1))"
    if "find_session i e1 = Some session1" for session1
    by (rule finish_updates [OF updates_coherent [OF e1] that])
      (use coherentD [OF updates_coherent [OF e1] that] in auto)
  then show ?thesis using e1 updates_trans [OF e1]
    by (auto simp: monitorRestored_def Some Let_def e1_def [symmetric] split: option.split)
qed (simp add: monitorRestored_def updates_refl)

section \<open>Reservation\<close>

lemma disk_key_update:
  "es_dirs e' = AList.update i m (es_dirs e) \<Longrightarrow> j \<noteq> i \<Longrightarrow> disk_key e' j = disk_key e j"
  by (simp add: disk_key_def)

lemma reserve_Inr:
  assumes "reserve fault enc now (Some i) identity requestID maxLogBytes la e = (Inr j, e')"
    and "coherent e" "HasPrefix i ''proc_''"
  shows "j = i \<and> map_of (es_dirs e) i = None \<and> coherent e' \<and> set (map fst (es_dirs e')) = insert i (set (map fst (es_dirs e)))
    \<and> find_session i e' = Some (new_session now i identity requestID maxLogBytes la)
    \<and> disk_key e' i = Some (case identity of None \<Rightarrow> [] | Some (k, h) \<Rightarrow> k)
    \<and> (\<forall>j. j \<noteq> i \<longrightarrow> find_session j e' = find_session j e \<and> disk_key e' j = disk_key e j)"
proof -
  let ?s = "new_session now i identity requestID maxLogBytes la"
  let ?e1 = "e\<lparr>es_dirs := AList.update i None (es_dirs e)\<rparr>"
  let ?e2 = "?e1\<lparr>es_dirs := AList.update i (Some (metadata_of ?s)) (es_dirs ?e1)\<rparr>"
  have id: "s_id ?s = i" by (simp add: new_session_def)
  have r: "map_of (es_dirs e) i = None" "j = i" "e' = commandEvent enc now ?s ''received'' (put_session ?s ?e2)"
    using assms(1) id by (auto simp: reserve_def Let_def persistSession_def split: if_splits)
  have dirs: "es_dirs e' = AList.update i (Some (metadata_of ?s)) (AList.update i None (es_dirs e))" by (simp add: r)
  have find: "find_session k e' = (if k = i then Some ?s else find_session k e)" for k
    using id by (simp add: r) (simp add: find_session_def)
  have key: "disk_key e' i = Some (s_requestKeyHash ?s)"
    using assms(3) id by (simp add: disk_key_def dirs metadata_of_def)
  have other: "disk_key e' k = disk_key e k" if "k \<noteq> i" for k using that by (simp add: disk_key_def dirs)
  have names: "set (map fst (es_dirs e')) = insert i (set (map fst (es_dirs e)))" by (simp add: dirs dom_update)
  have "distinct (map fst (es_sessions e'))" "distinct (map fst (es_dirs e'))"
    using assms(2) unfolding dirs by (simp_all add: r put_session_def coherent_def distinct_update)
  then have "coherent e'"
    using assms(2,3) id key other find by (auto simp: coherent_def dirs)
  then show ?thesis using r(1,2) find key other names by (simp add: new_session_def)
qed

lemma reserve_Inl:
  assumes "reserve fault enc now (Some i) identity requestID maxLogBytes la e = (Inl err, e')"
    and "coherent e" "find_session i e = None"
  shows "coherent e' \<and> es_sessions e' = es_sessions e \<and> disk_key e' = disk_key e
    \<and> set (map fst (es_dirs e')) \<subseteq> insert i (set (map fst (es_dirs e)))"
proof -
  consider "e' = e" | "map_of (es_dirs e) i = None" "e' = e\<lparr>es_dirs := AList.update i None (es_dirs e)\<rparr>"
  proof (cases "map_of (es_dirs e) i \<noteq> None \<or> fault ''mkdir'' i")
    case True
    then show ?thesis using assms(1) that(1) by (simp add: reserve_def)
  next
    case False
    then have "e' = e\<lparr>es_dirs := AList.update i None (es_dirs e)\<rparr>"
      using assms(1) by (simp add: reserve_def Let_def persistSession_def split: if_split_asm)
    then show ?thesis using False that(2) by simp
  qed
  then show ?thesis
  proof cases
    case 2
    have "disk_key e' k = disk_key e k" for k using 2 by (cases "k = i") (simp_all add: disk_key_def)
    then have disk: "disk_key e' = disk_key e" by blast
    have "coherent e'" using assms(2,3) disk unfolding coherent_def 2(2)
      by (auto simp: find_session_def distinct_update)
    then show ?thesis using disk by (simp add: 2(2) dom_update)
  qed (use assms(2) in auto)
qed

section \<open>Expiry and restart\<close>

lemma remove_dir_sessions [simp]: "es_sessions (remove_dir fault i e) = es_sessions e"
  by (simp add: remove_dir_def)

lemma remove_dir_dirs:
  "map_of (es_dirs (remove_dir fault i e)) j = (if j = i \<and> \<not> fault ''remove'' i then None else map_of (es_dirs e) j)"
  by (simp add: remove_dir_def)

lemma remove_dir_distinct: "distinct (map fst (es_dirs e)) \<Longrightarrow> distinct (map fst (es_dirs (remove_dir fault i e)))"
  by (simp add: remove_dir_def distinct_delete)

lemma remove_dirs:
  "es_sessions (foldr (remove_dir fault) is e) = es_sessions e
    \<and> map_of (es_dirs (foldr (remove_dir fault) is e)) j = (if j \<in> set is \<and> \<not> fault ''remove'' j then None else map_of (es_dirs e) j)
    \<and> (distinct (map fst (es_dirs e)) \<longrightarrow> distinct (map fst (es_dirs (foldr (remove_dir fault) is e))))"
  by (induction "is") (auto simp: remove_dir_dirs remove_dir_distinct)

definition dead_ids :: "time \<Rightarrow> sessionStore \<Rightarrow> string list" where
  "dead_ids cutoff e = map fst (filter (\<lambda>(i, session). expired_session cutoff session) (es_sessions e))"

lemma map_of_filter_value:
  "distinct (map fst xs) \<Longrightarrow> map_of (filter (\<lambda>(k, v). P v) xs) i = (case map_of xs i of None \<Rightarrow> None | Some v \<Rightarrow> if P v then Some v else None)"
proof (induction xs)
  case (Cons x xs)
  then have "map_of xs (fst x) = None" by (simp add: map_of_eq_None_iff)
  then show ?case using Cons by (auto split: option.splits)
qed simp

lemma dead_ids_iff:
  "distinct (map fst (es_sessions e)) \<Longrightarrow>
    i \<in> set (dead_ids cutoff e) \<longleftrightarrow> (\<exists>session. find_session i e = Some session \<and> expired_session cutoff session)"
  by (force simp: dead_ids_def find_session_def image_iff)

lemma disk_key_removed:
  "map_of (es_dirs e') j = (if b then None else map_of (es_dirs e) j) \<Longrightarrow> disk_key e' j = (if b then None else disk_key e j)"
  by (simp add: disk_key_def)

lemma cleanup_facts:
  assumes "coherent e" and cleaned: "e' = cleanup fault now ttl e"
  shows "find_session i e' = (if i \<in> set (dead_ids (now - ttl) e) then None else find_session i e)"
    "map_of (es_dirs e') i = (if i \<in> set (dead_ids (now - ttl) e) \<and> \<not> fault ''remove'' i then None else map_of (es_dirs e) i)"
    "coherent e'"
proof -
  let ?keep = "e\<lparr>es_sessions := filter (\<lambda>(i, session). \<not> expired_session (now - ttl) session) (es_sessions e)\<rparr>"
  have e': "e' = foldr (remove_dir fault) (dead_ids (now - ttl) e) ?keep"
    by (simp add: cleaned cleanup_def dead_ids_def)
  have dist: "distinct (map fst (es_sessions e))" "distinct (map fst (es_dirs e))" using assms(1) by (simp_all add: coherent_def)
  have sessions: "es_sessions e' = es_sessions ?keep" unfolding e' by (simp only: remove_dirs)
  show find: "find_session i e' = (if i \<in> set (dead_ids (now - ttl) e) then None else find_session i e)" for i
    unfolding find_session_def sessions using dead_ids_iff [OF dist(1), of i] map_of_filter_value [OF dist(1), of "\<lambda>s. \<not> expired_session (now - ttl) s" i]
    by (auto simp: find_session_def split: option.splits)
  show dirs: "map_of (es_dirs e') i = (if i \<in> set (dead_ids (now - ttl) e) \<and> \<not> fault ''remove'' i then None else map_of (es_dirs e) i)" for i
    unfolding e' by (simp add: remove_dirs)
  have "distinct (map fst (es_dirs e'))" using dist(2) unfolding e' by (simp add: remove_dirs)
  moreover have "distinct (map fst (es_sessions e'))" unfolding sessions using dist(1) by (simp add: distinct_map_filter)
  ultimately show "coherent e'"
    using assms(1) unfolding coherent_def find dirs disk_key_removed [OF dirs] by (auto split: if_splits)
qed

lemma session_of_same [simp]:
  "s_id (session_of md) = md_ID md" "s_requestKeyHash (session_of md) = md_RequestKeyHash md"
  by (simp_all add: session_of_def)

text \<open>The document a restart reads for a session, if it takes it up at all.\<close>

definition restorable :: "time \<Rightarrow> string \<Rightarrow> sessionMetadata option \<Rightarrow> sessionMetadata option" where
  "restorable cutoff name m =
    (case m of None \<Rightarrow> None
     | Some md \<Rightarrow> if HasPrefix name ''proc_'' \<and> md_ID md = name \<and> \<not> stale_metadata cutoff md then Some md else None)"

lemma restored_same [simp]:
  "s_id (restored_session alive now md) = md_ID md"
  "s_requestKeyHash (restored_session alive now md) = md_RequestKeyHash md"
  "s_cmd (restored_session alive now md) = False"
  by (simp_all add: restored_session_def Let_def closeDone_def, simp_all add: session_of_def)

lemma restore_entry_facts:
  assumes "coherent e" "map_of (es_dirs e) name = Some m" "find_session name e = None"
    and run: "e' = restore_entry fault alive now ttl (name, m) e"
  shows "coherent e' \<and> (\<forall>j. j \<noteq> name \<longrightarrow> find_session j e' = find_session j e \<and> map_of (es_dirs e') j = map_of (es_dirs e) j)
    \<and> find_session name e' = map_option (restored_session alive now) (restorable (now - ttl) name m)
    \<and> (restorable (now - ttl) name m = None \<longrightarrow> disk_key e' name = None \<or> disk_key e' name = disk_key e name)
    \<and> (\<forall>md. restorable (now - ttl) name m = Some md \<longrightarrow> disk_key e' name = Some (md_RequestKeyHash md))"
proof (cases "restorable (now - ttl) name m")
  case None
  then consider "e' = e" | "e' = remove_dir fault name e"
    using run by (auto simp: restore_entry_def restorable_def split: option.splits if_splits)
  then show ?thesis
  proof cases
    case 2
    have find: "find_session j e' = find_session j e" for j by (simp add: 2 find_session_def)
    have disk: "disk_key e' j = (if j = name \<and> \<not> fault ''remove'' name then None else disk_key e j)" for j
      by (rule disk_key_removed) (simp only: 2 remove_dir_dirs)
    have "coherent e'"
      using assms(1,3) unfolding coherent_def find disk by (auto simp: 2 remove_dir_distinct remove_dir_dirs)
    then show ?thesis using None assms(3) find disk by (auto simp: 2 remove_dir_dirs)
  qed (use None assms(1,3) in auto)
next
  case (Some md)
  then have md: "m = Some md" "HasPrefix name ''proc_''" "md_ID md = name" "\<not> stale_metadata (now - ttl) md"
    by (auto simp: restorable_def split: option.splits if_splits)
  let ?s = "restored_session alive now md" let ?e1 = "put_session ?s e"
  have e': "e' = (if s_done ?s then snd (persistSession fault ?s ?e1) else ?e1)"
    using md by (simp add: run restore_entry_def Let_def)
  have disk1: "disk_key ?e1 = disk_key e" by (rule disk_key_dirs) simp
  have key: "disk_key e name = Some (s_requestKeyHash ?s)" using md assms(2) by (simp add: disk_key_def)
  have "distinct (map fst (es_sessions ?e1))" using assms(1) by (simp add: put_session_def coherent_def distinct_update)
  then have e1: "coherent ?e1" using assms(1) md key by (auto simp: coherent_def disk1)
  have find: "find_session name ?e1 = Some ?s" by (simp add: md(3))
  have "updates name ?e1 e'"
    using persist_updates [OF e1 find, of ?s fault] updates_refl [OF e1] by (simp add: e' md(3))
  then have "coherent e'" "disk_key e' = disk_key e" by (simp_all add: updates_def disk1)
  moreover have "map_of (es_dirs e') j = map_of (es_dirs e) j" if "j \<noteq> name" for j
    using that md(3) by (auto simp: e' persistSession_def)
  moreover have "find_session j e' = (if j = name then Some ?s else find_session j e)" for j by (simp add: e' md(3))
  ultimately show ?thesis using key Some by simp
qed

lemma restore_fold:
  assumes "distinct (map fst xs)" "coherent e"
    and "\<forall>(name, m) \<in> set xs. map_of (es_dirs e) name = Some m \<and> find_session name e = None"
    and "e' = fold (restore_entry fault alive now ttl) xs e"
  shows "coherent e' \<and> (\<forall>j. j \<notin> fst ` set xs \<longrightarrow> find_session j e' = find_session j e \<and> map_of (es_dirs e') j = map_of (es_dirs e) j)
    \<and> (\<forall>(name, m) \<in> set xs. find_session name e' = map_option (restored_session alive now) (restorable (now - ttl) name m)
        \<and> (restorable (now - ttl) name m = None \<longrightarrow> disk_key e' name = None \<or> disk_key e' name = disk_key e name)
        \<and> (\<forall>md. restorable (now - ttl) name m = Some md \<longrightarrow> disk_key e' name = Some (md_RequestKeyHash md)))"
  using assms
proof (induction xs arbitrary: e e')
  case (Cons x xs)
  obtain name m where x: "x = (name, m)" by (cases x)
  define e1 where "e1 = restore_entry fault alive now ttl (name, m) e"
  have one: "coherent e1 \<and> (\<forall>j. j \<noteq> name \<longrightarrow> find_session j e1 = find_session j e \<and> map_of (es_dirs e1) j = map_of (es_dirs e) j)
    \<and> find_session name e1 = map_option (restored_session alive now) (restorable (now - ttl) name m)
    \<and> (restorable (now - ttl) name m = None \<longrightarrow> disk_key e1 name = None \<or> disk_key e1 name = disk_key e name)
    \<and> (\<forall>md. restorable (now - ttl) name m = Some md \<longrightarrow> disk_key e1 name = Some (md_RequestKeyHash md))"
    by (rule restore_entry_facts [OF Cons.prems(2) _ _ e1_def]) (use Cons.prems(3) x in auto)
  have other: "disk_key e1 j = disk_key e j" if "j \<noteq> name" for j using one that by (simp add: disk_key_def)
  have name: "name \<notin> fst ` set xs" using Cons.prems(1) x by auto
  have rest: "\<forall>(name, m) \<in> set xs. map_of (es_dirs e1) name = Some m \<and> find_session name e1 = None"
    using Cons.prems(3) one name by (force simp: image_iff)
  define e2 where "e2 = fold (restore_entry fault alive now ttl) xs e1"
  have two: "coherent e2 \<and> (\<forall>j. j \<notin> fst ` set xs \<longrightarrow> find_session j e2 = find_session j e1 \<and> map_of (es_dirs e2) j = map_of (es_dirs e1) j)
    \<and> (\<forall>(name, m) \<in> set xs. find_session name e2 = map_option (restored_session alive now) (restorable (now - ttl) name m)
        \<and> (restorable (now - ttl) name m = None \<longrightarrow> disk_key e2 name = None \<or> disk_key e2 name = disk_key e1 name)
        \<and> (\<forall>md. restorable (now - ttl) name m = Some md \<longrightarrow> disk_key e2 name = Some (md_RequestKeyHash md)))"
    by (rule Cons.IH [OF _ _ _ e2_def]) (use Cons.prems(1) x one rest in auto)
  have "disk_key e2 name = disk_key e1 name" using two name by (simp add: disk_key_def)
  then have head: "find_session name e2 = map_option (restored_session alive now) (restorable (now - ttl) name m)
      \<and> (restorable (now - ttl) name m = None \<longrightarrow> disk_key e2 name = None \<or> disk_key e2 name = disk_key e name)
      \<and> (\<forall>md. restorable (now - ttl) name m = Some md \<longrightarrow> disk_key e2 name = Some (md_RequestKeyHash md))"
    using one two name by simp
  have "disk_key e1 k = disk_key e k" if "(k, v) \<in> set xs" for k v
    by (rule other) (use that name in force)
  then have tail: "\<forall>(name, m) \<in> set xs. find_session name e2 = map_option (restored_session alive now) (restorable (now - ttl) name m)
        \<and> (restorable (now - ttl) name m = None \<longrightarrow> disk_key e2 name = None \<or> disk_key e2 name = disk_key e name)
        \<and> (\<forall>md. restorable (now - ttl) name m = Some md \<longrightarrow> disk_key e2 name = Some (md_RequestKeyHash md))"
    using two by fastforce
  have "e' = e2" using Cons.prems(4) by (simp add: x e1_def e2_def)
  then show ?case using head tail one two x by simp
qed simp

text \<open>After a restart the table holds exactly the sessions whose directories hold a document that is not stale.\<close>

lemma restore_facts:
  assumes "coherent e" and run: "e' = restoreSessions fault alive now ttl e"
  shows "coherent e'"
    "find_session i e' = (case map_of (es_dirs e) i of None \<Rightarrow> None
       | Some m \<Rightarrow> map_option (restored_session alive now) (restorable (now - ttl) i m))"
    "disk_key e' i = None \<or> disk_key e' i = disk_key e i"
    "find_session i e' \<noteq> None \<Longrightarrow> disk_key e' i = disk_key e i \<and> disk_key e i = mem_key e' i"
proof -
  let ?e = "e\<lparr>es_sessions := []\<rparr>"
  have d: "distinct (map fst (es_dirs e))" "coherent ?e" using assms(1) by (simp_all add: coherent_def find_session_def)
  have disk0: "disk_key ?e = disk_key e" by (rule disk_key_dirs) simp
  have "\<forall>(name, m) \<in> set (es_dirs e). map_of (es_dirs ?e) name = Some m \<and> find_session name ?e = None"
    using d(1) by (auto simp: find_session_def)
  note fold = restore_fold [OF d(1,2) this, of e' fault alive now ttl, OF run [unfolded restoreSessions_def]]
  show "coherent e'" using fold by blast
  show find: "find_session i e' = (case map_of (es_dirs e) i of None \<Rightarrow> None
       | Some m \<Rightarrow> map_option (restored_session alive now) (restorable (now - ttl) i m))" for i
  proof (cases "map_of (es_dirs e) i")
    case None
    then have "i \<notin> fst ` set (es_dirs e)" by (simp add: map_of_eq_None_iff)
    then have "find_session i e' = find_session i ?e" using fold by blast
    then show ?thesis using None by (simp add: find_session_def)
  next
    case (Some m)
    then have "(i, m) \<in> set (es_dirs e)" by (rule map_of_SomeD)
    then show ?thesis using fold Some by auto
  qed
  have disk: "(restorable (now - ttl) i m = None \<longrightarrow> disk_key e' i = None \<or> disk_key e' i = disk_key e i)
        \<and> (\<forall>md. restorable (now - ttl) i m = Some md \<longrightarrow> disk_key e' i = Some (md_RequestKeyHash md))"
    if "map_of (es_dirs e) i = Some m" for m i
    using bspec [OF conjunct2 [OF conjunct2 [OF fold]] map_of_SomeD [OF that]] unfolding disk0 by simp
  have key: "disk_key e i = Some (md_RequestKeyHash md)"
    if "map_of (es_dirs e) i = Some m" "restorable (now - ttl) i m = Some md" for m md i
    using that by (auto simp: disk_key_def restorable_def split: option.splits if_splits)
  show "disk_key e' i = None \<or> disk_key e' i = disk_key e i"
  proof (cases "map_of (es_dirs e) i")
    case None
    then have "i \<notin> fst ` set (es_dirs e)" by (simp add: map_of_eq_None_iff)
    then have "map_of (es_dirs e') i = map_of (es_dirs ?e) i" using fold by blast
    then show ?thesis using None by (simp add: disk_key_def)
  next
    case (Some m)
    then show ?thesis using disk [OF Some] key [OF Some] by (cases "restorable (now - ttl) i m") simp_all
  qed
  show "disk_key e' i = disk_key e i \<and> disk_key e i = mem_key e' i" if held: "find_session i e' \<noteq> None"
  proof -
    obtain m md where m: "map_of (es_dirs e) i = Some m" "restorable (now - ttl) i m = Some md"
      using held find [of i]
      by (cases "map_of (es_dirs e) i"; cases "restorable (now - ttl) i (the (map_of (es_dirs e) i))") auto
    then show ?thesis using disk [OF m(1)] key [OF m] find [of i] by (simp add: mem_key_def)
  qed
qed

end
