(* ===== verification/SessionRun.thy ===== *)
theory SessionRun
  imports SessionFacts
begin

text \<open>
  The agent's command sessions as a system: the goroutines that run \<open>execCommand\<close>, wait for processes, enforce
  deadlines, watch restored processes and clean up, interleaved at their critical sections, and the agent's
  process being lost and started again at any point. \<open>rn_spawned\<close> records every process the system was asked
  to start, with the request key it was started for; \<open>rn_expired\<close> the sessions that outlived their time to
  live; \<open>rn_ids\<close> the random ids drawn so far, which do not repeat.
\<close>

section \<open>Steps\<close>

datatype phase = Looked | Reserved string | Spawned string int string | Running string | Answering string

type_synonym execThread = "(string \<times> string) option \<times> phase"

record run =
  rn_store :: sessionStore
  rn_threads :: "execThread list"
  rn_waiting :: "string list"
  rn_monitors :: "string list"
  rn_ids :: "string list"
  rn_spawned :: "(string \<times> string) list"
  rn_expired :: "string list"

definition new_run :: run where
  "new_run = \<lparr>rn_store = \<lparr>es_sessions = [], es_dirs = [], es_events = []\<rparr>, rn_threads = [], rn_waiting = [],
     rn_monitors = [], rn_ids = [], rn_spawned = [], rn_expired = []\<rparr>"

definition unlocked :: "execThread list \<Rightarrow> bool" where
  "unlocked threads \<longleftrightarrow> list_all (\<lambda>t. fst t = None) threads"

definition stale_ids :: "time \<Rightarrow> sessionStore \<Rightarrow> string list" where
  "stale_ids cutoff e =
    map fst (filter (\<lambda>(name, m). case m of None \<Rightarrow> False | Some md \<Rightarrow> stale_metadata cutoff md) (es_dirs e))"

definition watched :: "sessionStore \<Rightarrow> string list" where
  "watched e = map fst (filter (\<lambda>(i, session). \<not> s_done session) (es_sessions e))"

text \<open>
  \<open>execCommandOnce\<close> holds its lock from the look-up until it answers, so it may only look when no other keyed
  call is under way; a call without a key takes no lock.
\<close>

inductive live_step :: "run \<Rightarrow> run \<Rightarrow> bool" where
  look_keyed: "unlocked (rn_threads s) \<Longrightarrow> command_identity encode key args = (k, h) \<Longrightarrow>
    keyed_session k (rn_store s) = None \<Longrightarrow>
    live_step s (s\<lparr>rn_threads := (Some (k, h), Looked) # rn_threads s\<rparr>)"
| look_plain: "live_step s (s\<lparr>rn_threads := (None, Looked) # rn_threads s\<rparr>)"
| reserved: "rn_threads s = us @ (ident, Looked) # vs \<Longrightarrow> i \<notin> set (rn_ids s) \<Longrightarrow> HasPrefix i ''proc_'' \<Longrightarrow>
    reserve fault enc now (Some i) ident requestID maxLogBytes la (rn_store s) = (Inr i, e) \<Longrightarrow>
    live_step s (s\<lparr>rn_store := e, rn_threads := us @ (ident, Reserved i) # vs, rn_ids := i # rn_ids s\<rparr>)"
| not_reserved: "rn_threads s = us @ (ident, Looked) # vs \<Longrightarrow> i \<notin> set (rn_ids s) \<Longrightarrow> HasPrefix i ''proc_'' \<Longrightarrow>
    reserve fault enc now (Some i) ident requestID maxLogBytes la (rn_store s) = (Inl err, e) \<Longrightarrow>
    live_step s (s\<lparr>rn_store := e, rn_threads := us @ vs, rn_ids := i # rn_ids s\<rparr>)"
| not_started: "rn_threads s = us @ (ident, Reserved i) # vs \<Longrightarrow>
    live_step s (s\<lparr>rn_store := start_failed fault enc now i (rn_store s), rn_threads := us @ vs\<rparr>)"
| spawned: "rn_threads s = us @ (ident, Reserved i) # vs \<Longrightarrow> find_session i (rn_store s) = Some session \<Longrightarrow>
    live_step s (s\<lparr>rn_threads := us @ (ident, Spawned i pid identity) # vs,
                   rn_spawned := (s_requestKeyHash session, i) # rn_spawned s\<rparr>)"
| running: "rn_threads s = us @ (ident, Spawned i pid identity) # vs \<Longrightarrow>
    live_step s (s\<lparr>rn_store := start_running enc now pid identity i (rn_store s),
                   rn_threads := us @ (ident, Running i) # vs, rn_waiting := i # rn_waiting s\<rparr>)"
| saved: "rn_threads s = us @ (ident, Running i) # vs \<Longrightarrow> find_session i (rn_store s) = Some session \<Longrightarrow>
    persistSession fault session (rn_store s) = (True, e) \<Longrightarrow>
    live_step s (s\<lparr>rn_store := e, rn_threads := us @ (ident, Answering i) # vs\<rparr>)"
| not_saved: "rn_threads s = us @ (ident, Running i) # vs \<Longrightarrow> find_session i (rn_store s) = Some session \<Longrightarrow>
    persistSession fault session (rn_store s) = (False, e) \<Longrightarrow>
    live_step s (s\<lparr>rn_store := snd (stopSession fault enc alive kill now i ''failed'' e), rn_threads := us @ vs\<rparr>)"
| answered: "rn_threads s = us @ (ident, Answering i) # vs \<Longrightarrow> live_step s (s\<lparr>rn_threads := us @ vs\<rparr>)"
| stop: "status \<in> {''cancelled'', ''timed_out''} \<Longrightarrow>
    live_step s (s\<lparr>rn_store := snd (stopSession fault enc alive kill now i status (rn_store s))\<rparr>)"
| exit: "i \<in> set (rn_waiting s) \<Longrightarrow>
    live_step s (s\<lparr>rn_store := waitProcess fault enc now waited err budget i (rn_store s),
                   rn_waiting := remove1 i (rn_waiting s)\<rparr>)"
| tick: "i \<in> set (rn_monitors s) \<Longrightarrow>
    live_step s (s\<lparr>rn_store := monitorRestored fault enc alive alive1 kill now i (rn_store s)\<rparr>)"
| expire: "live_step s (s\<lparr>rn_store := cleanup fault now ttl (rn_store s),
                   rn_expired := dead_ids (now - ttl) (rn_store s) @ rn_expired s\<rparr>)"

inductive session_step :: "run \<Rightarrow> run \<Rightarrow> bool" where
  live: "live_step s t \<Longrightarrow> session_step s t"
| restart: "restoreSessions fault alive now ttl (rn_store s) = e \<Longrightarrow>
    session_step s (s\<lparr>rn_store := e, rn_threads := [], rn_waiting := [], rn_monitors := watched e,
                      rn_expired := stale_ids (now - ttl) (rn_store s) @ rn_expired s\<rparr>)"

inductive_cases live_stepE: "live_step s t"
inductive_cases session_stepE: "session_step s t"

section \<open>How one session moves\<close>

definition lifecycle :: "string \<Rightarrow> string \<Rightarrow> bool" where
  "lifecycle a b \<longleftrightarrow> a = b \<or> a = ''starting'' \<and> b \<in> {''running'', ''failed''}
     \<or> a = ''running'' \<and> b \<in> {''exited'', ''failed'', ''timed_out'', ''cancelled'', ''orphaned''}"

definition settled :: "processSession \<Rightarrow> bool" where
  "settled session \<longleftrightarrow> (s_done session \<longrightarrow> s_status session \<noteq> ''starting'' \<and> s_status session \<noteq> ''running'')"

definition young :: "processSession \<Rightarrow> bool" where
  "young session \<longleftrightarrow> s_status session = ''starting'' \<and> s_finishedAt session = 0 \<and> s_cmd session \<and> \<not> s_done session"

definition advances :: "processSession \<Rightarrow> processSession \<Rightarrow> bool" where
  "advances session session' \<longleftrightarrow> lifecycle (s_status session) (s_status session') \<and> settled session'
    \<and> s_cmd session' = s_cmd session \<and> (s_status session \<noteq> ''starting'' \<longrightarrow> s_status session' \<noteq> ''starting'')
    \<and> (s_done session \<longrightarrow> s_done session' \<and> s_status session' = s_status session \<and> s_exitCode session' = s_exitCode session)"

lemmas session_defs = advances_def settled_def young_def lifecycle_def closeDone_def

lemma advances_refl: "settled session \<Longrightarrow> advances session session"
  by (simp add: session_defs)

lemma start_failed_advances:
  assumes "find_session i e = Some session" "young session" "s_id session = i"
  shows "\<exists>session'. find_session i (start_failed fault enc now i e) = Some session' \<and> advances session session'"
  using assms by (simp add: start_failed_def session_defs)

lemma start_running_advances:
  assumes "find_session i e = Some session" "young session" "s_id session = i"
  shows "\<exists>session'. find_session i (start_running enc now pid identity i e) = Some session' \<and> advances session session'
    \<and> s_status session' = ''running'' \<and> \<not> s_done session' \<and> s_cmd session'"
  using assms by (simp add: start_running_def session_defs Let_def)

lemma stopSession_advances:
  assumes "find_session i e = Some session" "settled session" "s_id session = i"
    and "status \<in> {''cancelled'', ''timed_out'', ''failed''}"
  shows "\<exists>session'. find_session i (snd (stopSession fault enc alive kill now i status e)) = Some session'
    \<and> advances session session' \<and> (s_cmd session \<longrightarrow> s_done session' = s_done session)
    \<and> s_status session' \<in> {s_status session, ''orphaned'', status}"
  using assms by (auto simp: stopSession_def session_defs Let_def)

lemma waitProcess_advances:
  assumes "find_session i e = Some session" "\<not> s_done session" "s_status session \<notin> {''starting'', ''exited''}" "s_id session = i"
    and "settled session"
  shows "\<exists>session'. find_session i (waitProcess fault enc now waited err budget i e) = Some session' \<and> advances session session'"
  using assms by (auto simp: waitProcess_def exited_session_def session_defs Let_def)

lemma restored_ended_advances:
  assumes "s_status session \<noteq> ''starting''" "settled session"
  shows "advances session (closeDone (restored_ended now session))"
  using assms by (auto simp: restored_ended_def session_defs)

lemma lifecycle_trans: "a \<noteq> ''starting'' \<Longrightarrow> lifecycle a b \<Longrightarrow> lifecycle b c \<Longrightarrow> lifecycle a c"
  by (cases "a = b"; cases "b = c") (auto simp: lifecycle_def)

lemma advancesD:
  assumes "advances a b"
  shows "lifecycle (s_status a) (s_status b)" "settled b" "s_cmd b = s_cmd a"
    "s_status a \<noteq> ''starting'' \<Longrightarrow> s_status b \<noteq> ''starting''"
    "s_done a \<Longrightarrow> s_done b" "s_done a \<Longrightarrow> s_status b = s_status a" "s_done a \<Longrightarrow> s_exitCode b = s_exitCode a"
  using assms unfolding advances_def by blast+

lemma advancesI:
  assumes "lifecycle (s_status a) (s_status b)" "settled b" "s_cmd b = s_cmd a"
    "s_status a \<noteq> ''starting'' \<Longrightarrow> s_status b \<noteq> ''starting''"
    "s_done a \<Longrightarrow> s_done b" "s_done a \<Longrightarrow> s_status b = s_status a" "s_done a \<Longrightarrow> s_exitCode b = s_exitCode a"
  shows "advances a b"
  using assms unfolding advances_def by blast

lemma advances_trans:
  assumes "s_status a \<noteq> ''starting''" "advances a b" "advances b c"
  shows "advances a c"
proof (rule advancesI)
  show "lifecycle (s_status a) (s_status c)"
    by (rule lifecycle_trans [OF assms(1) advancesD(1) [OF assms(2)] advancesD(1) [OF assms(3)]])
  show "s_cmd c = s_cmd a" by (simp only: advancesD(3) [OF assms(3)] advancesD(3) [OF assms(2)])
  show "s_status c \<noteq> ''starting''" by (rule advancesD(4) [OF assms(3) advancesD(4) [OF assms(2,1)]])
  show "s_done c" if "s_done a" by (rule advancesD(5) [OF assms(3) advancesD(5) [OF assms(2) that]])
  show "s_status c = s_status a" if "s_done a"
    by (simp only: advancesD(6) [OF assms(3) advancesD(5) [OF assms(2) that]] advancesD(6) [OF assms(2) that])
  show "s_exitCode c = s_exitCode a" if "s_done a"
    by (simp only: advancesD(7) [OF assms(3) advancesD(5) [OF assms(2) that]] advancesD(7) [OF assms(2) that])
qed (rule advancesD(2) [OF assms(3)])

lemma monitorRestored_advances:
  assumes "find_session i e = Some session" "settled session" "s_status session \<noteq> ''starting''" "s_id session = i"
    and "coherent e"
  shows "\<exists>session'. find_session i (monitorRestored fault enc alive alive1 kill now i e) = Some session' \<and> advances session session'"
proof -
  define e1 where "e1 = (if \<not> IsZero (s_deadline session) \<and> now > s_deadline session
    then snd (stopSession fault enc alive kill now i ''timed_out'' e) else e)"
  let ?stopped = "snd (stopSession fault enc alive kill now i ''timed_out'' e)"
  have "\<exists>s1. find_session i ?stopped = Some s1 \<and> advances session s1"
    using stopSession_advances [OF assms(1,2,4), of "''timed_out''" fault enc alive kill now] by blast
  then have "\<exists>s1. find_session i e1 = Some s1 \<and> advances session s1"
    using assms(1) advances_refl [OF assms(2)]
    by (cases "\<not> IsZero (s_deadline session) \<and> now > s_deadline session") (simp_all only: e1_def if_True if_False, simp_all)
  then obtain s1 where s1: "find_session i e1 = Some s1" "advances session s1" by blast
  have "coherent e1" using assms(5) by (simp add: e1_def updates_coherent [OF stopSession_updates])
  then have "s_id s1 = i" using s1(1) by (rule coherentD)
  moreover have "advances s1 (closeDone (restored_ended now s1))"
    by (rule restored_ended_advances [OF advancesD(4) [OF s1(2) assms(3)] advancesD(2) [OF s1(2)]])
  ultimately show ?thesis using s1 advances_trans [OF assms(3) s1(2)]
    by (simp add: monitorRestored_def assms(1) Let_def e1_def [symmetric])
qed

section \<open>The goroutines and their sessions\<close>

fun young_id :: "execThread \<Rightarrow> string list" where
  "young_id (ident, Reserved i) = [i]"
| "young_id (ident, Spawned i pid identity) = [i]"
| "young_id t = []"

definition young_ids :: "execThread list \<Rightarrow> string list" where
  "young_ids threads = concat (map young_id threads)"

lemma young_ids_simps [simp]:
  "young_ids [] = []" "young_ids (t # ts) = young_id t @ young_ids ts" "young_ids (us @ vs) = young_ids us @ young_ids vs"
  by (simp_all add: young_ids_def)

definition known :: "run \<Rightarrow> string set" where
  "known s = set (map fst (es_dirs (rn_store s))) \<union> {i. find_session i (rn_store s) \<noteq> None} \<union> set (rn_waiting s)
     \<union> set (rn_monitors s) \<union> set (young_ids (rn_threads s))"

definition life_inv :: "run \<Rightarrow> bool" where
  "life_inv s \<longleftrightarrow> coherent (rn_store s) \<and> known s \<subseteq> set (rn_ids s)
    \<and> (\<forall>i session. find_session i (rn_store s) = Some session \<longrightarrow> settled session)
    \<and> (\<forall>i \<in> set (young_ids (rn_threads s)). \<exists>session. find_session i (rn_store s) = Some session \<and> young session)
    \<and> distinct (young_ids (rn_threads s) @ rn_waiting s)
    \<and> (\<forall>i \<in> set (rn_waiting s). \<forall>session. find_session i (rn_store s) = Some session \<longrightarrow>
         s_cmd session \<and> \<not> s_done session \<and> s_status session \<notin> {''starting'', ''exited''})
    \<and> (\<forall>i \<in> set (rn_monitors s). \<forall>session. find_session i (rn_store s) = Some session \<longrightarrow>
         \<not> s_cmd session \<and> s_status session \<noteq> ''starting'')"

lemma life_invD:
  assumes "life_inv s"
  shows "coherent (rn_store s)" "known s \<subseteq> set (rn_ids s)"
    "find_session i (rn_store s) = Some session \<Longrightarrow> settled session"
    "i \<in> set (young_ids (rn_threads s)) \<Longrightarrow> \<exists>session. find_session i (rn_store s) = Some session \<and> young session"
    "distinct (young_ids (rn_threads s) @ rn_waiting s)"
    "i \<in> set (rn_waiting s) \<Longrightarrow> find_session i (rn_store s) = Some session \<Longrightarrow>
       s_cmd session \<and> \<not> s_done session \<and> s_status session \<notin> {''starting'', ''exited''}"
    "i \<in> set (rn_monitors s) \<Longrightarrow> find_session i (rn_store s) = Some session \<Longrightarrow>
       \<not> s_cmd session \<and> s_status session \<noteq> ''starting''"
  using assms unfolding life_inv_def by blast+

lemma updates_find_None: "updates i e e' \<Longrightarrow> find_session j e' = None \<longleftrightarrow> find_session j e = None"
  by (metis mem_key_def option.map_disc_iff updates_def)

text \<open>A step of one session: it advances, and it is no longer among the young ones.\<close>

lemma life_inv_update:
  assumes "life_inv s" "updates i (rn_store s) e"
    and adv: "\<And>session. find_session i (rn_store s) = Some session \<Longrightarrow> \<exists>session'. find_session i e = Some session' \<and> advances session session'
          \<and> (i \<in> set W \<longrightarrow> s_cmd session' \<and> \<not> s_done session' \<and> s_status session' \<notin> {''starting'', ''exited''})"
    and T: "set (young_ids T) \<subseteq> set (young_ids (rn_threads s)) - {i}" and W: "set W \<subseteq> insert i (set (rn_waiting s))"
    and D: "distinct (young_ids T @ W)" and I: "i \<in> set (rn_ids s)"
  shows "life_inv (s\<lparr>rn_store := e, rn_threads := T, rn_waiting := W\<rparr>)"
proof -
  let ?s = "s\<lparr>rn_store := e, rn_threads := T, rn_waiting := W\<rparr>"
  note inv = life_invD [OF assms(1)]
  have upd: "coherent e" "map fst (es_dirs e) = map fst (es_dirs (rn_store s))"
    "j \<noteq> i \<Longrightarrow> find_session j e = find_session j (rn_store s)" for j
    using assms(2) by (simp_all add: updates_def)
  have none: "find_session j e = None \<longleftrightarrow> find_session j (rn_store s) = None" for j
    by (rule updates_find_None [OF assms(2)])
  have "known ?s \<subseteq> set (rn_ids s)"
    using inv(2) T W I none unfolding known_def by (auto simp: upd(2))
  moreover have "settled session" if f: "find_session j e = Some session" for j session
  proof (cases "j = i")
    case True
    then obtain session0 where "find_session i (rn_store s) = Some session0" using f none [of i] by auto
    from adv [OF this] show ?thesis using f True advancesD(2) by auto
  qed (use f inv(3) upd(3) in auto)
  moreover have "\<exists>session. find_session j e = Some session \<and> young session" if "j \<in> set (young_ids T)" for j
  proof -
    have "j \<noteq> i" "j \<in> set (young_ids (rn_threads s))" using that T by auto
    then show ?thesis using inv(4) upd(3) by simp
  qed
  moreover have "s_cmd session \<and> \<not> s_done session \<and> s_status session \<notin> {''starting'', ''exited''}"
    if w: "j \<in> set W" and f: "find_session j e = Some session" for j session
  proof (cases "j = i")
    case True
    then obtain session0 where "find_session i (rn_store s) = Some session0" using f none [of i] by auto
    from adv [OF this] show ?thesis using w f True by auto
  next
    case False
    then show ?thesis using w W f inv(6) [of j session] upd(3) [OF False] by auto
  qed
  moreover have "\<not> s_cmd session \<and> s_status session \<noteq> ''starting''"
    if m: "j \<in> set (rn_monitors s)" and f: "find_session j e = Some session" for j session
  proof (cases "j = i")
    case True
    then obtain session0 where 0: "find_session i (rn_store s) = Some session0" using f none [of i] by auto
    then obtain session' where "find_session i e = Some session'" "advances session0 session'" using adv by blast
    then show ?thesis using f True inv(7) [OF m] 0 advancesD(3,4) by auto
  next
    case False
    then show ?thesis using m f inv(7) [of j session] upd(3) [OF False] by auto
  qed
  ultimately show ?thesis using upd(1) D unfolding life_inv_def by auto
qed

text \<open>A step that changes no session.\<close>

lemma life_inv_same:
  assumes "life_inv s" "coherent e" "\<And>j. find_session j e = find_session j (rn_store s)"
    and "set (map fst (es_dirs e)) \<subseteq> I" "set (rn_ids s) \<subseteq> I" "set ids = I"
    and "set (young_ids T) \<subseteq> set (young_ids (rn_threads s))" "distinct (young_ids T @ rn_waiting s)"
  shows "life_inv (s\<lparr>rn_store := e, rn_threads := T, rn_ids := ids\<rparr>)"
  using assms life_invD(2) [OF assms(1)] unfolding life_inv_def known_def by (auto 4 3)

section \<open>Every step keeps the invariant\<close>

lemma new_session_young: "young (new_session now i ident requestID maxLogBytes la)"
  by (simp add: young_def new_session_def)

lemma young_settled: "young session \<Longrightarrow> settled session"
  by (simp add: young_def settled_def)

lemma life_reserved:
  assumes "life_inv s" "rn_threads s = us @ (ident, Looked) # vs" "i \<notin> set (rn_ids s)" "HasPrefix i ''proc_''"
    and "reserve fault enc now (Some i) ident requestID maxLogBytes la (rn_store s) = (Inr i, e)"
  shows "life_inv (s\<lparr>rn_store := e, rn_threads := us @ (ident, Reserved i) # vs, rn_ids := i # rn_ids s\<rparr>)"
proof -
  note inv = life_invD [OF assms(1)]
  have r: "coherent e" "set (map fst (es_dirs e)) = insert i (set (map fst (es_dirs (rn_store s))))"
    "find_session i e = Some (new_session now i ident requestID maxLogBytes la)"
    "j \<noteq> i \<Longrightarrow> find_session j e = find_session j (rn_store s)" for j
    using reserve_Inr [OF assms(5) inv(1) assms(4)] by auto
  let ?s = "s\<lparr>rn_store := e, rn_threads := us @ (ident, Reserved i) # vs, rn_ids := i # rn_ids s\<rparr>"
  have new: "i \<notin> set (young_ids (us @ vs)) \<union> set (rn_waiting s) \<union> set (rn_monitors s)"
    using inv(2) assms(3) by (auto simp: known_def assms(2))
  have found: "{j. find_session j e \<noteq> None} \<subseteq> insert i {j. find_session j (rn_store s) \<noteq> None}"
  proof
    fix j assume "j \<in> {j. find_session j e \<noteq> None}"
    then show "j \<in> insert i {j. find_session j (rn_store s) \<noteq> None}" using r(4) [of j] by (cases "j = i") auto
  qed
  have known: "known ?s \<subseteq> set (rn_ids ?s)"
    using inv(2) found unfolding known_def assms(2) by (simp add: r(2) del: set_map) blast
  have "settled session" if "find_session j e = Some session" for j session
    using that r(3) r(4) [of j] inv(3) [of j session] young_settled [OF new_session_young, of now i ident requestID maxLogBytes la]
    by (cases "j = i") auto
  moreover have "\<exists>session. find_session j e = Some session \<and> young session" if "j \<in> set (young_ids (us @ (ident, Reserved i) # vs))" for j
    using that r(3) r(4) [of j] inv(4) [of j] new_session_young [of now i ident requestID maxLogBytes la]
    by (cases "j = i") (auto simp: assms(2))
  moreover have "distinct (young_ids (us @ (ident, Reserved i) # vs) @ rn_waiting s)"
    using inv(5) new by (auto simp: assms(2))
  moreover have "s_cmd session \<and> \<not> s_done session \<and> s_status session \<notin> {''starting'', ''exited''}"
    if "j \<in> set (rn_waiting s)" "find_session j e = Some session" for j session
    using that r(4) [of j] inv(6) [of j session] new by (cases "j = i") auto
  moreover have "\<not> s_cmd session \<and> s_status session \<noteq> ''starting''"
    if "j \<in> set (rn_monitors s)" "find_session j e = Some session" for j session
    using that r(4) [of j] inv(7) [of j session] new by (cases "j = i") auto
  ultimately show ?thesis using r(1) known unfolding life_inv_def by auto
qed

lemma stopSession_idle:
  "(\<And>session. find_session i e = Some session \<Longrightarrow> s_status session \<noteq> ''running'') \<Longrightarrow>
    stopSession fault enc alive kill now i status e = (Inr (), e)"
  by (simp add: stopSession_def split: option.split)

lemma stop_life:
  assumes "life_inv s" "status \<in> {''cancelled'', ''timed_out'', ''failed''}"
    and "young_ids T = young_ids (rn_threads s)"
  shows "life_inv (s\<lparr>rn_store := snd (stopSession fault enc alive kill now i status (rn_store s)), rn_threads := T\<rparr>)"
proof -
  note inv = life_invD [OF assms(1)]
  let ?e = "snd (stopSession fault enc alive kill now i status (rn_store s))"
  consider "?e = rn_store s" | session where "find_session i (rn_store s) = Some session" "s_status session = ''running''"
    using stopSession_idle [of i "rn_store s" fault enc alive kill now status] by fastforce
  then show ?thesis
  proof cases
    case 1
    then show ?thesis using assms(1,3) unfolding life_inv_def known_def by auto
  next
    case (2 session)
    then have i: "i \<notin> set (young_ids (rn_threads s))" using inv(4) [of i] by (auto simp: young_def)
    have ids: "i \<in> set (rn_ids s)" using 2(1) inv(2) by (auto simp: known_def)
    have "\<exists>session'. find_session i ?e = Some session' \<and> advances session session'
        \<and> (i \<in> set (rn_waiting s) \<longrightarrow> s_cmd session' \<and> \<not> s_done session' \<and> s_status session' \<notin> {''starting'', ''exited''})"
      using stopSession_advances [OF 2(1) inv(3) [OF 2(1)] coherentD(1) [OF inv(1) 2(1)] assms(2), of fault enc alive kill now]
        inv(6) [OF _ 2(1)] 2(2) assms(2) advancesD(3) by fastforce
    then have "life_inv (s\<lparr>rn_store := ?e, rn_threads := T, rn_waiting := rn_waiting s\<rparr>)"
      using 2(1) i ids assms(3) inv(5)
      by (intro life_inv_update [OF assms(1) stopSession_updates [OF inv(1)]]) auto
    then show ?thesis by simp
  qed
qed

lemma life_exit:
  assumes "life_inv s" "i \<in> set (rn_waiting s)"
  shows "life_inv (s\<lparr>rn_store := waitProcess fault enc now waited err budget i (rn_store s), rn_waiting := remove1 i (rn_waiting s)\<rparr>)"
proof -
  note inv = life_invD [OF assms(1)]
  let ?e = "waitProcess fault enc now waited err budget i (rn_store s)"
  have w: "i \<notin> set (remove1 i (rn_waiting s))" "i \<notin> set (young_ids (rn_threads s))" "i \<in> set (rn_ids s)"
    using inv(5) assms(2) inv(2) by (auto simp: known_def)
  have "\<exists>session'. find_session i ?e = Some session' \<and> advances session session'"
    if "find_session i (rn_store s) = Some session" for session
    using waitProcess_advances [OF that _ _ coherentD(1) [OF inv(1) that] inv(3) [OF that]] inv(6) [OF assms(2) that] by blast
  then have "life_inv (s\<lparr>rn_store := ?e, rn_threads := rn_threads s, rn_waiting := remove1 i (rn_waiting s)\<rparr>)"
    using w inv(5) set_remove1_subset [of i "rn_waiting s"]
    by (intro life_inv_update [OF assms(1) waitProcess_updates [OF inv(1)]]) auto
  then show ?thesis by simp
qed

lemma life_tick:
  assumes "life_inv s" "i \<in> set (rn_monitors s)"
  shows "life_inv (s\<lparr>rn_store := monitorRestored fault enc alive alive1 kill now i (rn_store s)\<rparr>)"
proof -
  note inv = life_invD [OF assms(1)]
  let ?e = "monitorRestored fault enc alive alive1 kill now i (rn_store s)"
  have w: "i \<notin> set (young_ids (rn_threads s))" "i \<in> set (rn_ids s)"
    using inv(4) [of i] inv(7) [OF assms(2)] assms(2) inv(2) by (auto simp: known_def young_def)
  have "\<exists>session'. find_session i ?e = Some session' \<and> advances session session' \<and> (i \<in> set (rn_waiting s) \<longrightarrow>
      s_cmd session' \<and> \<not> s_done session' \<and> s_status session' \<notin> {''starting'', ''exited''})"
    if "find_session i (rn_store s) = Some session" for session
    using monitorRestored_advances [OF that inv(3) [OF that] _ coherentD(1) [OF inv(1) that] inv(1)] inv(7) [OF assms(2) that]
      inv(6) [OF _ that] by blast
  then have "life_inv (s\<lparr>rn_store := ?e, rn_threads := rn_threads s, rn_waiting := rn_waiting s\<rparr>)"
    using w inv(5) by (intro life_inv_update [OF assms(1) monitorRestored_updates [OF inv(1)]]) auto
  then show ?thesis by simp
qed

lemma life_not_started:
  assumes "life_inv s" "rn_threads s = us @ (ident, Reserved i) # vs"
  shows "life_inv (s\<lparr>rn_store := start_failed fault enc now i (rn_store s), rn_threads := us @ vs\<rparr>)"
proof -
  note inv = life_invD [OF assms(1)]
  let ?e = "start_failed fault enc now i (rn_store s)"
  obtain session where f: "find_session i (rn_store s) = Some session" "young session"
    using inv(4) [of i] by (auto simp: assms(2))
  have w: "i \<notin> set (young_ids (us @ vs)) \<union> set (rn_waiting s)" "i \<in> set (rn_ids s)" "distinct (young_ids (us @ vs) @ rn_waiting s)"
    using inv(5) inv(2) by (auto simp: known_def assms(2))
  have "life_inv (s\<lparr>rn_store := ?e, rn_threads := us @ vs, rn_waiting := rn_waiting s\<rparr>)"
    using w f start_failed_advances [OF f coherentD(1) [OF inv(1) f(1)]]
    by (intro life_inv_update [OF assms(1) start_failed_updates [OF inv(1)]]) (auto simp: assms(2))
  then show ?thesis by simp
qed

lemma life_running:
  assumes "life_inv s" "rn_threads s = us @ (ident, Spawned i pid identity) # vs"
  shows "life_inv (s\<lparr>rn_store := start_running enc now pid identity i (rn_store s),
    rn_threads := us @ (ident, Running i) # vs, rn_waiting := i # rn_waiting s\<rparr>)"
proof -
  note inv = life_invD [OF assms(1)]
  let ?e = "start_running enc now pid identity i (rn_store s)"
  obtain session where f: "find_session i (rn_store s) = Some session" "young session"
    using inv(4) [of i] by (auto simp: assms(2))
  have w: "i \<notin> set (young_ids (us @ vs)) \<union> set (rn_waiting s)" "i \<in> set (rn_ids s)" "distinct (young_ids (us @ vs) @ rn_waiting s)"
    using inv(5) inv(2) by (auto simp: known_def assms(2))
  have "\<exists>session'. find_session i ?e = Some session' \<and> advances session session'
      \<and> s_cmd session' \<and> \<not> s_done session' \<and> s_status session' \<notin> {''starting'', ''exited''}"
    using start_running_advances [OF f coherentD(1) [OF inv(1) f(1)], of enc now pid identity] by fastforce
  then show ?thesis
    using w f(1) by (intro life_inv_update [OF assms(1) start_running_updates [OF inv(1)]]) (auto simp: assms(2))
qed

lemma life_expire:
  assumes "life_inv s"
  shows "life_inv (s\<lparr>rn_store := cleanup fault now ttl (rn_store s), rn_expired := X\<rparr>)"
proof -
  note inv = life_invD [OF assms]
  let ?e = "cleanup fault now ttl (rn_store s)" and ?D = "set (dead_ids (now - ttl) (rn_store s))"
  note c = cleanup_facts [OF inv(1) refl, where fault = fault and now = now and ttl = ttl]
  have sub: "find_session j ?e = Some session \<Longrightarrow> find_session j (rn_store s) = Some session" for j session
    unfolding c(1) by (simp split: if_split_asm)
  have "{j. find_session j ?e \<noteq> None} \<subseteq> {j. find_session j (rn_store s) \<noteq> None}" using sub by blast
  moreover have "set (map fst (es_dirs ?e)) \<subseteq> set (map fst (es_dirs (rn_store s)))"
    using c(2) unfolding set_map dom_map_of_conv_image_fst [symmetric] dom_def by auto
  ultimately have known: "known (s\<lparr>rn_store := ?e, rn_expired := X\<rparr>) \<subseteq> set (rn_ids s)"
    using inv(2) unfolding known_def by (simp del: set_map) blast
  have "\<exists>session. find_session j ?e = Some session \<and> young session" if y: "j \<in> set (young_ids (rn_threads s))" for j
  proof -
    obtain session where f: "find_session j (rn_store s) = Some session" "young session" using inv(4) [OF y] by blast
    then have "j \<notin> ?D"
      using dead_ids_iff [of "rn_store s" j "now - ttl"] inv(1) by (simp add: coherent_def expired_session_def young_def IsZero_def)
    then show ?thesis using f unfolding c(1) by simp
  qed
  moreover have "settled session" if "find_session j ?e = Some session" for j session using inv(3) [OF sub [OF that]] .
  moreover have "s_cmd session \<and> \<not> s_done session \<and> s_status session \<notin> {''starting'', ''exited''}"
    if "j \<in> set (rn_waiting s)" "find_session j ?e = Some session" for j session
    using inv(6) [OF that(1) sub [OF that(2)]] .
  moreover have "\<not> s_cmd session \<and> s_status session \<noteq> ''starting''"
    if "j \<in> set (rn_monitors s)" "find_session j ?e = Some session" for j session
    using inv(7) [OF that(1) sub [OF that(2)]] .
  ultimately show ?thesis using c(3) known inv(5) unfolding life_inv_def by auto
qed

lemma restored_session_settled:
  "settled (restored_session alive now md)"
  "\<not> s_done (restored_session alive now md) \<Longrightarrow> s_status (restored_session alive now md) = ''running''"
proof -
  have "\<not> s_done (session_of md)" by (simp add: session_of_def)
  then show "settled (restored_session alive now md)"
    "\<not> s_done (restored_session alive now md) \<Longrightarrow> s_status (restored_session alive now md) = ''running''"
    by (auto simp: restored_session_def settled_def closeDone_def Let_def split: if_split_asm)
qed

lemma restored_from:
  assumes "coherent e" "find_session i (restoreSessions fault alive now ttl e) = Some session"
  shows "\<exists>md. map_of (es_dirs e) i = Some (Some md) \<and> md_ID md = i \<and> \<not> stale_metadata (now - ttl) md
    \<and> session = restored_session alive now md"
  using assms(2) unfolding restore_facts(2) [OF assms(1) refl]
  by (auto simp: restorable_def split: option.splits if_split_asm)

lemma in_set_delete: "(a, b) \<in> set (AList.delete k xs) \<Longrightarrow> a \<in> fst ` set xs"
  by (induction xs) (auto split: if_split_asm)

lemma restore_dirs:
  "set (map fst (es_dirs (fold (restore_entry fault alive now ttl) xs e))) \<subseteq> set (map fst (es_dirs e)) \<union> fst ` set xs"
proof (induction xs arbitrary: e)
  case (Cons x xs)
  obtain name m where x: "x = (name, m)" by (cases x)
  have "set (map fst (es_dirs (restore_entry fault alive now ttl x e))) \<subseteq> insert name (set (map fst (es_dirs e)))"
    by (auto simp: x restore_entry_def persistSession_def remove_dir_def Let_def dom_update delete_keys split: option.split
        dest: in_set_delete)
  then show ?case using Cons [of "restore_entry fault alive now ttl x e"] by (simp add: x del: set_map) blast
qed simp

lemma life_restart:
  assumes "life_inv s" and e: "e = restoreSessions fault alive now ttl (rn_store s)"
  shows "life_inv (s\<lparr>rn_store := e, rn_threads := [], rn_waiting := [], rn_monitors := watched e, rn_expired := X\<rparr>)"
proof -
  note inv = life_invD [OF assms(1)]
  note r = restore_facts [OF inv(1) e]
  have from_disk: "\<exists>md. map_of (es_dirs (rn_store s)) i = Some (Some md) \<and> session = restored_session alive now md"
    if "find_session i e = Some session" for i session
    using restored_from [OF inv(1) that [unfolded e]] by blast
  have found: "{i. find_session i e \<noteq> None} \<subseteq> set (map fst (es_dirs (rn_store s)))"
    using from_disk by (force simp: dom_map_of_conv_image_fst [symmetric])
  have "set (watched e) \<subseteq> {i. find_session i e \<noteq> None}"
    by (auto simp: watched_def find_session_def map_of_eq_None_iff image_iff) 
  moreover have "set (map fst (es_dirs e)) \<subseteq> set (map fst (es_dirs (rn_store s)))"
    unfolding e restoreSessions_def by (rule order_trans [OF restore_dirs]) simp
  moreover have "set (map fst (es_dirs (rn_store s))) \<subseteq> set (rn_ids s)" using inv(2) by (simp add: known_def)
  ultimately have "known (s\<lparr>rn_store := e, rn_threads := [], rn_waiting := [], rn_monitors := watched e, rn_expired := X\<rparr>) \<subseteq> set (rn_ids s)"
    using found unfolding known_def by (simp del: set_map) blast
  moreover have "settled session" if "find_session i e = Some session" for i session
    using from_disk [OF that] restored_session_settled(1) by blast
  moreover have "\<not> s_cmd session \<and> s_status session \<noteq> ''starting''"
    if w: "i \<in> set (watched e)" and f: "find_session i e = Some session" for i session
  proof -
    obtain md where md: "session = restored_session alive now md" using from_disk [OF f] by blast
    have "(i, session') \<in> set (es_sessions e) \<Longrightarrow> session' = session" for session'
      using f r(1) by (metis coherent_def find_session_def map_of_is_SomeI option.inject)
    then have "\<not> s_done session" using w by (auto simp: watched_def)
    then show ?thesis using md restored_session_settled(2) by simp
  qed
  ultimately show ?thesis using r(1) unfolding life_inv_def by simp
qed

lemma live_step_life: "live_step s t \<Longrightarrow> life_inv s \<Longrightarrow> life_inv t"
proof (induction rule: live_step.induct)
  case (look_keyed s encode key args k h)
  then show ?case by (simp add: life_inv_def known_def)
next
  case (look_plain s)
  then show ?case by (simp add: life_inv_def known_def)
next
  case (reserved s us ident vs i fault enc now requestID maxLogBytes la e)
  then show ?case by (intro life_reserved)
next
  case (not_reserved s us ident vs i fault enc now requestID maxLogBytes la err e)
  note inv = life_invD [OF not_reserved(5)]
  have "find_session i (rn_store s) = None" using inv(2) not_reserved(2) by (auto simp: known_def)
  from reserve_Inl [OF not_reserved(4) inv(1) this]
  have "coherent e" "\<And>j. find_session j e = find_session j (rn_store s)"
    "set (map fst (es_dirs e)) \<subseteq> insert i (set (map fst (es_dirs (rn_store s))))" by (simp_all add: find_session_def)
  then show ?case using inv(2,5) not_reserved(1)
    by (intro life_inv_same [OF not_reserved(5), of e "insert i (set (rn_ids s))"]) (auto simp: known_def)
next
  case (not_started s us ident i vs fault enc now)
  then show ?case by (intro life_not_started)
next
  case (spawned s us ident i vs session pid identity)
  then show ?case by (simp add: life_inv_def known_def)
next
  case (running s us ident i pid identity vs enc now)
  then show ?case by (intro life_running)
next
  case (saved s us ident i vs session fault e)
  note inv = life_invD [OF saved(4)]
  have e: "e = snd (persistSession fault session (rn_store s))" using saved(3) by simp
  have "updates i (rn_store s) e" unfolding e
    by (rule persist_updates [OF inv(1) saved(2)]) (use coherentD [OF inv(1) saved(2)] in auto)
  then have "coherent e" "map fst (es_dirs e) = map fst (es_dirs (rn_store s))" by (simp_all add: updates_def)
  moreover have "find_session j e = find_session j (rn_store s)" for j by (simp add: e)
  ultimately have "life_inv (s\<lparr>rn_store := e, rn_threads := us @ (ident, Answering i) # vs, rn_ids := rn_ids s\<rparr>)"
    using inv(2,5) saved(1) by (intro life_inv_same [OF saved(4), of e "set (rn_ids s)"]) (auto simp: known_def)
  then show ?case by simp
next
  case (not_saved s us ident i vs session fault e enc alive kill now)
  then have "e = rn_store s" by (simp add: persistSession_def split: if_split_asm)
  then show ?case using stop_life [OF not_saved(4), of "''failed''" "us @ vs"] not_saved(1) by simp
next
  case (answered s us ident i vs)
  then show ?case by (simp add: life_inv_def known_def)
next
  case (stop status s fault enc alive kill now i)
  then have "life_inv (s\<lparr>rn_store := snd (stopSession fault enc alive kill now i status (rn_store s)), rn_threads := rn_threads s\<rparr>)"
    by (intro stop_life) auto
  then show ?case by simp
next
  case (exit i s fault enc now waited err budget)
  then show ?case by (intro life_exit)
next
  case (tick i s fault enc alive alive1 kill now)
  then show ?case by (intro life_tick)
next
  case (expire s fault now ttl)
  then show ?case by (intro life_expire)
qed

lemma new_run_life: "life_inv new_run"
  by (simp add: life_inv_def new_run_def coherent_def find_session_def known_def)

lemma session_step_life: "life_inv s \<Longrightarrow> session_step s t \<Longrightarrow> life_inv t"
  by (erule session_stepE) (auto intro: live_step_life life_restart)

interpretation session_life: invariant_system "\<lambda>s. s = new_run" session_step life_inv
  by unfold_locales (auto simp: new_run_life intro: session_step_life)

end
