(* ===== verification/SessionSafety.thy ===== *)
theory SessionSafety
  imports SessionRun
begin

text \<open>
  What holds in every run of the command sessions: a request key starts at most one process, and the outcome
  of a session that is over never changes.
\<close>

section \<open>Sessions only advance\<close>

lemma one_session_advances:
  assumes "life_inv s" "updates i (rn_store s) e"
    and "\<And>session. find_session i (rn_store s) = Some session \<Longrightarrow> \<exists>session'. find_session i e = Some session' \<and> advances session session'"
    and "find_session j (rn_store s) = Some session" "find_session j e = Some session'"
  shows "advances session session'"
proof (cases "j = i")
  case True
  then show ?thesis using assms(3) [of session] assms(4,5) by auto
next
  case False
  then have "session' = session" using assms(2,4,5) by (simp add: updates_def)
  then show ?thesis using advances_refl [OF life_invD(3) [OF assms(1,4)]] by simp
qed

lemma live_step_advances:
  assumes "live_step s t" "life_inv s" "find_session j (rn_store s) = Some session" "find_session j (rn_store t) = Some session'"
  shows "advances session session'"
proof -
  note inv = life_invD [OF assms(2)]
  have same: "advances session session'" if "find_session j (rn_store t) = find_session j (rn_store s)"
    using that assms(3,4) advances_refl [OF inv(3) [OF assms(3)]] by simp
  from assms(1) show ?thesis
  proof cases
    case (reserved us ident vs i fault enc now requestID maxLogBytes la e)
    have "j \<in> set (rn_ids s)" using inv(2) assms(3) by (auto simp: known_def)
    then have "j \<noteq> i" using reserved by auto
    then show ?thesis using same reserve_Inr [OF reserved(5) inv(1) reserved(4)] reserved(1) by simp
  next
    case (not_reserved us ident vs i fault enc now requestID maxLogBytes la err e)
    have "find_session i (rn_store s) = None" using inv(2) not_reserved(3) by (auto simp: known_def)
    then show ?thesis using same reserve_Inl [OF not_reserved(5) inv(1)] not_reserved(1) by (simp add: find_session_def)
  next
    case (not_started us ident i vs fault enc now)
    have "i \<in> set (young_ids (rn_threads s))" by (simp add: not_started)
    then have young: "young session0" if "find_session i (rn_store s) = Some session0" for session0
      using inv(4) that by force
    show ?thesis
      by (rule one_session_advances [OF assms(2) start_failed_updates [OF inv(1)] _ assms(3), of i fault enc now])
        (use assms(4) not_started(1) start_failed_advances coherentD(1) [OF inv(1)] young in auto)
  next
    case (running us ident i pid identity vs enc now)
    have "i \<in> set (young_ids (rn_threads s))" by (simp add: running)
    then have young: "young session0" if "find_session i (rn_store s) = Some session0" for session0
      using inv(4) that by force
    have "\<exists>session'. find_session i (start_running enc now pid identity i (rn_store s)) = Some session' \<and> advances session0 session'"
      if "find_session i (rn_store s) = Some session0" for session0
      using start_running_advances [OF that young [OF that] coherentD(1) [OF inv(1) that]] by blast
    then show ?thesis
      by (rule one_session_advances [OF assms(2) start_running_updates [OF inv(1)] _ assms(3)])
        (use assms(4) running(1) in auto)
  next
    case (saved us ident i vs session0 fault e)
    then have "e = snd (persistSession fault session0 (rn_store s))" by simp
    then show ?thesis using same saved(1) by simp
  next
    case (not_saved us ident i vs session0 fault e enc alive kill now)
    then have e: "e = rn_store s" by (simp add: persistSession_def split: if_split_asm)
    have "\<exists>session'. find_session i (snd (stopSession fault enc alive kill now i ''failed'' (rn_store s))) = Some session'
        \<and> advances session1 session'" if "find_session i (rn_store s) = Some session1" for session1
      using stopSession_advances [OF that inv(3) [OF that] coherentD(1) [OF inv(1) that], of "''failed''"] by blast
    then show ?thesis
      by (rule one_session_advances [OF assms(2) stopSession_updates [OF inv(1)] _ assms(3)])
        (use assms(4) not_saved(1) e in auto)
  next
    case (stop status fault enc alive kill now i)
    then have status: "status \<in> {''cancelled'', ''timed_out'', ''failed''}" by auto
    have "\<exists>session'. find_session i (snd (stopSession fault enc alive kill now i status (rn_store s))) = Some session'
        \<and> advances session1 session'" if "find_session i (rn_store s) = Some session1" for session1
      using stopSession_advances [OF that inv(3) [OF that] coherentD(1) [OF inv(1) that] status] by blast
    then show ?thesis
      by (rule one_session_advances [OF assms(2) stopSession_updates [OF inv(1)] _ assms(3)])
        (use assms(4) stop(1) in auto)
  next
    case (exit i fault enc now waited err budget)
    have "\<exists>session'. find_session i (waitProcess fault enc now waited err budget i (rn_store s)) = Some session'
        \<and> advances session1 session'" if "find_session i (rn_store s) = Some session1" for session1
      using waitProcess_advances [OF that _ _ coherentD(1) [OF inv(1) that] inv(3) [OF that]] inv(6) [OF exit(2) that] by blast
    then show ?thesis
      by (rule one_session_advances [OF assms(2) waitProcess_updates [OF inv(1)] _ assms(3)])
        (use assms(4) exit(1) in auto)
  next
    case (tick i fault enc alive alive1 kill now)
    have "\<exists>session'. find_session i (monitorRestored fault enc alive alive1 kill now i (rn_store s)) = Some session'
        \<and> advances session1 session'" if "find_session i (rn_store s) = Some session1" for session1
      using monitorRestored_advances [OF that inv(3) [OF that] _ coherentD(1) [OF inv(1) that] inv(1)] inv(7) [OF tick(2) that] by blast
    then show ?thesis
      by (rule one_session_advances [OF assms(2) monitorRestored_updates [OF inv(1)] _ assms(3)])
        (use assms(4) tick(1) in auto)
  next
    case (expire now ttl fault)
    then have "find_session j (rn_store t) = find_session j (rn_store s)"
      using assms(4) cleanup_facts(1) [OF inv(1) refl, where i = j and fault = fault and now = now and ttl = ttl] by (simp split: if_split_asm)
    then show ?thesis by (rule same)
  qed (use same in simp_all)
qed

section \<open>One process for a request key\<close>

text \<open>Memory and disk agree on the keys of the sessions that have not expired, and no two of those share a key.\<close>

definition keys_agree :: "run \<Rightarrow> bool" where
  "keys_agree s \<longleftrightarrow> (\<forall>i. i \<notin> set (rn_expired s) \<longrightarrow> disk_key (rn_store s) i = mem_key (rn_store s) i)"

definition keys_unique :: "run \<Rightarrow> bool" where
  "keys_unique s \<longleftrightarrow> (\<forall>i j k. mem_key (rn_store s) i = Some k \<and> mem_key (rn_store s) j = Some k \<and> k \<noteq> []
     \<and> i \<notin> set (rn_expired s) \<and> j \<notin> set (rn_expired s) \<longrightarrow> i = j)"

definition launches_owned :: "run \<Rightarrow> bool" where
  "launches_owned s \<longleftrightarrow> distinct (map snd (rn_spawned s))
     \<and> (\<forall>k i. (k, i) \<in> set (rn_spawned s) \<and> i \<notin> set (rn_expired s) \<longrightarrow> mem_key (rn_store s) i = Some k)"

text \<open>At most one call holds the lock, and what it looked up still holds.\<close>

definition lock_inv :: "run \<Rightarrow> bool" where
  "lock_inv s \<longleftrightarrow> length (filter (\<lambda>t. fst t \<noteq> None) (rn_threads s)) \<le> 1
     \<and> (\<forall>k h. (Some (k, h), Looked) \<in> set (rn_threads s) \<longrightarrow>
          k \<noteq> [] \<and> (\<forall>i. i \<notin> set (rn_expired s) \<longrightarrow> mem_key (rn_store s) i \<noteq> Some k))"

definition ids_inv :: "run \<Rightarrow> bool" where
  "ids_inv s \<longleftrightarrow> set (young_ids (rn_threads s)) \<inter> set (rn_expired s) = {}
     \<and> (\<forall>ident i. (ident, Reserved i) \<in> set (rn_threads s) \<longrightarrow> i \<notin> snd ` set (rn_spawned s))
     \<and> set (rn_expired s) \<union> snd ` set (rn_spawned s) \<subseteq> set (rn_ids s)"

definition key_inv :: "run \<Rightarrow> bool" where
  "key_inv s \<longleftrightarrow> keys_agree s \<and> keys_unique s \<and> launches_owned s \<and> lock_inv s \<and> ids_inv s"

lemmas key_defs = key_inv_def keys_agree_def keys_unique_def launches_owned_def lock_inv_def ids_inv_def

lemma key_invD:
  assumes "key_inv s"
  shows "i \<notin> set (rn_expired s) \<Longrightarrow> disk_key (rn_store s) i = mem_key (rn_store s) i"
    "mem_key (rn_store s) i = Some k \<Longrightarrow> mem_key (rn_store s) j = Some k \<Longrightarrow> k \<noteq> [] \<Longrightarrow>
       i \<notin> set (rn_expired s) \<Longrightarrow> j \<notin> set (rn_expired s) \<Longrightarrow> i = j"
    "(k, i) \<in> set (rn_spawned s) \<Longrightarrow> i \<notin> set (rn_expired s) \<Longrightarrow> mem_key (rn_store s) i = Some k"
    "distinct (map snd (rn_spawned s))"
    "length (filter (\<lambda>t. fst t \<noteq> None) (rn_threads s)) \<le> 1"
    "(Some (k, h), Looked) \<in> set (rn_threads s) \<Longrightarrow> k \<noteq> []"
    "(Some (k, h), Looked) \<in> set (rn_threads s) \<Longrightarrow> i \<notin> set (rn_expired s) \<Longrightarrow> mem_key (rn_store s) i \<noteq> Some k"
    "set (young_ids (rn_threads s)) \<inter> set (rn_expired s) = {}"
    "(ident, Reserved i) \<in> set (rn_threads s) \<Longrightarrow> i \<notin> snd ` set (rn_spawned s)"
    "set (rn_expired s) \<union> snd ` set (rn_spawned s) \<subseteq> set (rn_ids s)"
proof -
  have a: "keys_agree s" "keys_unique s" "launches_owned s" "lock_inv s" "ids_inv s"
    using assms by (simp_all add: key_inv_def)
  show "disk_key (rn_store s) i = mem_key (rn_store s) i" if "i \<notin> set (rn_expired s)"
    using a(1) that by (simp add: keys_agree_def)
  show "i = j" if "mem_key (rn_store s) i = Some k" "mem_key (rn_store s) j = Some k" "k \<noteq> []"
    "i \<notin> set (rn_expired s)" "j \<notin> set (rn_expired s)" using a(2) that unfolding keys_unique_def by blast
  show "mem_key (rn_store s) i = Some k" if "(k, i) \<in> set (rn_spawned s)" "i \<notin> set (rn_expired s)"
    using a(3) that by (simp add: launches_owned_def)
  show "distinct (map snd (rn_spawned s))" using a(3) by (simp add: launches_owned_def)
  show "length (filter (\<lambda>t. fst t \<noteq> None) (rn_threads s)) \<le> 1" using a(4) unfolding lock_inv_def by blast
  show "k \<noteq> []" if "(Some (k, h), Looked) \<in> set (rn_threads s)" using a(4) that unfolding lock_inv_def by blast
  show "mem_key (rn_store s) i \<noteq> Some k" if "(Some (k, h), Looked) \<in> set (rn_threads s)" "i \<notin> set (rn_expired s)"
    using a(4) that unfolding lock_inv_def by blast
  show "set (young_ids (rn_threads s)) \<inter> set (rn_expired s) = {}" using a(5) unfolding ids_inv_def by blast
  show "i \<notin> snd ` set (rn_spawned s)" if "(ident, Reserved i) \<in> set (rn_threads s)"
    using a(5) that unfolding ids_inv_def by blast
  show "set (rn_expired s) \<union> snd ` set (rn_spawned s) \<subseteq> set (rn_ids s)" using a(5) unfolding ids_inv_def by blast
qed

lemma key_invI:
  assumes "\<And>i. i \<notin> set (rn_expired s) \<Longrightarrow> disk_key (rn_store s) i = mem_key (rn_store s) i"
    "\<And>i j k. mem_key (rn_store s) i = Some k \<Longrightarrow> mem_key (rn_store s) j = Some k \<Longrightarrow> k \<noteq> [] \<Longrightarrow>
       i \<notin> set (rn_expired s) \<Longrightarrow> j \<notin> set (rn_expired s) \<Longrightarrow> i = j"
    "\<And>k i. (k, i) \<in> set (rn_spawned s) \<Longrightarrow> i \<notin> set (rn_expired s) \<Longrightarrow> mem_key (rn_store s) i = Some k"
    "distinct (map snd (rn_spawned s))"
    "length (filter (\<lambda>t. fst t \<noteq> None) (rn_threads s)) \<le> 1"
    "\<And>k h. (Some (k, h), Looked) \<in> set (rn_threads s) \<Longrightarrow> k \<noteq> []"
    "\<And>k h i. (Some (k, h), Looked) \<in> set (rn_threads s) \<Longrightarrow> i \<notin> set (rn_expired s) \<Longrightarrow> mem_key (rn_store s) i \<noteq> Some k"
    "set (young_ids (rn_threads s)) \<inter> set (rn_expired s) = {}"
    "\<And>ident i. (ident, Reserved i) \<in> set (rn_threads s) \<Longrightarrow> i \<notin> snd ` set (rn_spawned s)"
    "set (rn_expired s) \<union> snd ` set (rn_spawned s) \<subseteq> set (rn_ids s)"
  shows "key_inv s"
  unfolding key_inv_def
proof (intro conjI)
  show "keys_agree s" unfolding keys_agree_def using assms(1) by blast
  show "keys_unique s" unfolding keys_unique_def using assms(2) by blast
  show "launches_owned s" unfolding launches_owned_def using assms(3,4) by blast
  show "lock_inv s" unfolding lock_inv_def using assms(5-7) by blast
  show "ids_inv s" unfolding ids_inv_def using assms(8-10) by blast
qed

text \<open>Most steps leave the keys alone and only move threads on.\<close>

lemma key_inv_same:
  assumes "key_inv s" "mem_key (rn_store t) = mem_key (rn_store s)" "disk_key (rn_store t) = disk_key (rn_store s)"
    and "rn_expired t = rn_expired s" "rn_spawned t = rn_spawned s" "set (rn_ids s) \<subseteq> set (rn_ids t)"
    and "length (filter (\<lambda>t. fst t \<noteq> None) (rn_threads t)) \<le> length (filter (\<lambda>t. fst t \<noteq> None) (rn_threads s))"
    and "\<And>ident ph. (ident, ph) \<in> set (rn_threads t) \<Longrightarrow> (ident, ph) \<in> set (rn_threads s)
          \<or> ident = None \<and> ph = Looked \<or> ph \<noteq> Looked \<and> (\<forall>i. ph \<noteq> Reserved i)"
    and "set (young_ids (rn_threads t)) \<subseteq> set (young_ids (rn_threads s))"
  shows "key_inv t"
proof -
  note inv = key_invD [OF assms(1)]
  have looked: "(Some (k, h), Looked) \<in> set (rn_threads t) \<Longrightarrow> (Some (k, h), Looked) \<in> set (rn_threads s)" for k h
    using assms(8) [of "Some (k, h)" Looked] by simp
  have reserved: "(ident, Reserved i) \<in> set (rn_threads t) \<Longrightarrow> (ident, Reserved i) \<in> set (rn_threads s)" for ident i
    using assms(8) [of ident "Reserved i"] by simp
  show ?thesis
  proof (rule key_invI, unfold assms(2-5))
    show "length (filter (\<lambda>t. fst t \<noteq> None) (rn_threads t)) \<le> 1" using assms(7) inv(5) by linarith
    show "set (young_ids (rn_threads t)) \<inter> set (rn_expired s) = {}" using assms(9) inv(8) by blast
    show "set (rn_expired s) \<union> snd ` set (rn_spawned s) \<subseteq> set (rn_ids t)" using assms(6) inv(10) by blast
    show "i = j" if "mem_key (rn_store s) i = Some k" "mem_key (rn_store s) j = Some k" "k \<noteq> []"
      "i \<notin> set (rn_expired s)" "j \<notin> set (rn_expired s)" for i j k using that by (rule inv(2))
  qed (use inv(1,3,4,6,7,9) looked reserved in blast)+
qed

lemma updates_keys: "updates i e e' \<Longrightarrow> mem_key e' = mem_key e" "updates i e e' \<Longrightarrow> disk_key e' = disk_key e"
  by (simp_all add: updates_def)

lemma keyed_session_None: "keyed_session k e = None \<Longrightarrow> mem_key e i \<noteq> Some k"
  by (force simp: keyed_session_def find_None_iff_all mem_key_def find_session_def dest: map_of_SomeD)

lemma identity_nonempty: "command_identity encode key args = (k, h) \<Longrightarrow> k \<noteq> []"
  using hashSecret_length [of "encode (JStr key)"]
  by (auto simp: command_identity_def commandHash_def hashBytes_def hashSecret_def)

section \<open>Every step keeps the keys unique\<close>

lemma key_look:
  assumes "key_inv s" "unlocked (rn_threads s)" "k \<noteq> []" "keyed_session k (rn_store s) = None"
  shows "key_inv (s\<lparr>rn_threads := (Some (k, h), Looked) # rn_threads s\<rparr>)"
proof -
  note inv = key_invD [OF assms(1)]
  have free: "filter (\<lambda>t. fst t \<noteq> None) (rn_threads s) = []"
    using assms(2) by (auto simp: unlocked_def list_all_iff filter_empty_conv)
  then have none: "(Some (k', h'), Looked) \<notin> set (rn_threads s)" for k' h' by (force simp: filter_empty_conv)
  show ?thesis
    by (rule key_invI) (use inv(1,2,3,4,8,9,10) free none assms(3) keyed_session_None [OF assms(4)] in \<open>auto; fail | blast\<close>)+
qed

lemma key_reserved:
  assumes "key_inv s" "life_inv s" "rn_threads s = us @ (ident, Looked) # vs" "i \<notin> set (rn_ids s)" "HasPrefix i ''proc_''"
    and "reserve fault enc now (Some i) ident requestID maxLogBytes la (rn_store s) = (Inr i, e)"
  shows "key_inv (s\<lparr>rn_store := e, rn_threads := us @ (ident, Reserved i) # vs, rn_ids := i # rn_ids s\<rparr>)"
    (is "key_inv ?t")
proof -
  note inv = key_invD [OF assms(1)]
  define k0 where "k0 = (case ident of None \<Rightarrow> [] | Some (k, h) \<Rightarrow> k)"
  note r = reserve_Inr [OF assms(6) life_invD(1) [OF assms(2)] assms(5), folded k0_def]
  have fresh: "i \<notin> set (rn_expired s)" "i \<notin> snd ` set (rn_spawned s)" using inv(10) assms(4) by auto
  have mem: "mem_key e j = (if j = i then Some k0 else mem_key (rn_store s) j)" for j
    using r by (cases "j = i") (simp_all add: mem_key_def new_session_def k0_def)
  have disk: "disk_key e j = (if j = i then Some k0 else disk_key (rn_store s) j)" for j using r by simp
  have free: "mem_key (rn_store s) j \<noteq> Some k0" if n: "k0 \<noteq> []" "j \<notin> set (rn_expired s)" for j
  proof -
    obtain h where "ident = Some (k0, h)" using n(1) by (auto simp: k0_def split: option.splits)
    then show ?thesis using inv(7) [of k0 h j] n(2) by (simp add: assms(3))
  qed
  have looked: "k \<noteq> k0 \<and> (Some (k, h), Looked) \<in> set (rn_threads s)" if l: "(Some (k, h), Looked) \<in> set (us @ (ident, Reserved i) # vs)" for k h
  proof -
    have m: "(Some (k, h), Looked) \<in> set us \<union> set vs" using l by auto
    then have "filter (\<lambda>t. fst t \<noteq> None) us \<noteq> [] \<or> filter (\<lambda>t. fst t \<noteq> None) vs \<noteq> []" by (force simp: filter_empty_conv)
    then have "ident = None" using inv(5) by (cases ident) (auto simp: assms(3) le_Suc_eq)
    then have "k0 = []" by (simp add: k0_def)
    then show ?thesis using inv(6) [of k h] m by (auto simp: assms(3))
  qed
  show ?thesis
  proof (rule key_invI)
    show "disk_key (rn_store ?t) j = mem_key (rn_store ?t) j" if "j \<notin> set (rn_expired ?t)" for j
      using that inv(1) by (simp add: mem disk)
    show "j = j'" if "mem_key (rn_store ?t) j = Some k" "mem_key (rn_store ?t) j' = Some k" "k \<noteq> []"
      "j \<notin> set (rn_expired ?t)" "j' \<notin> set (rn_expired ?t)" for j j' k
      using that inv(2) [of j k j'] free [of j] free [of j'] by (auto simp: mem split: if_split_asm)
    show "mem_key (rn_store ?t) j = Some k" if "(k, j) \<in> set (rn_spawned ?t)" "j \<notin> set (rn_expired ?t)" for k j
      using that inv(3) [of k j] fresh(2) by (force simp: mem)
    show "k \<noteq> []" if "(Some (k, h), Looked) \<in> set (rn_threads ?t)" for k h
      using inv(6) [of k h] looked [of k h] that by simp
    show "mem_key (rn_store ?t) j \<noteq> Some k" if "(Some (k, h), Looked) \<in> set (rn_threads ?t)" "j \<notin> set (rn_expired ?t)" for k h j
      using inv(7) [of k h j] looked [of k h] that by (auto simp: mem)
    show "length (filter (\<lambda>t. fst t \<noteq> None) (rn_threads ?t)) \<le> 1"
      using inv(5) by (cases ident) (simp_all add: assms(3))
    show "set (young_ids (rn_threads ?t)) \<inter> set (rn_expired ?t) = {}" using inv(8) fresh(1) by (auto simp: assms(3))
    show "j \<notin> snd ` set (rn_spawned ?t)" if "(ident', Reserved j) \<in> set (rn_threads ?t)" for ident' j
      using that inv(9) [of ident' j] fresh(2) by (auto simp: assms(3))
  qed (use inv(4,10) in auto)
qed

lemma key_spawned:
  assumes "key_inv s" "life_inv s" "rn_threads s = us @ (ident, Reserved i) # vs" "find_session i (rn_store s) = Some session"
  shows "key_inv (s\<lparr>rn_threads := us @ (ident, Spawned i pid identity) # vs,
      rn_spawned := (s_requestKeyHash session, i) # rn_spawned s\<rparr>)" (is "key_inv ?t")
proof -
  note inv = key_invD [OF assms(1)]
  have new: "i \<notin> snd ` set (rn_spawned s)" using inv(9) [of ident i] by (simp add: assms(3))
  have i: "mem_key (rn_store s) i = Some (s_requestKeyHash session)" by (simp add: mem_key_def assms(4))
  have once: "i \<notin> set (young_ids (us @ vs))" using life_invD(5) [OF assms(2)] by (auto simp: assms(3))
  have others: "j \<noteq> i" if r: "(ident', Reserved j) \<in> set (us @ vs)" for ident' j
  proof -
    have "j \<in> set (young_ids (us @ vs))" using r by (force simp: young_ids_def)
    then show ?thesis using once by blast
  qed
  show ?thesis
  proof (rule key_invI)
    show "mem_key (rn_store ?t) j = Some k" if "(k, j) \<in> set (rn_spawned ?t)" "j \<notin> set (rn_expired ?t)" for k j
      using that inv(3) i by auto
    show "j = j'" if "mem_key (rn_store ?t) j = Some k" "mem_key (rn_store ?t) j' = Some k" "k \<noteq> []"
      "j \<notin> set (rn_expired ?t)" "j' \<notin> set (rn_expired ?t)" for j j' k
      using that inv(2) [of j k j'] by simp
    show "j \<notin> snd ` set (rn_spawned ?t)" if r: "(ident', Reserved j) \<in> set (rn_threads ?t)" for ident' j
    proof -
      have "(ident', Reserved j) \<in> set (us @ vs)" using r by auto
      then have "j \<noteq> i" "(ident', Reserved j) \<in> set (rn_threads s)" using others by (auto simp: assms(3))
      then show ?thesis using inv(9) by simp
    qed
    show "distinct (map snd (rn_spawned ?t))" using inv(4) new by simp
    show "set (rn_expired ?t) \<union> snd ` set (rn_spawned ?t) \<subseteq> set (rn_ids ?t)"
      using inv(10) life_invD(2) [OF assms(2)] by (auto simp: known_def assms(3))
    show "k \<noteq> []" if "(Some (k, h), Looked) \<in> set (rn_threads ?t)" for k h
      using inv(6) [of k h] that by (auto simp: assms(3))
    show "mem_key (rn_store ?t) j \<noteq> Some k" if "(Some (k, h), Looked) \<in> set (rn_threads ?t)" "j \<notin> set (rn_expired ?t)" for k h j
      using inv(7) [of k h j] that by (auto simp: assms(3))
  qed (use inv(1,5,8) in \<open>auto simp: assms(3)\<close>)
qed

lemma key_expire:
  assumes "key_inv s" "life_inv s"
  shows "key_inv (s\<lparr>rn_store := cleanup fault now ttl (rn_store s), rn_expired := dead_ids (now - ttl) (rn_store s) @ rn_expired s\<rparr>)"
    (is "key_inv ?t")
proof -
  note inv = key_invD [OF assms(1)] and life = life_invD [OF assms(2)]
  let ?D = "set (dead_ids (now - ttl) (rn_store s))"
  note c = cleanup_facts [OF life(1) refl, where fault = fault and now = now and ttl = ttl]
  have mem: "mem_key (rn_store ?t) i = (if i \<in> ?D then None else mem_key (rn_store s) i)" for i
    by (simp add: mem_key_def c(1))
  have disk: "disk_key (rn_store ?t) i = disk_key (rn_store s) i" if "i \<notin> ?D" for i
    using that c(2) [of i] by (simp add: disk_key_def)
  have dead: "i \<in> ?D \<longleftrightarrow> (\<exists>session. find_session i (rn_store s) = Some session \<and> expired_session (now - ttl) session)" for i
    by (rule dead_ids_iff) (use life(1) in \<open>simp add: coherent_def\<close>)
  have "i \<notin> ?D" if "i \<in> set (young_ids (rn_threads s))" for i
    using life(4) [OF that] dead by (auto simp: young_def expired_session_def IsZero_def)
  then have young: "set (young_ids (rn_threads ?t)) \<inter> set (rn_expired ?t) = {}" using inv(8) by auto
  have "?D \<subseteq> known s" using dead by (auto simp: known_def)
  then have ids: "?D \<subseteq> set (rn_ids s)" using life(2) by blast
  show ?thesis
  proof (rule key_invI)
    show "i = j" if "mem_key (rn_store ?t) i = Some k" "mem_key (rn_store ?t) j = Some k" "k \<noteq> []"
      "i \<notin> set (rn_expired ?t)" "j \<notin> set (rn_expired ?t)" for i j k
      using that inv(2) [of i k j] unfolding mem by simp
    show "disk_key (rn_store ?t) i = mem_key (rn_store ?t) i" if "i \<notin> set (rn_expired ?t)" for i
      using that inv(1) [of i] disk [of i] unfolding mem by simp
    show "mem_key (rn_store ?t) i = Some k" if "(k, i) \<in> set (rn_spawned ?t)" "i \<notin> set (rn_expired ?t)" for k i
      using that inv(3) [of k i] unfolding mem by simp
    show "k \<noteq> []" if "(Some (k, h), Looked) \<in> set (rn_threads ?t)" for k h
      using inv(6) [of k h] that by simp
    show "mem_key (rn_store ?t) i \<noteq> Some k" if "(Some (k, h), Looked) \<in> set (rn_threads ?t)" "i \<notin> set (rn_expired ?t)" for k h i
      using that inv(7) [of k h i] unfolding mem by simp
    show "i \<notin> snd ` set (rn_spawned ?t)" if "(ident, Reserved i) \<in> set (rn_threads ?t)" for ident i
      using that inv(9) [of ident i] by simp
  qed (use inv(4,5,10) young ids in auto)
qed

text \<open>A crash at any point loses the threads and the table; the keys come back from the directories.\<close>

lemma key_restart:
  assumes "key_inv s" "life_inv s" and e: "e = restoreSessions fault alive now ttl (rn_store s)"
  shows "key_inv (s\<lparr>rn_store := e, rn_threads := [], rn_waiting := [], rn_monitors := watched e,
      rn_expired := stale_ids (now - ttl) (rn_store s) @ rn_expired s\<rparr>)" (is "key_inv ?t")
proof -
  note inv = key_invD [OF assms(1)] and life = life_invD [OF assms(2)]
  note r = restore_facts [OF life(1) e]
  have held: "find_session i e \<noteq> None" if d: "disk_key (rn_store s) i = Some k" and x: "i \<notin> set (stale_ids (now - ttl) (rn_store s))" for i k
  proof -
    obtain md where md: "map_of (es_dirs (rn_store s)) i = Some (Some md)" "HasPrefix i ''proc_''" "md_ID md = i"
      using d by (auto simp: disk_key_def split: option.splits if_split_asm)
    have "\<not> stale_metadata (now - ttl) md"
    proof
      assume "stale_metadata (now - ttl) md"
      then have "i \<in> set (stale_ids (now - ttl) (rn_store s))" using map_of_SomeD [OF md(1)] by (force simp: stale_ids_def)
      then show False using x by simp
    qed
    then show ?thesis using md by (simp add: r(2) restorable_def)
  qed
  have key: "mem_key e i = disk_key (rn_store s) i" "disk_key e i = disk_key (rn_store s) i"
    if x: "i \<notin> set (stale_ids (now - ttl) (rn_store s))" for i
  proof -
    have "mem_key e i = disk_key (rn_store s) i \<and> disk_key e i = disk_key (rn_store s) i"
    proof (cases "disk_key (rn_store s) i")
      case None
      then have "find_session i e = None" using r(4) [of i] by (force simp: mem_key_def)
      then show ?thesis using None r(3) [of i] by (auto simp: mem_key_def)
    next
      case (Some k)
      then show ?thesis using r(4) [OF held [OF Some x]] by simp
    qed
    then show "mem_key e i = disk_key (rn_store s) i" "disk_key e i = disk_key (rn_store s) i" by simp_all
  qed
  have old: "mem_key e i = mem_key (rn_store s) i"
    if "i \<notin> set (stale_ids (now - ttl) (rn_store s))" "i \<notin> set (rn_expired s)" for i
    by (rule trans [OF key(1) [OF that(1)] inv(1) [OF that(2)]])
  have stale: "set (stale_ids (now - ttl) (rn_store s)) \<subseteq> set (rn_ids s)"
    using life(2) by (force simp: stale_ids_def known_def)
  show ?thesis
  proof (rule key_invI)
    show "i = j" if "mem_key (rn_store ?t) i = Some k" "mem_key (rn_store ?t) j = Some k" "k \<noteq> []"
      "i \<notin> set (rn_expired ?t)" "j \<notin> set (rn_expired ?t)" for i j k
    proof (rule inv(2) [OF _ _ that(3)])
      show "mem_key (rn_store s) i = Some k" "mem_key (rn_store s) j = Some k"
        using that(1,2) old [of i] old [of j] that(4,5) by auto
    qed (use that(4,5) in auto)
    show "mem_key (rn_store ?t) i = Some k" if "(k, i) \<in> set (rn_spawned ?t)" "i \<notin> set (rn_expired ?t)" for k i
      using that inv(3) [of k i] old [of i] by auto
    show "disk_key (rn_store ?t) i = mem_key (rn_store ?t) i" if "i \<notin> set (rn_expired ?t)" for i
      using key [of i] that by simp
  qed (use inv(4,10) stale in auto)
qed

lemma live_step_keys:
  assumes "live_step s t" "life_inv s" "key_inv s"
  shows "key_inv t"
proof -
  note life = life_invD [OF assms(2)]
  from assms(1) show ?thesis
  proof cases
    case (look_keyed encode key args k h)
    then show ?thesis using key_look [OF assms(3)] identity_nonempty by blast
  next
    case (reserved us ident vs i fault enc now requestID maxLogBytes la e)
    then show ?thesis using key_reserved [OF assms(3,2)] by blast
  next
    case (not_reserved us ident vs i fault enc now requestID maxLogBytes la err e)
    have "find_session i (rn_store s) = None" using life(2) not_reserved(3) by (auto simp: known_def)
    then have "mem_key e = mem_key (rn_store s)" "disk_key e = disk_key (rn_store s)"
      using reserve_Inl [OF not_reserved(5) life(1)] by (simp_all add: mem_key_def find_session_def fun_eq_iff)
    then show ?thesis by (intro key_inv_same [OF assms(3)]) (auto simp: not_reserved)
  next
    case (not_started us ident i vs fault enc now)
    then show ?thesis using updates_keys [OF start_failed_updates [OF life(1)]]
      by (intro key_inv_same [OF assms(3)]) auto
  next
    case (spawned us ident i vs session pid identity)
    then show ?thesis using key_spawned [OF assms(3,2)] by blast
  next
    case (running us ident i pid identity vs enc now)
    then show ?thesis using updates_keys [OF start_running_updates [OF life(1)]]
      by (intro key_inv_same [OF assms(3)]) auto
  next
    case (saved us ident i vs session fault e)
    have "updates i (rn_store s) (snd (persistSession fault session (rn_store s)))"
      by (rule persist_updates [OF life(1) saved(3)]) (use coherentD [OF life(1) saved(3)] in auto)
    then show ?thesis using updates_keys [of i "rn_store s" e] saved
      by (intro key_inv_same [OF assms(3)]) auto
  next
    case (not_saved us ident i vs session fault e enc alive kill now)
    then have e: "e = rn_store s" by (simp add: persistSession_def split: if_split_asm)
    show ?thesis using updates_keys [OF stopSession_updates [OF life(1)]] not_saved
      by (intro key_inv_same [OF assms(3)]) (auto simp: e)
  next
    case (stop status fault enc alive kill now i)
    then show ?thesis using updates_keys [OF stopSession_updates [OF life(1)]]
      by (intro key_inv_same [OF assms(3)]) auto
  next
    case (exit i fault enc now waited err budget)
    then show ?thesis using updates_keys [OF waitProcess_updates [OF life(1)]]
      by (intro key_inv_same [OF assms(3)]) auto
  next
    case (tick i fault enc alive alive1 kill now)
    then show ?thesis using updates_keys [OF monitorRestored_updates [OF life(1)]]
      by (intro key_inv_same [OF assms(3)]) auto
  next
    case (expire now ttl fault)
    then show ?thesis using key_expire [OF assms(3,2)] by simp
  qed (intro key_inv_same [OF assms(3)]; auto)+
qed

definition session_inv :: "run \<Rightarrow> bool" where
  "session_inv s \<longleftrightarrow> life_inv s \<and> key_inv s"

lemma new_run_keys: "key_inv new_run"
  by (simp add: key_defs new_run_def mem_key_def disk_key_def find_session_def)

lemma session_step_inv: "session_inv s \<Longrightarrow> session_step s t \<Longrightarrow> session_inv t"
  unfolding session_inv_def
  by (erule session_stepE) (auto intro: live_step_life life_restart live_step_keys key_restart)

interpretation sessions: invariant_system "\<lambda>s. s = new_run" session_step session_inv
  by unfold_locales (simp add: session_inv_def new_run_life new_run_keys, rule session_step_inv)

section \<open>The properties\<close>

lemma keyed_session_Some:
  "mem_key e i = Some k \<Longrightarrow> \<exists>session. keyed_session k e = Some session"
  using keyed_session_None [of k e i] by (cases "keyed_session k e") auto

text \<open>C5: a request key starts at most one process: whatever is interleaved, wherever the agent crashes and however
  often it restarts, of the sessions that have not outlived their time to live at most one was started under a
  given key, no session is started twice, and a retry with the key leaves the table as it is and starts nothing.\<close>

theorem launches_at_most_once:
  assumes "reach (\<lambda>s. s = new_run) session_step s" "(k, i) \<in> set (rn_spawned s)" "i \<notin> set (rn_expired s)"
    and "requiredString args ''request_key'' = Inr key" "command_identity encode key args = (k, h)"
  shows "(\<forall>j. (k, j) \<in> set (rn_spawned s) \<and> j \<notin> set (rn_expired s) \<longrightarrow> j = i) \<and> distinct (map snd (rn_spawned s))
    \<and> snd (execCommandOnce c fs encode ctxDone requestID args (rn_store s)) = rn_store s"
proof -
  have inv: "key_inv s" using sessions.reach_inv [OF assms(1)] by (simp add: session_inv_def)
  note key = key_invD [OF inv]
  have k: "k \<noteq> []" by (rule identity_nonempty [OF assms(5)])
  have "j = i" if "(k, j) \<in> set (rn_spawned s)" "j \<notin> set (rn_expired s)" for j
    by (rule key(2) [OF key(3) [OF that] key(3) [OF assms(2,3)] k that(2) assms(3)])
  moreover obtain session where "keyed_session k (rn_store s) = Some session"
    using keyed_session_Some [OF key(3) [OF assms(2,3)]] by blast
  then have "snd (execCommandOnce c fs encode ctxDone requestID args (rn_store s)) = rn_store s"
    by (simp add: execCommandOnce_def assms(4,5))
  ultimately show ?thesis using key(4) by blast
qed

definition example_launch :: launch where
  "example_launch = \<lparr>la_command = ''true'', la_argv = [''/bin/sh'', ''-c'', ''true''], la_env = [], la_stdin = None,
     la_cwd = [], la_timeout = 10, la_yield = 0\<rparr>"

definition example_reserved :: "(string \<times> string) option \<Rightarrow> run" where
  "example_reserved ident =
    new_run\<lparr>rn_store := snd (reserve (\<lambda>_ _. False) (\<lambda>_. 0) 1 (Some ''proc_1'') ident [] 100 example_launch (rn_store new_run)),
            rn_threads := [(ident, Reserved ''proc_1'')], rn_ids := [''proc_1'']\<rparr>"

definition example_args :: object where
  "example_args = [(''request_key'', JStr ''k'')]"

lemma example_find:
  "find_session ''proc_1'' (rn_store (example_reserved ident)) = Some (new_session 1 ''proc_1'' ident [] 100 example_launch)"
  by (simp add: example_reserved_def reserve_def new_run_def persistSession_def Let_def new_session_def find_session_def
      put_session_def)

lemma example_reach:
  assumes "ident = None \<or> (\<exists>k h. ident = Some (k, h) \<and> command_identity encode key args = (k, h))"
  shows "reach (\<lambda>s. s = new_run) session_step (example_reserved ident)"
proof -
  have "live_step new_run (new_run\<lparr>rn_threads := [(ident, Looked)]\<rparr>)"
    using assms live_step.look_keyed [of new_run encode key args] live_step.look_plain [of new_run]
    by (auto simp: new_run_def unlocked_def keyed_session_def)
  then have 1: "reach (\<lambda>s. s = new_run) session_step (new_run\<lparr>rn_threads := [(ident, Looked)]\<rparr>)"
    by (blast intro: reach_step reach_start session_step.live)
  have "live_step (new_run\<lparr>rn_threads := [(ident, Looked)]\<rparr>) (example_reserved ident)"
    using live_step.reserved [of "new_run\<lparr>rn_threads := [(ident, Looked)]\<rparr>" "[]" ident "[]" "''proc_1''" "\<lambda>_ _. False"
        "\<lambda>_. 0" 1 "[]" 100 example_launch]
    by (simp add: example_reserved_def reserve_def new_run_def persistSession_def Let_def new_session_def HasPrefix_def)
  from reach_step [OF 1 session_step.live [OF this]] show ?thesis .
qed

theorem launches_at_most_once_witness:
  "\<exists>k s. reach (\<lambda>s. s = new_run) session_step s \<and> rn_spawned s = [(k, ''proc_1'')]
    \<and> (\<forall>c fs. snd (execCommandOnce c fs (\<lambda>_. ''x'') False [] example_args (rn_store s)) = rn_store s)"
proof -
  obtain k h where kh: "command_identity (\<lambda>_. ''x'') ''k'' example_args = (k, h)" by (cases "command_identity (\<lambda>_. ''x'') ''k'' example_args")
  let ?s = "example_reserved (Some (k, h))"
  let ?t = "?s\<lparr>rn_threads := [(Some (k, h), Spawned ''proc_1'' 7 ''7'')], rn_spawned := [(k, ''proc_1'')]\<rparr>"
  have "live_step ?s ?t"
    using live_step.spawned [of ?s "[]" "Some (k, h)" "''proc_1''" "[]", OF _ example_find, of 7 "''7''"]
    by (simp add: example_reserved_def new_run_def new_session_def)
  then have r: "reach (\<lambda>s. s = new_run) session_step ?t"
    using kh by (blast intro: reach_step example_reach session_step.live)
  have "requiredString example_args ''request_key'' = Inr ''k''" by (simp add: example_args_def requiredString_def)
  from launches_at_most_once [OF r _ _ this kh, of "''proc_1''"]
  have "snd (execCommandOnce c fs (\<lambda>_. ''x'') False [] example_args (rn_store ?t)) = rn_store ?t" for c fs
    by (simp add: example_reserved_def new_run_def)
  then show ?thesis using r by (intro exI [of _ k] exI [of _ ?t]) simp
qed

text \<open>C22: a session only moves along its life cycle, from starting to running or failed and from running to one end,
  and once it is reported done its status and exit code never change again while the agent runs.\<close>

theorem outcome_is_final:
  assumes "reach (\<lambda>s. s = new_run) session_step s" "live_step s t"
    and "find_session i (rn_store s) = Some session" "find_session i (rn_store t) = Some session'"
  shows "lifecycle (s_status session) (s_status session')
    \<and> (s_done session \<longrightarrow> s_done session' \<and> s_status session' = s_status session \<and> s_exitCode session' = s_exitCode session
         \<and> s_status session \<notin> {''starting'', ''running''})"
proof -
  have "life_inv s" using sessions.reach_inv [OF assms(1)] by (simp add: session_inv_def)
  from live_step_advances [OF assms(2) this assms(3,4)] life_invD(3) [OF this assms(3)]
  show ?thesis by (simp add: advances_def settled_def)
qed

theorem outcome_is_final_witness:
  "\<exists>s t session session'. live_step s t \<and> find_session ''proc_1'' (rn_store s) = Some session \<and> s_done session
    \<and> s_status session = ''failed'' \<and> find_session ''proc_1'' (rn_store t) = Some session' \<and> s_status session' = ''failed''"
proof -
  let ?s = "(example_reserved None)\<lparr>rn_store := start_failed (\<lambda>_ _. False) (\<lambda>_. 0) 2 ''proc_1'' (rn_store (example_reserved None)),
    rn_threads := []\<rparr>"
  let ?t = "?s\<lparr>rn_store := snd (stopSession (\<lambda>_ _. False) (\<lambda>_. 0) (\<lambda>_ _. False) True 3 ''proc_1'' ''cancelled'' (rn_store ?s))\<rparr>"
  have "live_step (example_reserved None) ?s"
    using live_step.not_started [of "example_reserved None" "[]" None "''proc_1''" "[]"] by (simp add: example_reserved_def)
  then have r: "reach (\<lambda>s. s = new_run) session_step ?s" by (blast intro: reach_step example_reach session_step.live)
  obtain session where f: "find_session ''proc_1'' (rn_store ?s) = Some session" "s_status session = ''failed''" "s_done session"
    using example_find [of None] by (simp add: start_failed_def closeDone_def new_session_def)
  have st: "live_step ?s ?t" by (rule live_step.stop) simp
  obtain session' where f': "find_session ''proc_1'' (rn_store ?t) = Some session'"
    using f(1,2) by (simp add: stopSession_def)
  have "s_status session' = ''failed''" using outcome_is_final [OF r st f(1) f'] f(2,3) by simp
  then show ?thesis using st f f' by blast
qed

end
