(* ===== verification/SessionErrors.thy ===== *)
theory SessionErrors
  imports SessionSafety
begin

text \<open>
  Two ways the command sessions go wrong: a cancellation that arrives while a command is being started, and a
  stop that the agent does not survive.
\<close>

text \<open>Cancelling a command that is still being started does nothing, and the caller is told both that the command
  is running and that it had already finished.\<close>

theorem cancel_while_starting:
  assumes "find_session i e = Some session" "s_status session = ''starting''" "i \<noteq> []"
    and "cl_logs c i = (Some out, Some err)"
  shows "\<exists>r. cancelCommand c [(''session_id'', JStr i)] True e = (Inr (V4 r, True), e) \<and> v4_status r = ''running''"
proof -
  obtain sl where "readSeparateLogs (Some out) (Some err) None None (64 * 2 ^ 10) = Inr sl"
    by (simp add: readSeparateLogs_def fileSize_def readLog_def Let_def case_prod_beta)
  then show ?thesis using assms
    by (simp add: cancelCommand_def onlyArgs_def requiredString_def Let_def sessionResult_def shown_status_def)
qed

definition example_env :: callEnv where
  "example_env = \<lparr>cl_executor = \<lparr>ex_roots = \<lparr>rc_allowed = [], rc_unavailable = [], rc_allowAll = True\<rparr>,
       ex_maxResponse = 100, ex_fault = \<lambda>_. False, ex_fold = id, ex_lower = id\<rparr>,
     cl_environ = [], cl_maxLogBytes = 100, cl_fault = \<lambda>_ _. False, cl_enc = \<lambda>_. 0, cl_now = 5, cl_fresh = None,
     cl_spawn = None, cl_alive = \<lambda>_ _. False, cl_kill = True, cl_during = id, cl_logs = \<lambda>_. (Some [], Some [])\<rparr>"

theorem cancel_while_starting_witness:
  "\<exists>r e. cancelCommand example_env [(''session_id'', JStr ''proc_1'')] True e = (Inr (V4 r, True), e)
     \<and> v4_status r = ''running'' \<and> (\<exists>s. reach (\<lambda>s. s = new_run) session_step s \<and> rn_store s = e)"
proof -
  have "cl_logs example_env ''proc_1'' = (Some [], Some [])" by (simp add: example_env_def)
  moreover have "s_status (new_session 1 ''proc_1'' None [] 100 example_launch) = ''starting''" by (simp add: new_session_def)
  moreover have "''proc_1'' \<noteq> []" by simp
  ultimately have "\<exists>r. cancelCommand example_env [(''session_id'', JStr ''proc_1'')] True (rn_store (example_reserved None))
      = (Inr (V4 r, True), rn_store (example_reserved None)) \<and> v4_status r = ''running''"
    by (intro cancel_while_starting [OF example_find])
  then show ?thesis using example_reach [of None] by blast
qed

text \<open>A stop that is recorded and whose process end is not, because the agent went down in between, leaves a
  session that comes back as done but without an end: no clean-up ever removes it while the agent runs,
  whatever the time to live, and its duration keeps growing.\<close>

theorem interrupted_stop_never_expires:
  assumes "coherent e" "map_of (es_dirs e) i = Some (Some md)" "HasPrefix i ''proc_''" "md_ID md = i"
    and "md_Status md \<in> {''cancelled'', ''timed_out'', ''failed''}" "md_FinishedAt md = None" "now - ttl \<le> md_StartedAt md"
    and "e' = restoreSessions fault alive now ttl e"
  shows "\<exists>session. find_session i e' = Some session \<and> s_done session \<and> s_status session = md_Status md
    \<and> (\<forall>fault later ttl. find_session i (cleanup fault later ttl e') = Some session)
    \<and> (\<forall>later d. 0 \<le> d \<and> md_StartedAt md \<le> later \<longrightarrow> duration_ms (later + d * 1000000) session = duration_ms later session + d)"
proof -
  have st: "md_Status md \<noteq> ''running''" "md_Status md \<noteq> ''starting''" using assms(5) by auto
  let ?s = "restored_session alive now md"
  have s: "?s = closeDone (session_of md)" using st by (simp add: restored_session_def Let_def session_of_def)
  have "restorable (now - ttl) i (Some md) = Some md"
    using assms(3,4,6,7) by (simp add: restorable_def stale_metadata_def)
  then have f: "find_session i e' = Some ?s" by (simp add: restore_facts(2) [OF assms(1,8)] assms(2))
  have fin: "s_finishedAt ?s = 0" "s_startedAt ?s = md_StartedAt md" "s_done ?s" "s_status ?s = md_Status md"
    by (simp_all add: s closeDone_def session_of_def assms(6))
  have coh: "coherent e'" by (rule restore_facts(1) [OF assms(1,8)])
  have "find_session i (cleanup fault later ttl e') = Some ?s" for fault later ttl
    using dead_ids_iff [of e' i "later - ttl"] coh f fin(1)
    by (simp add: cleanup_facts(1) [OF coh refl] coherent_def expired_session_def IsZero_def)
  moreover have "duration_ms (later + d * 1000000) ?s = duration_ms later ?s + d" if "0 \<le> d" "md_StartedAt md \<le> later" for later d
  proof -
    have "(later + d * 1000000 - md_StartedAt md) div 1000000 = (later - md_StartedAt md) div 1000000 + d"
      using div_mult_self1 [of 1000000 "later - md_StartedAt md" d] by (simp add: algebra_simps)
    then show ?thesis using that fin(1,2) by (simp add: duration_ms_def Milliseconds_def IsZero_def pos_imp_zdiv_nonneg_iff)
  qed
  ultimately show ?thesis using f fin by blast
qed

theorem interrupted_stop_never_expires_witness:
  "\<exists>s session. reach (\<lambda>s. s = new_run) session_step s
    \<and> find_session ''proc_1'' (restoreSessions (\<lambda>_ _. False) (\<lambda>_ _. False) 9 100 (rn_store s)) = Some session
    \<and> s_done session \<and> s_status session = ''cancelled''"
proof -
  let ?r = "example_reserved None"
  let ?s1 = "?r\<lparr>rn_threads := [(None, Spawned ''proc_1'' 7 ''7'')], rn_spawned := [([], ''proc_1'')]\<rparr>"
  let ?s2 = "?s1\<lparr>rn_store := start_running (\<lambda>_. 0) 2 7 ''7'' ''proc_1'' (rn_store ?s1), rn_threads := [(None, Running ''proc_1'')],
    rn_waiting := [''proc_1'']\<rparr>"
  let ?e = "snd (stopSession (\<lambda>_ _. False) (\<lambda>_. 0) (\<lambda>_ _. False) True 3 ''proc_1'' ''cancelled'' (rn_store ?s2))"
  let ?s3 = "?s2\<lparr>rn_store := ?e\<rparr>"
  have "live_step ?r ?s1"
    using live_step.spawned [of ?r "[]" None "''proc_1''" "[]", OF _ example_find, of 7 "''7''"]
    by (simp add: example_reserved_def new_run_def new_session_def)
  moreover have "live_step ?s1 ?s2"
    using live_step.running [of ?s1 "[]" None "''proc_1''" 7 "''7''" "[]" "\<lambda>_. 0" 2] by (simp add: example_reserved_def new_run_def)
  moreover have "live_step ?s2 ?s3" by (rule live_step.stop) simp
  ultimately have r: "reach (\<lambda>s. s = new_run) session_step ?s3"
    using example_reach [of None] by (blast intro: reach_step session_step.live)
  have inv: "coherent ?e" using sessions.reach_inv [OF r] by (simp add: session_inv_def life_inv_def)
  have "\<exists>md. map_of (es_dirs ?e) ''proc_1'' = Some (Some md) \<and> md_ID md = ''proc_1'' \<and> md_Status md = ''cancelled''
      \<and> md_FinishedAt md = None \<and> md_StartedAt md = 1"
    by (simp add: example_reserved_def reserve_def new_run_def persistSession_def Let_def new_session_def find_session_def
      put_session_def start_running_def stopSession_def change_session_def metadata_of_def IsZero_def)
  then obtain md where md: "map_of (es_dirs ?e) ''proc_1'' = Some (Some md)" "md_ID md = ''proc_1''"
    "md_Status md = ''cancelled''" "md_FinishedAt md = None" "md_StartedAt md = 1" by blast
  have "\<exists>session. find_session ''proc_1'' (restoreSessions (\<lambda>_ _. False) (\<lambda>_ _. False) 9 100 ?e) = Some session
      \<and> s_done session \<and> s_status session = ''cancelled''"
    using interrupted_stop_never_expires [OF inv md(1) _ md(2) _ md(4) _ refl, of 9 100 "\<lambda>_ _. False" "\<lambda>_ _. False"] md(3,5)
    by (simp add: HasPrefix_def) blast
  then show ?thesis using r by (intro exI [of _ ?s3]) simp
qed

end
