(* ===== verification/Texts.thy ===== *)
theory Texts
  imports FileTools
begin

text \<open>Functions of Go's \<open>strings\<close> that several later components use.\<close>

text \<open>\<open>strings.Contains\<close>.\<close>

definition Contains :: "string \<Rightarrow> string \<Rightarrow> bool" where
  "Contains s part \<longleftrightarrow> list_ex (\<lambda>rest. HasPrefix rest part) (map (\<lambda>i. drop i s) [0..<Suc (length s)])"

definition TrimSuffix :: "string \<Rightarrow> string \<Rightarrow> string" where
  "TrimSuffix s t = (if HasSuffix s t then take (length s - length t) s else s)"

text \<open>\<open>strings.ReplaceAll\<close> of carriage return and line feed by a line feed.\<close>

definition unix_lines :: "string \<Rightarrow> string" where
  "unix_lines s = Replace [CHR 0x0D, CHR 0x0A] [CHR 0x0A] (length s) s"

text \<open>\<open>strings.Join\<close>.\<close>

fun Join :: "string list \<Rightarrow> string \<Rightarrow> string" where
  "Join [] sep = []"
| "Join [l] sep = l"
| "Join (l # m # ls) sep = l @ sep @ Join (m # ls) sep"

end
