(* ===== verification/BrowserErrors.thy ===== *)
theory BrowserErrors
  imports Texts
begin

text \<open>
  Failures of browser operations (\<open>cmd/agent/browser_errors.go, browser_command_context.go\<close>): the table of
  messages, the mapping of transport and page errors to codes, and what of an error an operation records.
  \<open>codedFailure\<close> adds the details a coded error carries.
\<close>

section \<open>Messages\<close>

definition browserFailureMessages :: "(string \<times> string) list" where
  "browserFailureMessages =
   [(''native_input_unavailable'', ''the browser native editing command is unavailable for this control''),
    (''browser_unhealthy'', ''browser recovery is required; restore the operation journal before making changes''),
    (''binding_changed'', ''the selected browser tab, window or page changed; bind the exact existing target again''),
    (''tab_not_found'', ''no locally approved existing tab matches the exact URL and window''),
    (''tab_detached'', ''the bound tab is no longer available; attach the existing target again''),
    (''stale_generation'', ''the DOM collection changed; restart pagination with a fresh revision''),
    (''ambiguous_record'', ''record IDs are not unique in the selected DOM collection''),
    (''unstable_record'', ''a selected record has no stable ID; choose an explicit ID attribute''),
    (''download_conflict'', ''the destination already contains different bytes; choose a new destination''),
    (''focus_changed'', ''page focus moved to a different control; inspect the target before trying native input again''),
    (''cancelled'', ''browser operation was cancelled''),
    (''cancelled_before_dispatch'', ''operation was cancelled before a browser side effect was sent''),
    (''scope_changed'', ''local browser access changed; obtain fresh state before continuing''),
    (''protocol_upgrade_required'', ''update agent and browser extension to command protocol 2 before changing the page''),
    (''browser_busy'', ''browser operation queue is full; retry after current work finishes''),
    (''command_expired'', ''browser command expired before it could complete''),
    (''browser_not_found'', ''no connected personal browser matches; use browser_control action=discover''),
    (''ambiguous_browser'', ''multiple personal browsers match; choose a profile_id or unique local alias from discovery''),
    (''ambiguous_tab'', ''multiple tabs match target_origin; open the profile and explicitly choose from browser_tabs''),
    (''wait_timeout'', ''browser wait ended without matching the requested condition''),
    (''stale_snapshot'', ''snapshot no longer matches this document or frame; obtain a new snapshot''),
    (''element_detached'', ''element was removed from the document; obtain a new snapshot''),
    (''element_not_found'', ''no element matches the locator''),
    (''ambiguous_locator'', ''more than one element matches the locator; specify a container or exact selector''),
    (''invalid_selector'', ''CSS selector is invalid''),
    (''invalid_option_value'', ''no enabled select option matches; inspect the snapshot options''),
    (''state_verification_failed'', ''interaction was dispatched but its control state could not be verified; read a fresh snapshot before retrying''),
    (''invalid_control_type'', ''element does not support this interaction''),
    (''element_disabled'', ''element is disabled''),
    (''element_hidden'', ''element is not visible''),
    (''element_obscured'', ''another element covers the interaction point''),
    (''element_not_editable'', ''element is not editable''),
    (''frame_changed'', ''frame execution context changed; obtain a new snapshot''),
    (''navigation_pending'', ''navigation is changing the document; wait for the target state''),
    (''page_evaluation_failed'', ''page evaluation failed; inspect bounded browser diagnostics''),
    (''outcome_unknown'', ''action outcome is unknown; verify the target state before any new mutation''),
    (''access_paused'', ''browser access is paused or was changed locally''),
    (''scope_denied'', ''operation is outside the locally approved tab or URL scope''),
    (''disconnected'', ''browser connection or tab is no longer available''),
    (''response_too_large'', ''browser response exceeds the allowed message budget'')]"

definition browserFailureMessage :: "string \<Rightarrow> string" where
  "browserFailureMessage code =
    (case map_of browserFailureMessages code of
       Some message \<Rightarrow> message
     | None \<Rightarrow> ''browser operation failed; inspect the error code and browser diagnostics'')"

definition transport_codes :: "(string \<times> string) list" where
  "transport_codes =
   [(''Command target changed'', ''binding_changed''),
    (''Bound tab is no longer available'', ''tab_detached''),
    (''Command cancelled'', ''cancelled_before_dispatch''),
    (''Command deadline expired'', ''command_expired''),
    (''Command scope changed'', ''scope_changed''),
    (''Command queue is full'', ''browser_busy''),
    (''Command protocol is not supported'', ''protocol_upgrade_required''),
    (''Local control paused'', ''access_paused''),
    (''Local access changed'', ''access_paused''),
    (''Enable permanent access locally'', ''access_paused''),
    (''Tab URL is outside the selected scope'', ''scope_denied''),
    (''Tab left permitted scope'', ''scope_denied''),
    (''Navigation URL is outside selected scope'', ''scope_denied''),
    (''History URL outside scope'', ''scope_denied''),
    (''Tab is not locally attached'', ''scope_denied''),
    (''CDP method is not permitted'', ''scope_denied''),
    (''New tabs are not locally permitted'', ''scope_denied''),
    (''Only tabs created for this task can be closed'', ''scope_denied''),
    (''Native bridge disconnected'', ''disconnected''),
    (''Response exceeds native message limit'', ''response_too_large''),
    (''Native response exceeds limit'', ''response_too_large'')]"

definition browserTransportFailure :: "string \<Rightarrow> codedError" where
  "browserTransportFailure message =
    (let code =
       (if length message > 2048 then ''browser_failed''
        else case map_of transport_codes message of
          Some code \<Rightarrow> code
        | None \<Rightarrow>
            if list_ex (Contains message) [''Cannot find context with specified id'', ''Execution context was destroyed'',
                 ''Cannot find execution context'', ''No frame with given id'']
            then ''frame_changed'' else ''browser_failed'')
     in toolErr code (browserFailureMessage code))"

definition browserErrorRecovery :: "string \<Rightarrow> string" where
  "browserErrorRecovery code =
    (case map_of
   [(''cancelled'', ''stop''),
    (''cancelled_before_dispatch'', ''stop''),
    (''browser_busy'', ''wait''),
    (''protocol_upgrade_required'', ''update_extension''),
    (''scope_changed'', ''refresh_snapshot''),
    (''command_expired'', ''refresh_snapshot''),
    (''stale_generation'', ''refresh_snapshot''),
    (''binding_changed'', ''rebind_target''),
    (''tab_not_found'', ''rebind_target''),
    (''tab_detached'', ''rebind_target''),
    (''stale_snapshot'', ''refresh_snapshot''),
    (''element_detached'', ''refresh_snapshot''),
    (''frame_changed'', ''refresh_snapshot''),
    (''navigation_pending'', ''refresh_snapshot''),
    (''invalid_option_value'', ''inspect_options''),
    (''element_not_found'', ''inspect_locator''),
    (''ambiguous_locator'', ''inspect_locator''),
    (''element_disabled'', ''inspect_locator''),
    (''element_hidden'', ''inspect_locator''),
    (''element_obscured'', ''inspect_locator''),
    (''invalid_selector'', ''inspect_locator''),
    (''invalid_control_type'', ''inspect_locator''),
    (''element_not_editable'', ''inspect_locator''),
    (''outcome_unknown'', ''verify_outcome''),
    (''state_verification_failed'', ''verify_outcome'')]
     code of Some action \<Rightarrow> action | None \<Rightarrow> ''inspect_diagnostics'')"

text \<open>After one of these, whether the page changed is not known.\<close>

definition browserUncertainTransport :: "string \<Rightarrow> bool" where
  "browserUncertainTransport code \<longleftrightarrow>
     code \<in> {''scope_changed'', ''binding_changed'', ''tab_detached'', ''frame_changed'', ''command_expired'',
       ''cancelled_before_dispatch'', ''access_paused'', ''disconnected'', ''response_too_large''}"

section \<open>Errors with details\<close>

record codedFailure = codedError +
  ce_details :: object

definition failure :: "string \<Rightarrow> object \<Rightarrow> codedFailure" where
  "failure code details = \<lparr>ce_code = code, ce_message = browserFailureMessage code, ce_details = details\<rparr>"

definition no_details :: "codedError \<Rightarrow> codedFailure" where
  "no_details e = codedError.extend e (codedFailure.fields [])"

text \<open>An error as its callers see it: the coded error in its chain, and which of the two context errors is.\<close>

record goErr =
  ge_coded :: "codedFailure option"
  ge_canceled :: bool
  ge_deadline :: bool

section \<open>The result of a page expression\<close>

text \<open>
  The envelope \<open>browserEvalExpression\<close> wraps an expression in. \<open>decode\<close> is what the caller decodes the value
  into. An option is read field by field and written again as a struct is.
\<close>

record browserSelectOption =
  so_Label :: string
  so_Value :: string
  so_Disabled :: bool
  so_Selected :: bool

definition decode_option :: "json \<Rightarrow> browserSelectOption option" where
  "decode_option v =
    (case struct_members (Document v) of
       None \<Rightarrow> None
     | Some m \<Rightarrow>
        (case (string_field [] (field ''label'' m), string_field [] (field ''value'' m),
               bool_field False (field ''disabled'' m), bool_field False (field ''selected'' m)) of
           (Some l, Some w, Some d, Some s) \<Rightarrow> Some \<lparr>so_Label = l, so_Value = w, so_Disabled = d, so_Selected = s\<rparr>
         | _ \<Rightarrow> None))"

definition option_json :: "browserSelectOption \<Rightarrow> json" where
  "option_json opt = JObj [(''label'', JStr (so_Label opt)), (''value'', JStr (so_Value opt)),
     (''disabled'', JBool (so_Disabled opt)), (''selected'', JBool (so_Selected opt))]"

fun int_pointer :: "int option \<Rightarrow> json list \<Rightarrow> int option option" where
  "int_pointer acc [] = Some acc"
| "int_pointer acc (JNull # vs) = int_pointer None vs"
| "int_pointer acc (JNum n # vs) =
    (if n = of_int \<lfloor>n\<rfloor> \<and> - (2 ^ 63) \<le> \<lfloor>n\<rfloor> \<and> \<lfloor>n\<rfloor> \<le> maxInt then int_pointer (Some \<lfloor>n\<rfloor>) vs else None)"
| "int_pointer acc (v # vs) = None"

fun options_field :: "browserSelectOption list \<Rightarrow> json list \<Rightarrow> browserSelectOption list option" where
  "options_field acc [] = Some acc"
| "options_field acc (JNull # vs) = options_field [] vs"
| "options_field acc (JArr xs # vs) = (case those (map decode_option xs) of None \<Rightarrow> None | Some os \<Rightarrow> options_field os vs)"
| "options_field acc (v # vs) = None"

definition eval_failure :: "object \<Rightarrow> codedFailure option" where
  "eval_failure m =
    (case (string_field [] (field ''code'' m), int_pointer None (field ''matches'' m), options_field [] (field ''options'' m)) of
       (Some code0, Some matches, Some options) \<Rightarrow>
         let code = (if map_of browserFailureMessages code0 = None then ''page_evaluation_failed'' else code0);
             count = (case matches of
                        Some c \<Rightarrow> if 0 \<le> c \<and> c \<le> 10000 then [(''matches'', JNum (of_int c))] else []
                      | None \<Rightarrow> []);
             opts = (if 0 < length options \<and> length options \<le> 100 then [(''options'', JArr (map option_json options))] else [])
         in Some (failure code (count @ opts))
     | _ \<Rightarrow> None)"

definition browserEvalResult :: "(json \<Rightarrow> 'a option) \<Rightarrow> raw_json \<Rightarrow> codedFailure + 'a" where
  "browserEvalResult decode raw =
    (let bad = Inl (no_details (toolErr ''browser_failed'' ''invalid page result'')) in
     case struct_members raw of
       None \<Rightarrow> bad
     | Some m \<Rightarrow>
        (case pointer_field None (field ''error'' m) of
           None \<Rightarrow> bad
         | Some (Some e) \<Rightarrow> (case eval_failure e of None \<Rightarrow> bad | Some f \<Rightarrow> Inl f)
         | Some None \<Rightarrow>
            (case raw_field (field ''value'' m) of
               None \<Rightarrow> Inl (no_details (toolErr ''browser_failed'' ''page result is missing''))
             | Some v \<Rightarrow> (case decode v of None \<Rightarrow> bad | Some r \<Rightarrow> Inr r))))"

section \<open>The context of an error\<close>

definition browserContextID :: "string \<Rightarrow> bool" where
  "browserContextID s \<longleftrightarrow> list_ex (\<lambda>p. HasPrefix s p \<and> length s = length p + 24 \<and> list_all lower_hex (drop (length p) s))
     [''browser_'', ''tab_'', ''snapshot_'', ''bop_'']"

definition context_args :: "object \<Rightarrow> object" where
  "context_args args =
    concat (map (\<lambda>key. case map_of args key of
                         Some (JStr v) \<Rightarrow> if browserContextID v then [(key, JStr v)] else []
                       | _ \<Rightarrow> [])
       [''browser_session_id'', ''tab_id'', ''snapshot_id''])"

definition set_members :: "object \<Rightarrow> object \<Rightarrow> object" where
  "set_members new old = fold (\<lambda>(k, v). AList.update k v) new old"

definition browserErrorContext :: "goErr \<Rightarrow> object \<Rightarrow> codedFailure" where
  "browserErrorContext err args =
    (let coded = (case ge_coded err of Some c \<Rightarrow> c | None \<Rightarrow> failure ''browser_failed'' [])
     in coded\<lparr>ce_details := set_members (context_args args) (ce_details coded)\<rparr>)"

lemma map_of_fold_update:
  "distinct (map fst new) \<Longrightarrow> map_of (fold (\<lambda>(k, v). AList.update k v) new old) = map_of old ++ map_of new"
proof (induction new arbitrary: old)
  case (Cons kv new)
  then have "fst kv \<notin> fst ` set new" by simp
  then have "map_of new (fst kv) = None" by (simp add: map_of_eq_None_iff)
  then show ?case using Cons by (cases kv) (auto simp: fun_eq_iff map_add_def split: option.splits)
qed simp

lemma map_of_set_members: "distinct (map fst new) \<Longrightarrow> map_of (set_members new old) = map_of old ++ map_of new"
  by (simp add: set_members_def map_of_fold_update)

end
