(* ===== verification/BrowserSchemas.thy ===== *)
theory BrowserSchemas
  imports FileTools
begin

text \<open>
  The input schemas of the browser tools and the check of a call's arguments against them
  (\<open>cmd/agent/browser_schemas.go\<close>). Only what \<open>validateBrowserArgs\<close> reads of a schema is represented: the type of
  every field, the required ones, and the ones each action requires. Descriptions and output schemas, which are
  constant data for the client, are not.
\<close>

section \<open>Schemas\<close>

datatype fieldSchema = StringField | EnumField "string list" | IntField int int | BoolField

record toolSchema =
  ts_name :: string
  ts_fields :: "(string \<times> fieldSchema) list"
  ts_required :: "string list"
  ts_variants :: "(string \<times> string list) list"

definition common_fields :: "(string \<times> fieldSchema) list" where
  "common_fields =
     [(''browser_session_id'', StringField), (''tab_id'', StringField), (''frame_id'', StringField),
      (''binding_revision'', StringField), (''request_key'', StringField)]"

definition locator_fields :: "(string \<times> fieldSchema) list" where
  "locator_fields =
     [(''selector'', StringField), (''role'', StringField), (''name'', StringField),
      (''snapshot_id'', StringField), (''element_id'', StringField), (''context'', StringField),
      (''container_selector'', StringField)]"

definition action_required :: "string \<Rightarrow> string \<Rightarrow> string list" where
  "action_required name action =
    [''action'']
  @ (if action = ''fill'' then [''text'']
     else if action = ''select'' then (if name = ''browser_interact'' then [''value''] else [''tab_id''])
     else if action = ''url'' then [''url'']
     else if action = ''press'' then [''key'']
     else if action = ''dialog'' then [''accept'']
     else if action = ''coordinates'' \<or> action = ''drag'' then [''x'', ''y'', ''viewport_width'', ''viewport_height'']
     else if action = ''close'' then [''tab_id'']
     else if action = ''upload'' then [''path'']
     else if action = ''save_download'' then [''path'', ''download_id'']
     else [])
  @ (if action = ''drag'' then [''end_x'', ''end_y''] else [])
  @ (if name = ''browser_tabs'' \<and> action \<noteq> ''list'' then [''request_key''] else [])
  @ (if name = ''browser_files'' \<and> action \<noteq> ''downloads'' then [''request_key''] else [])"

definition variants :: "string \<Rightarrow> (string \<times> fieldSchema) list \<Rightarrow> (string \<times> string list) list" where
  "variants name properties =
    (if name \<in> {''browser_interact'', ''browser_tabs'', ''browser_navigate'', ''browser_files''}
     then (case map_of properties ''action'' of
             Some (EnumField actions) \<Rightarrow> map (\<lambda>action. (action, action_required name action)) actions
           | _ \<Rightarrow> [])
     else [])"

text \<open>A later entry of the same name replaces an earlier one.\<close>

definition schema :: "string \<Rightarrow> (string \<times> fieldSchema) list \<Rightarrow> string list \<Rightarrow> bool \<Rightarrow> toolSchema" where
  "schema name properties required locator =
    \<lparr>ts_name = name,
     ts_fields = AList.clearjunk ((if locator then locator_fields else []) @ properties @ common_fields),
     ts_required = required, ts_variants = variants name properties\<rparr>"

definition browserToolSchemas :: "toolSchema list" where
  "browserToolSchemas =
   [schema ''browser_open''
     [(''mode'', EnumField [''clean'', ''persistent'', ''personal'']), (''url'', StringField),
      (''reuse_only'', BoolField), (''exact_url'', StringField), (''window_id'', IntField 0 2147483647),
      (''profile_id'', StringField), (''browser_alias'', StringField), (''connection_id'', StringField),
      (''preferred_browser'', EnumField [''chrome'', ''edge'', ''chromium'', ''unknown'']),
      (''target_origin'', StringField)]
      [''mode'', ''request_key''] False,
    schema ''browser_tabs''
     [(''action'', EnumField [''list'', ''new'', ''select'', ''close'']),
      (''focus_policy'', EnumField [''preserve'', ''activate''])]
      [''browser_session_id'', ''action''] False,
    schema ''browser_navigate''
     [(''action'', EnumField [''url'', ''back'', ''forward'', ''reload'']), (''url'', StringField)]
      [''browser_session_id'', ''action'', ''request_key''] False,
    schema ''browser_snapshot''
     [(''container_selector'', StringField), (''detail'', EnumField [''light'', ''full'']),
      (''record_selector'', StringField), (''id_attribute'', StringField), (''text_selector'', StringField),
      (''author_selector'', StringField), (''time_selector'', StringField),
      (''attachment_selector'', StringField), (''page_size'', IntField 1 100), (''page_token'', StringField)]
      [''browser_session_id''] False,
    schema ''browser_screenshot''
     [(''full_page'', BoolField), (''save'', BoolField)]
      [''browser_session_id''] False,
    schema ''browser_interact''
     [(''action'', EnumField [''click'', ''fill'', ''select'', ''hover'', ''press'', ''scroll'', ''drag'', ''coordinates'', ''dialog'']),
      (''record_selector'', StringField), (''id_attribute'', StringField),
      (''input_mode'', EnumField [''compatibility'', ''native'']),
      (''focus_policy'', EnumField [''preserve'', ''activate'']), (''text'', StringField),
      (''value'', StringField), (''select_by'', EnumField [''auto'', ''value'', ''label'']),
      (''verify_selector'', StringField), (''verify_text'', StringField),
      (''verify_timeout_seconds'', IntField 1 20),
      (''key'', EnumField [''Enter'', ''Tab'', ''Escape'', ''Backspace'', ''Delete'', ''ArrowLeft'', ''ArrowUp'', ''ArrowRight'', ''ArrowDown'', ''Space'']),
      (''accept'', BoolField), (''x'', IntField (-100000) 100000), (''y'', IntField (-100000) 100000),
      (''end_x'', IntField 0 100000), (''end_y'', IntField 0 100000),
      (''viewport_width'', IntField 1 100000), (''viewport_height'', IntField 1 100000)]
      [''browser_session_id'', ''action'', ''request_key''] True,
    schema ''browser_wait''
     [(''condition'', EnumField [''load'', ''url'', ''text'', ''element'', ''value'']),
      (''text'', StringField), (''url'', StringField), (''value'', StringField),
      (''state'', EnumField [''visible'', ''enabled'', ''absent'']), (''timeout_seconds'', IntField 1 25)]
      [''browser_session_id'', ''condition''] True,
    schema ''browser_files''
     [(''action'', EnumField [''upload'', ''enable_downloads'', ''downloads'', ''save_download'']),
      (''path'', StringField), (''download_id'', StringField)]
      [''browser_session_id'', ''action''] True,
    schema ''browser_diagnostics''
     [(''operation_id'', StringField)]
      [''browser_session_id''] False,
    schema ''browser_control''
     [(''action'', EnumField [''status'', ''pause'', ''resume'', ''cancel'', ''disconnect'', ''waiting_user'', ''discover'']),
      (''operation_id'', StringField)]
      [''action''] False]"

section \<open>Checking arguments\<close>

definition check_field :: "object \<Rightarrow> string \<Rightarrow> fieldSchema \<Rightarrow> unit result" where
  "check_field args key ty =
    (case ty of
       StringField \<Rightarrow>
         (case map_of args key of
            Some (JStr text) \<Rightarrow> if length text > 16384 then Inl (toolErr ''invalid_arguments'' (key @ '' must be a bounded string'')) else Inr ()
          | _ \<Rightarrow> Inl (toolErr ''invalid_arguments'' (key @ '' must be a bounded string'')))
     | EnumField enums \<Rightarrow>
         (case map_of args key of
            Some (JStr text) \<Rightarrow>
              if length text > 16384 then Inl (toolErr ''invalid_arguments'' (key @ '' must be a bounded string''))
              else if text \<notin> set enums then Inl (toolErr ''invalid_arguments'' (''invalid '' @ key)) else Inr ()
          | _ \<Rightarrow> Inl (toolErr ''invalid_arguments'' (key @ '' must be a bounded string'')))
     | IntField lo hi \<Rightarrow> bind_result (optionalInt args key 0 lo hi) (\<lambda>_. Inr ())
     | BoolField \<Rightarrow> bind_result (optionalBool args key) (\<lambda>_. Inr ()))"

fun check_fields :: "(string \<times> fieldSchema) list \<Rightarrow> object \<Rightarrow> string list \<Rightarrow> unit result" where
  "check_fields decl args [] = Inr ()"
| "check_fields decl args (key # keys) =
    (case map_of decl key of
       None \<Rightarrow> check_fields decl args keys
     | Some ty \<Rightarrow> bind_result (check_field args key ty) (\<lambda>_. check_fields decl args keys))"

fun check_required :: "object \<Rightarrow> string list \<Rightarrow> unit result" where
  "check_required args [] = Inr ()"
| "check_required args (key # keys) = bind_result (requiredString args key) (\<lambda>_. check_required args keys)"

fun check_variants :: "object \<Rightarrow> (string \<times> string list) list \<Rightarrow> unit result" where
  "check_variants args [] = Inr ()"
| "check_variants args ((action, required) # vs) =
    (if map_of args ''action'' \<noteq> Some (JStr action) then check_variants args vs
     else (case List.find (\<lambda>key. map_of args key = None) required of
             Some key \<Rightarrow> Inl (toolErr ''invalid_arguments'' (key @ '' is required''))
           | None \<Rightarrow> check_variants args vs))"

definition validateBrowserArgs :: "string \<Rightarrow> object \<Rightarrow> unit result" where
  "validateBrowserArgs name args =
    (case List.find (\<lambda>def. ts_name def = name) browserToolSchemas of
       None \<Rightarrow> Inl (toolErr ''unknown_tool'' (''unknown browser tool: '' @ TrimPrefix name ''browser_''))
     | Some def \<Rightarrow>
         bind_result (onlyArgs args (map fst (ts_fields def))) (\<lambda>_.
         bind_result (check_required args (ts_required def)) (\<lambda>_.
         bind_result (check_fields (ts_fields def) args (map fst args)) (\<lambda>_.
           check_variants args (ts_variants def)))))"

definition browserMutation :: "string \<Rightarrow> object \<Rightarrow> bool" where
  "browserMutation name args \<longleftrightarrow>
     name = ''browser_open'' \<or> name = ''browser_navigate'' \<or> name = ''browser_interact''
   \<or> name = ''browser_files'' \<and> map_of args ''action'' \<noteq> Some (JStr ''downloads'')
   \<or> name = ''browser_tabs'' \<and> map_of args ''action'' \<noteq> Some (JStr ''list'')"

section \<open>The typing relation\<close>

fun has_type :: "fieldSchema \<Rightarrow> json \<Rightarrow> bool" where
  "has_type StringField v = (case v of JStr s \<Rightarrow> length s \<le> 16384 | _ \<Rightarrow> False)"
| "has_type (EnumField enums) v = (case v of JStr s \<Rightarrow> length s \<le> 16384 \<and> s \<in> set enums | _ \<Rightarrow> False)"
| "has_type (IntField lo hi) v = (case v of JNum n \<Rightarrow> n = of_int \<lfloor>n\<rfloor> \<and> lo \<le> \<lfloor>n\<rfloor> \<and> \<lfloor>n\<rfloor> \<le> hi | _ \<Rightarrow> False)"
| "has_type BoolField v = (case v of JBool b \<Rightarrow> True | _ \<Rightarrow> False)"

definition well_typed :: "toolSchema \<Rightarrow> object \<Rightarrow> bool" where
  "well_typed def args \<longleftrightarrow>
     (\<forall>(key, v) \<in> set args. \<exists>ty. map_of (ts_fields def) key = Some ty \<and> has_type ty v)
   \<and> (\<forall>key \<in> set (ts_required def). \<exists>s. map_of args key = Some (JStr s) \<and> s \<noteq> [])
   \<and> (\<forall>(action, required) \<in> set (ts_variants def). map_of args ''action'' = Some (JStr action) \<longrightarrow>
        set required \<subseteq> fst ` set args)"

lemma check_field_ok: "map_of args key = Some v \<Longrightarrow> check_field args key ty = Inr () \<longleftrightarrow> has_type ty v"
  by (cases ty; cases v) (auto simp: check_field_def bind_result_Inr optionalInt_def optionalBool_def)

lemma check_fields_ok:
  "set keys \<subseteq> fst ` set args \<Longrightarrow> check_fields decl args keys = Inr () \<longleftrightarrow>
     (\<forall>key \<in> set keys. \<forall>ty v. map_of decl key = Some ty \<longrightarrow> map_of args key = Some v \<longrightarrow> has_type ty v)"
proof (induction keys)
  case (Cons key keys)
  then obtain v where "map_of args key = Some v" using map_of_eq_None_iff [of args key] by (cases "map_of args key") auto
  then show ?case using Cons by (auto simp: bind_result_Inr check_field_ok split: option.split)
qed simp

lemma check_required_ok:
  "check_required args keys = Inr () \<longleftrightarrow> (\<forall>key \<in> set keys. \<exists>s. map_of args key = Some (JStr s) \<and> s \<noteq> [])"
  by (induction keys) (auto simp: bind_result_Inr requiredString_def split: option.splits json.splits)

lemma check_variants_ok:
  "check_variants args vs = Inr () \<longleftrightarrow>
     (\<forall>(action, required) \<in> set vs. map_of args ''action'' = Some (JStr action) \<longrightarrow> set required \<subseteq> fst ` set args)"
proof (induction args vs rule: check_variants.induct)
  case (2 args action required vs)
  have "(List.find (\<lambda>key. map_of args key = None) required = None) = (set required \<subseteq> fst ` set args)"
    by (auto simp: find_None_iff map_of_eq_None_iff)
  then show ?case using 2 by (auto split: option.split)
qed simp

lemma onlyArgs_ok: "onlyArgs args allowed = Inr () \<longleftrightarrow> fst ` set args \<subseteq> set allowed"
proof -
  have "(List.find (\<lambda>k. k \<notin> set allowed) (map fst args) = None) = (fst ` set args \<subseteq> set allowed)"
    by (auto simp: find_None_iff)
  then show ?thesis by (cases "List.find (\<lambda>k. k \<notin> set allowed) (map fst args)") (simp_all add: onlyArgs_def)
qed

lemma args_typed:
  assumes "distinct (map fst args)"
  shows "(fst ` set args \<subseteq> set (map fst decl)
      \<and> (\<forall>key \<in> set (map fst args). \<forall>ty v. map_of decl key = Some ty \<longrightarrow> map_of args key = Some v \<longrightarrow> has_type ty v))
    \<longleftrightarrow> (\<forall>(key, v) \<in> set args. \<exists>ty. map_of decl key = Some ty \<and> has_type ty v)" (is "?l = ?r")
proof
  assume l: ?l
  show ?r
  proof clarify
    fix key v assume kv: "(key, v) \<in> set args"
    have key: "key \<in> fst ` set args" using imageI [OF kv, of fst] by simp
    have "key \<in> set (map fst decl)" by (rule subsetD [OF conjunct1 [OF l] key])
    then obtain ty where "map_of decl key = Some ty"
      by (cases "map_of decl key") (auto simp: map_of_eq_None_iff)
    moreover have "key \<in> set (map fst args)" using key by simp
    ultimately show "\<exists>ty. map_of decl key = Some ty \<and> has_type ty v"
      using conjunct2 [OF l] map_of_is_SomeI [OF assms kv] by blast
  qed
next
  assume r: ?r
  have "key \<in> set (map fst decl)" if "(key, v) \<in> set args" for key v
    using r that by (force dest: map_of_SomeD)
  moreover have "has_type ty v" if "map_of decl key = Some ty" "map_of args key = Some v" for key ty v
    using r map_of_SomeD [OF that(2)] that(1) by fastforce
  ultimately show ?l by auto
qed

text \<open>C23: the arguments of a browser tool are accepted exactly when the tool exists and they are well typed under its
  schema: every argument is a declared field and its value has the field's type, the required ones are non-empty
  strings, and the decl the chosen action needs are there.\<close>

theorem validateBrowserArgs_typed:
  assumes "distinct (map fst args)"
  shows "validateBrowserArgs name args = Inr () \<longleftrightarrow>
    (\<exists>def. List.find (\<lambda>def. ts_name def = name) browserToolSchemas = Some def \<and> well_typed def args)"
proof (cases "List.find (\<lambda>def. ts_name def = name) browserToolSchemas")
  case (Some def)
  have "check_fields (ts_fields def) args (map fst args) = Inr () \<longleftrightarrow>
      (\<forall>key \<in> set (map fst args). \<forall>ty v. map_of (ts_fields def) key = Some ty \<longrightarrow> map_of args key = Some v \<longrightarrow> has_type ty v)"
    by (rule check_fields_ok) simp
  then have "validateBrowserArgs name args = Inr () \<longleftrightarrow> well_typed def args"
    unfolding validateBrowserArgs_def Some well_typed_def args_typed [OF assms, of "ts_fields def", symmetric]
    by (auto simp: bind_result_Inr onlyArgs_ok check_required_ok check_variants_ok)
  then show ?thesis by (simp add: Some)
qed (simp add: validateBrowserArgs_def)

definition example_args :: "json \<Rightarrow> object" where
  "example_args v = [(''browser_session_id'', JStr ''browser_1''), (''full_page'', v)]"

definition screenshot_schema :: toolSchema where
  "screenshot_schema = schema ''browser_screenshot'' [(''full_page'', BoolField), (''save'', BoolField)] [''browser_session_id''] False"

lemma ts_name_schema [simp]: "ts_name (schema name properties required locator) = name"
  by (simp add: schema_def)

lemma example_schema: "List.find (\<lambda>def. ts_name def = ''browser_screenshot'') browserToolSchemas = Some screenshot_schema"
  by (simp add: browserToolSchemas_def screenshot_schema_def)

lemma example_typed: "well_typed screenshot_schema (example_args v) \<longleftrightarrow> (\<exists>b. v = JBool b)"
  by (cases v) (simp_all add: well_typed_def example_args_def screenshot_schema_def schema_def map_of_clearjunk common_fields_def variants_def)

theorem validateBrowserArgs_typed_witness:
  "validateBrowserArgs ''browser_screenshot'' (example_args (JBool True)) = Inr ()
   \<and> validateBrowserArgs ''browser_screenshot'' (example_args (JStr ''yes'')) \<noteq> Inr ()"
proof -
  have "distinct (map fst (example_args v))" for v by (simp add: example_args_def)
  note typed = validateBrowserArgs_typed [OF this, of "''browser_screenshot''", unfolded example_schema]
  show ?thesis using typed [of "JBool True"] typed [of "JStr ''yes''"] by (auto simp: example_typed)
qed

end
