(* ===== verification/JournalWriter.thy ===== *)
theory JournalWriter
  imports Prelude
begin

text \<open>
  The writer of the journal of browser operations (\<open>cmd/agent/browser_journal_writer.go\<close>): at most eight
  reserved slots, one record per slot, and one worker that writes the records in the order they came. Slots are
  numbered as they are reserved. \<open>jw_turn\<close> counts the calls of \<open>signalLocked\<close>: a caller that waits on the
  channel of an earlier turn is woken. \<open>jw_running\<close> is the job the worker has taken out of the channel.
\<close>

section \<open>The writer\<close>

definition browserJournalWriterSlots :: nat where "browserJournalWriterSlots = 8"

definition browserJournalRecordMax :: nat where "browserJournalRecordMax = 2 ^ 20"

datatype journalError = WriterClosed | SlotReleased | SlotUsed | RecordLarge | WriteFailed | CtxErr string

record browserJournalSlot =
  sl_submitted :: bool
  sl_released :: bool

record browserJournalJob =
  jb_slot :: nat
  jb_path :: string
  jb_data :: string

record browserJournalWriter =
  jw_jobs :: "browserJournalJob list"
  jw_slots :: "nat list"
  jw_closed :: bool
  jw_turn :: nat
  jw_slot :: "nat \<Rightarrow> browserJournalSlot"
  jw_next :: nat
  jw_running :: "browserJournalJob option"
  jw_ended :: bool

definition newBrowserJournalWriter :: browserJournalWriter where
  "newBrowserJournalWriter =
    \<lparr>jw_jobs = [], jw_slots = [], jw_closed = False, jw_turn = 0,
     jw_slot = (\<lambda>_. \<lparr>sl_submitted = False, sl_released = False\<rparr>), jw_next = 0, jw_running = None, jw_ended = False\<rparr>"

definition signalLocked :: "browserJournalWriter \<Rightarrow> browserJournalWriter" where
  "signalLocked w = w\<lparr>jw_turn := Suc (jw_turn w)\<rparr>"

definition set_slot :: "nat \<Rightarrow> browserJournalSlot \<Rightarrow> browserJournalWriter \<Rightarrow> browserJournalWriter" where
  "set_slot i s w = w\<lparr>jw_slot := (jw_slot w)(i := s)\<rparr>"

text \<open>A slot leaves the table for good.\<close>

definition drop_slot :: "nat \<Rightarrow> browserJournalWriter \<Rightarrow> browserJournalWriter" where
  "drop_slot i w = signalLocked (set_slot i (jw_slot w i\<lparr>sl_released := True\<rparr>) (w\<lparr>jw_slots := remove1 i (jw_slots w)\<rparr>))"

definition tryReserve :: "browserJournalWriter \<Rightarrow> nat option \<times> browserJournalWriter" where
  "tryReserve w =
    (if jw_closed w \<or> length (jw_slots w) \<ge> browserJournalWriterSlots then (None, w)
     else (Some (jw_next w),
           set_slot (jw_next w) \<lparr>sl_submitted = False, sl_released = False\<rparr>
             (w\<lparr>jw_slots := jw_next w # jw_slots w, jw_next := Suc (jw_next w)\<rparr>)))"

definition slot_release :: "nat \<Rightarrow> browserJournalWriter \<Rightarrow> browserJournalWriter" where
  "slot_release i w =
    (if sl_submitted (jw_slot w i) \<or> sl_released (jw_slot w i) then w else drop_slot i w)"

text \<open>
  \<open>write\<close> up to its \<open>select\<close>; after \<open>Inr job\<close> the caller waits for that job or its context. \<open>early\<close> and \<open>late\<close> are
  the errors its context has before and under the lock; the locked part is \<open>submit\<close>.
\<close>

definition submit :: "string option \<Rightarrow> nat \<Rightarrow> string \<Rightarrow> string \<Rightarrow> browserJournalWriter \<Rightarrow>
    (journalError + browserJournalJob) \<times> browserJournalWriter" where
  "submit late i path data w =
    (let s = jw_slot w i in
     if jw_closed w then (Inl WriterClosed, if \<not> sl_submitted s \<and> \<not> sl_released s then drop_slot i w else w)
     else if sl_released s then (Inl SlotReleased, w)
     else if sl_submitted s then (Inl SlotUsed, w)
     else (case late of
             Some err \<Rightarrow> (Inl (CtxErr err), drop_slot i w)
           | None \<Rightarrow>
              let job = \<lparr>jb_slot = i, jb_path = path, jb_data = data\<rparr>
              in (Inr job, set_slot i (s\<lparr>sl_submitted := True\<rparr>) (w\<lparr>jw_jobs := jw_jobs w @ [job]\<rparr>))))"

definition slot_write :: "string option \<Rightarrow> string option \<Rightarrow> nat \<Rightarrow> string \<Rightarrow> string \<Rightarrow> browserJournalWriter \<Rightarrow>
    (journalError + browserJournalJob) \<times> browserJournalWriter" where
  "slot_write early late i path data w =
    (if length data > browserJournalRecordMax then (Inl RecordLarge, slot_release i w)
     else (case early of
             Some err \<Rightarrow> (Inl (CtxErr err), slot_release i w)
           | None \<Rightarrow> submit late i path data w))"

text \<open>One turn of the loop of \<open>write\<close> without a slot: an error, a slot to write with, or the turn it waits for to end.\<close>

datatype writeTurn = WriteError journalError | Reserved nat | WaitsFor nat

definition write_turn :: "string option \<Rightarrow> string \<Rightarrow> browserJournalWriter \<Rightarrow> writeTurn \<times> browserJournalWriter" where
  "write_turn ctxErr data w =
    (if length data > browserJournalRecordMax then (WriteError RecordLarge, w)
     else (case ctxErr of
             Some err \<Rightarrow> (WriteError (CtxErr err), w)
           | None \<Rightarrow>
              if jw_closed w then (WriteError WriterClosed, w)
              else (case tryReserve w of
                      (Some i, w1) \<Rightarrow> (Reserved i, w1)
                    | (None, w1) \<Rightarrow> (WaitsFor (jw_turn w), w1))))"

definition close_writer :: "browserJournalWriter \<Rightarrow> browserJournalWriter" where
  "close_writer w =
    (let open_slots = filter (\<lambda>i. \<not> sl_submitted (jw_slot w i)) (jw_slots w) in
     signalLocked (w\<lparr>jw_closed := True,
       jw_slots := filter (\<lambda>i. sl_submitted (jw_slot w i)) (jw_slots w),
       jw_slot := (\<lambda>i. if i \<in> set open_slots then jw_slot w i\<lparr>sl_released := True\<rparr> else jw_slot w i)\<rparr>))"

text \<open>The worker: it takes a job, it has written it, and it ends.\<close>

definition take_job :: "browserJournalWriter \<Rightarrow> browserJournalWriter" where
  "take_job w = (case jw_jobs w of [] \<Rightarrow> w | job # rest \<Rightarrow> w\<lparr>jw_jobs := rest, jw_running := Some job\<rparr>)"

definition finish_job :: "browserJournalJob \<Rightarrow> browserJournalWriter \<Rightarrow> browserJournalWriter" where
  "finish_job job w = (drop_slot (jb_slot job) w)\<lparr>jw_running := None\<rparr>"

definition job_error :: "bool \<Rightarrow> journalError option" where
  "job_error failed = (if failed then Some WriteFailed else None)"

definition may_end :: "browserJournalWriter \<Rightarrow> bool" where
  "may_end w \<longleftrightarrow> jw_closed w \<and> jw_slots w = []"

section \<open>Runs\<close>

text \<open>\<open>jr_accepted\<close> are the jobs \<open>submit\<close> has sent, \<open>jr_done\<close> those written, with the error of each.\<close>

record journalRun =
  jr_writer :: browserJournalWriter
  jr_accepted :: "browserJournalJob list"
  jr_done :: "(browserJournalJob \<times> journalError option) list"

definition new_journalRun :: journalRun where
  "new_journalRun = \<lparr>jr_writer = newBrowserJournalWriter, jr_accepted = [], jr_done = []\<rparr>"

text \<open>Callers may use any slot that was ever reserved, in any order and as often as they like.\<close>

inductive journal_step :: "journalRun \<Rightarrow> journalRun \<Rightarrow> bool" where
  j_reserve: "tryReserve (jr_writer r) = (out, w) \<Longrightarrow> journal_step r (r\<lparr>jr_writer := w\<rparr>)"
| j_turn: "write_turn ctxErr data (jr_writer r) = (out, w) \<Longrightarrow> journal_step r (r\<lparr>jr_writer := w\<rparr>)"
| j_release: "i < jw_next (jr_writer r) \<Longrightarrow> journal_step r (r\<lparr>jr_writer := slot_release i (jr_writer r)\<rparr>)"
| j_refused: "i < jw_next (jr_writer r) \<Longrightarrow> slot_write early late i path data (jr_writer r) = (Inl e, w) \<Longrightarrow>
    journal_step r (r\<lparr>jr_writer := w\<rparr>)"
| j_accepted: "i < jw_next (jr_writer r) \<Longrightarrow> slot_write early late i path data (jr_writer r) = (Inr job, w) \<Longrightarrow>
    journal_step r (r\<lparr>jr_writer := w, jr_accepted := jr_accepted r @ [job]\<rparr>)"
| j_close: "journal_step r (r\<lparr>jr_writer := close_writer (jr_writer r)\<rparr>)"
| j_take: "jw_running (jr_writer r) = None \<Longrightarrow> \<not> jw_ended (jr_writer r) \<Longrightarrow> jw_jobs (jr_writer r) \<noteq> [] \<Longrightarrow>
    journal_step r (r\<lparr>jr_writer := take_job (jr_writer r)\<rparr>)"
| j_finish: "jw_running (jr_writer r) = Some job \<Longrightarrow>
    journal_step r (r\<lparr>jr_writer := finish_job job (jr_writer r), jr_done := jr_done r @ [(job, job_error failed)]\<rparr>)"
| j_end: "jw_running (jr_writer r) = None \<Longrightarrow> may_end (jr_writer r) \<Longrightarrow>
    journal_step r (r\<lparr>jr_writer := (jr_writer r)\<lparr>jw_ended := True\<rparr>\<rparr>)"

section \<open>The invariant\<close>

definition pending_jobs :: "browserJournalWriter \<Rightarrow> browserJournalJob list" where
  "pending_jobs w = (case jw_running w of None \<Rightarrow> [] | Some job \<Rightarrow> [job]) @ jw_jobs w"

text \<open>A slot is in the table until it is released; the submitted ones are exactly those of the pending jobs.\<close>

definition slots_ok :: "browserJournalWriter \<Rightarrow> bool" where
  "slots_ok w \<longleftrightarrow> distinct (jw_slots w) \<and> length (jw_slots w) \<le> browserJournalWriterSlots
    \<and> (\<forall>i < jw_next w. i \<in> set (jw_slots w) \<longleftrightarrow> \<not> sl_released (jw_slot w i))
    \<and> set (jw_slots w) \<subseteq> {..<jw_next w}
    \<and> distinct (map jb_slot (pending_jobs w))
    \<and> set (map jb_slot (pending_jobs w)) = {i \<in> set (jw_slots w). sl_submitted (jw_slot w i)}
    \<and> (jw_closed w \<longrightarrow> (\<forall>i \<in> set (jw_slots w). sl_submitted (jw_slot w i)))
    \<and> (jw_ended w \<longrightarrow> jw_closed w \<and> jw_slots w = [])"

definition journal_inv :: "journalRun \<Rightarrow> bool" where
  "journal_inv r \<longleftrightarrow> slots_ok (jr_writer r)
    \<and> jr_accepted r = map fst (jr_done r) @ pending_jobs (jr_writer r)"

lemma slots_okD:
  assumes "slots_ok w"
  shows "distinct (jw_slots w)" "length (jw_slots w) \<le> browserJournalWriterSlots"
    "i < jw_next w \<Longrightarrow> i \<in> set (jw_slots w) \<longleftrightarrow> \<not> sl_released (jw_slot w i)"
    "i \<in> set (jw_slots w) \<Longrightarrow> i < jw_next w"
    "distinct (map jb_slot (pending_jobs w))"
    "i \<in> jb_slot ` set (pending_jobs w) \<longleftrightarrow> i \<in> set (jw_slots w) \<and> sl_submitted (jw_slot w i)"
    "jw_closed w \<Longrightarrow> i \<in> set (jw_slots w) \<Longrightarrow> sl_submitted (jw_slot w i)"
    "jw_ended w \<Longrightarrow> jw_closed w \<and> jw_slots w = []"
  using assms unfolding slots_ok_def set_map by blast+

lemma pending_simps [simp]:
  "pending_jobs (drop_slot i w) = pending_jobs w"
  "pending_jobs (set_slot i s w) = pending_jobs w"
  "pending_jobs (signalLocked w) = pending_jobs w"
  "pending_jobs (slot_release i w) = pending_jobs w"
  "pending_jobs (close_writer w) = pending_jobs w"
  by (simp_all add: pending_jobs_def drop_slot_def set_slot_def signalLocked_def slot_release_def close_writer_def Let_def)

lemma tryReserve_ok: "slots_ok w \<Longrightarrow> tryReserve w = (out, w1) \<Longrightarrow> slots_ok w1 \<and> pending_jobs w1 = pending_jobs w"
proof -
  assume ok: "slots_ok w" and res: "tryReserve w = (out, w1)"
  have p: "pending_jobs w1 = pending_jobs w"
    using res by (auto simp: tryReserve_def set_slot_def pending_jobs_def split: if_splits)
  have "slots_ok w1" using ok res unfolding slots_ok_def p
    by (auto simp: tryReserve_def set_slot_def less_Suc_eq split: if_splits)
  then show ?thesis using p by blast
qed

lemma write_turn_ok: "slots_ok w \<Longrightarrow> write_turn ctxErr data w = (out, w1) \<Longrightarrow> slots_ok w1 \<and> pending_jobs w1 = pending_jobs w"
  by (auto simp: write_turn_def split: if_splits option.splits prod.splits dest: tryReserve_ok)

lemma drop_slot_ok:
  assumes "slots_ok w" "i \<in> set (jw_slots w)" "\<not> sl_submitted (jw_slot w i)"
  shows "slots_ok (drop_slot i w)"
proof -
  have "length (remove1 i (jw_slots w)) \<le> length (jw_slots w)" by (simp add: length_remove1)
  moreover have "jw_slots (drop_slot i w) = remove1 i (jw_slots w)" "jw_next (drop_slot i w) = jw_next w"
    "jw_closed (drop_slot i w) = jw_closed w" "jw_ended (drop_slot i w) = jw_ended w"
    "jw_slot (drop_slot i w) = (jw_slot w)(i := jw_slot w i\<lparr>sl_released := True\<rparr>)"
    by (simp_all add: drop_slot_def signalLocked_def set_slot_def)
  ultimately show ?thesis using assms unfolding slots_ok_def pending_simps by auto
qed

lemma slot_release_ok: "slots_ok w \<Longrightarrow> i < jw_next w \<Longrightarrow> slots_ok (slot_release i w)"
  using slots_okD(3) [of w i] by (auto simp: slot_release_def drop_slot_ok)

lemma submit_ok:
  assumes "slots_ok w" "i < jw_next w" "submit late i path data w = (out, w1)"
  shows "slots_ok w1 \<and> pending_jobs w1 = pending_jobs w @ (case out of Inl _ \<Rightarrow> [] | Inr job \<Rightarrow> [job])"
proof (cases "\<not> jw_closed w \<and> \<not> sl_released (jw_slot w i) \<and> \<not> sl_submitted (jw_slot w i) \<and> late = None")
  case True
  then have i: "i \<in> set (jw_slots w)" using slots_okD(3) [OF assms(1,2)] by simp
  have new: "i \<notin> jb_slot ` set (pending_jobs w)" using slots_okD(6) [OF assms(1), of i] True by simp
  let ?job = "\<lparr>jb_slot = i, jb_path = path, jb_data = data\<rparr>"
  have out: "out = Inr ?job" "w1 = set_slot i (jw_slot w i\<lparr>sl_submitted := True\<rparr>) (w\<lparr>jw_jobs := jw_jobs w @ [?job]\<rparr>)"
    using assms(3) True by (simp_all add: submit_def Let_def)
  have pending: "pending_jobs w1 = pending_jobs w @ [?job]" by (simp add: out(2)) (simp add: pending_jobs_def)
  have w1: "jw_slots w1 = jw_slots w" "jw_next w1 = jw_next w" "jw_closed w1 = jw_closed w" "jw_ended w1 = jw_ended w"
    "jw_slot w1 = (jw_slot w)(i := jw_slot w i\<lparr>sl_submitted := True\<rparr>)" by (simp_all add: out(2) set_slot_def)
  have "set (map jb_slot (pending_jobs w1)) = {j \<in> set (jw_slots w1). sl_submitted (jw_slot w1 j)}"
    using slots_okD(6) [OF assms(1)] i unfolding pending w1 by auto
  moreover have "distinct (map jb_slot (pending_jobs w1))" using slots_okD(5) [OF assms(1)] new by (simp add: pending)
  ultimately have "slots_ok w1" using assms(1) unfolding slots_ok_def w1 by auto
  then show ?thesis by (simp add: pending out(1))
next
  case False
  then show ?thesis using assms drop_slot_ok [OF assms(1)] slots_okD(3) [OF assms(1,2)]
    by (auto simp: submit_def Let_def split: if_splits option.splits)
qed

lemma slot_write_ok:
  assumes "slots_ok w" "i < jw_next w" "slot_write early late i path data w = (out, w1)"
  shows "slots_ok w1 \<and> pending_jobs w1 = pending_jobs w @ (case out of Inl _ \<Rightarrow> [] | Inr job \<Rightarrow> [job])"
  using assms submit_ok [OF assms(1,2)] slot_release_ok [OF assms(1,2)]
  by (auto simp: slot_write_def split: if_splits option.splits)

lemma close_writer_ok: "slots_ok w \<Longrightarrow> slots_ok (close_writer w)"
proof -
  assume ok: "slots_ok w"
  have "length (filter (\<lambda>i. sl_submitted (jw_slot w i)) (jw_slots w)) \<le> browserJournalWriterSlots"
    using slots_okD(2) [OF ok] length_filter_le [of _ "jw_slots w"] le_trans by blast
  moreover have "pending_jobs (close_writer w) = pending_jobs w" by simp
  ultimately show ?thesis using ok unfolding slots_ok_def by (auto simp: close_writer_def Let_def signalLocked_def)
qed

lemma take_job_ok:
  assumes "slots_ok w" "jw_running w = None"
  shows "slots_ok (take_job w) \<and> pending_jobs (take_job w) = pending_jobs w"
proof -
  have p: "pending_jobs (take_job w) = pending_jobs w"
    using assms(2) by (simp add: pending_jobs_def take_job_def split: list.split)
  moreover have "slots_ok (take_job w)" using assms(1) unfolding slots_ok_def p by (auto simp: take_job_def split: list.splits)
  ultimately show ?thesis by blast
qed

lemma finish_job_ok:
  assumes "slots_ok w" "jw_running w = Some job"
  shows "slots_ok (finish_job job w) \<and> pending_jobs w = job # pending_jobs (finish_job job w)"
proof -
  have p: "pending_jobs w = job # pending_jobs (finish_job job w)"
    using assms(2) by (simp add: pending_jobs_def finish_job_def drop_slot_def signalLocked_def set_slot_def)
  let ?i = "jb_slot job"
  have i: "?i \<in> set (jw_slots w)" "?i \<notin> jb_slot ` set (pending_jobs (finish_job job w))"
    using slots_okD(5) [OF assms(1)] slots_okD(6) [OF assms(1), of ?i] by (auto simp: p)
  have w1: "jw_slots (finish_job job w) = remove1 ?i (jw_slots w)" "jw_next (finish_job job w) = jw_next w"
    "jw_closed (finish_job job w) = jw_closed w" "jw_ended (finish_job job w) = jw_ended w"
    "jw_slot (finish_job job w) = (jw_slot w)(?i := jw_slot w ?i\<lparr>sl_released := True\<rparr>)"
    by (simp_all add: finish_job_def drop_slot_def signalLocked_def set_slot_def)
  have "j \<in> jb_slot ` set (pending_jobs (finish_job job w)) \<longleftrightarrow> j \<noteq> ?i \<and> j \<in> set (jw_slots w) \<and> sl_submitted (jw_slot w j)" for j
    using slots_okD(6) [OF assms(1), of j] i by (auto simp: p)
  then have "set (map jb_slot (pending_jobs (finish_job job w))) =
      {j \<in> set (jw_slots (finish_job job w)). sl_submitted (jw_slot (finish_job job w) j)}"
    unfolding w1 using slots_okD(1) [OF assms(1)] by auto
  moreover have "distinct (map jb_slot (pending_jobs (finish_job job w)))" using slots_okD(5) [OF assms(1)] by (simp add: p)
  moreover have "length (remove1 ?i (jw_slots w)) \<le> browserJournalWriterSlots"
    using slots_okD(2) [OF assms(1)] by (auto simp: length_remove1)
  ultimately have "slots_ok (finish_job job w)"
    using assms(1) unfolding slots_ok_def w1 by auto
  then show ?thesis using p by blast
qed

lemma journal_step_inv: "journal_step r t \<Longrightarrow> journal_inv r \<Longrightarrow> journal_inv t"
proof (induction rule: journal_step.induct)
  case (j_finish r job failed)
  then show ?case using finish_job_ok [OF _ j_finish(1)] by (auto simp: journal_inv_def)
next
  case (j_end r)
  then have "slots_ok ((jr_writer r)\<lparr>jw_ended := True\<rparr>)"
    by (simp add: journal_inv_def slots_ok_def may_end_def pending_jobs_def)
  then show ?case using j_end by (simp add: journal_inv_def) (simp add: pending_jobs_def)
qed (auto simp: journal_inv_def take_job_ok close_writer_ok slot_release_ok dest: tryReserve_ok write_turn_ok slot_write_ok)

lemma slots_ok_load: "slots_ok w \<Longrightarrow> length (pending_jobs w) \<le> length (jw_slots w)"
proof -
  assume ok: "slots_ok w"
  have "jb_slot ` set (pending_jobs w) \<subseteq> set (jw_slots w)" using slots_okD(6) [OF ok] by blast
  moreover have "card (jb_slot ` set (pending_jobs w)) = length (pending_jobs w)"
    using distinct_card [OF slots_okD(5) [OF ok]] by simp
  moreover have "card (set (jw_slots w)) = length (jw_slots w)" using slots_okD(1) [OF ok] by (rule distinct_card)
  ultimately show ?thesis using card_mono [of "set (jw_slots w)" "jb_slot ` set (pending_jobs w)"] by simp
qed

interpretation journal: bounded_system "\<lambda>r. r = new_journalRun" journal_step journal_inv
  "\<lambda>r. length (jw_slots (jr_writer r))" browserJournalWriterSlots
proof unfold_locales
  show "journal_inv r" if "r = new_journalRun" for r
    using that by (simp add: journal_inv_def new_journalRun_def newBrowserJournalWriter_def slots_ok_def pending_jobs_def)
  show "journal_inv t" if "journal_inv r" "journal_step r t" for r t by (rule journal_step_inv [OF that(2,1)])
  show "length (jw_slots (jr_writer r)) \<le> browserJournalWriterSlots" if "journal_inv r" for r
    using that slots_okD(2) by (simp add: journal_inv_def)
qed



end
