(* ===== verification/BrowserOperations.thy ===== *)
theory BrowserOperations
  imports BrowserErrors BrowserSchemas JournalWriter SessionTools "HOL-Library.Product_Lexorder"
begin

text \<open>
  Browser operations (\<open>cmd/agent/browser_operations.go, browser_operation_finish.go, browser_health.go\<close> and the
  entry \<open>call\<close> of \<open>browser.go\<close>): the cache of results, the retry index, the journal on disk, and what happens to a
  call from its admission to its recorded outcome. A call that starts an operation leaves it running; its
  goroutine is the functions after that, one per stretch between two waits.

  The journal directory is a list of named files. \<open>encoder\<close> holds the lengths \<open>json.Marshal\<close> gives: None is
  an error. A record is read back as it was encoded; the fields that are not encoded come back empty.
\<close>

section \<open>State\<close>

record browserExecutionState =
  ex_phase :: nat
  ex_dispatched :: bool

record browserOperation =
  op_ID :: string
  op_KeyHash :: string
  op_Hash :: string
  op_Status :: string
  op_At :: time
  op_Result :: "object option"
  op_ErrorCode :: string
  op_ErrorMessage :: string
  op_ErrorDetails :: "object option"
  op_Phase :: string
  op_image :: string
  op_errorTransient :: "object option"
  op_execution :: "browserExecutionState option"
  op_cancel :: bool
  op_done :: bool
  op_cacheBytes :: int

record browserJournalEntry =
  je_ID :: string
  je_At :: time

datatype journalFile = NotRegular | Regular nat "browserOperation option"

record browserManager =
  bm_enabled :: bool
  bm_operations :: "(string \<times> browserOperation) list"
  bm_journal :: "(string \<times> browserJournalEntry) list"
  bm_cacheBytes :: int
  bm_closed :: bool
  bm_healthReason :: string
  bm_pendingCleanups :: "bool list"
  bm_writer :: browserJournalWriter

type_synonym journalDir = "(string \<times> journalFile) list"

record opEncoder =
  enc_op :: "browserOperation \<Rightarrow> nat option"
  enc_transient :: "object option \<Rightarrow> nat option"

definition browserOperationCacheMax :: int where "browserOperationCacheMax = 4096"
definition browserOperationRunningMax :: nat where "browserOperationRunningMax = 128"
definition browserOperationReadMax :: int where "browserOperationReadMax = 128"
definition browserOperationCacheBytesMax :: int where "browserOperationCacheBytesMax = 32 * 2 ^ 20"
definition browserOperationTTL :: duration where "browserOperationTTL = 24 * hour"

definition browserOperationID :: "string \<Rightarrow> bool" where
  "browserOperationID s \<longleftrightarrow> HasPrefix s ''bop_'' \<and> length s = 28 \<and> list_all lower_hex (drop 4 s)"

definition browserEmptyManager :: "bool \<Rightarrow> browserManager" where
  "browserEmptyManager enabled =
    \<lparr>bm_enabled = enabled, bm_operations = [], bm_journal = [], bm_cacheBytes = 0, bm_closed = False,
     bm_healthReason = [], bm_pendingCleanups = [], bm_writer = newBrowserJournalWriter\<rparr>"

abbreviation running :: "browserOperation \<Rightarrow> bool" where
  "running op \<equiv> op_Status op = ''running''"

section \<open>The cache\<close>

text \<open>An operation that cannot be encoded counts as more than the whole budget.\<close>

definition operation_size :: "opEncoder \<Rightarrow> browserOperation \<Rightarrow> int" where
  "operation_size enc op =
    (case (enc_op enc op, enc_transient enc (op_errorTransient op)) of
       (Some encoded, Some transient) \<Rightarrow> int encoded + int (length (op_image op)) + int transient
     | _ \<Rightarrow> browserOperationCacheBytesMax + 1)"

definition cacheOperation :: "opEncoder \<Rightarrow> browserOperation \<Rightarrow> browserManager \<Rightarrow> browserManager" where
  "cacheOperation enc op b =
    (let freed = (case map_of (bm_operations b) (op_ID op) of None \<Rightarrow> 0 | Some old \<Rightarrow> op_cacheBytes old);
         bytes = operation_size enc op
     in b\<lparr>bm_operations := AList.update (op_ID op) (op\<lparr>op_cacheBytes := bytes\<rparr>) (bm_operations b),
          bm_cacheBytes := bm_cacheBytes b - freed + bytes\<rparr>)"

definition removeCachedOperation :: "string \<Rightarrow> browserManager \<Rightarrow> browserManager" where
  "removeCachedOperation i b =
    (case map_of (bm_operations b) i of
       None \<Rightarrow> b
     | Some op \<Rightarrow> b\<lparr>bm_operations := AList.delete i (bm_operations b), bm_cacheBytes := bm_cacheBytes b - op_cacheBytes op\<rparr>)"

definition is_read :: "browserOperation \<Rightarrow> bool" where
  "is_read op \<longleftrightarrow> \<not> running op \<and> op_KeyHash op = []"

definition cached_reads :: "browserManager \<Rightarrow> int" where
  "cached_reads b = int (length (filter (is_read \<circ> snd) (bm_operations b)))"

definition fits_cache :: "int \<Rightarrow> int \<Rightarrow> browserManager \<Rightarrow> bool" where
  "fits_cache target reads b \<longleftrightarrow> int (length (bm_operations b)) \<le> target \<and> reads \<le> browserOperationReadMax
     \<and> bm_cacheBytes b \<le> browserOperationCacheBytesMax"

fun trim_loop :: "int \<Rightarrow> browserOperation list \<Rightarrow> int \<Rightarrow> browserManager \<Rightarrow> browserManager" where
  "trim_loop target [] reads b = b"
| "trim_loop target (op # ops) reads b =
    (if fits_cache target reads b then trim_loop target ops reads b
     else trim_loop target ops (if op_KeyHash op = [] then reads - 1 else reads) (removeCachedOperation (op_ID op) b))"

text \<open>The results go in this order: reads before mutations, then the oldest.\<close>

definition eviction_key :: "browserOperation \<Rightarrow> bool \<times> time \<times> string" where
  "eviction_key op = (op_KeyHash op \<noteq> [], op_At op, op_ID op)"

definition completed_operations :: "browserManager \<Rightarrow> browserOperation list" where
  "completed_operations b = sort_key eviction_key (filter (\<lambda>op. \<not> running op) (map snd (bm_operations b)))"

definition trimOperations :: "int \<Rightarrow> browserManager \<Rightarrow> browserManager" where
  "trimOperations lim0 b =
    (if fits_cache lim0 (cached_reads b) b then b
     else trim_loop (if int (length (bm_operations b)) > lim0 then lim0 - lim0 div 8 else lim0)
            (completed_operations b) (cached_reads b) b)"

section \<open>Failure codes\<close>

definition setFailureCode :: "string \<Rightarrow> browserOperation \<Rightarrow> browserOperation" where
  "setFailureCode code op =
    (let details0 = (case op_ErrorDetails op of None \<Rightarrow> [] | Some d \<Rightarrow> d);
         details1 = (if map_of details0 ''operation_id'' = None
                     then AList.update ''operation_id'' (JStr (op_ID op)) details0 else details0)
     in op\<lparr>op_ErrorCode := code, op_ErrorMessage := browserFailureMessage code,
           op_ErrorDetails := Some (AList.update ''recovery'' (JStr (browserErrorRecovery code)) details1)\<rparr>)"

definition record_detail :: "string \<times> json \<Rightarrow> browserOperation \<Rightarrow> browserOperation" where
  "record_detail kv op =
    (let (key, value) = kv in
     if key \<in> {''browser_session_id'', ''tab_id'', ''frame_id'', ''snapshot_id'', ''matches'', ''verification_error_code''}
     then op\<lparr>op_ErrorDetails := map_option (AList.update key value) (op_ErrorDetails op)\<rparr>
     else if key = ''options'' then op\<lparr>op_errorTransient := Some [(''options'', value)]\<rparr>
     else op)"

definition op_fail :: "goErr \<Rightarrow> object \<Rightarrow> browserOperation \<Rightarrow> browserOperation" where
  "op_fail err args op =
    (let f = browserErrorContext err args in fold record_detail (ce_details f) (setFailureCode (ce_code f) op))"

section \<open>The journal\<close>

datatype readError = RNotExist | RCorrupt | RFailed

definition journal_name :: "string \<Rightarrow> string" where
  "journal_name i = i @ ''.json''"

text \<open>The decoded record: \<open>Inr None\<close> is a text that does not decode. \<open>fault\<close> names the files that cannot be read.\<close>

definition readBrowserJournalRecord :: "(string \<Rightarrow> bool) \<Rightarrow> journalDir \<Rightarrow> string \<Rightarrow> readError + browserOperation option" where
  "readBrowserJournalRecord fault disk name =
    (case map_of disk name of
       None \<Rightarrow> Inl RNotExist
     | Some NotRegular \<Rightarrow> Inl RCorrupt
     | Some (Regular size0 content) \<Rightarrow>
         if size0 > browserJournalRecordMax then Inl RCorrupt
         else if fault name then Inl RFailed else Inr content)"

definition persisted :: "browserOperation \<Rightarrow> browserOperation" where
  "persisted op =
    op\<lparr>op_Result := (if op_Result op = Some [] then None else op_Result op),
       op_ErrorDetails := (if op_ErrorDetails op = Some [] then None else op_ErrorDetails op),
       op_image := [], op_errorTransient := None, op_execution := None, op_cancel := False, op_done := False,
       op_cacheBytes := 0\<rparr>"

definition write_record :: "opEncoder \<Rightarrow> browserOperation \<Rightarrow> journalDir \<Rightarrow> journalDir" where
  "write_record enc op disk =
    (case enc_op enc op of
       None \<Rightarrow> disk
     | Some n \<Rightarrow> AList.update (journal_name (op_ID op)) (Regular n (Some (persisted op))) disk)"

text \<open>An operation that was running when the agent went down.\<close>

definition recovered :: "browserOperation \<Rightarrow> browserOperation" where
  "recovered op =
    (if running op then (setFailureCode ''outcome_unknown'' (op\<lparr>op_Status := ''failed''\<rparr>))\<lparr>op_Phase := ''unknown''\<rparr> else op)
      \<lparr>op_done := True\<rparr>"

definition loadOperation :: "(string \<Rightarrow> bool) \<Rightarrow> time \<Rightarrow> journalDir \<Rightarrow> string \<Rightarrow> browserManager \<Rightarrow> readError + browserOperation" where
  "loadOperation fault now disk i b =
    (case map_of (bm_operations b) i of
       Some op \<Rightarrow> Inr op
     | None \<Rightarrow>
        if \<not> browserOperationID i then Inl RNotExist
        else (case readBrowserJournalRecord fault disk (journal_name i) of
                Inl e \<Rightarrow> Inl e
              | Inr None \<Rightarrow> Inl RFailed
              | Inr (Some op) \<Rightarrow>
                  if op_ID op \<noteq> i \<or> op_KeyHash op = [] \<or> IsZero (op_At op) then Inl RFailed
                  else if now - op_At op > browserOperationTTL then Inl RNotExist
                  else Inr (recovered op)))"

text \<open>\<open>stuck\<close> names the files that cannot be removed; the index and the operations are walked in list order.\<close>

fun expire_journal :: "(string \<Rightarrow> bool) \<Rightarrow> time \<Rightarrow> (string \<times> browserJournalEntry) list \<Rightarrow> browserManager \<times> journalDir \<Rightarrow>
    bool \<times> browserManager \<times> journalDir" where
  "expire_journal stuck now [] (b, disk) = (True, b, disk)"
| "expire_journal stuck now ((key, entry) # rest) (b, disk) =
    (if now - je_At entry \<le> browserOperationTTL
        \<or> (case map_of (bm_operations b) (je_ID entry) of None \<Rightarrow> False | Some op \<Rightarrow> running op)
     then expire_journal stuck now rest (b, disk)
     else if stuck (journal_name (je_ID entry)) \<and> map_of disk (journal_name (je_ID entry)) \<noteq> None then (False, b, disk)
     else expire_journal stuck now rest
            (removeCachedOperation (je_ID entry) (b\<lparr>bm_journal := AList.delete key (bm_journal b)\<rparr>),
             AList.delete (journal_name (je_ID entry)) disk))"

definition expired_results :: "time \<Rightarrow> browserManager \<Rightarrow> string list" where
  "expired_results now b =
    map fst (filter (\<lambda>(i, op). \<not> running op \<and> now - op_At op > browserOperationTTL) (bm_operations b))"

definition expireOperations :: "(string \<Rightarrow> bool) \<Rightarrow> time \<Rightarrow> browserManager \<times> journalDir \<Rightarrow> bool \<times> browserManager \<times> journalDir" where
  "expireOperations stuck now bd =
    (case expire_journal stuck now (bm_journal (fst bd)) bd of
       (False, b, disk) \<Rightarrow> (False, b, disk)
     | (True, b, disk) \<Rightarrow> (True, fold removeCachedOperation (expired_results now b) b, disk))"

text \<open>One tick of \<open>runOperationCleanup\<close>.\<close>

definition operation_cleanup :: "(string \<Rightarrow> bool) \<Rightarrow> time \<Rightarrow> browserManager \<times> journalDir \<Rightarrow> browserManager \<times> journalDir" where
  "operation_cleanup stuck now bd =
    (case expireOperations stuck now bd of (_, b, disk) \<Rightarrow> (trimOperations browserOperationCacheMax b, disk))"

section \<open>Starting the agent\<close>

fun load_journal :: "opEncoder \<Rightarrow> (string \<Rightarrow> bool) \<Rightarrow> (string \<Rightarrow> bool) \<Rightarrow> time \<Rightarrow> string list \<Rightarrow> browserManager \<times> journalDir \<Rightarrow>
    (readError + browserManager) \<times> journalDir" where
  "load_journal enc fault stuck now [] (b, disk) = (Inr b, disk)"
| "load_journal enc fault stuck now (name # names) (b, disk) =
    (if \<not> HasPrefix name ''bop_'' \<or> \<not> HasSuffix name ''.json'' then load_journal enc fault stuck now names (b, disk)
     else (case readBrowserJournalRecord fault disk name of
             Inl e \<Rightarrow> (Inl e, disk)
           | Inr None \<Rightarrow> (Inl RCorrupt, disk)
           | Inr (Some op) \<Rightarrow>
               if \<not> browserOperationID (op_ID op) \<or> name \<noteq> journal_name (op_ID op) \<or> op_KeyHash op = [] \<or> IsZero (op_At op)
               then (Inl RCorrupt, disk)
               else if now - op_At op > browserOperationTTL
               then (if stuck name then (Inl RFailed, disk)
                     else load_journal enc fault stuck now names (b, AList.delete name disk))
               else
                 let b1 = cacheOperation enc (recovered op) b;
                     b2 = b1\<lparr>bm_journal := AList.update (op_KeyHash op) \<lparr>je_ID = op_ID op, je_At = op_At op\<rparr> (bm_journal b1)\<rparr>
                 in load_journal enc fault stuck now names (trimOperations browserOperationCacheMax b2, disk)))"

definition browserDegradedManager :: "readError \<Rightarrow> browserManager" where
  "browserDegradedManager cause =
    (browserEmptyManager True)\<lparr>bm_healthReason := (if cause = RCorrupt then ''journal_corrupt'' else ''storage_unavailable'')\<rparr>"

text \<open>\<open>setup\<close> is the error of preparing the directories, if any. A manager that cannot be built is replaced by a degraded one.\<close>

definition newBrowserManager :: "opEncoder \<Rightarrow> (string \<Rightarrow> bool) \<Rightarrow> (string \<Rightarrow> bool) \<Rightarrow> readError option \<Rightarrow> bool \<Rightarrow> time \<Rightarrow> journalDir \<Rightarrow>
    (readError + browserManager) \<times> journalDir" where
  "newBrowserManager enc fault stuck setup enabled now disk =
    (if \<not> enabled then (Inr (browserEmptyManager False), disk)
     else (case setup of
             Some e \<Rightarrow> (Inl e, disk)
           | None \<Rightarrow> load_journal enc fault stuck now (sort (map fst disk)) (browserEmptyManager True, disk)))"

definition start_browser :: "opEncoder \<Rightarrow> (string \<Rightarrow> bool) \<Rightarrow> (string \<Rightarrow> bool) \<Rightarrow> readError option \<Rightarrow> bool \<Rightarrow> time \<Rightarrow> journalDir \<Rightarrow>
    browserManager \<times> journalDir" where
  "start_browser enc fault stuck setup enabled now disk =
    (case newBrowserManager enc fault stuck setup enabled now disk of
       (Inr b, disk1) \<Rightarrow> (b, disk1)
     | (Inl e, disk1) \<Rightarrow> (browserDegradedManager e, disk1))"

section \<open>A call\<close>

definition cleanupsPendingLocked :: "browserManager \<Rightarrow> bool \<times> browserManager" where
  "cleanupsPendingLocked b =
    (let active = filter (\<lambda>done. \<not> done) (bm_pendingCleanups b) in (active \<noteq> [], b\<lparr>bm_pendingCleanups := active\<rparr>))"

definition healthLocked :: "browserManager \<Rightarrow> string \<times> string" where
  "healthLocked b =
    (if \<not> bm_enabled b then (''disabled'', [])
     else if bm_healthReason b \<noteq> [] then (''degraded'', bm_healthReason b)
     else if fst (cleanupsPendingLocked b) then (''degraded'', ''cleanup_pending'')
     else if bm_closed b then (''unavailable'', ''shutdown'')
     else (''healthy'', []))"

datatype admission = Refuse codedError | Control | Replay browserOperation | Start browserOperation "nat option"

text \<open>What the retry index says of a key: nothing, an answer, or an operation to wait for.\<close>

definition lookup_retry :: "(string \<Rightarrow> bool) \<Rightarrow> (string \<Rightarrow> bool) \<Rightarrow> time \<Rightarrow> string \<Rightarrow> string \<Rightarrow> browserManager \<times> journalDir \<Rightarrow>
    admission option \<times> browserManager \<times> journalDir" where
  "lookup_retry fault stuck now keyHash hash bd =
    (let expired = (case map_of (bm_journal (fst bd)) keyHash of
                      None \<Rightarrow> False | Some entry \<Rightarrow> now - je_At entry > browserOperationTTL);
         (ok, b, disk) = (if expired then expireOperations stuck now bd else (True, bd))
     in if \<not> ok then (Some (Refuse (toolErr ''io_error'' ''expire browser retry journal'')), b, disk)
        else (case map_of (bm_journal b) keyHash of
                None \<Rightarrow> (None, b, disk)
              | Some entry \<Rightarrow>
                 (case loadOperation fault now disk (je_ID entry) b of
                    Inl _ \<Rightarrow> (Some (Refuse (toolErr ''io_error'' ''read browser retry journal'')), b, disk)
                  | Inr op \<Rightarrow>
                      (Some (if op_Hash op \<noteq> hash
                             then Refuse (toolErr ''request_key_conflict'' ''key was used with different arguments'')
                             else Replay op), b, disk))))"

definition new_operation :: "string \<Rightarrow> string \<Rightarrow> string \<Rightarrow> time \<Rightarrow> browserOperation" where
  "new_operation i keyHash hash now =
    \<lparr>op_ID = i, op_KeyHash = keyHash, op_Hash = hash, op_Status = ''running'', op_At = now, op_Result = None,
     op_ErrorCode = [], op_ErrorMessage = [], op_ErrorDetails = None, op_Phase = ''reserved'', op_image = [],
     op_errorTransient = None, op_execution = Some \<lparr>ex_phase = 0, ex_dispatched = False\<rparr>, op_cancel = True,
     op_done = False, op_cacheBytes = 0\<rparr>"

definition start_operation :: "opEncoder \<Rightarrow> string \<Rightarrow> string \<Rightarrow> string \<Rightarrow> time \<Rightarrow> browserManager \<Rightarrow> admission \<times> browserManager" where
  "start_operation enc i keyHash hash now b =
    (if length (filter (running \<circ> snd) (bm_operations b)) \<ge> browserOperationRunningMax
     then (Refuse (toolErr ''limit_reached'' ''128 browser operations are running; wait for an operation to finish''), b)
     else
       let (slot, writer) = (if keyHash \<noteq> [] then tryReserve (bm_writer b) else (None, bm_writer b)) in
       if keyHash \<noteq> [] \<and> slot = None
       then (Refuse (toolErr ''browser_busy'' ''browser journal writer is busy''), b)
       else
         let b1 = trimOperations (browserOperationCacheMax - 1) (b\<lparr>bm_writer := writer\<rparr>);
             op = new_operation i keyHash hash now;
             b2 = (if keyHash \<noteq> [] then b1\<lparr>bm_journal := AList.update keyHash \<lparr>je_ID = i, je_At = now\<rparr> (bm_journal b1)\<rparr> else b1)
         in (Start op slot, cacheOperation enc op b2))"

text \<open>\<open>encode\<close> is the JSON text of a value; \<open>i\<close> is the fresh id of the call, \<open>expired\<close> whether its context has ended.\<close>

definition request_identity :: "(json \<Rightarrow> string) \<Rightarrow> string \<Rightarrow> object \<Rightarrow> (string \<times> string) result" where
  "request_identity encode name args =
    bind_result (if browserMutation name args
                 then (case requiredString args ''request_key'' of
                         Inl _ \<Rightarrow> Inl (toolErr ''invalid_arguments'' ''request_key must contain 1 to 128 characters'')
                       | Inr key \<Rightarrow> if length key > 128
                           then Inl (toolErr ''invalid_arguments'' ''request_key must contain 1 to 128 characters'')
                           else Inr (commandHash encode (JStr key)))
                 else Inr []) (\<lambda>keyHash.
      Inr (keyHash, commandHash encode (JObj [(''arguments'', JObj args), (''name'', JStr name)])))"

definition admit :: "opEncoder \<Rightarrow> (string \<Rightarrow> bool) \<Rightarrow> (string \<Rightarrow> bool) \<Rightarrow> time \<Rightarrow> string \<Rightarrow> bool \<Rightarrow> string \<Rightarrow> string \<Rightarrow>
    browserManager \<times> journalDir \<Rightarrow> admission \<times> browserManager \<times> journalDir" where
  "admit enc fault stuck now i mutation keyHash hash bd =
    (let (b0, disk0) = bd in
     if bm_closed b0 then (Refuse (toolErr ''disconnected'' ''browser manager closed''), bd)
     else if mutation \<and> bm_healthReason b0 \<noteq> []
     then (Refuse (toolErr ''browser_unhealthy'' (browserFailureMessage ''browser_unhealthy'')), bd)
     else
       let (pending, b1) = (if mutation then cleanupsPendingLocked b0 else (False, b0)) in
       if pending then (Refuse (toolErr ''browser_busy'' ''managed browser cleanup is still finishing''), b1, disk0)
       else
         let (answer, b2, disk2) = (if keyHash \<noteq> [] then lookup_retry fault stuck now keyHash hash (b1, disk0) else (None, b1, disk0)) in
         (case answer of
            Some a \<Rightarrow> (a, b2, disk2)
          | None \<Rightarrow> (case start_operation enc i keyHash hash now b2 of (a, b3) \<Rightarrow> (a, b3, disk2))))"

definition browser_call :: "opEncoder \<Rightarrow> (json \<Rightarrow> string) \<Rightarrow> (string \<Rightarrow> bool) \<Rightarrow> (string \<Rightarrow> bool) \<Rightarrow> time \<Rightarrow> string \<Rightarrow> bool \<Rightarrow>
    string \<Rightarrow> object \<Rightarrow> browserManager \<times> journalDir \<Rightarrow> admission \<times> browserManager \<times> journalDir" where
  "browser_call enc encode fault stuck now i expired name args bd =
    (if expired then (Refuse (toolErr ''cancelled'' ''browser request already expired''), bd)
     else if \<not> bm_enabled (fst bd) then (Refuse (toolErr ''browser_disabled'' ''enable WEBCODEX_BROWSER_ENABLED locally''), bd)
     else (case validateBrowserArgs name args of
             Inl e \<Rightarrow> (Refuse e, bd)
           | Inr () \<Rightarrow>
              if name = ''browser_control'' then (Control, bd)
              else (case request_identity encode name args of
                      Inl e \<Rightarrow> (Refuse e, bd)
                    | Inr (keyHash, hash) \<Rightarrow> admit enc fault stuck now i (browserMutation name args) keyHash hash bd)))"

section \<open>The outcome\<close>

datatype opResult = ImageResult object string | ObjectResult object | OtherResult

text \<open>\<open>ended\<close> is whether the operation's context has ended, \<open>dispatched\<close> whether it may have reached the page.\<close>

definition failed_final :: "bool \<Rightarrow> bool \<Rightarrow> object \<Rightarrow> goErr \<Rightarrow> browserOperation \<Rightarrow> browserOperation" where
  "failed_final ended dispatched args err op =
    (let f1 = op_fail err args (op\<lparr>op_Status := ''failed'', op_Phase := (if dispatched then ''dispatch_started'' else ''not_dispatched'')\<rparr>);
         f2 = (if op_KeyHash f1 \<noteq> [] \<and> dispatched \<and> browserUncertainTransport (op_ErrorCode f1)
               then setFailureCode ''outcome_unknown'' f1 else f1)
     in if ended \<or> ge_canceled err \<or> ge_deadline err
        then (let f3 = setFailureCode ''cancelled'' (f2\<lparr>op_Status := ''cancelled''\<rparr>) in
              if op_KeyHash f3 \<noteq> []
              then (let f4 = setFailureCode ''cancelled_before_dispatch'' f3 in
                    if dispatched then setFailureCode ''outcome_unknown'' f4 else f4)
              else f3)
        else f2)"

definition completed_final :: "opResult \<Rightarrow> browserOperation \<Rightarrow> browserOperation" where
  "completed_final result op =
    (let f = op\<lparr>op_Status := ''completed'', op_Phase := ''completed''\<rparr> in
     case result of
       ImageResult m data \<Rightarrow> f\<lparr>op_Result := Some m, op_image := data\<rparr>
     | ObjectResult m \<Rightarrow> f\<lparr>op_Result := Some m\<rparr>
     | OtherResult \<Rightarrow> f\<lparr>op_Result := None\<rparr>)"

definition final_operation :: "bool \<Rightarrow> bool \<Rightarrow> object \<Rightarrow> goErr + opResult \<Rightarrow> browserOperation \<Rightarrow> browserOperation" where
  "final_operation ended dispatched args outcome op =
    (let f = (case outcome of Inl err \<Rightarrow> failed_final ended dispatched args err op | Inr result \<Rightarrow> completed_final result op)
     in f\<lparr>op_Result := map_option (\<lambda>m. AList.update ''phase'' (JStr (op_Phase f)) (AList.update ''operation_id'' (JStr (op_ID f)) m)) (op_Result f)\<rparr>)"

text \<open>\<open>written\<close> is whether the record of the outcome got into the journal in time.\<close>

definition finishBrowserOperation :: "opEncoder \<Rightarrow> bool \<Rightarrow> bool \<Rightarrow> bool \<Rightarrow> object \<Rightarrow> goErr + opResult \<Rightarrow> browserOperation \<Rightarrow>
    browserManager \<times> journalDir \<Rightarrow> browserManager \<times> journalDir" where
  "finishBrowserOperation enc written ended dispatched args outcome op bd =
    (let (b, disk) = bd;
         final0 = final_operation ended dispatched args outcome op;
         ok = (op_KeyHash final0 = []
               \<or> written \<and> (case enc_op enc final0 of None \<Rightarrow> False | Some n \<Rightarrow> n \<le> browserJournalRecordMax));
         disk1 = (if op_KeyHash final0 \<noteq> [] \<and> ok then write_record enc final0 disk else disk);
         final = (if ok then final0
                  else setFailureCode ''outcome_unknown'' (final0\<lparr>op_Status := ''failed'', op_Phase := ''unknown''\<rparr>));
         b1 = (if ok then b else b\<lparr>bm_healthReason := ''storage_unavailable''\<rparr>)
     in (trimOperations browserOperationCacheMax (cacheOperation enc final b1), disk1))"

section \<open>Its report\<close>

definition currentPhase :: "browserOperation \<Rightarrow> string" where
  "currentPhase op =
    (let recorded = (if op_Phase op \<noteq> [] then op_Phase op else ''unknown'') in
     case op_execution op of
       Some ex \<Rightarrow>
         if running op \<and> ex_phase ex = 1 then ''queued''
         else if running op \<and> ex_phase ex = 2 then ''executing''
         else if running op \<and> ex_phase ex = 3 then ''dispatch_started''
         else recorded
     | None \<Rightarrow> recorded)"

definition browserImageMetadata :: "(string \<Rightarrow> bool) \<Rightarrow> object \<Rightarrow> bool \<Rightarrow> object" where
  "browserImageMetadata available m payload =
    (let m1 = AList.update ''image_payload_available'' (JBool payload) m;
         path = (case map_of m1 ''artifact_path'' of Some (JStr p) \<Rightarrow> p | _ \<Rightarrow> [])
     in AList.update ''artifact_available'' (JBool (available path)) m1)"

datatype opAnswer = OpError codedFailure | OpImage object string | OpValue "object option"

definition operationResult :: "(string \<Rightarrow> bool) \<Rightarrow> browserOperation \<Rightarrow> opAnswer" where
  "operationResult available op =
    (if running op
     then OpValue (Some [(''operation_id'', JStr (op_ID op)), (''status'', JStr ''running''), (''phase'', JStr (currentPhase op)), (''truncated'', JBool False)])
     else if op_ErrorCode op \<noteq> []
     then OpError \<lparr>ce_code = op_ErrorCode op,
            ce_message = (if op_ErrorMessage op = [] then browserFailureMessage (op_ErrorCode op) else op_ErrorMessage op),
            ce_details = set_members (case op_errorTransient op of None \<Rightarrow> [] | Some m \<Rightarrow> m)
              (set_members (case op_ErrorDetails op of None \<Rightarrow> [] | Some m \<Rightarrow> m)
                [(''operation_id'', JStr (op_ID op)), (''phase'', JStr (currentPhase op))])\<rparr>
     else if op_image op \<noteq> []
     then OpImage (browserImageMetadata available (case op_Result op of None \<Rightarrow> [] | Some m \<Rightarrow> m) True) (op_image op)
     else (case op_Result op of
             None \<Rightarrow> OpValue None
           | Some m \<Rightarrow>
              if map_of m ''mime_type'' = Some (JStr ''image/jpeg'') \<and> map_of m ''image_width'' \<notin> {None, Some JNull}
              then OpValue (Some (browserImageMetadata available m False)) else OpValue (Some m)))"

end
