(* ===== verification/OperationCache.thy ===== *)
theory OperationCache
  imports BrowserOperations
begin

text \<open>
  The cache of operation results: its byte count is the sum of what it holds, and trimming it gives the results up
  in a fixed order, within the limits and never an operation that still runs.
\<close>

section \<open>The byte count\<close>

definition cached_bytes :: "(string \<times> browserOperation) list \<Rightarrow> int" where
  "cached_bytes ops = (\<Sum>kv \<leftarrow> ops. op_cacheBytes (snd kv))"

definition cache_ok :: "browserManager \<Rightarrow> bool" where
  "cache_ok b \<longleftrightarrow> distinct (map fst (bm_operations b))
    \<and> (\<forall>(i, op) \<in> set (bm_operations b). op_ID op = i)
    \<and> bm_cacheBytes b = cached_bytes (bm_operations b)"

abbreviation lookup_op :: "browserManager \<Rightarrow> string \<Rightarrow> browserOperation option" where
  "lookup_op b \<equiv> map_of (bm_operations b)"

lemma delete_absent: "map_of ops i = None \<Longrightarrow> AList.delete i ops = ops"
  by (rule delete_id) (auto simp: map_of_eq_None_iff)

lemma cached_bytes_delete:
  "distinct (map fst ops) \<Longrightarrow>
     cached_bytes (AList.delete i ops) = cached_bytes ops - (case map_of ops i of None \<Rightarrow> 0 | Some op \<Rightarrow> op_cacheBytes op)"
proof (induction ops)
  case (Cons kv ops)
  then show ?case
  proof (cases "fst kv = i")
    case True
    then have "map_of ops i = None" using Cons.prems by (auto simp: map_of_eq_None_iff)
    then show ?thesis using True by (cases kv) (simp add: cached_bytes_def delete_absent)
  qed (cases kv; simp add: cached_bytes_def)
qed (simp add: cached_bytes_def)

lemma cached_bytes_update:
  "distinct (map fst ops) \<Longrightarrow>
     cached_bytes (AList.update i op ops) =
       cached_bytes ops - (case map_of ops i of None \<Rightarrow> 0 | Some old \<Rightarrow> op_cacheBytes old) + op_cacheBytes op"
  by (induction ops) (auto simp: cached_bytes_def)

lemma set_update_sub: "set (AList.update k v xs) \<subseteq> insert (k, v) (set xs)"
  by (induction xs) auto

lemma cacheOperation_ok: "cache_ok b \<Longrightarrow> cache_ok (cacheOperation enc op b)"
  using set_update_sub [of "op_ID op" "op\<lparr>op_cacheBytes := operation_size enc op\<rparr>" "bm_operations b"]
  by (auto simp: cache_ok_def cacheOperation_def Let_def distinct_update cached_bytes_update)

lemma lookup_cacheOperation [simp]:
  "lookup_op (cacheOperation enc op b) = (lookup_op b)(op_ID op \<mapsto> op\<lparr>op_cacheBytes := operation_size enc op\<rparr>)"
  by (simp add: cacheOperation_def Let_def)

lemma cacheOperation_rest [simp]:
  "bm_journal (cacheOperation enc op b) = bm_journal b" "bm_closed (cacheOperation enc op b) = bm_closed b"
  "bm_healthReason (cacheOperation enc op b) = bm_healthReason b" "bm_enabled (cacheOperation enc op b) = bm_enabled b"
  "bm_writer (cacheOperation enc op b) = bm_writer b"
  by (simp_all add: cacheOperation_def Let_def)

lemma set_delete_sub: "set (AList.delete k xs) \<subseteq> set xs"
  by (auto simp: AList.delete_eq)

lemma removeCachedOperation_ok: "cache_ok b \<Longrightarrow> cache_ok (removeCachedOperation i b)"
  by (auto simp: cache_ok_def removeCachedOperation_def distinct_delete cached_bytes_delete
      dest!: subsetD [OF set_delete_sub] split: option.split)

lemma lookup_removeCachedOperation [simp]: "lookup_op (removeCachedOperation i b) = (lookup_op b)(i := None)"
  by (auto simp: removeCachedOperation_def split: option.split)

lemma removeCachedOperation_rest [simp]:
  "bm_journal (removeCachedOperation i b) = bm_journal b" "bm_closed (removeCachedOperation i b) = bm_closed b"
  "bm_healthReason (removeCachedOperation i b) = bm_healthReason b" "bm_enabled (removeCachedOperation i b) = bm_enabled b"
  "bm_writer (removeCachedOperation i b) = bm_writer b"
  by (auto simp: removeCachedOperation_def split: option.split)

lemma lookup_ID: "cache_ok b \<Longrightarrow> lookup_op b i = Some op \<Longrightarrow> op_ID op = i"
  by (auto simp: cache_ok_def dest!: map_of_SomeD)

lemma lookup_member: "cache_ok b \<Longrightarrow> (i, op) \<in> set (bm_operations b) \<longleftrightarrow> lookup_op b i = Some op"
  by (auto simp: cache_ok_def map_of_eq_Some_iff dest: map_of_SomeD)

section \<open>Removing a list of results\<close>

definition remove_all :: "string list \<Rightarrow> browserManager \<Rightarrow> browserManager" where
  "remove_all ids b = fold removeCachedOperation ids b"

lemma remove_all_simps [simp]:
  "remove_all [] b = b" "remove_all (i # ids) b = remove_all ids (removeCachedOperation i b)"
  by (simp_all add: remove_all_def)

lemma remove_all_rest [simp]:
  "bm_journal (remove_all ids b) = bm_journal b" "bm_closed (remove_all ids b) = bm_closed b"
  "bm_healthReason (remove_all ids b) = bm_healthReason b" "bm_enabled (remove_all ids b) = bm_enabled b"
  "bm_writer (remove_all ids b) = bm_writer b"
  by (induction ids arbitrary: b) simp_all

lemma remove_all_ok: "cache_ok b \<Longrightarrow> cache_ok (remove_all ids b)"
  by (induction ids arbitrary: b) (simp_all add: removeCachedOperation_ok)

lemma lookup_remove_all: "lookup_op (remove_all ids b) i = (if i \<in> set ids then None else lookup_op b i)"
  by (induction ids arbitrary: b) auto

lemma length_filter_delete:
  "distinct (map fst ops) \<Longrightarrow> map_of ops i = Some op \<Longrightarrow>
     int (length (filter (P \<circ> snd) (AList.delete i ops))) = int (length (filter (P \<circ> snd) ops)) - (if P op then 1 else 0)"
proof (induction ops)
  case (Cons kv ops)
  then show ?case
  proof (cases "fst kv = i")
    case True
    then have "map_of ops i = None" using Cons.prems by (auto simp: map_of_eq_None_iff)
    then show ?thesis using True Cons.prems by (cases kv) (auto simp: delete_absent)
  qed (cases kv; auto)
qed simp

lemma cached_reads_remove:
  "cache_ok b \<Longrightarrow> lookup_op b i = Some op \<Longrightarrow>
     cached_reads (removeCachedOperation i b) = cached_reads b - (if is_read op then 1 else 0)"
  by (simp add: cached_reads_def removeCachedOperation_def length_filter_delete cache_ok_def)

section \<open>Trimming\<close>

lemma trim_loop_fits: "fits_cache target reads b \<Longrightarrow> trim_loop target ops reads b = b"
  by (induction ops) simp_all

text \<open>What the loop removes is a prefix of its list: the shortest one after which the limits hold.\<close>

lemma trim_loop_prefix:
  assumes "cache_ok b" "\<And>op. op \<in> set ops \<Longrightarrow> lookup_op b (op_ID op) = Some op \<and> \<not> running op"
    "distinct (map op_ID ops)"
  shows "\<exists>n \<le> length ops. trim_loop target ops (cached_reads b) b = remove_all (map op_ID (take n ops)) b
    \<and> (n = length ops \<or> fits_cache target (cached_reads (trim_loop target ops (cached_reads b) b)) (trim_loop target ops (cached_reads b) b))"
  using assms
proof (induction ops arbitrary: b)
  case (Cons op ops)
  show ?case
  proof (cases "fits_cache target (cached_reads b) b")
    case True
    then have "trim_loop target (op # ops) (cached_reads b) b = b" by (rule trim_loop_fits)
    then show ?thesis using True by (intro exI [of _ 0]) simp
  next
    case False
    let ?b = "removeCachedOperation (op_ID op) b"
    have op: "lookup_op b (op_ID op) = Some op" "\<not> running op" using Cons.prems(2) by auto
    have reads: "(if op_KeyHash op = [] then cached_reads b - 1 else cached_reads b) = cached_reads ?b"
      using cached_reads_remove [OF Cons.prems(1) op(1)] op(2) by (simp add: is_read_def)
    have "lookup_op ?b (op_ID o1) = Some o1 \<and> \<not> running o1" if "o1 \<in> set ops" for o1
      using Cons.prems(2,3) that by (auto simp: image_iff)
    moreover have "distinct (map op_ID ops)" using Cons.prems(3) by simp
    ultimately obtain n where n: "n \<le> length ops" "trim_loop target ops (cached_reads ?b) ?b = remove_all (map op_ID (take n ops)) ?b"
      "n = length ops \<or> fits_cache target (cached_reads (trim_loop target ops (cached_reads ?b) ?b)) (trim_loop target ops (cached_reads ?b) ?b)"
      using Cons.IH [OF removeCachedOperation_ok [OF Cons.prems(1), of "op_ID op"]] by blast
    have step: "trim_loop target (op # ops) (cached_reads b) b = trim_loop target ops (cached_reads ?b) ?b"
      using False reads by simp
    show ?thesis by (rule exI [of _ "Suc n"]) (use n in \<open>simp add: step del: trim_loop.simps\<close>)
  qed
qed simp

lemma completed_set:
  "cache_ok b \<Longrightarrow> op \<in> set (completed_operations b) \<longleftrightarrow> lookup_op b (op_ID op) = Some op \<and> \<not> running op"
  by (force simp: completed_operations_def cache_ok_def map_of_eq_Some_iff)

lemma completed_distinct:
  assumes "cache_ok b"
  shows "distinct (map op_ID (completed_operations b))"
proof -
  have eq: "map op_ID (map snd (bm_operations b)) = map fst (bm_operations b)"
    using assms by (simp add: cache_ok_def split_beta)
  have "distinct (map op_ID (map snd (bm_operations b)))" unfolding eq using assms by (simp add: cache_ok_def)
  then show ?thesis unfolding completed_operations_def distinct_sort_key by (rule distinct_map_filter)
qed

text \<open>Everything a trim does: a prefix of the eviction order goes.\<close>

lemma trimOperations_prefix:
  assumes "cache_ok b"
  shows "\<exists>n. trimOperations lim0 b = remove_all (map op_ID (take n (completed_operations b))) b
    \<and> (0 \<le> lim0 \<longrightarrow> n \<ge> length (completed_operations b) \<or> fits_cache lim0 (cached_reads (trimOperations lim0 b)) (trimOperations lim0 b))"
proof (cases "fits_cache lim0 (cached_reads b) b")
  case True
  then show ?thesis by (intro exI [of _ 0]) (simp add: trimOperations_def)
next
  case False
  let ?t = "if int (length (bm_operations b)) > lim0 then lim0 - lim0 div 8 else lim0"
  obtain n where n: "trim_loop ?t (completed_operations b) (cached_reads b) b = remove_all (map op_ID (take n (completed_operations b))) b"
    "n = length (completed_operations b)
     \<or> fits_cache ?t (cached_reads (trim_loop ?t (completed_operations b) (cached_reads b) b)) (trim_loop ?t (completed_operations b) (cached_reads b) b)"
    using trim_loop_prefix [OF assms _ completed_distinct [OF assms], of ?t] completed_set [OF assms] by blast
  have "fits_cache lim0 r c" if "fits_cache ?t r c" "0 \<le> lim0" for r c
  proof -
    have "0 \<le> lim0 div 8" using that(2) by (simp add: pos_imp_zdiv_nonneg_iff)
    then have "?t \<le> lim0" by simp
    then show ?thesis using that(1) unfolding fits_cache_def by linarith
  qed
  then show ?thesis using n False by (intro exI [of _ n]) (auto simp: trimOperations_def)
qed

lemma trim_ok: "cache_ok b \<Longrightarrow> cache_ok (trimOperations lim0 b)"
  using trimOperations_prefix [of b lim0] remove_all_ok by metis

lemma trim_loop_rest [simp]:
  "bm_journal (trim_loop target ops reads b) = bm_journal b" "bm_closed (trim_loop target ops reads b) = bm_closed b"
  "bm_healthReason (trim_loop target ops reads b) = bm_healthReason b"
  "bm_enabled (trim_loop target ops reads b) = bm_enabled b" "bm_writer (trim_loop target ops reads b) = bm_writer b"
  by (induction ops arbitrary: reads b) simp_all

lemma trim_rest [simp]:
  "bm_journal (trimOperations lim0 b) = bm_journal b" "bm_closed (trimOperations lim0 b) = bm_closed b"
  "bm_healthReason (trimOperations lim0 b) = bm_healthReason b" "bm_enabled (trimOperations lim0 b) = bm_enabled b"
  "bm_writer (trimOperations lim0 b) = bm_writer b"
  by (simp_all add: trimOperations_def)

lemma trim_lookup:
  assumes "cache_ok b"
  shows "lookup_op (trimOperations lim0 b) i = lookup_op b i
    \<or> lookup_op (trimOperations lim0 b) i = None \<and> (\<exists>op. lookup_op b i = Some op \<and> \<not> running op)"
proof -
  obtain n where n: "trimOperations lim0 b = remove_all (map op_ID (take n (completed_operations b))) b"
    using trimOperations_prefix [OF assms] by blast
  show ?thesis
  proof (cases "i \<in> set (map op_ID (take n (completed_operations b)))")
    case True
    then obtain op where "op \<in> set (completed_operations b)" "op_ID op = i" by (auto dest: in_set_takeD)
    then show ?thesis using True completed_set [OF assms] unfolding n lookup_remove_all by auto
  qed (simp only: n lookup_remove_all if_False simp_thms)
qed

lemma take_sorted_le:
  "sorted (map f xs) \<Longrightarrow> x \<in> set (take n xs) \<Longrightarrow> y \<in> set (drop n xs) \<Longrightarrow> f x \<le> f y"
  using sorted_append [of "map f (take n xs)" "map f (drop n xs)"] by (simp flip: map_append)

text \<open>Trimming the cache of results drops no operation that still runs and changes none; afterwards the number of
  results, the reads among them and their bytes are within their limits unless only running operations are left;
  and it gives results up in order, so that no recorded mutation goes while a finished read is kept and no result
  goes before an older one of its kind. The retry index is not touched, and the byte count stays the sum.\<close>

theorem trim_evicts_in_order:
  assumes "cache_ok b" "0 \<le> lim0"
  defines "b1 \<equiv> trimOperations lim0 b"
  shows "cache_ok b1 \<and> bm_journal b1 = bm_journal b
    \<and> (\<forall>i op. lookup_op b i = Some op \<and> running op \<longrightarrow> lookup_op b1 i = Some op)
    \<and> (\<forall>i op. lookup_op b1 i = Some op \<longrightarrow> lookup_op b i = Some op)
    \<and> (int (length (bm_operations b1)) \<le> lim0 \<and> cached_reads b1 \<le> browserOperationReadMax
         \<and> bm_cacheBytes b1 \<le> browserOperationCacheBytesMax
       \<or> (\<forall>i op. lookup_op b1 i = Some op \<longrightarrow> running op))
    \<and> (\<forall>i gone j kept. lookup_op b i = Some gone \<and> lookup_op b1 i = None \<and> lookup_op b1 j = Some kept \<and> \<not> running kept \<longrightarrow>
         eviction_key gone \<le> eviction_key kept)"
proof -
  let ?c = "completed_operations b"
  obtain n where n: "b1 = remove_all (map op_ID (take n ?c)) b"
    and fit: "n \<ge> length ?c \<or> fits_cache lim0 (cached_reads b1) b1"
    using trimOperations_prefix [OF assms(1), of lim0] assms(2) unfolding b1_def by blast
  note look = trim_lookup [OF assms(1), of lim0, folded b1_def]
  have all: "running op" if "n \<ge> length ?c" "lookup_op b1 i = Some op" for i op
  proof (rule ccontr)
    assume "\<not> running op"
    moreover have "lookup_op b i = Some op" using that(2) look [of i] by auto
    moreover have "op_ID op = i" by (rule lookup_ID [OF assms(1)]) fact
    ultimately have "op \<in> set ?c" using completed_set [OF assms(1)] by blast
    then have "i \<in> set (map op_ID (take n ?c))" using that(1) \<open>op_ID op = i\<close> by auto
    then show False using that(2) unfolding n lookup_remove_all by simp
  qed
  have order: "eviction_key gone \<le> eviction_key kept"
    if g: "lookup_op b i = Some gone" "lookup_op b1 i = None" and k: "lookup_op b1 j = Some kept" "\<not> running kept" for i gone j kept
  proof -
    have "i \<in> set (map op_ID (take n ?c))" using g unfolding n lookup_remove_all by (simp split: if_split_asm)
    then obtain op where op: "op \<in> set (take n ?c)" "op_ID op = i" by auto
    then have "lookup_op b i = Some op" using completed_set [OF assms(1)] in_set_takeD by metis
    then have gone: "gone \<in> set (take n ?c)" using g(1) op(1) by simp
    have kb: "lookup_op b j = Some kept" using k(1) look [of j] by auto
    have kid: "op_ID kept = j" by (rule lookup_ID [OF assms(1) kb])
    then have "kept \<in> set ?c" using kb k(2) completed_set [OF assms(1)] by blast
    moreover have "kept \<notin> set (take n ?c)" using k(1) kid unfolding n lookup_remove_all by (auto split: if_split_asm)
    ultimately have "kept \<in> set (drop n ?c)" using append_take_drop_id [of n ?c] set_append by (metis Un_iff)
    moreover have "sorted (map eviction_key ?c)" by (simp add: completed_operations_def)
    ultimately show ?thesis by (intro take_sorted_le [OF _ gone])
  qed
  have "int (length (bm_operations b1)) \<le> lim0 \<and> cached_reads b1 \<le> browserOperationReadMax
         \<and> bm_cacheBytes b1 \<le> browserOperationCacheBytesMax
       \<or> (\<forall>i op. lookup_op b1 i = Some op \<longrightarrow> running op)"
    using fit all by (auto simp: fits_cache_def)
  moreover have "lookup_op b1 i = Some op" if "lookup_op b i = Some op" "running op" for i op using look [of i] that by auto
  moreover have "lookup_op b i = Some op" if "lookup_op b1 i = Some op" for i op using look [of i] that by auto
  moreover have "cache_ok b1" "bm_journal b1 = bm_journal b" using trim_ok [OF assms(1)] by (simp_all add: b1_def)
  ultimately show ?thesis using order by blast
qed

definition example_cache :: browserManager where
  "example_cache = (browserEmptyManager True)\<lparr>bm_operations :=
     [(''a'', (new_operation ''a'' ''k'' [] 5)\<lparr>op_Status := ''completed'', op_cacheBytes := 10\<rparr>),
      (''b'', (new_operation ''b'' [] [] 9)\<lparr>op_Status := ''completed'', op_cacheBytes := 20\<rparr>),
      (''c'', (new_operation ''c'' [] [] 1)\<lparr>op_cacheBytes := 30\<rparr>)], bm_cacheBytes := 60\<rparr>"

theorem trim_evicts_in_order_witness:
  "cache_ok example_cache \<and> (\<exists>op. lookup_op (trimOperations 2 example_cache) ''c'' = Some op \<and> running op)
   \<and> (lookup_op (trimOperations 2 example_cache) ''a'' = None \<or> int (length (bm_operations (trimOperations 2 example_cache))) \<le> 2)"
proof -
  let ?b = "trimOperations 2 example_cache"
  have ok: "cache_ok example_cache" by (simp add: cache_ok_def cached_bytes_def example_cache_def new_operation_def)
  have c: "lookup_op example_cache ''c'' = Some ((new_operation ''c'' [] [] 1)\<lparr>op_cacheBytes := 30\<rparr>)"
    "running ((new_operation ''c'' [] [] 1)\<lparr>op_cacheBytes := 30\<rparr>)" by (simp_all add: example_cache_def new_operation_def)
  have a: "\<not> running op" if "lookup_op example_cache ''a'' = Some op" for op
    using that by (auto simp: example_cache_def new_operation_def)
  note t = trim_evicts_in_order [OF ok, of 2, OF zero_le_numeral, THEN conjunct2, THEN conjunct2]
  note kept = conjunct1 [OF t] and size = conjunct1 [OF conjunct2 [OF conjunct2 [OF t]]] and sub = conjunct1 [OF conjunct2 [OF t]]
  have "lookup_op ?b ''c'' = Some ((new_operation ''c'' [] [] 1)\<lparr>op_cacheBytes := 30\<rparr>)" using kept c by blast
  moreover have "int (length (bm_operations ?b)) \<le> 2" if "lookup_op ?b ''a'' = Some op" for op
    using size sub that a by blast
  ultimately show ?thesis using ok c(2) by (cases "lookup_op ?b ''a''") blast+
qed

end
