(* ===== verification/OperationRun.thy ===== *)
theory OperationRun
  imports OperationCache
begin

text \<open>
  Runs of the browser manager: calls that interleave, the writes of the journal, the periodic clean-up, the end of
  operations, and crashes after which the journal is read again.
\<close>

section \<open>Steps\<close>

text \<open>
  An execution is the key, the id and the admission time of an operation that was started on the page. \<open>br_pending\<close>
  are the operations that wait for their reservation to be written, \<open>br_life\<close> the mutations admitted since the
  agent started, and \<open>br_live\<close> whether the journal could be read then.
\<close>

type_synonym execution = "string \<times> string \<times> time"

record browserRun =
  br_mgr :: browserManager
  br_disk :: journalDir
  br_clock :: time
  br_pending :: "browserOperation list"
  br_used :: "string list"
  br_life :: "execution list"
  br_live :: bool
  br_executed :: "execution list"

definition new_browserRun :: "time \<Rightarrow> browserRun" where
  "new_browserRun now =
    \<lparr>br_mgr = browserEmptyManager True, br_disk = [], br_clock = now, br_pending = [], br_used = [], br_life = [],
     br_live = True, br_executed = []\<rparr>"

definition execution_of :: "browserOperation \<Rightarrow> execution" where
  "execution_of op = (op_KeyHash op, op_ID op, op_At op)"

text \<open>Identifiers are random: a new one occurs nowhere.\<close>

definition fresh_id :: "string \<Rightarrow> browserRun \<Rightarrow> bool" where
  "fresh_id i r \<longleftrightarrow> browserOperationID i \<and> i \<notin> set (br_used r) \<and> map_of (br_disk r) (journal_name i) = None
    \<and> i \<notin> je_ID ` ran (map_of (bm_journal (br_mgr r))) \<and> lookup_op (br_mgr r) i = None"

definition storable :: "opEncoder \<Rightarrow> browserOperation \<Rightarrow> bool" where
  "storable enc op \<longleftrightarrow> (case enc_op enc op of None \<Rightarrow> False | Some n \<Rightarrow> n \<le> browserJournalRecordMax)"

inductive op_step :: "opEncoder \<Rightarrow> browserRun \<Rightarrow> browserRun \<Rightarrow> bool" for enc where
  admitted: "br_clock r \<le> now \<Longrightarrow> fresh_id i r \<Longrightarrow> bm_enabled (br_mgr r) \<Longrightarrow>
    admit enc fault stuck now i (keyHash \<noteq> []) keyHash hash (br_mgr r, br_disk r) = (Start op slot, b, d) \<Longrightarrow>
    op_step enc r (r\<lparr>br_mgr := b, br_disk := d, br_clock := now, br_pending := op # br_pending r,
      br_used := i # br_used r, br_life := (if keyHash \<noteq> [] then [(keyHash, i, now)] else []) @ br_life r\<rparr>)"
| answered: "br_clock r \<le> now \<Longrightarrow> bm_enabled (br_mgr r) \<Longrightarrow>
    admit enc fault stuck now i (keyHash \<noteq> []) keyHash hash (br_mgr r, br_disk r) = (a, b, d) \<Longrightarrow>
    (\<forall>op slot. a \<noteq> Start op slot) \<Longrightarrow>
    op_step enc r (r\<lparr>br_mgr := b, br_disk := d, br_clock := now\<rparr>)"
| executes: "op \<in> set (br_pending r) \<Longrightarrow> op_KeyHash op \<noteq> [] \<longrightarrow> storable enc op \<Longrightarrow>
    op_step enc r (r\<lparr>br_disk := (if op_KeyHash op \<noteq> [] then write_record enc op (br_disk r) else br_disk r),
      br_pending := removeAll op (br_pending r), br_executed := execution_of op # br_executed r\<rparr>)"
| not_reserved: "op \<in> set (br_pending r) \<Longrightarrow> op_step enc r (r\<lparr>br_pending := removeAll op (br_pending r)\<rparr>)"
| written_late: "execution_of op \<in> set (br_life r) \<Longrightarrow> storable enc op \<Longrightarrow>
    op_step enc r (r\<lparr>br_disk := write_record enc op (br_disk r)\<rparr>)"
| finished: "lookup_op (br_mgr r) (op_ID op) = Some op \<Longrightarrow> running op \<Longrightarrow> op_ID op \<notin> op_ID ` set (br_pending r) \<Longrightarrow>
    op_KeyHash op \<noteq> [] \<longrightarrow> execution_of op \<in> set (br_life r) \<Longrightarrow>
    finishBrowserOperation enc written ended dispatched args outcome op (br_mgr r, br_disk r) = (b, d) \<Longrightarrow>
    op_step enc r (r\<lparr>br_mgr := b, br_disk := d\<rparr>)"
| cleaned: "br_clock r \<le> now \<Longrightarrow> operation_cleanup stuck now (br_mgr r, br_disk r) = (b, d) \<Longrightarrow>
    op_step enc r (r\<lparr>br_mgr := b, br_disk := d, br_clock := now\<rparr>)"
| restarted: "br_clock r \<le> now \<Longrightarrow> newBrowserManager enc fault stuck setup enabled now (br_disk r) = (out, d) \<Longrightarrow>
    op_step enc r (r\<lparr>br_mgr := (case out of Inr b \<Rightarrow> b | Inl e \<Rightarrow> browserDegradedManager e), br_disk := d, br_clock := now,
      br_pending := [], br_life := [], br_live := (enabled \<and> (\<exists>b. out = Inr b))\<rparr>)"
| shut_down: "op_step enc r (r\<lparr>br_mgr := (br_mgr r)\<lparr>bm_closed := True\<rparr>\<rparr>)"
| background: "op_step enc r (r\<lparr>br_mgr := (br_mgr r)\<lparr>bm_pendingCleanups := cs, bm_writer := w\<rparr>\<rparr>)"

section \<open>What expiry changes\<close>

abbreviation entry_of :: "browserManager \<Rightarrow> string \<Rightarrow> browserJournalEntry option" where
  "entry_of b \<equiv> map_of (bm_journal b)"

abbreviation expired_at :: "time \<Rightarrow> time \<Rightarrow> bool" where
  "expired_at now t0 \<equiv> now - t0 > browserOperationTTL"

definition runs :: "browserManager \<Rightarrow> string \<Rightarrow> bool" where
  "runs b i \<longleftrightarrow> (\<exists>op. lookup_op b i = Some op \<and> running op)"

text \<open>Nothing changes but what has expired and does not run; results leave the cache only when they are complete.\<close>

definition shrinks :: "time \<Rightarrow> browserManager \<times> journalDir \<Rightarrow> browserManager \<times> journalDir \<Rightarrow> bool" where
  "shrinks now bd bd1 \<longleftrightarrow>
     (let (b, d) = bd; (b1, d1) = bd1 in
      cache_ok b1 \<and> distinct (map fst (bm_journal b1))
    \<and> bm_enabled b1 = bm_enabled b \<and> bm_healthReason b1 = bm_healthReason b \<and> bm_closed b1 = bm_closed b
    \<and> (\<forall>k. entry_of b1 k = entry_of b k
        \<or> entry_of b1 k = None \<and> (\<exists>e. entry_of b k = Some e \<and> expired_at now (je_At e) \<and> \<not> runs b (je_ID e)))
    \<and> (\<forall>name. map_of d1 name = map_of d name
        \<or> map_of d1 name = None \<and> (\<exists>k e. entry_of b k = Some e \<and> name = journal_name (je_ID e) \<and> expired_at now (je_At e)))
    \<and> (\<forall>i. runs b i \<longrightarrow> lookup_op b1 i = lookup_op b i)
    \<and> (\<forall>i op. lookup_op b1 i = Some op \<longrightarrow> lookup_op b i = Some op))"

lemma shrinksD:
  assumes "shrinks now (b, d) (b1, d1)"
  shows "cache_ok b1" "distinct (map fst (bm_journal b1))"
    "bm_enabled b1 = bm_enabled b" "bm_healthReason b1 = bm_healthReason b" "bm_closed b1 = bm_closed b"
    "entry_of b1 k = entry_of b k
        \<or> entry_of b1 k = None \<and> (\<exists>e. entry_of b k = Some e \<and> expired_at now (je_At e) \<and> \<not> runs b (je_ID e))"
    "map_of d1 name = map_of d name
        \<or> map_of d1 name = None \<and> (\<exists>k e. entry_of b k = Some e \<and> name = journal_name (je_ID e) \<and> expired_at now (je_At e))"
    "runs b i \<Longrightarrow> lookup_op b1 i = lookup_op b i"
    "lookup_op b1 i = Some op \<Longrightarrow> lookup_op b i = Some op"
proof -
  note c1 = assms [unfolded shrinks_def prod.case Let_def]
  note c2 = conjunct2 [OF c1] note c3 = conjunct2 [OF c2] note c4 = conjunct2 [OF c3] note c5 = conjunct2 [OF c4]
  note c6 = conjunct2 [OF c5] note c7 = conjunct2 [OF c6] note c8 = conjunct2 [OF c7] note c9 = conjunct2 [OF c8]
  show "cache_ok b1" "distinct (map fst (bm_journal b1))"
    "bm_enabled b1 = bm_enabled b" "bm_healthReason b1 = bm_healthReason b" "bm_closed b1 = bm_closed b"
    by (rule conjunct1 [OF c1], rule conjunct1 [OF c2], rule conjunct1 [OF c3], rule conjunct1 [OF c4], rule conjunct1 [OF c5])
  show "entry_of b1 k = entry_of b k
        \<or> entry_of b1 k = None \<and> (\<exists>e. entry_of b k = Some e \<and> expired_at now (je_At e) \<and> \<not> runs b (je_ID e))"
    by (rule spec [OF conjunct1 [OF c6]])
  show "map_of d1 name = map_of d name
        \<or> map_of d1 name = None \<and> (\<exists>k e. entry_of b k = Some e \<and> name = journal_name (je_ID e) \<and> expired_at now (je_At e))"
    by (rule spec [OF conjunct1 [OF c7]])
  show "runs b i \<Longrightarrow> lookup_op b1 i = lookup_op b i"
    by (rule mp [OF spec [OF conjunct1 [OF c8]]])
  show "lookup_op b1 i = Some op \<Longrightarrow> lookup_op b i = Some op"
    by (rule mp [OF spec [OF spec [OF c9]]])
qed

lemma shrinksI:
  assumes "cache_ok b1" "distinct (map fst (bm_journal b1))"
    "bm_enabled b1 = bm_enabled b" "bm_healthReason b1 = bm_healthReason b" "bm_closed b1 = bm_closed b"
    "\<And>k. entry_of b1 k = entry_of b k
        \<or> entry_of b1 k = None \<and> (\<exists>e. entry_of b k = Some e \<and> expired_at now (je_At e) \<and> \<not> runs b (je_ID e))"
    "\<And>name. map_of d1 name = map_of d name
        \<or> map_of d1 name = None \<and> (\<exists>k e. entry_of b k = Some e \<and> name = journal_name (je_ID e) \<and> expired_at now (je_At e))"
    "\<And>i. runs b i \<Longrightarrow> lookup_op b1 i = lookup_op b i"
    "\<And>i op. lookup_op b1 i = Some op \<Longrightarrow> lookup_op b i = Some op"
  shows "shrinks now (b, d) (b1, d1)"
  unfolding shrinks_def prod.case Let_def by (intro conjI allI impI assms)

lemma shrinks_refl: "cache_ok b \<Longrightarrow> distinct (map fst (bm_journal b)) \<Longrightarrow> shrinks now (b, d) (b, d)"
  by (rule shrinksI) simp_all

text \<open>A change of the cache alone that keeps what runs.\<close>

lemma shrinks_cache:
  assumes "shrinks now (b, d) (b1, d1)" "cache_ok b2"
    "bm_journal b2 = bm_journal b1" "bm_enabled b2 = bm_enabled b1" "bm_healthReason b2 = bm_healthReason b1" "bm_closed b2 = bm_closed b1"
    "\<And>i. runs b1 i \<Longrightarrow> lookup_op b2 i = lookup_op b1 i"
    "\<And>i op. lookup_op b2 i = Some op \<Longrightarrow> lookup_op b1 i = Some op"
  shows "shrinks now (b, d) (b2, d1)"
proof (rule shrinksI)
  note D = shrinksD [OF assms(1)]
  show "cache_ok b2" by (rule assms(2))
  show "distinct (map fst (bm_journal b2))" unfolding assms(3) by (rule D(2))
  show "bm_enabled b2 = bm_enabled b" "bm_healthReason b2 = bm_healthReason b" "bm_closed b2 = bm_closed b"
    unfolding assms(4-6) by (rule D(3-5))+
  show "entry_of b2 k = entry_of b k
        \<or> entry_of b2 k = None \<and> (\<exists>e. entry_of b k = Some e \<and> expired_at now (je_At e) \<and> \<not> runs b (je_ID e))" for k
    unfolding assms(3) by (rule D(6))
  show "map_of d1 name = map_of d name
        \<or> map_of d1 name = None \<and> (\<exists>k e. entry_of b k = Some e \<and> name = journal_name (je_ID e) \<and> expired_at now (je_At e))" for name
    by (rule D(7))
  show "lookup_op b2 i = lookup_op b i" if "runs b i" for i
    using assms(7) [of i] D(8) [OF that] that by (auto simp: runs_def)
  show "lookup_op b i = Some op" if "lookup_op b2 i = Some op" for i op
    by (rule D(9) [OF assms(8) [OF that]])
qed

lemma shrinks_trim: "shrinks now (b, d) (b1, d1) \<Longrightarrow> shrinks now (b, d) (trimOperations lim0 b1, d1)"
proof (rule shrinks_cache)
  assume s: "shrinks now (b, d) (b1, d1)"
  note ok = shrinksD(1) [OF s]
  show "cache_ok (trimOperations lim0 b1)" by (rule trim_ok [OF ok])
  show "lookup_op (trimOperations lim0 b1) i = lookup_op b1 i" if "runs b1 i" for i
    using trim_lookup [OF ok, of lim0 i] that by (auto simp: runs_def)
  show "lookup_op b1 i = Some op" if "lookup_op (trimOperations lim0 b1) i = Some op" for i op
    using trim_lookup [OF ok, of lim0 i] that by auto
qed simp_all

lemma shrinks_remove_all:
  "shrinks now (b, d) (b1, d1) \<Longrightarrow> (\<And>i. i \<in> set ids \<Longrightarrow> \<not> runs b1 i) \<Longrightarrow> shrinks now (b, d) (remove_all ids b1, d1)"
proof (rule shrinks_cache)
  assume s: "shrinks now (b, d) (b1, d1)" and ids: "\<And>i. i \<in> set ids \<Longrightarrow> \<not> runs b1 i"
  show "cache_ok (remove_all ids b1)" by (rule remove_all_ok [OF shrinksD(1) [OF s]])
  show "lookup_op (remove_all ids b1) i = lookup_op b1 i" if "runs b1 i" for i
    using ids that by (auto simp: lookup_remove_all)
  show "lookup_op b1 i = Some op" if "lookup_op (remove_all ids b1) i = Some op" for i op
    using that by (auto simp: lookup_remove_all split: if_splits)
qed simp_all

lemma shrinks_writer: "shrinks now (b, d) (b1, d1) \<Longrightarrow> shrinks now (b, d) (b1\<lparr>bm_writer := w\<rparr>, d1)"
proof -
  assume s: "shrinks now (b, d) (b1, d1)"
  have "cache_ok (b1\<lparr>bm_writer := w\<rparr>)" using shrinksD(1) [OF s] by (simp add: cache_ok_def)
  then show ?thesis by (intro shrinks_cache [OF s]) simp_all
qed

lemma shrinks_cleanups: "shrinks now (b\<lparr>bm_pendingCleanups := cs\<rparr>, d) (b1, d1) \<longleftrightarrow> shrinks now (b, d) (b1, d1)"
  by (simp add: shrinks_def runs_def)

lemma expire_entry:
  assumes "shrinks now (b0, d0) (b, d)" "entry_of b key = Some entry" "expired_at now (je_At entry)" "\<not> runs b (je_ID entry)"
  shows "shrinks now (b0, d0) (removeCachedOperation (je_ID entry) (b\<lparr>bm_journal := AList.delete key (bm_journal b)\<rparr>),
    AList.delete (journal_name (je_ID entry)) d)"
proof -
  let ?b = "removeCachedOperation (je_ID entry) (b\<lparr>bm_journal := AList.delete key (bm_journal b)\<rparr>)"
  note s = shrinksD [OF assms(1)]
  have e0: "entry_of b0 key = Some entry" using s(6) [of key] assms(2) by auto
  have nr: "\<not> runs b0 (je_ID entry)"
  proof
    assume run: "runs b0 (je_ID entry)"
    then show False using assms(4) s(8) [OF run] unfolding runs_def by simp
  qed
  have ok: "cache_ok (b\<lparr>bm_journal := AList.delete key (bm_journal b)\<rparr>)" using s(1) by (simp add: cache_ok_def)
  show ?thesis
  proof (rule shrinksI)
    show "cache_ok ?b" by (rule removeCachedOperation_ok [OF ok])
    show "distinct (map fst (bm_journal ?b))" using s(2) by (simp add: distinct_delete)
    show "bm_enabled ?b = bm_enabled b0" "bm_healthReason ?b = bm_healthReason b0" "bm_closed ?b = bm_closed b0"
      using s(3-5) by simp_all
    show "entry_of ?b k = entry_of b0 k
        \<or> entry_of ?b k = None \<and> (\<exists>e. entry_of b0 k = Some e \<and> expired_at now (je_At e) \<and> \<not> runs b0 (je_ID e))" for k
      using s(6) [of k] e0 assms(3) nr by simp
    show "map_of (AList.delete (journal_name (je_ID entry)) d) name = map_of d0 name
      \<or> map_of (AList.delete (journal_name (je_ID entry)) d) name = None
        \<and> (\<exists>k e. entry_of b0 k = Some e \<and> name = journal_name (je_ID e) \<and> expired_at now (je_At e))" for name
    proof (cases "name = journal_name (je_ID entry)")
      case True
      then show ?thesis using e0 assms(3) by auto
    next
      case False
      then show ?thesis using s(7) [of name] by simp
    qed
    show "lookup_op ?b i = lookup_op b0 i" if "runs b0 i" for i
      using that s(8) [OF that] nr by (cases "i = je_ID entry") simp_all
    show "lookup_op b0 i = Some op" if "lookup_op ?b i = Some op" for i op
      using that s(9) [of i op] by (cases "i = je_ID entry") simp_all
  qed
qed

lemma expire_journal_shrinks:
  assumes "shrinks now (b0, d0) bd" "\<And>key entry. (key, entry) \<in> set js \<Longrightarrow> entry_of (fst bd) key = Some entry" "distinct (map fst js)"
  shows "shrinks now (b0, d0) (snd (expire_journal stuck now js bd))"
  using assms
proof (induction stuck now js bd rule: expire_journal.induct)
  case (2 stuck now key entry rest b disk)
  have dist: "distinct (map fst rest)" using 2(5) by simp
  show ?case
  proof (cases "now - je_At entry \<le> browserOperationTTL \<or> runs b (je_ID entry)")
    case True
    then have skip: "now - je_At entry \<le> browserOperationTTL
        \<or> (case map_of (bm_operations b) (je_ID entry) of None \<Rightarrow> False | Some op \<Rightarrow> running op)"
      by (auto simp: runs_def)
    then have "shrinks now (b0, d0) (snd (expire_journal stuck now rest (b, disk)))"
      using 2(1) [OF skip 2(3) _ dist] 2(4) by auto
    then show ?thesis using skip by simp
  next
    case False
    then have go: "\<not> (now - je_At entry \<le> browserOperationTTL
        \<or> (case map_of (bm_operations b) (je_ID entry) of None \<Rightarrow> False | Some op \<Rightarrow> running op))"
      by (auto simp: runs_def split: option.splits)
    show ?thesis
    proof (cases "stuck (journal_name (je_ID entry)) \<and> map_of disk (journal_name (je_ID entry)) \<noteq> None")
      case True
      then show ?thesis using go 2(3) by simp
    next
      case no: False
      let ?b = "removeCachedOperation (je_ID entry) (b\<lparr>bm_journal := AList.delete key (bm_journal b)\<rparr>)"
      have "shrinks now (b0, d0) (?b, AList.delete (journal_name (je_ID entry)) disk)"
        using expire_entry [of now b0 d0 b disk key entry] 2(3) 2(4) [of key entry] False by simp
      moreover have "entry_of ?b k = Some e" if "(k, e) \<in> set rest" for k e
      proof -
        have "k \<noteq> key" using that 2(5) by force
        then show ?thesis using 2(4) [of k e] that by simp
      qed
      ultimately have "shrinks now (b0, d0) (snd (expire_journal stuck now rest (?b, AList.delete (journal_name (je_ID entry)) disk)))"
        using 2(2) [OF go no _ _ dist] by simp
      moreover have "expire_journal stuck now ((key, entry) # rest) (b, disk) =
          expire_journal stuck now rest (?b, AList.delete (journal_name (je_ID entry)) disk)"
        by (simp only: expire_journal.simps if_not_P [OF go] if_not_P [OF no])
      ultimately show ?thesis by simp
    qed
  qed
qed simp

lemma expired_results_done: "cache_ok b \<Longrightarrow> i \<in> set (expired_results now b) \<Longrightarrow> \<not> runs b i"
  using lookup_member by (fastforce simp: expired_results_def runs_def)

lemma expireOperations_shrinks:
  assumes "cache_ok b" "distinct (map fst (bm_journal b))" "expireOperations stuck now (b, d) = (ok, b1, d1)"
  shows "shrinks now (b, d) (b1, d1)"
proof -
  obtain ok0 b0 d0 where e: "expire_journal stuck now (bm_journal b) (b, d) = (ok0, b0, d0)" by (metis prod_cases3)
  have "shrinks now (b, d) (snd (expire_journal stuck now (bm_journal b) (b, d)))"
    by (rule expire_journal_shrinks [OF shrinks_refl [OF assms(1,2)]]) (simp_all add: assms(2))
  then have s: "shrinks now (b, d) (b0, d0)" by (simp add: e)
  then have "cache_ok b0" by (rule shrinksD(1))
  then have "shrinks now (b, d) (remove_all (expired_results now b0) b0, d0)"
    using shrinks_remove_all [OF s] expired_results_done by blast
  then show ?thesis using assms(3) s by (cases ok0) (auto simp: expireOperations_def e remove_all_def)
qed

lemma operation_cleanup_shrinks:
  assumes "cache_ok b" "distinct (map fst (bm_journal b))" "operation_cleanup stuck now (b, d) = (b1, d1)"
  shows "shrinks now (b, d) (b1, d1)"
proof -
  obtain ok b0 d0 where e: "expireOperations stuck now (b, d) = (ok, b0, d0)" by (metis prod_cases3)
  show ?thesis using shrinks_trim [OF expireOperations_shrinks [OF assms(1,2) e]] assms(3)
    by (auto simp: operation_cleanup_def e)
qed

section \<open>Admission\<close>

lemma lookup_retry_shrinks:
  assumes "cache_ok b" "distinct (map fst (bm_journal b))" "lookup_retry fault stuck now keyHash hash (b, d) = (answer, b1, d1)"
  shows "shrinks now (b, d) (b1, d1) \<and> (answer = None \<longrightarrow> entry_of b1 keyHash = None) \<and> (\<forall>op slot. answer \<noteq> Some (Start op slot))"
proof -
  let ?x = "case entry_of b keyHash of None \<Rightarrow> False | Some entry \<Rightarrow> expired_at now (je_At entry)"
  obtain ok b0 d0 where e: "(if ?x then expireOperations stuck now (b, d) else (True, b, d)) = (ok, b0, d0)" by (metis prod_cases3)
  have s: "shrinks now (b, d) (b0, d0)"
  proof (cases ?x)
    case True
    then show ?thesis using expireOperations_shrinks [OF assms(1,2)] e by simp
  next
    case False
    then have "b0 = b" "d0 = d" using e by auto
    then show ?thesis using shrinks_refl [OF assms(1,2)] by simp
  qed
  have "lookup_retry fault stuck now keyHash hash (b, d) =
    (if \<not> ok then (Some (Refuse (toolErr ''io_error'' ''expire browser retry journal'')), b0, d0)
        else (case map_of (bm_journal b0) keyHash of
                None \<Rightarrow> (None, b0, d0)
              | Some entry \<Rightarrow>
                 (case loadOperation fault now d0 (je_ID entry) b0 of
                    Inl _ \<Rightarrow> (Some (Refuse (toolErr ''io_error'' ''read browser retry journal'')), b0, d0)
                  | Inr op \<Rightarrow>
                      (Some (if op_Hash op \<noteq> hash
                             then Refuse (toolErr ''request_key_conflict'' ''key was used with different arguments'')
                             else Replay op), b0, d0))))"
    unfolding lookup_retry_def fst_conv Let_def e by simp
  then show ?thesis using assms(3) s by (auto split: if_splits option.splits sum.splits)
qed

lemma start_operation_cases:
  assumes "start_operation enc i keyHash hash now b = (a, b1)"
  shows "(\<exists>e. a = Refuse e \<and> b1 = b)
    \<or> (\<exists>slot w. a = Start (new_operation i keyHash hash now) slot
        \<and> b1 = cacheOperation enc (new_operation i keyHash hash now)
            ((trimOperations (browserOperationCacheMax - 1) (b\<lparr>bm_writer := w\<rparr>))
               \<lparr>bm_journal := (if keyHash \<noteq> [] then AList.update keyHash \<lparr>je_ID = i, je_At = now\<rparr> (bm_journal b) else bm_journal b)\<rparr>))"
proof (cases "length (filter (running \<circ> snd) (bm_operations b)) \<ge> browserOperationRunningMax")
  case True
  then show ?thesis using assms by (auto simp: start_operation_def)
next
  case False
  obtain slot w where w: "(if keyHash \<noteq> [] then tryReserve (bm_writer b) else (None, bm_writer b)) = (slot, w)" by fastforce
  show ?thesis
  proof (cases "keyHash \<noteq> [] \<and> slot = None")
    case True
    then show ?thesis
      using assms unfolding start_operation_def Let_def w prod.case if_not_P [OF False] if_P [OF True] by auto
  next
    case go: False
    let ?t = "trimOperations (browserOperationCacheMax - 1) (b\<lparr>bm_writer := w\<rparr>)"
    have "?t\<lparr>bm_journal := bm_journal ?t\<rparr> = ?t" by (rule browserManager.surjective [THEN trans, symmetric]) simp
    then have t: "?t\<lparr>bm_journal := bm_journal b\<rparr> = ?t" by simp
    have "a = Start (new_operation i keyHash hash now) slot
      \<and> b1 = cacheOperation enc (new_operation i keyHash hash now)
            (if keyHash \<noteq> [] then ?t\<lparr>bm_journal := AList.update keyHash \<lparr>je_ID = i, je_At = now\<rparr> (bm_journal b)\<rparr> else ?t)"
      using assms unfolding start_operation_def Let_def w prod.case if_not_P [OF False] if_not_P [OF go] by (cases "keyHash = []") auto
    then show ?thesis by (intro disjI2 exI [of _ slot] exI [of _ w]) (simp add: t)
  qed
qed

text \<open>Every admission: expiry, and for a new operation its entry in the cache and, with a key, in the index.\<close>

lemma admit_cases:
  assumes "cache_ok b" "distinct (map fst (bm_journal b))"
    "admit enc fault stuck now i mutation keyHash hash (b, d) = (a, b1, d1)"
  shows "(shrinks now (b, d) (b1, d1) \<and> (\<forall>op slot. a \<noteq> Start op slot))
    \<or> (\<exists>slot bm. a = Start (new_operation i keyHash hash now) slot \<and> shrinks now (b, d) (bm, d1)
        \<and> (mutation \<longrightarrow> bm_healthReason b = [])
        \<and> (keyHash \<noteq> [] \<longrightarrow> entry_of bm keyHash = None)
        \<and> b1 = cacheOperation enc (new_operation i keyHash hash now)
            (bm\<lparr>bm_journal := (if keyHash \<noteq> [] then AList.update keyHash \<lparr>je_ID = i, je_At = now\<rparr> (bm_journal bm) else bm_journal bm)\<rparr>))"
proof -
  obtain pending b0 where p: "(if mutation then cleanupsPendingLocked b else (False, b)) = (pending, b0)" by fastforce
  have b0: "b0 = b\<lparr>bm_pendingCleanups := bm_pendingCleanups b0\<rparr>" using p by (auto simp: cleanupsPendingLocked_def Let_def split: if_splits)
  have same: "shrinks now (b, d) (bx, dx) = shrinks now (b0, d) (bx, dx)" for bx dx
    by (subst b0) (rule shrinks_cleanups [symmetric])
  have ok0: "cache_ok b0" "distinct (map fst (bm_journal b0))"
    using assms(1,2) by (subst b0, simp add: cache_ok_def)+
  obtain answer b2 d2 where l: "(if keyHash \<noteq> [] then lookup_retry fault stuck now keyHash hash (b0, d) else (None, b0, d)) = (answer, b2, d2)"
    by (metis prod_cases3)
  have look: "shrinks now (b, d) (b2, d2) \<and> (answer = None \<longrightarrow> keyHash \<noteq> [] \<longrightarrow> entry_of b2 keyHash = None)
      \<and> (\<forall>op slot. answer \<noteq> Some (Start op slot))"
    using lookup_retry_shrinks [OF ok0] l shrinks_refl [OF ok0] unfolding same by (auto split: if_splits)
  obtain a3 b3 where st: "start_operation enc i keyHash hash now b2 = (a3, b3)" by fastforce
  have adm: "admit enc fault stuck now i mutation keyHash hash (b, d) =
    (if bm_closed b then (Refuse (toolErr ''disconnected'' ''browser manager closed''), b, d)
     else if mutation \<and> bm_healthReason b \<noteq> []
     then (Refuse (toolErr ''browser_unhealthy'' (browserFailureMessage ''browser_unhealthy'')), b, d)
     else if pending then (Refuse (toolErr ''browser_busy'' ''managed browser cleanup is still finishing''), b0, d)
     else (case answer of Some x \<Rightarrow> (x, b2, d2) | None \<Rightarrow> (a3, b3, d2)))"
    unfolding admit_def Let_def prod.case p l st by (simp split: option.split)
  have refl: "shrinks now (b, d) (b, d)" "shrinks now (b, d) (b0, d)"
    using shrinks_refl [OF assms(1,2)] same [of b0 d] shrinks_refl [OF ok0] by blast+
  consider (refused) e where "a = Refuse e" "(b1, d1) = (b, d) \<or> (b1, d1) = (b0, d)"
    | (answer) x where "answer = Some x" "a = x" "(b1, d1) = (b2, d2)"
    | (start) "answer = None" "a = a3" "b1 = b3" "d1 = d2" "mutation \<longrightarrow> bm_healthReason b = []"
    using assms(3) adm by (auto split: if_splits option.splits)
  then show ?thesis
  proof cases
    case refused
    then show ?thesis using refl by auto
  next
    case answer
    then show ?thesis using look by auto
  next
    case start
    from start_operation_cases [OF st] show ?thesis
    proof
      assume "\<exists>e. a3 = Refuse e \<and> b3 = b2"
      then show ?thesis using start look by auto
    next
      assume "\<exists>slot w. a3 = Start (new_operation i keyHash hash now) slot
        \<and> b3 = cacheOperation enc (new_operation i keyHash hash now)
            ((trimOperations (browserOperationCacheMax - 1) (b2\<lparr>bm_writer := w\<rparr>))
               \<lparr>bm_journal := (if keyHash \<noteq> [] then AList.update keyHash \<lparr>je_ID = i, je_At = now\<rparr> (bm_journal b2) else bm_journal b2)\<rparr>)"
      then obtain slot w where a: "a3 = Start (new_operation i keyHash hash now) slot"
        "b3 = cacheOperation enc (new_operation i keyHash hash now)
            ((trimOperations (browserOperationCacheMax - 1) (b2\<lparr>bm_writer := w\<rparr>))
               \<lparr>bm_journal := (if keyHash \<noteq> [] then AList.update keyHash \<lparr>je_ID = i, je_At = now\<rparr> (bm_journal b2) else bm_journal b2)\<rparr>)"
        by blast
      let ?bm = "trimOperations (browserOperationCacheMax - 1) (b2\<lparr>bm_writer := w\<rparr>)"
      have "shrinks now (b, d) (?bm, d2)" using look shrinks_writer shrinks_trim by blast
      moreover have "keyHash \<noteq> [] \<longrightarrow> entry_of ?bm keyHash = None" using look start(1) by simp
      ultimately show ?thesis using start a by (intro disjI2 exI [of _ slot] exI [of _ ?bm]) simp
    qed
  qed
qed

end
