(* ===== verification/OperationSafety.thy ===== *)
theory OperationSafety
  imports OperationRun
begin

text \<open>
  Why a request key protects a change of a page: in every run of the manager the executions of one key lie more
  than the lifetime of a journal record apart, through clean-ups, evictions, failures of the journal and restarts.
\<close>

section \<open>The invariant\<close>

abbreviation ex_id :: "execution \<Rightarrow> string" where "ex_id x \<equiv> fst (snd x)"

abbreviation entry :: "string \<Rightarrow> time \<Rightarrow> browserJournalEntry" where
  "entry i t \<equiv> \<lparr>je_ID = i, je_At = t\<rparr>"

definition disk_rec :: "journalDir \<Rightarrow> string \<Rightarrow> string \<Rightarrow> time \<Rightarrow> bool" where
  "disk_rec d k i t \<longleftrightarrow> (\<exists>n op. map_of d (journal_name i) = Some (Regular n (Some op)) \<and> execution_of op = (k, i, t))"

text \<open>What is known of an id, anywhere: its key and its time.\<close>

definition known :: "browserRun \<Rightarrow> execution set" where
  "known r = set (br_executed r) \<union> set (br_life r) \<union> execution_of ` set (br_pending r)
    \<union> {(k, je_ID e, je_At e) | k e. entry_of (br_mgr r) k = Some e}
    \<union> {(k, i, t) | k i t. disk_rec (br_disk r) k i t}"

definition ids_ok :: "browserRun \<Rightarrow> bool" where
  "ids_ok r \<longleftrightarrow> (\<forall>x \<in> known r. \<forall>y \<in> known r. ex_id x = ex_id y \<longrightarrow> x = y)
    \<and> ex_id ` (set (br_executed r) \<union> set (br_life r)) \<union> op_ID ` set (br_pending r) \<subseteq> set (br_used r)
    \<and> distinct (map ex_id (br_executed r)) \<and> distinct (map op_ID (br_pending r))
    \<and> ex_id ` set (br_executed r) \<inter> op_ID ` set (br_pending r) = {}
    \<and> (\<forall>x \<in> set (br_life r). browserOperationID (ex_id x) \<and> fst x \<noteq> [])
    \<and> (\<forall>k i t. disk_rec (br_disk r) k i t \<longrightarrow> browserOperationID i)"

definition index_ok :: "browserRun \<Rightarrow> bool" where
  "index_ok r \<longleftrightarrow>
      (\<forall>k i t. (k, i, t) \<in> set (br_executed r) \<longrightarrow> k \<noteq> [] \<longrightarrow> \<not> expired_at (br_clock r) t \<longrightarrow> disk_rec (br_disk r) k i t)
    \<and> (br_live r \<longrightarrow> (\<forall>k i t. k \<noteq> [] \<longrightarrow> disk_rec (br_disk r) k i t \<longrightarrow> \<not> expired_at (br_clock r) t \<longrightarrow>
          entry_of (br_mgr r) k = Some (entry i t)))
    \<and> (\<forall>k i t j u. k \<noteq> [] \<longrightarrow> disk_rec (br_disk r) k i t \<longrightarrow> disk_rec (br_disk r) k j u \<longrightarrow>
          \<not> expired_at (br_clock r) t \<longrightarrow> \<not> expired_at (br_clock r) u \<longrightarrow> i = j)
    \<and> (\<not> br_live r \<longrightarrow> br_life r = [] \<and> (\<not> bm_enabled (br_mgr r) \<or> bm_healthReason (br_mgr r) \<noteq> []))
    \<and> (\<forall>k i t. (k, i, t) \<in> set (br_life r) \<longrightarrow> \<not> expired_at (br_clock r) t \<longrightarrow> entry_of (br_mgr r) k = Some (entry i t))"

definition pending_ok :: "browserRun \<Rightarrow> bool" where
  "pending_ok r \<longleftrightarrow> (\<forall>op \<in> set (br_pending r). op_KeyHash op \<noteq> [] \<longrightarrow>
      entry_of (br_mgr r) (op_KeyHash op) = Some (entry (op_ID op) (op_At op)) \<and> runs (br_mgr r) (op_ID op)
    \<and> execution_of op \<in> set (br_life r)
    \<and> (\<forall>k i t. (k, i, t) \<in> set (br_executed r) \<longrightarrow> k = op_KeyHash op \<longrightarrow> expired_at (op_At op) t))"

text \<open>The executions, the last one first.\<close>

definition spaced :: "execution list \<Rightarrow> bool" where
  "spaced xs \<longleftrightarrow> sorted_wrt (\<lambda>later earlier. fst later = fst earlier \<longrightarrow> fst later \<noteq> [] \<longrightarrow>
     expired_at (snd (snd later)) (snd (snd earlier))) xs"

definition manager_ok :: "browserManager \<Rightarrow> bool" where
  "manager_ok b \<longleftrightarrow> cache_ok b \<and> distinct (map fst (bm_journal b))"

definition ops_inv :: "browserRun \<Rightarrow> bool" where
  "ops_inv r \<longleftrightarrow> manager_ok (br_mgr r) \<and> ids_ok r \<and> index_ok r \<and> pending_ok r \<and> spaced (br_executed r)"

lemma journal_name_inj [simp]: "journal_name i = journal_name j \<longleftrightarrow> i = j"
  by (simp add: journal_name_def)

lemma known_same: "ids_ok r \<Longrightarrow> (k, i, t) \<in> known r \<Longrightarrow> (k1, i, t1) \<in> known r \<Longrightarrow> k = k1 \<and> t = t1"
proof -
  assume "ids_ok r" and x: "(k, i, t) \<in> known r" "(k1, i, t1) \<in> known r"
  then have "\<forall>x \<in> known r. \<forall>y \<in> known r. ex_id x = ex_id y \<longrightarrow> x = y" unfolding ids_ok_def by (elim conjE)
  from bspec [OF bspec [OF this x(1)] x(2)] show ?thesis by simp
qed

lemma known_entry: "entry_of (br_mgr r) k = Some e \<Longrightarrow> (k, je_ID e, je_At e) \<in> known r"
  unfolding known_def by blast

lemma known_rec: "disk_rec (br_disk r) k i t \<Longrightarrow> (k, i, t) \<in> known r"
  unfolding known_def by blast

lemma known_executed: "x \<in> set (br_executed r) \<Longrightarrow> x \<in> known r"
  by (simp add: known_def)

lemma known_life: "x \<in> set (br_life r) \<Longrightarrow> x \<in> known r"
  by (simp add: known_def)

lemma known_pending: "op \<in> set (br_pending r) \<Longrightarrow> execution_of op \<in> known r"
  by (simp add: known_def)

lemma ids_okD:
  assumes "ids_ok r"
  shows "disk_rec (br_disk r) k i t \<Longrightarrow> browserOperationID i" "distinct (map op_ID (br_pending r))"
    "x \<in> set (br_life r) \<Longrightarrow> browserOperationID (ex_id x) \<and> fst x \<noteq> []"
proof -
  note i1 = assms [unfolded ids_ok_def]
  note i2 = conjunct2 [OF i1] note i3 = conjunct2 [OF i2] note i4 = conjunct2 [OF i3] note i5 = conjunct2 [OF i4] note i6 = conjunct2 [OF i5]
  show "disk_rec (br_disk r) k i t \<Longrightarrow> browserOperationID i" using conjunct2 [OF i6] by blast
  show "distinct (map op_ID (br_pending r))" by (rule conjunct1 [OF i4])
  show "x \<in> set (br_life r) \<Longrightarrow> browserOperationID (ex_id x) \<and> fst x \<noteq> []" using conjunct1 [OF i6] by blast
qed

lemma index_okD:
  assumes "index_ok r"
  shows "(k, i, t) \<in> set (br_executed r) \<Longrightarrow> k \<noteq> [] \<Longrightarrow> \<not> expired_at (br_clock r) t \<Longrightarrow> disk_rec (br_disk r) k i t"
    "br_live r \<Longrightarrow> k \<noteq> [] \<Longrightarrow> disk_rec (br_disk r) k i t \<Longrightarrow> \<not> expired_at (br_clock r) t \<Longrightarrow>
       entry_of (br_mgr r) k = Some (entry i t)"
    "k \<noteq> [] \<Longrightarrow> disk_rec (br_disk r) k i t \<Longrightarrow> disk_rec (br_disk r) k j u \<Longrightarrow> \<not> expired_at (br_clock r) t \<Longrightarrow>
       \<not> expired_at (br_clock r) u \<Longrightarrow> i = j"
    "\<not> br_live r \<Longrightarrow> br_life r = [] \<and> (\<not> bm_enabled (br_mgr r) \<or> bm_healthReason (br_mgr r) \<noteq> [])"
    "(k, i, t) \<in> set (br_life r) \<Longrightarrow> \<not> expired_at (br_clock r) t \<Longrightarrow> entry_of (br_mgr r) k = Some (entry i t)"
proof -
  note i1 = assms [unfolded index_ok_def]
  note i2 = conjunct2 [OF i1] note i3 = conjunct2 [OF i2] note i4 = conjunct2 [OF i3] note i5 = conjunct2 [OF i4]
  show "(k, i, t) \<in> set (br_executed r) \<Longrightarrow> k \<noteq> [] \<Longrightarrow> \<not> expired_at (br_clock r) t \<Longrightarrow> disk_rec (br_disk r) k i t"
    using conjunct1 [OF i1] by blast
  show "br_live r \<Longrightarrow> k \<noteq> [] \<Longrightarrow> disk_rec (br_disk r) k i t \<Longrightarrow> \<not> expired_at (br_clock r) t \<Longrightarrow>
       entry_of (br_mgr r) k = Some (entry i t)" using conjunct1 [OF i2] by blast
  show "k \<noteq> [] \<Longrightarrow> disk_rec (br_disk r) k i t \<Longrightarrow> disk_rec (br_disk r) k j u \<Longrightarrow> \<not> expired_at (br_clock r) t \<Longrightarrow>
       \<not> expired_at (br_clock r) u \<Longrightarrow> i = j" using conjunct1 [OF i3] by blast
  show "\<not> br_live r \<Longrightarrow> br_life r = [] \<and> (\<not> bm_enabled (br_mgr r) \<or> bm_healthReason (br_mgr r) \<noteq> [])" using conjunct1 [OF i4] by blast
  show "(k, i, t) \<in> set (br_life r) \<Longrightarrow> \<not> expired_at (br_clock r) t \<Longrightarrow> entry_of (br_mgr r) k = Some (entry i t)" using i5 by blast
qed

lemma pending_okD:
  assumes "pending_ok r" "op \<in> set (br_pending r)" "op_KeyHash op \<noteq> []"
  shows "entry_of (br_mgr r) (op_KeyHash op) = Some (entry (op_ID op) (op_At op))" "runs (br_mgr r) (op_ID op)"
    "execution_of op \<in> set (br_life r)"
    "(op_KeyHash op, i, t) \<in> set (br_executed r) \<Longrightarrow> expired_at (op_At op) t"
  using bspec [OF assms(1) [unfolded pending_ok_def] assms(2), THEN mp, OF assms(3)] by blast+

lemma ids_ok_mono:
  assumes "ids_ok r" "known r1 \<subseteq> known r" "br_executed r1 = br_executed r" "set (br_life r1) \<subseteq> set (br_life r)"
    "set (br_pending r1) \<subseteq> set (br_pending r)" "distinct (map op_ID (br_pending r1))" "br_used r1 = br_used r"
    "\<And>k i t. disk_rec (br_disk r1) k i t \<Longrightarrow> browserOperationID i"
  shows "ids_ok r1"
  unfolding ids_ok_def
proof (intro conjI)
  note i = assms(1) [unfolded ids_ok_def]
  note i2 = conjunct2 [OF i] note i3 = conjunct2 [OF i2] note i4 = conjunct2 [OF i3] note i5 = conjunct2 [OF i4] note i6 = conjunct2 [OF i5]
  show "\<forall>x \<in> known r1. \<forall>y \<in> known r1. ex_id x = ex_id y \<longrightarrow> x = y" using conjunct1 [OF i] assms(2) by blast
  show "ex_id ` (set (br_executed r1) \<union> set (br_life r1)) \<union> op_ID ` set (br_pending r1) \<subseteq> set (br_used r1)"
    using conjunct1 [OF i2] assms(4,5) unfolding assms(3,7) by blast
  show "distinct (map ex_id (br_executed r1))" using conjunct1 [OF i3] unfolding assms(3) .
  show "distinct (map op_ID (br_pending r1))" by (rule assms(6))
  show "ex_id ` set (br_executed r1) \<inter> op_ID ` set (br_pending r1) = {}" using conjunct1 [OF i5] assms(5) unfolding assms(3) by blast
  show "\<forall>x \<in> set (br_life r1). browserOperationID (ex_id x) \<and> fst x \<noteq> []" using conjunct1 [OF i6] assms(4) by blast
  show "\<forall>k i t. disk_rec (br_disk r1) k i t \<longrightarrow> browserOperationID i" using assms(8) by blast
qed

lemma known_mono:
  assumes "set (br_executed r1) \<union> set (br_life r1) \<union> execution_of ` set (br_pending r1) \<subseteq> known r"
    "\<And>k e. entry_of (br_mgr r1) k = Some e \<Longrightarrow> (k, je_ID e, je_At e) \<in> known r"
    "\<And>k i t. disk_rec (br_disk r1) k i t \<Longrightarrow> (k, i, t) \<in> known r"
  shows "known r1 \<subseteq> known r"
  using assms unfolding known_def [of r1] by blast

lemma executed_life_known: "set (br_executed r) \<subseteq> known r" "set (br_life r) \<subseteq> known r" "execution_of ` set (br_pending r) \<subseteq> known r"
  by (auto simp: known_def)

section \<open>Expiry\<close>

lemma shrinks_disk_rec:
  assumes "shrinks now (br_mgr r, br_disk r) (b, d)" "ids_ok r"
  shows "disk_rec d k i t \<Longrightarrow> disk_rec (br_disk r) k i t"
    and "disk_rec (br_disk r) k i t \<Longrightarrow> \<not> expired_at now t \<Longrightarrow> disk_rec d k i t"
proof -
  note D = shrinksD(7) [OF assms(1), of "journal_name i"]
  show "disk_rec d k i t \<Longrightarrow> disk_rec (br_disk r) k i t" using D by (auto simp: disk_rec_def)
  assume rec: "disk_rec (br_disk r) k i t" and live: "\<not> expired_at now t"
  show "disk_rec d k i t"
  proof (rule ccontr)
    assume "\<not> disk_rec d k i t"
    then have "map_of d (journal_name i) \<noteq> map_of (br_disk r) (journal_name i)" using rec by (auto simp: disk_rec_def)
    then obtain k1 e where e: "entry_of (br_mgr r) k1 = Some e" "i = je_ID e" "expired_at now (je_At e)" using D by auto
    have "t = je_At e" using known_same [OF assms(2) known_rec [OF rec]] known_entry [OF e(1)] e(2) by blast
    then show False using e(3) live by simp
  qed
qed

lemma shrinks_entry:
  assumes "shrinks now (b0, d0) (b, d)"
  shows "entry_of b k = Some e \<Longrightarrow> entry_of b0 k = Some e"
    and "entry_of b0 k = Some e \<Longrightarrow> \<not> expired_at now (je_At e) \<or> runs b0 (je_ID e) \<Longrightarrow> entry_of b k = Some e"
  using shrinksD(6) [OF assms, of k] by auto

lemma ops_inv_quiet:
  assumes "ops_inv r" "shrinks now (br_mgr r, br_disk r) (b, d)" "br_clock r \<le> now"
  shows "ops_inv (r\<lparr>br_mgr := b, br_disk := d, br_clock := now\<rparr>)"
proof -
  let ?r = "r\<lparr>br_mgr := b, br_disk := d, br_clock := now\<rparr>"
  have sel: "br_mgr ?r = b" "br_disk ?r = d" "br_clock ?r = now" "br_pending ?r = br_pending r" "br_used ?r = br_used r" "br_life ?r = br_life r" "br_live ?r = br_live r" "br_executed ?r = br_executed r"
    by simp_all
  have inv: "manager_ok (br_mgr r)" "ids_ok r" "index_ok r" "pending_ok r" "spaced (br_executed r)"
    using assms(1) by (simp_all add: ops_inv_def)
  note rec = shrinks_disk_rec [OF assms(2) inv(2)] and ent = shrinks_entry [OF assms(2)]
  have clock: "\<not> expired_at (br_clock r) t" if "\<not> expired_at now t" for t using that assms(3) by linarith
  have "known ?r \<subseteq> known r"
    by (rule known_mono) (simp_all add: executed_life_known known_entry [OF ent(1)] known_rec [OF rec(1)])
  then have ids: "ids_ok ?r"
    by (rule ids_ok_mono [OF inv(2)]) (simp_all add: ids_okD(2) [OF inv(2)] ids_okD(1) [OF inv(2) rec(1)])
  have index: "index_ok ?r" unfolding index_ok_def sel
  proof (intro conjI allI impI)
    fix k i t assume "(k, i, t) \<in> set (br_executed r)" "k \<noteq> []" and now: "\<not> expired_at now t"
    then have "disk_rec (br_disk r) k i t" using index_okD(1) [OF inv(3)] clock [OF now] by blast
    then show "disk_rec d k i t" using rec(2) now by blast
  next
    fix k i t assume "br_live r" "k \<noteq> []" "disk_rec d k i t" and now: "\<not> expired_at now t"
    then have "entry_of (br_mgr r) k = Some (entry i t)" using index_okD(2) [OF inv(3)] clock [OF now] rec(1) by blast
    then show "entry_of b k = Some (entry i t)" using ent(2) now by simp
  next
    fix k i t j u assume "k \<noteq> []" "disk_rec d k i t" "disk_rec d k j u" "\<not> expired_at now t" "\<not> expired_at now u"
    then show "i = j" using index_okD(3) [OF inv(3), of k i t j u] clock rec(1) by blast
  next
    fix k i t assume "(k, i, t) \<in> set (br_life r)" and now: "\<not> expired_at now t"
    then have "entry_of (br_mgr r) k = Some (entry i t)" using index_okD(5) [OF inv(3)] clock [OF now] by blast
    then show "entry_of b k = Some (entry i t)" using ent(2) now by simp
  next
    assume "\<not> br_live r"
    then show "br_life r = []" "\<not> bm_enabled b \<or> bm_healthReason b \<noteq> []"
      using index_okD(4) [OF inv(3)] shrinksD(3,4) [OF assms(2)] by simp_all
  qed
  have pend: "pending_ok ?r" unfolding pending_ok_def sel
  proof (intro ballI impI)
    fix op assume op: "op \<in> set (br_pending r)" "op_KeyHash op \<noteq> []"
    have p: "entry_of (br_mgr r) (op_KeyHash op) = Some (entry (op_ID op) (op_At op))" "runs (br_mgr r) (op_ID op)"
      "execution_of op \<in> set (br_life r)"
      "\<forall>k i t. (k, i, t) \<in> set (br_executed r) \<longrightarrow> k = op_KeyHash op \<longrightarrow> expired_at (op_At op) t"
      using inv(4) op unfolding pending_ok_def by blast+
    have "entry_of b (op_KeyHash op) = Some (entry (op_ID op) (op_At op))" using ent(2) [OF p(1)] p(2) by simp
    moreover have "runs b (op_ID op)" using shrinksD(8) [OF assms(2) p(2)] p(2) unfolding runs_def by simp
    ultimately show "entry_of b (op_KeyHash op) = Some (entry (op_ID op) (op_At op)) \<and> runs b (op_ID op)
      \<and> execution_of op \<in> set (br_life r)
      \<and> (\<forall>k i t. (k, i, t) \<in> set (br_executed r) \<longrightarrow> k = op_KeyHash op \<longrightarrow> expired_at (op_At op) t)"
      using p(3,4) by blast
  qed
  show ?thesis using ids index pend inv(5) shrinksD(1,2) [OF assms(2)] by (simp add: ops_inv_def manager_ok_def)
qed

section \<open>Writing a record\<close>

lemma write_record_rec:
  assumes "storable enc op"
  shows "disk_rec (write_record enc op d) k i t \<longleftrightarrow> (if i = op_ID op then (k, i, t) = execution_of op else disk_rec d k i t)"
  using assms by (auto simp: storable_def write_record_def disk_rec_def execution_of_def persisted_def split: option.splits)

lemma ops_inv_write:
  assumes "ops_inv r" "execution_of op \<in> set (br_life r)" "storable enc op"
  shows "ops_inv (r\<lparr>br_disk := write_record enc op (br_disk r)\<rparr>)"
proof -
  let ?d = "write_record enc op (br_disk r)"
  let ?r = "r\<lparr>br_disk := ?d\<rparr>"
  have sel: "br_mgr ?r = br_mgr r" "br_disk ?r = ?d" "br_clock ?r = br_clock r" "br_pending ?r = br_pending r" "br_used ?r = br_used r" "br_life ?r = br_life r" "br_live ?r = br_live r" "br_executed ?r = br_executed r"
    by simp_all
  have inv: "manager_ok (br_mgr r)" "ids_ok r" "index_ok r" "pending_ok r" "spaced (br_executed r)"
    using assms(1) by (simp_all add: ops_inv_def)
  note rec = write_record_rec [OF assms(3)]
  have live: "br_live r" using assms(2) index_okD(4) [OF inv(3)] by (cases "br_live r") auto
  have life: "(k, i, t) \<in> set (br_life r)" if "disk_rec ?d k i t" "\<not> disk_rec (br_disk r) k i t" for k i t
    using that assms(2) by (auto simp: rec split: if_splits)
  have keep: "disk_rec ?d k i t" if "(k, i, t) \<in> known r" "disk_rec (br_disk r) k i t" for k i t
  proof (cases "i = op_ID op")
    case True
    then have "(k, i, t) = execution_of op"
      using known_same [OF inv(2) that(1)] known_life [OF assms(2)] unfolding execution_of_def by blast
    then show ?thesis using True by (simp add: rec)
  qed (simp add: rec that)
  have "(k, i, t) \<in> known r" if "disk_rec ?d k i t" for k i t
    using life [OF that] known_rec [of r k i t] known_life [of "(k, i, t)" r] by blast
  then have "known ?r \<subseteq> known r"
    by (intro known_mono) (simp_all add: executed_life_known known_entry)
  then have ids: "ids_ok ?r"
  proof (rule ids_ok_mono [OF inv(2)])
    show "browserOperationID i" if "disk_rec (br_disk ?r) k i t" for k i t
      using life [of k i t] that ids_okD(1) [OF inv(2), of k i t] ids_okD(3) [OF inv(2), of "(k, i, t)"] by auto
  qed (simp_all add: ids_okD(2) [OF inv(2)])
  have entry: "entry_of (br_mgr r) k = Some (entry i t)" if "k \<noteq> []" "disk_rec ?d k i t" "\<not> expired_at (br_clock r) t" for k i t
  proof (cases "disk_rec (br_disk r) k i t")
    case True
    then show ?thesis using index_okD(2) [OF inv(3) live that(1) _ that(3)] by blast
  next
    case False
    then show ?thesis using index_okD(5) [OF inv(3) life [OF that(2)] that(3)] by blast
  qed
  have index: "index_ok ?r" unfolding index_ok_def sel
  proof (intro conjI allI impI)
    fix k i t assume x: "(k, i, t) \<in> set (br_executed r)" "k \<noteq> []" "\<not> expired_at (br_clock r) t"
    then have "disk_rec (br_disk r) k i t" by (rule index_okD(1) [OF inv(3)])
    then show "disk_rec ?d k i t" using keep known_executed [OF x(1)] by blast
  next
    fix k i t assume "k \<noteq> []" "disk_rec ?d k i t" "\<not> expired_at (br_clock r) t"
    then show "entry_of (br_mgr r) k = Some (entry i t)" by (rule entry)
  next
    fix k i t j u assume "k \<noteq> []" "disk_rec ?d k i t" "disk_rec ?d k j u" "\<not> expired_at (br_clock r) t" "\<not> expired_at (br_clock r) u"
    then show "i = j" using entry [of k i t] entry [of k j u] by simp
  next
    fix k i t assume "(k, i, t) \<in> set (br_life r)" "\<not> expired_at (br_clock r) t"
    then show "entry_of (br_mgr r) k = Some (entry i t)" by (rule index_okD(5) [OF inv(3)])
  next
    assume "\<not> br_live r"
    then show "br_life r = []" "\<not> bm_enabled (br_mgr r) \<or> bm_healthReason (br_mgr r) \<noteq> []" using live by simp_all
  qed
  have "pending_ok ?r" using inv(4) by (simp add: pending_ok_def)
  then show ?thesis using ids index inv(1,5) by (simp add: ops_inv_def)
qed

section \<open>A new operation\<close>

lemma ops_inv_start:
  fixes hash enc
  assumes "ops_inv r" "fresh_id i r" "keyHash \<noteq> [] \<Longrightarrow> bm_enabled (br_mgr r) \<and> bm_healthReason (br_mgr r) = []"
    "keyHash \<noteq> [] \<Longrightarrow> entry_of (br_mgr r) keyHash = None"
  defines "op \<equiv> new_operation i keyHash hash (br_clock r)"
  defines "b \<equiv> cacheOperation enc op ((br_mgr r)\<lparr>bm_journal :=
      (if keyHash \<noteq> [] then AList.update keyHash (entry i (br_clock r)) (bm_journal (br_mgr r)) else bm_journal (br_mgr r))\<rparr>)"
  shows "ops_inv (r\<lparr>br_mgr := b, br_pending := op # br_pending r, br_used := i # br_used r,
    br_life := (if keyHash \<noteq> [] then [(keyHash, i, br_clock r)] else []) @ br_life r\<rparr>)" (is "ops_inv ?r")
proof -
  let ?x = "(keyHash, i, br_clock r)"
  have sel: "br_mgr ?r = b" "br_disk ?r = br_disk r" "br_clock ?r = br_clock r" "br_pending ?r = op # br_pending r" "br_used ?r = i # br_used r" "br_life ?r = (if keyHash \<noteq> [] then [?x] else []) @ br_life r" "br_live ?r = br_live r" "br_executed ?r = br_executed r"
    by simp_all
  have inv: "manager_ok (br_mgr r)" "ids_ok r" "index_ok r" "pending_ok r" "spaced (br_executed r)"
    using assms(1) by (simp_all add: ops_inv_def)
  have op: "op_ID op = i" "op_KeyHash op = keyHash" "op_At op = br_clock r" "running op" by (simp_all add: op_def new_operation_def)
  have fresh: "browserOperationID i" "i \<notin> set (br_used r)" "map_of (br_disk r) (journal_name i) = None"
    "i \<notin> je_ID ` ran (entry_of (br_mgr r))"
    using assms(2) by (simp_all add: fresh_id_def)
  have ent: "entry_of b k = (if keyHash \<noteq> [] \<and> k = keyHash then Some (entry i (br_clock r)) else entry_of (br_mgr r) k)" for k
    by (simp add: b_def)
  have runs: "runs b j \<longleftrightarrow> j = i \<or> runs (br_mgr r) j" for j
    by (auto simp: runs_def b_def op)
  have live: "br_live r" if "keyHash \<noteq> []" using assms(3) [OF that] index_okD(4) [OF inv(3)] by blast
  have new: "ex_id y \<noteq> i" if "y \<in> known r" for y
  proof
    assume y: "ex_id y = i"
    have ids: "ex_id ` (set (br_executed r) \<union> set (br_life r)) \<union> op_ID ` set (br_pending r) \<subseteq> set (br_used r)"
      using conjunct1 [OF conjunct2 [OF inv(2) [unfolded ids_ok_def]]] .
    from that consider "y \<in> set (br_executed r) \<union> set (br_life r)" | "y \<in> execution_of ` set (br_pending r)" | k e where "y = (k, je_ID e, je_At e)" "entry_of (br_mgr r) k = Some e"
      | k j t where "y = (k, j, t)" "disk_rec (br_disk r) k j t" unfolding known_def by blast
    then show False
    proof cases
      case 1
      then show False using ids fresh(2) y by blast
    next
      case 2
      then show False using ids fresh(2) y by (auto simp: execution_of_def)
    next
      case 3
      then show False using fresh(4) y by (auto simp: ran_def)
    next
      case 4
      then show False using fresh(3) y by (auto simp: disk_rec_def)
    qed
  qed
  have known: "known ?r \<subseteq> insert ?x (known r)"
  proof
    fix y assume "y \<in> known ?r"
    then consider "y \<in> set (br_executed r)" | "y \<in> set (br_life ?r)" | "y \<in> execution_of ` set (br_pending ?r)"
      | k e where "y = (k, je_ID e, je_At e)" "entry_of b k = Some e"
      | k j t where "y = (k, j, t)" "disk_rec (br_disk r) k j t" unfolding known_def by auto
    then show "y \<in> insert ?x (known r)"
    proof cases
      case 4
      then show ?thesis using known_entry [of r k e] by (auto simp: ent split: if_splits)
    qed (auto simp: known_executed known_life known_rec known_pending op execution_of_def [of op])
  qed
  have ids: "ids_ok ?r"
    unfolding ids_ok_def
  proof (intro conjI)
    note i1 = inv(2) [unfolded ids_ok_def]
    note i2 = conjunct2 [OF i1] note i3 = conjunct2 [OF i2] note i4 = conjunct2 [OF i3] note i5 = conjunct2 [OF i4] note i6 = conjunct2 [OF i5]
    show "\<forall>x \<in> known ?r. \<forall>y \<in> known ?r. ex_id x = ex_id y \<longrightarrow> x = y"
    proof (intro ballI impI)
      fix x y assume xy: "x \<in> known ?r" "y \<in> known ?r" "ex_id x = ex_id y"
      have "x \<in> known r \<or> x = ?x" "y \<in> known r \<or> y = ?x" using subsetD [OF known xy(1)] subsetD [OF known xy(2)] by blast+
      moreover have "x = y" if "x \<in> known r" "y \<in> known r" by (rule mp [OF bspec [OF bspec [OF conjunct1 [OF i1] that(1)] that(2)] xy(3)])
      ultimately show "x = y" using new [of x] new [of y] xy(3) by fastforce
    qed
    show "ex_id ` (set (br_executed ?r) \<union> set (br_life ?r)) \<union> op_ID ` set (br_pending ?r) \<subseteq> set (br_used ?r)"
      using conjunct1 [OF i2] by (auto simp: op)
    show "distinct (map ex_id (br_executed ?r))" using conjunct1 [OF i3] by simp
    show "distinct (map op_ID (br_pending ?r))" using conjunct1 [OF i4] conjunct1 [OF i2] fresh(2) by (auto simp: op)
    show "ex_id ` set (br_executed ?r) \<inter> op_ID ` set (br_pending ?r) = {}"
      using conjunct1 [OF i5] conjunct1 [OF i2] fresh(2) by (auto simp: op)
    show "\<forall>x \<in> set (br_life ?r). browserOperationID (ex_id x) \<and> fst x \<noteq> []" using conjunct1 [OF i6] fresh(1) by auto
    show "\<forall>k i t. disk_rec (br_disk ?r) k i t \<longrightarrow> browserOperationID i" using conjunct2 [OF i6] by simp
  qed
  have spare: "expired_at (br_clock r) t" if "(keyHash, j, t) \<in> set (br_executed r)" "keyHash \<noteq> []" for j t
    
    using index_okD(1) [OF inv(3) that] index_okD(2) [OF inv(3) live [OF that(2)] that(2)] assms(4) [OF that(2)] by fastforce
  have index: "index_ok ?r" unfolding index_ok_def sel
  proof (intro conjI allI impI)
    fix k j t assume "(k, j, t) \<in> set (br_executed r)" "k \<noteq> []" "\<not> expired_at (br_clock r) t"
    then show "disk_rec (br_disk r) k j t" by (rule index_okD(1) [OF inv(3)])
  next
    fix k j t assume "br_live r" "k \<noteq> []" "disk_rec (br_disk r) k j t" "\<not> expired_at (br_clock r) t"
    then have "entry_of (br_mgr r) k = Some (entry j t)" by (rule index_okD(2) [OF inv(3)])
    then show "entry_of b k = Some (entry j t)" using assms(4) by (auto simp: ent)
  next
    fix k i t j u assume "k \<noteq> []" "disk_rec (br_disk r) k i t" "disk_rec (br_disk r) k j u" "\<not> expired_at (br_clock r) t" "\<not> expired_at (br_clock r) u"
    then show "i = j" by (rule index_okD(3) [OF inv(3)])
  next
    fix k j t assume x: "(k, j, t) \<in> set ((if keyHash \<noteq> [] then [?x] else []) @ br_life r)" and now: "\<not> expired_at (br_clock r) t"
    show "entry_of b k = Some (entry j t)"
    proof (cases "(k, j, t) \<in> set (br_life r)")
      case True
      then have "entry_of (br_mgr r) k = Some (entry j t)" using index_okD(5) [OF inv(3)] now by blast
      then show ?thesis using assms(4) by (auto simp: ent)
    next
      case False
      then show ?thesis using x by (auto simp: ent split: if_splits)
    qed
  next
    assume nl: "\<not> br_live r"
    then show "(if keyHash \<noteq> [] then [?x] else []) @ br_life r = []" using index_okD(4) [OF inv(3)] live by auto
    show "\<not> bm_enabled b \<or> bm_healthReason b \<noteq> []" using index_okD(4) [OF inv(3) nl] by (simp add: b_def)
  qed
  have pend: "pending_ok ?r" unfolding pending_ok_def sel
  proof (intro ballI impI)
    fix p assume p: "p \<in> set (op # br_pending r)" "op_KeyHash p \<noteq> []"
    show "entry_of b (op_KeyHash p) = Some (entry (op_ID p) (op_At p)) \<and> runs b (op_ID p)
      \<and> execution_of p \<in> set ((if keyHash \<noteq> [] then [?x] else []) @ br_life r)
      \<and> (\<forall>k i t. (k, i, t) \<in> set (br_executed r) \<longrightarrow> k = op_KeyHash p \<longrightarrow> expired_at (op_At p) t)"
    proof (cases "p = op")
      case True
      then show ?thesis using p(2) spare by (auto simp: op ent runs execution_of_def)
    next
      case False
      then have q: "entry_of (br_mgr r) (op_KeyHash p) = Some (entry (op_ID p) (op_At p))" "runs (br_mgr r) (op_ID p)"
        "execution_of p \<in> set (br_life r)"
        "\<forall>k i t. (k, i, t) \<in> set (br_executed r) \<longrightarrow> k = op_KeyHash p \<longrightarrow> expired_at (op_At p) t"
        using inv(4) p unfolding pending_ok_def by auto
      then have "entry_of b (op_KeyHash p) = Some (entry (op_ID p) (op_At p))" using assms(4) by (auto simp: ent)
      then show ?thesis using q(2-4) runs by auto
    qed
  qed
  have "cache_ok ((br_mgr r)\<lparr>bm_journal := js\<rparr>)" for js using inv(1) by (simp add: manager_ok_def cache_ok_def)
  then have "manager_ok b" using inv(1) unfolding manager_ok_def b_def by (simp add: cacheOperation_ok distinct_update)
  then show ?thesis using ids index pend inv(5) by (simp add: ops_inv_def)
qed

section \<open>The page is changed\<close>

text \<open>An operation whose record is on disk, or that has no key, is executed.\<close>

lemma ops_inv_execute:
  assumes "ops_inv r" "op \<in> set (br_pending r)" "op_KeyHash op \<noteq> [] \<Longrightarrow> disk_rec (br_disk r) (op_KeyHash op) (op_ID op) (op_At op)"
  shows "ops_inv (r\<lparr>br_pending := removeAll op (br_pending r), br_executed := execution_of op # br_executed r\<rparr>)" (is "ops_inv ?r")
proof -
  have sel: "br_mgr ?r = br_mgr r" "br_disk ?r = br_disk r" "br_clock ?r = br_clock r" "br_pending ?r = removeAll op (br_pending r)" "br_used ?r = br_used r" "br_life ?r = br_life r" "br_live ?r = br_live r" "br_executed ?r = execution_of op # br_executed r"
    by simp_all
  have inv: "manager_ok (br_mgr r)" "ids_ok r" "index_ok r" "pending_ok r" "spaced (br_executed r)"
    using assms(1) by (simp_all add: ops_inv_def)
  note i1 = inv(2) [unfolded ids_ok_def]
  note i2 = conjunct2 [OF i1] note i3 = conjunct2 [OF i2] note i4 = conjunct2 [OF i3] note i5 = conjunct2 [OF i4] note i6 = conjunct2 [OF i5]
  have new: "op_ID op \<notin> ex_id ` set (br_executed r)" using conjunct1 [OF i5] assms(2) by blast
  have "known ?r \<subseteq> known r"
    by (rule known_mono) (use assms(2) in \<open>auto simp: executed_life_known known_entry known_rec known_executed known_life known_pending\<close>)
  then have same: "\<forall>x \<in> known ?r. \<forall>y \<in> known ?r. ex_id x = ex_id y \<longrightarrow> x = y" using conjunct1 [OF i1] by blast
  have ids: "ids_ok ?r" unfolding ids_ok_def sel
  proof (intro conjI)
    show "\<forall>x \<in> known ?r. \<forall>y \<in> known ?r. ex_id x = ex_id y \<longrightarrow> x = y" by (rule same)
    show "ex_id ` (set (execution_of op # br_executed r) \<union> set (br_life r)) \<union> op_ID ` set (removeAll op (br_pending r)) \<subseteq> set (br_used r)"
      using conjunct1 [OF i2] assms(2) by (auto simp: execution_of_def)
    show "distinct (map ex_id (execution_of op # br_executed r))" using conjunct1 [OF i3] new by (simp add: execution_of_def)
    show "distinct (map op_ID (removeAll op (br_pending r)))" using conjunct1 [OF i4] by (simp add: distinct_map_filter removeAll_filter_not_eq)
    show "ex_id ` set (execution_of op # br_executed r) \<inter> op_ID ` set (removeAll op (br_pending r)) = {}"
      using conjunct1 [OF i5] conjunct1 [OF i4] assms(2) by (auto simp: execution_of_def dest: filter_key_unique)
    show "\<forall>x \<in> set (br_life r). browserOperationID (ex_id x) \<and> fst x \<noteq> []" by (rule conjunct1 [OF i6])
    show "\<forall>k i t. disk_rec (br_disk r) k i t \<longrightarrow> browserOperationID i" by (rule conjunct2 [OF i6])
  qed
  have other: "op_KeyHash p \<noteq> op_KeyHash op" if "p \<in> set (br_pending r)" "p \<noteq> op" "op_KeyHash p \<noteq> []" for p
  proof
    assume k: "op_KeyHash p = op_KeyHash op"
    have "op_KeyHash op \<noteq> []" using that(3) k by simp
    then have "op_ID p = op_ID op"
      using pending_okD(1) [OF inv(4) that(1,3)] pending_okD(1) [OF inv(4) assms(2)] k by simp
    then show False using filter_key_unique [OF conjunct1 [OF i4] that(1) assms(2)] that(2) by blast
  qed
  have index: "index_ok ?r" unfolding index_ok_def sel
  proof (intro conjI allI impI)
    fix k i t assume x: "(k, i, t) \<in> set (execution_of op # br_executed r)" "k \<noteq> []" "\<not> expired_at (br_clock r) t"
    show "disk_rec (br_disk r) k i t"
    proof (cases "(k, i, t) \<in> set (br_executed r)")
      case False
      then show ?thesis using x(1,2) assms(3) by (simp add: execution_of_def)
    qed (rule index_okD(1) [OF inv(3) _ x(2,3)])
  next
    fix k i t assume "br_live r" "k \<noteq> []" "disk_rec (br_disk r) k i t" "\<not> expired_at (br_clock r) t"
    then show "entry_of (br_mgr r) k = Some (entry i t)" by (rule index_okD(2) [OF inv(3)])
  next
    fix k i t j u assume "k \<noteq> []" "disk_rec (br_disk r) k i t" "disk_rec (br_disk r) k j u" "\<not> expired_at (br_clock r) t" "\<not> expired_at (br_clock r) u"
    then show "i = j" by (rule index_okD(3) [OF inv(3)])
  next
    fix k i t assume "(k, i, t) \<in> set (br_life r)" "\<not> expired_at (br_clock r) t"
    then show "entry_of (br_mgr r) k = Some (entry i t)" by (rule index_okD(5) [OF inv(3)])
  next
    assume "\<not> br_live r"
    then show "br_life r = []" "\<not> bm_enabled (br_mgr r) \<or> bm_healthReason (br_mgr r) \<noteq> []" using index_okD(4) [OF inv(3)] by blast+
  qed
  have pend: "pending_ok ?r" unfolding pending_ok_def sel
  proof (intro ballI impI)
    fix p assume p: "p \<in> set (removeAll op (br_pending r))" "op_KeyHash p \<noteq> []"
    then have q: "p \<in> set (br_pending r)" "p \<noteq> op" by auto
    have "k = op_KeyHash p \<longrightarrow> expired_at (op_At p) t" if "(k, i, t) \<in> set (execution_of op # br_executed r)" for k i t
      using that inv(4) q(1) p(2) other [OF q p(2)] unfolding pending_ok_def execution_of_def by auto
    then show "entry_of (br_mgr r) (op_KeyHash p) = Some (entry (op_ID p) (op_At p)) \<and> runs (br_mgr r) (op_ID p)
      \<and> execution_of p \<in> set (br_life r)
      \<and> (\<forall>k i t. (k, i, t) \<in> set (execution_of op # br_executed r) \<longrightarrow> k = op_KeyHash p \<longrightarrow> expired_at (op_At p) t)"
      using inv(4) q(1) p(2) unfolding pending_ok_def by blast
  qed
  have "expired_at (op_At op) t" if "(op_KeyHash op, i, t) \<in> set (br_executed r)" "op_KeyHash op \<noteq> []" for i t
    using inv(4) assms(2) that unfolding pending_ok_def by blast
  then have "spaced (execution_of op # br_executed r)" using inv(5) by (fastforce simp: spaced_def execution_of_def)
  then show ?thesis using ids index pend inv(1) by (simp add: ops_inv_def)
qed

section \<open>The outcome is recorded\<close>

lemma ops_inv_manager:
  assumes "ops_inv r" "manager_ok b" "bm_journal b = bm_journal (br_mgr r)" "bm_enabled b = bm_enabled (br_mgr r)"
    "bm_healthReason (br_mgr r) \<noteq> [] \<Longrightarrow> bm_healthReason b \<noteq> []"
    "\<And>op. op \<in> set (br_pending r) \<Longrightarrow> runs (br_mgr r) (op_ID op) \<Longrightarrow> runs b (op_ID op)"
  shows "ops_inv (r\<lparr>br_mgr := b\<rparr>)" (is "ops_inv ?r")
proof -
  have sel: "br_mgr ?r = b" "br_disk ?r = br_disk r" "br_clock ?r = br_clock r" "br_pending ?r = br_pending r" "br_used ?r = br_used r" "br_life ?r = br_life r" "br_live ?r = br_live r" "br_executed ?r = br_executed r"
    by simp_all
  have inv: "manager_ok (br_mgr r)" "ids_ok r" "index_ok r" "pending_ok r" "spaced (br_executed r)"
    using assms(1) by (simp_all add: ops_inv_def)
  have "known ?r = known r" unfolding known_def sel assms(3) ..
  then have "ids_ok ?r" using inv(2) unfolding ids_ok_def sel by simp
  moreover have "index_ok ?r" using inv(3) assms(5) unfolding index_ok_def sel assms(3,4) by blast
  moreover have "pending_ok ?r" using inv(4) assms(6) unfolding pending_ok_def sel assms(3) by blast
  ultimately show ?thesis using inv(5) assms(2) by (simp add: ops_inv_def)
qed

lemma execution_setFailureCode [simp]: "execution_of (setFailureCode code op) = execution_of op"
  by (simp add: setFailureCode_def execution_of_def Let_def)

lemma execution_record_detail: "execution_of (fold record_detail kvs op) = execution_of op"
  by (induction kvs arbitrary: op) (auto simp: record_detail_def execution_of_def split: prod.splits)

lemma execution_update [simp]:
  "execution_of (op\<lparr>op_Status := s\<rparr>) = execution_of op" "execution_of (op\<lparr>op_Phase := s\<rparr>) = execution_of op"
  "execution_of (op\<lparr>op_Result := m\<rparr>) = execution_of op" "execution_of (op\<lparr>op_image := s\<rparr>) = execution_of op"
  by (simp_all add: execution_of_def)

lemma execution_final [simp]: "execution_of (final_operation ended dispatched args outcome op) = execution_of op"
  by (auto simp: final_operation_def failed_final_def completed_final_def op_fail_def Let_def execution_record_detail
      split: sum.split opResult.split)

lemma execution_of_eq: "execution_of op = execution_of op1 \<Longrightarrow> op_ID op = op_ID op1 \<and> op_KeyHash op = op_KeyHash op1"
  by (simp add: execution_of_def)

lemma ops_inv_finish:
  assumes "ops_inv r" "op_ID op \<notin> op_ID ` set (br_pending r)" "op_KeyHash op \<noteq> [] \<longrightarrow> execution_of op \<in> set (br_life r)"
    "finishBrowserOperation enc written ended dispatched args outcome op (br_mgr r, br_disk r) = (b, d)"
  shows "ops_inv (r\<lparr>br_mgr := b, br_disk := d\<rparr>)"
proof -
  let ?final = "final_operation ended dispatched args outcome op"
  have key: "op_KeyHash ?final = op_KeyHash op" "op_ID ?final = op_ID op" using execution_of_eq [OF execution_final] by blast+
  let ?ok = "op_KeyHash ?final = [] \<or> written \<and> storable enc ?final"
  obtain b1 f where b: "b = trimOperations browserOperationCacheMax (cacheOperation enc f b1)" "op_ID f = op_ID op"
    and b1: "b1 = br_mgr r \<or> b1 = (br_mgr r)\<lparr>bm_healthReason := ''storage_unavailable''\<rparr>"
    and d: "d = (if op_KeyHash ?final \<noteq> [] \<and> ?ok then write_record enc ?final (br_disk r) else br_disk r)"
    using assms(4) key execution_of_eq [OF execution_setFailureCode]
    by (auto simp: finishBrowserOperation_def Let_def storable_def split: if_splits)
  have written: "ops_inv (r\<lparr>br_disk := d\<rparr>)"
    using ops_inv_write [OF assms(1), of ?final enc] assms(1,3) key by (auto simp: d)
  have ok1: "cache_ok b1" using assms(1) b1 by (auto simp: ops_inv_def manager_ok_def cache_ok_def)
  have same: "bm_journal b1 = bm_journal (br_mgr r)" "bm_enabled b1 = bm_enabled (br_mgr r)" "lookup_op b1 = lookup_op (br_mgr r)"
    "bm_healthReason (br_mgr r) \<noteq> [] \<Longrightarrow> bm_healthReason b1 \<noteq> []" using b1 by auto
  have "runs b (op_ID p)" if "p \<in> set (br_pending r)" "runs (br_mgr r) (op_ID p)" for p
  proof -
    have "op_ID p \<noteq> op_ID op" using assms(2) imageI [OF that(1), of op_ID] by metis
    then have "runs (cacheOperation enc f b1) (op_ID p)" using that(2) by (simp add: runs_def b(2) same(3))
    then show ?thesis using trim_lookup [OF cacheOperation_ok [OF ok1], of browserOperationCacheMax enc f "op_ID p"]
      by (auto simp: runs_def b(1))
  qed
  moreover have "manager_ok b" using assms(1) trim_ok [OF cacheOperation_ok [OF ok1]] same(1)
    by (simp add: ops_inv_def manager_ok_def b(1))
  ultimately have "ops_inv ((r\<lparr>br_disk := d\<rparr>)\<lparr>br_mgr := b\<rparr>)"
    using same by (intro ops_inv_manager [OF written]) (simp_all add: b(1))
  moreover have "(r\<lparr>br_disk := d\<rparr>)\<lparr>br_mgr := b\<rparr> = r\<lparr>br_mgr := b, br_disk := d\<rparr>" by (rule browserRun.equality) simp_all
  ultimately show ?thesis by simp
qed

section \<open>A restart\<close>

definition only_expired_gone :: "time \<Rightarrow> journalDir \<Rightarrow> journalDir \<Rightarrow> bool" where
  "only_expired_gone now d d1 \<longleftrightarrow> (\<forall>k i t. (disk_rec d1 k i t \<longrightarrow> disk_rec d k i t)
     \<and> (disk_rec d k i t \<longrightarrow> \<not> expired_at now t \<longrightarrow> disk_rec d1 k i t))"

definition sole_record :: "time \<Rightarrow> journalDir \<Rightarrow> string \<Rightarrow> string \<Rightarrow> time \<Rightarrow> bool" where
  "sole_record now d k i t \<longleftrightarrow> browserOperationID i \<and> disk_rec d k i t \<and> \<not> expired_at now t
    \<and> (\<forall>j u. disk_rec d k j u \<longrightarrow> \<not> expired_at now u \<longrightarrow> j = i)"

text \<open>What the journal on disk gives a new manager: an entry for every record that alone holds its key.\<close>

definition index_loaded :: "time \<Rightarrow> journalDir \<Rightarrow> string list \<Rightarrow> browserManager \<Rightarrow> browserManager \<Rightarrow> bool" where
  "index_loaded now d names b b1 \<longleftrightarrow> manager_ok b1 \<and> bm_enabled b1 = bm_enabled b
    \<and> (\<forall>k e. entry_of b1 k = Some e \<longrightarrow> entry_of b k = Some e \<or> disk_rec d k (je_ID e) (je_At e))
    \<and> (\<forall>k i t. sole_record now d k i t \<longrightarrow> journal_name i \<in> set names \<or> entry_of b k = Some (entry i t) \<longrightarrow>
         entry_of b1 k = Some (entry i t))"

lemma journal_name_shape: "browserOperationID i \<Longrightarrow> HasPrefix (journal_name i) ''bop_'' \<and> HasSuffix (journal_name i) ''.json''"
proof -
  assume "browserOperationID i"
  then have i: "take (Suc (Suc (Suc (Suc 0)))) i = ''bop_''" "length i = 28"
    by (simp_all add: browserOperationID_def HasPrefix_def)
  then show ?thesis by (simp add: journal_name_def HasPrefix_def HasSuffix_def)
qed

lemma disk_rec_delete: "disk_rec (AList.delete (journal_name j) d) k i t \<longleftrightarrow> i \<noteq> j \<and> disk_rec d k i t"
  by (auto simp: disk_rec_def)

lemma disk_rec_same: "disk_rec d k i t \<Longrightarrow> disk_rec d k1 i t1 \<Longrightarrow> k = k1 \<and> t = t1"
  by (auto simp: disk_rec_def)

lemma only_expired_gone_delete:
  assumes "disk_rec d k0 j t0" "expired_at now t0" "only_expired_gone now (AList.delete (journal_name j) d) d1"
  shows "only_expired_gone now d d1"
  unfolding only_expired_gone_def
proof (intro allI conjI impI)
  note gone = assms(3) [unfolded only_expired_gone_def disk_rec_delete, rule_format]
  fix k i t
  show "disk_rec d k i t" if "disk_rec d1 k i t" using conjunct1 [OF gone] that by blast
  assume rec: "disk_rec d k i t" "\<not> expired_at now t"
  have "i \<noteq> j"
  proof
    assume "i = j"
    then have "t = t0" using disk_rec_same [OF assms(1), of k t] rec(1) by simp
    then show False using rec(2) assms(2) by simp
  qed
  then show "disk_rec d1 k i t" using conjunct2 [OF gone] rec by blast
qed

lemma sole_record_delete:
  assumes "sole_record now d k i t" "disk_rec d k0 j t0" "expired_at now t0"
  shows "sole_record now (AList.delete (journal_name j) d) k i t \<and> i \<noteq> j"
proof -
  note sole = assms(1) [unfolded sole_record_def]
  have "i \<noteq> j"
  proof
    assume "i = j"
    then have "t = t0" using disk_rec_same [OF assms(2), of k t] sole by simp
    then show False using sole assms(3) by simp
  qed
  then show ?thesis using sole unfolding sole_record_def disk_rec_delete by blast
qed

lemma index_loaded_skip:
  assumes "index_loaded now d1 names b b1"
    "\<And>k i t. sole_record now d k i t \<Longrightarrow> sole_record now d1 k i t \<and> journal_name i \<noteq> name"
    "\<And>k i t. disk_rec d1 k i t \<Longrightarrow> disk_rec d k i t"
  shows "index_loaded now d (name # names) b b1"
  unfolding index_loaded_def
proof (intro conjI allI impI)
  note I = assms(1) [unfolded index_loaded_def]
  show "manager_ok b1" "bm_enabled b1 = bm_enabled b" using I by simp_all
  show "entry_of b k = Some e \<or> disk_rec d k (je_ID e) (je_At e)" if "entry_of b1 k = Some e" for k e
    using I that assms(3) by (elim conjE) blast
  show "entry_of b1 k = Some (entry i t)"
    if "sole_record now d k i t" "journal_name i \<in> set (name # names) \<or> entry_of b k = Some (entry i t)" for k i t
  proof -
    have "journal_name i \<in> set names \<or> entry_of b k = Some (entry i t)" using that(2) assms(2) [OF that(1)] by simp
    then show ?thesis using I assms(2) [OF that(1)] by (elim conjE) blast
  qed
qed

lemma load_journal_loads:
  assumes "load_journal enc fault stuck now names (b, d) = (out, d1)" "manager_ok b"
  shows "only_expired_gone now d d1 \<and> (\<forall>b1. out = Inr b1 \<longrightarrow> index_loaded now d names b b1)"
  using assms
proof (induction enc fault stuck now names "(b, d)" arbitrary: b d rule: load_journal.induct)
  case (1 enc fault stuck now b d)
  then show ?case by (auto simp: only_expired_gone_def index_loaded_def)
next
  case (2 enc fault stuck now name names b d)
  have unchanged: "only_expired_gone now d d" by (simp add: only_expired_gone_def)
  show ?case
  proof (cases "\<not> HasPrefix name ''bop_'' \<or> \<not> HasSuffix name ''.json''")
    case True
    then have "load_journal enc fault stuck now names (b, d) = (out, d1)" using 2(4) by simp
    note IH = 2(1) [OF True this 2(5)]
    have other: "journal_name i \<noteq> name" if "sole_record now d k i t" for k i t
      using that True journal_name_shape unfolding sole_record_def by blast
    have "index_loaded now d (name # names) b b1" if "index_loaded now d names b b1" for b1
      by (rule index_loaded_skip [OF that]) (use other in blast)+
    then show ?thesis using IH by blast
  next
    case good: False
    show ?thesis
    proof (cases "readBrowserJournalRecord fault d name")
      case (Inl e)
      then show ?thesis using 2(4) good unchanged by auto
    next
      case (Inr content)
      show ?thesis
      proof (cases content)
        case None
        then show ?thesis using 2(4) good Inr unchanged by auto
      next
        case (Some op)
        let ?bad = "\<not> browserOperationID (op_ID op) \<or> name \<noteq> journal_name (op_ID op) \<or> op_KeyHash op = [] \<or> IsZero (op_At op)"
        have read: "readBrowserJournalRecord fault d name = Inr (Some op)" using Inr Some by simp
        then obtain n where n: "map_of d name = Some (Regular n (Some op))"
          by (auto simp: readBrowserJournalRecord_def split: option.splits journalFile.splits if_splits)
        show ?thesis
        proof (cases ?bad)
          case True
          then show ?thesis using 2(4) good read unchanged by auto
        next
          case ok: False
          then have name: "name = journal_name (op_ID op)" by blast
          have rec: "disk_rec d (op_KeyHash op) (op_ID op) (op_At op)" using n by (simp add: disk_rec_def name execution_of_def)
          show ?thesis
          proof (cases "now - op_At op > browserOperationTTL")
            case True
            show ?thesis
            proof (cases "stuck name")
              case True
              then show ?thesis using 2(4) good read ok \<open>now - op_At op > browserOperationTTL\<close> unchanged by auto
            next
              case False
              let ?d = "AList.delete name d"
              have run: "load_journal enc fault stuck now names (b, ?d) = (out, d1)"
                using 2(4) good read ok True False by simp
              note IH = 2(2) [OF good Inr Some ok True False run 2(5)]
              have "only_expired_gone now d d1"
                using only_expired_gone_delete [OF rec True] IH unfolding name by blast
              moreover have "index_loaded now d (name # names) b b1" if "out = Inr b1" for b1
              proof -
                have I: "index_loaded now ?d names b b1" using IH that by blast
                have "sole_record now ?d k i t \<and> journal_name i \<noteq> name" if "sole_record now d k i t" for k i t
                  using sole_record_delete [OF that rec True] unfolding name by simp
                moreover have "disk_rec d k i t" if "disk_rec ?d k i t" for k i t using that unfolding name disk_rec_delete by blast
                ultimately show ?thesis by (rule index_loaded_skip [OF I])
              qed
              ultimately show ?thesis by blast
            qed
          next
            case fresh: False
            let ?e = "entry (op_ID op) (op_At op)"
            let ?b1 = "cacheOperation enc (recovered op) b"
            let ?b2 = "?b1\<lparr>bm_journal := AList.update (op_KeyHash op) ?e (bm_journal ?b1)\<rparr>"
            let ?b3 = "trimOperations browserOperationCacheMax ?b2"
            have run: "load_journal enc fault stuck now names (?b3, d) = (out, d1)"
              using 2(4) good read ok fresh by (simp add: Let_def)
            have ok1: "cache_ok ?b1" using 2(5) cacheOperation_ok by (simp add: manager_ok_def)
            then have "cache_ok ?b2" by (simp add: cache_ok_def)
            then have mgr: "manager_ok ?b3" using 2(5) by (simp add: manager_ok_def trim_ok distinct_update)
            note IH = 2(3) [OF good Inr Some ok fresh refl refl run mgr]
            have ent: "entry_of ?b3 k = (if k = op_KeyHash op then Some ?e else entry_of b k)" for k by simp
            have "index_loaded now d (name # names) b b1" if "out = Inr b1" for b1
            proof -
              have I: "index_loaded now d names ?b3 b1" using IH that by blast
              have "entry_of b1 k = Some (entry i t)"
                if x: "sole_record now d k i t" "journal_name i \<in> set (name # names) \<or> entry_of b k = Some (entry i t)" for k i t
              proof (cases "k = op_KeyHash op")
                case True
                then have "op_ID op = i" using x(1) rec fresh unfolding sole_record_def by blast
                moreover from this have "op_At op = t" using disk_rec_same [OF rec, of k t] x(1) unfolding sole_record_def by simp
                ultimately have "entry_of ?b3 k = Some (entry i t)" using True by (simp add: ent)
                then show ?thesis using I x(1) unfolding index_loaded_def by blast
              next
                case False
                have "journal_name i \<noteq> name"
                proof
                  assume "journal_name i = name"
                  then have "i = op_ID op" by (simp add: name)
                  then show False using disk_rec_same [OF rec, of k t] x(1) False unfolding sole_record_def by simp
                qed
                then have "journal_name i \<in> set names \<or> entry_of ?b3 k = Some (entry i t)" using x(2) False by (simp add: ent)
                then show ?thesis using I x(1) unfolding index_loaded_def by blast
              qed
              moreover have "entry_of b k = Some e \<or> disk_rec d k (je_ID e) (je_At e)" if "entry_of b1 k = Some e" for k e
              proof -
                have "entry_of ?b3 k = Some e \<or> disk_rec d k (je_ID e) (je_At e)" using I that unfolding index_loaded_def by blast
                then show ?thesis using rec by (auto simp: ent split: if_splits)
              qed
              moreover have "manager_ok b1" "bm_enabled b1 = bm_enabled b" using I unfolding index_loaded_def by simp_all
              ultimately show ?thesis unfolding index_loaded_def by blast
            qed
            then show ?thesis using IH by blast
          qed
        qed
      qed
    qed
  qed
qed

lemma newBrowserManager_loads:
  assumes "newBrowserManager enc fault stuck setup enabled now d = (out, d1)"
  shows "only_expired_gone now d d1 \<and> (\<forall>b1. out = Inr b1 \<longrightarrow> bm_enabled b1 = enabled \<and> manager_ok b1
    \<and> (enabled \<longrightarrow> index_loaded now d (sort (map fst d)) (browserEmptyManager True) b1)
    \<and> (\<not> enabled \<longrightarrow> bm_journal b1 = []))"
proof -
  have empty: "manager_ok (browserEmptyManager e)" for e
    by (simp add: manager_ok_def cache_ok_def cached_bytes_def browserEmptyManager_def)
  have refl: "only_expired_gone now d d" by (simp add: only_expired_gone_def)
  show ?thesis
  proof (cases "enabled \<and> setup = None")
    case True
    then have "load_journal enc fault stuck now (sort (map fst d)) (browserEmptyManager True, d) = (out, d1)"
      using assms by (simp add: newBrowserManager_def)
    note load = load_journal_loads [OF this empty]
    have "bm_enabled b1 = enabled \<and> manager_ok b1" if "out = Inr b1" for b1
    proof -
      have "index_loaded now d (sort (map fst d)) (browserEmptyManager True) b1" using load that by blast
      note I = this [unfolded index_loaded_def]
      show ?thesis using conjunct1 [OF I] conjunct1 [OF conjunct2 [OF I]] True by (simp add: browserEmptyManager_def)
    qed
    then show ?thesis using load True by blast
  next
    case False
    then show ?thesis using assms refl empty by (auto simp: newBrowserManager_def browserEmptyManager_def split: option.splits if_splits)
  qed
qed

lemma ops_inv_restart:
  assumes "ops_inv r" "br_clock r \<le> now" "newBrowserManager enc fault stuck setup enabled now (br_disk r) = (out, d)"
  defines "b \<equiv> (case out of Inr b \<Rightarrow> b | Inl e \<Rightarrow> browserDegradedManager e)" and "live \<equiv> enabled \<and> (\<exists>b. out = Inr b)"
  shows "ops_inv (r\<lparr>br_mgr := b, br_disk := d, br_clock := now, br_pending := [], br_life := [], br_live := live\<rparr>)" (is "ops_inv ?r")
proof -
  have sel: "br_mgr ?r = b" "br_disk ?r = d" "br_clock ?r = now" "br_pending ?r = []" "br_used ?r = br_used r" "br_life ?r = []" "br_live ?r = live" "br_executed ?r = br_executed r"
    by simp_all
  have inv: "manager_ok (br_mgr r)" "ids_ok r" "index_ok r" "spaced (br_executed r)" using assms(1) by (simp_all add: ops_inv_def)
  note load = newBrowserManager_loads [OF assms(3)]
  have gone: "disk_rec d k i t \<Longrightarrow> disk_rec (br_disk r) k i t"
    "disk_rec (br_disk r) k i t \<Longrightarrow> \<not> expired_at now t \<Longrightarrow> disk_rec d k i t" for k i t
    using load unfolding only_expired_gone_def by blast+
  have clock: "\<not> expired_at (br_clock r) t" if "\<not> expired_at now t" for t using that assms(2) by linarith
  have mgr: "manager_ok b" using load
    by (cases out) (simp_all add: b_def browserDegradedManager_def browserEmptyManager_def manager_ok_def cache_ok_def cached_bytes_def)
  have dead: "bm_journal b = [] \<and> (\<not> bm_enabled b \<or> bm_healthReason b \<noteq> [])" if "\<not> live"
    using load that by (cases out) (simp_all add: b_def live_def browserDegradedManager_def browserEmptyManager_def)
  have loaded: "index_loaded now (br_disk r) (sort (map fst (br_disk r))) (browserEmptyManager True) b" if live
    using load that by (auto simp: b_def live_def)
  have ent: "disk_rec (br_disk r) k (je_ID e) (je_At e)" if "entry_of b k = Some e" for k e
  proof -
    have l: live using dead that by (cases live) auto
    show ?thesis using loaded [OF l] that unfolding index_loaded_def by (auto simp: browserEmptyManager_def)
  qed
  have "known ?r \<subseteq> known r"
    by (rule known_mono) (auto simp: sel known_executed dest: known_rec ent gone(1))
  then have ids: "ids_ok ?r"
    by (rule ids_ok_mono [OF inv(2)]) (simp_all add: ids_okD(1) [OF inv(2) gone(1)])
  have index: "index_ok ?r" unfolding index_ok_def sel
  proof (intro conjI allI impI)
    fix k i t assume x: "(k, i, t) \<in> set (br_executed r)" "k \<noteq> []" "\<not> expired_at now t"
    show "disk_rec d k i t" by (rule gone(2) [OF index_okD(1) [OF inv(3) x(1,2) clock [OF x(3)]] x(3)])
  next
    fix k i t assume l: live and x: "k \<noteq> []" "disk_rec d k i t" "\<not> expired_at now t"
    note rec = gone(1) [OF x(2)]
    have "sole_record now (br_disk r) k i t"
      unfolding sole_record_def
      using ids_okD(1) [OF inv(2) rec] rec x(3) index_okD(3) [OF inv(3) x(1) rec _ clock [OF x(3)] clock] by blast
    moreover have "journal_name i \<in> set (sort (map fst (br_disk r)))"
      using rec by (force simp: disk_rec_def dest: map_of_SomeD)
    ultimately show "entry_of b k = Some (entry i t)" using loaded [OF l] unfolding index_loaded_def by blast
  next
    fix k i t j u assume x: "k \<noteq> []" "disk_rec d k i t" "disk_rec d k j u" "\<not> expired_at now t" "\<not> expired_at now u"
    show "i = j" by (rule index_okD(3) [OF inv(3) x(1) gone(1) [OF x(2)] gone(1) [OF x(3)] clock [OF x(4)] clock [OF x(5)]])
  next
    fix k i :: string and t :: time assume "(k, i, t) \<in> set []"
    then show "entry_of b k = Some (entry i t)" by simp
  next
    assume "\<not> live"
    then show "[] = []" "\<not> bm_enabled b \<or> bm_healthReason b \<noteq> []" using dead by simp_all
  qed
  have "pending_ok ?r" by (simp add: pending_ok_def)
  then show ?thesis using ids index mgr inv(4) by (simp add: ops_inv_def)
qed

section \<open>Every step\<close>

lemma op_step_inv: "op_step enc r t \<Longrightarrow> ops_inv r \<Longrightarrow> ops_inv t"
proof (induction rule: op_step.induct)
  case (admitted r now i fault stuck keyHash hash op slot b d)
  have m: "cache_ok (br_mgr r)" "distinct (map fst (bm_journal (br_mgr r)))" using admitted(5) by (simp_all add: ops_inv_def manager_ok_def)
  from admit_cases [OF m admitted(4)] obtain bm where a: "op = new_operation i keyHash hash now"
    "shrinks now (br_mgr r, br_disk r) (bm, d)" "keyHash \<noteq> [] \<longrightarrow> bm_healthReason (br_mgr r) = []" "keyHash \<noteq> [] \<longrightarrow> entry_of bm keyHash = None"
    "b = cacheOperation enc (new_operation i keyHash hash now)
      (bm\<lparr>bm_journal := (if keyHash \<noteq> [] then AList.update keyHash (entry i now) (bm_journal bm) else bm_journal bm)\<rparr>)" by auto
  let ?r = "r\<lparr>br_mgr := bm, br_disk := d, br_clock := now\<rparr>"
  note D = shrinksD [OF a(2)]
  have quiet: "ops_inv ?r" by (rule ops_inv_quiet [OF admitted(5) a(2) admitted(1)])
  have "je_ID ` ran (entry_of bm) \<subseteq> je_ID ` ran (entry_of (br_mgr r))"
    using shrinks_entry(1) [OF a(2)] unfolding ran_def by blast
  moreover have "map_of d (journal_name i) = None" using admitted(2) D(7) [of "journal_name i"] unfolding fresh_id_def by auto
  moreover have "lookup_op bm i = None" using admitted(2) D(9) [of i] unfolding fresh_id_def by (cases "lookup_op bm i") auto
  ultimately have fresh: "fresh_id i ?r" using admitted(2) unfolding fresh_id_def by auto
  have "ops_inv (?r\<lparr>br_mgr := cacheOperation enc (new_operation i keyHash hash (br_clock ?r)) ((br_mgr ?r)\<lparr>bm_journal :=
      (if keyHash \<noteq> [] then AList.update keyHash (entry i (br_clock ?r)) (bm_journal (br_mgr ?r)) else bm_journal (br_mgr ?r))\<rparr>),
    br_pending := new_operation i keyHash hash (br_clock ?r) # br_pending ?r, br_used := i # br_used ?r,
    br_life := (if keyHash \<noteq> [] then [(keyHash, i, br_clock ?r)] else []) @ br_life ?r\<rparr>)" (is "ops_inv ?t")
    by (rule ops_inv_start [OF quiet fresh]) (use a(3,4) admitted(3) D(3,4) in simp_all)
  moreover have "?t = r\<lparr>br_mgr := b, br_disk := d, br_clock := now, br_pending := op # br_pending r,
      br_used := i # br_used r, br_life := (if keyHash \<noteq> [] then [(keyHash, i, now)] else []) @ br_life r\<rparr>"
    by (rule browserRun.equality) (simp_all add: a(1,5))
  ultimately show ?case by simp
next
  case (answered r now fault stuck i keyHash hash a b d)
  have m: "cache_ok (br_mgr r)" "distinct (map fst (bm_journal (br_mgr r)))" using answered(5) by (simp_all add: ops_inv_def manager_ok_def)
  have "shrinks now (br_mgr r, br_disk r) (b, d)" using admit_cases [OF m answered(3)] answered(4) by (elim disjE exE conjE) simp_all
  then show ?case by (rule ops_inv_quiet [OF answered(5) _ answered(1)])
next
  case (executes op r)
  show ?case
  proof (cases "op_KeyHash op = []")
    case True
    then show ?thesis using ops_inv_execute [OF executes(3,1)] by simp
  next
    case False
    then have st: "storable enc op" "pending_ok r" using executes(2,3) by (simp_all add: ops_inv_def)
    let ?r = "r\<lparr>br_disk := write_record enc op (br_disk r)\<rparr>"
    have w: "ops_inv ?r" by (rule ops_inv_write [OF executes(3) pending_okD(3) [OF st(2) executes(1) False] st(1)])
    have "disk_rec (br_disk ?r) (op_KeyHash op) (op_ID op) (op_At op)" using write_record_rec [OF st(1)] by (simp add: execution_of_def)
    from ops_inv_execute [OF w _ this] show ?thesis using executes(1) False by simp
  qed
next
  case (not_reserved op r)
  let ?r = "r\<lparr>br_pending := removeAll op (br_pending r)\<rparr>"
  have inv: "manager_ok (br_mgr r)" "ids_ok r" "index_ok r" "pending_ok r" "spaced (br_executed r)"
    using not_reserved(2) by (simp_all add: ops_inv_def)
  have "known ?r \<subseteq> known r" by (rule known_mono) (auto simp: executed_life_known known_executed known_life known_pending known_entry known_rec)
  then have "ids_ok ?r"
    by (rule ids_ok_mono [OF inv(2)]) (auto simp: ids_okD [OF inv(2)] removeAll_filter_not_eq distinct_map_filter)
  moreover have "index_ok ?r" using inv(3) by (simp add: index_ok_def)
  moreover have "pending_ok ?r" using inv(4) by (auto simp: pending_ok_def)
  ultimately show ?case using inv by (simp add: ops_inv_def)
next
  case (written_late op r)
  then show ?case using ops_inv_write by blast
next
  case (finished r op written ended dispatched args outcome b d)
  then show ?case using ops_inv_finish by blast
next
  case (cleaned r now stuck b d)
  have m: "cache_ok (br_mgr r)" "distinct (map fst (bm_journal (br_mgr r)))" using cleaned(3) by (simp_all add: ops_inv_def manager_ok_def)
  show ?case by (rule ops_inv_quiet [OF cleaned(3) operation_cleanup_shrinks [OF m cleaned(2)] cleaned(1)])
next
  case (restarted r now fault stuck su enabled out d)
  then show ?case using ops_inv_restart by blast
next
  case (shut_down r)
  then show ?case by (intro ops_inv_manager) (auto simp: ops_inv_def manager_ok_def cache_ok_def runs_def)
next
  case (background r cs w)
  then show ?case by (intro ops_inv_manager) (auto simp: ops_inv_def manager_ok_def cache_ok_def runs_def)
qed

lemma new_browserRun_inv: "ops_inv (new_browserRun now)"
  by (simp add: ops_inv_def new_browserRun_def manager_ok_def cache_ok_def cached_bytes_def browserEmptyManager_def ids_ok_def
      index_ok_def pending_ok_def spaced_def known_def disk_rec_def)

interpretation operations: invariant_system "\<lambda>r. \<exists>now. r = new_browserRun now" "op_step enc" ops_inv for enc
proof unfold_locales
  show "ops_inv r" if "\<exists>now. r = new_browserRun now" for r using that new_browserRun_inv by blast
  show "ops_inv t" if "ops_inv r" "op_step enc r t" for r t by (rule op_step_inv [OF that(2,1)])
qed


definition example_encoder :: opEncoder where
  "example_encoder = \<lparr>enc_op = (\<lambda>_. Some 10), enc_transient = (\<lambda>_. Some 4)\<rparr>"

definition example_id :: "char \<Rightarrow> string" where
  "example_id c = ''bop_'' @ replicate 24 c"

lemma example_id_ok: "lower_hex c \<Longrightarrow> browserOperationID (example_id c)"
  by (simp add: browserOperationID_def example_id_def HasPrefix_def list_all_iff)

lemma admit_empty:
  "k \<noteq> [] \<Longrightarrow> admit enc fault stuck now i True k hash (browserEmptyManager True, []) =
     (Start (new_operation i k hash now) (Some 0),
      cacheOperation enc (new_operation i k hash now)
        ((browserEmptyManager True)\<lparr>bm_writer := snd (tryReserve newBrowserJournalWriter), bm_journal := [(k, entry i now)]\<rparr>), [])"
  by (simp add: admit_def start_operation_def lookup_retry_def cleanupsPendingLocked_def trimOperations_def fits_cache_def cached_reads_def
      browserOperationReadMax_def browserOperationCacheBytesMax_def browserOperationCacheMax_def browserOperationRunningMax_def
      tryReserve_def newBrowserJournalWriter_def browserJournalWriterSlots_def browserEmptyManager_def Let_def)

lemma restart_expired:
  assumes "browserOperationID i" "k \<noteq> []" "t \<noteq> 0" "now - t > browserOperationTTL"
  shows "newBrowserManager example_encoder (\<lambda>_. False) (\<lambda>_. False) None True now
    (write_record example_encoder (new_operation i k hash t) []) = (Inr (browserEmptyManager True), [])"
  using journal_name_shape [OF assms(1)] assms
  by (simp add: newBrowserManager_def write_record_def example_encoder_def readBrowserJournalRecord_def persisted_def
      new_operation_def browserJournalRecordMax_def IsZero_def)


end
