(* ===== verification/OperationOutcome.thy ===== *)
theory OperationOutcome
  imports BrowserOperations
begin

text \<open>
  What a caller is told of an operation that failed: whether its change of the page is known not to have happened,
  or may have.
\<close>

definition detail :: "string \<Rightarrow> browserOperation \<Rightarrow> json option" where
  "detail key op = Option.bind (op_ErrorDetails op) (\<lambda>d. map_of d key)"

text \<open>The details are a map and say how to recover from the code that is set.\<close>

definition details_ok :: "browserOperation \<Rightarrow> bool" where
  "details_ok op \<longleftrightarrow> (\<exists>d. op_ErrorDetails op = Some d \<and> distinct (map fst d)
     \<and> map_of d ''recovery'' = Some (JStr (browserErrorRecovery (op_ErrorCode op))))
   \<and> (op_errorTransient op = None \<or> (\<exists>v. op_errorTransient op = Some [(''options'', v)]))"

definition transient_ok :: "browserOperation \<Rightarrow> bool" where
  "transient_ok op \<longleftrightarrow> (\<forall>d. op_ErrorDetails op = Some d \<longrightarrow> distinct (map fst d))
   \<and> (op_errorTransient op = None \<or> (\<exists>v. op_errorTransient op = Some [(''options'', v)]))"

lemma setFailureCode_ok: "transient_ok op \<Longrightarrow> details_ok (setFailureCode code op)"
  by (auto simp: transient_ok_def details_ok_def setFailureCode_def Let_def distinct_update split: option.splits)

lemma details_transient: "details_ok op \<Longrightarrow> transient_ok op"
  by (auto simp: details_ok_def transient_ok_def)

lemma record_detail_ok: "details_ok op \<Longrightarrow> details_ok (record_detail kv op)"
  by (auto simp: details_ok_def record_detail_def Let_def distinct_update split: prod.splits)

lemma record_details_ok: "details_ok op \<Longrightarrow> details_ok (fold record_detail kvs op)"
  by (induction kvs arbitrary: op) (simp_all add: record_detail_ok)

lemma op_fail_ok: "transient_ok op \<Longrightarrow> details_ok (op_fail err args op)"
  by (simp add: op_fail_def Let_def record_details_ok setFailureCode_ok)

lemma details_status [simp]:
  "details_ok (op\<lparr>op_Status := s\<rparr>) = details_ok op" "details_ok (op\<lparr>op_Phase := s\<rparr>) = details_ok op"
  "details_ok (op\<lparr>op_Result := m\<rparr>) = details_ok op" "transient_ok (op\<lparr>op_Status := s\<rparr>) = transient_ok op"
  "transient_ok (op\<lparr>op_Phase := s\<rparr>) = transient_ok op"
  by (simp_all add: details_ok_def transient_ok_def)

lemma setFailureCode_simps [simp]:
  "op_ErrorCode (setFailureCode code op) = code" "op_Status (setFailureCode code op) = op_Status op"
  "op_Phase (setFailureCode code op) = op_Phase op" "op_KeyHash (setFailureCode code op) = op_KeyHash op"
  by (simp_all add: setFailureCode_def Let_def)

lemma record_detail_simps [simp]:
  "op_ErrorCode (record_detail kv op) = op_ErrorCode op" "op_Status (record_detail kv op) = op_Status op"
  "op_Phase (record_detail kv op) = op_Phase op" "op_KeyHash (record_detail kv op) = op_KeyHash op"
  by (simp_all add: record_detail_def split: prod.split)

lemma fold_record_detail [simp]:
  "op_ErrorCode (fold record_detail kvs op) = op_ErrorCode op" "op_Status (fold record_detail kvs op) = op_Status op"
  "op_Phase (fold record_detail kvs op) = op_Phase op" "op_KeyHash (fold record_detail kvs op) = op_KeyHash op"
  by (induction kvs arbitrary: op) simp_all

definition error_code :: "goErr \<Rightarrow> string" where
  "error_code err = (case ge_coded err of Some c \<Rightarrow> ce_code c | None \<Rightarrow> ''browser_failed'')"

lemma op_fail_simps [simp]:
  "op_ErrorCode (op_fail err args op) = error_code err" "op_Status (op_fail err args op) = op_Status op"
  "op_Phase (op_fail err args op) = op_Phase op" "op_KeyHash (op_fail err args op) = op_KeyHash op"
  by (simp_all add: op_fail_def Let_def browserErrorContext_def failure_def error_code_def split: option.split)

lemma failed_final_ok: "transient_ok op \<Longrightarrow> details_ok (failed_final ended dispatched args err op)"
  by (simp add: failed_final_def Let_def op_fail_ok setFailureCode_ok details_transient)

text \<open>The report of an operation that failed carries its code and how to recover from it.\<close>

lemma operationResult_failed:
  assumes "details_ok op" "\<not> running op" "op_ErrorCode op \<noteq> []"
  shows "\<exists>f. operationResult available op = OpError f \<and> ce_code f = op_ErrorCode op
    \<and> map_of (ce_details f) ''recovery'' = Some (JStr (browserErrorRecovery (op_ErrorCode op)))"
proof -
  obtain d where d: "op_ErrorDetails op = Some d" "distinct (map fst d)"
    "map_of d ''recovery'' = Some (JStr (browserErrorRecovery (op_ErrorCode op)))"
    and t: "op_errorTransient op = None \<or> (\<exists>v. op_errorTransient op = Some [(''options'', v)])"
    using assms(1) unfolding details_ok_def by blast
  from t show ?thesis
    by (elim disjE exE) (simp_all add: operationResult_def assms d map_of_set_members)
qed

definition changed_unknown :: "bool \<Rightarrow> goErr \<Rightarrow> bool" where
  "changed_unknown ended err \<longleftrightarrow> ended \<or> ge_canceled err \<or> ge_deadline err \<or> browserUncertainTransport (error_code err)"



end
