(* ===== verification/UrlChecks.thy ===== *)
theory UrlChecks
  imports Prelude "HOL-Library.Multiset"
begin

text \<open>
  The pool that checks URLs for the extension (\<open>cmd/agent/browser_url_checks.go\<close>): a bounded queue and four workers.
  Jobs are numbered as they are accepted; \<open>closed\<close> and the pool's context change together under its lock, so
  \<open>uc_closed\<close> stands for both. The steps of the callers, the workers and \<open>close\<close> interleave.
\<close>

definition browserURLCheckWorkers :: nat where "browserURLCheckWorkers = 4"
definition browserURLCheckPending :: nat where "browserURLCheckPending = 32"

record browserURLChecks =
  uc_closed :: bool
  uc_jobs :: "nat list"

definition newBrowserURLChecks :: browserURLChecks where
  "newBrowserURLChecks = \<lparr>uc_closed = False, uc_jobs = []\<rparr>"

text \<open>\<open>ctxErr\<close> is whether the caller's context is nil or over; \<open>hasReply\<close> whether it can be answered.\<close>

definition submit_check :: "bool \<Rightarrow> bool \<Rightarrow> nat \<Rightarrow> browserURLChecks \<Rightarrow> bool \<times> browserURLChecks" where
  "submit_check ctxErr hasReply job u =
    (if ctxErr \<or> \<not> hasReply then (False, u)
     else if uc_closed u then (False, u)
     else if length (uc_jobs u) < browserURLCheckPending then (True, u\<lparr>uc_jobs := uc_jobs u @ [job]\<rparr>)
     else (False, u))"

definition close_checks :: "browserURLChecks \<Rightarrow> browserURLChecks" where
  "close_checks u = u\<lparr>uc_closed := True\<rparr>"

text \<open>
  A worker that has taken a job keeps whether its context and the pool's were live (\<open>WChecking\<close>); it runs the check
  only then. \<open>allowed_after\<close> is the answer it gives, from the verdict of the check and the two contexts at its end.
\<close>

datatype urlWorker = WIdle | WChecking nat bool | WRejecting | WGone

definition allowed_after :: "bool \<Rightarrow> bool \<Rightarrow> bool \<Rightarrow> bool \<Rightarrow> bool" where
  "allowed_after live verdict jobDone poolDone = (if live then verdict \<and> \<not> jobDone \<and> \<not> poolDone else False)"

section \<open>The pool at work\<close>

text \<open>
  \<open>ur_accepted\<close> are the accepted jobs, \<open>ur_dead\<close> those whose context is over, \<open>ur_replies\<close> the answers given, with
  whether the pool was closed then, and \<open>ur_passed\<close> the jobs whose URL the check allowed.
\<close>

record urlRun =
  ur_checks :: browserURLChecks
  ur_workers :: "urlWorker list"
  ur_dead :: "nat set"
  ur_accepted :: "nat list"
  ur_replies :: "(nat \<times> bool \<times> bool) list"
  ur_passed :: "nat set"

definition new_urlRun :: urlRun where
  "new_urlRun = \<lparr>ur_checks = newBrowserURLChecks, ur_workers = replicate browserURLCheckWorkers WIdle, ur_dead = {},
     ur_accepted = [], ur_replies = [], ur_passed = {}\<rparr>"

inductive url_step :: "urlRun \<Rightarrow> urlRun \<Rightarrow> bool" where
  submits: "job \<notin> set (ur_accepted r) \<Longrightarrow> submit_check ctxErr hasReply job (ur_checks r) = (ok, u) \<Longrightarrow>
    url_step r (r\<lparr>ur_checks := u, ur_accepted := (if ok then job # ur_accepted r else ur_accepted r)\<rparr>)"
| context_ends: "url_step r (r\<lparr>ur_dead := insert job (ur_dead r)\<rparr>)"
| takes: "k < length (ur_workers r) \<Longrightarrow> ur_workers r ! k = WIdle \<Longrightarrow> uc_jobs (ur_checks r) = job # rest \<Longrightarrow>
    url_step r (r\<lparr>ur_checks := (ur_checks r)\<lparr>uc_jobs := rest\<rparr>,
      ur_workers := (ur_workers r)[k := WChecking job (job \<notin> ur_dead r \<and> \<not> uc_closed (ur_checks r))]\<rparr>)"
| answers: "k < length (ur_workers r) \<Longrightarrow> ur_workers r ! k = WChecking job live \<Longrightarrow>
    url_step r (r\<lparr>ur_workers := (ur_workers r)[k := WIdle],
      ur_passed := (if live \<and> verdict then insert job (ur_passed r) else ur_passed r),
      ur_replies := (job, allowed_after live verdict (job \<in> ur_dead r) (uc_closed (ur_checks r)), uc_closed (ur_checks r))
        # ur_replies r\<rparr>)"
| sees_close: "k < length (ur_workers r) \<Longrightarrow> ur_workers r ! k = WIdle \<Longrightarrow> uc_closed (ur_checks r) \<Longrightarrow>
    url_step r (r\<lparr>ur_workers := (ur_workers r)[k := WRejecting]\<rparr>)"
| rejects: "k < length (ur_workers r) \<Longrightarrow> ur_workers r ! k = WRejecting \<Longrightarrow> uc_jobs (ur_checks r) = job # rest \<Longrightarrow>
    url_step r (r\<lparr>ur_checks := (ur_checks r)\<lparr>uc_jobs := rest\<rparr>,
      ur_replies := (job, False, uc_closed (ur_checks r)) # ur_replies r\<rparr>)"
| leaves: "k < length (ur_workers r) \<Longrightarrow> ur_workers r ! k = WRejecting \<Longrightarrow> uc_jobs (ur_checks r) = [] \<Longrightarrow>
    url_step r (r\<lparr>ur_workers := (ur_workers r)[k := WGone]\<rparr>)"
| closes: "url_step r (r\<lparr>ur_checks := close_checks (ur_checks r)\<rparr>)"

section \<open>The invariant\<close>

fun in_hand :: "urlWorker \<Rightarrow> nat list" where
  "in_hand (WChecking job _) = [job]"
| "in_hand _ = []"

definition replied :: "urlRun \<Rightarrow> nat list" where "replied r = map fst (ur_replies r)"

text \<open>Every accepted job is queued, with a worker, or answered, and only one of these.\<close>

definition jobs_of :: "urlRun \<Rightarrow> nat multiset" where
  "jobs_of r = mset (uc_jobs (ur_checks r)) + mset (concat (map in_hand (ur_workers r))) + mset (replied r)"

definition replies_ok :: "urlRun \<Rightarrow> bool" where
  "replies_ok r \<longleftrightarrow> (\<forall>(job, allowed, closed) \<in> set (ur_replies r). allowed \<longrightarrow> job \<in> ur_passed r \<and> \<not> closed)"

definition workers_ok :: "urlRun \<Rightarrow> bool" where
  "workers_ok r \<longleftrightarrow> length (ur_workers r) = browserURLCheckWorkers
    \<and> (\<forall>w \<in> set (ur_workers r). w = WRejecting \<or> w = WGone \<longrightarrow> uc_closed (ur_checks r))
    \<and> (WGone \<in> set (ur_workers r) \<longrightarrow> uc_jobs (ur_checks r) = [])"

definition url_inv :: "urlRun \<Rightarrow> bool" where
  "url_inv r \<longleftrightarrow> distinct (ur_accepted r) \<and> mset (ur_accepted r) = jobs_of r
    \<and> length (uc_jobs (ur_checks r)) \<le> browserURLCheckPending \<and> replies_ok r \<and> workers_ok r"

lemma mset_in_hand_update:
  "k < length ws \<Longrightarrow> mset (concat (map in_hand (ws[k := w]))) + mset (in_hand (ws ! k))
     = mset (concat (map in_hand ws)) + mset (in_hand w)"
proof (induction ws arbitrary: k)
  case (Cons v ws)
  then show ?case by (cases k) (auto simp: ac_simps)
qed simp

lemma set_update_in: "x \<in> set (ws[k := w]) \<Longrightarrow> x \<in> set ws \<or> x = w"
  using set_update_subset_insert [of ws k w] by auto

lemma workers_ok_update:
  assumes "workers_ok r" "w \<in> {WRejecting, WGone} \<longrightarrow> uc_closed (ur_checks t)"
    "uc_closed (ur_checks r) \<longrightarrow> uc_closed (ur_checks t)" "ur_workers t = (ur_workers r)[k := w]"
    "w = WGone \<or> WGone \<in> set (ur_workers r) \<longrightarrow> uc_jobs (ur_checks t) = []"
  shows "workers_ok t"
  using assms by (auto simp: workers_ok_def dest!: set_update_in)

lemma workers_ok_same:
  assumes "workers_ok r" "uc_closed (ur_checks r) \<longrightarrow> uc_closed (ur_checks t)" "ur_workers t = ur_workers r"
    "WGone \<in> set (ur_workers r) \<longrightarrow> uc_jobs (ur_checks t) = []"
  shows "workers_ok t"
  using assms by (auto simp: workers_ok_def)

lemma url_step_inv: "url_step r t \<Longrightarrow> url_inv r \<Longrightarrow> url_inv t"
proof (induction rule: url_step.induct)
  case (submits job r ctxErr hasReply ok u)
  have inv: "mset (ur_accepted r) = jobs_of r" "distinct (ur_accepted r)" "replies_ok r" "workers_ok r"
    "length (uc_jobs (ur_checks r)) \<le> browserURLCheckPending"
    using submits(3) by (simp_all add: url_inv_def)
  show ?case
  proof (cases ok)
    case True
    then have u: "\<not> uc_closed (ur_checks r)" "length (uc_jobs (ur_checks r)) < browserURLCheckPending"
        "u = (ur_checks r)\<lparr>uc_jobs := uc_jobs (ur_checks r) @ [job]\<rparr>"
      using submits(2) by (auto simp: submit_check_def split: if_splits)
    let ?t = "r\<lparr>ur_checks := u, ur_accepted := job # ur_accepted r\<rparr>"
    have "WGone \<notin> set (ur_workers r)" using inv(4) u(1) by (auto simp: workers_ok_def)
    then have "workers_ok ?t" using u(3) by (intro workers_ok_same [OF inv(4)]) simp_all
    then show ?thesis using submits(1) True inv u(2,3) by (simp add: url_inv_def jobs_of_def replies_ok_def replied_def)
  next
    case False
    then have "u = ur_checks r" using submits(2) by (auto simp: submit_check_def split: if_splits)
    then show ?thesis using False submits(3) by simp
  qed
next
  case (context_ends r job)
  then show ?case by (simp add: url_inv_def jobs_of_def replies_ok_def replied_def workers_ok_def)
next
  case (takes k r job rest)
  let ?t = "r\<lparr>ur_checks := (ur_checks r)\<lparr>uc_jobs := rest\<rparr>,
      ur_workers := (ur_workers r)[k := WChecking job (job \<notin> ur_dead r \<and> \<not> uc_closed (ur_checks r))]\<rparr>"
  have "workers_ok ?t"
    by (rule workers_ok_update [of r _ ?t k]) (use takes(3,4) in \<open>auto simp: url_inv_def workers_ok_def\<close>)
  then show ?case using takes mset_in_hand_update [OF takes(1), of "WChecking job _"]
    by (auto simp: url_inv_def jobs_of_def replies_ok_def replied_def)
next
  case (answers k r job live verdict)
  let ?t = "r\<lparr>ur_workers := (ur_workers r)[k := WIdle],
      ur_passed := (if live \<and> verdict then insert job (ur_passed r) else ur_passed r),
      ur_replies := (job, allowed_after live verdict (job \<in> ur_dead r) (uc_closed (ur_checks r)), uc_closed (ur_checks r))
        # ur_replies r\<rparr>"
  have "workers_ok ?t" by (rule workers_ok_update [of r WIdle ?t k]) (use answers(3) in \<open>auto simp: url_inv_def workers_ok_def\<close>)
  moreover have "replies_ok ?t" using answers(3) by (auto simp: url_inv_def replies_ok_def allowed_after_def split: if_splits)
  ultimately show ?case using answers mset_in_hand_update [OF answers(1), of WIdle]
    by (auto simp: url_inv_def jobs_of_def replied_def)
next
  case (sees_close k r)
  have "workers_ok (r\<lparr>ur_workers := (ur_workers r)[k := WRejecting]\<rparr>)"
    by (rule workers_ok_update [of r WRejecting _ k]) (use sees_close(3,4) in \<open>auto simp: url_inv_def workers_ok_def\<close>)
  moreover have "mset (concat (map in_hand ((ur_workers r)[k := WRejecting]))) = mset (concat (map in_hand (ur_workers r)))"
    using mset_in_hand_update [OF sees_close(1), of WRejecting] sees_close(2) by simp
  ultimately show ?case using sees_close(4) by (simp add: url_inv_def jobs_of_def replies_ok_def replied_def)
next
  case (rejects k r job rest)
  let ?t = "r\<lparr>ur_checks := (ur_checks r)\<lparr>uc_jobs := rest\<rparr>, ur_replies := (job, False, uc_closed (ur_checks r)) # ur_replies r\<rparr>"
  have "workers_ok ?t" by (rule workers_ok_same [of r]) (use rejects(3,4) in \<open>auto simp: url_inv_def workers_ok_def\<close>)
  then show ?case using rejects by (auto simp: url_inv_def jobs_of_def replies_ok_def replied_def)
next
  case (leaves k r)
  have closed: "uc_closed (ur_checks r)" using leaves(1,2,4) nth_mem [OF leaves(1)] by (auto simp: url_inv_def workers_ok_def)
  have "workers_ok (r\<lparr>ur_workers := (ur_workers r)[k := WGone]\<rparr>)"
    by (rule workers_ok_update [of r WGone _ k]) (use closed leaves(3,4) in \<open>auto simp: url_inv_def\<close>)
  moreover have "mset (concat (map in_hand ((ur_workers r)[k := WGone]))) = mset (concat (map in_hand (ur_workers r)))"
    using mset_in_hand_update [OF leaves(1), of WGone] leaves(2) by simp
  ultimately show ?case using leaves(4) by (simp add: url_inv_def jobs_of_def replies_ok_def replied_def)
next
  case (closes r)
  have "workers_ok (r\<lparr>ur_checks := close_checks (ur_checks r)\<rparr>)"
    by (rule workers_ok_same [of r]) (use closes in \<open>auto simp: url_inv_def workers_ok_def close_checks_def\<close>)
  then show ?case using closes by (simp add: url_inv_def jobs_of_def replies_ok_def replied_def close_checks_def)
qed

lemma new_urlRun_inv: "url_inv new_urlRun"
  by (simp add: url_inv_def new_urlRun_def newBrowserURLChecks_def jobs_of_def replied_def replies_ok_def workers_ok_def
      browserURLCheckWorkers_def numeral_eq_Suc)

interpretation url_checks: bounded_system "\<lambda>r. r = new_urlRun" url_step url_inv
  "\<lambda>r. length (uc_jobs (ur_checks r))" browserURLCheckPending
proof unfold_locales
  show "url_inv r" if "r = new_urlRun" for r using that new_urlRun_inv by simp
  show "url_inv t" if "url_inv r" "url_step r t" for r t by (rule url_step_inv [OF that(2,1)])
  show "length (uc_jobs (ur_checks r)) \<le> browserURLCheckPending" if "url_inv r" for r using that by (simp add: url_inv_def)
qed

text \<open>C25: at most 32 URL checks wait; a check that was accepted is answered at most once, it is answered with \<open>allowed\<close> only when
  the URL passed its check and the pool was still open, and once every worker has gone, which is what \<open>close\<close> waits
  for, every accepted check has been answered.\<close>

theorem url_checks_fail_closed:
  assumes "reach (\<lambda>r. r = new_urlRun) url_step r"
  shows "length (uc_jobs (ur_checks r)) \<le> browserURLCheckPending
    \<and> distinct (map fst (ur_replies r)) \<and> set (map fst (ur_replies r)) \<subseteq> set (ur_accepted r)
    \<and> (\<forall>(job, allowed, closed) \<in> set (ur_replies r). allowed \<longrightarrow> job \<in> ur_passed r \<and> \<not> closed)
    \<and> ((\<forall>w \<in> set (ur_workers r). w = WGone) \<longrightarrow> set (map fst (ur_replies r)) = set (ur_accepted r))"
proof -
  have inv: "url_inv r" by (rule url_checks.reach_inv [OF assms])
  then have m: "mset (ur_accepted r) = jobs_of r" and d: "distinct (ur_accepted r)" by (simp_all add: url_inv_def)
  then obtain js where js: "mset (ur_accepted r) = mset (js @ replied r)"
    by (intro that [of "uc_jobs (ur_checks r) @ concat (map in_hand (ur_workers r))"]) (simp add: jobs_of_def)
  have "distinct (js @ replied r)" "set (js @ replied r) = set (ur_accepted r)"
    using d mset_eq_imp_distinct_iff [OF js] mset_eq_setD [OF js] by simp_all
  then have "distinct (replied r)" "set (replied r) \<subseteq> set (ur_accepted r)" by auto
  moreover have "set (replied r) = set (ur_accepted r)" if gone: "\<forall>w \<in> set (ur_workers r). w = WGone"
  proof -
    have "ur_workers r \<noteq> []" using inv by (auto simp: url_inv_def workers_ok_def browserURLCheckWorkers_def)
    then have "WGone \<in> set (ur_workers r)" using gone by (cases "ur_workers r") auto
    then have "uc_jobs (ur_checks r) = []" using inv by (simp add: url_inv_def workers_ok_def)
    moreover have "concat (map in_hand (ur_workers r)) = []" using gone by auto
    ultimately have "mset (ur_accepted r) = mset (replied r)" unfolding m jobs_of_def by simp
    then show ?thesis by (metis set_mset_mset)
  qed
  ultimately show ?thesis using inv url_checks.reach_load [OF assms] by (simp add: url_inv_def replies_ok_def replied_def)
qed

theorem url_checks_fail_closed_witness:
  "\<exists>r. reach (\<lambda>r. r = new_urlRun) url_step r \<and> ur_replies r = [(0, True, False)] \<and> 0 \<in> ur_passed r"
proof -
  let ?r1 = "new_urlRun\<lparr>ur_checks := \<lparr>uc_closed = False, uc_jobs = [0]\<rparr>, ur_accepted := [0]\<rparr>"
  let ?r2 = "?r1\<lparr>ur_checks := \<lparr>uc_closed = False, uc_jobs = []\<rparr>, ur_workers := [WChecking 0 True, WIdle, WIdle, WIdle]\<rparr>"
  let ?r3 = "?r2\<lparr>ur_workers := [WIdle, WIdle, WIdle, WIdle], ur_passed := {0}, ur_replies := [(0, True, False)]\<rparr>"
  note defs = new_urlRun_def newBrowserURLChecks_def browserURLCheckWorkers_def browserURLCheckPending_def numeral_eq_Suc
  have "reach (\<lambda>r. r = new_urlRun) url_step new_urlRun" by (rule reach_start) simp
  moreover have "url_step new_urlRun ?r1" using url_step.submits [of 0 new_urlRun False True True] by (simp add: submit_check_def defs)
  moreover have "url_step ?r1 ?r2" using url_step.takes [of 0 ?r1 0 "[]"] by (simp add: defs)
  moreover have "url_step ?r2 ?r3" using url_step.answers [of 0 ?r2 0 True True] by (simp add: allowed_after_def defs)
  ultimately have "reach (\<lambda>r. r = new_urlRun) url_step ?r3" by (iprover intro: reach_step)
  with url_checks_fail_closed [OF this] show ?thesis by (intro exI [of _ ?r3]) simp
qed

end
