(* ===== verification/UrlPolicy.thy ===== *)
theory UrlPolicy
  imports AgentArgs "HOL-Library.Word"
begin

text \<open>
  Which URLs the browser may visit (\<open>checkURLContext\<close>, \<open>safeBrowserURL\<close> in \<open>cmd/agent/browser.go\<close>,
  \<open>browserDiagnosticURL\<close> in \<open>browser_diagnostics.go\<close>, \<open>canonicalBrowserExistingURL\<close> in \<open>browser_existing_target.go\<close>,
  \<open>personalTargetOrigin\<close> in \<open>browser_discovery.go\<close>). An address is its sixteen bytes, as one 128-bit word; an IPv4
  address is mapped into them, as package \<open>net\<close> does. \<open>netlib\<close> holds what these functions take from outside: the
  parser and printer of \<open>net/url\<close>, \<open>net.ParseIP\<close>, the resolver, and \<open>strings.ToLower\<close> on all of Unicode.
\<close>

section \<open>Addresses\<close>

type_synonym ip = "128 word"

definition To4 :: "ip \<Rightarrow> 32 word option" where
  "To4 ip = (if drop_bit 32 ip = 0xffff then Some (ucast ip) else None)"

definition IsPrivate :: "ip \<Rightarrow> bool" where
  "IsPrivate ip \<longleftrightarrow> (case To4 ip of
     Some v \<Rightarrow> drop_bit 24 v = 10 \<or> drop_bit 20 v = 0xac1 \<or> drop_bit 16 v = 0xc0a8 | None \<Rightarrow> drop_bit 121 ip = 0x7e)"

definition IsLoopback :: "ip \<Rightarrow> bool" where
  "IsLoopback ip \<longleftrightarrow> (case To4 ip of Some v \<Rightarrow> drop_bit 24 v = 127 | None \<Rightarrow> ip = 1)"

definition IsLinkLocalUnicast :: "ip \<Rightarrow> bool" where
  "IsLinkLocalUnicast ip \<longleftrightarrow> (case To4 ip of Some v \<Rightarrow> drop_bit 16 v = 0xa9fe | None \<Rightarrow> drop_bit 118 ip = 0x3fa)"

definition IsUnspecified :: "ip \<Rightarrow> bool" where "IsUnspecified ip \<longleftrightarrow> ip = 0xffff00000000 \<or> ip = 0"

definition IsMulticast :: "ip \<Rightarrow> bool" where
  "IsMulticast ip \<longleftrightarrow> (case To4 ip of Some v \<Rightarrow> drop_bit 28 v = 0xe | None \<Rightarrow> drop_bit 120 ip = 0xff)"

section \<open>URLs\<close>

record browserURL =
  bu_Scheme :: string
  bu_Opaque :: string
  bu_hasUser :: bool
  bu_Host :: string
  bu_Path :: string
  bu_RawQuery :: string
  bu_Fragment :: string

record netlib =
  nl_Parse :: "string \<Rightarrow> browserURL option"
  nl_String :: "browserURL \<Rightarrow> string"
  nl_ParseIP :: "string \<Rightarrow> ip option"
  nl_LookupIPAddr :: "string \<Rightarrow> ip list option"
  nl_ToLower :: "string \<Rightarrow> string"

text \<open>\<open>Hostname\<close> of \<open>net/url\<close>: the host without its port and without the brackets of an IPv6 address.\<close>

definition strip_port :: "string \<Rightarrow> string" where
  "strip_port host =
    (let tl = rev (takeWhile (\<lambda>c. c \<noteq> CHR '':'') (rev host))
     in if CHR '':'' \<in> set host \<and> list_all (\<lambda>c. c \<in> set ''0123456789'') tl
        then take (length host - length tl - 1) host else host)"

definition Hostname :: "browserURL \<Rightarrow> string" where
  "Hostname u =
    (let host = strip_port (bu_Host u)
     in if HasPrefix host ''['' \<and> HasSuffix host '']'' then butlast (drop 1 host) else host)"

definition safeBrowserURL :: "netlib \<Rightarrow> string \<Rightarrow> string" where
  "safeBrowserURL N raw =
    (case nl_Parse N raw of None \<Rightarrow> []
     | Some u \<Rightarrow> nl_String N (u\<lparr>bu_RawQuery := [], bu_Fragment := [], bu_hasUser := False\<rparr>))"

definition browserDiagnosticURL :: "netlib \<Rightarrow> string \<Rightarrow> string" where
  "browserDiagnosticURL N raw =
    (case nl_Parse N raw of None \<Rightarrow> []
     | Some u \<Rightarrow> if bu_Scheme u \<noteq> ''https'' \<and> bu_Scheme u \<noteq> ''http'' \<or> bu_Host u = [] then []
                else bu_Scheme u @ ''://'' @ bu_Host u @ ''/'')"

definition canonicalBrowserExistingURL :: "netlib \<Rightarrow> string \<Rightarrow> string + string" where
  "canonicalBrowserExistingURL N raw =
    (case nl_Parse N raw of
       None \<Rightarrow> Inl ''invalid browser URL''
     | Some u \<Rightarrow>
        if bu_Opaque u \<noteq> [] \<or> bu_hasUser u \<or> bu_Host u = [] then Inl ''invalid browser URL''
        else let scheme = nl_ToLower N (bu_Scheme u) in
          if scheme \<noteq> ''http'' \<and> scheme \<noteq> ''https'' then Inl ''invalid browser URL''
          else Inr (nl_String N (u\<lparr>bu_Scheme := scheme, bu_Host := nl_ToLower N (bu_Host u),
                 bu_Path := (if bu_Path u = [] then ''/'' else bu_Path u)\<rparr>)))"

definition personalTargetOrigin :: "netlib \<Rightarrow> object \<Rightarrow> codedError + string" where
  "personalTargetOrigin N args =
    (let raw = (case optionalString args ''target_origin'' of Inr v \<Rightarrow> v | Inl _ \<Rightarrow> [])
     in if raw = [] then Inr []
        else let bad = toolErr ''invalid_arguments''
               ''target_origin must be an HTTP/HTTPS origin without credentials, path, query or fragment''
             in (case nl_Parse N raw of
                   None \<Rightarrow> Inl bad
                 | Some u \<Rightarrow>
                     if bu_hasUser u \<or> bu_Scheme u \<noteq> ''https'' \<and> bu_Scheme u \<noteq> ''http'' \<or> bu_Host u = []
                       \<or> bu_Path u \<noteq> [] \<and> bu_Path u \<noteq> ''/'' \<or> bu_RawQuery u \<noteq> [] \<or> bu_Fragment u \<noteq> []
                     then Inl bad else Inr (nl_ToLower N (bu_Scheme u @ ''://'' @ bu_Host u @ ''/''))))"

text \<open>\<open>ctxErr\<close> is the error of the caller's context; None as a result is Go's nil.\<close>

datatype callError = ContextErr string | CodedErr codedError

definition checkURLContext :: "netlib \<Rightarrow> bool \<Rightarrow> string option \<Rightarrow> string \<Rightarrow> callError option" where
  "checkURLContext N allowLocal ctxErr raw =
    (case ctxErr of
       Some e \<Rightarrow> Some (ContextErr e)
     | None \<Rightarrow>
        let invalid = Some (CodedErr (toolErr ''invalid_url'' ''only HTTP/HTTPS URLs without credentials are allowed'')) in
        (case nl_Parse N raw of
           None \<Rightarrow> invalid
         | Some u \<Rightarrow>
            if Hostname u = [] \<or> bu_Scheme u \<noteq> ''http'' \<and> bu_Scheme u \<noteq> ''https'' \<or> bu_hasUser u then invalid
            else if allowLocal then None
            else
              let host = nl_ToLower N (Hostname u); ip = nl_ParseIP N host in
              if host = ''localhost'' \<or> CHR ''.'' \<notin> set host \<and> ip = None \<or> HasSuffix host ''.local''
                \<or> (case ip of None \<Rightarrow> False
                   | Some a \<Rightarrow> IsPrivate a \<or> IsLoopback a \<or> IsLinkLocalUnicast a \<or> IsUnspecified a \<or> IsMulticast a)
              then Some (CodedErr (toolErr ''url_not_allowed'' ''local/intranet access is disabled locally''))
              else if ip \<noteq> None then None
              else (case nl_LookupIPAddr N host of
                      None \<Rightarrow> Some (CodedErr (toolErr ''url_not_allowed'' ''hostname could not be resolved safely''))
                    | Some addresses \<Rightarrow>
                        if list_ex (\<lambda>a. IsPrivate a \<or> IsLoopback a \<or> IsLinkLocalUnicast a \<or> IsUnspecified a) addresses
                        then Some (CodedErr (toolErr ''url_not_allowed'' ''hostname resolves to a local address''))
                        else None)))"

abbreviation checkURL :: "netlib \<Rightarrow> bool \<Rightarrow> string \<Rightarrow> callError option" where
  "checkURL N allowLocal raw \<equiv> checkURLContext N allowLocal None raw"

section \<open>No local address\<close>

text \<open>The local networks, by their first address and the length of their prefix.\<close>

definition local_networks :: "(ip \<times> nat) list" where
  "local_networks =
    [(0xffff0a000000, 104), (0xffffac100000, 108), (0xffffc0a80000, 112), (0xffff7f000000, 104), (0xffffa9fe0000, 112),
     (0xffff00000000, 128), (0, 128), (1, 128), (0xfc000000000000000000000000000000, 7), (0xfe800000000000000000000000000000, 10)]"

definition in_network :: "ip \<Rightarrow> ip \<times> nat \<Rightarrow> bool" where
  "in_network ip net \<longleftrightarrow> uint (fst net) \<le> uint ip \<and> uint ip < uint (fst net) + 2 ^ (128 - snd net)"

lemma div_eq_range: "(0::int) < d \<Longrightarrow> x div d = v \<longleftrightarrow> v * d \<le> x \<and> x < v * d + d"
proof
  assume d: "0 < d" and v: "x div d = v"
  have "v * d + x mod d = x" unfolding v [symmetric] by (rule div_mult_mod_eq)
  then show "v * d \<le> x \<and> x < v * d + d" using d pos_mod_sign [OF d, of x] pos_mod_bound [OF d, of x] by linarith
next
  assume d: "0 < d" and x: "v * d \<le> x \<and> x < v * d + d"
  then have "x = v * d + (x - v * d)" "0 \<le> x - v * d" "x - v * d < d" by simp_all
  then show "x div d = v" using d by (metis div_mult_self3 div_pos_pos_trivial add.right_neutral less_irrefl add.commute)
qed

lemma uint_drop: "uint (drop_bit n w) = uint w div 2 ^ n" for w :: "'a::len word"
  by (simp add: unsigned_drop_bit_eq drop_bit_eq_div [where 'a = int] take_bit_int_eq_self)

lemma drop_bit_eq_range:
  fixes ip :: "'a::len word"
  shows "drop_bit n ip = v \<longleftrightarrow> uint v * 2 ^ n \<le> uint ip \<and> uint ip < uint v * 2 ^ n + 2 ^ n"
  by (simp add: word_uint_eq_iff uint_drop div_eq_range)

lemma To4_Some: "To4 ip = Some v \<longleftrightarrow> uint ip = 0xffff00000000 + uint v"
proof
  assume "To4 ip = Some v"
  then have "drop_bit 32 ip = 0xffff" "v = ucast ip" by (auto simp: To4_def split: if_splits)
  then have "uint ip div 2 ^ 32 = 0xffff" "uint v = uint ip mod 2 ^ 32"
    by (simp_all add: word_uint_eq_iff uint_drop unsigned_ucast_eq take_bit_eq_mod)
  then show "uint ip = 0xffff00000000 + uint v" using div_mult_mod_eq [of "uint ip" "2 ^ 32"] by simp
next
  assume u: "uint ip = 0xffff00000000 + uint v"
  have "uint ip = uint v + 0xffff * 2 ^ 32" using u by simp
  moreover have "uint v div 2 ^ 32 = 0" "uint v mod 2 ^ 32 = uint v" using uint_lt2p [of v] by simp_all
  ultimately have "uint ip div 2 ^ 32 = 0xffff" "uint ip mod 2 ^ 32 = uint v"
    by (simp_all only: div_mult_self1 mod_mult_self1 mod_mult_self2 div_mult_self2) simp_all
  then have "drop_bit 32 ip = 0xffff" "ucast ip = v"
    by (simp_all add: word_uint_eq_iff uint_drop unsigned_ucast_eq take_bit_eq_mod)
  then show "To4 ip = Some v" by (simp add: To4_def)
qed

text \<open>An address the checks of a resolved host name refuse.\<close>

definition local_address :: "ip \<Rightarrow> bool" where
  "local_address a \<longleftrightarrow> IsPrivate a \<or> IsLoopback a \<or> IsLinkLocalUnicast a \<or> IsUnspecified a"

lemma To4_None: "To4 ip = None \<longleftrightarrow> uint ip < 0xffff00000000 \<or> 0x1000000000000 \<le> uint ip"
proof -
  have "drop_bit 32 ip = 0xffff \<longleftrightarrow> 0xffff00000000 \<le> uint ip \<and> uint ip < 0x1000000000000"
    by (simp add: drop_bit_eq_range)
  then show ?thesis by (auto simp: To4_def)
qed

lemma local_address_networks: "local_address a \<longleftrightarrow> (\<exists>net \<in> set local_networks. in_network a net)"
proof (cases "To4 a")
  case (Some v)
  have u: "uint a = 0xffff00000000 + uint v" "0 \<le> uint v" "uint v < 0x100000000"
    using Some uint_lt2p [of v] by (simp_all add: To4_Some)
  show ?thesis
    by (simp add: local_address_def IsPrivate_def IsLoopback_def IsLinkLocalUnicast_def IsUnspecified_def Some
        drop_bit_eq_range local_networks_def in_network_def word_uint_eq_iff [of a] u(1))
      (use u(2,3) in presburger)
next
  case None
  have u: "0 \<le> uint a" "uint a < 2 ^ 128" "uint a < 0xffff00000000 \<or> 0x1000000000000 \<le> uint a"
    using None uint_lt2p [of a] by (simp_all add: To4_None)
  show ?thesis
    by (simp add: local_address_def IsPrivate_def IsLoopback_def IsLinkLocalUnicast_def IsUnspecified_def None
        drop_bit_eq_range local_networks_def in_network_def word_uint_eq_iff [of a])
      (use u in presburger)
qed

text \<open>C24: with local access off, a URL that passes the check is an HTTP or HTTPS one without credentials, and neither the
  address it names nor any of those its host name resolves to lies in a local network: the private, loopback, link-local
  and unspecified ranges of IPv4 and IPv6, as ranges of addresses. A host name that cannot be resolved never passes.\<close>

theorem checked_urls_are_public:
  assumes "checkURL N False raw = None"
  shows "\<exists>u host. nl_Parse N raw = Some u \<and> bu_Scheme u \<in> {''http'', ''https''} \<and> \<not> bu_hasUser u
    \<and> host = nl_ToLower N (Hostname u) \<and> host \<noteq> ''localhost'' \<and> \<not> HasSuffix host ''.local''
    \<and> (case nl_ParseIP N host of
         Some a \<Rightarrow> \<forall>net \<in> set local_networks. \<not> in_network a net
       | None \<Rightarrow> CHR ''.'' \<in> set host \<and> (\<exists>as. nl_LookupIPAddr N host = Some as
           \<and> (\<forall>a \<in> set as. \<forall>net \<in> set local_networks. \<not> in_network a net)))"
proof -
  obtain u where u: "nl_Parse N raw = Some u" "bu_Scheme u \<in> {''http'', ''https''}" "\<not> bu_hasUser u"
    using assms by (auto simp: checkURLContext_def Let_def split: option.splits if_splits)
  let ?host = "nl_ToLower N (Hostname u)"
  have host: "?host \<noteq> ''localhost''" "\<not> HasSuffix ?host ''.local''"
    using assms u(1) by (auto simp: checkURLContext_def Let_def split: option.splits if_splits)
  have "case nl_ParseIP N ?host of
         Some a \<Rightarrow> \<not> local_address a
       | None \<Rightarrow> CHR ''.'' \<in> set ?host \<and> (\<exists>as. nl_LookupIPAddr N ?host = Some as \<and> (\<forall>a \<in> set as. \<not> local_address a))"
    using assms u(1)
    by (auto simp: checkURLContext_def Let_def local_address_def list_ex_iff split: option.splits if_splits)
  then show ?thesis using u host
    by (intro exI [of _ u] exI [of _ ?host]) (simp add: local_address_networks split: option.splits)
qed

definition example_lib :: "ip \<Rightarrow> netlib" where
  "example_lib a = \<lparr>nl_Parse = (\<lambda>raw. if raw = ''http://go.dev/'' then Some \<lparr>bu_Scheme = ''http'', bu_Opaque = [], bu_hasUser = False,
       bu_Host = ''go.dev'', bu_Path = ''/'', bu_RawQuery = [], bu_Fragment = []\<rparr> else None),
     nl_String = bu_Host, nl_ParseIP = (\<lambda>_. None), nl_LookupIPAddr = (\<lambda>_. Some [a]), nl_ToLower = id\<rparr>"

lemma example_checked:
  "\<not> local_address a \<Longrightarrow> checkURL (example_lib a) False ''http://go.dev/'' = None"
  by (simp add: checkURLContext_def example_lib_def Hostname_def strip_port_def HasPrefix_def HasSuffix_def local_address_def Let_def)

theorem checked_urls_are_public_witness:
  "\<exists>as. nl_LookupIPAddr (example_lib 0xffff08080808) ''go.dev'' = Some as
     \<and> (\<forall>a \<in> set as. \<forall>net \<in> set local_networks. \<not> in_network a net)"
proof -
  have "To4 0xffff08080808 = Some 0x08080808" by code_simp
  then have "\<not> local_address 0xffff08080808"
    unfolding local_address_def IsPrivate_def IsLoopback_def IsLinkLocalUnicast_def IsUnspecified_def by (simp only: option.case) code_simp
  from checked_urls_are_public [OF example_checked [OF this]]
  show ?thesis by (simp add: example_lib_def Hostname_def strip_port_def HasPrefix_def HasSuffix_def)
qed

text \<open>The check of a resolved name leaves out multicast addresses, which the one of a literal address refuses.\<close>

theorem resolved_multicast_passes:
  "IsMulticast 0xffffe0000001 \<and> checkURL (example_lib 0xffffe0000001) False ''http://go.dev/'' = None
   \<and> (\<forall>N raw u. nl_Parse N raw = Some u \<and> nl_ParseIP N (nl_ToLower N (Hostname u)) = Some 0xffffe0000001
        \<longrightarrow> checkURL N False raw \<noteq> None)"
proof -
  have t: "To4 0xffffe0000001 = Some 0xe0000001" by code_simp
  then have m: "IsMulticast 0xffffe0000001" unfolding IsMulticast_def by (simp only: option.case) code_simp
  have "\<not> local_address 0xffffe0000001"
    unfolding local_address_def IsPrivate_def IsLoopback_def IsLinkLocalUnicast_def IsUnspecified_def t by (simp only: option.case) code_simp
  then show ?thesis using m example_checked by (auto simp: checkURLContext_def Let_def split: if_splits)
qed

end
