(* ===== verification/BrowserLink.thy ===== *)
theory BrowserLink
  imports BrowserOperations UrlPolicy CommandLogs
begin

text \<open>
  A connected browser extension (\<open>browserBridge\<close> of \<open>cmd/agent/browser_bridge.go\<close>): what it is, which commands it may be
  sent (\<open>callFrame\<close>), how it identifies itself and how a personal browser is chosen (\<open>browser_discovery.go\<close>), how one
  of its tabs is (\<open>browser_existing_target.go\<close>), and the framing of native messages. The texts a link writes are
  not represented, only their messages.
\<close>

section \<open>Data\<close>

definition browserCommandProtocol :: int where "browserCommandProtocol = 2"
definition browserBridgeMax :: nat where "browserBridgeMax = 2 ^ 20"
definition browserPersonalTabLimit :: nat where "browserPersonalTabLimit = 128"
definition browserBridgeConnections :: nat where "browserBridgeConnections = 8"

record browserPersonalTab =
  pt_ID :: int
  pt_URL :: string
  pt_Title :: string
  pt_WindowID :: int
  pt_Active :: bool

record browserBridgeMessage =
  mk_Kind :: string
  mk_ID :: string
  mk_Token :: string
  mk_Origin :: string
  mk_Action :: string
  mk_TabID :: int
  mk_FrameID :: string
  mk_Method :: string
  mk_Params :: json
  mk_Result :: raw_json
  mk_Error :: string
  mk_Tabs :: "browserPersonalTab list"
  mk_Paused :: bool
  mk_LocalPaused :: bool
  mk_AllowNew :: bool
  mk_AllowLocal :: bool
  mk_URL :: string
  mk_Allowed :: bool
  mk_ProfileID :: string
  mk_Alias :: string
  mk_Product :: string
  mk_CommandProtocol :: int
  mk_ConnectionID :: string
  mk_DeadlineMS :: int
  mk_ScopeEpoch :: "64 word"
  mk_ControlEpoch :: "64 word"
  mk_Capabilities :: "string list"
  mk_ExtensionVersion :: string
  mk_ExpectedURL :: string
  mk_ExpectedWindowID :: int

text \<open>A message with only its kind.\<close>

definition message_of :: "string \<Rightarrow> browserBridgeMessage" where
  "message_of kind = \<lparr>mk_Kind = kind, mk_ID = [], mk_Token = [], mk_Origin = [], mk_Action = [], mk_TabID = 0, mk_FrameID = [],
     mk_Method = [], mk_Params = JNull, mk_Result = Malformed [], mk_Error = [], mk_Tabs = [], mk_Paused = False,
     mk_LocalPaused = False, mk_AllowNew = False, mk_AllowLocal = False, mk_URL = [], mk_Allowed = False, mk_ProfileID = [],
     mk_Alias = [], mk_Product = [], mk_CommandProtocol = 0, mk_ConnectionID = [], mk_DeadlineMS = 0, mk_ScopeEpoch = 0,
     mk_ControlEpoch = 0, mk_Capabilities = [], mk_ExtensionVersion = [], mk_ExpectedURL = [], mk_ExpectedWindowID = 0\<rparr>"

record browserTargetBinding =
  tb_Revision :: string
  tb_URL :: string
  tb_Connection :: string
  tb_Window :: int
  tb_NativeTab :: int
  tb_Scope :: "64 word"

text \<open>
  \<open>bb_attached\<close> maps a tab of the browser to the tab of a session, \<open>bb_pending\<close> a request to what its buffered channel
  holds, \<open>bb_sent\<close> are the messages written to the extension, oldest first.
\<close>

record browserBridge =
  bb_id :: string
  bb_profileID :: string
  bb_alias :: string
  bb_product :: string
  bb_commandProtocol :: int
  bb_scopeEpoch :: "64 word"
  bb_controlEpoch :: "64 word"
  bb_capabilities :: "string list"
  bb_extensionVersion :: string
  bb_allowNew :: bool
  bb_paused :: bool
  bb_localPaused :: bool
  bb_closed :: bool
  bb_tabs :: "browserPersonalTab list"
  bb_attached :: "(int \<times> string) list"
  bb_pending :: "(string \<times> browserBridgeMessage option) list"
  bb_sent :: "browserBridgeMessage list"

definition new_bridge :: "string \<Rightarrow> browserBridge" where
  "new_bridge i = \<lparr>bb_id = i, bb_profileID = [], bb_alias = [], bb_product = [], bb_commandProtocol = 0, bb_scopeEpoch = 0,
     bb_controlEpoch = 0, bb_capabilities = [], bb_extensionVersion = [], bb_allowNew = False, bb_paused = False,
     bb_localPaused = False, bb_closed = False, bb_tabs = [], bb_attached = [], bb_pending = [], bb_sent = []\<rparr>"

definition supports :: "browserBridge \<Rightarrow> string \<Rightarrow> bool" where
  "supports l capability \<longleftrightarrow> capability \<in> set (bb_capabilities l)"

definition browserTargetCapability :: string where "browserTargetCapability = ''target_binding_v1''"

text \<open>An argument read for its value only; an error leaves it empty.\<close>

definition arg_string :: "object \<Rightarrow> string \<Rightarrow> string" where
  "arg_string args name = (case optionalString args name of Inr v \<Rightarrow> v | Inl _ \<Rightarrow> [])"

section \<open>Commands\<close>

text \<open>
  \<open>sendContext\<close>: \<open>nbytes\<close> is the length of the encoded message; \<open>wr\<close> says how the write ends for the caller (its own
  error, the one of the context that ends meanwhile, or the time limit) and whether the message goes out, which it may
  also when the caller has stopped waiting.
\<close>

definition sendContext :: "string option \<Rightarrow> nat \<Rightarrow> string option \<times> bool \<Rightarrow> browserBridgeMessage \<Rightarrow> browserBridge \<Rightarrow> string option \<times> browserBridge" where
  "sendContext ctxErr nbytes wr message l =
    (case ctxErr of
       Some e \<Rightarrow> (Some e, l)
     | None \<Rightarrow>
        if nbytes \<ge> browserBridgeMax then (Some ''browser message exceeds limit'', l)
        else (fst wr, if snd wr then l\<lparr>bb_sent := bb_sent l @ [message]\<rparr> else l))"

text \<open>What a call's context carries: the access and the target it is bound to, whether it is a user gesture.\<close>

record callContext =
  cx_err :: "string option"
  cx_access :: "(string \<times> 64 word) option"
  cx_target :: "browserTargetBinding option"
  cx_gesture :: bool
  cx_deadline :: "time option"

definition bindAccess :: "browserBridge \<Rightarrow> callContext \<Rightarrow> callContext" where
  "bindAccess l cx = cx\<lparr>cx_access := Some (bb_id l, bb_scopeEpoch l)\<rparr>"

definition browserMayChange :: "bool \<Rightarrow> string \<Rightarrow> bool" where
  "browserMayChange gesture cdp_method \<longleftrightarrow>
     HasPrefix cdp_method ''Input.''
     \<or> cdp_method \<in> {''Page.navigate'', ''Page.reload'', ''Page.navigateToHistoryEntry'', ''Page.handleJavaScriptDialog'',
         ''Page.bringToFront'', ''DOM.setFileInputFiles'', ''WebCodex.newTab'', ''WebCodex.closeTab'',
         ''WebCodex.enableDownloads'', ''WebCodex.prepare'', ''Browser.launch''}
     \<or> cdp_method = ''Runtime.evaluate'' \<and> gesture"

definition browserMarkDispatch :: "bool \<Rightarrow> string \<Rightarrow> browserExecutionState \<Rightarrow> browserExecutionState" where
  "browserMarkDispatch gesture cdp_method state =
    (if browserMayChange gesture cdp_method then state\<lparr>ex_dispatched := True, ex_phase := 3\<rparr> else state)"

text \<open>
  The checks of \<open>callFrame\<close> under the link's lock; they leave the expected URL and window of the command, and a pending
  request under its fresh id.
\<close>

definition callFrame_begin :: "callContext \<Rightarrow> string \<Rightarrow> int \<Rightarrow> string \<Rightarrow> browserBridge \<Rightarrow> callError + (string \<times> int) \<times> browserBridge" where
  "callFrame_begin cx i tabID cdp_method l =
    (case cx_err cx of
       Some e \<Rightarrow> Inl (ContextErr e)
     | None \<Rightarrow>
        if bb_closed l \<or> bb_paused l then Inl (CodedErr (toolErr ''access_paused'' ''personal browser disconnected or paused''))
        else if (case cx_access cx of None \<Rightarrow> False | Some (connection, scope) \<Rightarrow> connection \<noteq> bb_id l \<or> scope \<noteq> bb_scopeEpoch l)
        then Inl (CodedErr (toolErr ''scope_changed'' ''local browser access changed; obtain fresh state''))
        else if (case cx_target cx of None \<Rightarrow> False
                 | Some b \<Rightarrow> tb_Connection b \<noteq> bb_id l \<or> tb_Scope b \<noteq> bb_scopeEpoch l \<or> tb_NativeTab b \<noteq> tabID)
        then Inl (CodedErr (toolErr ''binding_changed'' (browserFailureMessage ''binding_changed'')))
        else if browserMayChange (cx_gesture cx) cdp_method \<and> bb_commandProtocol l \<noteq> browserCommandProtocol
        then Inl (CodedErr (toolErr ''protocol_upgrade_required'' ''update the browser extension before changing the page''))
        else Inr ((case cx_target cx of None \<Rightarrow> ([], 0) | Some b \<Rightarrow> (tb_URL b, tb_Window b)),
                  l\<lparr>bb_pending := AList.update i None (bb_pending l)\<rparr>))"

text \<open>The command, sent with the protocol, scope and id the checks saw.\<close>

definition callFrame_message :: "time \<Rightarrow> callContext \<Rightarrow> string \<Rightarrow> int \<Rightarrow> string \<Rightarrow> string \<Rightarrow> json \<Rightarrow> string \<times> int \<Rightarrow> browserBridge \<Rightarrow> browserBridgeMessage" where
  "callFrame_message now cx i tabID frameID cdp_method params expected l =
    (let latest = now + 30 * second;
         deadline = (case cx_deadline cx of Some until \<Rightarrow> if until < latest then until else latest | None \<Rightarrow> latest)
     in (message_of ''command'')\<lparr>mk_ID := i, mk_TabID := tabID, mk_FrameID := frameID, mk_Method := cdp_method, mk_Params := params,
          mk_CommandProtocol := bb_commandProtocol l, mk_ConnectionID := bb_id l, mk_ScopeEpoch := bb_scopeEpoch l,
          mk_DeadlineMS := deadline div 1000000, mk_ExpectedURL := fst expected, mk_ExpectedWindowID := snd expected\<rparr>)"

definition callFrame_send :: "time \<Rightarrow> nat \<Rightarrow> string option \<Rightarrow> string option \<times> bool \<Rightarrow> string option \<Rightarrow> callContext \<Rightarrow> string \<Rightarrow> int \<Rightarrow>
    string \<Rightarrow> string \<Rightarrow> json \<Rightarrow> browserBridge \<Rightarrow> callError option \<times> browserBridge" where
  "callFrame_send now nbytes ctxErr wr ctxAfter cx i tabID frameID cdp_method params l =
    (case callFrame_begin cx i tabID cdp_method l of
       Inl e \<Rightarrow> (Some e, l)
     | Inr (expected, l1) \<Rightarrow>
        (case sendContext ctxErr nbytes wr (callFrame_message now cx i tabID frameID cdp_method params expected l) l1 of
           (None, l2) \<Rightarrow> (None, l2)
         | (Some _, l2) \<Rightarrow>
             (Some (case ctxAfter of Some e \<Rightarrow> ContextErr e
                    | None \<Rightarrow> CodedErr (toolErr ''disconnected'' ''native bridge write failed'')),
              l2\<lparr>bb_pending := AList.delete i (bb_pending l2)\<rparr>)))"

text \<open>The end of a call that was answered: None is a channel closed by the end of the connection.\<close>

definition callFrame_end :: "(raw_json \<Rightarrow> 'a option) option \<Rightarrow> browserBridgeMessage option \<Rightarrow> callError + 'a option" where
  "callFrame_end decode response =
    (case response of
       None \<Rightarrow> Inl (CodedErr (toolErr ''disconnected'' ''personal browser disconnected''))
     | Some m \<Rightarrow>
        if mk_Error m \<noteq> [] then Inl (CodedErr (browserTransportFailure (mk_Error m)))
        else (case decode of
                None \<Rightarrow> Inr None
              | Some f \<Rightarrow> (case f (mk_Result m) of
                    None \<Rightarrow> Inl (CodedErr (toolErr ''browser_failed'' ''invalid extension response''))
                  | Some v \<Rightarrow> Inr (Some v))))"

text \<open>The message that withdraws a command whose context is over.\<close>

definition callFrame_cancel :: "string \<Rightarrow> browserBridge \<Rightarrow> browserBridgeMessage option" where
  "callFrame_cancel i l =
    (if bb_commandProtocol l = browserCommandProtocol
     then Some ((message_of ''command_cancel'')\<lparr>mk_ID := i, mk_ConnectionID := bb_id l, mk_CommandProtocol := bb_commandProtocol l\<rparr>)
     else None)"

text \<open>The answer to a command: the first one that comes is kept.\<close>

definition handle_response :: "browserBridgeMessage \<Rightarrow> browserBridge \<Rightarrow> browserBridge" where
  "handle_response m l =
    (case map_of (bb_pending l) (mk_ID m) of
       Some None \<Rightarrow> l\<lparr>bb_pending := AList.update (mk_ID m) (Some m) (bb_pending l)\<rparr>
     | _ \<Rightarrow> l)"

end
