(* ===== verification/BrowserDiscovery.thy ===== *)
theory BrowserDiscovery
  imports BrowserLink
begin

text \<open>
  How a personal browser and one of its tabs are found: \<open>cmd/agent/browser_discovery.go\<close> and
  \<open>cmd/agent/browser_existing_target.go\<close>, with the framing of native messages of \<open>browser_bridge.go\<close>. The links a
  manager knows are an association list; its order stands for the order of a Go map.
\<close>

section \<open>Identity\<close>

definition browserProfileID :: "string \<Rightarrow> bool" where
  "browserProfileID s \<longleftrightarrow> HasPrefix s ''profile_'' \<and> length s = 40 \<and> list_all lower_hex (drop 8 s)"

text \<open>The control characters of Unicode in UTF-8: one byte, or two that start with 0xC2.\<close>

fun has_control :: "string \<Rightarrow> bool" where
  "has_control [] = False"
| "has_control (c # s) \<longleftrightarrow> (of_char c :: nat) < 0x20 \<or> (of_char c :: nat) = 0x7F
     \<or> (of_char c :: nat) = 0xC2 \<and> (case s of d # _ \<Rightarrow> 0x80 \<le> (of_char d :: nat) \<and> (of_char d :: nat) < 0xA0 | [] \<Rightarrow> False)
     \<or> has_control s"

text \<open>On a valid string the runes are the bytes that continue no other.\<close>

definition RuneCount :: "string \<Rightarrow> nat" where
  "RuneCount s = length (filter (\<lambda>c. \<not> continuation c) s)"

definition validBrowserAlias :: "string \<Rightarrow> bool" where
  "validBrowserAlias alias \<longleftrightarrow> valid_utf8 alias \<and> RuneCount alias \<le> 64 \<and> \<not> has_control alias \<and> alias = TrimSpace alias"

definition capability_char :: "char \<Rightarrow> bool" where
  "capability_char c \<longleftrightarrow> c \<in> set ''abcdefghijklmnopqrstuvwxyz0123456789_''"

type_synonym links = "(string \<times> browserBridge) list"

text \<open>What \<open>identifyBrowser\<close> checks of the message alone. \<open>strings.Trim\<close> leaves nothing exactly of a capability of these characters.\<close>

definition identity_ok :: "browserBridgeMessage \<Rightarrow> bool" where
  "identity_ok m \<longleftrightarrow>
     length (mk_Capabilities m) \<le> 16 \<and> length (mk_ExtensionVersion m) \<le> 32
   \<and> list_all (\<lambda>c. length c \<le> 64 \<and> list_all capability_char c) (mk_Capabilities m)
   \<and> 0 \<le> mk_CommandProtocol m \<and> mk_CommandProtocol m \<le> browserCommandProtocol
   \<and> browserProfileID (mk_ProfileID m) \<and> validBrowserAlias (mk_Alias m)
   \<and> mk_Product m \<in> {''chrome'', ''edge'', ''chromium'', ''unknown''}"

text \<open>None is the refusal, after which the connection ends.\<close>

definition identifyBrowser :: "string \<Rightarrow> browserBridgeMessage \<Rightarrow> links \<Rightarrow> links option" where
  "identifyBrowser i m links =
    (if \<not> identity_ok m then None
     else if list_ex (\<lambda>(k, other). k \<noteq> i \<and> bb_profileID other = mk_ProfileID m \<and> \<not> bb_closed other) links then None
     else (case map_of links i of
             None \<Rightarrow> None
           | Some l \<Rightarrow>
               if bb_profileID l \<noteq> [] \<and> bb_profileID l \<noteq> mk_ProfileID m then None
               else Some (AList.update i (l\<lparr>bb_profileID := mk_ProfileID m, bb_alias := mk_Alias m, bb_product := mk_Product m,
                            bb_commandProtocol := mk_CommandProtocol m, bb_capabilities := mk_Capabilities m,
                            bb_extensionVersion := mk_ExtensionVersion m\<rparr>) links)))"

section \<open>The tab\<close>

record browserExistingChoice =
  ch_Tab :: browserPersonalTab
  ch_Matches :: nat
  ch_Reason :: string

text \<open>The order of \<open>sort.Slice\<close>: active tabs first, then by window, then by id.\<close>

definition tab_order :: "browserPersonalTab \<Rightarrow> bool \<times> int \<times> int" where
  "tab_order t = (\<not> pt_Active t, pt_WindowID t, pt_ID t)"

definition tab_matches :: "netlib \<Rightarrow> string \<Rightarrow> int \<Rightarrow> browserPersonalTab \<Rightarrow> bool" where
  "tab_matches N wanted windowID t \<longleftrightarrow>
     \<not> (pt_ID t \<le> 0 \<or> windowID > 0 \<and> pt_WindowID t \<noteq> windowID) \<and> canonicalBrowserExistingURL N (pt_URL t) = Inr wanted"

definition chooseBrowserExistingTab :: "netlib \<Rightarrow> browserPersonalTab list \<Rightarrow> string \<Rightarrow> int \<Rightarrow> codedError + browserExistingChoice" where
  "chooseBrowserExistingTab N ts exactURL windowID =
    (if windowID < 0 then Inl (toolErr ''invalid_arguments'' ''window_id must be zero or greater'')
     else (case canonicalBrowserExistingURL N exactURL of
             Inl _ \<Rightarrow> Inl (toolErr ''invalid_arguments'' ''exact_url must be an absolute HTTP/HTTPS URL without credentials'')
           | Inr wanted \<Rightarrow>
              let found = filter (tab_matches N wanted windowID) ts in
              if found = [] then Inl (toolErr ''tab_not_found'' ''no approved browser tab matches the requested URL and window'')
              else let sorted = sort_key tab_order found;
                       reason = (if length sorted > 1
                                 then if length (filter pt_Active sorted) = 1 then ''exact_url_active'' else ''exact_url_deterministic''
                                 else ''exact_url_unique'')
                   in Inr \<lparr>ch_Tab = hd sorted, ch_Matches = length sorted, ch_Reason = reason\<rparr>))"

section \<open>The browser\<close>

text \<open>\<open>legacy\<close> is the manager's single link of old extensions; it counts only when there is no other.\<close>

definition personalConnections :: "links \<Rightarrow> browserBridge option \<Rightarrow> browserBridge list" where
  "personalConnections links legacy =
    (let ls = map snd links in if ls = [] then (case legacy of None \<Rightarrow> [] | Some l \<Rightarrow> [l]) else ls)"

definition link_wanted :: "netlib \<Rightarrow> object \<Rightarrow> string \<Rightarrow> browserBridge \<Rightarrow> bool" where
  "link_wanted N args origin l \<longleftrightarrow>
     \<not> bb_closed l
   \<and> list_all (\<lambda>(name, v). arg_string args name = [] \<or> arg_string args name = v)
       [(''connection_id'', bb_id l), (''profile_id'', bb_profileID l), (''browser_alias'', bb_alias l),
        (''preferred_browser'', bb_product l)]
   \<and> (origin \<noteq> [] \<longrightarrow> list_ex (\<lambda>t. nl_ToLower N (browserDiagnosticURL N (pt_URL t)) = origin) (bb_tabs l))"

definition choosePersonal :: "netlib \<Rightarrow> object \<Rightarrow> string \<Rightarrow> browserBridge list \<Rightarrow> codedError + browserBridge" where
  "choosePersonal N args origin connections =
    (let exactURL = arg_string args ''exact_url'';
         windowID = (case optionalInt args ''window_id'' 0 0 2147483647 of Inr w \<Rightarrow> w | Inl _ \<Rightarrow> 0);
         wanted = filter (link_wanted N args origin) connections;
         matched = filter (\<lambda>l. exactURL \<noteq> [] \<longrightarrow> (case chooseBrowserExistingTab N (bb_tabs l) exactURL windowID of
                              Inr _ \<Rightarrow> True | Inl _ \<Rightarrow> False)) wanted
     in if matched = []
        then if exactURL \<noteq> [] \<and> wanted \<noteq> []
             then Inl (toolErr ''tab_not_found'' ''no approved tab matches the exact URL and window'')
             else Inl (toolErr ''browser_not_found'' ''no connected personal browser matches; use browser_control action=discover'')
        else if length matched \<noteq> 1
        then Inl (toolErr ''ambiguous_browser'' ''multiple personal browsers match; choose a profile_id or local alias from discovery'')
        else Inr (hd matched))"

section \<open>Discovery\<close>

definition tab_entry :: "netlib \<Rightarrow> browserPersonalTab \<Rightarrow> json" where
  "tab_entry N t = JObj [(''url'', JStr (safeBrowserURL N (pt_URL t))), (''title'', JStr (pt_Title t)),
     (''window_id'', JNum (of_int (pt_WindowID t))), (''active'', JBool (pt_Active t))]"

text \<open>A browser of the answer: its identity and its tabs.\<close>

type_synonym browserEntry = "object \<times> json list"

definition browser_entry :: "netlib \<Rightarrow> browserBridge \<Rightarrow> browserEntry" where
  "browser_entry N l =
    ([(''connection_id'', JStr (bb_id l)), (''profile_id'', JStr (bb_profileID l)), (''alias'', JStr (bb_alias l)),
      (''product'', JStr (if bb_product l = [] then ''unknown'' else bb_product l)), (''paused'', JBool (bb_paused l)),
      (''identified'', JBool (bb_profileID l \<noteq> [])), (''extension_version'', JStr (bb_extensionVersion l)),
      (''capabilities'', JArr (map JStr (bb_capabilities l)))],
     map (tab_entry N) (bb_tabs l))"

definition entry_json :: "browserEntry \<Rightarrow> json" where
  "entry_json e = JObj (fst e @ [(''tabs'', JArr (snd e))])"

definition discovery_answer :: "string \<times> string \<Rightarrow> string \<Rightarrow> browserEntry list \<Rightarrow> bool \<Rightarrow> object" where
  "discovery_answer health version browsers dropped =
    [(''status'', JStr ''ready''), (''truncated'', JBool dropped), (''browsers'', JArr (map entry_json browsers)),
     (''health'', JStr (fst health)), (''health_reason'', JStr (snd health)), (''agent_version'', JStr version)]"

text \<open>The first browser with the most tabs, when one has any.\<close>

fun largest :: "browserEntry list \<Rightarrow> nat option" where
  "largest [] = None"
| "largest (e # es) =
    (case largest es of
       None \<Rightarrow> if snd e = [] then None else Some 0
     | Some k \<Rightarrow> if length (snd (es ! k)) \<le> length (snd e) then Some 0 else Some (Suc k))"

definition halve :: "nat \<Rightarrow> browserEntry list \<Rightarrow> browserEntry list" where
  "halve k es = es[k := (fst (es ! k), take (length (snd (es ! k)) div 2) (snd (es ! k)))]"

definition tab_count :: "browserEntry list \<Rightarrow> nat" where
  "tab_count es = sum_list (map (length \<circ> snd) es)"

lemma largest_Some: "largest es = Some k \<Longrightarrow> k < length es \<and> snd (es ! k) \<noteq> []"
  by (induction es arbitrary: k) (auto split: option.splits if_splits)

lemma halve_count:
  assumes "largest es = Some k"
  shows "tab_count (halve k es) < tab_count es"
proof -
  let ?ns = "map (length \<circ> snd) es"
  have k: "k < length es" "snd (es ! k) \<noteq> []" using largest_Some [OF assms] by auto
  have "?ns ! k \<le> sum_list ?ns" by (rule elem_le_sum_list) (simp add: k(1))
  moreover have "length (snd (es ! k)) div 2 < ?ns ! k" using k by simp
  moreover have "map (length \<circ> snd) (halve k es) = ?ns[k := length (snd (es ! k)) div 2]" by (simp add: halve_def map_update)
  ultimately show ?thesis using k(1) by (simp add: tab_count_def sum_list_update)
qed

text \<open>\<open>fits\<close> is whether the encoded answer keeps to 64 KiB.\<close>

function shrink :: "(browserEntry list \<Rightarrow> bool \<Rightarrow> bool) \<Rightarrow> browserEntry list \<Rightarrow> bool \<Rightarrow> browserEntry list \<times> bool" where
  "shrink fits es dropped =
    (if fits es dropped then (es, dropped)
     else (case largest es of None \<Rightarrow> (es, dropped) | Some k \<Rightarrow> shrink fits (halve k es) True))"
  by pat_completeness auto

termination by (relation "measure (\<lambda>(_, es, _). tab_count es)") (auto simp: halve_count)

declare shrink.simps [simp del]

definition connection_name :: "browserEntry \<Rightarrow> string" where
  "connection_name e = (case map_of (fst e) ''connection_id'' of Some (JStr s) \<Rightarrow> s | _ \<Rightarrow> [])"

text \<open>\<open>encoded\<close> is the length of the JSON text of an answer.\<close>

definition discoverPersonal :: "netlib \<Rightarrow> (object \<Rightarrow> nat) \<Rightarrow> string \<Rightarrow> browserManager \<Rightarrow> browserBridge list \<Rightarrow> object" where
  "discoverPersonal N encoded version b connections =
    (let browsers = sort_key connection_name (map (browser_entry N) (filter (\<lambda>l. \<not> bb_closed l) connections));
         answer = discovery_answer (healthLocked b) version;
         (es, dropped) = shrink (\<lambda>es t. encoded (answer es t) \<le> 65536) browsers False
     in answer es dropped)"

section \<open>Native messages\<close>

definition le_bytes :: "32 word \<Rightarrow> string" where
  "le_bytes w = map (\<lambda>k. char_of (unat (drop_bit (8 * k) w) mod 256)) [0, 1, 2, 3]"

definition le_word :: "string \<Rightarrow> 32 word" where
  "le_word bs = of_nat (foldr (\<lambda>c acc. of_char c + 256 * acc) bs 0)"

text \<open>The message and the rest of the stream; \<open>valid\<close> is \<open>json.Valid\<close>.\<close>

definition readNativeMessage :: "(string \<Rightarrow> bool) \<Rightarrow> string \<Rightarrow> (string + string) \<times> string" where
  "readNativeMessage valid stream =
    (if stream = [] then (Inl ''EOF'', [])
     else if length stream < 4 then (Inl ''unexpected EOF'', [])
     else let n = le_word (take 4 stream); rest = drop 4 stream in
       if n = 0 \<or> unat n > browserBridgeMax then (Inl ''native message exceeds limit'', rest)
       else if rest = [] then (Inl ''EOF'', [])
       else if length rest < unat n then (Inl ''unexpected EOF'', [])
       else let data = take (unat n) rest in
         (if valid data then Inr data else Inl ''invalid native JSON'', drop (unat n) rest))"

text \<open>What is written to a writer that takes everything.\<close>

definition writeNativeMessage :: "(string \<Rightarrow> bool) \<Rightarrow> string \<Rightarrow> string + string" where
  "writeNativeMessage valid data =
    (if data = [] \<or> length data > browserBridgeMax \<or> \<not> valid data then Inl ''invalid native message''
     else Inr (le_bytes (of_nat (length data)) @ data))"

end
