(* ===== verification/DiscoveryFacts.thy ===== *)
theory DiscoveryFacts
  imports BrowserDiscovery "HOL-Library.Multiset" "HOL-Library.Sublist"
begin

text \<open>
  What choosing a tab, discovery, identification and the framing of native messages promise
  (definitions in \<open>BrowserDiscovery\<close>).
\<close>

section \<open>The choice of a tab\<close>

definition example_tab :: "int \<Rightarrow> bool \<Rightarrow> browserPersonalTab" where
  "example_tab i current = \<lparr>pt_ID = i, pt_URL = ''http://go.dev/'', pt_Title = [], pt_WindowID = 1, pt_Active = current\<rparr>"

text \<open>With distinct tab ids the order of tabs is strict, so sorting does not depend on how they were listed.\<close>

lemma tab_order_inj: "distinct (map pt_ID ts) \<Longrightarrow> inj_on tab_order (set ts)"
  by (auto simp: distinct_map inj_on_def tab_order_def)

lemma sort_by_order:
  assumes "mset ts = mset us" "distinct (map pt_ID ts)"
  shows "sort_key tab_order (filter P ts) = sort_key tab_order (filter P us)"
proof (rule sort_key_eq_sort_key)
  show "mset (filter P ts) = mset (filter P us)" using assms(1) by (simp add: mset_filter)
  show "inj_on tab_order (set (filter P ts))" by (rule inj_on_subset [OF tab_order_inj [OF assms(2)]]) auto
qed

lemma hd_sorted_least:
  assumes "t \<in> set ts"
  shows "hd (sort_key f ts) \<in> set ts \<and> f (hd (sort_key f ts)) \<le> f t"
proof -
  have ne: "sort_key f ts \<noteq> []" using assms by (metis empty_iff list.set(1) set_sort)
  have "sorted (map f (sort_key f ts))" by simp
  then have "\<forall>u \<in> set (sort_key f ts). f (hd (sort_key f ts)) \<le> f u" using ne by (cases "sort_key f ts") auto
  then show ?thesis using assms hd_in_set [OF ne] by simp
qed

text \<open>The tab chosen for a URL is an approved one that shows exactly this URL in the wanted window, the best of
  these in the order active first, then by window, then by id; all matching ones are counted; and as long as no two tabs have the same id, the order in which the extension
  listed its tabs makes no difference. A request fails only for a negative window, a URL that cannot be one, or when
  no tab matches.\<close>

theorem chooseBrowserExistingTab_best:
  assumes "canonicalBrowserExistingURL N exactURL = Inr wanted" "0 \<le> windowID"
  shows "case chooseBrowserExistingTab N ts exactURL windowID of
      Inr c \<Rightarrow> ch_Tab c \<in> set ts \<and> tab_matches N wanted windowID (ch_Tab c)
        \<and> (\<forall>t \<in> set ts. tab_matches N wanted windowID t \<longrightarrow> tab_order (ch_Tab c) \<le> tab_order t)
        \<and> ch_Matches c = length (filter (tab_matches N wanted windowID) ts)
        \<and> (\<forall>us. mset us = mset ts \<and> distinct (map pt_ID ts) \<longrightarrow> chooseBrowserExistingTab N us exactURL windowID = Inr c)
    | Inl e \<Rightarrow> ce_code e = ''tab_not_found'' \<and> (\<forall>t \<in> set ts. \<not> tab_matches N wanted windowID t)"
proof (cases "filter (tab_matches N wanted windowID) ts = []")
  case True
  then show ?thesis using assms by (simp add: chooseBrowserExistingTab_def toolErr_def filter_empty_conv)
next
  case False
  let ?P = "tab_matches N wanted windowID"
  let ?s = "sort_key tab_order (filter ?P ts)"
  have best: "hd ?s \<in> set (filter ?P ts) \<and> (\<forall>t \<in> set (filter ?P ts). tab_order (hd ?s) \<le> tab_order t)"
    using False hd_sorted_least [of _ "filter ?P ts" tab_order] by (metis hd_in_set)
  have same: "chooseBrowserExistingTab N us exactURL windowID = chooseBrowserExistingTab N ts exactURL windowID"
    if "mset us = mset ts" "distinct (map pt_ID ts)" for us
  proof -
    have "filter ?P us \<noteq> []" using False mset_eq_setD [OF that(1)] by (auto simp: filter_empty_conv)
    then show ?thesis using assms False sort_by_order [OF that(1) [symmetric] that(2), of ?P]
      by (simp add: chooseBrowserExistingTab_def Let_def)
  qed
  obtain c where c: "chooseBrowserExistingTab N ts exactURL windowID = Inr c" "ch_Tab c = hd ?s" "ch_Matches c = length ?s"
    using assms False by (simp add: chooseBrowserExistingTab_def Let_def)
  show ?thesis using best same by (simp add: c)
qed

theorem chooseBrowserExistingTab_best_witness:
  "\<exists>c. chooseBrowserExistingTab (example_lib 0) [example_tab 4 False, example_tab 9 True, example_tab 7 False] ''http://go.dev/'' 0 = Inr c
     \<and> ch_Tab c = example_tab 9 True \<and> ch_Matches c = 3
     \<and> chooseBrowserExistingTab (example_lib 0) [example_tab 9 True, example_tab 7 False, example_tab 4 False] ''http://go.dev/'' 0 = Inr c"
proof -
  let ?ts = "[example_tab 4 False, example_tab 9 True, example_tab 7 False]"
  have canonical: "canonicalBrowserExistingURL (example_lib 0) ''http://go.dev/'' = Inr ''go.dev''"
    by (simp add: canonicalBrowserExistingURL_def example_lib_def Let_def)
  then have m: "tab_matches (example_lib 0) ''go.dev'' 0 (example_tab i a)" if "0 < i" for i a
    using that by (simp add: tab_matches_def example_tab_def)
  obtain c where c: "chooseBrowserExistingTab (example_lib 0) ?ts ''http://go.dev/'' 0 = Inr c"
    using canonical m by (simp add: chooseBrowserExistingTab_def Let_def)
  have best: "ch_Tab c \<in> set ?ts \<and> (\<forall>t \<in> set ?ts. tab_order (ch_Tab c) \<le> tab_order t) \<and> ch_Matches c = 3
      \<and> chooseBrowserExistingTab (example_lib 0) [example_tab 9 True, example_tab 7 False, example_tab 4 False] ''http://go.dev/'' 0 = Inr c"
    using chooseBrowserExistingTab_best [OF canonical, of 0 ?ts] m by (simp add: c) (simp add: example_tab_def)
  then have "ch_Tab c = example_tab 9 True" by (auto simp: tab_order_def example_tab_def)
  then show ?thesis using c best by blast
qed

section \<open>Discovery\<close>

text \<open>Shrinking keeps every browser with its identity and drops only tabs from the end.\<close>

definition shortened :: "browserEntry \<Rightarrow> browserEntry \<Rightarrow> bool" where
  "shortened e f \<longleftrightarrow> fst e = fst f \<and> prefix (snd e) (snd f)"

lemma shortened_trans: "list_all2 shortened es fs \<Longrightarrow> list_all2 shortened fs gs \<Longrightarrow> list_all2 shortened es gs"
  by (erule (1) list_all2_trans [rotated]) (auto simp: shortened_def)

lemma shortened_same: "list_all2 shortened es es"
  by (simp add: list_all2_conv_all_nth shortened_def)

lemma halve_shortened: "largest es = Some k \<Longrightarrow> list_all2 shortened (halve k es) es"
  using largest_Some [of es k] by (auto simp: list_all2_conv_all_nth shortened_def halve_def nth_list_update take_is_prefix)

lemma largest_None: "largest es = None \<longleftrightarrow> (\<forall>e \<in> set es. snd e = [])"
  by (induction es) (auto split: option.splits)

lemma shrink_result:
  "case shrink fits es dropped of (fs, t) \<Rightarrow>
     list_all2 shortened fs es \<and> (fits fs t \<or> (\<forall>e \<in> set fs. snd e = [])) \<and> (\<not> t \<longrightarrow> fs = es \<and> \<not> dropped)"
proof (induction fits es dropped rule: shrink.induct)
  case (1 fits es dropped)
  show ?case
  proof (cases "fits es dropped \<or> largest es = None")
    case True
    then show ?thesis using largest_None [of es] by (subst shrink.simps) (auto simp: shortened_same)
  next
    case False
    then obtain k where k: "largest es = Some k" by auto
    obtain fs t where r: "shrink fits (halve k es) True = (fs, t)" by force
    have "shrink fits es dropped = (fs, t)" using False r by (subst shrink.simps) (simp add: k)
    then show ?thesis using 1 [OF _ k] False r shortened_trans [OF _ halve_shortened [OF k]] by auto
  qed
qed

text \<open>The answer to a discovery names every connected browser with its whole identity, in the order of their ids, and
  keeps to 64 KiB or lists no tab at all; tabs are dropped only from the end of a browser's list, and an answer that
  is not marked as truncated has them all.\<close>

theorem discovery_complete:
  "\<exists>es dropped. discoverPersonal N encoded version b connections = discovery_answer (healthLocked b) version es dropped
    \<and> list_all2 shortened es (sort_key connection_name (map (browser_entry N) (filter (\<lambda>l. \<not> bb_closed l) connections)))
    \<and> (encoded (discovery_answer (healthLocked b) version es dropped) \<le> 65536 \<or> (\<forall>e \<in> set es. snd e = []))
    \<and> (\<not> dropped \<longrightarrow> es = sort_key connection_name (map (browser_entry N) (filter (\<lambda>l. \<not> bb_closed l) connections)))"
proof -
  let ?es = "sort_key connection_name (map (browser_entry N) (filter (\<lambda>l. \<not> bb_closed l) connections))"
  let ?fits = "\<lambda>es t. encoded (discovery_answer (healthLocked b) version es t) \<le> 65536"
  obtain es t where r: "shrink ?fits ?es False = (es, t)" by force
  then show ?thesis using shrink_result [where fits = ?fits and es = ?es and dropped = False] by (simp add: discoverPersonal_def Let_def) blast
qed

section \<open>Framing\<close>

lemma le_roundtrip: "le_word (le_bytes w) = w"
proof -
  have n: "unat w < 2 ^ 32" using unsigned_less [of w] by simp
  let ?n = "unat w"
  have div: "unat (drop_bit (8 * k) w) = ?n div 256 ^ k" for k
    by (simp add: unsigned_drop_bit_eq drop_bit_eq_div [where 'a = nat] power_mult take_bit_nat_eq_self [OF n])
  have "?n div 256 ^ 2 = ?n div 256 div 256" "?n div 256 ^ 3 = ?n div 256 div 256 div 256"
    by (simp_all flip: div_mult2_eq)
  moreover have "?n div 256 div 256 div 256 mod 256 = ?n div 256 div 256 div 256"
    using n by (simp flip: div_mult2_eq add: less_mult_imp_div_less)
  ultimately have "?n mod 256 + 256 * (?n div 256 mod 256 + 256 * (?n div 256 ^ 2 mod 256 + 256 * (?n div 256 ^ 3 mod 256))) = ?n"
    by (simp only: mod_mult_div_eq)
  moreover have "le_word (le_bytes w)
      = of_nat (?n mod 256 + 256 * (?n div 256 mod 256 + 256 * (?n div 256 ^ 2 mod 256 + 256 * (?n div 256 ^ 3 mod 256))))"
    using div [of 0] div [of 1] div [of 2] div [of 3] by (simp add: le_word_def le_bytes_def)
  ultimately have "le_word (le_bytes w) = of_nat ?n" by (simp only:)
  then show ?thesis by simp
qed

text \<open>What is written as a native message is read back as it is, and reading leaves what follows it untouched.\<close>

theorem native_message_roundtrip:
  assumes "writeNativeMessage valid data = Inr written"
  shows "readNativeMessage valid (written @ rest) = (Inr data, rest)"
proof -
  have d: "data \<noteq> []" "length data \<le> browserBridgeMax" "valid data" "written = le_bytes (of_nat (length data)) @ data"
    using assms by (auto simp: writeNativeMessage_def split: if_splits)
  then have "unat (of_nat (length data) :: 32 word) = length data"
    by (simp add: browserBridgeMax_def unsigned_of_nat take_bit_nat_eq_self)
  moreover have "length (le_bytes w) = 4" for w by (simp add: le_bytes_def)
  ultimately show ?thesis using d le_roundtrip by (simp add: readNativeMessage_def Let_def) auto
qed

theorem native_message_roundtrip_witness:
  "\<exists>written. writeNativeMessage (\<lambda>_. True) ''{}'' = Inr written \<and> readNativeMessage (\<lambda>_. True) (written @ ''xyz'') = (Inr ''{}'', ''xyz'')"
proof -
  obtain written where w: "writeNativeMessage (\<lambda>_. True) ''{}'' = Inr written"
    by (simp add: writeNativeMessage_def browserBridgeMax_def)
  then show ?thesis using native_message_roundtrip [OF w] by blast
qed

end
