(* ===== verification/WorkQueue.thy ===== *)
theory WorkQueue
  imports AgentArgs
begin

text \<open>
  The queue that lets one browser operation work on a session at a time (\<open>cmd/agent/browser_work_queue.go\<close>).
  Waiters are numbered as they come. A call of \<open>acquire\<close> is its entry, then, for one that waits, the branch of
  its \<open>select\<close>; the steps of many calls interleave.
\<close>

section \<open>The queue\<close>

datatype browserWorkWaiterState = browserWorkQueued | browserWorkGranted | browserWorkCanceled

text \<open>\<open>w_ready\<close> is whether the channel is closed.\<close>

record browserWorkWaiter =
  w_ready :: bool
  w_state :: browserWorkWaiterState
  w_err :: "string option"

record browserWorkQueue =
  q_active :: bool
  q_waiting :: "nat list"
  q_waiters :: "nat \<Rightarrow> browserWorkWaiter"

definition browserQueueWaitingMax :: nat where "browserQueueWaitingMax = 8"

definition new_queue :: browserWorkQueue where
  "new_queue = \<lparr>q_active = False, q_waiting = [], q_waiters = \<lambda>_. \<lparr>w_ready = False, w_state = browserWorkQueued, w_err = None\<rparr>\<rparr>"

definition set_waiter :: "nat \<Rightarrow> browserWorkWaiter \<Rightarrow> browserWorkQueue \<Rightarrow> browserWorkQueue" where
  "set_waiter i w q = q\<lparr>q_waiters := (q_waiters q)(i := w)\<rparr>"

fun release_loop :: "nat list \<Rightarrow> browserWorkQueue \<Rightarrow> browserWorkQueue" where
  "release_loop [] q = q\<lparr>q_active := False, q_waiting := []\<rparr>"
| "release_loop (i # rest) q =
    (if w_state (q_waiters q i) \<noteq> browserWorkQueued then release_loop rest q
     else set_waiter i (q_waiters q i\<lparr>w_state := browserWorkGranted, w_ready := True\<rparr>) (q\<lparr>q_waiting := rest\<rparr>))"

definition releasePermit :: "browserWorkQueue \<Rightarrow> browserWorkQueue" where
  "releasePermit q = release_loop (q_waiting q) q"

definition removeWaiter :: "nat \<Rightarrow> browserWorkQueue \<Rightarrow> browserWorkQueue" where
  "removeWaiter i q = q\<lparr>q_waiting := remove1 i (q_waiting q)\<rparr>"

definition cancelPending :: "browserWorkQueue \<Rightarrow> browserWorkQueue" where
  "cancelPending q =
    q\<lparr>q_waiters := (\<lambda>i. if i \<in> set (q_waiting q)
        then q_waiters q i\<lparr>w_state := browserWorkCanceled, w_err := Some ''context canceled'', w_ready := True\<rparr>
        else q_waiters q i),
      q_waiting := []\<rparr>"

text \<open>The entry of \<open>acquire\<close>: an answer, or the call waits. \<open>ctxErr\<close> is the error of its context.\<close>

datatype acquired = Refused codedError | Expired string | Permit | Waits

definition acquire :: "string option \<Rightarrow> nat \<Rightarrow> browserWorkQueue \<Rightarrow> acquired \<times> browserWorkQueue" where
  "acquire ctxErr i q =
    (case ctxErr of
       Some err \<Rightarrow> (Expired err, q)
     | None \<Rightarrow>
        if \<not> q_active q then (Permit, q\<lparr>q_active := True\<rparr>)
        else if length (q_waiting q) \<ge> browserQueueWaitingMax
        then (Refused (toolErr ''browser_busy'' ''browser operation queue is full; retry later''), q)
        else (Waits, set_waiter i \<lparr>w_ready = False, w_state = browserWorkQueued, w_err = None\<rparr>
                       (q\<lparr>q_waiting := q_waiting q @ [i]\<rparr>)))"

text \<open>The two branches of the \<open>select\<close>; \<open>Inr ()\<close> is the permit.\<close>

definition waiter_done :: "string \<Rightarrow> nat \<Rightarrow> browserWorkQueue \<Rightarrow> (string + unit) \<times> browserWorkQueue" where
  "waiter_done err i q =
    (let w = q_waiters q i; cancelled = w\<lparr>w_state := browserWorkCanceled, w_err := Some err\<rparr> in
     case w_state w of
       browserWorkQueued \<Rightarrow> (Inl err, set_waiter i cancelled (removeWaiter i q))
     | browserWorkGranted \<Rightarrow> (Inl err, releasePermit (set_waiter i cancelled q))
     | browserWorkCanceled \<Rightarrow> (Inl (case w_err w of None \<Rightarrow> err | Some e \<Rightarrow> e), q))"

definition waiter_ready :: "string option \<Rightarrow> nat \<Rightarrow> browserWorkQueue \<Rightarrow> (string + unit) \<times> browserWorkQueue" where
  "waiter_ready ctxErr i q =
    (let w = q_waiters q i in
     if w_state w = browserWorkCanceled then (Inl (case w_err w of None \<Rightarrow> '''' | Some e \<Rightarrow> e), q)
     else (case ctxErr of
             Some err \<Rightarrow>
               (Inl err, if w_state w = browserWorkGranted
                         then releasePermit (set_waiter i (w\<lparr>w_state := browserWorkCanceled, w_err := Some err\<rparr>) q) else q)
           | None \<Rightarrow> (Inr (), q)))"

section \<open>Many calls\<close>

text \<open>\<open>qr_calls\<close> are the calls in their \<open>select\<close>, \<open>qr_holders\<close> the permits not yet released.\<close>

record queueRun =
  qr_queue :: browserWorkQueue
  qr_calls :: "nat list"
  qr_holders :: "nat list"
  qr_next :: nat

definition new_queueRun :: queueRun where
  "new_queueRun = \<lparr>qr_queue = new_queue, qr_calls = [], qr_holders = [], qr_next = 0\<rparr>"

text \<open>\<open>releaseFunc\<close> releases once: a second call of the function it returns is no step.\<close>

inductive queue_step :: "queueRun \<Rightarrow> queueRun \<Rightarrow> bool" where
  admitted: "acquire ctxErr (qr_next r) (qr_queue r) = (Permit, q) \<Longrightarrow>
    queue_step r (r\<lparr>qr_queue := q, qr_holders := qr_next r # qr_holders r, qr_next := Suc (qr_next r)\<rparr>)"
| waits: "acquire ctxErr (qr_next r) (qr_queue r) = (Waits, q) \<Longrightarrow>
    queue_step r (r\<lparr>qr_queue := q, qr_calls := qr_next r # qr_calls r, qr_next := Suc (qr_next r)\<rparr>)"
| turned_away: "acquire ctxErr (qr_next r) (qr_queue r) = (out, q) \<Longrightarrow> out \<noteq> Permit \<Longrightarrow> out \<noteq> Waits \<Longrightarrow>
    queue_step r (r\<lparr>qr_queue := q, qr_next := Suc (qr_next r)\<rparr>)"
| gave_up: "i \<in> set (qr_calls r) \<Longrightarrow> waiter_done err i (qr_queue r) = (out, q) \<Longrightarrow>
    queue_step r (r\<lparr>qr_queue := q, qr_calls := remove1 i (qr_calls r)\<rparr>)"
| woken: "i \<in> set (qr_calls r) \<Longrightarrow> w_ready (q_waiters (qr_queue r) i) \<Longrightarrow> waiter_ready ctxErr i (qr_queue r) = (Inr (), q) \<Longrightarrow>
    queue_step r (r\<lparr>qr_queue := q, qr_calls := remove1 i (qr_calls r), qr_holders := i # qr_holders r\<rparr>)"
| woken_late: "i \<in> set (qr_calls r) \<Longrightarrow> w_ready (q_waiters (qr_queue r) i) \<Longrightarrow> waiter_ready ctxErr i (qr_queue r) = (Inl err, q) \<Longrightarrow>
    queue_step r (r\<lparr>qr_queue := q, qr_calls := remove1 i (qr_calls r)\<rparr>)"
| release: "i \<in> set (qr_holders r) \<Longrightarrow>
    queue_step r (r\<lparr>qr_queue := releasePermit (qr_queue r), qr_holders := remove1 i (qr_holders r)\<rparr>)"
| cancel_all: "queue_step r (r\<lparr>qr_queue := cancelPending (qr_queue r)\<rparr>)"

section \<open>The invariant\<close>

abbreviation granted :: "browserWorkQueue \<Rightarrow> nat \<Rightarrow> bool" where
  "granted q i \<equiv> w_state (q_waiters q i) = browserWorkGranted"

abbreviation queued :: "browserWorkQueue \<Rightarrow> nat \<Rightarrow> bool" where
  "queued q i \<equiv> w_state (q_waiters q i) = browserWorkQueued"

text \<open>The permit is with a holder or with a call that was granted it and has not woken up yet.\<close>

definition permits :: "browserWorkQueue \<Rightarrow> nat list \<Rightarrow> nat list \<Rightarrow> nat" where
  "permits q calls holders = length holders + length (filter (granted q) calls)"

definition waiters_ok :: "browserWorkQueue \<Rightarrow> nat list \<Rightarrow> bool" where
  "waiters_ok q calls \<longleftrightarrow> distinct (q_waiting q) \<and> set (q_waiting q) \<subseteq> set calls
    \<and> length (q_waiting q) \<le> browserQueueWaitingMax \<and> distinct calls \<and> (\<not> q_active q \<longrightarrow> q_waiting q = [])
    \<and> (\<forall>i \<in> set calls. (i \<in> set (q_waiting q) \<longleftrightarrow> queued q i) \<and> (w_ready (q_waiters q i) \<longleftrightarrow> \<not> queued q i))"

definition queue_inv :: "queueRun \<Rightarrow> bool" where
  "queue_inv r \<longleftrightarrow> waiters_ok (qr_queue r) (qr_calls r) \<and> set (qr_calls r) \<subseteq> {..<qr_next r}
    \<and> permits (qr_queue r) (qr_calls r) (qr_holders r) = (if q_active (qr_queue r) then 1 else 0)"

lemma filter_cong_calls: "(\<And>i. i \<in> set xs \<Longrightarrow> P i = Q i) \<Longrightarrow> length (filter P xs) = length (filter Q xs)"
  by (metis filter_cong)

text \<open>The first waiter of a queue in order is granted the permit; with nobody waiting it becomes free.\<close>

lemma release_first:
  assumes "waiters_ok q calls"
  shows "releasePermit q = (case q_waiting q of [] \<Rightarrow> q\<lparr>q_active := False\<rparr>
    | i # rest \<Rightarrow> set_waiter i (q_waiters q i\<lparr>w_state := browserWorkGranted, w_ready := True\<rparr>) (q\<lparr>q_waiting := rest\<rparr>))"
proof (cases "q_waiting q")
  case (Cons i rest)
  then have "queued q i" using assms by (auto simp: waiters_ok_def)
  then show ?thesis by (simp add: releasePermit_def Cons)
qed (simp add: releasePermit_def)

lemma release_ok:
  assumes "waiters_ok q calls" "q_active q"
  shows "waiters_ok (releasePermit q) calls
    \<and> length (filter (granted (releasePermit q)) calls) =
        length (filter (granted q) calls) + (if q_active (releasePermit q) then 1 else 0)"
proof (cases "q_waiting q")
  case Nil
  then show ?thesis using assms by (simp add: release_first waiters_ok_def)
next
  case (Cons i rest)
  let ?q = "releasePermit q"
  have q: "?q = set_waiter i (q_waiters q i\<lparr>w_state := browserWorkGranted, w_ready := True\<rparr>) (q\<lparr>q_waiting := rest\<rparr>)"
    by (simp add: release_first [OF assms(1)] Cons)
  have i: "i \<in> set calls" "queued q i" "distinct calls" "i \<notin> set rest" using assms(1) by (auto simp: waiters_ok_def Cons)
  have "waiters_ok ?q calls" using assms i by (auto simp: waiters_ok_def q set_waiter_def Cons)
  moreover obtain us vs where calls: "calls = us @ i # vs" using i(1) by (auto simp: in_set_conv_decomp)
  then have "i \<notin> set us" "i \<notin> set vs" using i(3) by auto
  then have "length (filter (granted ?q) us) = length (filter (granted q) us)"
    "length (filter (granted ?q) vs) = length (filter (granted q) vs)"
    by (intro filter_cong_calls; auto simp: q set_waiter_def)+
  then have "length (filter (granted ?q) calls) = Suc (length (filter (granted q) calls))"
    using i(2) by (simp add: calls q set_waiter_def)
  ultimately show ?thesis using assms(2) by (simp add: q set_waiter_def)
qed

lemma permits_remove:
  "i \<in> set calls \<Longrightarrow> length (filter P (remove1 i calls)) + (if P i then 1 else 0) = length (filter P calls)"
  by (induction calls) auto

lemma waiters_ok_leave:
  assumes "waiters_ok q calls" "i \<notin> set (q_waiting q)"
  shows "waiters_ok q (remove1 i calls)"
  using assms by (auto simp: waiters_ok_def)

lemma waiters_ok_other:
  "i \<notin> set calls \<Longrightarrow> i \<notin> set (q_waiting q) \<Longrightarrow> waiters_ok (set_waiter i w q) calls \<longleftrightarrow> waiters_ok q calls"
  by (auto simp: waiters_ok_def set_waiter_def)

lemma granted_other:
  "i \<notin> set calls \<Longrightarrow> length (filter (granted (set_waiter i w q)) calls) = length (filter (granted q) calls)"
  by (rule filter_cong_calls) (auto simp: set_waiter_def)

text \<open>A call that was granted the permit and leaves without it passes it on.\<close>

lemma leave_granted:
  fixes w
  assumes "waiters_ok q calls" "i \<in> set calls" "granted q i" "permits q calls holders = 1" "q_active q"
  defines "q1 \<equiv> releasePermit (set_waiter i w q)" and "calls1 \<equiv> remove1 i calls"
  shows "waiters_ok q1 calls1 \<and> permits q1 calls1 holders = (if q_active q1 then 1 else 0)"
proof -
  have i: "i \<notin> set (q_waiting q)" "i \<notin> set calls1" using assms(1-3) by (auto simp: waiters_ok_def calls1_def)
  have ok: "waiters_ok (set_waiter i w q) calls1"
    using waiters_ok_other [OF i(2,1)] waiters_ok_leave [OF assms(1) i(1)] by (simp add: calls1_def)
  have "q_active (set_waiter i w q)" using assms(5) by (simp add: set_waiter_def)
  note rel = release_ok [OF ok this]
  have "Suc (length (filter (granted q) calls1)) = length (filter (granted q) calls)"
    using permits_remove [OF assms(2), of "granted q"] assms(3) by (simp add: calls1_def)
  then have "length holders + length (filter (granted q) calls1) = 0" using assms(4) unfolding permits_def by linarith
  then show ?thesis using rel granted_other [OF i(2), of w q] by (simp add: permits_def q1_def)
qed

lemma leave_ungranted:
  assumes "waiters_ok q calls" "i \<in> set calls" "\<not> granted q i" "\<not> queued q i"
  shows "waiters_ok q (remove1 i calls) \<and> permits q (remove1 i calls) holders = permits q calls holders"
proof -
  have "i \<notin> set (q_waiting q)" using assms(1,2,4) by (auto simp: waiters_ok_def)
  then show ?thesis using waiters_ok_leave [OF assms(1)] permits_remove [OF assms(2), of "granted q"] assms(3)
    by (simp add: permits_def)
qed

lemma leave_queued:
  fixes w
  assumes "waiters_ok q calls" "i \<in> set calls" "queued q i"
  defines "q1 \<equiv> set_waiter i w (removeWaiter i q)"
  shows "waiters_ok q1 (remove1 i calls) \<and> permits q1 (remove1 i calls) holders = permits q calls holders
    \<and> q_active q1 = q_active q"
proof -
  have i: "i \<notin> set (remove1 i calls)" "i \<notin> set (remove1 i (q_waiting q))" using assms(1) by (auto simp: waiters_ok_def)
  have "length (remove1 i (q_waiting q)) \<le> length (q_waiting q)" by (simp add: length_remove1)
  then have "waiters_ok (removeWaiter i q) (remove1 i calls)"
    using assms(1) by (auto simp: waiters_ok_def removeWaiter_def simp flip: One_nat_def)
  moreover have "length (filter (granted (removeWaiter i q)) (remove1 i calls)) = length (filter (granted q) calls)"
    using permits_remove [OF assms(2), of "granted q"] assms(3) by (simp add: removeWaiter_def)
  ultimately show ?thesis
    using waiters_ok_other [OF i(1), of "removeWaiter i q" w] granted_other [OF i(1), of w "removeWaiter i q"] i(2)
    by (simp add: q1_def permits_def) (simp add: removeWaiter_def set_waiter_def)
qed

lemma new_waiter:
  assumes "waiters_ok q calls" "i \<notin> set calls" "q_active q" "length (q_waiting q) < browserQueueWaitingMax"
  defines "q1 \<equiv> set_waiter i \<lparr>w_ready = False, w_state = browserWorkQueued, w_err = None\<rparr> (q\<lparr>q_waiting := q_waiting q @ [i]\<rparr>)"
  shows "waiters_ok q1 (i # calls) \<and> permits q1 (i # calls) holders = permits q calls holders"
proof -
  have i: "i \<notin> set (q_waiting q)" using assms(1,2) by (auto simp: waiters_ok_def)
  have "waiters_ok q1 (i # calls)" using assms(1-4) i by (auto simp: waiters_ok_def q1_def set_waiter_def)
  moreover have "length (filter (granted q1) calls) = length (filter (granted q) calls)"
    by (rule filter_cong_calls) (use assms(2) in \<open>auto simp: q1_def set_waiter_def\<close>)
  ultimately show ?thesis by (simp add: permits_def) (simp add: q1_def set_waiter_def)
qed

lemma cancel_ok:
  assumes "waiters_ok q calls"
  shows "waiters_ok (cancelPending q) calls \<and> permits (cancelPending q) calls holders = permits q calls holders"
proof -
  have "length (filter (granted (cancelPending q)) calls) = length (filter (granted q) calls)"
    by (rule filter_cong_calls) (use assms in \<open>auto simp: cancelPending_def waiters_ok_def\<close>)
  then show ?thesis using assms by (auto simp: waiters_ok_def permits_def cancelPending_def)
qed

lemma permits_one: "queue_inv r \<Longrightarrow> i \<in> set (qr_calls r) \<Longrightarrow> granted (qr_queue r) i \<Longrightarrow>
    permits (qr_queue r) (qr_calls r) (qr_holders r) = 1 \<and> q_active (qr_queue r)"
  by (auto simp: queue_inv_def permits_def filter_empty_conv split: if_split_asm)

lemma queue_step_inv: "queue_step r t \<Longrightarrow> queue_inv r \<Longrightarrow> queue_inv t"
proof (induction rule: queue_step.induct)
  case (admitted ctxErr r q)
  then have "\<not> q_active (qr_queue r)" "q = (qr_queue r)\<lparr>q_active := True\<rparr>"
    by (auto simp: acquire_def split: option.splits if_split_asm)
  then show ?case using admitted(2) by (auto simp: queue_inv_def waiters_ok_def permits_def)
next
  case (waits ctxErr r q)
  then have q: "q_active (qr_queue r)" "length (q_waiting (qr_queue r)) < browserQueueWaitingMax"
    "q = set_waiter (qr_next r) \<lparr>w_ready = False, w_state = browserWorkQueued, w_err = None\<rparr>
       ((qr_queue r)\<lparr>q_waiting := q_waiting (qr_queue r) @ [qr_next r]\<rparr>)"
    by (auto simp: acquire_def split: option.splits if_split_asm)
  have "qr_next r \<notin> set (qr_calls r)" using waits(2) by (auto simp: queue_inv_def)
  from new_waiter [OF _ this q(1,2), of "qr_holders r", folded q(3)]
  show ?case using waits(2) q(1,3) by (auto simp: queue_inv_def set_waiter_def)
next
  case (turned_away ctxErr r out q)
  then have "q = qr_queue r" by (auto simp: acquire_def split: option.splits if_split_asm)
  then show ?case using turned_away(4) by (auto simp: queue_inv_def)
next
  case (gave_up i r err out q)
  have sub: "set (remove1 i (qr_calls r)) \<subseteq> {..<qr_next r}" using gave_up(3) set_remove1_subset by (fastforce simp: queue_inv_def)
  have ok: "waiters_ok (qr_queue r) (qr_calls r)" using gave_up(3) by (simp add: queue_inv_def)
  show ?case
  proof (cases "w_state (q_waiters (qr_queue r) i)")
    case browserWorkQueued
    then show ?thesis using gave_up leave_queued [OF ok gave_up(1)] sub by (auto simp: waiter_done_def queue_inv_def Let_def)
  next
    case browserWorkGranted
    note one = permits_one [OF gave_up(3,1) this]
    have "q = releasePermit (set_waiter i (q_waiters (qr_queue r) i\<lparr>w_state := browserWorkCanceled, w_err := Some err\<rparr>) (qr_queue r))"
      using gave_up(2) browserWorkGranted by (simp add: waiter_done_def Let_def)
    then show ?thesis using leave_granted [OF ok gave_up(1) browserWorkGranted conjunct1 [OF one] conjunct2 [OF one]] sub by (simp add: queue_inv_def)
  next
    case browserWorkCanceled
    then show ?thesis using gave_up leave_ungranted [OF ok gave_up(1)] sub by (auto simp: waiter_done_def queue_inv_def)
  qed
next
  case (woken i r ctxErr q)
  have sub: "set (remove1 i (qr_calls r)) \<subseteq> {..<qr_next r}" using woken(4) set_remove1_subset by (fastforce simp: queue_inv_def)
  have ok: "waiters_ok (qr_queue r) (qr_calls r)" using woken(4) by (simp add: queue_inv_def)
  have "\<not> queued (qr_queue r) i" using ok woken(1,2) by (auto simp: waiters_ok_def)
  then have g: "granted (qr_queue r) i" "q = qr_queue r"
    using woken(3) by (cases "w_state (q_waiters (qr_queue r) i)"; auto simp: waiter_ready_def Let_def split: option.splits)+
  have "i \<notin> set (q_waiting (qr_queue r))" using ok woken(1) g(1) by (auto simp: waiters_ok_def)
  then show ?case using waiters_ok_leave [OF ok] permits_remove [OF woken(1), of "granted (qr_queue r)"] woken(4) sub g
    by (simp add: queue_inv_def permits_def)
next
  case (woken_late i r ctxErr err q)
  have sub: "set (remove1 i (qr_calls r)) \<subseteq> {..<qr_next r}" using woken_late(4) set_remove1_subset by (fastforce simp: queue_inv_def)
  have ok: "waiters_ok (qr_queue r) (qr_calls r)" using woken_late(4) by (simp add: queue_inv_def)
  have nq: "\<not> queued (qr_queue r) i" using ok woken_late(1,2) by (auto simp: waiters_ok_def)
  show ?case
  proof (cases "w_state (q_waiters (qr_queue r) i)")
    case browserWorkGranted
    note one = permits_one [OF woken_late(4,1) this]
    obtain e where "q = releasePermit (set_waiter i (q_waiters (qr_queue r) i\<lparr>w_state := browserWorkCanceled, w_err := Some e\<rparr>) (qr_queue r))"
      using woken_late(3) browserWorkGranted by (auto simp: waiter_ready_def Let_def split: option.splits)
    then show ?thesis using leave_granted [OF ok woken_late(1) browserWorkGranted conjunct1 [OF one] conjunct2 [OF one]] sub by (simp add: queue_inv_def)
  next
    case browserWorkCanceled
    then have "q = qr_queue r" using woken_late(3) by (simp add: waiter_ready_def)
    then show ?thesis using leave_ungranted [OF ok woken_late(1)] browserWorkCanceled sub woken_late(4) by (simp add: queue_inv_def)
  qed (use nq in simp)
next
  case (release i r)
  have ok: "waiters_ok (qr_queue r) (qr_calls r)" using release(2) by (simp add: queue_inv_def)
  have "qr_holders r \<noteq> []" using release(1) by auto
  then have one: "permits (qr_queue r) (qr_calls r) (qr_holders r) = 1" "q_active (qr_queue r)"
    using release(2) by (auto simp: queue_inv_def permits_def split: if_split_asm)
  have "Suc (length (remove1 i (qr_holders r))) = length (qr_holders r)"
    using release(1) length_pos_if_in_set [OF release(1)] by (simp add: length_remove1)
  then have none: "remove1 i (qr_holders r) = []" "length (filter (granted (qr_queue r)) (qr_calls r)) = 0"
    using one(1) unfolding permits_def by (simp_all flip: length_0_conv)
  have "permits (releasePermit (qr_queue r)) (qr_calls r) [] = (if q_active (releasePermit (qr_queue r)) then 1 else 0)"
    using release_ok [OF ok one(2)] none(2) unfolding permits_def by simp
  then show ?case using release_ok [OF ok one(2)] release(2) by (simp add: queue_inv_def none(1))
next
  case (cancel_all r)
  then show ?case using cancel_ok by (simp add: queue_inv_def) (simp add: cancelPending_def)
qed

lemma new_queueRun_inv: "queue_inv new_queueRun"
  by (simp add: queue_inv_def new_queueRun_def new_queue_def waiters_ok_def permits_def)

interpretation work_queue: bounded_system "\<lambda>r. r = new_queueRun" queue_step queue_inv
  "\<lambda>r. length (q_waiting (qr_queue r))" browserQueueWaitingMax
proof unfold_locales
  show "queue_inv r" if "r = new_queueRun" for r using that new_queueRun_inv by simp
  show "queue_inv t" if "queue_inv r" "queue_step r t" for r t by (rule queue_step_inv [OF that(2,1)])
  show "length (q_waiting (qr_queue r)) \<le> browserQueueWaitingMax" if "queue_inv r" for r
    using that by (simp add: queue_inv_def waiters_ok_def)
qed



end
