(* ===== verification/BrowserControl.thy ===== *)
theory BrowserControl
  imports BrowserLink WorkQueue
begin

text \<open>
  Control of a browser session (\<open>control\<close>, the admission of work in \<open>execute\<close>, and \<open>Close\<close> in
  \<open>cmd/agent/browser.go\<close>; what a scope message and the end of a connection do to a session, in
  \<open>cmd/agent/browser_bridge.go\<close>). A session is what these read and change: its flags, its epoch, its queue of work and
  the call it is busy with. \<open>bs_cancelled\<close> is whether that call's context has been cancelled, \<open>bs_shut\<close> whether the
  session's own one has. The extension a personal session works through is known by its connection id.
\<close>

section \<open>Sessions\<close>

text \<open>\<open>tab_over\<close> is whether the tab's context has been cancelled.\<close>

record browserTab =
  tab_nativeTabID :: int
  tab_over :: bool
  tab_dialog :: bool
  tab_binding :: "browserTargetBinding option"

record browserSession =
  bs_id :: string
  bs_workEpoch :: "64 word"
  bs_paused :: bool
  bs_disconnected :: bool
  bs_active :: "nat option"
  bs_cancelled :: bool
  bs_shut :: bool
  bs_boundOnly :: bool
  bs_profile :: string
  bs_personal :: "string option"
  bs_selected :: string
  bs_tabs :: "(string \<times> browserTab) list"

text \<open>A session with its queue.\<close>

record controlled =
  ct_session :: browserSession
  ct_work :: browserWorkQueue

text \<open>The epoch moves on, waiting work is dropped and the active call is cancelled.\<close>

definition invalidate :: "controlled \<Rightarrow> controlled" where
  "invalidate c =
    c\<lparr>ct_session := (ct_session c)\<lparr>bs_workEpoch := bs_workEpoch (ct_session c) + 1,
        bs_cancelled := (bs_cancelled (ct_session c) \<or> bs_active (ct_session c) \<noteq> None)\<rparr>,
      ct_work := cancelPending (ct_work c)\<rparr>"

definition set_paused :: "bool \<Rightarrow> controlled \<Rightarrow> controlled" where
  "set_paused p c = c\<lparr>ct_session := (ct_session c)\<lparr>bs_paused := p\<rparr>\<rparr>"

definition control_action :: "string \<Rightarrow> browserBridge option \<Rightarrow> controlled \<Rightarrow> codedError + controlled" where
  "control_action action link c =
    (if action = ''pause'' \<or> action = ''waiting_user'' then Inr (invalidate (set_paused True c))
     else if action = ''resume''
     then (case link of
             Some l \<Rightarrow> if bb_localPaused l then Inl (toolErr ''access_paused'' ''resume locally in the extension first'')
                       else Inr (set_paused False c)
           | None \<Rightarrow> Inr (set_paused False c))
     else if action = ''cancel'' then Inr (invalidate c)
     else if action = ''disconnect''
     then (let c1 = invalidate (c\<lparr>ct_session := (ct_session c)\<lparr>bs_disconnected := True\<rparr>\<rparr>)
           in Inr (c1\<lparr>ct_session := (ct_session c1)\<lparr>bs_shut := True\<rparr>\<rparr>))
     else if action = ''status'' then Inr c
     else Inl (toolErr ''invalid_arguments'' ''unknown control action''))"

definition control_status :: "string \<Rightarrow> browserSession \<Rightarrow> string" where
  "control_status action s =
    (if bs_disconnected s then ''disconnected'' else if action = ''waiting_user'' then ''waiting_user''
     else if bs_paused s then ''paused'' else ''ready'')"

text \<open>The message for the extension; \<open>reachable\<close> is whether it can be written.\<close>

definition control_link :: "bool \<Rightarrow> string \<Rightarrow> browserBridge \<Rightarrow> bool \<times> browserBridge" where
  "control_link reachable action l =
    (let control = (if action = ''waiting_user'' then ''pause'' else action);
         epoch = bb_controlEpoch l + 1;
         l1 = l\<lparr>bb_controlEpoch := epoch, bb_paused := (control = ''pause'')\<rparr>;
         m = (message_of ''control'')\<lparr>mk_Action := control, mk_ControlEpoch := epoch\<rparr>
     in if reachable then (True, l1\<lparr>bb_sent := bb_sent l1 @ [m]\<rparr>) else (False, l1))"

definition control_session :: "bool \<Rightarrow> string \<Rightarrow> browserBridge option \<Rightarrow> controlled \<Rightarrow>
    (codedError + object) \<times> browserBridge option \<times> controlled" where
  "control_session reachable action link c =
    (case control_action action link c of
       Inl e \<Rightarrow> (Inl e, link, c)
     | Inr c1 \<Rightarrow>
        let answer = Inr [(''browser_session_id'', JStr (bs_id (ct_session c1))),
              (''status'', JStr (control_status action (ct_session c1))), (''truncated'', JBool False)]
        in (case link of
              Some l \<Rightarrow>
                if action \<in> {''pause'', ''waiting_user'', ''resume''}
                then (case control_link reachable action l of
                        (True, l1) \<Rightarrow> (answer, Some l1, c1)
                      | (False, l1) \<Rightarrow> (Inl (toolErr ''disconnected'' ''personal control write failed''), Some l1, c1))
                else (answer, link, c1)
            | None \<Rightarrow> (answer, link, c1)))"

text \<open>Control of an operation; \<open>CtlCancel\<close> names the one whose context is cancelled.\<close>

datatype controlAnswer = CtlFail codedError | CtlValue object | CtlOperation opAnswer | CtlCancel string object

definition control_operation :: "(string \<Rightarrow> bool) \<Rightarrow> (string \<Rightarrow> bool) \<Rightarrow> time \<Rightarrow> journalDir \<Rightarrow> string \<Rightarrow> string \<Rightarrow> browserManager \<Rightarrow> controlAnswer" where
  "control_operation available fault now disk action i b =
    (case loadOperation fault now disk i b of
       Inl RNotExist \<Rightarrow> CtlFail (toolErr ''unknown_operation'' ''unknown operation_id'')
     | Inl _ \<Rightarrow> CtlFail (toolErr ''io_error'' ''read browser operation'')
     | Inr op \<Rightarrow>
        if action = ''cancel''
        then (let answer = [(''operation_id'', JStr i), (''status'', JStr (op_Status op)), (''truncated'', JBool False)]
              in if op_cancel op then CtlCancel i answer else CtlValue answer)
        else if action \<noteq> ''status'' then CtlFail (toolErr ''invalid_arguments'' ''operation supports status or cancel'')
        else CtlOperation (operationResult available op))"

text \<open>\<open>discovered\<close> is what \<open>discoverPersonal\<close> answers; \<open>links\<close> are the links by their ids.\<close>

definition link_of :: "(string \<times> browserBridge) list \<Rightarrow> controlled \<Rightarrow> browserBridge option" where
  "link_of links c = (case bs_personal (ct_session c) of None \<Rightarrow> None | Some k \<Rightarrow> map_of links k)"

definition put_link :: "browserBridge option \<Rightarrow> (string \<times> browserBridge) list \<Rightarrow> (string \<times> browserBridge) list" where
  "put_link link links = (case link of None \<Rightarrow> links | Some l \<Rightarrow> AList.update (bb_id l) l links)"

definition control :: "(string \<Rightarrow> bool) \<Rightarrow> (string \<Rightarrow> bool) \<Rightarrow> bool \<Rightarrow> object \<Rightarrow> time \<Rightarrow> journalDir \<Rightarrow> object \<Rightarrow>
    browserManager \<Rightarrow> (string \<times> browserBridge) list \<Rightarrow> (string \<times> controlled) list \<Rightarrow>
    controlAnswer \<times> (string \<times> browserBridge) list \<times> (string \<times> controlled) list" where
  "control available fault reachable discovered now disk args b links sessions =
    (let action = (case requiredString args ''action'' of Inr a \<Rightarrow> a | Inl _ \<Rightarrow> []);
         operation = arg_string args ''operation_id''
     in if action = ''discover'' then (CtlValue discovered, links, sessions)
        else if operation \<noteq> [] then (control_operation available fault now disk action operation b, links, sessions)
        else (case requiredString args ''browser_session_id'' of
                Inl e \<Rightarrow> (CtlFail e, links, sessions)
              | Inr i \<Rightarrow>
                 (case map_of sessions i of
                    None \<Rightarrow> (CtlFail (toolErr ''unknown_session'' ''unknown browser_session_id''), links, sessions)
                  | Some c \<Rightarrow>
                     (case control_session reachable action (link_of links c) c of
                        (out, link, c1) \<Rightarrow>
                          ((case out of Inl e \<Rightarrow> CtlFail e | Inr answer \<Rightarrow> CtlValue answer), put_link link links,
                           AList.update i c1 sessions)))))"

text \<open>What \<open>Close\<close>, a scope message and the end of the session's connection do to a session.\<close>

definition close_session :: "controlled \<Rightarrow> controlled" where
  "close_session c =
    (let s = ct_session c in
     c\<lparr>ct_session := s\<lparr>bs_disconnected := True, bs_workEpoch := bs_workEpoch s + 1, bs_shut := True\<rparr>,
       ct_work := cancelPending (ct_work c)\<rparr>)"

definition scope_session :: "bool \<Rightarrow> bool \<Rightarrow> controlled \<Rightarrow> controlled" where
  "scope_session paused scopeChanged c =
    (let c1 = set_paused paused c in if paused \<or> scopeChanged then invalidate c1 else c1)"

definition link_lost :: "controlled \<Rightarrow> controlled" where
  "link_lost c = invalidate (c\<lparr>ct_session := (ct_session c)\<lparr>bs_disconnected := True\<rparr>\<rparr>)"

section \<open>Work on a session\<close>

text \<open>
  \<open>execute\<close> after its permit: \<open>epoch\<close> is the session's epoch when the call came. The call becomes the active one, or is
  cancelled, or refused.
\<close>

datatype gateAnswer = GateCancelled | GateRefused codedError | GateOpen

definition execute_gate :: "64 word \<Rightarrow> nat \<Rightarrow> browserSession \<Rightarrow> gateAnswer \<times> browserSession" where
  "execute_gate epoch call s =
    (if epoch \<noteq> bs_workEpoch s then (GateCancelled, s)
     else if bs_paused s \<or> bs_disconnected s then (GateRefused (toolErr ''access_paused'' ''browser session paused or disconnected''), s)
     else (GateOpen, s\<lparr>bs_active := Some call, bs_cancelled := False\<rparr>))"

definition execute_end :: "browserSession \<Rightarrow> browserSession" where
  "execute_end s = s\<lparr>bs_active := None\<rparr>"

text \<open>
  The tab a call works on; the match among the tabs stands for the first that Go's map yields. \<open>supported\<close> is whether
  the session has a link that binds targets.
\<close>

definition binding_changed :: codedError where
  "binding_changed = toolErr ''binding_changed'' (browserFailureMessage ''binding_changed'')"

definition bound_to :: "string \<Rightarrow> browserTab \<Rightarrow> bool" where
  "bound_to revision t \<longleftrightarrow> (case tab_binding t of None \<Rightarrow> False | Some binding \<Rightarrow> tb_Revision binding = revision)"

definition choose_tab :: "bool \<Rightarrow> string \<Rightarrow> object \<Rightarrow> browserSession \<Rightarrow> codedError + (string \<times> browserTab)" where
  "choose_tab supported name args s =
    (let tabID = arg_string args ''tab_id''; revision = arg_string args ''binding_revision'';
         bound = List.find (\<lambda>(_, t). bound_to revision t) (bs_tabs s)
     in if bs_boundOnly s \<and> revision = [] then Inl (toolErr ''binding_changed'' ''this existing-tab session requires binding_revision'')
        else if tabID = [] \<and> revision \<noteq> [] \<and> bound = None then Inl binding_changed
        else
          let chosen = (if tabID \<noteq> [] then tabID else if revision \<noteq> [] then (case bound of Some (i, _) \<Rightarrow> i | None \<Rightarrow> []) else bs_selected s)
          in (case map_of (bs_tabs s) chosen of
                None \<Rightarrow> Inl (toolErr ''unknown_tab'' ''tab is not in this browser session'')
              | Some t \<Rightarrow>
                  if revision \<noteq> [] \<and> (\<not> bound_to revision t \<or> \<not> supported) then Inl binding_changed
                  else if revision \<noteq> [] \<and> (name = ''browser_navigate'' \<or> name = ''browser_tabs'' \<and> map_of args ''action'' \<noteq> Some (JStr ''list''))
                  then Inl (toolErr ''binding_changed'' ''rebind explicitly before changing the target of an existing-tab task'')
                  else Inr (chosen, t)))"

text \<open>A page that shows a dialog takes nothing but the answer to it.\<close>

definition dialog_blocks :: "string \<Rightarrow> object \<Rightarrow> browserTab \<Rightarrow> bool" where
  "dialog_blocks name args t \<longleftrightarrow>
     tab_dialog t \<and> \<not> (name = ''browser_interact'' \<and> map_of args ''action'' = Some (JStr ''dialog''))"

section \<open>Many calls\<close>

text \<open>
  A session's calls, controls, scope messages and the end of its connection, interleaved. \<open>sr_read\<close> are the epochs that
  calls have read before they ask for the permit, \<open>sr_epochs\<close> the one of each call that has asked, \<open>sr_begun\<close> the calls
  that have passed the gate or been turned away there. The permit is released after the active call is forgotten.
\<close>

record sessionWork =
  sr_session :: browserSession
  sr_run :: queueRun
  sr_read :: "64 word set"
  sr_epochs :: "nat \<Rightarrow> 64 word"
  sr_begun :: "nat set"

definition sr_controlled :: "sessionWork \<Rightarrow> controlled" where
  "sr_controlled w = \<lparr>ct_session = sr_session w, ct_work = qr_queue (sr_run w)\<rparr>"

definition set_controlled :: "controlled \<Rightarrow> sessionWork \<Rightarrow> sessionWork" where
  "set_controlled c w = w\<lparr>sr_session := ct_session c, sr_run := (sr_run w)\<lparr>qr_queue := ct_work c\<rparr>\<rparr>"

inductive work_step :: "sessionWork \<Rightarrow> sessionWork \<Rightarrow> bool" where
  arrives: "work_step w (w\<lparr>sr_read := insert (bs_workEpoch (sr_session w)) (sr_read w)\<rparr>)"
| queue: "queue_step (sr_run w) r \<Longrightarrow> epoch \<in> sr_read w \<Longrightarrow>
    bs_active (sr_session w) = None \<or> set (qr_holders (sr_run w)) \<subseteq> set (qr_holders r) \<Longrightarrow>
    work_step w (w\<lparr>sr_run := r, sr_epochs := (sr_epochs w)(qr_next (sr_run w) := epoch)\<rparr>)"
| begins: "i \<in> set (qr_holders (sr_run w)) \<Longrightarrow> i \<notin> sr_begun w \<Longrightarrow> execute_gate (sr_epochs w i) i (sr_session w) = (out, s) \<Longrightarrow>
    work_step w (w\<lparr>sr_session := s, sr_begun := insert i (sr_begun w)\<rparr>)"
| ends: "work_step w (w\<lparr>sr_session := execute_end (sr_session w)\<rparr>)"
| call_over: "work_step w (w\<lparr>sr_session := (sr_session w)\<lparr>bs_cancelled := True\<rparr>\<rparr>)"
| controls: "control_session reachable action link (sr_controlled w) = (out, link1, c) \<Longrightarrow> work_step w (set_controlled c w)"
| scope_message: "work_step w (set_controlled (scope_session paused scopeChanged (sr_controlled w)) w)"
| connection_lost: "work_step w (set_controlled (link_lost (sr_controlled w)) w)"
| closes: "work_step w (set_controlled (close_session (sr_controlled w)) w)"

section \<open>The invariant\<close>

definition session_ok :: "nat list \<Rightarrow> (nat \<Rightarrow> 64 word) \<Rightarrow> browserSession \<Rightarrow> bool" where
  "session_ok holders epochs s \<longleftrightarrow> (\<forall>i. bs_active s = Some i \<longrightarrow> i \<in> set holders
     \<and> (\<not> bs_cancelled s \<and> \<not> bs_shut s \<longrightarrow> \<not> bs_paused s \<and> \<not> bs_disconnected s \<and> epochs i = bs_workEpoch s))"

definition work_inv :: "sessionWork \<Rightarrow> bool" where
  "work_inv w \<longleftrightarrow> queue_inv (sr_run w) \<and> set (qr_holders (sr_run w)) \<subseteq> {..<qr_next (sr_run w)}
     \<and> session_ok (qr_holders (sr_run w)) (sr_epochs w) (sr_session w)"

text \<open>An operation on a session keeps the invariant when it leaves the queue or drops its waiters, and keeps \<open>session_ok\<close>.\<close>

definition harmless :: "controlled \<Rightarrow> controlled \<Rightarrow> bool" where
  "harmless c d \<longleftrightarrow> (ct_work d = ct_work c \<or> ct_work d = cancelPending (ct_work c))
     \<and> (\<forall>holders epochs. session_ok holders epochs (ct_session c) \<longrightarrow> session_ok holders epochs (ct_session d))"

lemma harmless_same: "harmless c c" by (simp add: harmless_def)

lemma harmless_invalidate: "harmless c (invalidate (set_paused p c))" "harmless c (invalidate c)"
  "harmless c (invalidate (c\<lparr>ct_session := (ct_session c)\<lparr>bs_disconnected := x\<rparr>\<rparr>))"
  by (auto simp: harmless_def invalidate_def set_paused_def session_ok_def)

lemma harmless_resume: "harmless c (set_paused False c)"
  by (auto simp: harmless_def set_paused_def session_ok_def)

lemma session_ok_shut: "session_ok holders epochs s \<Longrightarrow> session_ok holders epochs (s\<lparr>bs_shut := True\<rparr>)"
  by (simp add: session_ok_def)

lemma harmless_shut: "harmless c d \<Longrightarrow> harmless c (d\<lparr>ct_session := (ct_session d)\<lparr>bs_shut := True\<rparr>\<rparr>)"
  by (simp add: harmless_def session_ok_shut)

lemma harmless_scope: "harmless c (scope_session paused changed c)"
  using harmless_invalidate harmless_resume by (cases paused) (auto simp: scope_session_def Let_def)

lemma harmless_lost: "harmless c (link_lost c)"
  using harmless_invalidate by (simp add: link_lost_def)

lemma harmless_close: "harmless c (close_session c)"
  by (auto simp: harmless_def close_session_def session_ok_def Let_def)

lemma harmless_action: "control_action action link c = Inr d \<Longrightarrow> harmless c d"
  using harmless_invalidate harmless_resume harmless_same harmless_shut [OF harmless_invalidate(3)]
  by (auto simp: control_action_def Let_def split: if_splits option.splits)

lemma control_session_session:
  "snd (snd (control_session reachable action link c)) = (case control_action action link c of Inl _ \<Rightarrow> c | Inr d \<Rightarrow> d)"
proof (cases "control_action action link c")
  case (Inr d)
  then show ?thesis
    by (cases link; cases "control_link reachable action (the link)"; cases "fst (control_link reachable action (the link))")
      (simp_all add: control_session_def Let_def)
qed (simp add: control_session_def)

lemma control_session_state:
  assumes "control_session reachable action link c = (out, link1, d)"
  shows "case control_action action link c of Inl _ \<Rightarrow> d = c | Inr e \<Rightarrow> d = e"
  using control_session_session [of reachable action link c] unfolding assms by (auto split: sum.splits)

lemma harmless_control: "control_session reachable action link c = (out, link1, d) \<Longrightarrow> harmless c d"
  using control_session_state [of reachable action link c] harmless_action [of action link c] harmless_same [of c]
  by (auto split: sum.splits)

lemma harmless_inv:
  assumes "harmless (sr_controlled w) d" "work_inv w"
  shows "work_inv (set_controlled d w)"
proof -
  have "queue_inv ((sr_run w)\<lparr>qr_queue := cancelPending (qr_queue (sr_run w))\<rparr>)"
    by (rule queue_step_inv [OF queue_step.cancel_all]) (use assms(2) in \<open>simp add: work_inv_def\<close>)
  then show ?thesis using assms by (auto simp: harmless_def work_inv_def sr_controlled_def set_controlled_def)
qed

lemma queue_step_holders:
  "queue_step r t \<Longrightarrow> queue_inv r \<Longrightarrow> set (qr_holders r) \<subseteq> {..<qr_next r} \<Longrightarrow> set (qr_holders t) \<subseteq> {..<qr_next t}"
proof (induction rule: queue_step.induct)
  case (woken i r ctxErr q)
  then show ?case by (auto simp: queue_inv_def)
next
  case (release i r)
  then show ?case using set_remove1_subset [of i "qr_holders r"] by auto
qed auto

lemma execute_gate_ok:
  assumes "execute_gate (epochs i) i s = (out, t)" "i \<in> set holders" "session_ok holders epochs s"
  shows "session_ok holders epochs t"
  using assms by (auto simp: execute_gate_def session_ok_def split: if_splits)

lemma work_step_inv: "work_step w v \<Longrightarrow> work_inv w \<Longrightarrow> work_inv v"
proof (induction rule: work_step.induct)
  case (queue w r epoch)
  then have q: "queue_inv (sr_run w)" "set (qr_holders (sr_run w)) \<subseteq> {..<qr_next (sr_run w)}" by (simp_all add: work_inv_def)
  have "qr_next (sr_run w) \<noteq> i" if "bs_active (sr_session w) = Some i" for i
    using queue(4) that q(2) by (auto simp: work_inv_def session_ok_def)
  then have "session_ok (qr_holders r) ((sr_epochs w)(qr_next (sr_run w) := epoch)) (sr_session w)"
    using queue(3,4) by (auto simp: work_inv_def session_ok_def)
  then show ?case using queue_step_inv [OF queue(1) q(1)] queue_step_holders [OF queue(1) q] by (simp add: work_inv_def)
next
  case (begins i w out s)
  then show ?case using execute_gate_ok [where epochs = "sr_epochs w", OF begins(3,1)] by (simp add: work_inv_def)
next
  case (controls reachable action link w out link1 c)
  then show ?case using harmless_inv harmless_control by blast
next
  case (scope_message w paused scopeChanged)
  then show ?case by (intro harmless_inv harmless_scope)
next
  case (connection_lost w)
  then show ?case by (intro harmless_inv harmless_lost)
next
  case (closes w)
  then show ?case by (intro harmless_inv harmless_close)
qed (simp_all add: work_inv_def session_ok_def execute_end_def)

definition new_sessionWork :: "sessionWork \<Rightarrow> bool" where
  "new_sessionWork w \<longleftrightarrow> sr_run w = new_queueRun \<and> bs_active (sr_session w) = None"

interpretation session_work: invariant_system new_sessionWork work_step work_inv
proof unfold_locales
  show "work_inv w" if "new_sessionWork w" for w
    using that new_queueRun_inv by (simp add: new_sessionWork_def work_inv_def session_ok_def) (simp add: new_queueRun_def)
  show "work_inv v" if "work_inv w" "work_step w v" for w v by (rule work_step_inv [OF that(2,1)])
qed

definition stops :: "string \<Rightarrow> bool" where
  "stops action \<longleftrightarrow> action \<in> {''pause'', ''waiting_user'', ''cancel'', ''disconnect''}"

lemma stopped:
  assumes "control_session reachable action link c = (out, link1, d)" "stops action"
  shows "(bs_active (ct_session d) = None \<or> bs_cancelled (ct_session d)) \<and> q_waiting (ct_work d) = []
    \<and> bs_workEpoch (ct_session d) = bs_workEpoch (ct_session c) + 1"
proof -
  have "\<exists>e. control_action action link c = Inr e \<and> (bs_active (ct_session e) = None \<or> bs_cancelled (ct_session e))
      \<and> q_waiting (ct_work e) = [] \<and> bs_workEpoch (ct_session e) = bs_workEpoch (ct_session c) + 1"
    using assms(2) unfolding stops_def
    by (cases "bs_active (ct_session c)"; elim insertE emptyE) (simp_all add: control_action_def Let_def invalidate_def set_paused_def cancelPending_def)
  then show ?thesis using control_session_state [OF assms(1)] by auto
qed

text \<open>C9: whatever calls, controls, messages of the extension and closings do to a session, a call that works on it and has not been cancelled holds
  the only permit, works under the session's present epoch, and the session is neither paused nor disconnected. Pausing, cancelling
  or disconnecting a session cancels the call it is busy with, drops those that wait, and turns away at the gate any call
  that came before.\<close>

theorem no_work_while_paused:
  assumes "reach new_sessionWork work_step w"
  shows "(\<forall>i. bs_active (sr_session w) = Some i \<and> \<not> bs_cancelled (sr_session w) \<and> \<not> bs_shut (sr_session w) \<longrightarrow>
      qr_holders (sr_run w) = [i] \<and> sr_epochs w i = bs_workEpoch (sr_session w)
      \<and> \<not> bs_paused (sr_session w) \<and> \<not> bs_disconnected (sr_session w))
    \<and> (\<forall>reachable action link out link1 d. control_session reachable action link (sr_controlled w) = (out, link1, d) \<and> stops action \<longrightarrow>
      (bs_active (ct_session d) = None \<or> bs_cancelled (ct_session d)) \<and> q_waiting (ct_work d) = []
      \<and> (\<forall>i. execute_gate (bs_workEpoch (sr_session w)) i (ct_session d) = (GateCancelled, ct_session d)))"
proof (intro conjI)
  have inv: "work_inv w" by (rule session_work.reach_inv [OF assms])
  have "length (qr_holders (sr_run w)) \<le> 1"
    using inv by (auto simp: work_inv_def queue_inv_def permits_def split: if_splits)
  then have "qr_holders (sr_run w) = [i]" if "i \<in> set (qr_holders (sr_run w))" for i
    using that by (cases "qr_holders (sr_run w)") auto
  then show "\<forall>i. bs_active (sr_session w) = Some i \<and> \<not> bs_cancelled (sr_session w) \<and> \<not> bs_shut (sr_session w) \<longrightarrow>
      qr_holders (sr_run w) = [i] \<and> sr_epochs w i = bs_workEpoch (sr_session w)
      \<and> \<not> bs_paused (sr_session w) \<and> \<not> bs_disconnected (sr_session w)"
    using inv by (simp add: work_inv_def session_ok_def)
  show "\<forall>reachable action link out link1 d. control_session reachable action link (sr_controlled w) = (out, link1, d) \<and> stops action \<longrightarrow>
      (bs_active (ct_session d) = None \<or> bs_cancelled (ct_session d)) \<and> q_waiting (ct_work d) = []
      \<and> (\<forall>i. execute_gate (bs_workEpoch (sr_session w)) i (ct_session d) = (GateCancelled, ct_session d))"
  proof (intro allI impI)
    fix reachable action link out link1 d
    assume a: "control_session reachable action link (sr_controlled w) = (out, link1, d) \<and> stops action"
    show "(bs_active (ct_session d) = None \<or> bs_cancelled (ct_session d)) \<and> q_waiting (ct_work d) = []
      \<and> (\<forall>i. execute_gate (bs_workEpoch (sr_session w)) i (ct_session d) = (GateCancelled, ct_session d))"
      using stopped [OF conjunct1 [OF a] conjunct2 [OF a]] by (simp add: execute_gate_def sr_controlled_def)
  qed
qed

theorem no_work_while_paused_witness:
  "\<exists>w d. reach new_sessionWork work_step w \<and> bs_active (sr_session w) = Some 0 \<and> qr_holders (sr_run w) = [0] \<and> sr_epochs w 0 = 4
     \<and> control_action ''pause'' None (sr_controlled w) = Inr d \<and> bs_cancelled (ct_session d)
     \<and> execute_gate 4 1 (ct_session d) = (GateCancelled, ct_session d)"
proof -
  let ?s = "\<lparr>bs_id = ''browser_1'', bs_workEpoch = 4, bs_paused = False, bs_disconnected = False, bs_active = None, bs_cancelled = False,
    bs_shut = False, bs_boundOnly = False, bs_profile = [], bs_personal = None, bs_selected = [], bs_tabs = []\<rparr>"
  let ?w0 = "\<lparr>sr_session = ?s, sr_run = new_queueRun, sr_read = {}, sr_epochs = \<lambda>_. 0, sr_begun = {}\<rparr>"
  let ?w1 = "?w0\<lparr>sr_read := {4}\<rparr>"
  let ?r = "new_queueRun\<lparr>qr_queue := new_queue\<lparr>q_active := True\<rparr>, qr_holders := [0], qr_next := 1\<rparr>"
  let ?w2 = "?w1\<lparr>sr_run := ?r, sr_epochs := (\<lambda>_. 0)(0 := 4)\<rparr>"
  let ?w3 = "?w2\<lparr>sr_session := ?s\<lparr>bs_active := Some 0\<rparr>, sr_begun := {0}\<rparr>"
  have "reach new_sessionWork work_step ?w0" by (rule reach_start) (simp add: new_sessionWork_def)
  moreover have "work_step ?w0 ?w1" using work_step.arrives [of ?w0] by simp
  moreover have "queue_step new_queueRun ?r"
    using queue_step.admitted [of None new_queueRun "new_queue\<lparr>q_active := True\<rparr>"] by (simp add: acquire_def new_queueRun_def new_queue_def)
  then have "work_step ?w1 ?w2" using work_step.queue [of ?w1 ?r 4] by (simp add: new_queueRun_def)
  moreover have "work_step ?w2 ?w3" using work_step.begins [of 0 ?w2 GateOpen] by (simp add: execute_gate_def)
  ultimately have r: "reach new_sessionWork work_step ?w3" by (iprover intro: reach_step)
  obtain d where d: "control_action ''pause'' None (sr_controlled ?w3) = Inr d" by (simp add: control_action_def)
  then have "\<exists>out. control_session True ''pause'' None (sr_controlled ?w3) = (out, None, d)" by (simp add: control_session_def Let_def)
  then obtain out where out: "control_session True ''pause'' None (sr_controlled ?w3) = (out, None, d)" ..
  have "bs_active (ct_session d) = Some 0" using d by (auto simp: control_action_def invalidate_def set_paused_def sr_controlled_def)
  then have "bs_cancelled (ct_session d) \<and> execute_gate 4 1 (ct_session d) = (GateCancelled, ct_session d)"
    using conjunct2 [OF no_work_while_paused [OF r], rule_format, OF conjI [OF out]] by (simp add: stops_def)
  then show ?thesis using r d by (intro exI [of _ ?w3] exI [of _ d]) simp
qed

end
