(* ===== verification/BrowserBridge.thy ===== *)
theory BrowserBridge
  imports BrowserControl BrowserDiscovery
begin

text \<open>
  The extensions a manager serves and the sessions over them: \<open>serveBridge\<close> and its messages
  (\<open>cmd/agent/browser_bridge.go\<close>), the opening of a session (\<open>openPersonal\<close>, \<open>syncPersonalTabs\<close> in
  \<open>cmd/agent/browser_personal.go\<close>, the admission in \<open>open\<close> of \<open>browser.go\<close>). Fresh ids are arguments. The contents of
  diagnostic events, and what the browser itself does, are not represented.
\<close>

section \<open>Connections\<close>

record bridges =
  br_links :: links
  br_first :: "string option"
  br_sessions :: "(string \<times> controlled) list"
  br_peers :: nat
  br_closed :: bool

text \<open>The loop that accepts: a connection is served, or closed at once.\<close>

definition accept_peer :: "bridges \<Rightarrow> bool \<times> bridges" where
  "accept_peer st =
    (if br_closed st then (False, st)
     else if br_peers st \<ge> browserBridgeConnections then (False, st)
     else (True, st\<lparr>br_peers := br_peers st + 1\<rparr>))"

definition peer_gone :: "bridges \<Rightarrow> bridges" where
  "peer_gone st = st\<lparr>br_peers := br_peers st - 1\<rparr>"

text \<open>The first message; \<open>samePeer\<close> is what \<open>browserIPCPeer\<close> finds of the connecting process.\<close>

definition hello_ok :: "string \<Rightarrow> string \<Rightarrow> bool \<Rightarrow> browserBridgeMessage \<Rightarrow> bool" where
  "hello_ok token extension samePeer m \<longleftrightarrow>
     \<not> (mk_Kind m \<noteq> ''hello'' \<or> mk_Token m \<noteq> token \<or> mk_Origin m \<noteq> ''chrome-extension://'' @ extension @ ''/'' \<or> \<not> samePeer)"

definition connect :: "string \<Rightarrow> bridges \<Rightarrow> bridges option" where
  "connect i st =
    (if br_closed st then None
     else Some (st\<lparr>br_links := AList.update i (new_bridge i) (br_links st),
                  br_first := (case br_first st of None \<Rightarrow> Some i | Some k \<Rightarrow> Some k)\<rparr>))"

definition hello_message :: "bool \<Rightarrow> string \<Rightarrow> browserBridgeMessage" where
  "hello_message allowLocal i =
    (message_of ''hello'')\<lparr>mk_AllowLocal := allowLocal, mk_CommandProtocol := browserCommandProtocol, mk_ConnectionID := i\<rparr>"

text \<open>Sessions by what they do; the tabs of some ids lose their context.\<close>

definition map_sessions :: "(controlled \<Rightarrow> bool) \<Rightarrow> (controlled \<Rightarrow> controlled) \<Rightarrow> bridges \<Rightarrow> bridges" where
  "map_sessions P f st = st\<lparr>br_sessions := map (\<lambda>(k, c). (k, if P c then f c else c)) (br_sessions st)\<rparr>"

definition over_link :: "string \<Rightarrow> controlled \<Rightarrow> bool" where
  "over_link i c \<longleftrightarrow> bs_personal (ct_session c) = Some i"

definition cancel_tabs :: "string set \<Rightarrow> controlled \<Rightarrow> controlled" where
  "cancel_tabs ids c =
    c\<lparr>ct_session := (ct_session c)\<lparr>bs_tabs := map (\<lambda>(k, t). (k, if k \<in> ids then t\<lparr>tab_over := True\<rparr> else t)) (bs_tabs (ct_session c))\<rparr>\<rparr>"

text \<open>The end of a connection. The calls that wait for an answer of the link get none: their channels are closed.\<close>

definition link_ended :: "string \<Rightarrow> bridges \<Rightarrow> bridges" where
  "link_ended i st =
    (let attached = (case map_of (br_links st) i of None \<Rightarrow> {} | Some l \<Rightarrow> snd ` set (bb_attached l));
         st1 = map_sessions (over_link i) link_lost (map_sessions (\<lambda>_. True) (cancel_tabs attached) st)
     in st1\<lparr>br_first := (if br_first st1 = Some i then None else br_first st1), br_links := AList.delete i (br_links st1)\<rparr>)"

section \<open>Messages\<close>

text \<open>The approved tabs of a scope message: None ends the connection.\<close>

fun approved_tabs :: "netlib \<Rightarrow> bool \<Rightarrow> browserPersonalTab list \<Rightarrow> browserPersonalTab list option" where
  "approved_tabs N allowLocal [] = Some []"
| "approved_tabs N allowLocal (t # ts) =
    (if pt_ID t > 0 \<and> (pt_URL t = ''about:blank'' \<or> checkURL N allowLocal (pt_URL t) = None)
     then if pt_WindowID t < 0 then None
          else map_option ((#) (t\<lparr>pt_Title := fst (truncateUTF8 (pt_Title t) 256)\<rparr>)) (approved_tabs N allowLocal ts)
     else approved_tabs N allowLocal ts)"

definition stale_scope :: "browserBridgeMessage \<Rightarrow> browserBridge \<Rightarrow> bool" where
  "stale_scope m l \<longleftrightarrow> bb_commandProtocol l = browserCommandProtocol
     \<and> (mk_ScopeEpoch m < bb_scopeEpoch l \<or> mk_ControlEpoch m < bb_controlEpoch l \<and> \<not> mk_LocalPaused m)"

definition scope_changed :: "browserBridgeMessage \<Rightarrow> browserBridge \<Rightarrow> bool" where
  "scope_changed m l \<longleftrightarrow> bb_commandProtocol l = browserCommandProtocol \<and> mk_ScopeEpoch m \<noteq> bb_scopeEpoch l"

definition new_scope :: "browserBridgeMessage \<Rightarrow> browserPersonalTab list \<Rightarrow> browserBridge \<Rightarrow> browserBridge" where
  "new_scope m valid l =
    l\<lparr>bb_scopeEpoch := mk_ScopeEpoch m, bb_tabs := valid, bb_paused := mk_Paused m, bb_localPaused := mk_LocalPaused m,
      bb_allowNew := mk_AllowNew m, bb_attached := filter (\<lambda>(n, _). n \<in> pt_ID ` set valid) (bb_attached l)\<rparr>"

definition detached :: "browserPersonalTab list \<Rightarrow> browserBridge \<Rightarrow> string set" where
  "detached valid l = snd ` set (filter (\<lambda>(n, _). n \<notin> pt_ID ` set valid) (bb_attached l))"

definition handle_scope :: "netlib \<Rightarrow> bool \<Rightarrow> string \<Rightarrow> browserBridgeMessage \<Rightarrow> bridges \<Rightarrow> bridges option" where
  "handle_scope N allowLocal i m st =
    (if length (mk_Tabs m) > browserPersonalTabLimit then None
     else (case approved_tabs N allowLocal (mk_Tabs m) of
             None \<Rightarrow> None
           | Some valid \<Rightarrow>
              (case map_of (br_links st) i of
                 None \<Rightarrow> None
               | Some l \<Rightarrow>
                  if stale_scope m l then Some st
                  else let st1 = map_sessions (\<lambda>_. True) (cancel_tabs (detached valid l))
                                   (st\<lparr>br_links := AList.update i (new_scope m valid l) (br_links st)\<rparr>)
                       in Some (map_sessions (over_link i) (scope_session (mk_Paused m) (scope_changed m l)) st1))))"

text \<open>A URL check: None ends the connection, otherwise the request to check, with the scope it came under.\<close>

definition handle_url_check :: "browserBridgeMessage \<Rightarrow> browserBridge \<Rightarrow> (string \<times> string \<times> 64 word) option" where
  "handle_url_check m l =
    (if length (mk_URL m) > 16384 \<or> length (mk_ID m) = 0 \<or> length (mk_ID m) > 128 then None
     else Some (mk_ID m, mk_URL m, bb_scopeEpoch l))"

text \<open>The answer to it, when the check is done.\<close>

definition url_reply :: "string \<times> string \<times> 64 word \<Rightarrow> bool \<Rightarrow> browserBridge \<Rightarrow> browserBridgeMessage" where
  "url_reply req allowed l =
    (message_of ''url_result'')\<lparr>mk_ID := fst req,
      mk_Allowed := (allowed \<and> \<not> bb_closed l \<and> \<not> bb_paused l \<and> bb_scopeEpoch l = snd (snd req))\<rparr>"

text \<open>One message of the extension \<open>i\<close>; a check it asks for is the second part of the answer.\<close>

definition serve_message :: "netlib \<Rightarrow> bool \<Rightarrow> string \<Rightarrow> browserBridgeMessage \<Rightarrow> bridges \<Rightarrow>
    (bridges \<times> (string \<times> string \<times> 64 word) option) option" where
  "serve_message N allowLocal i m st =
    (case map_of (br_links st) i of
       None \<Rightarrow> None
     | Some l \<Rightarrow>
        if mk_Kind m = ''identity''
        then map_option (\<lambda>links. (st\<lparr>br_links := links\<rparr>, None)) (identifyBrowser i m (br_links st))
        else if mk_Kind m = ''url_check'' then map_option (\<lambda>req. (st, Some req)) (handle_url_check m l)
        else if mk_Kind m = ''response'' \<or> mk_Kind m = ''cancel_ack''
        then Some (st\<lparr>br_links := AList.update i (handle_response m l) (br_links st)\<rparr>, None)
        else if mk_Kind m = ''scope'' then map_option (\<lambda>st1. (st1, None)) (handle_scope N allowLocal i m st)
        else Some (st, None))"

section \<open>Sessions\<close>

definition live_sessions :: "(string \<times> controlled) list \<Rightarrow> nat" where
  "live_sessions sessions = length (filter (\<lambda>(_, c). \<not> bs_disconnected (ct_session c)) sessions)"

definition new_browserSession :: "string \<Rightarrow> string \<Rightarrow> string option \<Rightarrow> controlled" where
  "new_browserSession i profile link =
    \<lparr>ct_session = \<lparr>bs_id = i, bs_workEpoch = 0, bs_paused = False, bs_disconnected = False, bs_active = None, bs_cancelled = False,
       bs_shut = False, bs_boundOnly = False, bs_profile = profile, bs_personal = link, bs_selected = [], bs_tabs = []\<rparr>,
     ct_work = new_queue\<rparr>"

definition limit_reached :: codedError where
  "limit_reached = toolErr ''limit_reached'' ''at most four browser sessions''"

text \<open>The session of \<open>openPersonal\<close>: the live one over the link, or a new one; disconnected sessions are forgotten then.\<close>

definition personal_session :: "string \<Rightarrow> string \<Rightarrow> (string \<times> controlled) list \<Rightarrow> (codedError + string) \<times> (string \<times> controlled) list" where
  "personal_session fresh link sessions =
    (case List.find (\<lambda>(_, c). over_link link c \<and> \<not> bs_disconnected (ct_session c)) sessions of
       Some (k, _) \<Rightarrow> (Inr k, sessions)
     | None \<Rightarrow>
        let alive = filter (\<lambda>(_, c). \<not> bs_disconnected (ct_session c)) sessions in
        if length alive \<ge> 4 then (Inl limit_reached, alive)
        else (Inr fresh, (fresh, new_browserSession fresh [] (Some link)) # alive))"

text \<open>The admission of a managed browser in \<open>open\<close>.\<close>

definition managed_session :: "string \<Rightarrow> string \<Rightarrow> (string \<times> controlled) list \<Rightarrow> codedError + string \<times> (string \<times> controlled) list" where
  "managed_session fresh profile sessions =
    (if live_sessions sessions \<ge> 4 then Inl limit_reached
     else if list_ex (\<lambda>(_, c). bs_profile (ct_session c) = profile \<and> \<not> bs_disconnected (ct_session c)) sessions
     then Inl (toolErr ''profile_in_use'' ''persistent profile already open'')
     else Inr (fresh, (fresh, new_browserSession fresh profile None) # sessions))"

text \<open>The checks of \<open>open\<close> before that.\<close>

definition open_checks :: "object \<Rightarrow> codedError + string" where
  "open_checks args =
    (if map_of args ''mode'' \<noteq> Some (JStr ''personal'')
       \<and> (map_of args ''reuse_only'' = Some (JBool True) \<or> map_of args ''exact_url'' \<notin> {None, Some JNull}
          \<or> map_of args ''window_id'' \<notin> {None, Some JNull})
     then Inl (toolErr ''invalid_arguments'' ''existing-tab targeting requires personal mode'')
     else bind_result (requiredString args ''mode'') (\<lambda>mode.
       if mode = ''personal'' then Inr mode
       else if mode \<noteq> ''clean'' \<and> mode \<noteq> ''persistent''
       then Inl (toolErr ''unsupported_mode'' ''managed browser supports clean and persistent'')
       else if list_ex (\<lambda>name. map_of args name \<noteq> None)
              [''connection_id'', ''profile_id'', ''browser_alias'', ''preferred_browser'', ''target_origin'']
       then Inl (toolErr ''invalid_arguments'' ''personal browser selection requires mode=personal'')
       else Inr mode))"

text \<open>What \<open>openPersonal\<close> asks for: whether only an existing tab will do, its URL and window, the arguments that choose the browser, and the origin.\<close>

record personalRequest =
  rq_reuseOnly :: bool
  rq_exactURL :: string
  rq_windowID :: int
  rq_selection :: object
  rq_origin :: string

definition personal_request :: "netlib \<Rightarrow> bool \<Rightarrow> object \<Rightarrow> callError + personalRequest" where
  "personal_request N allowLocal args =
    (case optionalBool args ''reuse_only'' of
       Inl e \<Rightarrow> Inl (CodedErr e)
     | Inr (reuseOnly0, _) \<Rightarrow>
        let exact0 = arg_string args ''exact_url''; requested = arg_string args ''url'';
            exactURL = (if reuseOnly0 \<and> exact0 = [] then requested else exact0)
        in (case optionalInt args ''window_id'' 0 0 2147483647 of
              Inl e \<Rightarrow> Inl (CodedErr e)
            | Inr windowID \<Rightarrow>
               let finish = (\<lambda>reuse selection. case personalTargetOrigin N args of
                       Inl e \<Rightarrow> Inl (CodedErr e)
                     | Inr origin \<Rightarrow> Inr \<lparr>rq_reuseOnly = reuse, rq_exactURL = exactURL, rq_windowID = windowID,
                         rq_selection = selection, rq_origin = origin\<rparr>)
               in if exactURL \<noteq> []
                  then (case canonicalBrowserExistingURL N exactURL of
                          Inl _ \<Rightarrow> Inl (CodedErr (toolErr ''invalid_arguments'' ''exact_url must be an HTTP/HTTPS URL without credentials''))
                        | Inr canonical \<Rightarrow>
                           if requested \<noteq> [] \<and> canonicalBrowserExistingURL N requested \<noteq> Inr canonical
                           then Inl (CodedErr (toolErr ''invalid_arguments'' ''url and exact_url must identify the same existing tab''))
                           else (case checkURL N allowLocal canonical of
                                   Some e \<Rightarrow> Inl e
                                 | None \<Rightarrow> finish True (AList.update ''exact_url'' (JStr canonical) args)))
                  else if reuseOnly0 \<or> windowID \<noteq> 0
                  then Inl (CodedErr (toolErr ''invalid_arguments'' ''reuse_only and window_id require exact_url or url''))
                  else finish reuseOnly0 args))"

text \<open>
  The choice of the browser: an error, a browser without approved tabs that is asked to prepare one, or a session.
  \<open>legacy\<close> is the manager's first link, which is one of its links whenever it has any.
\<close>

datatype personalChoice = PersonalFail callError | PersonalPrepare browserBridge | PersonalSession string

definition choose_session :: "netlib \<Rightarrow> string \<Rightarrow> personalRequest \<Rightarrow> browserBridge option \<Rightarrow> bridges \<Rightarrow> personalChoice \<times> bridges" where
  "choose_session N fresh rq legacy st =
    (case choosePersonal N (rq_selection rq) (rq_origin rq) (personalConnections (br_links st) legacy) of
       Inl e \<Rightarrow> (PersonalFail (CodedErr e), st)
     | Inr l \<Rightarrow>
        if bb_tabs l = [] \<and> \<not> bb_paused l
        then if rq_reuseOnly rq
             then (PersonalFail (CodedErr (toolErr ''tab_not_found'' ''the requested existing tab is not locally approved'')), st)
             else (PersonalPrepare l, st)
        else if bb_tabs l = [] \<or> bb_paused l
        then (PersonalFail (CodedErr (toolErr ''waiting_user'' ''select and unpause a tab locally in the extension'')), st)
        else (case personal_session fresh (bb_id l) (br_sessions st) of
                (Inl e, sessions) \<Rightarrow> (PersonalFail (CodedErr e), st\<lparr>br_sessions := sessions\<rparr>)
              | (Inr k, sessions) \<Rightarrow> (PersonalSession k, st\<lparr>br_sessions := sessions\<rparr>)))"

text \<open>The gate of \<open>openPersonal\<close> after its permit.\<close>

definition open_gate :: "bool \<Rightarrow> 64 word \<Rightarrow> nat \<Rightarrow> browserSession \<Rightarrow> gateAnswer \<times> browserSession" where
  "open_gate reuseOnly epoch call s =
    (if epoch \<noteq> bs_workEpoch s then (GateCancelled, s)
     else if bs_paused s \<or> bs_disconnected s then (GateRefused (toolErr ''access_paused'' ''browser session paused or disconnected''), s)
     else if bs_boundOnly s \<and> \<not> reuseOnly
     then (GateRefused (toolErr ''binding_changed'' ''reuse the exact existing target explicitly before changing this session''), s)
     else (GateOpen, s\<lparr>bs_active := Some call, bs_cancelled := False\<rparr>))"

section \<open>The tabs of a session\<close>

text \<open>
  \<open>syncPersonalTabs\<close>: new tabs get the ids of \<open>names\<close>; which tab of a duplicated native id counts stands for the order
  of a Go map.
\<close>

definition tab_of :: "int \<Rightarrow> (string \<times> browserTab) list \<Rightarrow> (string \<times> browserTab) option" where
  "tab_of n ts = List.find (\<lambda>(_, t). tab_nativeTabID t = n) ts"

definition fresh_tab :: "bool \<Rightarrow> int \<Rightarrow> browserTab" where
  "fresh_tab over n = \<lparr>tab_nativeTabID = n, tab_over = over, tab_dialog = False, tab_binding = None\<rparr>"

fun add_tabs :: "bool \<Rightarrow> (string \<times> browserTab) list \<Rightarrow> int list \<Rightarrow> string list \<Rightarrow> (string \<times> browserTab) list \<times> (int \<times> string) list \<Rightarrow>
    (string \<times> browserTab) list \<times> (int \<times> string) list" where
  "add_tabs over old (n # ns) (i # names) (ts, attached) =
    (case tab_of n old of
       Some (_, t) \<Rightarrow> if tab_over t then add_tabs over old ns names (AList.update i (fresh_tab over n) ts, AList.update n i attached)
                      else add_tabs over old ns (i # names) (ts, attached)
     | None \<Rightarrow> add_tabs over old ns names (AList.update i (fresh_tab over n) ts, AList.update n i attached))"
| "add_tabs over old _ _ acc = acc"

definition keep_tab :: "int set \<Rightarrow> browserTab \<Rightarrow> bool" where
  "keep_tab valid t \<longleftrightarrow> tab_nativeTabID t \<in> valid \<and> \<not> tab_over t"

definition syncPersonalTabs :: "string list \<Rightarrow> browserBridge \<Rightarrow> browserSession \<Rightarrow> browserBridge \<times> browserSession" where
  "syncPersonalTabs names l s =
    (let ns = map pt_ID (bb_tabs l);
         (ts, attached) = add_tabs (bs_shut s) (bs_tabs s) ns names (bs_tabs s, bb_attached l);
         kept = filter (\<lambda>(_, t). keep_tab (set ns) t) ts;
         gone = map (\<lambda>(k, t). (tab_nativeTabID t, k)) (filter (\<lambda>(_, t). \<not> keep_tab (set ns) t) ts);
         selected = (if map_of kept (bs_selected s) \<noteq> None then bs_selected s
                     else case List.find (\<lambda>n. tab_of n kept \<noteq> None) ns of
                            None \<Rightarrow> [] | Some n \<Rightarrow> fst (the (tab_of n kept)))
     in (l\<lparr>bb_attached := filter (\<lambda>e. e \<notin> set gone) attached\<rparr>, s\<lparr>bs_tabs := kept, bs_selected := selected\<rparr>))"

text \<open>The tab \<open>openPersonal\<close> selects among the approved ones.\<close>

definition select_tab :: "int \<Rightarrow> browserSession \<Rightarrow> browserSession" where
  "select_tab n s = (case tab_of n (bs_tabs s) of None \<Rightarrow> s | Some (k, _) \<Rightarrow> s\<lparr>bs_selected := k\<rparr>)"

definition open_select :: "netlib \<Rightarrow> personalRequest \<Rightarrow> browserPersonalTab list \<Rightarrow> browserSession \<Rightarrow>
    codedError + browserExistingChoice option \<times> browserSession" where
  "open_select N rq approved s =
    (let finish = (\<lambda>choice s1. if bs_selected s1 = [] then Inl (toolErr ''waiting_user'' ''open a permitted website in the connected browser'')
                               else Inr (choice, s1))
     in if rq_reuseOnly rq
        then (case chooseBrowserExistingTab N approved (rq_exactURL rq) (rq_windowID rq) of
                Inl e \<Rightarrow> Inl e
              | Inr choice \<Rightarrow> finish (Some choice) (select_tab (pt_ID (ch_Tab choice)) s))
        else if rq_origin rq \<noteq> []
        then (case filter (\<lambda>t. nl_ToLower N (browserDiagnosticURL N (pt_URL t)) = rq_origin rq) approved of
                [] \<Rightarrow> Inl (toolErr ''browser_not_found'' ''target origin is not in the approved tab catalog'')
              | [t] \<Rightarrow> finish None (select_tab (pt_ID t) s)
              | _ \<Rightarrow> Inl (toolErr ''ambiguous_tab'' ''multiple tabs match target_origin; open the profile without target_origin and explicitly select from browser_tabs''))
        else finish None s)"

end
