(* ===== verification/BridgeFacts.thy ===== *)
theory BridgeFacts
  imports BrowserBridge
begin

text \<open>
  The steps of the extensions and their sessions, and the invariant they keep (definitions in \<open>BrowserBridge\<close>).
\<close>

section \<open>Steps\<close>

definition put_session :: "string \<Rightarrow> controlled \<Rightarrow> bridges \<Rightarrow> bridges" where
  "put_session k c st = st\<lparr>br_sessions := AList.update k c (br_sessions st)\<rparr>"

definition close_bridges :: "bridges \<Rightarrow> bridges" where
  "close_bridges st = (map_sessions (\<lambda>_. True) close_session st)\<lparr>br_closed := True\<rparr>"

text \<open>What a call does to its session once it has the permit.\<close>

inductive session_step :: "browserBridge option \<Rightarrow> controlled \<Rightarrow> browserBridge option \<Rightarrow> controlled \<Rightarrow> bool" where
  gate: "execute_gate epoch call (ct_session c) = (out, s) \<Longrightarrow> session_step link c link (c\<lparr>ct_session := s\<rparr>)"
| opens: "open_gate reuseOnly epoch call (ct_session c) = (out, s) \<Longrightarrow> session_step link c link (c\<lparr>ct_session := s\<rparr>)"
| ends: "session_step link c link (c\<lparr>ct_session := execute_end (ct_session c)\<rparr>)"
| syncs: "syncPersonalTabs names l (ct_session c) = (l1, s) \<Longrightarrow> session_step (Some l) c (Some l1) (c\<lparr>ct_session := s\<rparr>)"
| calls: "callFrame_send now nbytes ctxErr wr ctxAfter cx i tabID frameID cdp_method params l = (out, l1) \<Longrightarrow> session_step (Some l) c (Some l1) c"
| queues: "queue_step r r1 \<Longrightarrow> qr_queue r = ct_work c \<Longrightarrow> session_step link c link (c\<lparr>ct_work := qr_queue r1\<rparr>)"
| controls: "control_session reachable action link c = (out, link1, c1) \<Longrightarrow> session_step link c link1 c1"

inductive bridge_step :: "bridges \<Rightarrow> bridges \<Rightarrow> bool" where
  accepts: "accept_peer st = (ok, st1) \<Longrightarrow> bridge_step st st1"
| peer_leaves: "bridge_step st (peer_gone st)"
| connects: "i \<notin> fst ` set (br_links st) \<Longrightarrow> \<forall>c \<in> snd ` set (br_sessions st). \<not> over_link i c \<Longrightarrow> connect i st = Some st1 \<Longrightarrow> bridge_step st st1"
| link_ends: "bridge_step st (link_ended i st)"
| message: "serve_message N allowLocal i m st = Some (st1, req) \<Longrightarrow> bridge_step st st1"
| personal: "fresh \<notin> fst ` set (br_sessions st) \<Longrightarrow>
    choose_session N fresh rq (case br_first st of None \<Rightarrow> None | Some k \<Rightarrow> map_of (br_links st) k) st = (choice, st1) \<Longrightarrow> bridge_step st st1"
| managed: "fresh \<notin> fst ` set (br_sessions st) \<Longrightarrow> managed_session fresh profile (br_sessions st) = Inr (k, sessions) \<Longrightarrow>
    bridge_step st (st\<lparr>br_sessions := sessions\<rparr>)"
| session: "map_of (br_sessions st) k = Some c \<Longrightarrow> session_step (link_of (br_links st) c) c link1 c1 \<Longrightarrow>
    bridge_step st (put_session k c1 (st\<lparr>br_links := put_link link1 (br_links st)\<rparr>))"
| fails: "map_of (br_sessions st) k = Some c \<Longrightarrow>
    bridge_step st (put_session k (c\<lparr>ct_session := (ct_session c)\<lparr>bs_disconnected := True\<rparr>\<rparr>) st)"
| closes: "bridge_step st (close_bridges st)"

definition new_bridges :: "bridges \<Rightarrow> bool" where
  "new_bridges st \<longleftrightarrow> st = \<lparr>br_links = [], br_first = None, br_sessions = [], br_peers = 0, br_closed = False\<rparr>"

section \<open>The invariant\<close>

definition tabs_ok :: "browserPersonalTab list \<Rightarrow> bool" where
  "tabs_ok ts \<longleftrightarrow> length ts \<le> browserPersonalTabLimit
     \<and> (\<forall>t \<in> set ts. 0 < pt_ID t \<and> 0 \<le> pt_WindowID t \<and> length (pt_Title t) \<le> 256)"

definition link_ok :: "string \<Rightarrow> browserBridge \<Rightarrow> bool" where
  "link_ok k l \<longleftrightarrow> bb_id l = k \<and> \<not> bb_closed l \<and> tabs_ok (bb_tabs l)"

definition profiles_ok :: "(string \<rightharpoonup> browserBridge) \<Rightarrow> bool" where
  "profiles_ok m \<longleftrightarrow> (\<forall>k k' l l'. m k = Some l \<longrightarrow> m k' = Some l' \<longrightarrow> bb_profileID l \<noteq> [] \<longrightarrow> bb_profileID l = bb_profileID l' \<longrightarrow> k = k')"

definition links_ok :: "links \<Rightarrow> bool" where
  "links_ok links \<longleftrightarrow> distinct (map fst links) \<and> (\<forall>k l. map_of links k = Some l \<longrightarrow> link_ok k l) \<and> profiles_ok (map_of links)"

definition attached_ok :: "links \<Rightarrow> controlled \<Rightarrow> bool" where
  "attached_ok links c \<longleftrightarrow> (case bs_personal (ct_session c) of None \<Rightarrow> True
     | Some i \<Rightarrow> (case map_of links i of None \<Rightarrow> bs_disconnected (ct_session c) | Some l \<Rightarrow> bs_paused (ct_session c) = bb_paused l))"

definition sessions_ok :: "(string \<times> controlled) list \<Rightarrow> bool" where
  "sessions_ok sessions \<longleftrightarrow> distinct (map fst sessions) \<and> live_sessions sessions \<le> 4
     \<and> (\<forall>k k' c c' i. map_of sessions k = Some c \<and> map_of sessions k' = Some c' \<and> over_link i c \<and> over_link i c' \<longrightarrow> k = k')"

definition bridge_ok :: "bridges \<Rightarrow> bool" where
  "bridge_ok st \<longleftrightarrow> links_ok (br_links st) \<and> sessions_ok (br_sessions st)
     \<and> (\<forall>k c. map_of (br_sessions st) k = Some c \<longrightarrow> attached_ok (br_links st) c)
     \<and> (\<forall>k. br_first st = Some k \<longrightarrow> k \<in> fst ` set (br_links st)) \<and> br_peers st \<le> browserBridgeConnections"

text \<open>Changes of sessions that revive none and leave them with their links keep what is said of sessions alone.\<close>

definition steady :: "controlled \<Rightarrow> controlled \<Rightarrow> bool" where
  "steady c d \<longleftrightarrow> bs_personal (ct_session d) = bs_personal (ct_session c)
     \<and> (bs_disconnected (ct_session c) \<longrightarrow> bs_disconnected (ct_session d))"

lemma live_map: "(\<And>c. steady c (f c)) \<Longrightarrow> live_sessions (map (\<lambda>(k, c). (k, f c)) xs) \<le> live_sessions xs"
  by (induction xs) (auto simp: live_sessions_def steady_def le_Suc_eq)

lemma live_update: "map_of xs k = Some c \<Longrightarrow> steady c d \<Longrightarrow> live_sessions (AList.update k d xs) \<le> live_sessions xs"
  by (induction xs) (auto simp: live_sessions_def steady_def split: if_splits)

lemma map_of_sessions: "map_of (map (\<lambda>(k, c). (k, f c)) xs) k = map_option f (map_of xs k)"
  by (induction xs) auto

lemma map_fst_sessions: "map (fst \<circ> (\<lambda>(k, c). (k, f c))) xs = map fst xs"
  by (induction xs) auto

lemma sessions_ok_map:
  assumes "sessions_ok xs" "\<And>c. steady c (f c)"
  shows "sessions_ok (map (\<lambda>(k, c). (k, f c)) xs)"
proof -
  have over: "over_link i (f c) = over_link i c" for i c using assms(2) [of c] by (simp add: steady_def over_link_def)
  show ?thesis unfolding sessions_ok_def
  proof (intro conjI allI impI)
    show "distinct (map fst (map (\<lambda>(k, c). (k, f c)) xs))" using assms(1) by (simp add: sessions_ok_def map_fst_sessions)
    show "live_sessions (map (\<lambda>(k, c). (k, f c)) xs) \<le> 4"
      using assms(1) live_map [OF assms(2), of xs] by (simp add: sessions_ok_def)
    show "k = k'" if "map_of (map (\<lambda>(k, c). (k, f c)) xs) k = Some c \<and> map_of (map (\<lambda>(k, c). (k, f c)) xs) k' = Some c'
        \<and> over_link i c \<and> over_link i c'" for k k' c c' i
    proof -
      from that obtain d d' where "map_of xs k = Some d" "map_of xs k' = Some d'" "over_link i d" "over_link i d'"
        unfolding map_of_sessions by (auto simp: over)
      then show ?thesis using assms(1) unfolding sessions_ok_def by blast
    qed
  qed
qed

lemma sessions_ok_update:
  assumes "sessions_ok xs" "map_of xs k = Some c" "steady c d"
  shows "sessions_ok (AList.update k d xs)"
  unfolding sessions_ok_def
proof (intro conjI allI impI)
  have old: "\<exists>g. map_of xs j = Some g \<and> over_link i g" if "map_of (AList.update k d xs) j = Some e" "over_link i e" for i j e
    using that assms(2,3) by (auto simp: update_conv' steady_def over_link_def split: if_splits)
  show "distinct (map fst (AList.update k d xs))" using assms(1) by (simp add: sessions_ok_def distinct_update)
  show "live_sessions (AList.update k d xs) \<le> 4"
    using assms(1) live_update [OF assms(2,3)] by (simp add: sessions_ok_def)
  show "a = b" if "map_of (AList.update k d xs) a = Some e \<and> map_of (AList.update k d xs) b = Some e' \<and> over_link i e \<and> over_link i e'"
    for a b e e' i
  proof -
    from that old obtain g g' where "map_of xs a = Some g" "over_link i g" "map_of xs b = Some g'" "over_link i g'" by metis
    then show ?thesis using assms(1) unfolding sessions_ok_def by blast
  qed
qed

text \<open>A step of one session leaves it with its link, and paused as the link is.\<close>

definition in_step :: "browserBridge option \<Rightarrow> controlled \<Rightarrow> bool" where
  "in_step link c \<longleftrightarrow> (case link of None \<Rightarrow> True | Some l \<Rightarrow> bs_paused (ct_session c) = bb_paused l)"

definition same_link :: "browserBridge option \<Rightarrow> browserBridge option \<Rightarrow> bool" where
  "same_link a b \<longleftrightarrow> (case (a, b) of (None, None) \<Rightarrow> True
     | (Some l, Some m) \<Rightarrow> bb_id m = bb_id l \<and> bb_closed m = bb_closed l \<and> bb_tabs m = bb_tabs l \<and> bb_profileID m = bb_profileID l
     | _ \<Rightarrow> False)"

lemma same_link_refl: "same_link a a" by (simp add: same_link_def split: option.split)

lemma gate_steady:
  "execute_gate epoch call s = (out, t) \<Longrightarrow> bs_personal t = bs_personal s \<and> bs_disconnected t = bs_disconnected s \<and> bs_paused t = bs_paused s"
  "open_gate reuseOnly epoch call s = (out, t) \<Longrightarrow> bs_personal t = bs_personal s \<and> bs_disconnected t = bs_disconnected s \<and> bs_paused t = bs_paused s"
  by (auto simp: execute_gate_def open_gate_def split: if_splits)

lemma sync_steady:
  "syncPersonalTabs names l s = (l1, t) \<Longrightarrow> same_link (Some l) (Some l1) \<and> bb_paused l1 = bb_paused l
     \<and> bs_personal t = bs_personal s \<and> bs_disconnected t = bs_disconnected s \<and> bs_paused t = bs_paused s"
  by (auto simp: syncPersonalTabs_def same_link_def Let_def split: prod.splits)

lemma sendContext_steady: "sendContext ctxErr n wr m l = (e, l1) \<Longrightarrow> same_link (Some l) (Some l1) \<and> bb_paused l1 = bb_paused l"
  by (auto simp: sendContext_def same_link_def split: option.splits if_splits)

lemma call_steady:
  assumes "callFrame_send now nbytes ctxErr wr ctxAfter cx i tabID frameID cdp_method params l = (out, l1)"
  shows "same_link (Some l) (Some l1) \<and> bb_paused l1 = bb_paused l"
proof (cases "callFrame_begin cx i tabID cdp_method l")
  case (Inl e)
  then show ?thesis using assms by (simp add: callFrame_send_def same_link_refl)
next
  case (Inr r)
  obtain expected l0 where r: "r = (expected, l0)" by (cases r)
  have "l0 = l\<lparr>bb_pending := AList.update i None (bb_pending l)\<rparr>"
    using Inr by (auto simp: callFrame_begin_def r split: option.splits if_splits)
  then show ?thesis using assms Inr sendContext_steady
    by (auto simp: callFrame_send_def r same_link_def split: prod.splits option.splits dest!: sendContext_steady)
qed

lemma action_steady:
  "control_action action link c = Inr d \<Longrightarrow> bs_personal (ct_session d) = bs_personal (ct_session c)
     \<and> (bs_disconnected (ct_session c) \<longrightarrow> bs_disconnected (ct_session d))
     \<and> bs_paused (ct_session d) = (if action \<in> {''pause'', ''waiting_user''} then True else if action = ''resume'' then False else bs_paused (ct_session c))"
  by (auto simp: control_action_def invalidate_def set_paused_def Let_def split: if_splits option.splits)

lemma control_link_steady:
  "control_link reachable action l = (ok, l1) \<Longrightarrow> same_link (Some l) (Some l1) \<and> bb_paused l1 = (action \<in> {''pause'', ''waiting_user''})"
  by (auto simp: control_link_def same_link_def Let_def split: if_splits)

lemma control_steady:
  assumes "control_session reachable action link c = (out, link1, d)" "in_step link c"
  shows "steady c d \<and> same_link link link1 \<and> in_step link1 d"
proof (cases "control_action action link c")
  case (Inl e)
  then show ?thesis using assms by (simp add: control_session_def steady_def same_link_refl)
next
  case (Inr e)
  have d: "d = e" using control_session_state [OF assms(1)] Inr by simp
  note s = action_steady [OF Inr]
  show ?thesis
  proof (cases link)
    case None
    then show ?thesis using assms Inr s d by (simp add: control_session_def Let_def steady_def same_link_def in_step_def)
  next
    case (Some l)
    obtain ok l1 where l1: "control_link reachable action l = (ok, l1)" by force
    show ?thesis
    proof (cases "action \<in> {''pause'', ''waiting_user'', ''resume''}")
      case True
      then have "link1 = Some l1" using assms(1) Inr Some l1 by (cases ok) (auto simp: control_session_def Let_def)
      then show ?thesis using True s d control_link_steady [OF l1] Some by (auto simp: steady_def in_step_def)
    next
      case False
      then have "link1 = Some l" using assms(1) Inr Some by (auto simp: control_session_def Let_def)
      then show ?thesis using False s d Some assms(2) same_link_refl [of "Some l"] by (auto simp: steady_def in_step_def)
    qed
  qed
qed

lemma session_step_steady: "session_step link c link1 d \<Longrightarrow> in_step link c \<Longrightarrow> steady c d \<and> same_link link link1 \<and> in_step link1 d"
proof (induction rule: session_step.induct)
  case (gate epoch call c out s link)
  then show ?case using gate_steady(1) by (auto simp: steady_def same_link_refl in_step_def split: option.split)
next
  case (opens reuseOnly epoch call c out s link)
  then show ?case using gate_steady(2) by (auto simp: steady_def same_link_refl in_step_def split: option.split)
next
  case (ends link c)
  then show ?case by (auto simp: steady_def same_link_refl in_step_def execute_end_def split: option.split)
next
  case (syncs names l c l1 s)
  then show ?case using sync_steady by (auto simp: steady_def in_step_def)
next
  case (calls now nbytes ctxErr wr ctxAfter cx i tabID frameID cdp_method params l out l1 c)
  then show ?case using call_steady [OF calls(1)] by (simp add: steady_def in_step_def)
next
  case (queues r r1 c link)
  then show ?case by (auto simp: steady_def same_link_refl in_step_def split: option.split)
next
  case (controls reachable action link c out link1 c1)
  then show ?case using control_steady by blast
qed

section \<open>Links\<close>

lemma profiles_ok_update:
  assumes "profiles_ok m" "\<And>k l. m k = Some l \<Longrightarrow> k \<noteq> i \<Longrightarrow> bb_profileID n \<noteq> [] \<Longrightarrow> bb_profileID l \<noteq> bb_profileID n"
  shows "profiles_ok (m(i \<mapsto> n))"
  unfolding profiles_ok_def
proof (intro allI impI)
  fix k k' l l'
  assume a: "(m(i \<mapsto> n)) k = Some l" "(m(i \<mapsto> n)) k' = Some l'" "bb_profileID l \<noteq> []" "bb_profileID l = bb_profileID l'"
  consider "k = i" "k' = i" | "k = i" "k' \<noteq> i" | "k \<noteq> i" "k' = i" | "k \<noteq> i" "k' \<noteq> i" by blast
  then show "k = k'"
  proof cases
    case 2
    then show ?thesis using a assms(2) [of k' l'] by simp
  next
    case 3
    then show ?thesis using a assms(2) [of k l] by simp
  next
    case 4
    then have "m k = Some l" "m k' = Some l'" using a by simp_all
    then show ?thesis using a(3,4) assms(1) unfolding profiles_ok_def by blast
  qed simp
qed

lemma links_ok_update:
  assumes "links_ok links" "link_ok i n"
    "\<And>k l. map_of links k = Some l \<Longrightarrow> k \<noteq> i \<Longrightarrow> bb_profileID n \<noteq> [] \<Longrightarrow> bb_profileID l \<noteq> bb_profileID n"
  shows "links_ok (AList.update i n links)"
  using assms(1,2) profiles_ok_update [of "map_of links" i n, OF _ assms(3)]
  by (simp add: links_ok_def distinct_update update_conv)

lemma links_ok_profile:
  assumes "links_ok links" "map_of links i = Some l" "map_of links k = Some l'" "k \<noteq> i" "bb_profileID l \<noteq> []"
  shows "bb_profileID l' \<noteq> bb_profileID l"
proof
  assume "bb_profileID l' = bb_profileID l"
  moreover have "profiles_ok (map_of links)" using assms(1) by (simp add: links_ok_def)
  ultimately have "i = k" using assms(2,3,5) unfolding profiles_ok_def by metis
  then show False using assms(4) by simp
qed

text \<open>A link that keeps its id and profile can be replaced.\<close>

lemma links_ok_replace:
  assumes "links_ok links" "map_of links i = Some l" "link_ok i n" "bb_profileID n = bb_profileID l"
  shows "links_ok (AList.update i n links)"
  using links_ok_profile [OF assms(1,2)] assms(4) by (intro links_ok_update [OF assms(1,3)]) simp

lemma links_ok_same:
  assumes "links_ok links" "map_of links i = Some l" "same_link (Some l) (Some n)"
  shows "links_ok (AList.update i n links)"
proof (rule links_ok_replace [OF assms(1,2)])
  have "link_ok i l" using assms(1,2) by (simp add: links_ok_def)
  then show "link_ok i n" using assms(3) by (simp add: link_ok_def same_link_def)
  show "bb_profileID n = bb_profileID l" using assms(3) by (simp add: same_link_def)
qed

lemma links_ok_delete:
  assumes "links_ok links"
  shows "links_ok (AList.delete i links)"
  unfolding links_ok_def
proof (intro conjI allI impI)
  show "distinct (map fst (AList.delete i links))" using assms by (simp add: links_ok_def distinct_delete)
  show "link_ok k l" if "map_of (AList.delete i links) k = Some l" for k l
    using that assms by (simp add: links_ok_def delete_conv' split: if_splits)
  have "profiles_ok (map_of links)" using assms by (simp add: links_ok_def)
  then show "profiles_ok (map_of (AList.delete i links))"
    unfolding profiles_ok_def delete_conv' by (metis fun_upd_apply option.distinct(1))
qed

lemma approved_tabs_ok:
  "approved_tabs N allowLocal ts = Some us \<Longrightarrow> length us \<le> length ts \<and>
     (\<forall>u \<in> set us. 0 < pt_ID u \<and> 0 \<le> pt_WindowID u \<and> length (pt_Title u) \<le> 256)"
proof (induction ts arbitrary: us)
  case (Cons t ts)
  have "length (fst (truncateUTF8 (pt_Title t) 256)) \<le> 256" using valid_cut_le [of 256 "pt_Title t"] by (simp add: truncateUTF8_def Let_def)
  then show ?case using Cons by (auto split: if_splits)
qed simp

lemma choosePersonal_in:
  assumes "choosePersonal N args origin cs = Inr l"
  shows "l \<in> set cs"
proof -
  obtain P Q where "filter P (filter Q cs) \<noteq> []" "l = hd (filter P (filter Q cs))"
    using assms unfolding choosePersonal_def Let_def by (metis (no_types, lifting) Inr_inject Inl_Inr_False)
  then have "l \<in> set (filter P (filter Q cs))" using hd_in_set by blast
  then show ?thesis by simp
qed

section \<open>The steps keep the invariant\<close>

lemma bridge_okD:
  assumes "bridge_ok st"
  shows "links_ok (br_links st)" "sessions_ok (br_sessions st)" "map_of (br_sessions st) k = Some c \<Longrightarrow> attached_ok (br_links st) c"
    "br_first st = Some j \<Longrightarrow> j \<in> fst ` set (br_links st)" "br_peers st \<le> browserBridgeConnections"
  using assms by (simp_all add: bridge_ok_def)

lemma bridge_okI:
  assumes "links_ok (br_links st)" "sessions_ok (br_sessions st)" "\<And>k c. map_of (br_sessions st) k = Some c \<Longrightarrow> attached_ok (br_links st) c"
    "\<And>j. br_first st = Some j \<Longrightarrow> j \<in> fst ` set (br_links st)" "br_peers st \<le> browserBridgeConnections"
  shows "bridge_ok st"
  using assms by (simp add: bridge_ok_def)

lemma attached_ok_link:
  "attached_ok links c \<Longrightarrow> bs_personal (ct_session c) = Some i \<Longrightarrow> map_of links i = Some l \<Longrightarrow> bs_paused (ct_session c) = bb_paused l"
  by (simp add: attached_ok_def)

text \<open>A message that changes one link and leaves it paused or not as it was.\<close>

lemma bridge_ok_link:
  assumes "bridge_ok st" "map_of (br_links st) i = Some l" "links_ok (AList.update i n (br_links st))" "bb_paused n = bb_paused l"
  shows "bridge_ok (st\<lparr>br_links := AList.update i n (br_links st)\<rparr>)"
proof (rule bridge_okI)
  fix k c
  assume "map_of (br_sessions (st\<lparr>br_links := AList.update i n (br_links st)\<rparr>)) k = Some c"
  then have "attached_ok (br_links st) c" using bridge_okD(3) [OF assms(1)] by simp
  then show "attached_ok (br_links (st\<lparr>br_links := AList.update i n (br_links st)\<rparr>)) c"
    using assms(2,4) by (auto simp: attached_ok_def update_conv split: option.splits)
qed (use bridge_okD [OF assms(1)] assms(3) in \<open>auto simp: dom_update\<close>)

lemma steady_ops: "steady c (cancel_tabs ids c)" "steady c (link_lost c)" "steady c (scope_session p x c)" "steady c (close_session c)"
  by (simp_all add: steady_def cancel_tabs_def link_lost_def scope_session_def invalidate_def set_paused_def close_session_def Let_def)

lemma steady_if: "(\<And>c. steady c (f c)) \<Longrightarrow> steady c (if P c then f c else c)"
  by (simp add: steady_def)

lemma paused_ops: "bs_paused (ct_session (cancel_tabs ids c)) = bs_paused (ct_session c)" "bs_paused (ct_session (link_lost c)) = bs_paused (ct_session c)"
  "bs_paused (ct_session (scope_session p x c)) = p" "bs_paused (ct_session (close_session c)) = bs_paused (ct_session c)"
  by (simp_all add: cancel_tabs_def link_lost_def scope_session_def invalidate_def set_paused_def close_session_def Let_def)

lemma personal_ops: "bs_personal (ct_session (cancel_tabs ids c)) = bs_personal (ct_session c)"
  "bs_personal (ct_session (link_lost c)) = bs_personal (ct_session c)" "bs_personal (ct_session (scope_session p x c)) = bs_personal (ct_session c)"
  "bs_personal (ct_session (close_session c)) = bs_personal (ct_session c)"
  using steady_ops by (simp_all add: steady_def)

lemma disconnected_ops: "bs_disconnected (ct_session c) \<Longrightarrow> bs_disconnected (ct_session (cancel_tabs ids c))"
  "bs_disconnected (ct_session (link_lost c))" "bs_disconnected (ct_session c) \<Longrightarrow> bs_disconnected (ct_session (scope_session p x c))"
  "bs_disconnected (ct_session (close_session c))"
  by (simp_all add: cancel_tabs_def link_lost_def scope_session_def invalidate_def set_paused_def close_session_def Let_def)

lemma map_sessions_ok: "sessions_ok (br_sessions st) \<Longrightarrow> (\<And>c. steady c (f c)) \<Longrightarrow> sessions_ok (br_sessions (map_sessions P f st))"
  unfolding map_sessions_def by (simp add: sessions_ok_map steady_if)

lemma map_sessions_other [simp]: "br_links (map_sessions P f st) = br_links st" "br_first (map_sessions P f st) = br_first st"
  "br_peers (map_sessions P f st) = br_peers st"
  by (simp_all add: map_sessions_def)

lemma map_of_map_sessions:
  "map_of (br_sessions (map_sessions P f st)) k = map_option (\<lambda>c. if P c then f c else c) (map_of (br_sessions st) k)"
  by (simp add: map_sessions_def map_of_sessions)

lemma scope_ok:
  assumes "bridge_ok st" "handle_scope N allowLocal i m st = Some st1"
  shows "bridge_ok st1"
proof -
  obtain valid l where v: "length (mk_Tabs m) \<le> browserPersonalTabLimit" "approved_tabs N allowLocal (mk_Tabs m) = Some valid"
      "map_of (br_links st) i = Some l"
    using assms(2) by (auto simp: handle_scope_def split: if_splits option.splits)
  show ?thesis
  proof (cases "stale_scope m l")
    case True
    then show ?thesis using assms v by (simp add: handle_scope_def)
  next
    case False
    let ?st1 = "map_sessions (\<lambda>_. True) (cancel_tabs (detached valid l)) (st\<lparr>br_links := AList.update i (new_scope m valid l) (br_links st)\<rparr>)"
    have st1: "st1 = map_sessions (over_link i) (scope_session (mk_Paused m) (scope_changed m l)) ?st1"
      using assms(2) v False by (simp add: handle_scope_def Let_def)
    have "link_ok i l" using bridge_okD(1) [OF assms(1)] v(3) by (simp add: links_ok_def)
    then have "link_ok i (new_scope m valid l)" using approved_tabs_ok [OF v(2)] v(1) by (auto simp: link_ok_def new_scope_def tabs_ok_def)
    then have links: "links_ok (AList.update i (new_scope m valid l) (br_links st))"
      by (rule links_ok_replace [OF bridge_okD(1) [OF assms(1)] v(3)]) (simp add: new_scope_def)
    show ?thesis
    proof (rule bridge_okI)
      show "sessions_ok (br_sessions st1)" unfolding st1
        by (intro map_sessions_ok steady_ops) (simp add: bridge_okD(2) [OF assms(1)])
      show "attached_ok (br_links st1) c" if c: "map_of (br_sessions st1) k = Some c" for k c
      proof -
        from c obtain d where d: "map_of (br_sessions st) k = Some d"
            "c = (let e = cancel_tabs (detached valid l) d in if over_link i e then scope_session (mk_Paused m) (scope_changed m l) e else e)"
          unfolding st1 map_of_map_sessions by (auto simp: Let_def)
        have a: "attached_ok (br_links st) d" by (rule bridge_okD(3) [OF assms(1) d(1)])
        have n: "bb_paused (new_scope m valid l) = mk_Paused m" by (simp add: new_scope_def)
        show ?thesis
        proof (cases "over_link i d")
          case True
          then have "over_link i (cancel_tabs (detached valid l) d)" by (simp add: over_link_def personal_ops)
          then show ?thesis using True d(2) n by (simp add: st1 attached_ok_def over_link_def personal_ops paused_ops update_conv)
        next
          case False
          then have "\<not> over_link i (cancel_tabs (detached valid l) d)" by (simp add: over_link_def personal_ops)
          then have "c = cancel_tabs (detached valid l) d" using d(2) by simp
          then show ?thesis using False a disconnected_ops(1)
            by (auto simp: st1 attached_ok_def over_link_def personal_ops paused_ops update_conv split: option.splits)
        qed
      qed
    qed (use links bridge_okD [OF assms(1)] in \<open>auto simp: st1 dom_update\<close>)
  qed
qed

lemma keys_delete: "fst ` set (AList.delete i xs) = fst ` set xs - {i}"
  by (metis delete_keys set_map set_removeAll)

lemma link_ended_ok:
  assumes "bridge_ok st"
  shows "bridge_ok (link_ended i st)"
proof -
  obtain ids where st1: "link_ended i st = (let st1 = map_sessions (over_link i) link_lost (map_sessions (\<lambda>_. True) (cancel_tabs ids) st)
      in st1\<lparr>br_first := (if br_first st1 = Some i then None else br_first st1), br_links := AList.delete i (br_links st1)\<rparr>)"
    unfolding link_ended_def by (simp only: Let_def)
  show ?thesis
  proof (rule bridge_okI)
    have "sessions_ok (br_sessions (map_sessions (over_link i) link_lost (map_sessions (\<lambda>_. True) (cancel_tabs ids) st)))"
      by (intro map_sessions_ok steady_ops) (rule bridge_okD(2) [OF assms])
    then show "sessions_ok (br_sessions (link_ended i st))" by (simp add: st1 Let_def)
    show "attached_ok (br_links (link_ended i st)) c" if c: "map_of (br_sessions (link_ended i st)) k = Some c" for k c
    proof -
      have "map_of (br_sessions (map_sessions (over_link i) link_lost (map_sessions (\<lambda>_. True) (cancel_tabs ids) st))) k = Some c"
        using c by (simp add: st1 Let_def)
      then obtain d where d: "map_of (br_sessions st) k = Some d" "c = (let e = cancel_tabs ids d in if over_link i e then link_lost e else e)"
        unfolding map_of_map_sessions by (auto simp: Let_def)
      have a: "attached_ok (br_links st) d" by (rule bridge_okD(3) [OF assms d(1)])
      have links: "br_links (link_ended i st) = AList.delete i (br_links st)" by (simp add: st1 Let_def)
      show ?thesis
      proof (cases "over_link i d")
        case True
        then have "over_link i (cancel_tabs ids d)" by (simp add: over_link_def personal_ops)
        then show ?thesis using True d(2)
          by (simp add: attached_ok_def over_link_def personal_ops links delete_conv' disconnected_ops)
      next
        case False
        then have "\<not> over_link i (cancel_tabs ids d)" by (simp add: over_link_def personal_ops)
        then have "c = cancel_tabs ids d" using d(2) by simp
        then show ?thesis using False a disconnected_ops(1)
          by (auto simp: links attached_ok_def over_link_def personal_ops paused_ops delete_conv' split: option.splits)
      qed
    qed
    show "j \<in> fst ` set (br_links (link_ended i st))" if "br_first (link_ended i st) = Some j" for j
    proof -
      have "br_first st = Some j" "j \<noteq> i" using that by (auto simp: st1 Let_def split: if_splits)
      then show ?thesis using bridge_okD(4) [OF assms] by (simp add: st1 Let_def keys_delete)
    qed
  qed (use bridge_okD [OF assms] links_ok_delete in \<open>simp_all add: st1 Let_def\<close>)
qed

lemma identify_ok:
  assumes "bridge_ok st" "identifyBrowser i m (br_links st) = Some links"
  shows "bridge_ok (st\<lparr>br_links := links\<rparr>)"
proof -
  obtain l where l: "map_of (br_links st) i = Some l" "\<not> list_ex (\<lambda>(k, other). k \<noteq> i \<and> bb_profileID other = mk_ProfileID m \<and> \<not> bb_closed other) (br_links st)"
    using assms(2) by (auto simp: identifyBrowser_def split: if_splits option.splits)
  let ?n = "l\<lparr>bb_profileID := mk_ProfileID m, bb_alias := mk_Alias m, bb_product := mk_Product m,
     bb_commandProtocol := mk_CommandProtocol m, bb_capabilities := mk_Capabilities m, bb_extensionVersion := mk_ExtensionVersion m\<rparr>"
  have links: "links = AList.update i ?n (br_links st)"
    using assms(2) l by (auto simp: identifyBrowser_def split: if_splits)
  have all: "link_ok k l'" if "map_of (br_links st) k = Some l'" for k l' using bridge_okD(1) [OF assms(1)] that by (simp add: links_ok_def)
  have "links_ok (AList.update i ?n (br_links st))"
  proof (rule links_ok_update [OF bridge_okD(1) [OF assms(1)]])
    show "link_ok i ?n" using all [OF l(1)] by (simp add: link_ok_def)
    show "bb_profileID l' \<noteq> bb_profileID ?n" if "map_of (br_links st) k = Some l'" "k \<noteq> i" for k l'
      using l(2) that all [OF that(1)] map_of_SomeD [OF that(1)] by (auto simp: list_ex_iff link_ok_def)
  qed
  then show ?thesis unfolding links by (rule bridge_ok_link [OF assms(1) l(1)]) simp
qed

lemma response_ok:
  assumes "bridge_ok st" "map_of (br_links st) i = Some l"
  shows "bridge_ok (st\<lparr>br_links := AList.update i (handle_response m l) (br_links st)\<rparr>)"
proof (rule bridge_ok_link [OF assms])
  show "links_ok (AList.update i (handle_response m l) (br_links st))"
    by (rule links_ok_same [OF bridge_okD(1) [OF assms(1)] assms(2)]) (simp add: handle_response_def same_link_def split: option.split)
  show "bb_paused (handle_response m l) = bb_paused l" by (simp add: handle_response_def split: option.split)
qed

lemma message_ok:
  assumes "bridge_ok st" "serve_message N allowLocal i m st = Some (st1, req)"
  shows "bridge_ok st1"
proof -
  obtain l where l: "map_of (br_links st) i = Some l" using assms(2) by (auto simp: serve_message_def split: option.splits)
  note served = assms(2) [unfolded serve_message_def l option.case]
  consider (identity) "mk_Kind m = ''identity''" | (check) "mk_Kind m = ''url_check''" | (response) "mk_Kind m \<in> {''response'', ''cancel_ack''}"
    | (scope) "mk_Kind m = ''scope''" | (other) "mk_Kind m \<notin> {''identity'', ''url_check'', ''response'', ''cancel_ack'', ''scope''}" by blast
  then show ?thesis
  proof cases
    case identity
    then obtain links where "identifyBrowser i m (br_links st) = Some links" "st1 = st\<lparr>br_links := links\<rparr>" using served by auto
    then show ?thesis using identify_ok [OF assms(1)] by simp
  next
    case check
    then show ?thesis using served assms(1) by (auto simp: check)
  next
    case response
    then have "st1 = st\<lparr>br_links := AList.update i (handle_response m l) (br_links st)\<rparr>" using served by auto
    then show ?thesis using response_ok [OF assms(1) l] by simp
  next
    case scope
    then have "handle_scope N allowLocal i m st = Some st1" using served by auto
    then show ?thesis by (rule scope_ok [OF assms(1)])
  next
    case other
    then have "st1 = st" using served by simp
    then show ?thesis using assms(1) by simp
  qed
qed

lemma session_update_ok:
  assumes "bridge_ok st" "map_of (br_sessions st) k = Some c" "steady c d" "attached_ok (br_links st) d"
  shows "bridge_ok (put_session k d st)"
proof (rule bridge_okI)
  show "sessions_ok (br_sessions (put_session k d st))"
    using sessions_ok_update [OF bridge_okD(2) [OF assms(1)] assms(2,3)] by (simp add: put_session_def)
  show "attached_ok (br_links (put_session k d st)) e" if "map_of (br_sessions (put_session k d st)) j = Some e" for j e
    using that assms(4) bridge_okD(3) [OF assms(1), of j e] by (auto simp: put_session_def update_conv split: if_splits)
qed (use bridge_okD [OF assms(1)] in \<open>simp_all add: put_session_def\<close>)

lemma sessions_ok_Cons:
  assumes "sessions_ok xs" "fresh \<notin> fst ` set xs" "live_sessions xs < 4"
    "\<And>i. over_link i c \<Longrightarrow> \<forall>d \<in> snd ` set xs. \<not> over_link i d"
  shows "sessions_ok ((fresh, c) # xs)"
  unfolding sessions_ok_def
proof (intro conjI allI impI)
  show "distinct (map fst ((fresh, c) # xs))" using assms(1,2) by (simp add: sessions_ok_def)
  show "live_sessions ((fresh, c) # xs) \<le> 4" using assms(3) by (simp add: live_sessions_def)
  have no: "\<not> over_link i d" if "over_link i c" "map_of xs j = Some d" for i j d
    using assms(4) [OF that(1)] map_of_SomeD [OF that(2)] by force
  show "k = k'" if a: "map_of ((fresh, c) # xs) k = Some d \<and> map_of ((fresh, c) # xs) k' = Some d' \<and> over_link i d \<and> over_link i d'" for k k' d d' i
  proof -
    consider "k = fresh" "k' = fresh" | "k = fresh" "k' \<noteq> fresh" | "k \<noteq> fresh" "k' = fresh" | "k \<noteq> fresh" "k' \<noteq> fresh" by blast
    then show ?thesis
    proof cases
      case 4
      then have "map_of xs k = Some d" "map_of xs k' = Some d'" using a by simp_all
      then show ?thesis using a assms(1) unfolding sessions_ok_def by blast
    qed (use a no in auto)
  qed
qed

lemma sessions_ok_filter:
  assumes "sessions_ok xs"
  shows "sessions_ok (filter (\<lambda>(_, c). P c) xs)" "map_of (filter (\<lambda>(_, c). P c) xs) k = Some c \<Longrightarrow> map_of xs k = Some c"
proof -
  have d: "distinct (map fst xs)" using assms by (simp add: sessions_ok_def)
  have of: "map_of xs k = Some c" if "map_of (filter (\<lambda>(_, c). P c) xs) k = Some c" for k c
    using map_of_SomeD [OF that] d by (auto intro: map_of_is_SomeI)
  show "map_of (filter (\<lambda>(_, c). P c) xs) k = Some c \<Longrightarrow> map_of xs k = Some c" by (rule of)
  have "live_sessions (filter (\<lambda>(_, c). P c) xs) \<le> live_sessions xs"
    by (induction xs) (auto simp: live_sessions_def)
  then show "sessions_ok (filter (\<lambda>(_, c). P c) xs)"
    using assms of distinct_map_filter [OF d] unfolding sessions_ok_def by (meson le_trans)
qed

lemma personal_session_ok:
  assumes "bridge_ok st" "fresh \<notin> fst ` set (br_sessions st)" "map_of (br_links st) i = Some l" "\<not> bb_paused l"
    "personal_session fresh i (br_sessions st) = (out, sessions)"
  shows "bridge_ok (st\<lparr>br_sessions := sessions\<rparr>)"
proof (cases "List.find (\<lambda>(_, c). over_link i c \<and> \<not> bs_disconnected (ct_session c)) (br_sessions st)")
  case (Some x)
  then have "sessions = br_sessions st" using assms(5) by (cases x) (simp add: personal_session_def)
  then show ?thesis using assms(1) by simp
next
  case None
  let ?alive = "filter (\<lambda>(_, c). \<not> bs_disconnected (ct_session c)) (br_sessions st)"
  let ?new = "new_browserSession fresh [] (Some i)"
  have none: "\<forall>d \<in> snd ` set ?alive. \<not> over_link i d" using None by (auto simp: find_None_iff)
  have live: "live_sessions ?alive = length ?alive" by (simp add: live_sessions_def case_prod_unfold)
  have alive: "sessions_ok ?alive" by (rule sessions_ok_filter(1) [OF bridge_okD(2) [OF assms(1)]])
  have old: "attached_ok (br_links st) c" if "map_of ?alive k = Some c" for k c
    using bridge_okD(3) [OF assms(1) sessions_ok_filter(2) [OF bridge_okD(2) [OF assms(1)] that]] .
  consider "sessions = ?alive" | "sessions = (fresh, ?new) # ?alive" "length ?alive < 4"
    using assms(5) None by (auto simp: personal_session_def Let_def split: if_splits)
  then show ?thesis
  proof cases
    case 1
    then show ?thesis using alive old bridge_okD [OF assms(1)] by (intro bridge_okI) simp_all
  next
    case 2
    have "sessions_ok sessions" unfolding 2(1)
    proof (rule sessions_ok_Cons [OF alive])
      show "fresh \<notin> fst ` set ?alive" using assms(2) by auto
      show "live_sessions ?alive < 4" using 2(2) live by simp
      show "\<forall>d \<in> snd ` set ?alive. \<not> over_link j d" if "over_link j ?new" for j
        using that none by (simp add: over_link_def new_browserSession_def)
    qed
    moreover have "attached_ok (br_links st) ?new" using assms(3,4) by (simp add: attached_ok_def new_browserSession_def)
    ultimately show ?thesis using old bridge_okD [OF assms(1)] 2(1)
      by (intro bridge_okI) (auto split: if_splits)
  qed
qed

lemma choose_session_ok:
  assumes "bridge_ok st" "fresh \<notin> fst ` set (br_sessions st)"
    "choose_session N fresh rq (case br_first st of None \<Rightarrow> None | Some k \<Rightarrow> map_of (br_links st) k) st = (choice, st1)"
  shows "bridge_ok st1"
proof -
  let ?cs = "personalConnections (br_links st) (case br_first st of None \<Rightarrow> None | Some k \<Rightarrow> map_of (br_links st) k)"
  show ?thesis
  proof (cases "choosePersonal N (rq_selection rq) (rq_origin rq) ?cs")
    case (Inl e)
    then show ?thesis using assms(1,3) by (simp add: choose_session_def)
  next
    case (Inr l)
    have "l \<in> set ?cs" by (rule choosePersonal_in [OF Inr])
    then have "l \<in> snd ` set (br_links st)"
      by (auto simp: personalConnections_def Let_def split: if_splits option.splits dest!: map_of_SomeD)
    then obtain k where k: "(k, l) \<in> set (br_links st)" by auto
    then have m: "map_of (br_links st) k = Some l" using bridge_okD(1) [OF assms(1)] by (simp add: links_ok_def)
    then have i: "bb_id l = k" using bridge_okD(1) [OF assms(1)] by (simp add: links_ok_def link_ok_def)
    obtain out sessions where p: "personal_session fresh k (br_sessions st) = (out, sessions)" by force
    have "st1 = st \<or> \<not> bb_paused l \<and> st1 = st\<lparr>br_sessions := sessions\<rparr>"
      using assms(3) Inr p i by (auto simp: choose_session_def split: if_splits sum.splits)
    then show ?thesis using assms(1) personal_session_ok [OF assms(1,2) m _ p] by auto
  qed
qed

lemma managed_session_ok:
  assumes "bridge_ok st" "fresh \<notin> fst ` set (br_sessions st)" "managed_session fresh profile (br_sessions st) = Inr (k, sessions)"
  shows "bridge_ok (st\<lparr>br_sessions := sessions\<rparr>)"
proof -
  let ?new = "new_browserSession fresh profile None"
  have s: "sessions = (fresh, ?new) # br_sessions st" "live_sessions (br_sessions st) < 4"
    using assms(3) by (auto simp: managed_session_def split: if_splits)
  have "sessions_ok sessions" unfolding s(1)
    by (rule sessions_ok_Cons [OF bridge_okD(2) [OF assms(1)] assms(2) s(2)]) (simp add: over_link_def new_browserSession_def)
  moreover have "attached_ok (br_links st) ?new" by (simp add: attached_ok_def new_browserSession_def)
  ultimately show ?thesis using bridge_okD [OF assms(1)] s(1) by (intro bridge_okI) (auto split: if_splits)
qed

lemma session_step_ok:
  assumes "bridge_ok st" "map_of (br_sessions st) k = Some c" "session_step (link_of (br_links st) c) c link1 d"
  shows "bridge_ok (put_session k d (st\<lparr>br_links := put_link link1 (br_links st)\<rparr>))"
proof (cases "link_of (br_links st) c")
  case None
  then have "in_step None c" by (simp add: in_step_def)
  from session_step_steady [OF assms(3) [unfolded None] this]
  have s: "steady c d" "link1 = None" by (auto simp: same_link_def split: option.splits)
  have a: "attached_ok (br_links st) c" by (rule bridge_okD(3) [OF assms(1,2)])
  have "attached_ok (br_links st) d"
    using a None s(1) by (auto simp: attached_ok_def link_of_def steady_def split: option.splits)
  then have "bridge_ok (put_session k d st)" by (rule session_update_ok [OF assms(1,2) s(1)])
  then show ?thesis by (simp add: s(2) put_link_def)
next
  case (Some l)
  then obtain i where i: "bs_personal (ct_session c) = Some i" "map_of (br_links st) i = Some l"
    by (auto simp: link_of_def split: option.splits)
  have p: "bs_paused (ct_session c) = bb_paused l" by (rule attached_ok_link [OF bridge_okD(3) [OF assms(1,2)] i])
  then have "in_step (Some l) c" by (simp add: in_step_def)
  from session_step_steady [OF assms(3) [unfolded Some] this] obtain n
    where n: "steady c d" "link1 = Some n" "same_link (Some l) (Some n)" "bs_paused (ct_session d) = bb_paused n"
    by (cases link1) (auto simp: same_link_def in_step_def)
  have l: "bb_id l = i" using bridge_okD(1) [OF assms(1)] i(2) by (simp add: links_ok_def link_ok_def)
  then have pl: "put_link link1 (br_links st) = AList.update i n (br_links st)" using n(2,3) by (simp add: put_link_def same_link_def)
  have di: "bs_personal (ct_session d) = Some i" using n(1) i(1) by (simp add: steady_def)
  show ?thesis unfolding pl
  proof (rule bridge_okI)
    show "links_ok (br_links (put_session k d (st\<lparr>br_links := AList.update i n (br_links st)\<rparr>)))"
      using links_ok_same [OF bridge_okD(1) [OF assms(1)] i(2) n(3)] by (simp add: put_session_def)
    show "sessions_ok (br_sessions (put_session k d (st\<lparr>br_links := AList.update i n (br_links st)\<rparr>)))"
      using sessions_ok_update [OF bridge_okD(2) [OF assms(1)] assms(2) n(1)] by (simp add: put_session_def)
    show "attached_ok (br_links (put_session k d (st\<lparr>br_links := AList.update i n (br_links st)\<rparr>))) e"
      if e: "map_of (br_sessions (put_session k d (st\<lparr>br_links := AList.update i n (br_links st)\<rparr>))) j = Some e" for j e
    proof (cases "j = k")
      case True
      then have "e = d" using e by (simp add: put_session_def update_conv)
      then show ?thesis using di n(4) by (simp add: attached_ok_def put_session_def update_conv)
    next
      case False
      then have old: "map_of (br_sessions st) j = Some e" using e by (simp add: put_session_def update_conv)
      have "\<not> over_link i e"
      proof
        assume "over_link i e"
        moreover have "over_link i c" using i(1) by (simp add: over_link_def)
        ultimately have "j = k" using bridge_okD(2) [OF assms(1)] old assms(2) unfolding sessions_ok_def by blast
        then show False using False by simp
      qed
      then show ?thesis using bridge_okD(3) [OF assms(1) old]
        by (auto simp: attached_ok_def over_link_def put_session_def update_conv split: option.splits)
    qed
  qed (use bridge_okD [OF assms(1)] in \<open>auto simp: put_session_def dom_update\<close>)
qed

lemma close_bridges_ok:
  assumes "bridge_ok st"
  shows "bridge_ok (close_bridges st)"
proof (rule bridge_okI)
  have "sessions_ok (br_sessions (map_sessions (\<lambda>_. True) close_session st))"
    by (intro map_sessions_ok steady_ops bridge_okD(2) [OF assms])
  then show "sessions_ok (br_sessions (close_bridges st))" by (simp add: close_bridges_def)
  show "attached_ok (br_links (close_bridges st)) c" if "map_of (br_sessions (close_bridges st)) k = Some c" for k c
  proof -
    have "map_of (br_sessions (map_sessions (\<lambda>_. True) close_session st)) k = Some c" using that by (simp add: close_bridges_def)
    then obtain d where d: "map_of (br_sessions st) k = Some d" "c = close_session d" unfolding map_of_map_sessions by auto
    show ?thesis using bridge_okD(3) [OF assms d(1)]
      by (auto simp: d(2) close_bridges_def attached_ok_def personal_ops paused_ops disconnected_ops split: option.splits)
  qed
qed (use bridge_okD [OF assms] in \<open>simp_all add: close_bridges_def\<close>)

lemma connect_ok:
  assumes "bridge_ok st" "i \<notin> fst ` set (br_links st)" "\<forall>c \<in> snd ` set (br_sessions st). \<not> over_link i c" "connect i st = Some st1"
  shows "bridge_ok st1"
proof -
  have st1: "st1 = st\<lparr>br_links := AList.update i (new_bridge i) (br_links st), br_first := (case br_first st of None \<Rightarrow> Some i | Some k \<Rightarrow> Some k)\<rparr>"
    using assms(4) by (simp add: connect_def split: if_splits)
  show ?thesis
  proof (rule bridge_okI)
    show "links_ok (br_links st1)" unfolding st1
      using links_ok_update [OF bridge_okD(1) [OF assms(1)], of i "new_bridge i"]
      by (simp add: link_ok_def new_bridge_def tabs_ok_def browserPersonalTabLimit_def)
    show "attached_ok (br_links st1) c" if "map_of (br_sessions st1) k = Some c" for k c
    proof -
      have c: "map_of (br_sessions st) k = Some c" using that by (simp add: st1)
      then have "c \<in> snd ` set (br_sessions st)" by (force dest: map_of_SomeD)
      then have "\<not> over_link i c" using assms(3) by blast
      then show ?thesis using bridge_okD(3) [OF assms(1) c]
        by (auto simp: st1 attached_ok_def over_link_def update_conv split: option.splits)
    qed
  qed (use bridge_okD [OF assms(1)] in \<open>auto simp: st1 dom_update split: option.splits\<close>)
qed

lemma bridge_step_ok: "bridge_step st st1 \<Longrightarrow> bridge_ok st \<Longrightarrow> bridge_ok st1"
proof (induction rule: bridge_step.induct)
  case (accepts st ok st1)
  then show ?case by (auto simp: accept_peer_def bridge_ok_def split: if_splits)
next
  case (peer_leaves st)
  then show ?case by (auto simp: peer_gone_def bridge_ok_def)
next
  case (connects i st st1)
  then show ?case by (intro connect_ok [OF connects(4,1,2,3)])
next
  case (link_ends st i)
  then show ?case by (rule link_ended_ok)
next
  case (message N allowLocal i m st st1 req)
  then show ?case by (intro message_ok [OF message(2,1)])
next
  case (personal fresh st N rq choice st1)
  then show ?case by (intro choose_session_ok [OF personal(3,1,2)])
next
  case (managed fresh st profile k sessions)
  then show ?case by (intro managed_session_ok [OF managed(3,1,2)])
next
  case (session st k c link1 c1)
  then show ?case by (intro session_step_ok [OF session(3,1,2)])
next
  case (fails st k c)
  have "attached_ok (br_links st) c" by (rule bridge_okD(3) [OF fails(2,1)])
  then show ?case by (intro session_update_ok [OF fails(2,1)]) (auto simp: steady_def attached_ok_def split: option.splits)
next
  case (closes st)
  then show ?case by (rule close_bridges_ok)
qed

interpretation extensions: invariant_system new_bridges bridge_step bridge_ok
proof unfold_locales
  show "bridge_ok st" if "new_bridges st" for st
    using that by (simp add: new_bridges_def bridge_ok_def links_ok_def profiles_ok_def sessions_ok_def live_sessions_def)
  show "bridge_ok st1" if "bridge_ok st" "bridge_step st st1" for st st1 by (rule bridge_step_ok [OF that(2,1)])
qed

end
