(* ===== verification/BridgeSafety.thy ===== *)
theory BridgeSafety
  imports BridgeFacts
begin

text \<open>
  What holds of the connected extensions and their sessions in every run of \<open>BridgeFacts\<close>, and what a message that changes
  the approved tabs takes away.
\<close>

section \<open>Integrity\<close>

text \<open>C10: however extensions connect, identify themselves, report their tabs and go, and sessions are opened, used, controlled and
  closed: a connection is known by its own id, no two have the same profile, each lists at most 128 tabs with valid
  ids, windows and short titles; at most eight peers are served; at most four sessions are live; a session whose
  extension is gone is disconnected, one whose extension is there is paused exactly when the extension is, and no
  extension has two sessions.\<close>

theorem extensions_integrity:
  assumes "reach new_bridges bridge_step st"
  shows "(\<forall>k l. map_of (br_links st) k = Some l \<longrightarrow> bb_id l = k \<and> \<not> bb_closed l \<and> length (bb_tabs l) \<le> 128
        \<and> (\<forall>t \<in> set (bb_tabs l). 0 < pt_ID t \<and> 0 \<le> pt_WindowID t \<and> length (pt_Title t) \<le> 256))
    \<and> (\<forall>k k' l l'. map_of (br_links st) k = Some l \<and> map_of (br_links st) k' = Some l' \<and> bb_profileID l \<noteq> []
        \<and> bb_profileID l = bb_profileID l' \<longrightarrow> k = k')
    \<and> br_peers st \<le> 8 \<and> length (filter (\<lambda>(_, c). \<not> bs_disconnected (ct_session c)) (br_sessions st)) \<le> 4
    \<and> (\<forall>k c i. map_of (br_sessions st) k = Some c \<and> bs_personal (ct_session c) = Some i \<longrightarrow>
        (case map_of (br_links st) i of None \<Rightarrow> bs_disconnected (ct_session c) | Some l \<Rightarrow> bs_paused (ct_session c) = bb_paused l)
        \<and> (\<forall>k' c'. map_of (br_sessions st) k' = Some c' \<and> bs_personal (ct_session c') = Some i \<longrightarrow> k = k'))"
proof (intro conjI)
  have ok: "bridge_ok st" by (rule extensions.reach_inv [OF assms])
  note links = bridge_okD(1) [OF ok] and sessions = bridge_okD(2) [OF ok]
  show "\<forall>k l. map_of (br_links st) k = Some l \<longrightarrow> bb_id l = k \<and> \<not> bb_closed l \<and> length (bb_tabs l) \<le> 128
        \<and> (\<forall>t \<in> set (bb_tabs l). 0 < pt_ID t \<and> 0 \<le> pt_WindowID t \<and> length (pt_Title t) \<le> 256)"
    using links by (simp add: links_ok_def link_ok_def tabs_ok_def browserPersonalTabLimit_def)
  show "\<forall>k k' l l'. map_of (br_links st) k = Some l \<and> map_of (br_links st) k' = Some l' \<and> bb_profileID l \<noteq> []
        \<and> bb_profileID l = bb_profileID l' \<longrightarrow> k = k'"
    using links unfolding links_ok_def profiles_ok_def by blast
  show "br_peers st \<le> 8" using bridge_okD(5) [OF ok] by (simp add: browserBridgeConnections_def)
  show "length (filter (\<lambda>(_, c). \<not> bs_disconnected (ct_session c)) (br_sessions st)) \<le> 4"
    using sessions by (simp add: sessions_ok_def live_sessions_def)
  show "\<forall>k c i. map_of (br_sessions st) k = Some c \<and> bs_personal (ct_session c) = Some i \<longrightarrow>
        (case map_of (br_links st) i of None \<Rightarrow> bs_disconnected (ct_session c) | Some l \<Rightarrow> bs_paused (ct_session c) = bb_paused l)
        \<and> (\<forall>k' c'. map_of (br_sessions st) k' = Some c' \<and> bs_personal (ct_session c') = Some i \<longrightarrow> k = k')"
  proof (intro allI impI conjI)
    fix k c i
    assume c: "map_of (br_sessions st) k = Some c \<and> bs_personal (ct_session c) = Some i"
    then show "case map_of (br_links st) i of None \<Rightarrow> bs_disconnected (ct_session c) | Some l \<Rightarrow> bs_paused (ct_session c) = bb_paused l"
      using bridge_okD(3) [OF ok, of k c] by (simp add: attached_ok_def)
    show "k = k'" if "map_of (br_sessions st) k' = Some c' \<and> bs_personal (ct_session c') = Some i" for k' c'
      using c that sessions unfolding sessions_ok_def over_link_def by blast
  qed
qed

text \<open>A run: an extension connects, approves a blank tab, and a session is opened over it.\<close>

definition blank_tab :: browserPersonalTab where
  "blank_tab = \<lparr>pt_ID = 1, pt_URL = ''about:blank'', pt_Title = [], pt_WindowID = 0, pt_Active = True\<rparr>"

definition example_link :: browserBridge where
  "example_link = new_scope ((message_of ''scope'')\<lparr>mk_Tabs := [blank_tab]\<rparr>) [blank_tab] (new_bridge ''c'')"

definition example_bridges :: bridges where
  "example_bridges = \<lparr>br_links = [(''c'', example_link)], br_first = Some ''c'',
     br_sessions = [(''s'', new_browserSession ''s'' [] (Some ''c''))], br_peers = 0, br_closed = False\<rparr>"

lemma example_reached: "reach new_bridges bridge_step example_bridges"
proof -
  let ?s0 = "\<lparr>br_links = [], br_first = None, br_sessions = [], br_peers = 0, br_closed = False\<rparr>"
  let ?s1 = "?s0\<lparr>br_links := [(''c'', new_bridge ''c'')], br_first := Some ''c''\<rparr>"
  let ?s2 = "?s1\<lparr>br_links := [(''c'', example_link)]\<rparr>"
  let ?m = "(message_of ''scope'')\<lparr>mk_Tabs := [blank_tab]\<rparr>"
  have "reach new_bridges bridge_step ?s0" by (rule reach_start) (simp add: new_bridges_def)
  moreover have "bridge_step ?s0 ?s1" by (rule bridge_step.connects [of "''c''"]) (simp_all add: connect_def)
  moreover have "approved_tabs (example_lib 0) False [blank_tab] = Some [blank_tab]"
    by (simp add: blank_tab_def truncateUTF8_def)
  then have "handle_scope (example_lib 0) False ''c'' ?m ?s1 = Some ?s2"
    by (simp add: handle_scope_def browserPersonalTabLimit_def message_of_def stale_scope_def new_bridge_def example_link_def map_sessions_def
        browserCommandProtocol_def)
  then have "serve_message (example_lib 0) False ''c'' ?m ?s1 = Some (?s2, None)" by (simp add: serve_message_def message_of_def)
  then have "bridge_step ?s1 ?s2" by (rule bridge_step.message)
  moreover have "bridge_step ?s2 example_bridges"
  proof (rule bridge_step.personal [of "''s''"])
    let ?rq = "\<lparr>rq_reuseOnly = False, rq_exactURL = [], rq_windowID = 0, rq_selection = [], rq_origin = []\<rparr>"
    have f: "bb_tabs example_link = [blank_tab]" "\<not> bb_paused example_link" "bb_id example_link = ''c''" "\<not> bb_closed example_link"
      by (simp_all add: example_link_def new_scope_def new_bridge_def message_of_def)
    have "choosePersonal (example_lib 0) [] [] [example_link] = Inr example_link"
      by (simp add: choosePersonal_def link_wanted_def arg_string_def optionalString_def f(4))
    then show "choose_session (example_lib 0) ''s'' ?rq (case br_first ?s2 of None \<Rightarrow> None | Some k \<Rightarrow> map_of (br_links ?s2) k) ?s2
        = (PersonalSession ''s'', example_bridges)"
      by (simp add: choose_session_def personalConnections_def f(1,2,3) personal_session_def example_bridges_def)
  qed simp
  ultimately show ?thesis by (iprover intro: reach_step)
qed

theorem extensions_integrity_witness:
  "map_of (br_links example_bridges) ''c'' = Some example_link
     \<and> bs_paused (ct_session (new_browserSession ''s'' [] (Some ''c''))) = bb_paused example_link"
proof -
  have c: "map_of (br_sessions example_bridges) ''s'' = Some (new_browserSession ''s'' [] (Some ''c''))" by (simp add: example_bridges_def)
  have p: "bs_personal (ct_session (new_browserSession ''s'' [] (Some ''c''))) = Some ''c''" by (simp add: new_browserSession_def)
  have l: "map_of (br_links example_bridges) ''c'' = Some example_link" by (simp add: example_bridges_def)
  have "\<forall>k c i. map_of (br_sessions example_bridges) k = Some c \<and> bs_personal (ct_session c) = Some i \<longrightarrow>
        (case map_of (br_links example_bridges) i of None \<Rightarrow> bs_disconnected (ct_session c) | Some l \<Rightarrow> bs_paused (ct_session c) = bb_paused l)"
    using extensions_integrity [OF example_reached] by iprover
  from this [rule_format, OF conjI [OF c p]] show ?thesis by (simp add: l)
qed

section \<open>What a scope message takes away\<close>

lemma approved_tabs_url:
  "approved_tabs N allowLocal ts = Some us \<Longrightarrow> u \<in> set us \<Longrightarrow> pt_URL u = ''about:blank'' \<or> checkURL N allowLocal (pt_URL u) = None"
  by (induction ts arbitrary: us) (auto split: if_splits)

lemma scope_session_stops:
  "p \<or> x \<Longrightarrow> (bs_active (ct_session (scope_session p x c)) = None \<or> bs_cancelled (ct_session (scope_session p x c)))
     \<and> q_waiting (ct_work (scope_session p x c)) = []"
  by (auto simp: scope_session_def invalidate_def set_paused_def cancelPending_def Let_def)

lemma scope_session_tabs: "bs_tabs (ct_session (scope_session p x c)) = bs_tabs (ct_session c)"
  by (simp add: scope_session_def invalidate_def set_paused_def Let_def)



end
