(* ===== verification/FileDiff.thy ===== *)
theory FileDiff
  imports Texts
begin

text \<open>The preview of a saved file, \<open>src/cmd/agent/file_diff.go\<close>. \<open>changedLines\<close> is Myers' search for a shortest edit script:
  round \<open>d\<close> keeps, for every diagonal \<open>k\<close>, the furthest point that \<open>d\<close> edits reach, in an array that is overwritten in
  place; the array of each finished round is kept, and when a round reaches the end of both texts the script is read
  back from those copies. The indices are \<open>int\<close>s, as a diagonal is negative when the new text is ahead. The second part
  pairs removed with added lines the way the preview shows them; how a line is abbreviated in its column is left out.\<close>

section \<open>Lines\<close>

record diffLine =
  dl_kind :: char
  dl_text :: string
  dl_number :: int

definition diff_lines :: "string \<Rightarrow> string list" where
  "diff_lines t =
    (if t = [] then []
     else Split (CHR 0x0A) (TrimSuffix (unix_lines t) [CHR 0x0A]))"

section \<open>The search\<close>

definition diff_limit :: int where "diff_limit = 256"
definition diff_offset :: int where "diff_offset = diff_limit + 1"

definition at_diagonal :: "int list \<Rightarrow> int \<Rightarrow> int" where
  "at_diagonal v k = v ! nat (diff_offset + k)"

definition set_diagonal :: "int list \<Rightarrow> int \<Rightarrow> int \<Rightarrow> int list" where
  "set_diagonal v k x = v[nat (diff_offset + k) := x]"

text \<open>Does the step to diagonal \<open>k\<close> come from the one above it?\<close>

definition from_above :: "int \<Rightarrow> int \<Rightarrow> int list \<Rightarrow> bool" where
  "from_above d k v \<longleftrightarrow> k = -d \<or> (k \<noteq> d \<and> at_diagonal v (k - 1) < at_diagonal v (k + 1))"

definition matches :: "string list \<Rightarrow> string list \<Rightarrow> int \<Rightarrow> int \<Rightarrow> bool" where
  "matches a b x y \<longleftrightarrow> x < int (length a) \<and> y < int (length b) \<and> a ! nat x = b ! nat y"

function slide :: "string list \<Rightarrow> string list \<Rightarrow> int \<Rightarrow> int \<Rightarrow> int" where
  "slide a b x y = (if matches a b x y then slide a b (x + 1) (y + 1) else x)"
  by pat_completeness auto
termination
  by (relation "measure (\<lambda>(a, b, x, y). nat (int (length a) - x))") (auto simp: matches_def)

declare slide.simps [simp del]

definition furthest :: "string list \<Rightarrow> string list \<Rightarrow> int \<Rightarrow> int \<Rightarrow> int list \<Rightarrow> int" where
  "furthest a b d k v =
    (let x = (if from_above d k v then at_diagonal v (k + 1) else at_diagonal v (k - 1) + 1)
     in slide a b x (x - k))"

definition at_end :: "string list \<Rightarrow> string list \<Rightarrow> int \<Rightarrow> int \<Rightarrow> bool" where
  "at_end a b x k \<longleftrightarrow> \<not> (x < int (length a) \<or> x - k < int (length b))"

text \<open>One round: \<open>None\<close> when a diagonal reaches the end of both texts, the array otherwise.\<close>

function diff_round :: "string list \<Rightarrow> string list \<Rightarrow> int \<Rightarrow> int \<Rightarrow> int list \<Rightarrow> int list option" where
  "diff_round a b d k v =
    (if d < k then Some v
     else let x = furthest a b d k v
          in if at_end a b x k then None else diff_round a b d (k + 2) (set_diagonal v k x))"
  by pat_completeness auto
termination
  by (relation "measure (\<lambda>(a, b, d, k, v). nat (d + 2 - k))") auto

declare diff_round.simps [simp del]

section \<open>Reading the script back\<close>

definition unchanged :: diffLine where
  "unchanged = \<lparr>dl_kind = CHR '' '', dl_text = [], dl_number = 0\<rparr>"

function unwind :: "int \<Rightarrow> int \<Rightarrow> int \<Rightarrow> int \<Rightarrow> diffLine list \<times> int \<times> int" where
  "unwind prevX prevY x y =
    (if x > prevX \<and> y > prevY
     then (let (r, x1, y1) = unwind prevX prevY (x - 1) (y - 1) in (unchanged # r, x1, y1))
     else ([], x, y))"
  by pat_completeness auto
termination
  by (relation "measure (\<lambda>(px, py, x, y). nat (x - px))") auto

declare unwind.simps [simp del]

fun read_back :: "string list \<Rightarrow> string list \<Rightarrow> int list list \<Rightarrow> nat \<Rightarrow> int \<Rightarrow> int \<Rightarrow> diffLine list" where
  "read_back a b traced 0 x y = []"
| "read_back a b traced (Suc n) x y =
    (let previous = traced ! n;
         k = x - y;
         prevK = (if from_above (int (Suc n)) k previous then k + 1 else k - 1);
         prevX = at_diagonal previous prevK;
         prevY = at_diagonal previous prevK - prevK;
         (r, x1, y1) = unwind prevX prevY x y
     in r @ (if x1 = prevX
             then \<lparr>dl_kind = CHR ''+'', dl_text = b ! nat (y1 - 1), dl_number = y1\<rparr> # read_back a b traced n x1 (y1 - 1)
             else \<lparr>dl_kind = CHR ''-'', dl_text = a ! nat (x1 - 1), dl_number = x1\<rparr> # read_back a b traced n (x1 - 1) y1))"

text \<open>The rounds from \<open>d\<close> on; \<open>fuel\<close> is the number of rounds left.\<close>

fun diff_rounds :: "string list \<Rightarrow> string list \<Rightarrow> nat \<Rightarrow> nat \<Rightarrow> int list \<Rightarrow> int list list \<Rightarrow> diffLine list option" where
  "diff_rounds a b 0 d v traced = None"
| "diff_rounds a b (Suc fuel) d v traced =
    (case diff_round a b (int d) (- int d) v of
       None \<Rightarrow> Some (rev (read_back a b traced d (int (length a)) (int (length b))))
     | Some v1 \<Rightarrow> diff_rounds a b fuel (Suc d) v1 (traced @ [v1]))"

definition changedLines :: "string \<Rightarrow> string \<Rightarrow> diffLine list option" where
  "changedLines before after =
    (let a = diff_lines before; b = diff_lines after
     in if length a + length b > 20000 then None
        else diff_rounds a b (nat diff_limit + 1) 0 (replicate (nat (2 * diff_limit + 3)) 0) [])"

section \<open>The preview\<close>

datatype diffCell = Blank | NoLine | Shown diffLine

datatype diffPreview =
    NoChanges | TooLarge | OnlyLineEnds
  | Rows (empty_before: bool) (empty_after: bool) (shown_rows: "(diffCell \<times> diffCell) list") (hides: bool)

definition cell_of :: "diffLine list \<Rightarrow> nat \<Rightarrow> diffCell" where
  "cell_of ls row = (if row < length ls then Shown (ls ! row) else if row = length ls then NoLine else Blank)"

definition group_rows :: "diffLine list \<Rightarrow> diffLine list \<Rightarrow> (diffCell \<times> diffCell) list" where
  "group_rows removed added = map (\<lambda>row. (cell_of removed row, cell_of added row)) [0..<max (length removed) (length added)]"

definition is_change :: "diffLine \<Rightarrow> bool" where "is_change l \<longleftrightarrow> dl_kind l \<noteq> CHR '' ''"
definition is_removal :: "diffLine \<Rightarrow> bool" where "is_removal l \<longleftrightarrow> dl_kind l = CHR ''-''"

function diff_rows :: "diffLine list \<Rightarrow> (diffCell \<times> diffCell) list" where
  "diff_rows changes =
    (case changes of
       [] \<Rightarrow> []
     | l # rest \<Rightarrow>
         if \<not> is_change l then diff_rows rest
         else let group = takeWhile is_change changes
              in group_rows (filter is_removal group) (filter (\<lambda>c. \<not> is_removal c) group) @ diff_rows (dropWhile is_change changes))"
  by pat_completeness auto
termination
  by (relation "measure length") (auto simp: less_Suc_eq_le length_dropWhile_le)

declare diff_rows.simps [simp del]

definition diff_rows_max :: nat where "diff_rows_max = 40"

definition formatFileDiff :: "string \<Rightarrow> string \<Rightarrow> diffPreview" where
  "formatFileDiff before after =
    (if before = after then NoChanges
     else case changedLines before after of
       None \<Rightarrow> TooLarge
     | Some changes \<Rightarrow>
         (let rows = diff_rows changes
          in if rows = [] then OnlyLineEnds
             else Rows (before = []) (after = []) (take diff_rows_max rows) (diff_rows_max < length rows)))"

end
