(* ===== verification/FileDiffFacts.thy ===== *)
theory FileDiffFacts
  imports FileDiff
begin

text \<open>The preview's search finds a shortest edit script. \<open>edit_distance\<close> is the reference: the least number of added and
  removed lines by the textbook recursion. Between the two stands the relation \<open>edits_to\<close>, the points of the edit graph
  that so many edits reach: the array of every round holds the furthest such point of each diagonal, so the first round
  that reaches the end of both texts does it with the least number of edits, and the copies of the arrays lead back to the
  start.\<close>

section \<open>The reference\<close>

fun edit_distance :: "string list \<Rightarrow> string list \<Rightarrow> nat" where
  "edit_distance [] ys = length ys"
| "edit_distance xs [] = length xs"
| "edit_distance (x # xs) (y # ys) =
    (let e = Suc (min (edit_distance xs (y # ys)) (edit_distance (x # xs) ys))
     in if x = y then min (edit_distance xs ys) e else e)"

lemma edit_distance_Nil2 [simp]: "edit_distance xs [] = length xs"
  by (cases xs) simp_all

lemma edit_distance_drop1: "edit_distance (x # xs) ys \<le> Suc (edit_distance xs ys)"
  by (cases ys) (auto simp: Let_def)

lemma edit_distance_drop2: "edit_distance xs (y # ys) \<le> Suc (edit_distance xs ys)"
  by (cases xs) (auto simp: Let_def)

lemma edit_distance_same: "edit_distance (x # xs) (x # ys) \<le> edit_distance xs ys"
  by (simp add: Let_def)

lemma edit_distance_cases:
  "edit_distance (x # xs) (y # ys) = Suc (edit_distance xs (y # ys))
   \<or> edit_distance (x # xs) (y # ys) = Suc (edit_distance (x # xs) ys)
   \<or> (x = y \<and> edit_distance (x # xs) (y # ys) = edit_distance xs ys)"
  by (auto simp: Let_def min_def)

text \<open>What a script means: it walks both texts from a position to another, its entries at the numbers of their lines.\<close>

fun follow :: "string list \<Rightarrow> string list \<Rightarrow> int \<times> int \<Rightarrow> diffLine list \<Rightarrow> (int \<times> int) option" where
  "follow a b p [] = Some p"
| "follow a b (x, y) (l # ls) =
    (if dl_kind l = CHR '' '' then (if matches a b x y then follow a b (x + 1, y + 1) ls else None)
     else if dl_kind l = CHR ''-'' then
       (if x < int (length a) \<and> dl_number l = x + 1 \<and> dl_text l = a ! nat x then follow a b (x + 1, y) ls else None)
     else if dl_kind l = CHR ''+'' then
       (if y < int (length b) \<and> dl_number l = y + 1 \<and> dl_text l = b ! nat y then follow a b (x, y + 1) ls else None)
     else None)"

text \<open>Applying it to the old lines.\<close>

fun patch :: "diffLine list \<Rightarrow> string list \<Rightarrow> string list" where
  "patch [] xs = xs"
| "patch (l # ls) xs =
    (if dl_kind l = CHR '' '' then hd xs # patch ls (tl xs)
     else if dl_kind l = CHR ''-'' then patch ls (tl xs)
     else dl_text l # patch ls xs)"

lemma follow_append:
  "follow a b p (ls @ ms) = Option.bind (follow a b p ls) (\<lambda>q. follow a b q ms)"
  by (induction a b p ls rule: follow.induct) auto

lemma drop_nat: "0 \<le> x \<Longrightarrow> x < int (length a) \<Longrightarrow> drop (nat x) a = a ! nat x # drop (nat (x + 1)) a"
  by (simp add: Cons_nth_drop_Suc nat_add_distrib)

lemma follow_patch:
  "follow a b (x, y) ls = Some (int (length a), int (length b)) \<Longrightarrow> 0 \<le> x \<Longrightarrow> 0 \<le> y
   \<Longrightarrow> patch ls (drop (nat x) a) = drop (nat y) b"
proof (induction a b "(x, y)" ls arbitrary: x y rule: follow.induct)
  case (2 a b x y l ls)
  then show ?case by (auto simp: drop_nat matches_def split: if_splits)
qed simp

section \<open>Points that so many edits reach\<close>

inductive edits_to :: "string list \<Rightarrow> string list \<Rightarrow> nat \<Rightarrow> int \<Rightarrow> int \<Rightarrow> bool" for a b where
  start: "edits_to a b 0 0 0"
| keep: "edits_to a b d x y \<Longrightarrow> matches a b x y \<Longrightarrow> edits_to a b d (x + 1) (y + 1)"
| remove: "edits_to a b d x y \<Longrightarrow> edits_to a b (Suc d) (x + 1) y"
| add: "edits_to a b d x y \<Longrightarrow> edits_to a b (Suc d) x (y + 1)"

lemma edits_to_nonneg: "edits_to a b d x y \<Longrightarrow> 0 \<le> x \<and> 0 \<le> y"
  by (induction rule: edits_to.induct) auto

lemma edits_to_diagonal: "edits_to a b d x y \<Longrightarrow> \<bar>x - y\<bar> \<le> int d \<and> even (x - y + int d)"
  by (induction rule: edits_to.induct) auto

text \<open>A point past the end of a text costs the edits that went past it.\<close>

lemma edits_to_clamp:
  "edits_to a b d x y \<Longrightarrow> \<exists>e. edits_to a b e (min x (int (length a))) (min y (int (length b)))
     \<and> int e + max 0 (x - int (length a)) + max 0 (y - int (length b)) \<le> int d"
proof (induction rule: edits_to.induct)
  case start
  then show ?case using edits_to.start by (intro exI [of _ 0]) simp
next
  case (keep d x y)
  then obtain e where "edits_to a b e x y" "e \<le> d" by (auto simp: matches_def min_def max_def split: if_splits)
  then show ?case using keep(2) edits_to.keep [of a b e x y] by (intro exI [of _ e]) (auto simp: matches_def)
next
  case (remove d x y)
  then obtain e where e: "edits_to a b e (min x (int (length a))) (min y (int (length b)))"
    "int e + max 0 (x - int (length a)) + max 0 (y - int (length b)) \<le> int d" by blast
  show ?case
  proof (cases "x < int (length a)")
    case True
    then show ?thesis using edits_to.remove [OF e(1)] e(2) by (intro exI [of _ "Suc e"]) (auto simp: min_def)
  next
    case False
    then have "min (x + 1) (int (length a)) = min x (int (length a))" by simp
    then show ?thesis using e False by (intro exI [of _ e]) simp
  qed
next
  case (add d x y)
  then obtain e where e: "edits_to a b e (min x (int (length a))) (min y (int (length b)))"
    "int e + max 0 (x - int (length a)) + max 0 (y - int (length b)) \<le> int d" by blast
  show ?case
  proof (cases "y < int (length b)")
    case True
    then show ?thesis using edits_to.add [OF e(1)] e(2) by (intro exI [of _ "Suc e"]) (auto simp: min_def)
  next
    case False
    then have "min (y + 1) (int (length b)) = min y (int (length b))" by simp
    then show ?thesis using e False by (intro exI [of _ e]) simp
  qed
qed

text \<open>The reference distance is the least number of edits that reach the end.\<close>

lemma edits_to_distance:
  "edits_to a b d x y \<Longrightarrow> x \<le> int (length a) \<Longrightarrow> y \<le> int (length b)
   \<Longrightarrow> edit_distance a b \<le> d + edit_distance (drop (nat x) a) (drop (nat y) b)"
proof (induction rule: edits_to.induct)
  case (keep d x y)
  then show ?case using edits_to_nonneg [OF keep(1)] edit_distance_same [of "a ! nat x"]
    by (simp add: matches_def drop_nat [of x] drop_nat [of y]) (use order_trans in fastforce)
next
  case (remove d x y)
  then show ?case using edits_to_nonneg [OF remove(1)] edit_distance_drop1 [of "a ! nat x" "drop (nat (x + 1)) a" "drop (nat y) b"]
    by (simp add: drop_nat [of x])
next
  case (add d x y)
  then show ?case using edits_to_nonneg [OF add(1)] edit_distance_drop2 [of "drop (nat x) a" "b ! nat y" "drop (nat (y + 1)) b"]
    by (simp add: drop_nat [of y])
qed simp

lemma distance_edits_to:
  assumes "edits_to a b d x y" "x \<le> int (length a)" "y \<le> int (length b)"
  shows "edits_to a b (d + edit_distance (drop (nat x) a) (drop (nat y) b)) (int (length a)) (int (length b))"
  using assms
proof (induction "nat (int (length a) - x) + nat (int (length b) - y)" arbitrary: d x y rule: less_induct)
  case less
  note pos = edits_to_nonneg [OF less.prems(1)]
  consider (over) "x = int (length a)" "y = int (length b)" | (right) "x < int (length a)" "y = int (length b)"
    | (down) "x = int (length a)" "y < int (length b)" | (both) "x < int (length a)" "y < int (length b)"
    using less.prems by linarith
  then show ?case
  proof cases
    case over
    then show ?thesis using less.prems by simp
  next
    case right
    then show ?thesis using less.hyps [OF _ edits_to.remove [OF less.prems(1)]] right pos drop_nat [of x a] by simp
  next
    case down
    then show ?thesis using less.hyps [OF _ edits_to.add [OF less.prems(1)]] down pos drop_nat [of y b] by simp
  next
    case both
    let ?xs = "drop (nat (x + 1)) a" and ?ys = "drop (nat (y + 1)) b"
    note dx = drop_nat [of x a] and dy = drop_nat [of y b]
    from edit_distance_cases [of "a ! nat x" ?xs "b ! nat y" ?ys]
    show ?thesis
    proof (elim disjE conjE)
      assume "edit_distance (a ! nat x # ?xs) (b ! nat y # ?ys) = Suc (edit_distance ?xs (b ! nat y # ?ys))"
      then show ?thesis using less.hyps [OF _ edits_to.remove [OF less.prems(1)]] both pos dx dy by simp
    next
      assume "edit_distance (a ! nat x # ?xs) (b ! nat y # ?ys) = Suc (edit_distance (a ! nat x # ?xs) ?ys)"
      then show ?thesis using less.hyps [OF _ edits_to.add [OF less.prems(1)]] both pos dx dy by simp
    next
      assume eq: "a ! nat x = b ! nat y" "edit_distance (a ! nat x # ?xs) (b ! nat y # ?ys) = edit_distance ?xs ?ys"
      have "nat (int (length a) - (x + 1)) + nat (int (length b) - (y + 1))
        < nat (int (length a) - x) + nat (int (length b) - y)" using both by linarith
      moreover have "matches a b x y" using both eq(1) by (simp add: matches_def)
      ultimately have "edits_to a b (d + edit_distance ?xs ?ys) (int (length a)) (int (length b))"
        using less.hyps [OF _ edits_to.keep [OF less.prems(1)]] both by linarith
      then show ?thesis unfolding dx [OF conjunct1 [OF pos] both(1)] dy [OF conjunct2 [OF pos] both(2)] eq(2) .
    qed
  qed
qed

lemma edits_to_end: "edits_to a b d (int (length a)) (int (length b)) \<Longrightarrow> edit_distance a b \<le> d"
  using edits_to_distance [of a b d "int (length a)" "int (length b)"] by simp

lemma distance_reaches_end: "edits_to a b (edit_distance a b) (int (length a)) (int (length b))"
  using distance_edits_to [OF edits_to.start] by simp

text \<open>The last edit of a path, and the unchanged lines after it.\<close>

lemma edits_to_0: "edits_to a b d x y \<Longrightarrow> d = 0 \<Longrightarrow> x = y \<and> (\<forall>i. 0 \<le> i \<longrightarrow> i < x \<longrightarrow> matches a b i i)"
proof (induction rule: edits_to.induct)
  case (keep d x y)
  then have "matches a b i i" if "0 \<le> i" "i < x + 1" for i using that by (cases "i = x") auto
  then show ?case using keep by simp
qed simp_all

lemma edits_to_Suc:
  "edits_to a b d' x y \<Longrightarrow> d' = Suc d \<Longrightarrow> \<exists>s. (edits_to a b d (s - 1) (s - (x - y)) \<or> edits_to a b d s (s - (x - y) - 1)) \<and> s \<le> x
     \<and> (\<forall>i. s \<le> i \<longrightarrow> i < x \<longrightarrow> matches a b i (i - (x - y)))"
proof (induction rule: edits_to.induct)
  case (keep d' x y)
  then obtain s where s: "edits_to a b d (s - 1) (s - (x - y)) \<or> edits_to a b d s (s - (x - y) - 1)" "s \<le> x"
    "\<forall>i. s \<le> i \<longrightarrow> i < x \<longrightarrow> matches a b i (i - (x - y))" by blast
  have "matches a b i (i - (x - y))" if "s \<le> i" "i < x + 1" for i
    using s(3) keep(2) that by (cases "i = x") auto
  then show ?case using s(1,2) by (intro exI [of _ s]) auto
next
  case (remove d' x y)
  then show ?case by (intro exI [of _ "x + 1"]) simp
next
  case (add d' x y)
  then show ?case by (intro exI [of _ x]) simp
qed simp

section \<open>The slide\<close>

lemma slide_facts:
  "x \<le> slide a b x y \<and> \<not> matches a b (slide a b x y) (slide a b x y - (x - y))
   \<and> (\<forall>i. x \<le> i \<longrightarrow> i < slide a b x y \<longrightarrow> matches a b i (i - (x - y)))"
proof (induction a b x y rule: slide.induct)
  case (1 a b x y)
  show ?case
  proof (cases "matches a b x y")
    case True
    then have "matches a b i (i - (x - y))" if "x \<le> i" "i < slide a b (x + 1) (y + 1)" for i
      using 1 that by (cases "i = x") auto
    then show ?thesis using True 1 by (subst (1 2 3 4) slide.simps) auto
  next
    case False
    then show ?thesis by (subst (1 2 3 4) slide.simps) simp
  qed
qed

lemma slide_edits: "edits_to a b d x (x - k) \<Longrightarrow> edits_to a b d (slide a b x (x - k)) (slide a b x (x - k) - k)"
proof (induction a b x "x - k" rule: slide.induct)
  case (1 a b x)
  show ?case
  proof (cases "matches a b x (x - k)")
    case True
    then show ?thesis using 1(1) [OF True] edits_to.keep [OF 1(2) True]
      by (subst (1 2) slide.simps) (simp add: algebra_simps)
  next
    case False
    then show ?thesis using 1(2) by (subst (1 2) slide.simps) simp
  qed
qed

lemma slide_max:
  assumes "\<forall>i. s \<le> i \<longrightarrow> i < z \<longrightarrow> matches a b i (i - k)" "s \<le> x"
  shows "z \<le> slide a b x (x - k)"
proof (rule ccontr)
  assume "\<not> z \<le> slide a b x (x - k)"
  then show False using assms slide_facts [of x a b "x - k"] assms(1) [THEN spec, of "slide a b x (x - k)"] by simp
qed

section \<open>One round\<close>

definition diff_size :: nat where "diff_size = nat (2 * diff_limit + 3)"

lemma at_set:
  "length v = diff_size \<Longrightarrow> \<bar>j\<bar> \<le> 257 \<Longrightarrow> \<bar>k\<bar> \<le> 257
   \<Longrightarrow> at_diagonal (set_diagonal v k x) j = (if j = k then x else at_diagonal v j)"
  by (auto simp: at_diagonal_def set_diagonal_def diff_size_def diff_offset_def diff_limit_def nth_list_update)

lemma length_set [simp]: "length (set_diagonal v k x) = length v"
  by (simp add: set_diagonal_def)

lemma furthest_set:
  "length v = diff_size \<Longrightarrow> \<bar>j\<bar> \<le> 256 \<Longrightarrow> \<bar>k\<bar> \<le> 256 \<Longrightarrow> even (j - k) \<Longrightarrow> furthest a b d j (set_diagonal v k x) = furthest a b d j v"
proof -
  assume a: "length v = diff_size" "\<bar>j\<bar> \<le> 256" "\<bar>k\<bar> \<le> 256" "even (j - k)"
  then have "j + 1 \<noteq> k" "j - 1 \<noteq> k" by auto
  then show ?thesis using a by (simp add: furthest_def from_above_def at_set)
qed

text \<open>The diagonals of a round.\<close>

definition diagonal :: "int \<Rightarrow> int \<Rightarrow> bool" where "diagonal d k \<longleftrightarrow> \<bar>k\<bar> \<le> d \<and> even (k + d)"

lemma diff_round_Some:
  "diff_round a b d k v = Some w \<Longrightarrow> length v = diff_size \<Longrightarrow> d \<le> 256 \<Longrightarrow> \<bar>k\<bar> \<le> d + 2 \<Longrightarrow> - d \<le> k \<Longrightarrow> even (k + d)
   \<Longrightarrow> length w = diff_size \<and> (\<forall>j. k \<le> j \<longrightarrow> diagonal d j \<longrightarrow> at_diagonal w j = furthest a b d j v \<and> \<not> at_end a b (furthest a b d j v) j)
     \<and> (\<forall>j. \<bar>j\<bar> \<le> 257 \<longrightarrow> j < k \<or> odd (j + d) \<longrightarrow> at_diagonal w j = at_diagonal v j)"
proof (induction a b d k v rule: diff_round.induct)
  case (1 a b d k v)
  show ?case
  proof (cases "d < k")
    case True
    then show ?thesis using 1(2-) by (auto simp: diff_round.simps [of a b d k] diagonal_def) 
  next
    case False
    let ?x = "furthest a b d k v"
    have stays: "\<not> at_end a b ?x k" and rest: "diff_round a b d (k + 2) (set_diagonal v k ?x) = Some w"
      using 1(2) False by (auto simp: diff_round.simps [of a b d k] Let_def split: if_splits)
    have k: "\<bar>k\<bar> \<le> 256" using False 1(4,6) by linarith
    note IH = 1(1) [OF False refl stays rest, simplified, OF 1(3,4)]
    have IH: "length w = diff_size \<and> (\<forall>j. k + 2 \<le> j \<longrightarrow> diagonal d j \<longrightarrow> at_diagonal w j = furthest a b d j (set_diagonal v k ?x)
          \<and> \<not> at_end a b (furthest a b d j (set_diagonal v k ?x)) j)
        \<and> (\<forall>j. \<bar>j\<bar> \<le> 257 \<longrightarrow> j < k + 2 \<or> odd (j + d) \<longrightarrow> at_diagonal w j = at_diagonal (set_diagonal v k ?x) j)"
      using IH 1(5-7) False by simp
    have same: "furthest a b d j (set_diagonal v k ?x) = furthest a b d j v" if "diagonal d j" for j
      by (rule furthest_set [OF 1(3)]) (use that k 1(4,7) in \<open>auto simp: diagonal_def\<close>)
    have next_k: "k + 2 \<le> j" if "k \<le> j" "diagonal d j" "j \<noteq> k" for j
    proof -
      have "even (j - k)" using that(2) 1(7) by (simp add: diagonal_def)
      then show ?thesis using that(1,3) by presburger
    qed
    have here: "at_diagonal w j = at_diagonal (set_diagonal v k ?x) j" if "\<bar>j\<bar> \<le> 257" "j < k + 2 \<or> odd (j + d)" for j
      using IH that by blast
    have "at_diagonal w j = furthest a b d j v \<and> \<not> at_end a b (furthest a b d j v) j" if "k \<le> j" "diagonal d j" for j
    proof (cases "j = k")
      case True
      then show ?thesis using here [of k] k stays by (simp add: at_set [OF 1(3)])
    next
      case neq: False
      then show ?thesis using IH next_k [OF that neq] that(2) same by metis
    qed
    moreover have "at_diagonal w j = at_diagonal v j" if "\<bar>j\<bar> \<le> 257" "j < k \<or> odd (j + d)" for j
    proof -
      have "j \<noteq> k" using that 1(7) by auto
      then show ?thesis using here [of j] that k by (auto simp: at_set [OF 1(3)])
    qed
    ultimately show ?thesis using IH by blast
  qed
qed

lemma diff_round_None:
  "diff_round a b d k v = None \<Longrightarrow> length v = diff_size \<Longrightarrow> d \<le> 256 \<Longrightarrow> - d \<le> k \<Longrightarrow> even (k + d)
   \<Longrightarrow> \<exists>j. diagonal d j \<and> at_end a b (furthest a b d j v) j"
proof (induction a b d k v rule: diff_round.induct)
  case (1 a b d k v)
  let ?x = "furthest a b d k v"
  have kd: "\<not> d < k" using 1(2) by (auto simp: diff_round.simps [of a b d k])
  have k: "\<bar>k\<bar> \<le> 256" "diagonal d k" using kd 1(4-6) by (auto simp: diagonal_def)
  show ?case
  proof (cases "at_end a b ?x k")
    case True
    then show ?thesis using k by blast
  next
    case False
    then have "diff_round a b d (k + 2) (set_diagonal v k ?x) = None"
      using 1(2) kd by (simp add: diff_round.simps [of a b d k] Let_def)
    then obtain j where j: "diagonal d j" "at_end a b (furthest a b d j (set_diagonal v k ?x)) j"
      using 1(1) [OF kd refl False] 1(3-6) by auto
    have "furthest a b d j (set_diagonal v k ?x) = furthest a b d j v"
      by (rule furthest_set [OF 1(3)]) (use j(1) k 1(4,6) in \<open>auto simp: diagonal_def\<close>)
    then show ?thesis using j by auto
  qed
qed

section \<open>All rounds\<close>

definition array_before :: "int list list \<Rightarrow> nat \<Rightarrow> int list" where
  "array_before traced d = (if d = 0 then replicate diff_size 0 else traced ! (d - 1))"

definition front :: "string list \<Rightarrow> string list \<Rightarrow> int list list \<Rightarrow> nat \<Rightarrow> int \<Rightarrow> int" where
  "front a b traced d k = furthest a b (int d) k (array_before traced d)"

definition searched :: "string list \<Rightarrow> string list \<Rightarrow> int list list \<Rightarrow> bool" where
  "searched a b traced \<longleftrightarrow> length traced \<le> 257 \<and> (\<forall>d < length traced. length (traced ! d) = diff_size
     \<and> (\<forall>k. diagonal (int d) k \<longrightarrow> at_diagonal (traced ! d) k = front a b traced d k \<and> \<not> at_end a b (front a b traced d k) k))"

definition entry_point :: "int \<Rightarrow> int \<Rightarrow> int list \<Rightarrow> int" where
  "entry_point d k v = (if from_above d k v then at_diagonal v (k + 1) else at_diagonal v (k - 1) + 1)"

lemma furthest_slide: "furthest a b d k v = slide a b (entry_point d k v) (entry_point d k v - k)"
  by (simp add: furthest_def entry_point_def Let_def)

lemma searchedD:
  assumes "searched a b traced" "d < length traced" "diagonal (int d) k"
  shows "at_diagonal (traced ! d) k = front a b traced d k" "\<not> at_end a b (front a b traced d k) k"
  using assms by (auto simp: searched_def)

text \<open>The neighbours that a step reads were written by the round before it.\<close>

lemma above_diagonal: "diagonal (int (Suc d)) k \<Longrightarrow> from_above (int (Suc d)) k v \<Longrightarrow> diagonal (int d) (k + 1)"
proof -
  assume a: "diagonal (int (Suc d)) k" "from_above (int (Suc d)) k v"
  then have "k \<noteq> int (Suc d)" "\<bar>k\<bar> \<le> int (Suc d)" "even (k + int (Suc d))" by (auto simp: from_above_def diagonal_def)
  moreover from this have "k \<noteq> int d" by auto
  ultimately show ?thesis by (auto simp: diagonal_def)
qed

lemma below_diagonal: "diagonal (int (Suc d)) k \<Longrightarrow> \<not> from_above (int (Suc d)) k v \<Longrightarrow> diagonal (int d) (k - 1)"
proof -
  assume a: "diagonal (int (Suc d)) k" "\<not> from_above (int (Suc d)) k v"
  then have "k \<noteq> - int (Suc d)" "\<bar>k\<bar> \<le> int (Suc d)" "even (k + int (Suc d))" by (auto simp: from_above_def diagonal_def)
  moreover from this have "k \<noteq> - int d" by auto
  ultimately show ?thesis by (auto simp: diagonal_def)
qed

lemma entry_above: "diagonal (int d) (k + 1) \<Longrightarrow> at_diagonal v (k + 1) \<le> entry_point (int (Suc d)) k v"
  by (auto simp: entry_point_def from_above_def diagonal_def)

lemma entry_below: "diagonal (int d) (k - 1) \<Longrightarrow> at_diagonal v (k - 1) + 1 \<le> entry_point (int (Suc d)) k v"
  by (auto simp: entry_point_def from_above_def diagonal_def)

lemma front_best:
  "searched a b traced \<Longrightarrow> d \<le> length traced \<Longrightarrow> diagonal (int d) k
   \<Longrightarrow> edits_to a b d (front a b traced d k) (front a b traced d k - k)
     \<and> (\<forall>x y. edits_to a b d x y \<longrightarrow> x - y = k \<longrightarrow> x \<le> front a b traced d k)"
proof (induction d arbitrary: k)
  case 0
  then have k: "k = 0" by (simp add: diagonal_def)
  have f: "front a b traced 0 0 = slide a b 0 (0 - 0)"
    by (simp add: front_def furthest_def from_above_def array_before_def at_diagonal_def diff_offset_def diff_limit_def diff_size_def)
  have "x \<le> slide a b 0 (0 - 0)" if e: "edits_to a b 0 x y" "x - y = 0" for x y
    by (rule slide_max [of 0]) (use edits_to_0 [OF e(1)] in auto)
  moreover have "edits_to a b 0 (slide a b 0 (0 - 0)) (slide a b 0 (0 - 0) - 0)"
    by (rule slide_edits) (use edits_to.start in simp)
  ultimately show ?case unfolding k f by blast
next
  case (Suc d)
  let ?v = "traced ! d" and ?s = "entry_point (int (Suc d)) k (traced ! d)"
  have d: "d < length traced" using Suc.prems(2) by simp
  have f: "front a b traced (Suc d) k = slide a b ?s (?s - k)" by (simp add: front_def furthest_slide array_before_def)
  note before = searchedD(1) [OF Suc.prems(1) d] and IH = Suc.IH [OF Suc.prems(1) less_imp_le [OF d]]
  have "edits_to a b (Suc d) ?s (?s - k)"
  proof (cases "from_above (int (Suc d)) k ?v")
    case True
    note k = above_diagonal [OF Suc.prems(3) True]
    show ?thesis using edits_to.add [OF conjunct1 [OF IH [OF k]]] before [OF k] True by (simp add: entry_point_def)
  next
    case False
    note k = below_diagonal [OF Suc.prems(3) False]
    show ?thesis using edits_to.remove [OF conjunct1 [OF IH [OF k]]] before [OF k] False by (simp add: entry_point_def algebra_simps)
  qed
  moreover have "x \<le> slide a b ?s (?s - k)" if e: "edits_to a b (Suc d) x y" and k: "x - y = k" for x y
  proof -
    from edits_to_Suc [OF e refl] obtain s where s: "edits_to a b d (s - 1) (s - k) \<or> edits_to a b d s (s - k - 1)"
      "\<forall>i. s \<le> i \<longrightarrow> i < x \<longrightarrow> matches a b i (i - k)" unfolding k by blast
    have "s \<le> ?s" using s(1)
    proof
      assume p: "edits_to a b d (s - 1) (s - k)"
      then have dk: "diagonal (int d) (k - 1)" using edits_to_diagonal by (fastforce simp: diagonal_def)
      then have "s - 1 \<le> at_diagonal ?v (k - 1)" using IH [OF dk] before [OF dk] p by auto
      then show ?thesis using entry_below [OF dk, of ?v] by simp
    next
      assume p: "edits_to a b d s (s - k - 1)"
      then have dk: "diagonal (int d) (k + 1)" using edits_to_diagonal by (fastforce simp: diagonal_def)
      then have "s \<le> at_diagonal ?v (k + 1)" using IH [OF dk] before [OF dk] p by auto
      then show ?thesis using entry_above [OF dk, of ?v] by simp
    qed
    then show ?thesis by (rule slide_max [OF s(2)])
  qed
  ultimately show ?case unfolding f using slide_edits by blast
qed

lemma searched_no_end:
  assumes "searched a b traced" "d < length traced"
  shows "\<not> edits_to a b d (int (length a)) (int (length b))"
proof
  assume e: "edits_to a b d (int (length a)) (int (length b))"
  let ?k = "int (length a) - int (length b)"
  have k: "diagonal (int d) ?k" using edits_to_diagonal [OF e] by (simp add: diagonal_def)
  have "int (length a) \<le> front a b traced d ?k" using front_best [OF assms(1) _ k] assms(2) e by auto
  then show False using searchedD(2) [OF assms k] by (simp add: at_end_def)
qed

lemma first_end:
  assumes "searched a b traced" "diagonal (int (length traced)) k" "at_end a b (front a b traced (length traced) k) k"
  shows "front a b traced (length traced) k = int (length a) \<and> k = int (length a) - int (length b)
    \<and> edits_to a b (length traced) (int (length a)) (int (length b))"
proof -
  let ?x = "front a b traced (length traced) k"
  have e: "edits_to a b (length traced) ?x (?x - k)" using front_best [OF assms(1) order_refl assms(2)] by blast
  have past: "int (length a) \<le> ?x" "int (length b) \<le> ?x - k" using assms(3) by (auto simp: at_end_def)
  from edits_to_clamp [OF e] obtain e where e: "edits_to a b e (int (length a)) (int (length b))"
    "int e + (?x - int (length a)) + (?x - k - int (length b)) \<le> int (length traced)" using past by (auto simp: min_absorb2)
  have "\<not> e < length traced" using searched_no_end [OF assms(1)] e(1) by blast
  moreover from this have "e = length traced" using e(2) past by linarith
  ultimately show ?thesis using e past by auto
qed

lemma front_append: "d \<le> length traced \<Longrightarrow> front a b (traced @ [v]) d k = front a b traced d k"
  by (cases d) (simp_all add: front_def array_before_def nth_append)

lemma searched_append:
  assumes "searched a b traced" "length traced \<le> 256"
    and "length v = diff_size"
    and "\<forall>k. diagonal (int (length traced)) k \<longrightarrow> at_diagonal v k = front a b traced (length traced) k
      \<and> \<not> at_end a b (front a b traced (length traced) k) k"
  shows "searched a b (traced @ [v])"
  using assms by (auto simp: searched_def front_append nth_append less_Suc_eq)

lemma array_length: "searched a b traced \<Longrightarrow> length (array_before traced (length traced)) = diff_size"
  by (auto simp: searched_def array_before_def)

lemma diff_rounds_search:
  "searched a b traced \<Longrightarrow> length traced + fuel \<le> 257
   \<Longrightarrow> (case diff_rounds a b fuel (length traced) (array_before traced (length traced)) traced of
         None \<Rightarrow> (\<forall>e < length traced + fuel. \<not> edits_to a b e (int (length a)) (int (length b)))
       | Some cs \<Rightarrow> (\<exists>t. searched a b t \<and> length t < length traced + fuel
           \<and> edits_to a b (length t) (int (length a)) (int (length b))
           \<and> front a b t (length t) (int (length a) - int (length b)) = int (length a)
           \<and> cs = rev (read_back a b t (length t) (int (length a)) (int (length b)))))"
proof (induction fuel arbitrary: traced)
  case 0
  then show ?case using searched_no_end by auto
next
  case (Suc fuel)
  let ?d = "length traced" and ?v = "array_before traced (length traced)"
  note len = array_length [OF Suc.prems(1)]
  show ?case
  proof (cases "diff_round a b (int ?d) (- int ?d) ?v")
    case None
    with diff_round_None [OF None len] Suc.prems(2) obtain k
      where k: "diagonal (int ?d) k" "at_end a b (front a b traced ?d k) k" by (auto simp: front_def)
    show ?thesis using None first_end [OF Suc.prems(1) k] Suc.prems by (auto intro!: exI [of _ traced])
  next
    case (Some w)
    note round = diff_round_Some [OF Some len]
    have "searched a b (traced @ [w])"
      using Suc.prems round by (intro searched_append) (auto simp: front_def diagonal_def)
    moreover have "array_before (traced @ [w]) (Suc ?d) = w" by (simp add: array_before_def nth_append)
    moreover have "length (traced @ [w]) = Suc ?d" by simp
    ultimately show ?thesis using Suc.IH [of "traced @ [w]", unfolded \<open>length (traced @ [w]) = Suc ?d\<close> add_Suc_shift] Suc.prems(2) Some
      by (simp del: add_Suc_right)
  qed
qed

section \<open>Reading back\<close>

lemma unwind_count:
  "unwind px py x y = (replicate (nat (min (x - px) (y - py))) unchanged,
     x - max 0 (min (x - px) (y - py)), y - max 0 (min (x - px) (y - py)))"
proof (induction px py x y rule: unwind.induct)
  case (1 px py x y)
  show ?case
  proof (cases "x > px \<and> y > py")
    case True
    then have "nat (min (x - px) (y - py)) = Suc (nat (min (x - 1 - px) (y - 1 - py)))"
      "max 0 (min (x - px) (y - py)) = 1 + max 0 (min (x - 1 - px) (y - 1 - py))" by linarith+
    then show ?thesis using 1 [OF True] True by (subst unwind.simps) simp
  next
    case False
    then show ?thesis by (subst unwind.simps) (auto simp: min_def)
  qed
qed

lemma is_change_simp [simp]: "is_change \<lparr>dl_kind = c, dl_text = s, dl_number = n\<rparr> \<longleftrightarrow> c \<noteq> CHR '' ''"
  by (simp add: is_change_def)

lemma follow_unchanged:
  "(\<forall>i. s \<le> i \<longrightarrow> i < s + int n \<longrightarrow> matches a b i (i - k))
   \<Longrightarrow> follow a b (s, s - k) (replicate n unchanged) = Some (s + int n, s + int n - k)"
proof (induction n arbitrary: s)
  case (Suc n)
  then have "matches a b s (s - k)" "follow a b (s + 1, s + 1 - k) (replicate n unchanged) = Some (s + 1 + int n, s + 1 + int n - k)"
    by auto
  then show ?case by (simp add: unchanged_def algebra_simps)
qed simp

text \<open>One step back: the unchanged lines after the last edit, and the edit.\<close>

lemma read_back_step:
  assumes x: "x = front a b t (Suc n) k" and y: "y = x - k" and s: "s = entry_point (int (Suc n)) k (t ! n)"
  shows "read_back a b t (Suc n) x y = replicate (nat (x - s)) unchanged
    @ (if from_above (int (Suc n)) k (t ! n)
       then \<lparr>dl_kind = CHR ''+'', dl_text = b ! nat (s - k - 1), dl_number = s - k\<rparr>
         # read_back a b t n (at_diagonal (t ! n) (k + 1)) (at_diagonal (t ! n) (k + 1) - (k + 1))
       else \<lparr>dl_kind = CHR ''-'', dl_text = a ! nat (s - 1), dl_number = s\<rparr>
         # read_back a b t n (at_diagonal (t ! n) (k - 1)) (at_diagonal (t ! n) (k - 1) - (k - 1)))"
proof -
  have "s \<le> x" using slide_facts [of s a b "s - k"] unfolding x s by (simp add: front_def furthest_slide array_before_def)
  then show ?thesis
    unfolding y by (cases "from_above (int (Suc n)) k (t ! n)") (auto simp: s entry_point_def unwind_count Let_def algebra_simps)
qed

lemma read_back_follows:
  assumes t: "searched a b t"
  shows "n \<le> length t \<Longrightarrow> diagonal (int n) k \<Longrightarrow> x = front a b t n k \<Longrightarrow> y = x - k \<Longrightarrow> x \<le> int (length a) \<Longrightarrow> y \<le> int (length b)
    \<Longrightarrow> \<exists>p. 0 \<le> p \<and> (\<forall>i. 0 \<le> i \<longrightarrow> i < p \<longrightarrow> matches a b i i) \<and> follow a b (p, p) (rev (read_back a b t n x y)) = Some (x, y)
      \<and> length (filter is_change (read_back a b t n x y)) = n"
proof (induction n arbitrary: k x y)
  case 0
  then have "k = 0" by (simp add: diagonal_def)
  moreover from this have "x = slide a b 0 0" using 0
    by (simp add: front_def furthest_def from_above_def array_before_def at_diagonal_def diff_offset_def diff_limit_def diff_size_def)
  ultimately show ?case using 0(4) slide_facts [of 0 a b 0] by (intro exI [of _ x]) auto
next
  case (Suc n)
  let ?v = "t ! n" and ?s = "entry_point (int (Suc n)) k (t ! n)"
  have n: "n < length t" using Suc.prems(1) by simp
  have x: "x = slide a b ?s (?s - k)" using Suc.prems(3) by (simp add: front_def furthest_slide array_before_def)
  have slid: "?s \<le> x" "\<forall>i. ?s \<le> i \<longrightarrow> i < x \<longrightarrow> matches a b i (i - k)" using slide_facts [of ?s a b "?s - k"] unfolding x by auto
  note step = read_back_step [OF Suc.prems(3,4) refl]
  have tail: "follow a b (?s, ?s - k) (replicate (nat (x - ?s)) unchanged) = Some (x, y)"
    using follow_unchanged [of ?s "nat (x - ?s)" a b k] slid Suc.prems(4) by simp
  have quiet: "filter is_change (replicate m unchanged) = []" for m by (simp add: is_change_def unchanged_def)
  show ?case
  proof (cases "from_above (int (Suc n)) k ?v")
    case True
    note k = above_diagonal [OF Suc.prems(2) True]
    note here = searchedD(1) [OF t n k]
    have s: "?s = front a b t n (k + 1)" using True here by (simp add: entry_point_def)
    have pos: "0 \<le> ?s - (k + 1)" using edits_to_nonneg [OF conjunct1 [OF front_best [OF t less_imp_le [OF n] k]]] unfolding s by simp
    obtain p where p: "0 \<le> p" "\<forall>i. 0 \<le> i \<longrightarrow> i < p \<longrightarrow> matches a b i i"
      "follow a b (p, p) (rev (read_back a b t n ?s (?s - (k + 1)))) = Some (?s, ?s - (k + 1))"
      "length (filter is_change (read_back a b t n ?s (?s - (k + 1)))) = n"
      using Suc.IH [OF less_imp_le [OF n] k s refl] slid(1) Suc.prems(4-6) by fastforce
    have script: "read_back a b t (Suc n) x y = replicate (nat (x - ?s)) unchanged
        @ \<lparr>dl_kind = CHR ''+'', dl_text = b ! nat (?s - k - 1), dl_number = ?s - k\<rparr> # read_back a b t n ?s (?s - (k + 1))"
      using step True here s by simp
    show ?thesis unfolding script using p tail pos slid(1) Suc.prems(4,6)
      by (intro exI [of _ p]) (simp add: follow_append quiet algebra_simps)
  next
    case False
    note k = below_diagonal [OF Suc.prems(2) False]
    note here = searchedD(1) [OF t n k]
    have s: "?s - 1 = front a b t n (k - 1)" using False here by (simp add: entry_point_def)
    have y: "?s - k = front a b t n (k - 1) - (k - 1)" using s by simp
    have pos: "0 \<le> ?s - 1" using edits_to_nonneg [OF conjunct1 [OF front_best [OF t less_imp_le [OF n] k]]] unfolding s by simp
    obtain p where p: "0 \<le> p" "\<forall>i. 0 \<le> i \<longrightarrow> i < p \<longrightarrow> matches a b i i"
      "follow a b (p, p) (rev (read_back a b t n (?s - 1) (?s - k))) = Some (?s - 1, ?s - k)"
      "length (filter is_change (read_back a b t n (?s - 1) (?s - k))) = n"
      using Suc.IH [OF less_imp_le [OF n] k s, of "?s - k"] y s slid(1) Suc.prems(4-6) by fastforce
    have script: "read_back a b t (Suc n) x y = replicate (nat (x - ?s)) unchanged
        @ \<lparr>dl_kind = CHR ''-'', dl_text = a ! nat (?s - 1), dl_number = ?s\<rparr> # read_back a b t n (?s - 1) (?s - k)"
    proof -
      have "at_diagonal ?v (k - 1) = ?s - 1" "at_diagonal ?v (k - 1) - (k - 1) = ?s - k" using here s by simp_all
      then show ?thesis using step False by (simp only: if_False)
    qed
    show ?thesis unfolding script using p tail pos slid(1) Suc.prems(4,5)
      by (intro exI [of _ p]) (simp add: follow_append quiet)
  qed
qed

section \<open>The preview\<close>

lemma follow_keeps: "follow a b p ls = Some q \<Longrightarrow> fst p \<le> fst q \<and> snd p \<le> snd q"
  by (induction a b p ls rule: follow.induct) (auto split: if_splits)

lemma same_lines_take:
  assumes "\<forall>i. 0 \<le> i \<longrightarrow> i < p \<longrightarrow> matches a b i i" "p \<le> int (length a)" "p \<le> int (length b)"
  shows "take (nat p) a = take (nat p) b"
proof (rule nth_equalityI)
  fix i assume i: "i < length (take (nat p) a)"
  then have "int i < p" by (simp add: zless_nat_eq_int_zless)
  then show "take (nat p) a ! i = take (nat p) b ! i" using assms(1) [rule_format, of "int i"] i by (simp add: matches_def)
qed (use assms in simp)

lemma first_rounds:
  "fuel \<le> 257 \<Longrightarrow>
    (case diff_rounds a b fuel 0 (array_before [] 0) [] of
       None \<Rightarrow> (\<forall>e < fuel. \<not> edits_to a b e (int (length a)) (int (length b)))
     | Some cs \<Rightarrow> (\<exists>t. searched a b t \<and> length t < fuel
         \<and> edits_to a b (length t) (int (length a)) (int (length b))
         \<and> front a b t (length t) (int (length a) - int (length b)) = int (length a)
         \<and> cs = rev (read_back a b t (length t) (int (length a)) (int (length b)))))"
  using diff_rounds_search [of a b "[]" fuel, unfolded list.size(3) add_0] by (simp add: searched_def)

text \<open>C14: the lines a preview shows are a shortest edit script. The search answers exactly when the texts have at most 20,000
  lines and their edit distance, by the textbook recursion, is at most 256; then its entries, after the lines with which
  both texts begin, walk the old and the new text in step to their ends, each added or removed line with its own number
  and text, so that applying them to the old lines gives the new ones, and no script has fewer added and removed lines.\<close>

theorem changedLines_shortest:
  "case changedLines before after of
     None \<Rightarrow> 20000 < length (diff_lines before) + length (diff_lines after) \<or> 256 < edit_distance (diff_lines before) (diff_lines after)
   | Some cs \<Rightarrow> length (filter is_change cs) = edit_distance (diff_lines before) (diff_lines after)
       \<and> edit_distance (diff_lines before) (diff_lines after) \<le> 256 \<and> length (diff_lines before) + length (diff_lines after) \<le> 20000
       \<and> (\<exists>p. take p (diff_lines before) = take p (diff_lines after)
            \<and> follow (diff_lines before) (diff_lines after) (int p, int p) cs
                = Some (int (length (diff_lines before)), int (length (diff_lines after)))
            \<and> patch cs (drop p (diff_lines before)) = drop p (diff_lines after))"
proof (cases "length (diff_lines before) + length (diff_lines after) > 20000")
  case True
  then show ?thesis by (simp add: changedLines_def Let_def)
next
  case False
  let ?a = "diff_lines before" and ?b = "diff_lines after"
  have run: "changedLines before after = diff_rounds ?a ?b 257 0 (array_before [] 0) []"
    using False by (simp add: changedLines_def Let_def diff_limit_def array_before_def diff_size_def)
  note search = first_rounds [OF order_refl, of ?a ?b, folded run]
  show ?thesis
  proof (cases "changedLines before after")
    case None
    then have "\<forall>e < 257. \<not> edits_to ?a ?b e (int (length ?a)) (int (length ?b))" using search by simp
    then have "\<not> edit_distance ?a ?b < 257" using distance_reaches_end [of ?a ?b] by blast
    then have "256 < edit_distance ?a ?b" by simp
    then show ?thesis using None by simp
  next
    case (Some cs)
    then obtain t where t: "searched ?a ?b t" "length t < 257" "edits_to ?a ?b (length t) (int (length ?a)) (int (length ?b))"
      "front ?a ?b t (length t) (int (length ?a) - int (length ?b)) = int (length ?a)"
      "cs = rev (read_back ?a ?b t (length t) (int (length ?a)) (int (length ?b)))"
      using search by auto
    have "diagonal (int (length t)) (int (length ?a) - int (length ?b))" using edits_to_diagonal [OF t(3)] by (simp add: diagonal_def)
    from read_back_follows [OF t(1) order_refl this t(4) [symmetric], of "int (length ?b)"]
    obtain p where p: "0 \<le> p" "\<forall>i. 0 \<le> i \<longrightarrow> i < p \<longrightarrow> matches ?a ?b i i"
      "follow ?a ?b (p, p) cs = Some (int (length ?a), int (length ?b))" "length (filter is_change cs) = length t"
      using t(5) by (auto simp: rev_filter [symmetric])
    have "\<not> edit_distance ?a ?b < length t" using searched_no_end [OF t(1)] distance_reaches_end by blast
    then have "edit_distance ?a ?b = length t" using edits_to_end [OF t(3)] by simp
    moreover have "take (nat p) ?a = take (nat p) ?b" by (rule same_lines_take [OF p(2)]) (use follow_keeps [OF p(3)] in auto)
    moreover have "patch cs (drop (nat p) ?a) = drop (nat p) ?b" by (rule follow_patch [OF p(3,1,1)])
    ultimately show ?thesis using Some False p t(2) by (auto intro!: exI [of _ "nat p"])
  qed
qed

text \<open>The table of the preview shows every added and removed line of the script, in order, up to its forty rows.\<close>

fun shown_lines :: "diffCell list \<Rightarrow> diffLine list" where
  "shown_lines [] = []"
| "shown_lines (Shown l # cs) = l # shown_lines cs"
| "shown_lines (_ # cs) = shown_lines cs"

lemma shown_append [simp]: "shown_lines (xs @ ys) = shown_lines xs @ shown_lines ys"
  by (induction xs rule: shown_lines.induct) simp_all

lemma shown_cells: "shown_lines (map (cell_of ls) [0..<n]) = take n ls"
proof (induction n)
  case (Suc n)
  then show ?case by (cases "n < length ls") (simp_all add: cell_of_def take_Suc_conv_app_nth)
qed simp

theorem preview_rows_complete:
  "shown_lines (map fst (diff_rows cs)) = filter is_removal (filter is_change cs)
   \<and> shown_lines (map snd (diff_rows cs)) = filter (\<lambda>c. \<not> is_removal c) (filter is_change cs)"
proof (induction cs rule: diff_rows.induct)
  case (1 cs)
  show ?case
  proof (cases cs)
    case Nil
    then show ?thesis by (simp add: diff_rows.simps [of "[]"])
  next
    case (Cons l rest)
    let ?g = "takeWhile is_change cs" and ?r = "dropWhile is_change cs"
    show ?thesis
    proof (cases "is_change l")
      case True
      have "filter is_change cs = ?g @ filter is_change ?r"
        using filter_append [of is_change ?g ?r] by (metis filter_True set_takeWhileD takeWhile_dropWhile_id)
      then show ?thesis using 1(2) [OF Cons] True Cons
        by (simp add: diff_rows.simps [of "l # rest"] group_rows_def shown_cells o_def Let_def)
    next
      case False
      then show ?thesis using 1(1) [OF Cons] Cons by (simp add: diff_rows.simps [of "l # rest"])
    qed
  qed
qed

end
