(* ===== verification/FileListing.thy ===== *)
theory FileListing
  imports FileToolFacts Texts
begin

text \<open>The tools that list, \<open>listDirectory\<close>, \<open>searchFiles\<close> and \<open>findFiles\<close> of \<open>src/cmd/agent/file_tools.go\<close>, and
  \<open>filepath.WalkDir\<close>, over which the last two run. What a run meets outside the tree is a record of its own: the
  directories that cannot be read, the entries whose information is gone when it is asked for, whether the caller has
  left, the sizes and times of entries that are no files, and the glob and regular expression of the call. A walk goes one
  level deeper at most as often as the longest path of the tree has components, which is the fuel.\<close>

section \<open>The surroundings of a listing\<close>

record walkEnv =
  we_logDir :: path
  we_unreadable :: "path \<Rightarrow> bool"
  we_vanished :: "path \<Rightarrow> bool"
  we_cancelled :: "path \<Rightarrow> bool"
  we_size :: "path \<Rightarrow> int"
  we_modified :: "path \<Rightarrow> string"
  we_Match :: "string \<Rightarrow> string \<Rightarrow> bool option"
  we_Compile :: "string \<Rightarrow> (string \<Rightarrow> bool) option"

definition maxSearchFileBytes :: nat where "maxSearchFileBytes = 10 * 2 ^ 20"

definition path_text :: "path \<Rightarrow> string" where
  "path_text p = (if p = [] then ''/'' else concat (map (\<lambda>c. CHR ''/'' # c) p))"

fun relative_text :: "path \<Rightarrow> string" where
  "relative_text [] = ''.''"
| "relative_text [c] = c"
| "relative_text (c # d # cs) = c @ CHR ''/'' # relative_text (d # cs)"

definition fileType :: "node \<Rightarrow> string" where
  "fileType n = (case n of Link _ _ \<Rightarrow> ''symlink'' | Dir \<Rightarrow> ''directory'' | File _ \<Rightarrow> ''file'' | Special \<Rightarrow> ''other'')"

definition is_link :: "node \<Rightarrow> bool" where "is_link n \<longleftrightarrow> (case n of Link _ _ \<Rightarrow> True | _ \<Rightarrow> False)"

definition entry_size :: "walkEnv \<Rightarrow> path \<Rightarrow> node \<Rightarrow> int" where
  "entry_size w p n = (case n of File data \<Rightarrow> int (length data) | _ \<Rightarrow> we_size w p)"

text \<open>The entries of a directory, as \<open>os.ReadDir\<close> returns them.\<close>

definition ReadDir :: "fs \<Rightarrow> path \<Rightarrow> (path \<times> node) list" where
  "ReadDir fs d = map (\<lambda>c. (d @ [c], the (node_at fs (d @ [c])))) (sort (remdups (entries_of fs d)))"

section \<open>Listing a directory\<close>

record dirItem =
  di_name :: string
  di_type :: string
  di_size :: int
  di_modified :: string
  di_error :: bool

record dirListing =
  dl_path :: path
  dl_entries :: "dirItem list"
  dl_truncated :: bool
  dl_total :: nat

definition entry_order :: "executor \<Rightarrow> path \<times> node \<Rightarrow> bool \<times> string \<times> string" where
  "entry_order ex e = (snd e \<noteq> Dir, ex_lower ex (last (fst e)), last (fst e))"

definition dir_item :: "walkEnv \<Rightarrow> path \<times> node \<Rightarrow> dirItem" where
  "dir_item w e =
    (case e of (p, n) \<Rightarrow>
      if we_vanished w p
      then \<lparr>di_name = last p, di_type = ''unknown'', di_size = 0, di_modified = [], di_error = True\<rparr>
      else \<lparr>di_name = last p, di_type = fileType n, di_size = entry_size w p n, di_modified = we_modified w p, di_error = False\<rparr>)"

definition listDirectory :: "executor \<Rightarrow> walkEnv \<Rightarrow> object \<Rightarrow> fs \<Rightarrow> dirListing result" where
  "listDirectory ex w args fs =
    bind_result (onlyArgs args [''path'', ''max_entries'']) (\<lambda>_.
    bind_result (requiredString args ''path'') (\<lambda>rawPath.
    bind_result (resolvePath fs (ex_roots ex) rawPath) (\<lambda>p.
    bind_result (optionalInt args ''max_entries'' 1000 1 10000) (\<lambda>wanted.
      let maxEntries = min wanted (max 1 (int (ex_maxResponse ex) div 256))
      in case Stat fs p of
           Inl e \<Rightarrow> Inl (pathError ''list directory'' e)
         | Inr n \<Rightarrow>
            if n \<noteq> Dir \<or> we_unreadable w p then Inl (pathError ''list directory'' (if n \<noteq> Dir then NotDirectory else Denied))
            else let entries = sort_key (entry_order ex) (ReadDir fs p);
                     kept = take (nat maxEntries) entries
                 in Inr \<lparr>dl_path = p, dl_entries = map (dir_item w) kept,
                         dl_truncated = (length kept < length entries), dl_total = length entries\<rparr>))))"

section \<open>Walking a tree\<close>

datatype walkEvent = Entry path node | Unreadable path

datatype flow = Continue | SkipDir | SkipAll | Cancelled

primrec walk_each :: "('e \<Rightarrow> 's \<Rightarrow> flow \<times> 's) \<Rightarrow> 'e list \<Rightarrow> 's \<Rightarrow> flow \<times> 's" where
  "walk_each visit [] st = (Continue, st)"
| "walk_each visit (e # es) st =
    (case visit e st of
       (Continue, st1) \<Rightarrow> walk_each visit es st1
     | (SkipDir, st1) \<Rightarrow> (Continue, st1)
     | (fl, st1) \<Rightarrow> (fl, st1))"

text \<open>\<open>walkDir\<close>: a directory is entered when the callback goes on; the callback hears of one that cannot be read a second
  time. The first argument is the number of levels left.\<close>

primrec walk_dir :: "nat \<Rightarrow> walkEnv \<Rightarrow> fs \<Rightarrow> (walkEvent \<Rightarrow> 's \<Rightarrow> flow \<times> 's) \<Rightarrow> path \<times> node \<Rightarrow> 's \<Rightarrow> flow \<times> 's" where
  "walk_dir 0 w fs visit e st = (Continue, st)"
| "walk_dir (Suc n) w fs visit e st =
    (case visit (Entry (fst e) (snd e)) st of
       (Continue, st1) \<Rightarrow>
         if snd e \<noteq> Dir then (Continue, st1)
         else if we_unreadable w (fst e)
         then (case visit (Unreadable (fst e)) st1 of (SkipDir, st2) \<Rightarrow> (Continue, st2) | r \<Rightarrow> r)
         else walk_each (walk_dir n w fs visit) (ReadDir fs (fst e)) st1
     | (SkipDir, st1) \<Rightarrow> (if snd e = Dir then Continue else SkipDir, st1)
     | (fl, st1) \<Rightarrow> (fl, st1))"

definition tree_depth :: "fs \<Rightarrow> nat" where
  "tree_depth fs = Suc (foldr (\<lambda>(p, _) n. max (length p) n) fs 0)"

text \<open>\<open>filepath.WalkDir\<close>: whether it was cancelled, and the state.\<close>

definition WalkDir :: "walkEnv \<Rightarrow> fs \<Rightarrow> (walkEvent \<Rightarrow> 's \<Rightarrow> flow \<times> 's) \<Rightarrow> path \<Rightarrow> 's \<Rightarrow> bool \<times> 's" where
  "WalkDir w fs visit start st =
    (let (fl, st1) = (case Lstat fs start of
           Inl _ \<Rightarrow> visit (Unreadable start) st
         | Inr n \<Rightarrow> walk_dir (tree_depth fs) w fs visit (start, n) st)
     in (fl = Cancelled, st1))"

section \<open>Errors on the way\<close>

datatype accessReason = NotReadable | NoInformation | NotResolved codedError | NotOpened | LineTooLong

type_synonym accessErrors = "(path \<times> accessReason) list"

definition appendAccessError :: "path \<Rightarrow> accessReason \<Rightarrow> accessErrors \<Rightarrow> accessErrors" where
  "appendAccessError p reason es = (if length es < 100 then es @ [(p, reason)] else es)"

section \<open>Searching\<close>

record searchMatch =
  sm_Path :: path
  sm_Line :: nat
  sm_Text :: string

record searchState =
  ss_matches :: "searchMatch list"
  ss_errors :: accessErrors
  ss_truncated :: bool
  ss_bytes :: int

record searchCall =
  sc_root :: path
  sc_pattern :: string
  sc_glob :: string
  sc_max :: int
  sc_found :: "string \<Rightarrow> bool"

text \<open>The lines a \<open>bufio.Scanner\<close> yields: a last empty one is none, and a carriage return at the end of a line goes. A
  line that fills its buffer of a mebibyte ends the scan with an error.\<close>

definition scan_max :: nat where "scan_max = 2 ^ 20"

definition raw_lines :: "string \<Rightarrow> string list" where
  "raw_lines data = (let ls = Split (CHR 0x0A) data in if last ls = [] then butlast ls else ls)"

definition drop_cr :: "string \<Rightarrow> string" where
  "drop_cr l = (if l \<noteq> [] \<and> last l = CHR 0x0D then butlast l else l)"

definition full_state :: "searchCall \<Rightarrow> searchState \<Rightarrow> bool" where
  "full_state c st \<longleftrightarrow> int (length (ss_matches st)) \<ge> sc_max c"

fun scan_lines :: "executor \<Rightarrow> searchCall \<Rightarrow> path \<Rightarrow> nat \<Rightarrow> string list \<Rightarrow> searchState \<Rightarrow> flow \<times> searchState" where
  "scan_lines ex c p lineNumber [] st = (Continue, st)"
| "scan_lines ex c p lineNumber (raw # rest) st =
    (if length raw \<ge> scan_max then (Continue, st\<lparr>ss_errors := appendAccessError p LineTooLong (ss_errors st)\<rparr>)
     else let line = drop_cr raw
          in if \<not> sc_found c line then scan_lines ex c p (Suc lineNumber) rest st
             else let remaining = int (ex_maxResponse ex) - ss_bytes st
                  in if remaining \<le> 0 then (SkipAll, st\<lparr>ss_truncated := True\<rparr>)
                     else let shown = fst (truncateUTF8 line (nat (min 4096 remaining)));
                              st1 = st\<lparr>ss_matches := ss_matches st @ [\<lparr>sm_Path = p, sm_Line = lineNumber, sm_Text = shown\<rparr>],
                                       ss_bytes := ss_bytes st + int (length (path_text p) + length shown + 64)\<rparr>
                          in if full_state c st1 then (SkipAll, st1\<lparr>ss_truncated := True\<rparr>)
                             else scan_lines ex c p (Suc lineNumber) rest st1)"

definition search_file :: "executor \<Rightarrow> fs \<Rightarrow> searchCall \<Rightarrow> path \<Rightarrow> searchState \<Rightarrow> flow \<times> searchState" where
  "search_file ex fs c p st =
    (case resolvePath fs (ex_roots ex) (path_text p) of
       Inl e \<Rightarrow> (Continue, st\<lparr>ss_errors := appendAccessError p (NotResolved e) (ss_errors st)\<rparr>)
     | Inr safePath \<Rightarrow>
        (case Stat fs safePath of
           Inr (File content) \<Rightarrow>
             (case readLimitedFile ex content maxSearchFileBytes of
                Inl tooLarge \<Rightarrow> (Continue, if tooLarge then st
                   else st\<lparr>ss_errors := appendAccessError safePath NotOpened (ss_errors st)\<rparr>)
              | Inr data \<Rightarrow> if isBinary data then (Continue, st) else scan_lines ex c safePath 1 (raw_lines data) st)
         | _ \<Rightarrow> (Continue, st\<lparr>ss_errors := appendAccessError safePath NotOpened (ss_errors st)\<rparr>)))"

definition search_visit :: "executor \<Rightarrow> walkEnv \<Rightarrow> fs \<Rightarrow> searchCall \<Rightarrow> walkEvent \<Rightarrow> searchState \<Rightarrow> flow \<times> searchState" where
  "search_visit ex w fs c ev st =
    (case ev of
       Unreadable p \<Rightarrow>
         if we_cancelled w p then (Cancelled, st)
         else (Continue, st\<lparr>ss_errors := appendAccessError p NotReadable (ss_errors st)\<rparr>)
     | Entry p n \<Rightarrow>
         if we_cancelled w p then (Cancelled, st)
         else if n = Dir
         then (if p \<noteq> sc_root c \<and> (skippedDirectory (last p) \<or> samePath ex p (we_logDir w)) then (SkipDir, st) else (Continue, st))
         else if is_link n then (Continue, st)
         else if full_state c st then (SkipAll, st\<lparr>ss_truncated := True\<rparr>)
         else if sc_glob c \<noteq> [] \<and> we_Match w (sc_glob c) (last p) \<noteq> Some True then (Continue, st)
         else search_file ex fs c p st)"

record searchResult =
  sr_path :: path
  sr_matches :: "searchMatch list"
  sr_errors :: accessErrors
  sr_truncated :: bool

definition search_call :: "executor \<Rightarrow> walkEnv \<Rightarrow> object \<Rightarrow> fs \<Rightarrow> searchCall result" where
  "search_call ex w args fs =
    bind_result (onlyArgs args [''path'', ''pattern'', ''glob'', ''regex'', ''max_results'']) (\<lambda>_.
    bind_result (requiredString args ''path'') (\<lambda>rawRoot.
    bind_result (resolvePath fs (ex_roots ex) rawRoot) (\<lambda>root.
    bind_result (requiredString args ''pattern'') (\<lambda>pat.
    bind_result (optionalString args ''glob'') (\<lambda>glob.
      if glob \<noteq> [] \<and> we_Match w glob ''probe'' = None then Inl (toolErr ''invalid_arguments'' ''invalid glob'')
      else bind_result (optionalInt args ''max_results'' 200 1 5000) (\<lambda>maxResults.
           bind_result (optionalBool args ''regex'') (\<lambda>(useRegex, _).
             case (if useRegex then we_Compile w pat else Some (\<lambda>line. Contains line pat)) of
               None \<Rightarrow> Inl (toolErr ''invalid_arguments'' ''invalid regular expression'')
             | Some found \<Rightarrow> Inr \<lparr>sc_root = root, sc_pattern = pat, sc_glob = glob, sc_max = maxResults, sc_found = found\<rparr>)))))))"

definition searchFiles :: "executor \<Rightarrow> walkEnv \<Rightarrow> object \<Rightarrow> fs \<Rightarrow> searchResult result" where
  "searchFiles ex w args fs =
    bind_result (search_call ex w args fs) (\<lambda>c.
      case WalkDir w fs (search_visit ex w fs c) (sc_root c)
             \<lparr>ss_matches = [], ss_errors = [], ss_truncated = False, ss_bytes = 0\<rparr> of
        (True, _) \<Rightarrow> Inl (toolErr ''io_error'' ''search files'')
      | (False, st) \<Rightarrow> Inr \<lparr>sr_path = sc_root c, sr_matches = ss_matches st, sr_errors = ss_errors st, sr_truncated = ss_truncated st\<rparr>)"

section \<open>Finding\<close>

record foundEntry =
  fe_path :: path
  fe_relative :: string
  fe_type :: string
  fe_size :: int
  fe_modified :: string

record findState =
  fs_entries :: "foundEntry list"
  fs_errors :: accessErrors
  fs_bytes :: nat
  fs_truncated :: bool

record findCall =
  fc_root :: path
  fc_glob :: string
  fc_kind :: string
  fc_max :: int

definition wanted_kind :: "fs \<Rightarrow> string \<Rightarrow> path \<Rightarrow> node \<Rightarrow> bool" where
  "wanted_kind fs k p n =
    (let isDirectory = (if is_link n then (case Stat fs p of Inr target \<Rightarrow> target = Dir | Inl _ \<Rightarrow> False) else n = Dir)
     in \<not> (k = ''file'' \<and> (isDirectory \<or> fileType n = ''symlink'') \<or> k = ''directory'' \<and> \<not> isDirectory))"

definition find_visit :: "executor \<Rightarrow> walkEnv \<Rightarrow> fs \<Rightarrow> findCall \<Rightarrow> walkEvent \<Rightarrow> findState \<Rightarrow> flow \<times> findState" where
  "find_visit ex w fs c ev st =
    (case ev of
       Unreadable p \<Rightarrow>
         if we_cancelled w p then (Cancelled, st)
         else (Continue, st\<lparr>fs_errors := appendAccessError p NotReadable (fs_errors st)\<rparr>)
     | Entry p n \<Rightarrow>
         if we_cancelled w p then (Cancelled, st)
         else if p = fc_root c then (Continue, st)
         else if n = Dir \<and> (skippedDirectory (last p) \<or> samePath ex p (we_logDir w)) then (SkipDir, st)
         else if we_Match w (fc_glob c) (last p) \<noteq> Some True then (Continue, st)
         else if we_vanished w p then (Continue, st\<lparr>fs_errors := appendAccessError p NoInformation (fs_errors st)\<rparr>)
         else if \<not> wanted_kind fs (fc_kind c) p n then (Continue, st)
         else let relative = relative_text (Rel (fc_root c) p);
                  estimated = length (path_text p) + length relative + 128
              in if int (length (fs_entries st)) \<ge> fc_max c \<or> fs_bytes st + estimated > ex_maxResponse ex
                 then (SkipAll, st\<lparr>fs_truncated := True\<rparr>)
                 else (Continue, st\<lparr>fs_entries := fs_entries st @ [\<lparr>fe_path = p, fe_relative = relative, fe_type = fileType n,
                         fe_size = entry_size w p n, fe_modified = we_modified w p\<rparr>],
                         fs_bytes := fs_bytes st + estimated\<rparr>))"

record findResult =
  fr_path :: path
  fr_entries :: "foundEntry list"
  fr_errors :: accessErrors
  fr_truncated :: bool

definition find_call :: "executor \<Rightarrow> walkEnv \<Rightarrow> object \<Rightarrow> fs \<Rightarrow> findCall result" where
  "find_call ex w args fs =
    bind_result (onlyArgs args [''path'', ''name_glob'', ''kind'', ''max_results'']) (\<lambda>_.
    bind_result (requiredString args ''path'') (\<lambda>rawRoot.
    bind_result (resolvePath fs (ex_roots ex) rawRoot) (\<lambda>root.
    case Stat fs root of
      Inl e \<Rightarrow> Inl (pathError ''inspect root'' e)
    | Inr info \<Rightarrow>
       if info \<noteq> Dir then Inl (toolErr ''not_directory'' ''path is not a directory'')
       else bind_result (optionalString args ''name_glob'') (\<lambda>given.
         let glob = (if given = [] then ''*'' else given)
         in if we_Match w glob ''probe'' = None then Inl (toolErr ''invalid_arguments'' ''invalid name_glob'')
            else bind_result (optionalString args ''kind'') (\<lambda>given_kind.
              let k = (if given_kind = [] then ''file'' else given_kind)
              in if k \<notin> {''file'', ''directory'', ''any''}
                 then Inl (toolErr ''invalid_arguments'' ''kind must be file, directory, or any'')
                 else bind_result (optionalInt args ''max_results'' 1000 1 10000) (\<lambda>maxResults.
                   Inr \<lparr>fc_root = root, fc_glob = glob, fc_kind = k, fc_max = maxResults\<rparr>))))))"

definition findFiles :: "executor \<Rightarrow> walkEnv \<Rightarrow> object \<Rightarrow> fs \<Rightarrow> findResult result" where
  "findFiles ex w args fs =
    bind_result (find_call ex w args fs) (\<lambda>c.
      case WalkDir w fs (find_visit ex w fs c) (fc_root c) \<lparr>fs_entries = [], fs_errors = [], fs_bytes = 0, fs_truncated = False\<rparr> of
        (True, _) \<Rightarrow> Inl (toolErr ''io_error'' ''find files'')
      | (False, st) \<Rightarrow> Inr \<lparr>fr_path = fc_root c,
          fr_entries = sort_key (\<lambda>e. (ex_lower ex (fe_relative e), fe_relative e)) (fs_entries st),
          fr_errors = fs_errors st, fr_truncated = fs_truncated st\<rparr>)"

end
