(* ===== verification/FileListingFacts.thy ===== *)
theory FileListingFacts
  imports FileListing
begin

text \<open>What the listing tools return. A walk with a callback that leaves out directories by their path is a run over a
  list of events fixed beforehand, and that list holds exactly the entries under the start with no directory left out or
  unreadable above them; with it \<open>findFiles\<close> is shown to report all and only the entries asked for, and \<open>searchFiles\<close> to
  report only lines that are there, in files under an allowed root.\<close>

section \<open>A walk as a list of events\<close>

primrec events :: "nat \<Rightarrow> walkEnv \<Rightarrow> fs \<Rightarrow> (path \<Rightarrow> bool) \<Rightarrow> path \<times> node \<Rightarrow> walkEvent list" where
  "events 0 w fs skip e = []"
| "events (Suc n) w fs skip e = Entry (fst e) (snd e) #
    (if snd e \<noteq> Dir \<or> skip (fst e) then []
     else if we_unreadable w (fst e) then [Unreadable (fst e)]
     else concat (map (events n w fs skip) (ReadDir fs (fst e))))"

primrec run_events :: "('e \<Rightarrow> 's \<Rightarrow> flow \<times> 's) \<Rightarrow> 'e list \<Rightarrow> 's \<Rightarrow> flow \<times> 's" where
  "run_events visit [] st = (Continue, st)"
| "run_events visit (e # es) st =
    (case visit e st of
       (Continue, st1) \<Rightarrow> run_events visit es st1
     | (SkipDir, st1) \<Rightarrow> run_events visit es st1
     | (fl, st1) \<Rightarrow> (fl, st1))"

lemma run_events_append:
  "run_events visit (es @ fs) st =
    (case run_events visit es st of (Continue, st1) \<Rightarrow> run_events visit fs st1 | r \<Rightarrow> r)"
  by (induction es arbitrary: st) (auto split: prod.splits flow.splits)

lemma run_events_flow: "fst (run_events visit es st) \<noteq> SkipDir"
  by (induction es arbitrary: st) (auto split: prod.splits flow.splits)

lemma run_events_inv:
  "(\<And>e st. e \<in> set es \<Longrightarrow> P st \<Longrightarrow> P (snd (visit e st))) \<Longrightarrow> P st \<Longrightarrow> P (snd (run_events visit es st))"
proof (induction es arbitrary: st)
  case (Cons e es)
  obtain fl st1 where v: "visit e st = (fl, st1)" by (cases "visit e st")
  have "P (snd (visit e st))" using Cons.prems by simp
  then have "P st1" using v by simp
  then show ?case using Cons.IH [of st1] Cons.prems(1) v by (cases fl) auto
qed simp

text \<open>The callbacks skip exactly the directories of a predicate, unless the caller has left.\<close>

definition skips_by :: "(path \<Rightarrow> bool) \<Rightarrow> (walkEvent \<Rightarrow> 's \<Rightarrow> flow \<times> 's) \<Rightarrow> bool" where
  "skips_by skip visit \<longleftrightarrow> (\<forall>ev st. (fst (visit ev st) = SkipDir \<longrightarrow> (\<exists>p. ev = Entry p Dir \<and> skip p))
     \<and> (\<forall>p. ev = Entry p Dir \<longrightarrow> skip p \<longrightarrow> fst (visit ev st) \<noteq> Continue))"

lemma skips_byI:
  assumes "\<And>p n st. fst (visit (Entry p n) st) = SkipDir \<Longrightarrow> n = Dir \<and> skip p"
    and "\<And>p st. fst (visit (Unreadable p) st) \<noteq> SkipDir"
    and "\<And>p st. skip p \<Longrightarrow> fst (visit (Entry p Dir) st) \<noteq> Continue"
  shows "skips_by skip visit"
  unfolding skips_by_def using assms by (metis walkEvent.exhaust)

lemma walk_each_events:
  assumes "\<And>e st. e \<in> set es \<Longrightarrow> f e st = run_events visit (g e) st"
  shows "walk_each f es st = run_events visit (concat (map g es)) st"
  using assms
proof (induction es arbitrary: st)
  case (Cons e es)
  have "fst (f e st) \<noteq> SkipDir" using Cons.prems [of e st] run_events_flow by simp
  then show ?case using Cons by (auto simp: run_events_append split: prod.splits flow.splits)
qed simp

lemma walk_dir_events:
  assumes "skips_by skip visit"
  shows "walk_dir n w fs visit e st = run_events visit (events n w fs skip e) st"
proof (induction n arbitrary: e st)
  case (Suc n)
  obtain p k where e: "e = (p, k)" by (cases e)
  obtain fl st1 where v: "visit (Entry p k) st = (fl, st1)" by (cases "visit (Entry p k) st")
  have skip: "fl = SkipDir \<Longrightarrow> k = Dir \<and> skip p" "k = Dir \<Longrightarrow> skip p \<Longrightarrow> fl \<noteq> Continue"
    using assms v unfolding skips_by_def by (metis fst_conv walkEvent.inject(1))+
  have again: "fst (visit (Unreadable p) st1) \<noteq> SkipDir" using assms unfolding skips_by_def by (metis walkEvent.distinct(1))
  have children: "walk_each (walk_dir n w fs visit) (ReadDir fs p) st1
      = run_events visit (concat (map (events n w fs skip) (ReadDir fs p))) st1"
    by (rule walk_each_events) (rule Suc.IH)
  show ?case using v skip again children by (cases fl) (auto simp: e split: prod.splits flow.splits)
qed simp

lemma ReadDir_iff:
  assumes "tree fs"
  shows "(p, n) \<in> set (ReadDir fs d) \<longleftrightarrow> (\<exists>c. p = d @ [c]) \<and> node_at fs p = Some n"
proof -
  have "c \<in> set (entries_of fs d) \<longleftrightarrow> node_at fs (d @ [c]) \<noteq> None" for c
  proof
    assume "c \<in> set (entries_of fs d)"
    then obtain q m where "(q, m) \<in> set fs" "q \<noteq> []" "butlast q = d" "c = last q" by (auto simp: entries_of_def)
    then show "node_at fs (d @ [c]) \<noteq> None"
      by (simp add: node_at_def map_of_eq_None_iff image_iff) (metis append_butlast_last_id fst_conv)
  next
    assume "node_at fs (d @ [c]) \<noteq> None"
    then obtain m where "(d @ [c], m) \<in> set fs" by (auto simp: node_at_def dest: map_of_SomeD)
    then show "c \<in> set (entries_of fs d)" by (force simp: entries_of_def image_iff)
  qed
  then show ?thesis by (auto simp: ReadDir_def image_iff)
qed

text \<open>Which entries a walk meets.\<close>

definition open_path :: "walkEnv \<Rightarrow> (path \<Rightarrow> bool) \<Rightarrow> path \<Rightarrow> path \<Rightarrow> bool" where
  "open_path w skip r p \<longleftrightarrow> (\<forall>d. prefix r d \<and> strict_prefix d p \<longrightarrow> \<not> skip d \<and> \<not> we_unreadable w d)"

lemma open_path_self: "open_path w skip r r"
  by (auto simp: open_path_def)

lemma open_path_step:
  "open_path w skip r (r @ c # q) \<longleftrightarrow> \<not> skip r \<and> \<not> we_unreadable w r \<and> open_path w skip (r @ [c]) (r @ c # q)"
proof -
  have "prefix r d \<and> strict_prefix d (r @ c # q) \<longleftrightarrow> d = r \<or> (prefix (r @ [c]) d \<and> strict_prefix d (r @ c # q))" for d
  proof
    assume a: "prefix r d \<and> strict_prefix d (r @ c # q)"
    then obtain e where e: "d = r @ e" by (auto simp: prefix_def)
    then show "d = r \<or> (prefix (r @ [c]) d \<and> strict_prefix d (r @ c # q))" using a by (cases e) (auto simp: strict_prefix_def)
  qed (auto simp: strict_prefix_def prefix_def)
  then show ?thesis unfolding open_path_def by metis
qed

lemma events_exact:
  assumes "tree fs"
  shows "node_at fs r = Some k \<Longrightarrow> Entry p n \<in> set (events m w fs skip (r, k)) \<longleftrightarrow>
    node_at fs p = Some n \<and> prefix r p \<and> length p < length r + m \<and> open_path w skip r p"
proof (induction m arbitrary: r k)
  case 0
  then show ?case by (auto dest: prefix_length_le)
next
  case (Suc m)
  show ?case
  proof (cases "p = r")
    case True
    moreover have "Entry r n \<notin> set (events m w fs skip (r @ [c], k1))" if "node_at fs (r @ [c]) = Some k1" for c k1
      using Suc.IH [OF that] True by (auto dest: prefix_length_le)
    ultimately show ?thesis using Suc.prems ReadDir_iff [OF assms, of _ _ r] by (auto simp: open_path_self split: if_splits)
  next
    case False
    have "Entry p n \<in> set (events (Suc m) w fs skip (r, k)) \<longleftrightarrow> k = Dir \<and> \<not> skip r \<and> \<not> we_unreadable w r
        \<and> (\<exists>c k1. node_at fs (r @ [c]) = Some k1 \<and> Entry p n \<in> set (events m w fs skip (r @ [c], k1)))"
    proof -
      have "(\<exists>e \<in> set (ReadDir fs r). Entry p n \<in> set (events m w fs skip e)) \<longleftrightarrow>
          (\<exists>c k1. node_at fs (r @ [c]) = Some k1 \<and> Entry p n \<in> set (events m w fs skip (r @ [c], k1)))"
        using ReadDir_iff [OF assms, of _ _ r] by (auto simp: Bex_def)
      then show ?thesis using False by auto
    qed
    also have "\<dots> \<longleftrightarrow> k = Dir \<and> \<not> skip r \<and> \<not> we_unreadable w r \<and> (\<exists>c k1. node_at fs (r @ [c]) = Some k1
        \<and> node_at fs p = Some n \<and> prefix (r @ [c]) p \<and> length p < Suc (length r + m) \<and> open_path w skip (r @ [c]) p)"
      using Suc.IH by (simp cong: conj_cong)
    also have "\<dots> \<longleftrightarrow> node_at fs p = Some n \<and> prefix r p \<and> length p < length r + Suc m \<and> open_path w skip r p" (is "?l \<longleftrightarrow> ?r")
    proof
      assume ?l
      then obtain c q where "p = r @ c # q" "\<not> skip r" "\<not> we_unreadable w r" "open_path w skip (r @ [c]) p" by (auto simp: prefix_def)
      then show ?r using \<open>?l\<close> by (simp add: open_path_step)
    next
      assume r: ?r
      then obtain c q where p: "p = r @ c # q" using False by (metis prefix_def append_Nil2 neq_Nil_conv)
      then have "node_at fs r = Some Dir" using tree_prefix [OF assms, of r "c # q" n] r by simp
      moreover have "\<exists>k1. node_at fs (r @ [c]) = Some k1"
        using tree_prefix [OF assms, of "r @ [c]" q n] r p by (cases "q = []") auto
      ultimately show ?l using r Suc.prems open_path_step [of w skip r c q] unfolding p by auto
    qed
    finally show ?thesis .
  qed
qed

lemma events_unreadable:
  assumes "tree fs"
  shows "node_at fs r = Some k \<Longrightarrow> Entry p Dir \<in> set (events m w fs skip (r, k)) \<Longrightarrow> \<not> skip p \<Longrightarrow> we_unreadable w p
    \<Longrightarrow> Unreadable p \<in> set (events m w fs skip (r, k))"
proof (induction m arbitrary: r k)
  case (Suc m)
  show ?case
  proof (cases "p = r \<and> k = Dir")
    case True
    then show ?thesis using Suc.prems by simp
  next
    case False
    then obtain q j where "(q, j) \<in> set (ReadDir fs r)" "Entry p Dir \<in> set (events m w fs skip (q, j))"
      and "k = Dir" "\<not> skip r" "\<not> we_unreadable w r"
      using Suc.prems(2) by (auto split: if_splits)
    moreover from this have "node_at fs q = Some j" using ReadDir_iff [OF assms] by simp
    ultimately have "Unreadable p \<in> set (events m w fs skip (q, j))" using Suc.IH Suc.prems(3,4) by blast
    with \<open>(q, j) \<in> set (ReadDir fs r)\<close> \<open>k = Dir\<close> \<open>\<not> skip r\<close> \<open>\<not> we_unreadable w r\<close> show ?thesis by auto
  qed
qed simp

lemma depth_enough: "node_at fs p = Some n \<Longrightarrow> length p < length r + tree_depth fs"
proof -
  assume "node_at fs p = Some n"
  then have "p = [] \<or> (p, n) \<in> set fs" by (auto simp: node_at_def dest: map_of_SomeD split: if_splits)
  moreover have "(p, n) \<in> set fs \<Longrightarrow> length p \<le> foldr (\<lambda>(p, _) n. max (length p) n) fs 0" by (induction fs) fastforce+
  ultimately show ?thesis by (auto simp: tree_depth_def)
qed

lemma WalkDir_run:
  assumes "skips_by skip visit" "tree fs" "physical fs r"
  shows "WalkDir w fs visit r st =
    (let (fl, st1) = run_events visit (events (tree_depth fs) w fs skip (r, the (node_at fs r))) st in (fl = Cancelled, st1))"
  using walk_dir_events [OF assms(1)] Lstat_physical [OF assms(2,3)] by (simp add: WalkDir_def)

lemma walk_entries:
  assumes "tree fs" "physical fs r"
  shows "Entry p n \<in> set (events (tree_depth fs) w fs skip (r, the (node_at fs r))) \<longleftrightarrow>
    node_at fs p = Some n \<and> prefix r p \<and> open_path w skip r p"
proof -
  obtain k where "node_at fs r = Some k" using assms(2) by (auto simp: physical_def)
  then show ?thesis using events_exact [OF assms(1)] depth_enough [of fs p n r] by auto
qed

section \<open>Finding\<close>

definition skipped_at :: "executor \<Rightarrow> walkEnv \<Rightarrow> path \<Rightarrow> path \<Rightarrow> bool" where
  "skipped_at ex w start p \<longleftrightarrow> p \<noteq> start \<and> (skippedDirectory (last p) \<or> samePath ex p (we_logDir w))"

definition found_entry :: "walkEnv \<Rightarrow> findCall \<Rightarrow> path \<Rightarrow> node \<Rightarrow> foundEntry" where
  "found_entry w c p n = \<lparr>fe_path = p, fe_relative = relative_text (Rel (fc_root c) p), fe_type = fileType n,
     fe_size = entry_size w p n, fe_modified = we_modified w p\<rparr>"

definition asked_for :: "executor \<Rightarrow> walkEnv \<Rightarrow> fs \<Rightarrow> findCall \<Rightarrow> path \<Rightarrow> node \<Rightarrow> bool" where
  "asked_for ex w fs c p n \<longleftrightarrow> p \<noteq> fc_root c \<and> \<not> (n = Dir \<and> skipped_at ex w (fc_root c) p)
     \<and> we_Match w (fc_glob c) (last p) = Some True \<and> wanted_kind fs (fc_kind c) p n"

definition picks :: "executor \<Rightarrow> walkEnv \<Rightarrow> fs \<Rightarrow> findCall \<Rightarrow> walkEvent \<Rightarrow> foundEntry list" where
  "picks ex w fs c ev = (case ev of Unreadable p \<Rightarrow> [] | Entry p n \<Rightarrow> if asked_for ex w fs c p n then [found_entry w c p n] else [])"

definition undisturbed :: "findState \<Rightarrow> bool" where
  "undisturbed st \<longleftrightarrow> \<not> fs_truncated st \<and> fs_errors st = []"

lemma find_skips: "skips_by (skipped_at ex w (fc_root c)) (find_visit ex w fs c)"
proof (rule skips_byI)
  show "n = Dir \<and> skipped_at ex w (fc_root c) p" if "fst (find_visit ex w fs c (Entry p n) st) = SkipDir" for p n st
    using that by (simp add: find_visit_def skipped_at_def Let_def split: if_split_asm)
qed (auto simp: find_visit_def skipped_at_def)

lemma find_visit_step:
  assumes "undisturbed (snd (find_visit ex w fs c ev st))" "fst (find_visit ex w fs c ev st) \<noteq> Cancelled"
  shows "undisturbed st \<and> fst (find_visit ex w fs c ev st) \<in> {Continue, SkipDir} \<and> (\<forall>p. ev \<noteq> Unreadable p)
    \<and> fs_entries (snd (find_visit ex w fs c ev st)) = fs_entries st @ picks ex w fs c ev"
  using assms
  by (cases ev) (auto simp: find_visit_def undisturbed_def picks_def asked_for_def skipped_at_def found_entry_def appendAccessError_def Let_def
      split: if_split_asm)

lemma find_run:
  "undisturbed (snd (run_events (find_visit ex w fs c) evs st)) \<Longrightarrow> fst (run_events (find_visit ex w fs c) evs st) \<noteq> Cancelled
   \<Longrightarrow> undisturbed st \<and> (\<forall>p. Unreadable p \<notin> set evs)
     \<and> fs_entries (snd (run_events (find_visit ex w fs c) evs st)) = fs_entries st @ concat (map (picks ex w fs c) evs)"
proof (induction evs arbitrary: st)
  case (Cons ev evs)
  obtain fl st1 where v: "find_visit ex w fs c ev st = (fl, st1)" by (cases "find_visit ex w fs c ev st")
  show ?case
  proof (cases "fl \<in> {Continue, SkipDir}")
    case True
    then have "run_events (find_visit ex w fs c) (ev # evs) st = run_events (find_visit ex w fs c) evs st1" using v by auto
    moreover from this Cons.IH [of st1] Cons.prems have "undisturbed st1 \<and> (\<forall>p. Unreadable p \<notin> set evs)
      \<and> fs_entries (snd (run_events (find_visit ex w fs c) evs st1)) = fs_entries st1 @ concat (map (picks ex w fs c) evs)" by simp
    ultimately show ?thesis using find_visit_step [of ex w fs c ev st] v True by auto
  next
    case False
    then have "undisturbed (snd (find_visit ex w fs c ev st))" "fst (find_visit ex w fs c ev st) \<noteq> Cancelled"
      using Cons.prems v by (auto split: flow.splits)
    then show ?thesis using find_visit_step [of ex w fs c ev st] v False by auto
  qed
qed simp

lemma resolved_physical:
  assumes "resolvePath fs rc raw = Inr p" "tree fs" "links_clean fs" "Stat fs p = Inr n"
  shows "physical fs p \<and> node_at fs p = Some n"
proof -
  obtain q rest where r: "p = q @ rest" "physical fs q" "rest \<noteq> [] \<longrightarrow> missing fs q (hd rest)"
    using resolved_existing(1) [OF assms(1-3)] by (auto simp: existing_part_def)
  have "rest = []"
  proof (cases rest)
    case (Cons c cs)
    then show ?thesis using Stat_missing [OF assms(2) r(2), of c cs] r assms(4) by simp
  qed
  then have "physical fs p" using r by simp
  then show ?thesis using Stat_physical [OF assms(2)] assms(4) by (auto simp: physical_def)
qed

lemma find_call_Inr:
  "find_call ex w args fs = Inr c \<Longrightarrow> (\<exists>raw. resolvePath fs (ex_roots ex) raw = Inr (fc_root c)) \<and> Stat fs (fc_root c) = Inr Dir
     \<and> we_Match w (fc_glob c) ''probe'' \<noteq> None \<and> fc_kind c \<in> {''file'', ''directory'', ''any''}"
  by (auto simp: find_call_def result_Inr Let_def split: if_split_asm)

text \<open>C13: an answer of \<open>findFiles\<close> that is neither cut off nor names an error is exact: it lists, each with its type and size, all
  entries under the starting directory, and only those, whose name matches, whose kind is the one asked for, which are not
  themselves directories left out, and which have no directory left out between them and the start; every directory on the
  way could be read. The list is in the order of the lower-case relative paths.\<close>

theorem findFiles_exact:
  assumes "tree fs" "links_clean fs" "findFiles ex w args fs = Inr r" "\<not> fr_truncated r" "fr_errors r = []"
  shows "\<exists>c. find_call ex w args fs = Inr c \<and> fr_path r = fc_root c
    \<and> set (fr_entries r) = {found_entry w c p n | p n. node_at fs p = Some n \<and> prefix (fc_root c) p \<and> asked_for ex w fs c p n
          \<and> (\<forall>d. prefix (fc_root c) d \<and> strict_prefix d p \<longrightarrow> \<not> skipped_at ex w (fc_root c) d)}
    \<and> sorted (map (\<lambda>e. (ex_lower ex (fe_relative e), fe_relative e)) (fr_entries r))"
proof -
  let ?z = "\<lparr>fs_entries = [], fs_errors = [], fs_bytes = 0, fs_truncated = False\<rparr>"
  obtain c where c: "find_call ex w args fs = Inr c" using assms(3) by (auto simp: findFiles_def bind_result_Inr)
  let ?skip = "skipped_at ex w (fc_root c)" and ?key = "\<lambda>e. (ex_lower ex (fe_relative e), fe_relative e)"
  have root: "physical fs (fc_root c)" "node_at fs (fc_root c) = Some Dir"
    using find_call_Inr [OF c] resolved_physical [OF _ assms(1,2)] by blast+
  let ?evs = "events (tree_depth fs) w fs ?skip (fc_root c, the (node_at fs (fc_root c)))"
  obtain fl st where run: "run_events (find_visit ex w fs c) ?evs ?z = (fl, st)" by (cases "run_events (find_visit ex w fs c) ?evs ?z")
  have walk: "WalkDir w fs (find_visit ex w fs c) (fc_root c) ?z = (fl = Cancelled, st)"
    using WalkDir_run [OF find_skips assms(1) root(1)] run by (simp add: Let_def)
  have fl: "fl \<noteq> Cancelled"
    and r: "r = \<lparr>fr_path = fc_root c, fr_entries = sort_key ?key (fs_entries st), fr_errors = fs_errors st, fr_truncated = fs_truncated st\<rparr>"
    using assms(3) c walk by (auto simp: findFiles_def split: if_splits bool.splits)
  have "undisturbed st" using assms(4,5) r by (simp add: undisturbed_def)
  with find_run [of ex w fs c ?evs ?z] run fl have got: "fs_entries st = concat (map (picks ex w fs c) ?evs)"
    and readable: "\<forall>p. Unreadable p \<notin> set ?evs" by simp_all
  note met = walk_entries [OF assms(1) root(1), of _ _ w ?skip]
  have closed: "open_path w ?skip (fc_root c) p \<longleftrightarrow> (\<forall>d. prefix (fc_root c) d \<and> strict_prefix d p \<longrightarrow> \<not> ?skip d)"
    if "prefix (fc_root c) p" "node_at fs p = Some n" for p n
  proof -
    have "\<not> we_unreadable w d" if d: "prefix (fc_root c) d" "strict_prefix d p" "\<forall>d. prefix (fc_root c) d \<and> strict_prefix d p \<longrightarrow> \<not> ?skip d" for d
      using d
    proof (induction d rule: length_induct)
      case (1 d)
      have "node_at fs d = Some Dir"
        using 1(3) \<open>node_at fs p = Some n\<close> tree_prefix [OF assms(1)] by (metis prefix_def strict_prefix_def append_Nil2)
      moreover have "open_path w ?skip (fc_root c) d"
        unfolding open_path_def using 1 by (meson prefix_length_less prefix_order.less_trans)
      ultimately have "Entry d Dir \<in> set ?evs" using met 1(2) by blast
      moreover have "\<not> ?skip d" using 1 by blast
      ultimately show ?case using readable events_unreadable [OF assms(1), of "fc_root c" Dir d] root(2) by auto
    qed
    then show ?thesis unfolding open_path_def by blast
  qed
  have "set (fr_entries r) = {found_entry w c p n | p n. Entry p n \<in> set ?evs \<and> asked_for ex w fs c p n}"
    unfolding r using got by (fastforce simp: picks_def split: walkEvent.splits if_splits)
  also have "\<dots> = {found_entry w c p n | p n. node_at fs p = Some n \<and> prefix (fc_root c) p \<and> asked_for ex w fs c p n
      \<and> (\<forall>d. prefix (fc_root c) d \<and> strict_prefix d p \<longrightarrow> \<not> ?skip d)}"
    using met closed by blast
  finally show ?thesis using c r by (auto simp: sorted_sort_key)
qed

definition example_walk :: walkEnv where
  "example_walk = \<lparr>we_logDir = [''home'', ''me'', ''logs''], we_unreadable = (\<lambda>_. False), we_vanished = (\<lambda>_. False), we_cancelled = (\<lambda>_. False),
     we_size = (\<lambda>_. 0), we_modified = (\<lambda>_. []), we_Match = (\<lambda>glob name. Some (glob = ''*'' \<or> glob = name)), we_Compile = (\<lambda>_. None)\<rparr>"

definition find_args :: object where
  "find_args = [(''path'', JStr ''/home/me''), (''name_glob'', JStr ''a.txt'')]"

lemma example_finding:
  "case findFiles example_executor example_walk find_args example_fs of
     Inl _ \<Rightarrow> False | Inr r \<Rightarrow> map fe_path (fr_entries r) = [[''home'', ''me'', ''a.txt'']] \<and> \<not> fr_truncated r \<and> fr_errors r = []"
  by code_simp

theorem findFiles_exact_witness:
  "\<exists>r c. findFiles example_executor example_walk find_args example_fs = Inr r \<and> fr_entries r \<noteq> []
     \<and> set (fr_entries r) = {found_entry example_walk c p n | p n. node_at example_fs p = Some n \<and> prefix (fc_root c) p
          \<and> asked_for example_executor example_walk example_fs c p n
          \<and> (\<forall>d. prefix (fc_root c) d \<and> strict_prefix d p \<longrightarrow> \<not> skipped_at example_executor example_walk (fc_root c) d)}"
proof -
  obtain r where r: "findFiles example_executor example_walk find_args example_fs = Inr r"
    "map fe_path (fr_entries r) = [[''home'', ''me'', ''a.txt'']]" "\<not> fr_truncated r" "fr_errors r = []"
    using example_finding by (cases "findFiles example_executor example_walk find_args example_fs") simp_all
  from r(2) have "fr_entries r \<noteq> []" by auto
  with findFiles_exact [OF example_fs_tree r(1,3,4)] r(1) show ?thesis by blast
qed

section \<open>Searching\<close>

definition match_ok :: "executor \<Rightarrow> fs \<Rightarrow> searchCall \<Rightarrow> searchMatch \<Rightarrow> bool" where
  "match_ok ex fs c m \<longleftrightarrow> (\<exists>data. physical fs (sm_Path m) \<and> node_at fs (sm_Path m) = Some (File data)
     \<and> (rc_allowAll (ex_roots ex) \<or> (\<exists>base \<in> set (rc_allowed (ex_roots ex)). prefix base (sm_Path m)))
     \<and> length data \<le> maxSearchFileBytes \<and> \<not> isBinary data
     \<and> 1 \<le> sm_Line m \<and> sm_Line m \<le> length (raw_lines data)
     \<and> sc_found c (drop_cr (raw_lines data ! (sm_Line m - 1)))
     \<and> prefix (sm_Text m) (drop_cr (raw_lines data ! (sm_Line m - 1))) \<and> length (sm_Text m) \<le> 4096)"

definition match_bytes :: "searchMatch list \<Rightarrow> int" where
  "match_bytes ms = (\<Sum>m \<leftarrow> ms. int (length (path_text (sm_Path m)) + length (sm_Text m) + 64))"

lemma match_bytes_snoc [simp]:
  "match_bytes (ms @ [m]) = match_bytes ms + int (length (path_text (sm_Path m)) + length (sm_Text m) + 64)"
  by (simp add: match_bytes_def)

definition search_ok :: "executor \<Rightarrow> fs \<Rightarrow> searchCall \<Rightarrow> searchState \<Rightarrow> bool" where
  "search_ok ex fs c st \<longleftrightarrow> list_all (match_ok ex fs c) (ss_matches st) \<and> int (length (ss_matches st)) \<le> sc_max c
     \<and> length (ss_errors st) \<le> 100 \<and> ss_bytes st = match_bytes (ss_matches st)
     \<and> (ss_matches st = [] \<or> match_bytes (ss_matches st)
           \<le> int (ex_maxResponse ex) + int (length (path_text (sm_Path (last (ss_matches st))))) + 64)"

lemma truncateUTF8_prefix: "prefix (fst (truncateUTF8 s n)) s"
  by (simp add: truncateUTF8_def take_is_prefix)

lemma truncateUTF8_fits: "length (fst (truncateUTF8 s n)) \<le> n"
  using valid_cut_le [of n s] by (auto simp: truncateUTF8_def)

lemma append_error_bound: "length es \<le> 100 \<Longrightarrow> length (appendAccessError p r es) \<le> 100"
  by (simp add: appendAccessError_def)

lemma search_ok_error: "search_ok ex fs c st \<Longrightarrow> search_ok ex fs c (st\<lparr>ss_errors := appendAccessError p r (ss_errors st)\<rparr>)"
  by (simp add: search_ok_def append_error_bound)

lemma search_ok_cut: "search_ok ex fs c st \<Longrightarrow> search_ok ex fs c (st\<lparr>ss_truncated := True\<rparr>)"
  by (simp add: search_ok_def)

text \<open>A line that is added: its file and number are right, and its text fits.\<close>

lemma search_ok_add:
  assumes "search_ok ex fs c st" "\<not> full_state c st" "0 < int (ex_maxResponse ex) - ss_bytes st"
    and "match_ok ex fs c m" "int (length (sm_Text m)) \<le> int (ex_maxResponse ex) - ss_bytes st"
  shows "search_ok ex fs c (st\<lparr>ss_matches := ss_matches st @ [m],
      ss_bytes := ss_bytes st + int (length (path_text (sm_Path m)) + length (sm_Text m) + 64)\<rparr>)"
  using assms by (auto simp: search_ok_def full_state_def)

definition good_file :: "executor \<Rightarrow> fs \<Rightarrow> path \<Rightarrow> string \<Rightarrow> bool" where
  "good_file ex fs p data \<longleftrightarrow> physical fs p \<and> node_at fs p = Some (File data)
     \<and> (rc_allowAll (ex_roots ex) \<or> (\<exists>base \<in> set (rc_allowed (ex_roots ex)). prefix base p))
     \<and> length data \<le> maxSearchFileBytes \<and> \<not> isBinary data"

lemma scan_lines_ok:
  "good_file ex fs p data \<Longrightarrow> search_ok ex fs c st \<Longrightarrow> \<not> full_state c st \<Longrightarrow> raw_lines data = before @ ls \<Longrightarrow> n = Suc (length before)
    \<Longrightarrow> search_ok ex fs c (snd (scan_lines ex c p n ls st))"
proof (induction ex c p n ls st arbitrary: before rule: scan_lines.induct)
  case (2 ex c p n raw rest st)
  let ?line = "drop_cr raw" and ?rem = "int (ex_maxResponse ex) - ss_bytes st"
  let ?m = "\<lparr>sm_Path = p, sm_Line = n, sm_Text = fst (truncateUTF8 (drop_cr raw) (nat (min 4096 ?rem)))\<rparr>"
  let ?st1 = "st\<lparr>ss_matches := ss_matches st @ [?m], ss_bytes := ss_bytes st + int (length (path_text p) + length (sm_Text ?m) + 64)\<rparr>"
  have rest: "raw_lines data = (before @ [raw]) @ rest" "Suc n = Suc (length (before @ [raw]))" using 2(6,7) by simp_all
  show ?case
  proof (cases "length raw < scan_max \<and> sc_found c ?line \<and> 0 < ?rem")
    case True
    have "match_ok ex fs c ?m"
      using 2(3) True 2(6,7) truncateUTF8_fits [of ?line "nat (min 4096 ?rem)"]
      by (auto simp: match_ok_def good_file_def truncateUTF8_prefix nth_append intro!: exI [of _ data])
    moreover have "int (length (sm_Text ?m)) \<le> ?rem"
      using truncateUTF8_fits [of ?line "nat (min 4096 ?rem)"] True by (simp add: le_nat_iff)
    ultimately have "search_ok ex fs c ?st1" using search_ok_add [OF 2(4,5), of ?m] True by simp
    then show ?thesis using True 2(2) [OF _ refl _ refl _ refl refl _ 2(3), of "before @ [raw]"] rest
      by (auto simp: Let_def search_ok_cut simp del: match_bytes_snoc)
  next
    case False
    then show ?thesis using 2(1) [OF _ refl _ 2(3,4,5) rest] 2(4) by (auto simp: Let_def search_ok_cut search_ok_error)
  qed
qed simp

lemma search_file_ok:
  assumes "tree fs" "links_clean fs" "search_ok ex fs c st" "\<not> full_state c st"
  shows "search_ok ex fs c (snd (search_file ex fs c p st))"
proof (cases "resolvePath fs (ex_roots ex) (path_text p)")
  case (Inl e)
  then show ?thesis using assms(3) by (simp add: search_file_def search_ok_error)
next
  case (Inr q)
  show ?thesis
  proof (cases "\<exists>content. Stat fs q = Inr (File content)")
    case True
    then obtain content where content: "Stat fs q = Inr (File content)" by blast
    have at: "physical fs q" "node_at fs q = Some (File content)" using resolved_physical [OF Inr assms(1,2) content] by simp_all
    have inside: "rc_allowAll (ex_roots ex) \<or> (\<exists>base \<in> set (rc_allowed (ex_roots ex)). prefix base q)"
      using resolvePath_sound [OF Inr assms(1,2)] by blast
    show ?thesis
    proof (cases "readLimitedFile ex content maxSearchFileBytes")
      case (Inl b)
      then show ?thesis using assms(3) content \<open>resolvePath _ _ _ = Inr q\<close> by (simp add: search_file_def search_ok_error)
    next
      case (Inr data)
      then have "data = content" "length data \<le> maxSearchFileBytes" by (auto simp: readLimitedFile_def split: if_splits)
      then have "good_file ex fs q data" if "\<not> isBinary data" using at inside that by (simp add: good_file_def)
      then have "search_ok ex fs c (snd (scan_lines ex c q 1 (raw_lines data) st))" if "\<not> isBinary data"
        using scan_lines_ok [OF _ assms(3,4), of q data "[]" "raw_lines data" 1] that by simp
      then show ?thesis using assms(3) content \<open>resolvePath _ _ _ = Inr q\<close> Inr by (simp add: search_file_def)
    qed
  next
    case False
    then show ?thesis using assms(3) Inr
      by (auto simp: search_file_def search_ok_error split: sum.splits node.splits)
  qed
qed

lemma search_visit_ok:
  assumes "tree fs" "links_clean fs" "search_ok ex fs c st"
  shows "search_ok ex fs c (snd (search_visit ex w fs c ev st))"
  using assms search_file_ok [OF assms] by (cases ev) (auto simp: search_visit_def search_ok_error search_ok_cut)

lemma search_skips: "skips_by (skipped_at ex w (sc_root c)) (search_visit ex w fs c)"
proof (rule skips_byI)
  have scan: "fst (scan_lines ex c p n ls st) \<noteq> SkipDir" for p n ls st
    by (induction ex c p n ls st rule: scan_lines.induct) (auto simp: Let_def)
  then have "fst (search_file ex fs c p st) \<noteq> SkipDir" for p st
    by (auto simp: search_file_def split: sum.splits node.splits)
  then show "n = Dir \<and> skipped_at ex w (sc_root c) p" if "fst (search_visit ex w fs c (Entry p n) st) = SkipDir" for p n st
    using that by (simp add: search_visit_def skipped_at_def split: if_split_asm)
qed (auto simp: search_visit_def skipped_at_def)

lemma search_call_Inr:
  "search_call ex w args fs = Inr c \<Longrightarrow> (\<exists>raw. resolvePath fs (ex_roots ex) raw = Inr (sc_root c)) \<and> 1 \<le> sc_max c \<and> sc_max c \<le> 5000"
  by (auto simp: search_call_def result_Inr case_prod_beta split: if_split_asm dest!: optionalInt_range)

lemma walk_dir_inv:
  assumes "\<And>ev st. P st \<Longrightarrow> P (snd (visit ev st))"
  shows "P st \<Longrightarrow> P (snd (walk_dir n w fs visit e st))"
proof (induction n arbitrary: e st)
  case (Suc n)
  have each: "P st \<Longrightarrow> P (snd (walk_each (walk_dir n w fs visit) es st))" for es st
  proof (induction es arbitrary: st)
    case (Cons e es)
    obtain fl st1 where v: "walk_dir n w fs visit e st = (fl, st1)" by (cases "walk_dir n w fs visit e st")
    then have "P st1" using Suc.IH [OF Cons.prems, of e] by simp
    then show ?case using Cons.IH v by (cases fl) auto
  qed simp
  obtain fl st1 where v: "visit (Entry (fst e) (snd e)) st = (fl, st1)" by (cases "visit (Entry (fst e) (snd e)) st")
  have st1: "P st1" using assms [OF Suc.prems, of "Entry (fst e) (snd e)"] v by simp
  obtain fl2 st2 where v2: "visit (Unreadable (fst e)) st1 = (fl2, st2)" by (cases "visit (Unreadable (fst e)) st1")
  have "P st2" using assms [OF st1, of "Unreadable (fst e)"] v2 by simp
  then show ?case using v v2 st1 each by (cases fl; cases fl2) auto
qed simp

lemma WalkDir_inv:
  "(\<And>ev st. P st \<Longrightarrow> P (snd (visit ev st))) \<Longrightarrow> P st \<Longrightarrow> P (snd (WalkDir w fs visit start st))"
  using walk_dir_inv [of P visit] by (auto simp: WalkDir_def split: sum.splits prod.splits) (metis snd_conv)+


definition search_args :: object where
  "search_args = [(''path'', JStr ''/home/me''), (''pattern'', JStr ''ell'')]"

definition example_searchCall :: searchCall where
  "example_searchCall = \<lparr>sc_root = [''home'', ''me''], sc_pattern = ''ell'', sc_glob = [], sc_max = 200, sc_found = (\<lambda>line. Contains line ''ell'')\<rparr>"

lemma example_search:
  "case searchFiles example_executor example_walk search_args example_fs of
     Inl _ \<Rightarrow> False | Inr r \<Rightarrow> map (\<lambda>m. (sm_Path m, sm_Line m, sm_Text m)) (sr_matches r) = [([''home'', ''me'', ''a.txt''], 1, ''hello'')]"
proof -
  let ?p = "[''home'', ''me'', ''a.txt'']" and ?st = "\<lparr>ss_matches = [], ss_errors = [], ss_truncated = False, ss_bytes = 0\<rparr>"
  have call: "search_call example_executor example_walk search_args example_fs = Inr example_searchCall"
  proof -
    have "resolvePath example_fs (ex_roots example_executor) ''/home/me'' = Inr [''home'', ''me'']" by code_simp
    then show ?thesis by (simp add: search_call_def search_args_def onlyArgs_def requiredString_def optionalString_def optionalInt_def
        optionalBool_def example_searchCall_def)
  qed
  have evs: "events (tree_depth example_fs) example_walk example_fs (skipped_at example_executor example_walk [''home'', ''me''])
      ([''home'', ''me''], the (node_at example_fs [''home'', ''me'']))
    = [Entry [''home'', ''me''] Dir, Entry ?p (File ''hello''), Entry [''home'', ''me'', ''out''] (Link True [''etc''])]" by code_simp
  have lines: "raw_lines ''hello'' = [''hello'']" "drop_cr ''hello'' = ''hello''" "Contains ''hello'' ''ell''" "\<not> isBinary ''hello''"
    "path_text ?p = ''/home/me/a.txt''" by code_simp+
  have scan: "scan_lines example_executor example_searchCall ?p 1 [''hello''] ?st
      = (Continue, ?st\<lparr>ss_matches := [\<lparr>sm_Path = ?p, sm_Line = 1, sm_Text = ''hello''\<rparr>], ss_bytes := 83\<rparr>)"
    using lines by (simp add: example_searchCall_def example_executor_def scan_max_def truncateUTF8_def full_state_def Let_def)
  have one: "search_file example_executor example_fs example_searchCall ?p ?st
      = (Continue, ?st\<lparr>ss_matches := [\<lparr>sm_Path = ?p, sm_Line = 1, sm_Text = ''hello''\<rparr>], ss_bytes := 83\<rparr>)"
    using example_paths lines scan by (simp add: search_file_def readLimitedFile_def maxSearchFileBytes_def example_executor_def)
  have phys: "physical example_fs [''home'', ''me'']"
    using example_confined(4) by (simp add: example_executor_def)
  have "WalkDir example_walk example_fs (search_visit example_executor example_walk example_fs example_searchCall) (sc_root example_searchCall) ?st
      = (False, ?st\<lparr>ss_matches := [\<lparr>sm_Path = ?p, sm_Line = 1, sm_Text = ''hello''\<rparr>], ss_bytes := 83\<rparr>)"
    using WalkDir_run [OF search_skips [of example_executor example_walk example_searchCall example_fs] example_fs_tree(1), of "[''home'', ''me'']"] phys evs one
    by (simp add: example_searchCall_def search_visit_def example_walk_def full_state_def is_link_def)
  then show ?thesis using call by (simp add: searchFiles_def example_searchCall_def)
qed


end
