(* ===== verification/RemoteBrowser.thy ===== *)
theory RemoteBrowser
  imports AgentCall Texts UrlPolicy
begin

text \<open>The remote browser, \<open>src/cmd/agent/remote_browser_mcp.go\<close>: an MCP client of its own, over HTTP, that offers the seven
  tools of another server and calls them. The server is a function from its state and a request to its state and a reply,
  none when the connection fails; what was sent is kept in order. The JSON text of a reply is read by a parser that is an
  argument, as is the lower case of a header; the identifiers of the requests come from the random source. Redirects are
  not followed, so a reply is the first one.\<close>

section \<open>Configuration\<close>

record remoteBrowserMCPConfig =
  rc_URL :: string
  rc_TokenFile :: string
  rc_Timeout :: duration

record remoteBrowserMCP =
  rm_endpoint :: browserURL
  rm_tokenFile :: string
  rm_timeout :: duration

definition newRemoteBrowserMCP :: "netlib \<Rightarrow> remoteBrowserMCPConfig \<Rightarrow> string + remoteBrowserMCP" where
  "newRemoteBrowserMCP N config =
    (case nl_Parse N (TrimSpace (rc_URL config)) of
       None \<Rightarrow> Inl ''remote browser MCP URL must be an absolute HTTP(S) URL without credentials or fragment''
     | Some u \<Rightarrow>
        if bu_Scheme u \<notin> {''http'', ''https''} \<or> bu_Host u = [] \<or> bu_hasUser u \<or> bu_Fragment u \<noteq> []
        then Inl ''remote browser MCP URL must be an absolute HTTP(S) URL without credentials or fragment''
        else Inr \<lparr>rm_endpoint = u, rm_tokenFile = rc_TokenFile config,
                  rm_timeout = (if rc_Timeout config \<le> 0 then 30 * second else rc_Timeout config)\<rparr>)"

text \<open>The token is read anew for every request.\<close>

definition remote_token :: "(string \<Rightarrow> string option) \<Rightarrow> remoteBrowserMCP \<Rightarrow> string + string" where
  "remote_token readf c =
    (if rm_tokenFile c = [] then Inl ''remote browser MCP token file is not configured''
     else case readf (rm_tokenFile c) of
       None \<Rightarrow> Inl ''read remote browser MCP token file''
     | Some b \<Rightarrow> if TrimSpace b = [] then Inl ''remote browser MCP token file is empty'' else Inr (TrimSpace b))"

section \<open>Requests\<close>

definition remoteBrowserMaxBody :: nat where "remoteBrowserMaxBody = 2 * 2 ^ 20"
definition remoteBrowserProtocolVersion :: string where "remoteBrowserProtocolVersion = ''2025-03-26''"

record remoteRequest =
  rq_url :: browserURL
  rq_token :: string
  rq_protocol :: string
  rq_session :: string
  rq_body :: object

record remoteReply =
  rp_status :: nat
  rp_session :: string
  rp_contentType :: string
  rp_body :: "string option"

record 's remoteRun =
  rr_server :: 's
  rr_sent :: "remoteRequest list"

record 's remoteWorld =
  rw_ReadFile :: "string \<Rightarrow> string option"
  rw_parse :: "string \<Rightarrow> raw_json"
  rw_ToLower :: "string \<Rightarrow> string"
  rw_Do :: "'s \<Rightarrow> remoteRequest \<Rightarrow> 's \<times> remoteReply option"

text \<open>The data lines of an event stream, joined; they must hold one object.\<close>

definition sse_lines :: "string \<Rightarrow> string list" where
  "sse_lines b = map (\<lambda>line. TrimSpace (TrimPrefix line ''data:''))
     (filter (\<lambda>line. HasPrefix line ''data:'') (Split (CHR 0x0A) (unix_lines b)))"

definition remoteBrowserSSEData :: "(string \<Rightarrow> raw_json) \<Rightarrow> string \<Rightarrow> string + string" where
  "remoteBrowserSSEData parse b =
    (let data = sse_lines b
     in if data = [] then Inl ''remote browser MCP SSE response contained no data event''
        else if unmarshal_object (parse (Join data [CHR 0x0A])) = None
        then Inl ''remote browser MCP SSE response did not contain a JSON-RPC message''
        else Inr (Join data [CHR 0x0A]))"

fun int_field :: "int \<Rightarrow> json list \<Rightarrow> int option" where
  "int_field n [] = Some n"
| "int_field n (JNull # vs) = int_field n vs"
| "int_field n (JNum q # vs) = (if q = of_int \<lfloor>q\<rfloor> \<and> - (2 ^ 63) \<le> \<lfloor>q\<rfloor> \<and> \<lfloor>q\<rfloor> < 2 ^ 63 then int_field \<lfloor>q\<rfloor> vs else None)"
| "int_field n (v # vs) = None"

text \<open>The envelope: its identifier, its result, and whether it has an error and with which message; none when it cannot be
  decoded.\<close>

record envelope =
  en_ID :: "json option"
  en_Result :: "json option"
  en_Error :: "(int \<times> string) option"

definition decode_envelope :: "raw_json \<Rightarrow> envelope option" where
  "decode_envelope b =
    (case struct_members b of
       None \<Rightarrow> None
     | Some m \<Rightarrow>
        (case pointer_field None (field ''error'' m) of
           None \<Rightarrow> None
         | Some None \<Rightarrow> Some \<lparr>en_ID = raw_field (field ''id'' m), en_Result = raw_field (field ''result'' m), en_Error = None\<rparr>
         | Some (Some e) \<Rightarrow>
            (case (int_field 0 (field ''code'' e), string_field [] (field ''message'' e)) of
               (Some code, Some message) \<Rightarrow> Some \<lparr>en_ID = raw_field (field ''id'' m), en_Result = raw_field (field ''result'' m),
                  en_Error = Some (code, message)\<rparr>
             | _ \<Rightarrow> None)))"

text \<open>What is made of the reply to a request with the identifier \<open>i\<close>.\<close>

definition remote_result :: "'s remoteWorld \<Rightarrow> string \<Rightarrow> remoteReply \<Rightarrow> string + json" where
  "remote_result W i resp =
    (if rp_status resp < 200 \<or> rp_status resp \<ge> 300 then Inl ''remote browser MCP request failed''
     else case rp_body resp of
       None \<Rightarrow> Inl ''read remote browser MCP response''
     | Some b \<Rightarrow>
        if length b > remoteBrowserMaxBody then Inl ''remote browser MCP response exceeds size limit''
        else case (if Contains (rw_ToLower W (rp_contentType resp)) ''text/event-stream''
                   then remoteBrowserSSEData (rw_parse W) b else Inr b) of
          Inl e \<Rightarrow> Inl e
        | Inr b1 \<Rightarrow>
           (case decode_envelope (rw_parse W b1) of
              None \<Rightarrow> Inl ''remote browser MCP returned unsupported JSON/SSE response''
            | Some envelope \<Rightarrow>
                if en_ID envelope \<noteq> Some (JStr i) then Inl ''remote browser MCP response id mismatch''
                else (case en_Error envelope of
                        Some (_, message) \<Rightarrow> Inl (''remote browser MCP error: '' @ message)
                      | None \<Rightarrow>
                         (case en_Result envelope of
                            None \<Rightarrow> Inl ''remote browser MCP response has no result''
                          | Some JNull \<Rightarrow> Inl ''remote browser MCP response has no result''
                          | Some result \<Rightarrow> Inr result))))"

definition request_object :: "string \<Rightarrow> object option \<Rightarrow> string option \<Rightarrow> object" where
  "request_object meth params i =
    [(''jsonrpc'', JStr ''2.0''), (''method'', JStr meth)]
    @ (case i of None \<Rightarrow> [] | Some s \<Rightarrow> [(''id'', JStr s)])
    @ (case params of None \<Rightarrow> [] | Some ps \<Rightarrow> [(''params'', JObj ps)])"

text \<open>One request: the result, the session to use from now on, and the run. \<open>fresh\<close> is the identifier of a request, \<open>None\<close> when
  the random source fails; a notification has none.\<close>

definition remote_request ::
  "'s remoteWorld \<Rightarrow> remoteBrowserMCP \<Rightarrow> string \<Rightarrow> string \<Rightarrow> object option \<Rightarrow> string \<Rightarrow> bool \<Rightarrow> string option \<Rightarrow> 's remoteRun
   \<Rightarrow> (string + json) \<times> string \<times> 's remoteRun" where
  "remote_request W c meth protocolVersion params session notification fresh run =
    (case remote_token (rw_ReadFile W) c of
       Inl e \<Rightarrow> (Inl e, session, run)
     | Inr token \<Rightarrow>
        if \<not> notification \<and> fresh = None then (Inl ''create MCP request id'', session, run)
        else let i = (if notification then None else fresh);
                 req = \<lparr>rq_url = rm_endpoint c, rq_token = token, rq_protocol = protocolVersion, rq_session = session,
                        rq_body = request_object meth params i\<rparr>;
                 (server, reply) = rw_Do W (rr_server run) req;
                 ra = \<lparr>rr_server = server, rr_sent = rr_sent run @ [req]\<rparr>
             in case reply of
                  None \<Rightarrow> (Inl ''remote browser MCP connection'', session, ra)
                | Some resp \<Rightarrow>
                   let session1 = (if rp_session resp \<noteq> [] then rp_session resp else session)
                   in if 300 \<le> rp_status resp \<and> rp_status resp < 400
                      then (Inl ''remote browser MCP redirect rejected'', session1, ra)
                      else case i of
                        None \<Rightarrow> (if rp_status resp \<notin> {202, 204, 200} then Inl ''remote browser MCP notification failed''
                                else Inr JNull, session1, ra)
                      | Some s \<Rightarrow> (remote_result W s resp, session1, ra))"

section \<open>Talking to the server\<close>

definition init_params :: object where
  "init_params = [(''protocolVersion'', JStr remoteBrowserProtocolVersion), (''capabilities'', JObj []),
     (''clientInfo'', JObj [(''name'', JStr ''webcdx-remote-browser''), (''version'', JStr ''1'')])]"

definition negotiated_version :: "json \<Rightarrow> string option" where
  "negotiated_version result =
    (case struct_members (Document result) of None \<Rightarrow> None | Some m \<Rightarrow> string_field [] (field ''protocolVersion'' m))"

definition remote_initialized ::
  "'s remoteWorld \<Rightarrow> remoteBrowserMCP \<Rightarrow> string option \<Rightarrow> 's remoteRun \<Rightarrow> (string + string \<times> string) \<times> 's remoteRun" where
  "remote_initialized W c fresh run =
    (case remote_request W c ''initialize'' [] (Some init_params) [] False fresh run of
       (Inl e, _, ra) \<Rightarrow> (Inl e, ra)
     | (Inr result, session, ra) \<Rightarrow>
        if negotiated_version result \<noteq> Some remoteBrowserProtocolVersion
        then (Inl ''remote browser MCP negotiated unsupported protocol version'', ra)
        else (case remote_request W c ''notifications/initialized'' remoteBrowserProtocolVersion None session True None ra of
                (Inl e, _, rb) \<Rightarrow> (Inl e, rb)
              | (Inr _, session2, rb) \<Rightarrow> (Inr (session2, remoteBrowserProtocolVersion), rb)))"

text \<open>The other server's tools, the fields of the struct \<open>mcpToolDefinition\<close>.\<close>

record mcpToolDefinition =
  td_Name :: string
  td_Description :: string
  td_InputSchema :: "object option"
  td_OutputSchema :: "object option"
  td_Annotations :: "object option"

definition decode_definition :: "json \<Rightarrow> mcpToolDefinition option" where
  "decode_definition j =
    (case struct_members (Document j) of
       None \<Rightarrow> None
     | Some m \<Rightarrow>
        (case (string_field [] (field ''name'' m), string_field [] (field ''description'' m), map_field (field ''inputSchema'' m),
               map_field (field ''outputSchema'' m), map_field (field ''annotations'' m)) of
           (Some name, Some description, Some input, Some output, Some annotations) \<Rightarrow>
             Some \<lparr>td_Name = name, td_Description = description, td_InputSchema = input, td_OutputSchema = output,
                   td_Annotations = annotations\<rparr>
         | _ \<Rightarrow> None))"

definition decode_definitions :: "json \<Rightarrow> mcpToolDefinition list option" where
  "decode_definitions result =
    (case struct_members (Document result) of
       None \<Rightarrow> None
     | Some m \<Rightarrow>
        (case raw_field (field ''tools'' m) of
           None \<Rightarrow> Some []
         | Some JNull \<Rightarrow> Some []
         | Some (JArr xs) \<Rightarrow> those (map decode_definition xs)
         | Some _ \<Rightarrow> None))"

definition remote_hint :: string where
  "remote_hint = '' uebagent runs a bounded task in its Docker Camoufox browser. Typical flow: start, poll status/events, read result; task execution uses its separately configured model endpoint.''"

text \<open>A member of an object that is an object itself, an empty one otherwise; and one that was not there with its type.\<close>

definition object_or :: "object \<Rightarrow> object \<Rightarrow> string \<Rightarrow> object" where
  "object_or fallback m k = (case map_of m k of Some (JObj v) \<Rightarrow> v | _ \<Rightarrow> fallback)"

definition cookies_off :: "object \<Rightarrow> object" where
  "cookies_off input =
    (let props = object_or [] input ''properties'';
         cookie = object_or [(''type'', JStr ''boolean'')] props ''sync_cookies''
     in AList.update ''properties'' (JObj (AList.update ''sync_cookies'' (JObj (AList.update ''default'' (JBool False) cookie)) props)) input)"

definition offered :: "mcpToolDefinition \<Rightarrow> mcpToolDefinition" where
  "offered tool =
    (let input = (case td_InputSchema tool of None \<Rightarrow> [(''type'', JStr ''object'')] | Some m \<Rightarrow> m)
     in tool\<lparr>td_Description := TrimSpace (td_Description tool @ remote_hint),
             td_InputSchema := Some (if td_Name tool = ''browser_task_start'' then cookies_off input else input)\<rparr>)"

fun select_tools :: "string list \<Rightarrow> mcpToolDefinition list \<Rightarrow> string + mcpToolDefinition list" where
  "select_tools seen [] = Inr []"
| "select_tools seen (tool # tools) =
    (if \<not> isRemoteBrowserTool (td_Name tool) then select_tools seen tools
     else if td_Name tool \<in> set seen then Inl ''remote browser MCP returned duplicate tool''
     else (case select_tools (td_Name tool # seen) tools of Inl e \<Rightarrow> Inl e | Inr rest \<Rightarrow> Inr (offered tool # rest)))"

definition remoteBrowserToolNames :: "string list" where
  "remoteBrowserToolNames = [''browser_task_start'', ''browser_task_status'', ''browser_task_events'', ''browser_task_result'',
     ''browser_task_pause'', ''browser_task_resume'', ''browser_task_cancel'']"

definition offered_tools :: "json \<Rightarrow> string + mcpToolDefinition list" where
  "offered_tools raw =
    (case decode_definitions raw of
       None \<Rightarrow> Inl ''decode remote browser MCP tools''
     | Some tools \<Rightarrow>
        (case select_tools [] tools of
           Inl e \<Rightarrow> Inl e
         | Inr kept \<Rightarrow> if list_all (\<lambda>name. name \<in> td_Name ` set kept) remoteBrowserToolNames then Inr kept
                          else Inl ''remote browser MCP is missing required tool''))"

definition remote_Tools ::
  "'s remoteWorld \<Rightarrow> remoteBrowserMCP \<Rightarrow> string option \<times> string option \<Rightarrow> 's remoteRun \<Rightarrow> (string + mcpToolDefinition list) \<times> 's remoteRun" where
  "remote_Tools W c fresh run =
    (case remote_initialized W c (fst fresh) run of
       (Inl e, ra) \<Rightarrow> (Inl e, ra)
     | (Inr (session, version), ra) \<Rightarrow>
        (case remote_request W c ''tools/list'' version (Some []) session False (snd fresh) ra of
           (Inl e, _, rb) \<Rightarrow> (Inl e, rb)
         | (Inr raw, _, rb) \<Rightarrow> (offered_tools raw, rb)))"

definition remote_Call ::
  "'s remoteWorld \<Rightarrow> remoteBrowserMCP \<Rightarrow> string option \<times> string option \<Rightarrow> string \<Rightarrow> object \<Rightarrow> 's remoteRun \<Rightarrow> (string + json) \<times> 's remoteRun" where
  "remote_Call W c fresh name args run =
    (if \<not> isRemoteBrowserTool name then (Inl ''unsupported remote browser MCP tool'', run)
     else case remote_initialized W c (fst fresh) run of
       (Inl e, ra) \<Rightarrow> (Inl e, ra)
     | (Inr (session, version), ra) \<Rightarrow>
        (case remote_request W c ''tools/call'' version (Some [(''name'', JStr name), (''arguments'', JObj (default_cookies name args))])
                session False (snd fresh) ra of
           (Inl e, _, rb) \<Rightarrow> (Inl e, rb)
         | (Inr raw, _, rb) \<Rightarrow> (Inr raw, rb)))"

end
