(* ===== verification/RemoteFacts.thy ===== *)
theory RemoteFacts
  imports RemoteBrowser
begin

text \<open>What the remote browser's client sends and accepts: only the seven tools, to the configured address and with the token
  of the file, and only an answer to its own request.\<close>

section \<open>Requests\<close>

definition method_of :: "remoteRequest \<Rightarrow> json option" where
  "method_of q = map_of (rq_body q) ''method''"

definition to_server :: "'s remoteWorld \<Rightarrow> remoteBrowserMCP \<Rightarrow> remoteRequest \<Rightarrow> bool" where
  "to_server W c q \<longleftrightarrow> rq_url q = rm_endpoint c \<and> remote_token (rw_ReadFile W) c = Inr (rq_token q)"

lemma map_of_request [simp]:
  "map_of (request_object meth params i) ''method'' = Some (JStr meth)"
  "map_of (request_object meth params i) ''params'' = map_option JObj params"
  "map_of (request_object meth params i) ''id'' = map_option JStr i"
  by (auto simp: request_object_def split: option.splits)

text \<open>A request sends one message, or none and fails.\<close>

lemma remote_request_sends:
  assumes "remote_request W c meth version params session notification fresh run = (out, session1, ra)"
  shows "(ra = run \<and> isl out) \<or> (\<exists>q. rr_sent ra = rr_sent run @ [q] \<and> to_server W c q \<and> rq_protocol q = version
     \<and> rq_session q = session \<and> rq_body q = request_object meth params (if notification then None else fresh)
     \<and> (\<forall>result. out = Inr result \<longrightarrow> \<not> notification \<longrightarrow> (\<exists>i server reply. fresh = Some i
          \<and> rw_Do W (rr_server run) q = (server, Some reply) \<and> remote_result W i reply = Inr result)))"
  using assms
  by (auto simp: remote_request_def to_server_def Let_def split: sum.splits option.splits prod.splits if_splits)

lemma remote_result_Inr:
  assumes "remote_result W i reply = Inr result"
  shows "200 \<le> rp_status reply \<and> rp_status reply < 300 \<and> result \<noteq> JNull \<and> (\<exists>b text envelope. rp_body reply = Some b
    \<and> length b \<le> remoteBrowserMaxBody \<and> decode_envelope (rw_parse W text) = Some envelope
    \<and> en_ID envelope = Some (JStr i) \<and> en_Error envelope = None \<and> en_Result envelope = Some result)"
  using assms by (auto simp: remote_result_def split: if_splits option.splits sum.splits prod.splits json.splits)

lemma remote_initialized_sends:
  assumes "remote_initialized W c fresh run = (out, ra)"
  shows "\<exists>new. rr_sent ra = rr_sent run @ new \<and> list_all (to_server W c) new
     \<and> prefix (map method_of new) (map (Some \<circ> JStr) [''initialize'', ''notifications/initialized''])
     \<and> (\<forall>s v. out = Inr (s, v) \<longrightarrow> length new = 2 \<and> v = remoteBrowserProtocolVersion)"
proof -
  obtain r s rb where one: "remote_request W c ''initialize'' [] (Some init_params) [] False fresh run = (r, s, rb)"
    by (cases "remote_request W c ''initialize'' [] (Some init_params) [] False fresh run") auto
  obtain r' s' rz where two: "remote_request W c ''notifications/initialized'' remoteBrowserProtocolVersion None s True None rb = (r', s', rz)"
    by (cases "remote_request W c ''notifications/initialized'' remoteBrowserProtocolVersion None s True None rb") auto
  show ?thesis
    using remote_request_sends [OF one] remote_request_sends [OF two] assms one two
    by (fastforce simp: remote_initialized_def method_of_def isl_def split: sum.splits if_splits)
qed

section \<open>A call\<close>


section \<open>The list of tools\<close>

lemma offered_name [simp]: "td_Name (offered t) = td_Name t"
  by (simp add: offered_def Let_def)

lemma select_tools_Inr:
  "select_tools seen tools = Inr ts \<Longrightarrow> distinct (map td_Name ts) \<and> set (map td_Name ts) \<inter> set seen = {}
     \<and> list_all (\<lambda>t. isRemoteBrowserTool (td_Name t) \<and> (\<exists>t0 \<in> set tools. t = offered t0)) ts"
proof (induction seen tools arbitrary: ts rule: select_tools.induct)
  case (2 seen tool tools)
  show ?case
  proof (cases "isRemoteBrowserTool (td_Name tool)")
    case True
    then obtain rest where r: "td_Name tool \<notin> set seen" "select_tools (td_Name tool # seen) tools = Inr rest" "ts = offered tool # rest"
      using 2(3) by (auto split: if_splits sum.splits)
    show ?thesis using 2(2) [OF _ r(1,2)] True r by (auto simp: list_all_iff)
  next
    case False
    then show ?thesis using 2(1) [OF False] 2(3) by (auto simp: list_all_iff)
  qed
qed simp

lemma offered_cookies:
  assumes "td_Name t = ''browser_task_start''"
  shows "\<exists>input props cookie. td_InputSchema (offered t) = Some input \<and> member_object input ''properties'' = Some props
    \<and> member_object props ''sync_cookies'' = Some cookie \<and> map_of cookie ''default'' = Some (JBool False)"
  using assms by (simp add: offered_def cookies_off_def Let_def member_object_def map_of_update)

lemma remote_names: "isRemoteBrowserTool name \<longleftrightarrow> name \<in> set remoteBrowserToolNames"
  by (auto simp: isRemoteBrowserTool_def remoteBrowserToolNames_def)

text \<open>C35: a list of remote tools that is returned has each of the seven names exactly once and no other, however many tools the
  server lists; and in the schema of the tool that starts a task the default of \<open>sync_cookies\<close> is false, whatever the server's
  schema says.\<close>

theorem remote_tools_exact:
  assumes "remote_Tools W c fresh rr = (Inr ts, ra)"
  shows "distinct (map td_Name ts) \<and> set (map td_Name ts) = set remoteBrowserToolNames
    \<and> (\<forall>t \<in> set ts. td_Name t = ''browser_task_start'' \<longrightarrow> (\<exists>input props cookie. td_InputSchema t = Some input
         \<and> member_object input ''properties'' = Some props \<and> member_object props ''sync_cookies'' = Some cookie
         \<and> map_of cookie ''default'' = Some (JBool False)))"
proof -
  obtain raw where "offered_tools raw = Inr ts" using assms by (auto simp: remote_Tools_def split: sum.splits prod.splits)
  then obtain tools where sel: "select_tools [] tools = Inr ts" and all: "list_all (\<lambda>name. name \<in> td_Name ` set ts) remoteBrowserToolNames"
    by (auto simp: offered_tools_def split: option.splits sum.splits if_splits)
  note ts = select_tools_Inr [OF sel]
  have "\<forall>t \<in> set ts. td_Name t \<in> set remoteBrowserToolNames" using ts by (auto simp: list_all_iff remote_names)
  then have "set (map td_Name ts) = set remoteBrowserToolNames" using all by (auto simp: list_all_iff)
  moreover have "\<exists>t0. t = offered t0" if "t \<in> set ts" for t using ts that by (auto simp: list_all_iff)
  ultimately show ?thesis using ts offered_cookies by fastforce
qed

section \<open>Examples\<close>

definition example_remote :: "nat remoteWorld" where
  "example_remote = \<lparr>rw_ReadFile = (\<lambda>_. Some ''tok''),
     rw_parse = (\<lambda>b. Document (JObj [(''id'', JStr (take 2 b)), (''result'', if take 2 b = ''i1''
        then JObj [(''protocolVersion'', JStr remoteBrowserProtocolVersion)]
        else JObj [(''tools'', JArr (map (\<lambda>n. JObj [(''name'', JStr n)]) remoteBrowserToolNames))])])),
     rw_ToLower = id,
     rw_Do = (\<lambda>n q. (Suc n, Some \<lparr>rp_status = 200, rp_session = ''s'', rp_contentType = ''application/json'',
        rp_body = Some (if n = 0 then ''i1'' else ''i2'')\<rparr>))\<rparr>"

definition example_remoteClient :: remoteBrowserMCP where
  "example_remoteClient = \<lparr>rm_endpoint = \<lparr>bu_Scheme = ''http'', bu_Opaque = [], bu_hasUser = False, bu_Host = ''h'', bu_Path = [],
     bu_RawQuery = [], bu_Fragment = []\<rparr>, rm_tokenFile = ''t'', rm_timeout = 1\<rparr>"

lemma example_replies:
  "\<exists>en. decode_envelope (rw_parse example_remote ''i1'') = Some en \<and> en_ID en = Some (JStr ''i1'') \<and> en_Error en = None
     \<and> en_Result en = Some (JObj [(''protocolVersion'', JStr remoteBrowserProtocolVersion)])"
  "\<exists>en. decode_envelope (rw_parse example_remote ''i2'') = Some en \<and> en_ID en = Some (JStr ''i2'') \<and> en_Error en = None
     \<and> en_Result en = Some (JObj [(''tools'', JArr (map (\<lambda>n. JObj [(''name'', JStr n)]) remoteBrowserToolNames))])"
  "Contains ''application/json'' ''text/event-stream'' = False"
  "negotiated_version (JObj [(''protocolVersion'', JStr remoteBrowserProtocolVersion)]) = Some remoteBrowserProtocolVersion"
proof -
  have "case decode_envelope (rw_parse example_remote ''i1'') of None \<Rightarrow> False | Some en \<Rightarrow> en_ID en = Some (JStr ''i1'') \<and> en_Error en = None
     \<and> en_Result en = Some (JObj [(''protocolVersion'', JStr remoteBrowserProtocolVersion)])" by code_simp
  then show "\<exists>en. decode_envelope (rw_parse example_remote ''i1'') = Some en \<and> en_ID en = Some (JStr ''i1'') \<and> en_Error en = None
     \<and> en_Result en = Some (JObj [(''protocolVersion'', JStr remoteBrowserProtocolVersion)])" by (auto split: option.splits)
  have "case decode_envelope (rw_parse example_remote ''i2'') of None \<Rightarrow> False | Some en \<Rightarrow> en_ID en = Some (JStr ''i2'') \<and> en_Error en = None
     \<and> en_Result en = Some (JObj [(''tools'', JArr (map (\<lambda>n. JObj [(''name'', JStr n)]) remoteBrowserToolNames))])" by code_simp
  then show "\<exists>en. decode_envelope (rw_parse example_remote ''i2'') = Some en \<and> en_ID en = Some (JStr ''i2'') \<and> en_Error en = None
     \<and> en_Result en = Some (JObj [(''tools'', JArr (map (\<lambda>n. JObj [(''name'', JStr n)]) remoteBrowserToolNames))])" by (auto split: option.splits)
qed code_simp+

lemma example_result:
  "remote_result example_remote ''i1'' \<lparr>rp_status = 200, rp_session = ''s'', rp_contentType = ''application/json'', rp_body = Some ''i1''\<rparr>
    = Inr (JObj [(''protocolVersion'', JStr remoteBrowserProtocolVersion)])"
  "remote_result example_remote ''i2'' \<lparr>rp_status = 200, rp_session = ''s'', rp_contentType = ''application/json'', rp_body = Some ''i2''\<rparr>
    = Inr (JObj [(''tools'', JArr (map (\<lambda>n. JObj [(''name'', JStr n)]) remoteBrowserToolNames))])"
proof -
  have low: "rw_ToLower example_remote = id" by (simp add: example_remote_def)
  show "remote_result example_remote ''i1'' \<lparr>rp_status = 200, rp_session = ''s'', rp_contentType = ''application/json'', rp_body = Some ''i1''\<rparr>
    = Inr (JObj [(''protocolVersion'', JStr remoteBrowserProtocolVersion)])"
    using example_replies(1) by (auto simp: remote_result_def remoteBrowserMaxBody_def low example_replies(3))
  show "remote_result example_remote ''i2'' \<lparr>rp_status = 200, rp_session = ''s'', rp_contentType = ''application/json'', rp_body = Some ''i2''\<rparr>
    = Inr (JObj [(''tools'', JArr (map (\<lambda>n. JObj [(''name'', JStr n)]) remoteBrowserToolNames))])"
    using example_replies(2) by (auto simp: remote_result_def remoteBrowserMaxBody_def low example_replies(3))
qed

lemma example_token: "remote_token (rw_ReadFile example_remote) example_remoteClient = Inr ''tok''"
  by code_simp

lemma example_Do:
  "rw_Do example_remote n q = (Suc n, Some \<lparr>rp_status = 200, rp_session = ''s'', rp_contentType = ''application/json'',
     rp_body = Some (if n = 0 then ''i1'' else ''i2'')\<rparr>)"
  by (simp add: example_remote_def)

lemma example_runs:
  "case remote_Call example_remote example_remoteClient (Some ''i1'', Some ''i2'') ''browser_task_start'' [] \<lparr>rr_server = 0, rr_sent = []\<rparr> of
     (out, ra) \<Rightarrow> \<not> isl out"
  "case remote_Tools example_remote example_remoteClient (Some ''i1'', Some ''i2'') \<lparr>rr_server = 0, rr_sent = []\<rparr> of
     (out, ra) \<Rightarrow> \<not> isl out"
proof -
  have tools: "\<not> isl (offered_tools (JObj [(''tools'', JArr (map (\<lambda>n. JObj [(''name'', JStr n)]) remoteBrowserToolNames))]))" by code_simp
  show "case remote_Call example_remote example_remoteClient (Some ''i1'', Some ''i2'') ''browser_task_start'' [] \<lparr>rr_server = 0, rr_sent = []\<rparr> of
     (out, ra) \<Rightarrow> \<not> isl out"
    by (simp add: remote_Call_def isRemoteBrowserTool_def remote_initialized_def remote_request_def Let_def example_token example_Do example_result example_replies(4))
  show "case remote_Tools example_remote example_remoteClient (Some ''i1'', Some ''i2'') \<lparr>rr_server = 0, rr_sent = []\<rparr> of
     (out, ra) \<Rightarrow> \<not> isl out"
    using tools by (simp add: remote_Tools_def remote_initialized_def remote_request_def Let_def example_token example_Do example_result example_replies(4))
qed


theorem remote_tools_exact_witness:
  "\<exists>ts ra. remote_Tools example_remote example_remoteClient (Some ''i1'', Some ''i2'') \<lparr>rr_server = 0, rr_sent = []\<rparr> = (Inr ts, ra)
     \<and> distinct (map td_Name ts) \<and> set (map td_Name ts) = set remoteBrowserToolNames"
proof -
  obtain r ra where r: "remote_Tools example_remote example_remoteClient (Some ''i1'', Some ''i2'') \<lparr>rr_server = 0, rr_sent = []\<rparr> = (r, ra)"
    by fastforce
  with example_runs(2) obtain ts where out: "r = Inr ts" by (cases r) auto
  show ?thesis using remote_tools_exact [OF r [unfolded out]] r out by blast
qed

end
