(* ===== verification/AgentSetup.thy ===== *)
theory AgentSetup
  imports RemoteBrowser SessionTools BrowserOperations FileListing
begin

text \<open>The configuration of the local agent: the environment (\<open>src/cmd/agent/config.go\<close>), the choice of the browser backend and
  the construction of the executor (\<open>newNativeExecutor\<close> and \<open>newNativeExecutorWithConfig\<close> of \<open>native_executor.go\<close>), and the
  roots the gate hands out (\<open>gate_config.go\<close>). The number and duration parsers, the directories of the operating system and
  what starting the parts meets on the disk are arguments.\<close>

section \<open>The environment\<close>

record environment =
  ev_Lookup :: "string \<Rightarrow> string option"
  ev_ParseDuration :: "string \<Rightarrow> duration option"
  ev_ParseInt :: "string \<Rightarrow> int option"
  ev_ToLower :: "string \<Rightarrow> string"
  ev_Getwd :: "string option"
  ev_Executable :: "string option"
  ev_UserConfigDir :: "string option"
  ev_Dir :: "string \<Rightarrow> string"
  ev_Join :: "string list \<Rightarrow> string"

definition Getenv :: "environment \<Rightarrow> string \<Rightarrow> string" where
  "Getenv ev name = (case ev_Lookup ev name of None \<Rightarrow> [] | Some v \<Rightarrow> v)"

definition env_value :: "environment \<Rightarrow> string \<Rightarrow> string \<Rightarrow> string" where
  "env_value ev name fallback = (let v = TrimSpace (Getenv ev name) in if v = [] then fallback else v)"

definition agentDurationEnv :: "environment \<Rightarrow> string \<Rightarrow> duration \<Rightarrow> duration" where
  "agentDurationEnv ev name fallback =
    (let v = TrimSpace (Getenv ev name)
     in if v = [] then fallback
        else case ev_ParseDuration ev v of None \<Rightarrow> fallback | Some d \<Rightarrow> if d \<le> 0 then fallback else d)"

text \<open>\<open>strconv.Atoi\<close> and \<open>ParseInt\<close> to 64 bits agree where \<open>int\<close> has 64 bits.\<close>

definition intEnv :: "environment \<Rightarrow> string \<Rightarrow> int \<Rightarrow> int" where
  "intEnv ev name fallback =
    (case ev_ParseInt ev (TrimSpace (Getenv ev name)) of None \<Rightarrow> fallback | Some n \<Rightarrow> if n \<le> 0 then fallback else n)"

definition int64Env :: "environment \<Rightarrow> string \<Rightarrow> int \<Rightarrow> int" where
  "int64Env ev name fallback =
    (case ev_ParseInt ev (TrimSpace (Getenv ev name)) of None \<Rightarrow> fallback | Some n \<Rightarrow> if n \<le> 0 then fallback else n)"

text \<open>The backend, and whether the native one is enabled.\<close>

definition browserBackendFromEnvironment :: "environment \<Rightarrow> string + (string \<times> bool)" where
  "browserBackendFromEnvironment ev =
    (let given = ev_ToLower ev (TrimSpace (Getenv ev ''WEBCODEX_BROWSER_BACKEND''));
         backend = (if given = [] then ''mcp'' else given)
     in if backend \<notin> {''mcp'', ''native'', ''disabled''} then Inl ''WEBCODEX_BROWSER_BACKEND must be mcp, native, or disabled''
        else case ev_Lookup ev ''WEBCODEX_BROWSER_ENABLED'' of
          Some v \<Rightarrow> if TrimSpace v = ''0'' then Inr (''disabled'', False) else Inr (backend, backend = ''native'')
        | None \<Rightarrow> Inr (backend, backend = ''native''))"

section \<open>The configuration of the executor\<close>

record browserConfig =
  bc_Enabled :: bool
  bc_Executable :: string
  bc_Dir :: string
  bc_AllowLocal :: bool
  bc_Personal :: bool
  bc_DownloadDir :: string

record executorConfig =
  ec_AllowedRoots :: "string list"
  ec_LogDir :: string
  ec_ProcessTTL :: duration
  ec_MaxLogBytes :: int
  ec_MaxResponseBytes :: int
  ec_Verbose :: bool
  ec_BrowserBackend :: string
  ec_RemoteBrowser :: remoteBrowserMCPConfig
  ec_Browser :: browserConfig

definition defaultResponseMax :: int where "defaultResponseMax = 256 * 2 ^ 10"
definition defaultLogMax :: int where "defaultLogMax = 50 * 2 ^ 20"

definition log_directory :: "environment \<Rightarrow> string \<Rightarrow> string" where
  "log_directory ev cwd =
    (let given = env_value ev ''WEBCODEX_LOG_DIR'' []
     in if given \<noteq> [] then given
        else case ev_Executable ev of
          Some executable \<Rightarrow> ev_Join ev [ev_Dir ev executable, ''logs'']
        | None \<Rightarrow> ev_Join ev [cwd, ''logs''])"

definition native_config :: "environment \<Rightarrow> (json \<Rightarrow> string) \<Rightarrow> string \<Rightarrow> string + executorConfig" where
  "native_config ev encode roots =
    (case ev_Getwd ev of
       None \<Rightarrow> Inl ''get startup directory''
     | Some cwd \<Rightarrow>
        (case ev_UserConfigDir ev of
           None \<Rightarrow> Inl ''user config directory''
         | Some configDir \<Rightarrow>
            let browserDir = ev_Join ev [configDir, ''webcodex'', ''browser'',
                  take 16 (commandHash encode (JObj [(''agent'', JStr (env_value ev ''WEBCODEX_AGENT_TOKEN'' [])),
                    (''gate'', JStr (env_value ev ''WEBCODEX_GATE_URL'' []))]))]
            in case browserBackendFromEnvironment ev of
                 Inl e \<Rightarrow> Inl e
               | Inr (backend, browserEnabled) \<Rightarrow>
                  Inr \<lparr>ec_AllowedRoots = splitPathList roots, ec_LogDir = log_directory ev cwd,
                    ec_ProcessTTL = agentDurationEnv ev ''WEBCODEX_PROCESS_TTL'' (24 * hour),
                    ec_MaxLogBytes = int64Env ev ''WEBCODEX_MAX_LOG_BYTES'' defaultLogMax,
                    ec_MaxResponseBytes = intEnv ev ''WEBCODEX_MAX_RESPONSE_BYTES'' defaultResponseMax,
                    ec_Verbose = (env_value ev ''WEBCODEX_DEBUG'' (env_value ev ''WEBCODEX_VERBOSE'' ''0'') \<noteq> ''0''),
                    ec_BrowserBackend = backend,
                    ec_RemoteBrowser = (if backend = ''mcp''
                      then \<lparr>rc_URL = env_value ev ''WEBCODEX_BROWSER_MCP_URL'' ''http://localhost:8090/mcp'',
                            rc_TokenFile = env_value ev ''WEBCODEX_BROWSER_MCP_TOKEN_FILE'' [],
                            rc_Timeout = agentDurationEnv ev ''WEBCODEX_BROWSER_MCP_TIMEOUT'' (30 * second)\<rparr>
                      else \<lparr>rc_URL = [], rc_TokenFile = [], rc_Timeout = 0\<rparr>),
                    ec_Browser = \<lparr>bc_Enabled = (backend = ''native'' \<and> browserEnabled),
                      bc_Executable = env_value ev ''WEBCODEX_BROWSER_PATH'' [],
                      bc_Dir = env_value ev ''WEBCODEX_BROWSER_DIR'' browserDir,
                      bc_AllowLocal = (env_value ev ''WEBCODEX_BROWSER_ALLOW_LOCAL'' ''0'' = ''1''),
                      bc_Personal = (env_value ev ''WEBCODEX_BROWSER_PERSONAL_ENABLED'' ''0'' = ''1''),
                      bc_DownloadDir = env_value ev ''WEBCODEX_BROWSER_DOWNLOAD_DIR'' []\<rparr>\<rparr>))"

section \<open>The executor\<close>

record nativeExecutor =
  ne_roots :: rootsConfig
  ne_logDir :: path
  ne_processTTL :: duration
  ne_maxLogBytes :: int
  ne_maxResponse :: int
  ne_verbose :: bool
  ne_browserBackend :: string
  ne_remoteBrowser :: "remoteBrowserMCP option"
  ne_sessions :: sessionStore
  ne_browser :: "browserManager option"

text \<open>What the start meets: the working directory for a relative log directory, whether the log directory can be read, the
  processes that still run, and the faults of the session directories and of the browser's own.\<close>

record startWorld =
  sw_Abs :: "string \<Rightarrow> string option"
  sw_url :: netlib
  sw_logsReadable :: bool
  sw_sessionFaults :: faults
  sw_alive :: "int \<Rightarrow> string \<Rightarrow> bool"
  sw_now :: time
  sw_enc :: opEncoder
  sw_journalFault :: "string \<Rightarrow> bool"
  sw_journalStuck :: "string \<Rightarrow> bool"
  sw_browserSetup :: "readError option"

definition positive_or :: "int \<Rightarrow> int \<Rightarrow> int" where
  "positive_or value fallback = (if value \<le> 0 then fallback else value)"

definition configured_backend :: "executorConfig \<Rightarrow> string" where
  "configured_backend config = (if ec_BrowserBackend config = [] then ''native'' else ec_BrowserBackend config)"

definition newNativeExecutorWithConfig ::
  "startWorld \<Rightarrow> executorConfig \<Rightarrow> fs \<Rightarrow> sessionStore \<Rightarrow> journalDir \<Rightarrow> (string + nativeExecutor) \<times> fs \<times> journalDir" where
  "newNativeExecutorWithConfig W config fs store disk =
    (if ec_AllowedRoots config = [] then (Inl ''at least one allowed root is required'', fs, disk)
     else let ttl = positive_or (ec_ProcessTTL config) (24 * hour);
              maxLog = positive_or (ec_MaxLogBytes config) defaultLogMax;
              maxResponse = positive_or (ec_MaxResponseBytes config) defaultResponseMax;
              backend = configured_backend config
     in if backend \<notin> {''mcp'', ''native'', ''disabled''} then (Inl ''unsupported browser backend'', fs, disk)
        else if ec_LogDir config = [] then (Inl ''log directory is required'', fs, disk)
        else case sw_Abs W (ec_LogDir config) of
          None \<Rightarrow> (Inl ''resolve log directory'', fs, disk)
        | Some logDir \<Rightarrow>
           (case MkdirAll fs (Clean logDir) of
              (False, fs1) \<Rightarrow> (Inl ''create log directory'', fs1, disk)
            | (True, fs1) \<Rightarrow>
               (case (if backend = ''mcp'' then map_sum id Some (newRemoteBrowserMCP (sw_url W) (ec_RemoteBrowser config)) else Inr None) of
                  Inl e \<Rightarrow> (Inl (''configure remote browser MCP: '' @ e), fs1, disk)
                | Inr remote \<Rightarrow>
                   (case configure_roots fs1 (ec_AllowedRoots config) of
                      Inl e \<Rightarrow> (Inl e, fs1, disk)
                    | Inr roots \<Rightarrow>
                       if \<not> sw_logsReadable W then (Inl ''restore command sessions'', fs1, disk)
                       else let sessions = restoreSessions (sw_sessionFaults W) (sw_alive W) (sw_now W) ttl store;
                                (browser, disk1) = (if backend = ''native''
                                  then map_prod Some id (start_browser (sw_enc W) (sw_journalFault W) (sw_journalStuck W) (sw_browserSetup W)
                                         (bc_Enabled (ec_Browser config)) (sw_now W) disk)
                                  else (None, disk))
                            in (Inr \<lparr>ne_roots = roots, ne_logDir = Clean logDir, ne_processTTL = ttl, ne_maxLogBytes = maxLog,
                                  ne_maxResponse = maxResponse, ne_verbose = ec_Verbose config, ne_browserBackend = backend,
                                  ne_remoteBrowser = remote, ne_sessions = sessions, ne_browser = browser\<rparr>, fs1, disk1)))))"

definition newNativeExecutor ::
  "environment \<Rightarrow> (json \<Rightarrow> string) \<Rightarrow> startWorld \<Rightarrow> string \<Rightarrow> fs \<Rightarrow> sessionStore \<Rightarrow> journalDir \<Rightarrow> (string + nativeExecutor) \<times> fs \<times> journalDir" where
  "newNativeExecutor ev encode W roots fs store disk =
    (case native_config ev encode roots of
       Inl e \<Rightarrow> (Inl e, fs, disk)
     | Inr config \<Rightarrow> newNativeExecutorWithConfig W config fs store disk)"

text \<open>What the executor does with a message.\<close>

definition executor_call :: "nativeExecutor \<Rightarrow> raw_json \<Rightarrow> agentAction" where
  "executor_call e request = native_call (ne_browserBackend e) (ne_remoteBrowser e \<noteq> None) (ne_browser e \<noteq> None) request"

section \<open>The roots of the gate\<close>

record configReply =
  cr_status :: nat
  cr_body :: "raw_json option"

text \<open>The reply is none when the connection fails, its body none when it is longer than 64 KiB or cannot be read.\<close>

definition decode_roots :: "raw_json \<Rightarrow> string option" where
  "decode_roots body =
    (case struct_members body of None \<Rightarrow> None | Some m \<Rightarrow> string_field [] (field ''allowed_roots'' m))"

definition loadAllowedRoots :: "environment \<Rightarrow> (unit \<Rightarrow> configReply option) \<Rightarrow> string + string" where
  "loadAllowedRoots ev Do =
    (let roots = TrimSpace (Getenv ev ''WEBCODEX_ALLOWED_ROOTS'')
     in if roots \<noteq> [] then Inr roots
        else case Do () of
          None \<Rightarrow> Inl ''connection''
        | Some resp \<Rightarrow>
           if cr_status resp \<noteq> 200 then Inl ''agent config status''
           else case Option.bind (cr_body resp) decode_roots of
             None \<Rightarrow> Inl ''agent config body''
           | Some roots \<Rightarrow> if TrimSpace roots = [] then Inl ''gate returned empty allowed roots'' else Inr roots)"

end
