(* ===== verification/SetupFacts.thy ===== *)
theory SetupFacts
  imports AgentSetup
begin

text \<open>What the environment decides about an executor that was built.\<close>

lemma native_config_backend:
  "native_config ev encode roots = Inr config
   \<Longrightarrow> \<exists>enabled. browserBackendFromEnvironment ev = Inr (ec_BrowserBackend config, enabled)"
  by (auto simp: native_config_def Let_def split: option.splits sum.splits)

lemma backend_names:
  "browserBackendFromEnvironment ev = Inr (backend, enabled) \<Longrightarrow> backend \<in> {''mcp'', ''native'', ''disabled''}"
  by (auto simp: browserBackendFromEnvironment_def Let_def split: option.splits if_splits)

text \<open>The backend is the one the environment names, the remote browser when it names none, and none when it is switched off.\<close>

lemma backend_named:
  "browserBackendFromEnvironment ev = Inr (backend, enabled) \<Longrightarrow> backend \<noteq> ''disabled'' \<Longrightarrow>
    TrimSpace (the (ev_Lookup ev ''WEBCODEX_BROWSER_ENABLED'')) \<noteq> ''0'' \<or> ev_Lookup ev ''WEBCODEX_BROWSER_ENABLED'' = None"
  "browserBackendFromEnvironment ev = Inr (''native'', enabled) \<Longrightarrow>
    ev_ToLower ev (TrimSpace (Getenv ev ''WEBCODEX_BROWSER_BACKEND'')) = ''native''"
  "browserBackendFromEnvironment ev = Inr (''mcp'', enabled) \<Longrightarrow>
    ev_ToLower ev (TrimSpace (Getenv ev ''WEBCODEX_BROWSER_BACKEND'')) \<in> {[], ''mcp''}"
  by (auto simp: browserBackendFromEnvironment_def Let_def split: option.splits if_splits)

lemma positive_or_positive [simp]: "0 < fallback \<Longrightarrow> 0 < positive_or value fallback"
  by (simp add: positive_or_def)

lemma default_limits [simp]: "0 < defaultLogMax" "0 < defaultResponseMax" "0 < 24 * hour"
  by (simp_all add: defaultLogMax_def defaultResponseMax_def hour_def minute_def second_def)

lemma wrapped_result: "map_sum id Some x = Inr y \<Longrightarrow> y \<noteq> None"
  by (cases x) auto

lemma executor_built:
  assumes "newNativeExecutorWithConfig W config fs store disk = (Inr e, fs1, disk1)"
  shows "ne_processTTL e = positive_or (ec_ProcessTTL config) (24 * hour) \<and> ne_maxLogBytes e = positive_or (ec_MaxLogBytes config) defaultLogMax
    \<and> ne_maxResponse e = positive_or (ec_MaxResponseBytes config) defaultResponseMax
    \<and> ne_browserBackend e = configured_backend config
    \<and> (ne_remoteBrowser e \<noteq> None \<longleftrightarrow> ne_browserBackend e = ''mcp'') \<and> (ne_browser e \<noteq> None \<longleftrightarrow> ne_browserBackend e = ''native'')
    \<and> configure_roots fs1 (ec_AllowedRoots config) = Inr (ne_roots e)"
  using assms
  by (auto simp: newNativeExecutorWithConfig_def Let_def case_prod_beta dest!: wrapped_result
      split: if_split_asm option.split_asm sum.split_asm prod.split_asm bool.split_asm)

lemma v4_runs_no_browser_tool: "executeTool_v4 v4 name \<noteq> BrowserTool tool"
  by (simp add: executeTool_v4_def)

lemma browser_tool_needs_browser: "executeTool browser version name = BrowserTool tool \<Longrightarrow> browser"
  using v4_runs_no_browser_tool by (simp add: executeTool_def split: if_split_asm)

lemma native_call_routes:
  "native_call backend remote browser request = LocalCall (BrowserTool name) args \<Longrightarrow> browser"
  "native_call backend remote browser request = RemoteCall name args \<Longrightarrow> backend = ''mcp'' \<and> isRemoteBrowserTool name"
  by (auto simp: native_call_def Let_def dest: browser_tool_needs_browser split: option.split_asm prod.split_asm if_split_asm)

lemma executor_routes:
  "executor_call e request = LocalCall (BrowserTool name) args \<Longrightarrow> ne_browser e \<noteq> None"
  "executor_call e request = RemoteCall name args \<Longrightarrow> ne_browserBackend e = ''mcp'' \<and> isRemoteBrowserTool name"
  using native_call_routes by (fastforce simp: executor_call_def)+

text \<open>C21: a browser is reached only when the environment asks for it. An executor built from an environment calls a tool of the
  user's own browser only when the environment names the backend native, a tool of the remote browser only when it names
  mcp or nothing, and neither when the browser is switched off there; it has a client for the remote browser exactly with
  the backend mcp and a manager of the native one exactly with native. Its limits on time, log and answers are positive
  whatever the environment holds, and its roots are those of the setting, resolved.\<close>

theorem browser_by_environment:
  assumes "newNativeExecutor ev encode W roots fs store disk = (Inr e, fs1, disk1)"
  shows "0 < ne_processTTL e \<and> 0 < ne_maxLogBytes e \<and> 0 < ne_maxResponse e
    \<and> configure_roots fs1 (splitPathList roots) = Inr (ne_roots e)
    \<and> (ne_remoteBrowser e \<noteq> None \<longleftrightarrow> ne_browserBackend e = ''mcp'') \<and> (ne_browser e \<noteq> None \<longleftrightarrow> ne_browserBackend e = ''native'')
    \<and> (\<forall>request name args. executor_call e request = LocalCall (BrowserTool name) args \<longrightarrow>
         ev_ToLower ev (TrimSpace (Getenv ev ''WEBCODEX_BROWSER_BACKEND'')) = ''native''
         \<and> (\<forall>v. ev_Lookup ev ''WEBCODEX_BROWSER_ENABLED'' = Some v \<longrightarrow> TrimSpace v \<noteq> ''0''))
    \<and> (\<forall>request name args. executor_call e request = RemoteCall name args \<longrightarrow>
         ev_ToLower ev (TrimSpace (Getenv ev ''WEBCODEX_BROWSER_BACKEND'')) \<in> {[], ''mcp''} \<and> isRemoteBrowserTool name
         \<and> (\<forall>v. ev_Lookup ev ''WEBCODEX_BROWSER_ENABLED'' = Some v \<longrightarrow> TrimSpace v \<noteq> ''0''))"
proof -
  obtain config where config: "native_config ev encode roots = Inr config"
    and built: "newNativeExecutorWithConfig W config fs store disk = (Inr e, fs1, disk1)"
    using assms by (auto simp: newNativeExecutor_def split: sum.splits)
  obtain enabled where b: "browserBackendFromEnvironment ev = Inr (ec_BrowserBackend config, enabled)"
    using native_config_backend [OF config] by blast
  have roots: "ec_AllowedRoots config = splitPathList roots"
    using config by (auto simp: native_config_def Let_def split: option.splits sum.splits)
  note e = executor_built [OF built]
  have backend: "ne_browserBackend e = ec_BrowserBackend config" using e backend_names [OF b] by (auto simp: configured_backend_def)
  have on: "\<forall>v. ev_Lookup ev ''WEBCODEX_BROWSER_ENABLED'' = Some v \<longrightarrow> TrimSpace v \<noteq> ''0''" if "ne_browserBackend e \<noteq> ''disabled''"
    using backend_named(1) [OF b] that backend by auto
  show ?thesis
    using e roots backend_named(2,3) [of ev enabled] b on backend executor_routes [of e] by auto
qed

definition example_environment :: environment where
  "example_environment = \<lparr>ev_Lookup = (\<lambda>name. if name = ''WEBCODEX_BROWSER_BACKEND'' then Some '' Native''
       else if name = ''WEBCODEX_LOG_DIR'' then Some ''/home/me'' else if name = ''WEBCODEX_MAX_LOG_BYTES'' then Some ''-5'' else None),
     ev_ParseDuration = (\<lambda>v. None), ev_ParseInt = (\<lambda>v. if v = ''-5'' then Some (- 5) else None), ev_ToLower = map lower_char,
     ev_Getwd = Some ''/home/me'', ev_Executable = None, ev_UserConfigDir = Some ''/home/me'', ev_Dir = (\<lambda>p. p), ev_Join = concat\<rparr>"

definition example_start :: startWorld where
  "example_start = \<lparr>sw_Abs = Some, sw_url = example_lib 0xffff08080808, sw_logsReadable = True, sw_sessionFaults = (\<lambda>id name. False),
     sw_alive = (\<lambda>pid t. False), sw_now = 0, sw_enc = \<lparr>enc_op = (\<lambda>op. Some 0), enc_transient = (\<lambda>r. Some 0)\<rparr>,
     sw_journalFault = (\<lambda>p. False), sw_journalStuck = (\<lambda>p. False), sw_browserSetup = None\<rparr>"

lemma example_backend: "browserBackendFromEnvironment example_environment = Inr (''native'', True)"
  by code_simp

theorem browser_by_environment_witness:
  "\<forall>encode store disk. \<exists>e fs1 disk1.
     newNativeExecutor example_environment encode example_start ''/home/./me'' example_fs store disk = (Inr e, fs1, disk1)
     \<and> rc_allowed (ne_roots e) = [[''home'', ''me'']] \<and> ne_browser e \<noteq> None \<and> ne_remoteBrowser e = None \<and> 0 < ne_maxLogBytes e"
proof (intro allI)
  fix encode store disk
  have log: "log_directory example_environment ''/home/me'' = ''/home/me''"
    by code_simp
  have roots: "splitPathList ''/home/./me'' = [''/home/./me'']"
    by code_simp
  have made: "MkdirAll example_fs (Clean ''/home/me'') = (True, example_fs)"
    by code_simp
  obtain config where config: "native_config example_environment encode ''/home/./me'' = Inr config"
      "ec_AllowedRoots config = [''/home/./me'']" "ec_LogDir config = ''/home/me''" "configured_backend config = ''native''"
    using example_backend log roots
    by (simp add: native_config_def Let_def example_environment_def configured_backend_def)
  obtain e disk1 where run: "newNativeExecutor example_environment encode example_start ''/home/./me'' example_fs store disk = (Inr e, example_fs, disk1)"
    using config made example_roots
    by (simp add: newNativeExecutor_def newNativeExecutorWithConfig_def example_start_def Let_def case_prod_beta)
  note built = browser_by_environment [OF run]
  have "Inr (ne_roots e) = (Inr \<lparr>rc_allowed = [[''home'', ''me'']], rc_unavailable = [], rc_allowAll = False\<rparr> :: string + rootsConfig)"
    using built example_roots roots by metis
  then have "rc_allowed (ne_roots e) = [[''home'', ''me'']]" "0 < ne_maxLogBytes e"
    using built by (metis rootsConfig.select_convs(1) sum.inject(2), blast)
  moreover have "ne_browser e \<noteq> None \<and> ne_remoteBrowser e = None"
    using run config made example_roots
    by (auto simp: newNativeExecutor_def newNativeExecutorWithConfig_def example_start_def Let_def case_prod_beta)
  ultimately show "\<exists>e fs1 disk1.
     newNativeExecutor example_environment encode example_start ''/home/./me'' example_fs store disk = (Inr e, fs1, disk1)
     \<and> rc_allowed (ne_roots e) = [[''home'', ''me'']] \<and> ne_browser e \<noteq> None \<and> ne_remoteBrowser e = None \<and> 0 < ne_maxLogBytes e"
    using run by blast
qed

end
