(* ===== verification/ToolSchemas.thy ===== *)
theory ToolSchemas
  imports RemoteBrowser BrowserSchemas
begin

text \<open>The tools the agent lists itself under each contract: \<open>localTools\<close> of \<open>src/cmd/agent/tool_schemas.go\<close> and
  \<open>commandToolsV5\<close> of \<open>command_schemas.go\<close>. A schema is an object of JSON as the program builds it, its members in the order
  of the source; a local variable of the function is a definition of the same name.\<close>

definition strings :: "string list \<Rightarrow> json" where
  "strings ss = JArr (map JStr ss)"

definition localTool :: "string \<Rightarrow> string \<Rightarrow> object \<Rightarrow> object \<Rightarrow> bool \<Rightarrow> bool \<Rightarrow> bool \<Rightarrow> mcpToolDefinition" where
  "localTool name description input output readOnly destructive openWorld =
    \<lparr>td_Name = name, td_Description = description, td_InputSchema = Some input, td_OutputSchema = Some output,
     td_Annotations = Some [(''readOnlyHint'', JBool readOnly), (''destructiveHint'', JBool destructive),
       (''openWorldHint'', JBool openWorld)]\<rparr>"

definition stringField :: "string \<Rightarrow> object" where
  "stringField description = [(''type'', JStr ''string''), (''description'', JStr description)]"

definition integerField :: "string \<Rightarrow> int \<Rightarrow> object" where
  "integerField description minimum =
    [(''type'', JStr ''integer''), (''minimum'', JNum (of_int minimum)), (''description'', JStr description)]"

definition booleanField :: "string \<Rightarrow> object" where
  "booleanField description = [(''type'', JStr ''boolean''), (''description'', JStr description)]"

definition objectSchema :: "object \<Rightarrow> string list \<Rightarrow> object" where
  "objectSchema properties required =
    [(''type'', JStr ''object''), (''additionalProperties'', JBool False), (''properties'', JObj properties),
     (''required'', strings required)]"

definition arraySchema :: "object \<Rightarrow> object" where
  "arraySchema items = [(''type'', JStr ''array''), (''items'', JObj items)]"

section \<open>The schemas\<close>

definition nullableString :: "object" where
  "nullableString =
    [(''type'', strings [''string'', ''null''])]"

definition nullableInteger :: "object" where
  "nullableInteger =
    [(''type'', strings [''integer'', ''null''])]"

definition fileReadOutput :: "object" where
  "fileReadOutput =
    objectSchema [(''path'', JObj (stringField ''Normalized absolute path.'')),
    (''content'', JObj (stringField ''UTF-8 text.'')), (''sha256'', JObj [(''type'', JStr ''string''),
    (''pattern'', JStr ''^[0-9a-f]{64}$''), (''description'', JStr ''Lowercase SHA-256 of the complete file.'')]),
    (''size'', JObj (integerField ''Complete file size in bytes.'' 0)),
    (''offset'', JObj (integerField ''First returned line.'' 1)),
    (''line_count'', JObj (integerField ''Returned line count.'' 0)),
    (''next_offset'', JObj (integerField ''Next line offset.'' 1)),
    (''truncated'', JObj (booleanField ''Whether more content is available.''))] [''path'', ''content'', ''sha256'', ''size'',
    ''offset'', ''line_count'', ''next_offset'', ''truncated'']"

definition writeOutput :: "object" where
  "writeOutput =
    objectSchema [(''path'', JObj (stringField ''Normalized absolute path.'')),
    (''bytes_written'', JObj (integerField ''Bytes written.'' 0)),
    (''sha256'', JObj (stringField ''Lowercase SHA-256 of the resulting file.''))] [''path'', ''bytes_written'', ''sha256'']"

definition entrySchema :: "object" where
  "entrySchema =
    objectSchema [(''name'', JObj (stringField ''Base name.'')), (''type'', JObj [(''type'', JStr ''string''),
    (''enum'', strings [''file'', ''directory'', ''symlink'', ''other'', ''unknown''])]),
    (''size'', JObj (integerField ''Size in bytes.'' 0)), (''modified_at'', JObj (stringField ''UTC modification time.'')),
    (''error'', JObj nullableString)] [''name'', ''type'', ''size'', ''modified_at'', ''error'']"

definition listOutput :: "object" where
  "listOutput =
    objectSchema [(''path'', JObj (stringField ''Normalized absolute path.'')), (''entries'', JObj (arraySchema entrySchema)),
    (''truncated'', JObj (booleanField ''Whether entries were omitted.'')),
    (''total_entries'', JObj (integerField ''Total entry count.'' 0))] [''path'', ''entries'', ''truncated'', ''total_entries'']"

definition matchSchema :: "object" where
  "matchSchema =
    objectSchema [(''path'', JObj (stringField ''Normalized absolute file path.'')),
    (''line'', JObj (integerField ''One-based line number.'' 1)), (''text'', JObj (stringField ''Matching line.''))] [''path'',
    ''line'', ''text'']"

definition searchOutput :: "object" where
  "searchOutput =
    objectSchema [(''path'', JObj (stringField ''Normalized absolute search root.'')),
    (''matches'', JObj (arraySchema matchSchema)), (''errors'', JObj (arraySchema (stringField ''Per-path access error.''))),
    (''truncated'', JObj (booleanField ''Whether results were omitted.''))] [''path'', ''matches'', ''errors'', ''truncated'']"

definition statusSchema :: "object" where
  "statusSchema =
    [(''type'', JStr ''string''), (''enum'', strings [''running'', ''exited'', ''failed'', ''timed_out'', ''cancelled'',
    ''orphaned''])]"

definition v3SessionOutput :: "object" where
  "v3SessionOutput =
    objectSchema [(''session_id'', JObj (stringField ''Process session ID.'')),
    (''command'', JObj (stringField ''Shell command.'')), (''cwd'', JObj (stringField ''Working directory.'')),
    (''status'', JObj statusSchema), (''started_at'', JObj (stringField ''UTC start time.'')),
    (''finished_at'', JObj nullableString), (''exit_code'', JObj nullableInteger),
    (''duration_ms'', JObj (integerField ''Elapsed milliseconds.'' 0)),
    (''log_path'', JObj (stringField ''Compatibility log path.'')), (''output'', JObj (stringField ''Bounded command output.'')),
    (''next_offset'', JObj (integerField ''Next byte offset.'' 0)),
    (''truncated'', JObj (booleanField ''Whether output was omitted.'')),
    (''already_finished'', JObj (booleanField ''Whether cancellation found a finished process.''))] [''session_id'', ''command'',
    ''cwd'', ''status'', ''started_at'', ''finished_at'', ''exit_code'', ''duration_ms'', ''log_path'', ''output'',
    ''next_offset'', ''truncated'', ''already_finished'']"

definition v4SessionProperties :: "object" where
  "v4SessionProperties =
    [(''session_id'', JObj (stringField ''Process session ID.'')), (''cwd'', JObj (stringField ''Working directory.'')),
    (''status'', JObj statusSchema), (''started_at'', JObj (stringField ''UTC start time.'')),
    (''finished_at'', JObj nullableString), (''exit_code'', JObj nullableInteger),
    (''duration_ms'', JObj (integerField ''Elapsed milliseconds.'' 0)),
    (''stdout_log_path'', JObj (stringField ''Standard output log path.'')),
    (''stderr_log_path'', JObj (stringField ''Standard error log path.'')),
    (''stdout'', JObj (stringField ''Standard output bytes.'')), (''stderr'', JObj (stringField ''Standard error bytes.'')),
    (''stdout_next_offset'', JObj (integerField ''Next standard output offset.'' 0)),
    (''stderr_next_offset'', JObj (integerField ''Next standard error offset.'' 0)),
    (''stdout_truncated'', JObj (booleanField ''Whether standard output was omitted.'')),
    (''stderr_truncated'', JObj (booleanField ''Whether standard error was omitted.''))]"

definition v4SessionRequired :: "string list" where
  "v4SessionRequired =
    [''session_id'', ''cwd'', ''status'', ''started_at'', ''finished_at'', ''exit_code'', ''duration_ms'', ''stdout_log_path'',
    ''stderr_log_path'', ''stdout'', ''stderr'', ''stdout_next_offset'', ''stderr_next_offset'', ''stdout_truncated'',
    ''stderr_truncated'']"

definition v4SessionOutput :: "object" where
  "v4SessionOutput =
    objectSchema v4SessionProperties v4SessionRequired"

definition v4CancelProperties :: "object" where
  "v4CancelProperties =
    AList.update ''already_finished'' (JObj (booleanField ''Whether the session was already finished.'')) v4SessionProperties"

definition v4CancelOutput :: "object" where
  "v4CancelOutput =
    objectSchema v4CancelProperties (v4SessionRequired @ [''already_finished''])"

definition readInput :: "object" where
  "readInput =
    objectSchema [(''path'', JObj (stringField ''Absolute file path.'')),
    (''offset'', JObj (integerField ''First line, starting at 1.'' 1)),
    (''limit'', JObj (integerField ''Maximum number of lines.'' 1))] [''path'']"

definition v3WriteInput :: "object" where
  "v3WriteInput =
    objectSchema [(''path'', JObj (stringField ''Absolute file path.'')),
    (''content'', JObj (stringField ''Exact text content; an empty string is valid.''))] [''path'', ''content'']"

definition v4WriteInput :: "object" where
  "v4WriteInput =
    AList.update ''oneOf'' (JArr [JObj [(''required'', strings [''if_absent'']),
    (''not'', JObj [(''required'', strings [''expected_sha256''])])], JObj [(''required'', strings [''expected_sha256'']),
    (''not'', JObj [(''required'', strings [''if_absent''])])]])
      (objectSchema [(''path'', JObj (stringField ''Absolute file path.'')),
    (''content'', JObj (stringField ''Exact text content; an empty string is valid.'')),
    (''if_absent'', JObj [(''type'', JStr ''boolean''), (''const'', JBool True),
    (''description'', JStr ''Require the destination not to exist.'')]), (''expected_sha256'', JObj [(''type'', JStr ''string''),
    (''pattern'', JStr ''^[0-9a-f]{64}$''),
    (''description'', JStr ''Required complete-file hash when replacing a file.'')])] [''path'', ''content''])"

definition listInput :: "object" where
  "listInput =
    objectSchema [(''path'', JObj (stringField ''Absolute directory path.'')),
    (''max_entries'', JObj (integerField ''Maximum entries to return.'' 1))] [''path'']"

definition searchInput :: "object" where
  "searchInput =
    objectSchema [(''path'', JObj (stringField ''Absolute directory path.'')),
    (''pattern'', JObj (stringField ''Text or regular expression to find.'')),
    (''glob'', JObj (stringField ''Optional basename glob.'')),
    (''regex'', JObj (booleanField ''Treat pattern as a Go regular expression.'')),
    (''max_results'', JObj (integerField ''Maximum matching lines to return.'' 1))] [''path'', ''pattern'']"

definition v3ExecInput :: "object" where
  "v3ExecInput =
    objectSchema [(''command'', JObj (stringField ''Shell command.'')),
    (''cwd'', JObj (stringField ''Absolute working directory.'')),
    (''timeout_seconds'', JObj (integerField ''Maximum process lifetime in seconds.'' 1)),
    (''yield_time_ms'', JObj (integerField ''Initial wait; default 1000 ms, effective maximum 3000 ms. Values up to 30000 remain accepted for compatibility.'' 0))] [''command'',
    ''cwd'']"

definition argvField :: "object" where
  "argvField =
    AList.update ''minItems'' (JNum 1) (arraySchema (stringField ''Executable or argument.''))"

definition v4ExecInput :: "object" where
  "v4ExecInput =
    AList.update ''oneOf'' (JArr [JObj [(''required'', strings [''command'']),
    (''not'', JObj [(''required'', strings [''argv''])])], JObj [(''required'', strings [''argv'']),
    (''not'', JObj [(''required'', strings [''command''])])]])
      (objectSchema [(''command'', JObj (stringField ''Shell command.'')),
    (''argv'', JObj argvField), (''cwd'', JObj (stringField ''Absolute working directory.'')),
    (''env'', JObj [(''type'', JStr ''object''), (''additionalProperties'', JObj [(''type'', JStr ''string'')])]),
    (''stdin'', JObj (stringField ''Standard input written once and closed.'')),
    (''timeout_seconds'', JObj (integerField ''Maximum process lifetime in seconds.'' 1)),
    (''yield_time_ms'', JObj (integerField ''Initial wait; default 1000 ms, effective maximum 3000 ms. Values up to 30000 remain accepted for compatibility.'' 0))] [''cwd''])"

definition v3PollInput :: "object" where
  "v3PollInput =
    objectSchema [(''session_id'', JObj (stringField ''Process session ID.'')),
    (''offset'', JObj (integerField ''Compatibility log byte offset.'' 0)),
    (''max_bytes'', JObj (integerField ''Maximum bytes to return.'' 1))] [''session_id'']"

definition v4PollInput :: "object" where
  "v4PollInput =
    objectSchema [(''session_id'', JObj (stringField ''Process session ID.'')),
    (''stdout_offset'', JObj (integerField ''Standard output byte offset.'' 0)),
    (''stderr_offset'', JObj (integerField ''Standard error byte offset.'' 0)),
    (''max_bytes'', JObj (integerField ''Maximum combined bytes to return.'' 1))] [''session_id'']"

definition cancelInput :: "object" where
  "cancelInput =
    objectSchema [(''session_id'', JObj (stringField ''Process session ID.''))] [''session_id'']"

definition rootInfoSchema :: "object" where
  "rootInfoSchema =
    objectSchema [(''path'', JObj (stringField ''Configured root path.'')),
    (''available'', JObj (booleanField ''Whether this root is accessible to file tools; restart after mounting an unavailable drive.''))] [''path'',
    ''available'']"

definition rootsTool :: "mcpToolDefinition" where
  "rootsTool =
    localTool ''list_allowed_roots''
      ''Report the effective file roots on this computer, including local environment overrides. These roots do not restrict shell commands.''
      (objectSchema [] []) (objectSchema [(''roots'', JObj (arraySchema rootInfoSchema)),
    (''unrestricted'', JObj (booleanField ''Whether all paths are allowed.''))] [''roots'', ''unrestricted'']) True False False"

definition base_tools :: "mcpToolDefinition list" where
  "base_tools =
   [localTool ''read_file''
      ''Read a UTF-8 text file or line range from an absolute local path.''
      readInput fileReadOutput True False False,
    localTool ''write_file''
      ''Atomically write exact UTF-8 text to an absolute local path.''
      v3WriteInput writeOutput False True False,
    localTool ''list_directory''
      ''List one local directory without recursion.''
      listInput listOutput True False False,
    localTool ''search_files''
      ''Search text files below an absolute local path.''
      searchInput searchOutput True False False,
    localTool ''exec_command''
      ''Start a non-interactive command in an explicit working directory. Explain the command and purpose to the user first, omitting secrets. Prefer yield_time_ms=1000 to 3000. If status is running, keep monitoring with poll_command and report progress; this is not completion.''
      v3ExecInput v3SessionOutput False True True,
    localTool ''poll_command''
      ''Read new output and status from a command session. Pass the returned next offsets to avoid repeating output. Keep monitoring running sessions and give the user progress updates about every 10 to 20 seconds, then report terminal status and exit_code.''
      v3PollInput v3SessionOutput True False False,
    localTool ''cancel_command''
      ''Terminate a command session and its process tree.''
      cancelInput v3SessionOutput False True False]"

definition editItem :: "object" where
  "editItem =
    objectSchema [(''old_text'', JObj (stringField ''Exact non-empty text to replace.'')),
    (''new_text'', JObj (stringField ''Replacement text; empty is valid.'')),
    (''replace_all'', JObj (booleanField ''Replace every occurrence.''))] [''old_text'', ''new_text'']"

definition editInput :: "object" where
  "editInput =
    objectSchema [(''path'', JObj (stringField ''Absolute file path.'')),
    (''expected_sha256'', JObj [(''type'', JStr ''string''), (''pattern'', JStr ''^[0-9a-f]{64}$''),
    (''description'', JStr ''Current complete-file hash.'')]), (''edits'', JObj [(''type'', JStr ''array''),
    (''minItems'', JNum 1), (''items'', JObj editItem)])] [''path'', ''expected_sha256'', ''edits'']"

definition editOutput :: "object" where
  "editOutput =
    objectSchema [(''path'', JObj (stringField ''Normalized absolute path.'')),
    (''old_sha256'', JObj (stringField ''Previous complete-file hash.'')),
    (''new_sha256'', JObj (stringField ''New complete-file hash.'')),
    (''replacements'', JObj (integerField ''Replacement count.'' 1)),
    (''bytes_written'', JObj (integerField ''Bytes written.'' 0))] [''path'', ''old_sha256'', ''new_sha256'', ''replacements'',
    ''bytes_written'']"

definition findEntry :: "object" where
  "findEntry =
    objectSchema [(''path'', JObj (stringField ''Normalized absolute path.'')),
    (''relative_path'', JObj (stringField ''Slash-separated path relative to the root.'')),
    (''type'', JObj [(''type'', JStr ''string''), (''enum'', strings [''file'', ''directory'', ''symlink'', ''other''])]),
    (''size'', JObj (integerField ''Size in bytes.'' 0)),
    (''modified_at'', JObj (stringField ''UTC modification time.''))] [''path'', ''relative_path'', ''type'', ''size'',
    ''modified_at'']"

definition findInput :: "object" where
  "findInput =
    objectSchema [(''path'', JObj (stringField ''Absolute directory path.'')),
    (''name_glob'', JObj (stringField ''Basename glob.'')), (''kind'', JObj [(''type'', JStr ''string''),
    (''enum'', strings [''file'', ''directory'', ''any''])]),
    (''max_results'', JObj (integerField ''Maximum entries to return.'' 1))] [''path'']"

definition findOutput :: "object" where
  "findOutput =
    objectSchema [(''path'', JObj (stringField ''Normalized absolute root.'')), (''entries'', JObj (arraySchema findEntry)),
    (''errors'', JObj (arraySchema (stringField ''Per-path access error.''))),
    (''truncated'', JObj (booleanField ''Whether results were omitted.''))] [''path'', ''entries'', ''errors'', ''truncated'']"

definition moveInput :: "object" where
  "moveInput =
    objectSchema [(''source'', JObj (stringField ''Absolute source path.'')),
    (''destination'', JObj (stringField ''Absolute destination path.'')),
    (''expected_sha256'', JObj [(''type'', JStr ''string''), (''pattern'', JStr ''^[0-9a-f]{64}$''),
    (''description'', JStr ''Required complete-file hash for a regular file.'')])] [''source'', ''destination'']"

definition moveOutput :: "object" where
  "moveOutput =
    objectSchema [(''source'', JObj (stringField ''Normalized absolute source path.'')),
    (''destination'', JObj (stringField ''Normalized absolute destination path.'')),
    (''type'', JObj [(''type'', JStr ''string''), (''enum'', strings [''file'', ''directory''])])] [''source'', ''destination'',
    ''type'']"

definition deleteInput :: "object" where
  "deleteInput =
    objectSchema [(''path'', JObj (stringField ''Absolute path.'')), (''expected_sha256'', JObj [(''type'', JStr ''string''),
    (''pattern'', JStr ''^[0-9a-f]{64}$''),
    (''description'', JStr ''Required complete-file hash for a regular file.'')])] [''path'']"

definition deleteOutput :: "object" where
  "deleteOutput =
    objectSchema [(''path'', JObj (stringField ''Normalized absolute path.'')),
    (''deleted'', JObj (booleanField ''Whether deletion succeeded.'')), (''type'', JObj [(''type'', JStr ''string''),
    (''enum'', strings [''file'', ''directory''])])] [''path'', ''deleted'', ''type'']"

definition file_tools_v4 :: "mcpToolDefinition list" where
  "file_tools_v4 =
   [localTool ''edit_file''
      ''Apply ordered exact text replacements with a complete-file hash precondition.''
      editInput editOutput False True False,
    localTool ''find_files''
      ''Find files and directories recursively by basename.''
      findInput findOutput True False False,
    localTool ''move_path''
      ''Rename a regular file or empty directory without overwriting.''
      moveInput moveOutput False True False,
    localTool ''delete_path''
      ''Delete a regular file or empty directory.''
      deleteInput deleteOutput False True False,
    rootsTool]"

section \<open>The lists of the contracts\<close>

definition any_object :: object where
  "any_object = [(''type'', JStr ''object''), (''additionalProperties'', JBool True)]"

definition tools_v3 :: "mcpToolDefinition list" where
  "tools_v3 = map (\<lambda>t. t\<lparr>td_OutputSchema := Some any_object\<rparr>) (base_tools @ [rootsTool])"

definition tools_v4 :: "mcpToolDefinition list" where
  "tools_v4 =
    base_tools[1 := (base_tools ! 1)\<lparr>td_InputSchema := Some v4WriteInput\<rparr>,
      4 := (base_tools ! 4)\<lparr>td_InputSchema := Some v4ExecInput, td_OutputSchema := Some v4SessionOutput\<rparr>,
      5 := (base_tools ! 5)\<lparr>td_InputSchema := Some v4PollInput, td_OutputSchema := Some v4SessionOutput\<rparr>,
      6 := (base_tools ! 6)\<lparr>td_OutputSchema := Some v4CancelOutput\<rparr>] @ file_tools_v4"


definition request_key_field :: "object" where
  "request_key_field =
    [(''type'', JStr ''string''), (''minLength'', JNum 1), (''maxLength'', JNum 128),
    (''description'', JStr ''Unique key for this launch. Reuse the same key and arguments after Retry; never generate a new key for a lost response.'')]"

definition events_field :: "object" where
  "events_field =
    [(''type'', JStr ''array''), (''items'', JObj [(''type'', JStr ''object''), (''additionalProperties'', JBool False),
    (''properties'', JObj [(''at'', JObj [(''type'', JStr ''string'')]), (''event'', JObj [(''type'', JStr ''string'')]),
    (''session_id'', JObj [(''type'', JStr ''string'')]), (''request_id'', JObj [(''type'', JStr ''string'')]),
    (''status'', JObj [(''type'', JStr ''string'')]), (''pid'', JObj [(''type'', JStr ''integer'')]),
    (''exit_code'', JObj [(''type'', strings [''integer'', ''null''])])]), (''required'', strings [''at'', ''event'',
    ''session_id'', ''status'', ''pid'', ''exit_code''])])]"

definition status_field :: "object" where
  "status_field =
    [(''type'', JStr ''string''), (''enum'', strings [''starting'', ''running'', ''exited'', ''failed'', ''timed_out'',
    ''cancelled'', ''orphaned'', ''outcome_unknown''])]"

definition summary :: "object" where
  "summary =
    [(''type'', JStr ''object''), (''additionalProperties'', JBool False),
    (''properties'', JObj [(''session_id'', JObj [(''type'', JStr ''string'')]), (''cwd'', JObj [(''type'', JStr ''string'')]),
    (''pid'', JObj [(''type'', JStr ''integer'')]), (''status'', JObj [(''type'', JStr ''string'')]),
    (''started_at'', JObj [(''type'', JStr ''string'')]), (''exit_code'', JObj [(''type'', strings [''integer'', ''null''])]),
    (''duration_ms'', JObj [(''type'', JStr ''integer'')])]), (''required'', strings [''session_id'', ''cwd'', ''pid'',
    ''status'', ''started_at'', ''exit_code'', ''duration_ms''])]"

definition list_commands_tool :: mcpToolDefinition where
  "list_commands_tool =
    \<lparr>td_Name = ''list_commands'',
     td_Description = ''Find active and recent command sessions after Retry. Never relaunch a command solely because its original response was lost.'',
     td_InputSchema = Some [(''type'', JStr ''object''), (''additionalProperties'', JBool False),
        (''properties'', JObj [(''limit'', JObj [(''type'', JStr ''integer''), (''minimum'', JNum 1), (''maximum'', JNum 500)]),
        (''status'', JObj [(''type'', JStr ''string'')])]), (''required'', strings [])],
     td_OutputSchema = Some [(''type'', JStr ''object''), (''additionalProperties'', JBool False),
        (''properties'', JObj [(''sessions'', JObj [(''type'', JStr ''array''), (''items'', JObj summary)]),
        (''truncated'', JObj [(''type'', JStr ''boolean'')])]), (''required'', strings [''sessions'', ''truncated''])],
     td_Annotations = Some [(''readOnlyHint'', JBool True), (''destructiveHint'', JBool False), (''openWorldHint'', JBool False)]\<rparr>"

text \<open>The assertion that the properties of a schema are an object panics otherwise; the result is none then. The output
  schemas of two of the tools are one map, which is set twice to the same values.\<close>

definition schema_properties :: "object \<Rightarrow> object option" where
  "schema_properties s = (case map_of s ''properties'' of Some (JObj properties) \<Rightarrow> Some properties | _ \<Rightarrow> None)"

definition set_properties :: "object \<Rightarrow> object \<Rightarrow> object" where
  "set_properties properties s = AList.update ''properties'' (JObj properties) s"

definition with_request_key :: "mcpToolDefinition \<Rightarrow> mcpToolDefinition option" where
  "with_request_key t =
    (case td_InputSchema t of
       None \<Rightarrow> None
     | Some input \<Rightarrow> map_option (\<lambda>properties. t\<lparr>td_InputSchema := Some (AList.update ''required'' (strings [''cwd'', ''request_key''])
         (set_properties (AList.update ''request_key'' (JObj request_key_field) properties) input))\<rparr>) (schema_properties input))"

definition with_session_fields :: "mcpToolDefinition \<Rightarrow> mcpToolDefinition option" where
  "with_session_fields t =
    (case td_OutputSchema t of
       None \<Rightarrow> None
     | Some output \<Rightarrow> map_option (\<lambda>fields. t\<lparr>td_OutputSchema := Some (set_properties
         (AList.update ''status'' (JObj status_field) (AList.update ''events'' (JObj events_field)
           (AList.update ''pid'' (JObj [(''type'', JStr ''integer'')]) fields))) output)\<rparr>) (schema_properties output))"

definition commandToolsV5 :: "mcpToolDefinition list \<Rightarrow> mcpToolDefinition list option" where
  "commandToolsV5 tools =
    (if length tools \<le> 6 then None
     else Option.bind (with_request_key (tools ! 4)) (\<lambda>keyed.
          Option.bind (with_session_fields keyed) (\<lambda>exec.
          Option.bind (with_session_fields (tools ! 5)) (\<lambda>poll.
          Option.bind (with_session_fields (tools ! 6)) (\<lambda>cancel.
            Some (tools[4 := exec, 5 := poll, 6 := cancel] @ [list_commands_tool]))))))"

definition localTools :: "string \<Rightarrow> mcpToolDefinition list option" where
  "localTools version =
    (if version = ''v5'' then commandToolsV5 tools_v4
     else if version \<noteq> ''v4'' then Some tools_v3
     else Some tools_v4)"

end
