(* ===== verification/AgentTools.thy ===== *)
theory AgentTools
  imports AgentSetup ToolSchemas
begin

text \<open>The executor as a whole (\<open>src/cmd/agent/native_executor.go\<close>): \<open>executeTool\<close> dispatching to the tools, the list of tools
  and the replies \<open>call\<close> writes. A tool of the native browser is an argument here; its own theories model it.\<close>

section \<open>The tools\<close>

datatype toolAnswer =
    RootsAnswer "(path \<times> bool) list" bool
  | ReadAnswer readResult
  | WriteAnswer writeResult
  | DirectoryAnswer dirListing
  | SearchAnswer searchResult
  | CommandAnswer commandResult
  | CommandAnswerV5 resultV5
  | CommandsAnswer "listedCommand list" bool
  | EditAnswer editResult
  | FindAnswer findResult
  | MoveAnswer path path kind
  | DeleteAnswer path kind
  | BrowserAnswer json

definition list_allowed_roots :: "executor \<Rightarrow> object \<Rightarrow> fs \<Rightarrow> toolAnswer result" where
  "list_allowed_roots ex args fs =
    bind_result (onlyArgs args []) (\<lambda>_.
      Inr (RootsAnswer (map (\<lambda>p. (p, Stat fs p = Inr Dir)) (rc_allowed (ex_roots ex))
          @ map (\<lambda>p. (p, False)) (rc_unavailable (ex_roots ex))) (rc_allowAll (ex_roots ex))))"

text \<open>What a call meets: \<open>te_browser\<close> is the native browser, where there is one, and \<open>te_done\<close> whether the caller has gone.\<close>

record toolEnv =
  te_call :: callEnv
  te_walk :: walkEnv
  te_encode :: "json \<Rightarrow> string"
  te_done :: bool
  te_requestID :: string
  te_browser :: "(string \<Rightarrow> object \<Rightarrow> json result) option"

type_synonym machine = "fs \<times> sessionStore"

definition answered :: "('a \<Rightarrow> toolAnswer) \<Rightarrow> 'a result \<Rightarrow> toolAnswer result" where
  "answered f r = bind_result r (\<lambda>x. Inr (f x))"

definition perform :: "toolEnv \<Rightarrow> tool \<Rightarrow> object \<Rightarrow> machine \<Rightarrow> toolAnswer result \<times> machine" where
  "perform W t args st =
    (case st of (fs, e) \<Rightarrow>
      let ex = cl_executor (te_call W)
      in case t of
        ListAllowedRoots \<Rightarrow> (list_allowed_roots ex args fs, st)
      | ReadFile \<Rightarrow> (answered ReadAnswer (readFile ex args fs), st)
      | WriteFile v4 \<Rightarrow> (case writeFile ex args v4 fs of (r, fs1) \<Rightarrow> (answered WriteAnswer r, fs1, e))
      | ListDirectory \<Rightarrow> (answered DirectoryAnswer (listDirectory ex (te_walk W) args fs), st)
      | SearchFiles \<Rightarrow> (answered SearchAnswer (searchFiles ex (te_walk W) args fs), st)
      | ExecCommand v4 \<Rightarrow>
          (case execCommand (te_call W) fs None (te_requestID W) args v4 e of (r, e1) \<Rightarrow> (answered CommandAnswer r, fs, e1))
      | ExecCommandOnce \<Rightarrow>
          (case execCommandOnce (te_call W) fs (te_encode W) (te_done W) (te_requestID W) args e of
             (r, e1) \<Rightarrow> (answered CommandAnswer r, fs, e1))
      | PollCommand v4 \<Rightarrow> (answered CommandAnswer (pollCommand (te_call W) args v4 e), st)
      | CancelCommand v4 \<Rightarrow>
          (case cancelCommand (te_call W) args v4 e of (r, e1) \<Rightarrow> (answered (CommandAnswer \<circ> fst) r, fs, e1))
      | ListCommands \<Rightarrow> (answered (\<lambda>(cs, more). CommandsAnswer cs more) (listCommands (cl_now (te_call W)) args e), st)
      | EditFile \<Rightarrow> (case editFile ex args fs of (r, fs1) \<Rightarrow> (answered EditAnswer r, fs1, e))
      | FindFiles \<Rightarrow> (answered FindAnswer (findFiles ex (te_walk W) args fs), st)
      | MovePath \<Rightarrow> (case movePath ex args fs of (r, fs1) \<Rightarrow> (answered (\<lambda>(p, q, k). MoveAnswer p q k) r, fs1, e))
      | DeletePath \<Rightarrow> (case deletePath ex args fs of (r, fs1) \<Rightarrow> (answered (\<lambda>(p, k). DeleteAnswer p k) r, fs1, e))
      | BrowserTool name \<Rightarrow>
          (case te_browser W of
             None \<Rightarrow> (Inl (toolErr ''browser_disabled'' ''native browser backend is not enabled''), st)
           | Some b \<Rightarrow> (answered BrowserAnswer (b name args), st))
      | BrowserDisabled \<Rightarrow> (Inl (toolErr ''browser_disabled'' ''native browser backend is not enabled''), st)
      | UnknownTool \<Rightarrow> (Inl (toolErr ''unknown_tool'' ''unknown tool''), st))"

text \<open>A result that names a session is completed under the v5 contract.\<close>

definition completed :: "string \<Rightarrow> toolAnswer result \<Rightarrow> sessionStore \<Rightarrow> toolAnswer result" where
  "completed version r e =
    (case r of
       Inr (CommandAnswer x) \<Rightarrow> if version = ''v5'' then answered CommandAnswerV5 (v5_view x e) else r
     | _ \<Rightarrow> r)"

definition run_tool :: "toolEnv \<Rightarrow> string \<Rightarrow> string \<Rightarrow> object \<Rightarrow> machine \<Rightarrow> toolAnswer result \<times> machine" where
  "run_tool W version name args st =
    (case perform W (executeTool (te_browser W \<noteq> None) version name) args st of
       (r, st1) \<Rightarrow> (completed version r (snd st1), st1))"

section \<open>The list of the tools\<close>

datatype listedTool = Described mcpToolDefinition | NativeBrowser toolSchema

primrec listed_name :: "listedTool \<Rightarrow> string" where
  "listed_name (Described t) = td_Name t"
| "listed_name (NativeBrowser t) = ts_name t"

text \<open>\<open>remote\<close> is what the remote browser answers within the five seconds it is given; a failure hides its tools only.\<close>

definition tools_list :: "nativeExecutor \<Rightarrow> (string + mcpToolDefinition list) \<Rightarrow> string \<Rightarrow> listedTool list option" where
  "tools_list e remote version =
    map_option (\<lambda>tools. map Described tools
      @ (if version \<noteq> ''v5'' then []
         else if ne_browserBackend e = ''mcp''
         then (if ne_remoteBrowser e = None then [] else case remote of Inl _ \<Rightarrow> [] | Inr ts \<Rightarrow> map Described ts)
         else if ne_browserBackend e = ''native''
         then (case ne_browser e of
                 None \<Rightarrow> []
               | Some b \<Rightarrow> if bm_enabled b then map NativeBrowser browserToolSchemas else [])
         else []))
      (localTools version)"

text \<open>How a description is written into the list.\<close>

definition tool_object :: "mcpToolDefinition \<Rightarrow> object" where
  "tool_object t =
    (let object_json = (\<lambda>m. case m of None \<Rightarrow> JNull | Some ms \<Rightarrow> JObj ms)
     in [(''name'', JStr (td_Name t)), (''description'', JStr (td_Description t)), (''inputSchema'', object_json (td_InputSchema t)),
         (''outputSchema'', object_json (td_OutputSchema t)), (''annotations'', object_json (td_Annotations t))])"

section \<open>The replies\<close>

definition rpcResult :: "json option \<Rightarrow> json \<Rightarrow> json" where
  "rpcResult i r = JObj [(''jsonrpc'', JStr ''2.0''), (''id'', id_json i), (''result'', r)]"

definition rpcError :: "json option \<Rightarrow> int \<Rightarrow> string \<Rightarrow> json" where
  "rpcError i code message = JObj [(''jsonrpc'', JStr ''2.0''), (''id'', id_json i),
     (''error'', JObj [(''code'', JNum (of_int code)), (''message'', JStr message)])]"

text \<open>The image of a screenshot and the details of an error are not represented; every error of a tool is a coded one.\<close>

definition toolResult :: "(json \<Rightarrow> string) \<Rightarrow> json option \<Rightarrow> json result \<Rightarrow> json" where
  "toolResult encode i r =
    (let (failed, value) = (case r of
           Inr v \<Rightarrow> (False, v)
         | Inl e \<Rightarrow> (True, JObj [(''error'', JObj [(''code'', JStr (ce_code e)), (''message'', JStr (ce_message e))])]))
     in rpcResult i (JObj [(''isError'', JBool failed),
          (''content'', JArr [JObj [(''type'', JStr ''text''), (''text'', JStr (encode value))]]), (''structuredContent'', value)]))"

definition remote_instructions :: string where
  "remote_instructions = '' Browser tasks use uebagent's autonomous Docker Camoufox MCP tools: start a task, poll its status/events, and read its result. Cookie synchronization defaults to off.''"

definition agent_initialize :: "string \<Rightarrow> string \<Rightarrow> json" where
  "agent_initialize backend version = JObj
    [(''protocolVersion'', JStr ''2025-06-18''),
     (''capabilities'', JObj [(''tools'', JObj [(''listChanged'', JBool False)])]),
     (''serverInfo'', JObj [(''name'', JStr ''local-workspace''), (''title'', JStr ''Local Workspace''), (''version'', JStr ''1.0.0'')]),
     (''instructions'', JStr (ExecutionInstructions
        @ (if version = ''v5'' then V5Instructions @ (if backend = ''mcp'' then remote_instructions else []) else [])))]"

end
