(* ===== verification/AgentToolFacts.thy ===== *)
theory AgentToolFacts
  imports AgentTools
begin

text \<open>What the lists of tools promise: the tools on them are run, and a call that violates a listed schema does nothing.\<close>

section \<open>Conforming to a schema\<close>

text \<open>Of the words of JSON Schema: the type of a member, the bounds of a number and the constant, the required members, and
  that there are no others.\<close>

definition bound_holds :: "(rat \<Rightarrow> rat \<Rightarrow> bool) \<Rightarrow> json option \<Rightarrow> rat \<Rightarrow> bool" where
  "bound_holds R b n = (case b of Some (JNum m) \<Rightarrow> R m n | _ \<Rightarrow> True)"

definition fits :: "json \<Rightarrow> json \<Rightarrow> bool" where
  "fits s v =
    (case s of
       JObj m \<Rightarrow>
         (case map_of m ''type'' of
            Some (JStr t) \<Rightarrow>
              if t = ''string'' then (case v of JStr _ \<Rightarrow> True | _ \<Rightarrow> False)
              else if t = ''boolean'' then (case v of JBool _ \<Rightarrow> True | _ \<Rightarrow> False)
              else if t = ''array'' then (case v of JArr _ \<Rightarrow> True | _ \<Rightarrow> False)
              else if t = ''integer''
              then (case v of
                      JNum n \<Rightarrow> n = of_int \<lfloor>n\<rfloor> \<and> bound_holds (\<le>) (map_of m ''minimum'') n \<and> bound_holds (\<ge>) (map_of m ''maximum'') n
                    | _ \<Rightarrow> False)
              else True
          | _ \<Rightarrow> True)
         \<and> (case map_of m ''const'' of None \<Rightarrow> True | Some c \<Rightarrow> v = c)
     | _ \<Rightarrow> True)"

definition fits_member :: "object \<Rightarrow> string \<times> json \<Rightarrow> bool" where
  "fits_member args f = (case map_of args (fst f) of None \<Rightarrow> True | Some v \<Rightarrow> fits (snd f) v)"

definition required_names :: "object \<Rightarrow> string list" where
  "required_names s = (case map_of s ''required'' of Some (JArr names) \<Rightarrow> concat (map (\<lambda>n. case n of JStr x \<Rightarrow> [x] | _ \<Rightarrow> []) names) | _ \<Rightarrow> [])"

definition conforms :: "object \<Rightarrow> object \<Rightarrow> bool" where
  "conforms s args \<longleftrightarrow>
    (case schema_properties s of
       None \<Rightarrow> True
     | Some properties \<Rightarrow> fst ` set args \<subseteq> fst ` set properties \<and> list_all (fits_member args) properties)
    \<and> set (required_names s) \<subseteq> fst ` set args"

lemma fits_simps [simp]:
  "fits (JObj (stringField d)) v \<longleftrightarrow> (\<exists>s. v = JStr s)"
  "fits (JObj (booleanField d)) v \<longleftrightarrow> (\<exists>b. v = JBool b)"
  "fits (JObj (integerField d low)) v \<longleftrightarrow> (\<exists>n. v = JNum n \<and> n = of_int \<lfloor>n\<rfloor> \<and> of_int low \<le> n)"
  "fits (JObj (arraySchema i)) v \<longleftrightarrow> (\<exists>xs. v = JArr xs)"
  by (cases v; simp add: fits_def stringField_def booleanField_def integerField_def arraySchema_def bound_holds_def)+

lemma properties_simps [simp]:
  "schema_properties (objectSchema P R) = Some P" "required_names (objectSchema P R) = R"
  "schema_properties (AList.update ''oneOf'' x (objectSchema P R)) = Some P"
  "required_names (AList.update ''oneOf'' x (objectSchema P R)) = R"
  by (simp_all add: schema_properties_def required_names_def objectSchema_def strings_def comp_def)

lemma required_given: "requiredString args name = Inr s \<Longrightarrow> map_of args name = Some (JStr s)"
  by (auto simp: requiredString_def split: option.splits json.splits if_splits)

lemma required_named: "requiredString args name = Inr s \<Longrightarrow> name \<in> fst ` set args"
  by (force dest: required_given map_of_SomeD)

lemma given_named: "map_of args name = Some v \<Longrightarrow> name \<in> fst ` set args"
  by (force dest: map_of_SomeD)

lemma member_required [simp]: "requiredString args name = Inr s \<Longrightarrow> fits_member args (name, JObj (stringField d))"
  by (simp add: fits_member_def required_given)

lemma member_string [simp]: "optionalString args name = Inr s \<Longrightarrow> fits_member args (name, JObj (stringField d))"
  by (auto simp: fits_member_def optionalString_def split: option.splits json.splits)

lemma member_bool [simp]: "optionalBool args name = Inr b \<Longrightarrow> fits_member args (name, JObj (booleanField d))"
  by (auto simp: fits_member_def optionalBool_def split: option.splits json.splits)

lemma int_given:
  "optionalInt args name fallback lo hi = Inr k \<Longrightarrow> map_of args name = Some v \<Longrightarrow> v = JNum (of_int k) \<and> lo \<le> k \<and> k \<le> hi"
  by (auto simp: optionalInt_def split: json.splits if_splits)

lemma member_int: "optionalInt args name fallback lo hi = Inr k \<Longrightarrow> low \<le> lo \<Longrightarrow> fits_member args (name, JObj (integerField d low))"
  using int_given by (fastforce simp: fits_member_def split: option.splits)

lemma member_text [simp]:
  "optionalString args name = Inr s \<Longrightarrow> map_of m ''const'' = None \<Longrightarrow> fits_member args (name, JObj ((''type'', JStr ''string'') # m))"
  "requiredString args name = Inr s \<Longrightarrow> map_of m ''const'' = None \<Longrightarrow> fits_member args (name, JObj ((''type'', JStr ''string'') # m))"
  by (auto simp: fits_member_def optionalString_def fits_def dest!: required_given split: option.splits json.splits)

text \<open>What a member is when it was read some other way.\<close>

lemma member_given:
  "map_of args name = Some v \<Longrightarrow> fits f v \<Longrightarrow> fits_member args (name, f)"
  "map_of args name = None \<Longrightarrow> fits_member args (name, f)"
  by (simp_all add: fits_member_def)

lemmas conforming = conforms_def onlyArgs_ok result_Inr

section \<open>The checks of the tools imply their schemas\<close>

lemma read_conforms: "readFile ex args fs = Inr r \<Longrightarrow> conforms readInput args"
  by (auto simp: readFile_def readInput_def conforming required_named member_int)

lemma write_conforms: "write_checks ex args False fs = Inr r \<Longrightarrow> conforms v3WriteInput args"
  by (auto simp: write_checks_def v3WriteInput_def conforming required_named member_given given_named)

lemma precondition_conforms:
  assumes "write_precondition ex args p fs = Inr c"
  shows "fits_member args (''if_absent'', JObj [(''type'', JStr ''boolean''), (''const'', JBool True), (''description'', d)])
    \<and> fits_member args (''expected_sha256'', JObj [(''type'', JStr ''string''), (''pattern'', x), (''description'', y)])"
proof -
  obtain absent given expected where r: "optionalBool args ''if_absent'' = Inr (absent, given)"
      "optionalString args ''expected_sha256'' = Inr expected" "given \<longrightarrow> absent"
    using assms by (auto simp: write_precondition_def result_Inr split: if_split_asm)
  then show ?thesis
    by (auto simp: fits_member_def optionalBool_def optionalString_def fits_def split: option.splits json.splits)
qed

lemma write_conforms_v4: "write_checks ex args True fs = Inr r \<Longrightarrow> conforms v4WriteInput args"
  by (auto simp: write_checks_def v4WriteInput_def conforming required_named member_given given_named dest!: precondition_conforms)

lemma directory_conforms: "listDirectory ex w args fs = Inr r \<Longrightarrow> conforms listInput args"
  by (auto simp: listDirectory_def listInput_def conforming required_named member_int Let_def)

lemma search_conforms: "search_call ex w args fs = Inr r \<Longrightarrow> conforms searchInput args"
  by (auto simp: search_call_def searchInput_def conforming required_named member_int split: prod.splits)

lemma find_conforms: "find_call ex w args fs = Inr r \<Longrightarrow> conforms findInput args"
  by (auto simp: find_call_def findInput_def conforming required_named member_int Let_def split: prod.splits)

lemma edit_conforms: "edit_checks ex args fs = Inr r \<Longrightarrow> conforms editInput args"
  by (auto simp: edit_checks_def editInput_def conforming required_named member_given given_named fits_def)

lemma removable_conforms:
  "removable ex args p fs info = Inr k \<Longrightarrow> map_of m ''const'' = None
   \<Longrightarrow> fits_member args (''expected_sha256'', JObj ((''type'', JStr ''string'') # m))"
  by (cases info) (auto simp: removable_def result_Inr member_given)

lemma move_conforms: "move_checks ex args fs = Inr r \<Longrightarrow> conforms moveInput args"
  by (auto simp: move_checks_def moveInput_def conforming required_named removable_conforms)

lemma delete_conforms: "delete_checks ex args fs = Inr r \<Longrightarrow> conforms deleteInput args"
  by (auto simp: delete_checks_def deleteInput_def conforming required_named removable_conforms)

lemma poll_conforms:
  "pollCommand c args False e = Inr r \<Longrightarrow> conforms v3PollInput args"
  "pollCommand c args True e = Inr r \<Longrightarrow> conforms v4PollInput args"
  by (auto simp: pollCommand_def v3PollInput_def v4PollInput_def conforming required_named member_int Let_def)

lemma cancel_conforms:
  "bind_result (onlyArgs args [''session_id'']) (\<lambda>_. requiredString args ''session_id'') = Inr i \<Longrightarrow> conforms cancelInput args"
  by (auto simp: cancelInput_def conforming required_named)

lemma member_limit:
  "optionalInt args name fallback 1 500 = Inr k
   \<Longrightarrow> fits_member args (name, JObj [(''type'', JStr ''integer''), (''minimum'', JNum 1), (''maximum'', JNum 500)])"
  using int_given by (fastforce simp: fits_member_def fits_def bound_holds_def split: option.splits)

lemma list_conforms: "listCommands now args e = Inr r \<Longrightarrow> td_InputSchema list_commands_tool = Some s \<Longrightarrow> conforms s args"
  by (auto simp: listCommands_def list_commands_tool_def conforming Let_def schema_properties_def required_names_def strings_def member_limit)

text \<open>A command next to an argument vector is looked at only when it is a string.\<close>

definition seen :: "string \<Rightarrow> object \<Rightarrow> object" where
  "seen name args =
    (if name = ''exec_command'' \<and> map_of args ''argv'' \<noteq> None then filter (\<lambda>(key, _). key \<noteq> ''command'') args else args)"

lemma exec_conforms: "exec_checks ex environ args False fs = Inr la \<Longrightarrow> conforms v3ExecInput args"
  by (auto simp: exec_checks_def command_of_def v3ExecInput_def conforming required_named member_int member_given given_named Let_def
      split: option.splits json.splits)

lemma map_of_without: "map_of (filter (\<lambda>(key, _). key \<noteq> k) args) name = (if name = k then None else map_of args name)"
  by (induction args) auto

lemma named_without: "name \<in> fst ` set (filter (\<lambda>(key, _). key \<noteq> k) args) \<longleftrightarrow> name \<noteq> k \<and> name \<in> fst ` set args"
  by force

lemma seen_command:
  assumes "command_of args True = Inr ca"
  shows "fits_member (seen ''exec_command'' args) (''command'', JObj (stringField d)) \<and> fits_member args (''argv'', JObj (AList.update ''minItems'' x (arraySchema i)))"
proof (cases "map_of args ''argv''")
  case None
  then show ?thesis using assms by (auto simp: command_of_def seen_def fits_member_def Let_def result_Inr split: option.splits json.splits if_split_asm)
next
  case (Some v)
  then show ?thesis using assms
    by (auto simp: command_of_def seen_def fits_member_def map_of_without Let_def parseArgv_def fits_def arraySchema_def split: option.splits json.splits if_split_asm)
qed

lemma exec_members:
  assumes "exec_checks ex environ args True fs = Inr la"
  shows "fst ` set args \<subseteq> {''command'', ''cwd'', ''timeout_seconds'', ''yield_time_ms'', ''argv'', ''env'', ''stdin''}
    \<and> (\<exists>s. map_of args ''cwd'' = Some (JStr s)) \<and> fits_member (seen ''exec_command'' args) (''command'', JObj (stringField d))
    \<and> fits_member args (''argv'', JObj argvField) \<and> fits_member args (''stdin'', JObj (stringField d1))
    \<and> fits_member args (''timeout_seconds'', JObj (integerField d2 1)) \<and> fits_member args (''yield_time_ms'', JObj (integerField d3 0))"
  using assms by (auto simp: exec_checks_def surroundings_def conforming member_int argvField_def dest: seen_command required_given split: if_split_asm)

lemma member_seen: "fst f \<noteq> ''command'' \<Longrightarrow> fits_member (seen name args) f = fits_member args f"
  by (simp add: fits_member_def seen_def map_of_without)

lemma any_env [simp]: "fits_member args (name, JObj ((''type'', JStr ''object'') # (''additionalProperties'', x) # []))"
  by (simp add: fits_member_def fits_def split: option.splits)

lemma seen_named:
  "fst ` set (seen name args) \<subseteq> fst ` set args" "k \<in> fst ` set args \<Longrightarrow> k \<noteq> ''command'' \<Longrightarrow> k \<in> fst ` set (seen name args)"
  by (auto simp: seen_def) 

lemma exec_conforms_v4:
  assumes "exec_checks ex environ args True fs = Inr la"
  shows "conforms v4ExecInput (seen ''exec_command'' args)"
proof -
  note m = exec_members [OF assms]
  obtain s where "map_of args ''cwd'' = Some (JStr s)" using conjunct1 [OF conjunct2 [OF m]] ..
  then have "''cwd'' \<in> fst ` set (seen ''exec_command'' args)" by (intro seen_named given_named) simp_all
  moreover have "fst ` set (seen ''exec_command'' args) \<subseteq> {''command'', ''cwd'', ''timeout_seconds'', ''yield_time_ms'', ''argv'', ''env'', ''stdin''}"
    by (rule subset_trans [OF seen_named(1) conjunct1 [OF m]])
  moreover have "fits_member args (''cwd'', JObj (stringField d))" for d
    using \<open>map_of args ''cwd'' = Some (JStr s)\<close> by (simp add: member_given)
  ultimately show ?thesis
    using m [THEN conjunct2, THEN conjunct2] unfolding v4ExecInput_def conforms_def by (auto simp: member_seen)
qed

section \<open>The list of v5\<close>

definition exec_input_v5 :: object where
  "exec_input_v5 = (case td_InputSchema (the (with_request_key (tools_v4 ! 4))) of Some s \<Rightarrow> s)"

lemma tools_v4_shape:
  "tools_v4 = [base_tools ! 0, (base_tools ! 1)\<lparr>td_InputSchema := Some v4WriteInput\<rparr>, base_tools ! 2, base_tools ! 3,
     (base_tools ! 4)\<lparr>td_InputSchema := Some v4ExecInput, td_OutputSchema := Some v4SessionOutput\<rparr>,
     (base_tools ! 5)\<lparr>td_InputSchema := Some v4PollInput, td_OutputSchema := Some v4SessionOutput\<rparr>,
     (base_tools ! 6)\<lparr>td_OutputSchema := Some v4CancelOutput\<rparr>] @ file_tools_v4"
  by (simp add: tools_v4_def base_tools_def)

lemma localTools_v5:
  obtains exec poll cancel where
    "localTools ''v5'' = Some (tools_v4[4 := exec, 5 := poll, 6 := cancel] @ [list_commands_tool])"
    "td_Name exec = ''exec_command''" "td_InputSchema exec = Some exec_input_v5"
    "td_Name poll = ''poll_command''" "td_InputSchema poll = Some v4PollInput"
    "td_Name cancel = ''cancel_command''" "td_InputSchema cancel = Some cancelInput"
proof -
  have "schema_properties v4SessionOutput = Some v4SessionProperties" "schema_properties v4CancelOutput = Some v4CancelProperties"
    "\<exists>ps. schema_properties v4ExecInput = Some ps"
    by (simp_all add: v4SessionOutput_def v4CancelOutput_def v4ExecInput_def)
  then show thesis
    by (intro that [of "the (with_session_fields (the (with_request_key (tools_v4 ! 4))))" "the (with_session_fields (tools_v4 ! 5))"
          "the (with_session_fields (tools_v4 ! 6))"])
      (auto simp: localTools_def commandToolsV5_def tools_v4_shape with_session_fields_def with_request_key_def exec_input_v5_def
        file_tools_v4_def base_tools_def localTool_def)
qed

lemma exec_input_v5:
  "schema_properties exec_input_v5 = Some (the (schema_properties v4ExecInput) @ [(''request_key'', JObj request_key_field)])"
  "required_names exec_input_v5 = [''cwd'', ''request_key'']"
  by (simp_all add: exec_input_v5_def tools_v4_shape with_request_key_def v4ExecInput_def objectSchema_def schema_properties_def required_names_def
      set_properties_def strings_def)

abbreviation unkeyed :: "object \<Rightarrow> object" where
  "unkeyed args \<equiv> filter (\<lambda>(name, _). name \<noteq> ''request_key'') args"

lemma seen_unkeyed: "seen name (unkeyed args) = unkeyed (seen name args)"
  by (auto simp: seen_def map_of_without intro!: filter_cong)

lemma exec_conforms_v5:
  assumes "requiredString args ''request_key'' = Inr key" "exec_checks ex environ (unkeyed args) True fs = Inr la"
  shows "conforms exec_input_v5 (seen ''exec_command'' args)"
proof -
  obtain P where P: "schema_properties v4ExecInput = Some P" "''request_key'' \<notin> fst ` set P" "required_names v4ExecInput = [''cwd'']"
    by (simp add: v4ExecInput_def)
  have c: "conforms v4ExecInput (unkeyed (seen ''exec_command'' args))"
    using exec_conforms_v4 [OF assms(2)] by (simp only: seen_unkeyed)
  have key: "map_of (seen ''exec_command'' args) ''request_key'' = Some (JStr key)"
    using required_given [OF assms(1)] by (simp add: seen_def map_of_without)
  have other: "fits_member (unkeyed b) f = fits_member b f" if "f \<in> set P" for b f
  proof -
    have "fst f \<noteq> ''request_key''" using P(2) imageI [OF that, of fst] by metis
    then show ?thesis by (simp add: fits_member_def map_of_without)
  qed
  have names: "fst ` set (seen ''exec_command'' args) \<subseteq> insert ''request_key'' (fst ` set (unkeyed (seen ''exec_command'' args)))"
    by (auto simp: image_iff)
  have n: "fst ` set (unkeyed (seen ''exec_command'' args)) \<subseteq> fst ` set P"
    using c P by (simp add: conforms_def)
  have "fits_member (seen ''exec_command'' args) (''request_key'', JObj request_key_field)"
    using key by (simp add: fits_member_def fits_def request_key_field_def)
  moreover have "list_all (fits_member (seen ''exec_command'' args)) P"
    using c P other by (simp add: conforms_def list_all_iff)
  moreover have "fst ` set (seen ''exec_command'' args) \<subseteq> fst ` set (P @ [(''request_key'', JObj request_key_field)])"
    using subset_trans [OF names insert_mono [OF n]] by simp
  moreover have "''cwd'' \<in> fst ` set (unkeyed (seen ''exec_command'' args))"
    using c P by (simp add: conforms_def)
  then have "''cwd'' \<in> fst ` set (seen ''exec_command'' args)" by (auto simp only: set_filter)
  ultimately show ?thesis
    using P(1) given_named [OF key] by (simp add: conforms_def exec_input_v5)
qed

section \<open>Refusing what violates the schema\<close>

lemma refuses_read: "\<not> conforms readInput args \<Longrightarrow> \<exists>err. perform W ReadFile args st = (Inl err, st)"
  by (cases "readFile (cl_executor (te_call W)) args (fst st)") (auto simp: perform_def answered_def Let_def read_conforms split: prod.splits)

lemma refuses_write:
  "\<not> conforms v3WriteInput args \<Longrightarrow> \<exists>err. perform W (WriteFile False) args st = (Inl err, st)"
  "\<not> conforms v4WriteInput args \<Longrightarrow> \<exists>err. perform W (WriteFile True) args st = (Inl err, st)"
  by (cases "write_checks (cl_executor (te_call W)) args False (fst st)"; cases st;
      auto simp: perform_def answered_def Let_def writeFile_def dest: write_conforms)
     (cases "write_checks (cl_executor (te_call W)) args True (fst st)"; cases st;
      auto simp: perform_def answered_def Let_def writeFile_def dest: write_conforms_v4)

lemma refuses_listing:
  "\<not> conforms listInput args \<Longrightarrow> \<exists>err. perform W ListDirectory args st = (Inl err, st)"
  "\<not> conforms searchInput args \<Longrightarrow> \<exists>err. perform W SearchFiles args st = (Inl err, st)"
  "\<not> conforms findInput args \<Longrightarrow> \<exists>err. perform W FindFiles args st = (Inl err, st)"
proof -
  let ?ex = "cl_executor (te_call W)"
  show "\<not> conforms listInput args \<Longrightarrow> \<exists>err. perform W ListDirectory args st = (Inl err, st)"
    by (cases "listDirectory ?ex (te_walk W) args (fst st)"; cases st; auto simp: perform_def answered_def Let_def dest: directory_conforms)
  show "\<not> conforms searchInput args \<Longrightarrow> \<exists>err. perform W SearchFiles args st = (Inl err, st)"
    by (cases "search_call ?ex (te_walk W) args (fst st)"; cases st; auto simp: perform_def answered_def Let_def searchFiles_def dest: search_conforms)
  show "\<not> conforms findInput args \<Longrightarrow> \<exists>err. perform W FindFiles args st = (Inl err, st)"
    by (cases "find_call ?ex (te_walk W) args (fst st)"; cases st; auto simp: perform_def answered_def Let_def findFiles_def dest: find_conforms)
qed

lemma refuses_change:
  "\<not> conforms editInput args \<Longrightarrow> \<exists>err. perform W EditFile args st = (Inl err, st)"
  "\<not> conforms moveInput args \<Longrightarrow> \<exists>err. perform W MovePath args st = (Inl err, st)"
  "\<not> conforms deleteInput args \<Longrightarrow> \<exists>err. perform W DeletePath args st = (Inl err, st)"
proof -
  let ?ex = "cl_executor (te_call W)"
  show "\<not> conforms editInput args \<Longrightarrow> \<exists>err. perform W EditFile args st = (Inl err, st)"
    by (cases "edit_checks ?ex args (fst st)"; cases st; auto simp: perform_def answered_def Let_def editFile_def dest: edit_conforms)
  show "\<not> conforms moveInput args \<Longrightarrow> \<exists>err. perform W MovePath args st = (Inl err, st)"
    by (cases "move_checks ?ex args (fst st)"; cases st; auto simp: perform_def answered_def Let_def movePath_def dest: move_conforms)
  show "\<not> conforms deleteInput args \<Longrightarrow> \<exists>err. perform W DeletePath args st = (Inl err, st)"
    by (cases "delete_checks ?ex args (fst st)"; cases st; auto simp: perform_def answered_def Let_def deletePath_def dest: delete_conforms)
qed

lemma refuses_session:
  "\<not> conforms v3PollInput args \<Longrightarrow> \<exists>err. perform W (PollCommand False) args st = (Inl err, st)"
  "\<not> conforms v4PollInput args \<Longrightarrow> \<exists>err. perform W (PollCommand True) args st = (Inl err, st)"
  "\<not> conforms cancelInput args \<Longrightarrow> \<exists>err. perform W (CancelCommand v4) args st = (Inl err, st)"
  "td_InputSchema list_commands_tool = Some s \<Longrightarrow> \<not> conforms s args \<Longrightarrow> \<exists>err. perform W ListCommands args st = (Inl err, st)"
proof -
  show "\<not> conforms v3PollInput args \<Longrightarrow> \<exists>err. perform W (PollCommand False) args st = (Inl err, st)"
    by (cases "pollCommand (te_call W) args False (snd st)"; cases st; auto simp: perform_def answered_def Let_def dest: poll_conforms)
  show "\<not> conforms v4PollInput args \<Longrightarrow> \<exists>err. perform W (PollCommand True) args st = (Inl err, st)"
    by (cases "pollCommand (te_call W) args True (snd st)"; cases st; auto simp: perform_def answered_def Let_def dest: poll_conforms)
  show "\<not> conforms cancelInput args \<Longrightarrow> \<exists>err. perform W (CancelCommand v4) args st = (Inl err, st)"
    by (cases "bind_result (onlyArgs args [''session_id'']) (\<lambda>_. requiredString args ''session_id'')"; cases st)
       (auto simp: perform_def answered_def Let_def cancelCommand_def dest: cancel_conforms)
  show "td_InputSchema list_commands_tool = Some s \<Longrightarrow> \<not> conforms s args \<Longrightarrow> \<exists>err. perform W ListCommands args st = (Inl err, st)"
    by (cases "listCommands (cl_now (te_call W)) args (snd st)"; cases st; auto simp: perform_def answered_def Let_def dest: list_conforms)
qed

lemma refuses_exec:
  "\<not> conforms v3ExecInput args \<Longrightarrow> \<exists>err. perform W (ExecCommand False) args st = (Inl err, st)"
  "\<not> conforms v4ExecInput (seen ''exec_command'' args) \<Longrightarrow> \<exists>err. perform W (ExecCommand True) args st = (Inl err, st)"
proof -
  let ?ex = "cl_executor (te_call W)" and ?env = "cl_environ (te_call W)"
  show "\<not> conforms v3ExecInput args \<Longrightarrow> \<exists>err. perform W (ExecCommand False) args st = (Inl err, st)"
    by (cases "exec_checks ?ex ?env args False (fst st)"; cases st; auto simp: perform_def answered_def Let_def execCommand_def dest: exec_conforms)
  show "\<not> conforms v4ExecInput (seen ''exec_command'' args) \<Longrightarrow> \<exists>err. perform W (ExecCommand True) args st = (Inl err, st)"
    by (cases "exec_checks ?ex ?env args True (fst st)"; cases st; auto simp: perform_def answered_def Let_def execCommand_def dest: exec_conforms_v4)
qed

lemma refuses_exec_once:
  assumes "\<not> conforms exec_input_v5 (seen ''exec_command'' args)"
    and "\<forall>key. map_of args ''request_key'' = Some (JStr key) \<longrightarrow> keyed_session (commandHash (te_encode W) (JStr key)) (snd st) = None"
  shows "\<exists>err. perform W ExecCommandOnce args st = (Inl err, st)"
proof (cases "requiredString args ''request_key''")
  case (Inr key)
  then have "keyed_session (commandHash (te_encode W) (JStr key)) (snd st) = None" using assms(2) required_given by blast
  moreover obtain err where "exec_checks (cl_executor (te_call W)) (cl_environ (te_call W)) (unkeyed args) True (fst st) = Inl err"
    using exec_conforms_v5 [OF Inr] assms(1) by (metis Inl_Inr_False obj_sumE)
  ultimately show ?thesis
    by (cases st) (simp add: perform_def answered_def Let_def execCommandOnce_def execCommand_def Inr command_identity_def)
qed (cases st, simp add: perform_def answered_def Let_def execCommandOnce_def)

lemma roots_input:
  "td_InputSchema rootsTool = Some s \<Longrightarrow> \<not> conforms s args \<Longrightarrow> \<exists>err. perform W ListAllowedRoots args st = (Inl err, st)"
  by (cases "onlyArgs args []"; cases st; auto simp: perform_def Let_def list_allowed_roots_def rootsTool_def localTool_def conforms_def onlyArgs_ok)

section \<open>The tools of each contract\<close>

definition inputs :: "mcpToolDefinition list \<Rightarrow> (string \<times> object option) list" where
  "inputs ts = map (\<lambda>t. (td_Name t, td_InputSchema t)) ts"

definition file_inputs :: "(string \<times> object option) list" where
  "file_inputs = [(''edit_file'', Some editInput), (''find_files'', Some findInput), (''move_path'', Some moveInput),
     (''delete_path'', Some deleteInput)]"

definition inputs_of :: "string \<Rightarrow> (string \<times> object option) list" where
  "inputs_of version =
    (let v4 = version \<in> {''v4'', ''v5''}
     in [(''read_file'', Some readInput), (''write_file'', Some (if v4 then v4WriteInput else v3WriteInput)),
         (''list_directory'', Some listInput), (''search_files'', Some searchInput),
         (''exec_command'', Some (if version = ''v5'' then exec_input_v5 else if v4 then v4ExecInput else v3ExecInput)),
         (''poll_command'', Some (if v4 then v4PollInput else v3PollInput)), (''cancel_command'', Some cancelInput)]
      @ (if v4 then file_inputs else []) @ [(''list_allowed_roots'', td_InputSchema rootsTool)]
      @ (if version = ''v5'' then [(''list_commands'', td_InputSchema list_commands_tool)] else []))"

lemma roots_name [simp]: "td_Name rootsTool = ''list_allowed_roots''" "td_Name list_commands_tool = ''list_commands''"
  by (simp_all add: rootsTool_def localTool_def list_commands_tool_def)

lemma inputs_app: "inputs (xs @ ys) = inputs xs @ inputs ys" "inputs [t] = [(td_Name t, td_InputSchema t)]"
  "inputs (xs[i := t]) = (inputs xs)[i := (td_Name t, td_InputSchema t)]"
  by (simp_all add: inputs_def map_update)

lemma inputs_v4: "inputs tools_v4 = inputs_of ''v4''"
  by (simp add: inputs_def inputs_of_def tools_v4_shape base_tools_def file_tools_v4_def file_inputs_def localTool_def)

lemma inputs_v3: "version \<noteq> ''v5'' \<Longrightarrow> version \<noteq> ''v4'' \<Longrightarrow> inputs tools_v3 = inputs_of version"
  by (simp add: inputs_def inputs_of_def tools_v3_def base_tools_def localTool_def)

lemma local_inputs: "\<exists>ts. localTools version = Some ts \<and> inputs ts = inputs_of version"
proof (cases "version = ''v5''")
  case True
  obtain exec poll cancel where t: "localTools ''v5'' = Some (tools_v4[4 := exec, 5 := poll, 6 := cancel] @ [list_commands_tool])"
    "td_Name exec = ''exec_command''" "td_InputSchema exec = Some exec_input_v5"
    "td_Name poll = ''poll_command''" "td_InputSchema poll = Some v4PollInput"
    "td_Name cancel = ''cancel_command''" "td_InputSchema cancel = Some cancelInput"
    by (rule localTools_v5)
  have "inputs (tools_v4[4 := exec, 5 := poll, 6 := cancel] @ [list_commands_tool]) = inputs_of ''v5''"
    by (simp add: inputs_app inputs_v4 t(2-7) inputs_of_def)
  then show ?thesis using t(1) by (simp add: True)
qed (simp_all add: localTools_def inputs_v3 inputs_v4)

text \<open>The tool a listed name picks.\<close>

definition tools_of :: "string \<Rightarrow> (string \<times> tool) list" where
  "tools_of version =
    (let v4 = version \<in> {''v4'', ''v5''}
     in [(''read_file'', ReadFile), (''write_file'', WriteFile v4), (''list_directory'', ListDirectory), (''search_files'', SearchFiles),
         (''exec_command'', if version = ''v5'' then ExecCommandOnce else ExecCommand v4), (''poll_command'', PollCommand v4),
         (''cancel_command'', CancelCommand v4)]
      @ (if v4 then [(''edit_file'', EditFile), (''find_files'', FindFiles), (''move_path'', MovePath), (''delete_path'', DeletePath)] else [])
      @ [(''list_allowed_roots'', ListAllowedRoots)] @ (if version = ''v5'' then [(''list_commands'', ListCommands)] else []))"

lemma tools_of_names: "map fst (tools_of version) = map fst (inputs_of version)"
  by (simp add: tools_of_def inputs_of_def file_inputs_def Let_def)

lemma tools_of_runs:
  "executeTool browser version name =
    (if version = ''v5'' \<and> HasPrefix name ''browser_'' then (if browser then BrowserTool name else BrowserDisabled)
     else case map_of (tools_of version) name of None \<Rightarrow> UnknownTool | Some t \<Rightarrow> t)"
  by (simp add: executeTool_def executeTool_v4_def tools_of_def HasPrefix_def Let_def)

lemma conforms_v3_seen: "conforms v3ExecInput (seen name args) \<or> \<not> conforms v3ExecInput args"
proof (cases "map_of args ''argv''")
  case (Some v)
  then have "''argv'' \<in> fst ` set args" by (rule given_named)
  then have "\<not> conforms v3ExecInput args" unfolding conforms_def v3ExecInput_def by (simp del: insert_iff) auto
  then show ?thesis ..
qed (auto simp: seen_def)

lemma aligned:
  assumes "(name, x) \<in> set xs" "map fst xs = map fst ys" "distinct (map fst ys)"
  obtains y where "((name, x), (name, y)) \<in> set (zip xs ys)" "map_of ys name = Some y"
proof -
  obtain i where i: "i < length xs" "xs ! i = (name, x)" using assms(1) by (auto simp: in_set_conv_nth)
  have len: "length xs = length ys" using arg_cong [OF assms(2), of length] by simp
  have "fst (ys ! i) = name" using i len arg_cong [OF assms(2), of "\<lambda>l. l ! i"] by simp
  then obtain y where y: "ys ! i = (name, y)" by (metis prod.collapse)
  have "((name, x), (name, y)) \<in> set (zip xs ys)" unfolding set_zip using i y len by simp (metis)
  moreover have "map_of ys name = Some y" using assms(3) y i len by (metis map_of_is_SomeI nth_mem)
  ultimately show thesis by (rule that)
qed

lemma tools_distinct: "distinct (map fst (tools_of version))"
proof -
  consider "version = ''v5''" | "version = ''v4''" | "version \<noteq> ''v5''" "version \<noteq> ''v4''" by blast
  then show ?thesis by cases (simp_all add: tools_of_def)
qed

definition refusing :: "toolEnv \<Rightarrow> object \<Rightarrow> machine \<Rightarrow> (string \<times> object option) \<times> string \<times> tool \<Rightarrow> bool" where
  "refusing W args st = (\<lambda>((name, s), _, T). name = ''exec_command'' \<or>
     (\<forall>schema'. s = Some schema' \<longrightarrow> \<not> conforms schema' args \<longrightarrow> (\<exists>err. perform W T args st = (Inl err, st))))"

lemma all_refusing: "list_all (refusing W args st) (zip (inputs_of version) (tools_of version))"
proof -
  note simps = inputs_of_def file_inputs_def tools_of_def Let_def refusing_def roots_input
    refuses_read refuses_write refuses_listing refuses_change refuses_session
  consider "version = ''v5''" | "version = ''v4''" | "version \<noteq> ''v5''" "version \<noteq> ''v4''" by blast
  then show ?thesis by cases (simp_all add: simps)
qed

lemma input_picks:
  assumes "(name, Some s) \<in> set (inputs_of version)" "\<not> conforms s (seen name args)"
    and "version = ''v5'' \<Longrightarrow> name = ''exec_command'' \<Longrightarrow>
      \<forall>key. map_of args ''request_key'' = Some (JStr key) \<longrightarrow> keyed_session (commandHash (te_encode W) (JStr key)) (snd st) = None"
  shows "\<exists>err. perform W (executeTool browser version name) args st = (Inl err, st)"
proof -
  obtain T where T: "((name, Some s), (name, T)) \<in> set (zip (inputs_of version) (tools_of version))" "map_of (tools_of version) name = Some T"
    by (rule aligned [OF assms(1) tools_of_names [symmetric] tools_distinct])
  have "\<not> HasPrefix name ''browser_''"
  proof -
    have "list_all (\<lambda>n. \<not> HasPrefix n ''browser_'') (map fst (inputs_of version))"
      by (simp add: inputs_of_def file_inputs_def Let_def HasPrefix_def)
    moreover have "name \<in> set (map fst (inputs_of version))" using imageI [OF assms(1), of fst] by simp
    ultimately show ?thesis unfolding list_all_iff by blast
  qed
  then have picks: "executeTool browser version name = T" by (simp add: tools_of_runs T(2))
  show ?thesis
  proof (cases "name = ''exec_command''")
    case False
    then have "\<not> conforms s args" using assms(2) by (simp add: seen_def)
    moreover have "refusing W args st ((name, Some s), (name, T))" using all_refusing T(1) by (auto simp only: list_all_iff)
    ultimately show ?thesis using False picks by (auto simp: refusing_def)
  next
    case True
    then have T': "T = (if version = ''v5'' then ExecCommandOnce else ExecCommand (version = ''v4''))"
      using T(2) by (auto simp: tools_of_def Let_def split: if_split_asm)
    have "distinct (map fst (inputs_of version))" using tools_distinct [of version] unfolding tools_of_names .
    from map_of_is_SomeI [OF this assms(1)]
    have "s = (if version = ''v5'' then exec_input_v5 else if version = ''v4'' then v4ExecInput else v3ExecInput)"
      by (auto simp: True inputs_of_def Let_def split: if_split_asm)
    then show ?thesis
      using assms(2,3) True T' picks conforms_v3_seen [of name args] refuses_exec [of args W st] refuses_exec_once [of args W st]
      by (auto split: if_split_asm)
  qed
qed



lemma inputs_routable:
  "list_all (\<lambda>(name, s). \<exists>P. Option.bind s schema_properties = Some P \<and> map_of P ''agent_id'' = None) (inputs_of version)"
  by (simp add: inputs_of_def file_inputs_def rootsTool_def localTool_def list_commands_tool_def exec_input_v5 readInput_def v3WriteInput_def
      v4WriteInput_def listInput_def searchInput_def v4ExecInput_def v3ExecInput_def v3PollInput_def v4PollInput_def cancelInput_def
      editInput_def findInput_def moveInput_def deleteInput_def request_key_field_def schema_properties_def [of "[_, _, _, _]"] Let_def)

lemma routable:
  "td_InputSchema t = Some s \<Longrightarrow> schema_properties s = Some P \<Longrightarrow> map_of P ''agent_id'' = None
   \<Longrightarrow> \<not> isl (route_tool count computers (tool_object t))"
  by (auto simp: route_tool_def tool_object_def member_object_def schema_properties_def Let_def split: option.splits json.splits)

text \<open>C34: the lists are exactly what the agent runs. Under every contract the agent has a list of local tools, of distinct names,
  and a name is on it exactly when \<open>executeTool\<close> runs a tool of the machine for it; and the gate that merges the lists of
  several computers can route every one of them.\<close>

theorem listed_tools_run:
  "\<exists>ts. localTools version = Some ts \<and> distinct (map td_Name ts)
    \<and> (\<forall>name. name \<in> td_Name ` set ts \<longleftrightarrow>
         executeTool browser version name \<notin> {UnknownTool, BrowserDisabled, BrowserTool name})
    \<and> list_all (\<lambda>t. \<not> isl (route_tool count computers (tool_object t))) ts"
proof -
  obtain ts where ts: "localTools version = Some ts" "inputs ts = inputs_of version" using local_inputs by blast
  have names: "map td_Name ts = map fst (tools_of version)"
    using arg_cong [OF ts(2), of "map fst"] by (simp add: tools_of_names) (simp add: inputs_def comp_def)
  have "name \<in> td_Name ` set ts \<longleftrightarrow> executeTool browser version name \<notin> {UnknownTool, BrowserDisabled, BrowserTool name}" for name
  proof -
    have "list_all (\<lambda>(n, T). T \<notin> {UnknownTool, BrowserDisabled} \<and> (\<forall>b. T \<noteq> BrowserTool b) \<and> \<not> HasPrefix n ''browser_'') (tools_of version)"
      by (simp add: tools_of_def Let_def HasPrefix_def)
    moreover have "name \<in> td_Name ` set ts \<longleftrightarrow> map_of (tools_of version) name \<noteq> None"
      using arg_cong [OF names, of set] by (simp add: map_of_eq_None_iff)
    ultimately show ?thesis
      by (auto simp: tools_of_runs list_all_iff dest!: map_of_SomeD split: option.splits)
  qed
  moreover have "list_all (\<lambda>t. \<not> isl (route_tool count computers (tool_object t))) ts"
  proof -
    have "list_all (\<lambda>(name, s). \<exists>P. Option.bind s schema_properties = Some P \<and> map_of P ''agent_id'' = None) (inputs ts)"
      using inputs_routable [of version] ts(2) by simp
    then show ?thesis by (fastforce simp: list_all_iff inputs_def bind_eq_Some_conv dest: routable)
  qed
  ultimately show ?thesis using ts(1) names tools_distinct [of version] by auto
qed

end
