(* ===== verification/AgentStream.thy ===== *)
theory AgentStream
  imports AgentSetup
begin

text \<open>The agent's side of the link (\<open>src/cmd/agent/gate_stream.go\<close> and the loop of \<open>main.go\<close>): the stream of requests, the
  goroutine each one gets, and the post of its result; and the exchange of the gate's link with it. The clock is read at every
  line and again when its goroutine starts.\<close>

section \<open>A line of the stream\<close>

text \<open>A decoded time is none when it is not one; the deadline is zero when the line has none.\<close>

fun time_field :: "(json \<Rightarrow> time option) \<Rightarrow> time \<Rightarrow> json list \<Rightarrow> time option" where
  "time_field parse t [] = Some t"
| "time_field parse t (JNull # vs) = time_field parse t vs"
| "time_field parse t (v # vs) = (case parse v of None \<Rightarrow> None | Some u \<Rightarrow> time_field parse u vs)"

definition decode_request :: "(json \<Rightarrow> time option) \<Rightarrow> raw_json \<Rightarrow> request option" where
  "decode_request parse line =
    (case struct_members line of
       None \<Rightarrow> None
     | Some m \<Rightarrow>
        (case (string_field [] (field ''id'' m), time_field parse 0 (field ''deadline'' m)) of
           (Some i, Some deadline) \<Rightarrow>
             Some \<lparr>req_ID = i,
                   req_body = (case raw_field (field ''request'' m) of None \<Rightarrow> Malformed [] | Some body \<Rightarrow> Document body),
                   req_deadline = deadline\<rparr>
         | _ \<Rightarrow> None))"

datatype streamLine = BlankLine | BadLine | ExpiredLine | HandleLine request

definition stream_line :: "(string \<Rightarrow> raw_json) \<Rightarrow> (json \<Rightarrow> time option) \<Rightarrow> time \<Rightarrow> string \<Rightarrow> streamLine" where
  "stream_line parse parse_time now raw =
    (let line = TrimSpace raw
     in if line = [] then BlankLine
        else case decode_request parse_time (parse line) of
          None \<Rightarrow> BadLine
        | Some r \<Rightarrow> if past_deadline now r then ExpiredLine else HandleLine r)"

definition stream_max :: nat where "stream_max = 2 * 1024 * 1024"

text \<open>The requests that get a goroutine, and the error the loop ends with: the lines with the time each was read at, and
  whether the reading failed after them. A line that does not fit the buffer ends the loop.\<close>

fun scan_stream ::
  "(string \<Rightarrow> raw_json) \<Rightarrow> (json \<Rightarrow> time option) \<Rightarrow> bool \<Rightarrow> (time \<times> string) list \<Rightarrow> request list \<times> string" where
  "scan_stream parse parse_time broken [] = ([], if broken then ''read stream'' else ''stream closed'')"
| "scan_stream parse parse_time broken ((now, line) # rest) =
    (if length line \<ge> stream_max then ([], ''read stream'')
     else case scan_stream parse parse_time broken rest of
       (rs, e) \<Rightarrow> (case stream_line parse parse_time now line of HandleLine r \<Rightarrow> (r # rs, e) | _ \<Rightarrow> (rs, e)))"

definition streamOnce ::
  "(string \<Rightarrow> raw_json) \<Rightarrow> (json \<Rightarrow> time option) \<Rightarrow> nat option \<Rightarrow> bool \<Rightarrow> (time \<times> string) list \<Rightarrow> request list \<times> string" where
  "streamOnce parse parse_time status broken lines =
    (case status of
       None \<Rightarrow> ([], ''connect stream'')
     | Some code \<Rightarrow> if code \<noteq> 200 then ([], ''stream status'') else scan_stream parse parse_time broken lines)"

section \<open>A request\<close>

text \<open>\<open>out\<close> is what \<open>call\<close> returned; a request without an id is not answered.\<close>

definition request_result :: "request \<Rightarrow> raw_json \<times> string option \<Rightarrow> response option" where
  "request_result r out =
    (if req_ID r = [] then None
     else Some \<lparr>resp_ID = req_ID r, resp_body = fst out, resp_error = (case snd out of None \<Rightarrow> [] | Some e \<Rightarrow> e)\<rparr>)"

definition handleRequest :: "time \<Rightarrow> (request \<Rightarrow> raw_json \<times> string option) \<Rightarrow> request \<Rightarrow> response option" where
  "handleRequest started call r = (if past_deadline started r then None else request_result r (call r))"

definition result_body :: "response \<Rightarrow> json option" where
  "result_body r =
    (case resp_body r of
       Document body \<Rightarrow> Some (JObj ([(''id'', JStr (resp_ID r)), (''response'', body)]
          @ (if resp_error r = [] then [] else [(''error'', JStr (resp_error r))])))
     | Malformed text \<Rightarrow>
         if text \<noteq> [] then None
         else Some (JObj ((''id'', JStr (resp_ID r)) # (if resp_error r = [] then [] else [(''error'', JStr (resp_error r))]))))"

text \<open>The error of the post; \<open>Post\<close> is the status of the reply, where there is one within thirty seconds.\<close>

definition sendResult :: "(json \<Rightarrow> nat option) \<Rightarrow> response \<Rightarrow> string option" where
  "sendResult Post r =
    (case result_body r of
       None \<Rightarrow> Some ''encode result''
     | Some body \<Rightarrow>
        (case Post body of
           None \<Rightarrow> Some ''post result''
         | Some code \<Rightarrow> if code \<noteq> 204 then Some ''result status'' else None))"

section \<open>The process\<close>

text \<open>The address of the gate and the token; without both the process ends.\<close>

definition agent_identity :: "environment \<Rightarrow> (string \<times> string) option" where
  "agent_identity ev =
    (let gateURL = TrimRightSlash (env_value ev ''WEBCODEX_GATE_URL'' []);
         token = env_value ev ''WEBCODEX_AGENT_TOKEN'' []
     in if gateURL = [] \<or> token = [] then None else Some (gateURL, token))"

text \<open>The roots are asked for until an answer is there; none when the process is stopped first.\<close>

fun await_roots :: "environment \<Rightarrow> (unit \<Rightarrow> configReply option) list \<Rightarrow> string option" where
  "await_roots ev [] = None"
| "await_roots ev (Do # later) =
    (case loadAllowedRoots ev Do of Inr roots \<Rightarrow> Some roots | Inl _ \<Rightarrow> await_roots ev later)"

section \<open>The exchange\<close>

text \<open>
  The gate's link together with the agent: \<open>xc_wire\<close> holds the lines written to the stream and not yet read, \<open>xc_waiting\<close>
  the requests whose goroutine has not looked at the clock, \<open>xc_running\<close> those being executed, \<open>xc_posted\<close> the results on
  their way. As history, what was started and at what time, and what each request was answered.
\<close>

record exchange =
  xc_link :: link
  xc_wire :: "request list"
  xc_waiting :: "request list"
  xc_running :: "request list"
  xc_posted :: "response list"
  xc_started :: "(time \<times> request) list"
  xc_answered :: "(request \<times> response) list"

definition new_exchange :: "string \<Rightarrow> exchange" where
  "new_exchange i = \<lparr>xc_link = new_link i, xc_wire = [], xc_waiting = [], xc_running = [], xc_posted = [], xc_started = [],
     xc_answered = []\<rparr>"

text \<open>A lost line or post is one of a connection that broke, of a full buffer or of a stopped process.\<close>

inductive exchange_step :: "exchange \<Rightarrow> exchange \<Rightarrow> bool" where
  gate: "link_step (xc_link s) l \<Longrightarrow> lk_written l = lk_written (xc_link s) \<Longrightarrow> length (lk_results l) \<le> length (lk_results (xc_link s)) \<Longrightarrow>
    exchange_step s (s\<lparr>xc_link := l\<rparr>)"
| written: "link_step (xc_link s) l \<Longrightarrow> lk_written l = (now, r) # lk_written (xc_link s) \<Longrightarrow>
    exchange_step s (s\<lparr>xc_link := l, xc_wire := xc_wire s @ [r]\<rparr>)"
| lost: "r \<in> set (xc_wire s) \<Longrightarrow> exchange_step s (s\<lparr>xc_wire := remove1 r (xc_wire s)\<rparr>)"
| read: "r \<in> set (xc_wire s) \<Longrightarrow> \<not> past_deadline now r \<Longrightarrow>
    exchange_step s (s\<lparr>xc_wire := remove1 r (xc_wire s), xc_waiting := r # xc_waiting s\<rparr>)"
| late: "r \<in> set (xc_waiting s) \<Longrightarrow> past_deadline now r \<Longrightarrow> exchange_step s (s\<lparr>xc_waiting := remove1 r (xc_waiting s)\<rparr>)"
| start: "r \<in> set (xc_waiting s) \<Longrightarrow> \<not> past_deadline now r \<Longrightarrow>
    exchange_step s (s\<lparr>xc_waiting := remove1 r (xc_waiting s), xc_running := r # xc_running s, xc_started := (now, r) # xc_started s\<rparr>)"
| finish: "r \<in> set (xc_running s) \<Longrightarrow> request_result r out = Some resp \<Longrightarrow>
    exchange_step s (s\<lparr>xc_running := remove1 r (xc_running s), xc_posted := resp # xc_posted s, xc_answered := (r, resp) # xc_answered s\<rparr>)"
| unanswered: "r \<in> set (xc_running s) \<Longrightarrow> exchange_step s (s\<lparr>xc_running := remove1 r (xc_running s)\<rparr>)"
| posted: "resp \<in> set (xc_posted s) \<Longrightarrow> result_lookup now resp (lk_rt (xc_link s)) = Some (ch, rt) \<Longrightarrow>
    exchange_step s (s\<lparr>xc_posted := remove1 resp (xc_posted s),
      xc_link := (xc_link s)\<lparr>lk_rt := rt, lk_results := (ch, resp) # lk_results (xc_link s)\<rparr>\<rparr>)"
| unposted: "resp \<in> set (xc_posted s) \<Longrightarrow> exchange_step s (s\<lparr>xc_posted := remove1 resp (xc_posted s)\<rparr>)"

end
