(* ===== verification/StreamFacts.thy ===== *)
theory StreamFacts
  imports AgentStream RuntimeFacts "HOL-Library.Multiset"
begin

text \<open>What the exchange of the gate with the agent guarantees to a caller, however the goroutines of both interleave.\<close>

text \<open>The responses the link holds or returned.\<close>

definition link_responses :: "link \<Rightarrow> response set" where
  "link_responses l = snd ` set (lk_results l) \<union> ran (rt_chans (lk_rt l)) \<union> snd ` set (lk_returned l)"

lemma ran_mono: "m \<subseteq>\<^sub>m n \<Longrightarrow> ran m \<subseteq> ran n"
  by (force simp: map_le_def ran_def dom_def)

lemma link_step_responses:
  "link_step s t \<Longrightarrow> length (lk_results t) \<le> length (lk_results s) \<Longrightarrow> link_responses t \<subseteq> link_responses s"
proof (induction rule: link_step.induct)
  case (send ch r s rt)
  then have "ran (rt_chans rt) \<subseteq> insert r (ran (rt_chans (lk_rt s)))"
    by (auto simp: result_send_def ran_def split: if_splits)
  moreover have "r \<in> snd ` set (lk_results s)" using send(1) by force
  ultimately show ?case using set_remove1_subset [of "(ch, r)" "lk_results s"] by (auto simp: link_responses_def)
next
  case (return_result i ch s r out rt)
  then obtain chans where "rt = (lk_rt s)\<lparr>rt_chans := chans, rt_pending := (rt_pending (lk_rt s))(i := None)\<rparr>" "chans \<subseteq>\<^sub>m rt_chans (lk_rt s)"
    using callAgent_end_rt by blast
  moreover have "r \<in> ran (rt_chans (lk_rt s))" using return_result(2) by (rule ranI)
  ultimately show ?case using ran_mono by (fastforce simp: link_responses_def)
next
  case (give_up i ch s w out rt)
  then show ?case using ran_mono by (fastforce simp: link_responses_def dest!: callAgent_end_rt)
qed (auto simp: link_responses_def activateAgentStream_def deactivateAgentStream_def disconnect_def Let_def
    split: option.splits dest!: callAgent_begin_Inr callAgent_begin_Inl stream_dispatch_cases)

definition exchange_inv :: "exchange \<Rightarrow> bool" where
  "exchange_inv s \<longleftrightarrow>
     link_inv (xc_link s)
     \<and> link_responses (xc_link s) \<union> set (xc_posted s) \<subseteq> snd ` set (xc_answered s)
     \<and> (\<forall>(r, resp) \<in> set (xc_answered s). resp_ID resp = req_ID r \<and> r \<in> snd ` set (xc_started s))
     \<and> set (xc_running s) \<subseteq> snd ` set (xc_started s)
     \<and> (\<forall>(t, r) \<in> set (xc_started s). \<not> past_deadline t r)
     \<and> mset (xc_wire s) + mset (xc_waiting s) + mset (map snd (xc_started s)) \<subseteq># mset (map snd (lk_written (xc_link s)))"

lemma exchange_inv_new: "exchange_inv (new_exchange i)"
  using link_inv_new by (simp add: exchange_inv_def new_exchange_def link_responses_def) (simp add: new_link_def newAgentRuntime_def)

lemma request_result_ID: "request_result r out = Some resp \<Longrightarrow> resp_ID resp = req_ID r"
  by (auto simp: request_result_def split: if_splits)

text \<open>Requests only go on, or get lost.\<close>

lemma shrink:
  "mset xs + b + c \<subseteq># (d :: 'a multiset) \<Longrightarrow> mset (remove1 r xs) + b + c \<subseteq># d"
  "b + mset xs + c \<subseteq># (d :: 'a multiset) \<Longrightarrow> b + mset (remove1 r xs) + c \<subseteq># d"
  by (auto intro: subset_mset.order_trans [rotated] subset_mset.add_mono)

lemma pass_on:
  "r \<in> set xs \<Longrightarrow> add_mset r (mset (remove1 r xs) + b + c) = mset xs + b + c"
  "r \<in> set xs \<Longrightarrow> add_mset r (b + mset (remove1 r xs) + c) = b + mset xs + c"
  by simp_all

lemma exchange_step_inv: "exchange_step s t \<Longrightarrow> exchange_inv s \<Longrightarrow> exchange_inv t"
proof (induction rule: exchange_step.induct)
  case (gate s l)
  then show ?case using link_step_inv [of "xc_link s" l] link_step_responses [of "xc_link s" l]
    by (auto simp: exchange_inv_def)
next
  case (written s l now r)
  then have "length (lk_results l) \<le> length (lk_results (xc_link s))"
    by (auto elim: link_step.cases)
  then have "link_responses l \<subseteq> link_responses (xc_link s)" by (rule link_step_responses [OF written(1)])
  then show ?case using written link_step_inv [of "xc_link s" l] by (auto simp: exchange_inv_def add.assoc)
next
  case (lost r s)
  then show ?case by (simp add: exchange_inv_def shrink del: mset_remove1)
next
  case (read r s now)
  then show ?case by (simp add: exchange_inv_def pass_on del: mset_remove1)
next
  case (late r s now)
  then show ?case by (simp add: exchange_inv_def shrink del: mset_remove1)
next
  case (start r s now)
  then show ?case by (auto simp: exchange_inv_def pass_on simp del: mset_remove1)
next
  case (finish r s out resp)
  then show ?case using request_result_ID [OF finish(2)] set_remove1_subset [of r "xc_running s"] by (auto simp: exchange_inv_def)
next
  case (unanswered r s)
  then show ?case using set_remove1_subset [of r "xc_running s"] by (auto simp: exchange_inv_def)
next
  case (posted resp s now ch rt)
  have "link_step (xc_link s) ((xc_link s)\<lparr>lk_rt := rt, lk_results := (ch, resp) # lk_results (xc_link s)\<rparr>)"
    by (rule link_step.result [OF posted(2)])
  moreover have "link_responses ((xc_link s)\<lparr>lk_rt := rt, lk_results := (ch, resp) # lk_results (xc_link s)\<rparr>)
      = insert resp (link_responses (xc_link s))"
    using posted(2) by (auto simp: link_responses_def result_lookup_def touch_def split: option.splits)
  ultimately show ?case
    using posted link_step_inv set_remove1_subset [of resp "xc_posted s"] by (auto simp: exchange_inv_def)
next
  case (unposted resp s)
  then show ?case using set_remove1_subset [of resp "xc_posted s"] by (auto simp: exchange_inv_def)
qed

interpretation exchange: invariant_system "\<lambda>s. \<exists>i. s = new_exchange i" exchange_step exchange_inv
proof unfold_locales
  show "exchange_inv s" if "\<exists>i. s = new_exchange i" for s
    using that exchange_inv_new by blast
  show "exchange_inv t" if "exchange_inv s" "exchange_step s t" for s t
    using that(2,1) by (rule exchange_step_inv)
qed


section \<open>A run\<close>

definition exchange_at :: "link \<Rightarrow> request list \<Rightarrow> request list \<Rightarrow> request list \<Rightarrow> response list \<Rightarrow> (time \<times> request) list
    \<Rightarrow> (request \<times> response) list \<Rightarrow> exchange" where
  "exchange_at l a b c d e f =
    \<lparr>xc_link = l, xc_wire = a, xc_waiting = b, xc_running = c, xc_posted = d, xc_started = e, xc_answered = f\<rparr>"

lemma exchange_gate:
  "link_step l l' \<Longrightarrow> lk_written l' = lk_written l \<Longrightarrow> length (lk_results l') \<le> length (lk_results l)
   \<Longrightarrow> exchange_step (exchange_at l a b c d e f) (exchange_at l' a b c d e f)"
  using exchange_step.gate [of "exchange_at l a b c d e f" l'] by (simp add: exchange_at_def)

lemma exchange_run:
  "reach (\<lambda>s. \<exists>i. s = new_exchange i) exchange_step (exchange_at run6 [] [] [] [] [(4, run_request)] [(run_request, run_response)])"
proof -
  let ?s = "[(4, run_request)]" and ?a = "[(run_request, run_response)]"
  have early: "\<not> past_deadline 4 run_request" by (simp add: past_deadline_def run_request_def)
  have "reach (\<lambda>s. \<exists>i. s = new_exchange i) exchange_step (exchange_at (new_link ''pc'') [] [] [] [] [] [])"
    by (rule reach_start) (auto simp: exchange_at_def new_exchange_def)
  moreover have "exchange_step (exchange_at (new_link ''pc'') [] [] [] [] [] []) (exchange_at run1 [] [] [] [] [] [])"
    by (rule exchange_gate [OF run_step1]) (simp_all add: run1_def new_link_def)
  moreover have "exchange_step (exchange_at run1 [] [] [] [] [] []) (exchange_at run2 [] [] [] [] [] [])"
    by (rule exchange_gate [OF run_step2]) (simp_all add: run_defs)
  moreover have "exchange_step (exchange_at run2 [] [] [] [] [] []) (exchange_at run3 [run_request] [] [] [] [] [])"
    using exchange_step.written [of "exchange_at run2 [] [] [] [] [] []" run3 3 run_request] run_step3 by (simp add: exchange_at_def run_defs)
  moreover have "exchange_step (exchange_at run3 [run_request] [] [] [] [] []) (exchange_at run3 [] [run_request] [] [] [] [])"
    using exchange_step.read [OF _ early, of "exchange_at run3 [run_request] [] [] [] [] []"] by (simp add: exchange_at_def)
  moreover have "exchange_step (exchange_at run3 [] [run_request] [] [] [] []) (exchange_at run3 [] [] [run_request] [] ?s [])"
    using exchange_step.start [OF _ early, of "exchange_at run3 [] [run_request] [] [] [] []"] by (simp add: exchange_at_def)
  moreover have "exchange_step (exchange_at run3 [] [] [run_request] [] ?s []) (exchange_at run3 [] [] [] [run_response] ?s ?a)"
    using exchange_step.finish [of run_request "exchange_at run3 [] [] [run_request] [] ?s []" "(Document JNull, None)" run_response]
    by (simp add: exchange_at_def request_result_def run_request_def run_response_def)
  moreover have "exchange_step (exchange_at run3 [] [] [] [run_response] ?s ?a) (exchange_at run4 [] [] [] [] ?s ?a)"
    using exchange_step.posted [of run_response "exchange_at run3 [] [] [] [run_response] ?s ?a" 4 0 "lk_rt run4"]
    by (simp add: exchange_at_def run_defs result_lookup_def touch_def)
  moreover have "exchange_step (exchange_at run4 [] [] [] [] ?s ?a) (exchange_at run5 [] [] [] [] ?s ?a)"
    by (rule exchange_gate [OF run_step5]) (simp_all add: run_defs)
  moreover have "exchange_step (exchange_at run5 [] [] [] [] ?s ?a) (exchange_at run6 [] [] [] [] ?s ?a)"
    by (rule exchange_gate [OF run_step6]) (simp_all add: run_defs)
  ultimately show ?thesis by (meson reach_step)
qed


end
