(* ===== verification/BrowserDiagnostics.thy ===== *)
theory BrowserDiagnostics
  imports UrlPolicy SessionTools
begin

text \<open>The diagnostics a browser tab keeps of its page (\<open>src/cmd/agent/browser_diagnostics.go\<close>): the requests on their way and the
  last hundred failures. The printers of times and statuses are arguments. An event is the object the browser sent.\<close>

record requestTrace =
  tr_At :: time
  tr_Operation :: string
  tr_URL :: string

text \<open>The part of a tab its lock \<open>eventMu\<close> guards.\<close>

record tabEvents =
  ev_requests :: "(string \<times> requestTrace) list"
  ev_frameEpoch :: nat
  ev_snapshot :: string
  ev_worlds :: "(string \<times> int) list"
  ev_dialog :: bool
  ev_lastOperation :: string
  ev_diagnostics :: "object list"
  ev_dropped :: nat

record printers =
  pr_time :: "time \<Rightarrow> string"
  pr_number :: "rat \<Rightarrow> string"

definition browserNetworkFailure :: "string \<Rightarrow> bool \<Rightarrow> string" where
  "browserNetworkFailure raw canceled =
    (if canceled then ''cancelled''
     else if raw \<in> {''net::ERR_TIMED_OUT'', ''net::ERR_CONNECTION_TIMED_OUT'', ''timeout''} then ''timeout''
     else if raw \<in> {''net::ERR_NAME_NOT_RESOLVED'', ''dns''} then ''dns''
     else if raw \<in> {''net::ERR_CONNECTION_RESET'', ''net::ERR_CONNECTION_REFUSED'', ''net::ERR_CONNECTION_CLOSED'',
                     ''net::ERR_INTERNET_DISCONNECTED'', ''connection''} then ''connection''
     else if raw \<in> {''net::ERR_BLOCKED_BY_CLIENT'', ''net::ERR_BLOCKED_BY_RESPONSE'', ''blocked''} then ''blocked''
     else if raw = ''cancelled'' then ''cancelled''
     else ''other'')"

text \<open>Assertions of type that fail give the zero value.\<close>

definition text_of :: "object \<Rightarrow> string \<Rightarrow> string" where
  "text_of m name = (case map_of m name of Some (JStr s) \<Rightarrow> s | _ \<Rightarrow> [])"

definition number_of :: "object \<Rightarrow> string \<Rightarrow> rat" where
  "number_of m name = (case map_of m name of Some (JNum n) \<Rightarrow> n | _ \<Rightarrow> 0)"

definition flag_of :: "object \<Rightarrow> string \<Rightarrow> bool" where
  "flag_of m name = (case map_of m name of Some (JBool b) \<Rightarrow> b | _ \<Rightarrow> False)"

definition members_of :: "object \<Rightarrow> string \<Rightarrow> object" where
  "members_of m name = (case map_of m name of Some (JObj ms) \<Rightarrow> ms | _ \<Rightarrow> [])"

definition event_id :: "object \<Rightarrow> string" where
  "event_id event =
    (let i = text_of event ''requestId''
     in if length i > 160 \<or> list_ex (\<lambda>c. c \<in> {CHR 0x0D, CHR 0x0A, CHR 0x00}) i then [] else i)"

text \<open>The requests younger than two minutes, and without the oldest: the first of those of the least time.\<close>

definition fresh_requests :: "time \<Rightarrow> (string \<times> requestTrace) list \<Rightarrow> (string \<times> requestTrace) list" where
  "fresh_requests now rs = filter (\<lambda>(_, r). \<not> now - tr_At r > 2 * minute) rs"

definition oldest_key :: "(string \<times> requestTrace) list \<Rightarrow> string" where
  "oldest_key rs = (case sort_key (\<lambda>(_, r). tr_At r) rs of [] \<Rightarrow> [] | (key, _) # _ \<Rightarrow> key)"

definition resets :: "string \<Rightarrow> bool" where
  "resets meth \<longleftrightarrow> meth \<in> {''Page.frameNavigated'', ''Page.navigatedWithinDocument'', ''Runtime.executionContextsCleared'',
     ''Runtime.executionContextDestroyed'', ''WebCodex.detached''}"

definition failures :: "string \<Rightarrow> bool" where
  "failures meth \<longleftrightarrow> meth \<in> {''Runtime.exceptionThrown'', ''Runtime.consoleAPICalled'', ''Network.loadingFailed'', ''Network.responseReceived''}"

text \<open>What is kept of a failure; none for a message that is none.\<close>

definition origin_members :: "time \<Rightarrow> string \<Rightarrow> object \<Rightarrow> tabEvents \<Rightarrow> object" where
  "origin_members now meth event t =
    (let i = event_id event
     in if meth = ''Network.loadingFailed'' \<or> meth = ''Network.responseReceived''
        then (if i \<noteq> [] then [(''request_id'', JStr i)] else [])
           @ (case map_of (ev_requests t) i of
                None \<Rightarrow> []
              | Some r \<Rightarrow> [(''duration_ms'', JNum (of_int (Milliseconds (now - tr_At r)))), (''url'', JStr (tr_URL r))]
                  @ (if tr_Operation r \<noteq> [] then [(''operation_id'', JStr (tr_Operation r))] else []))
        else if ev_lastOperation t \<noteq> [] then [(''operation_id'', JStr (ev_lastOperation t))] else [])"

definition status_members :: "printers \<Rightarrow> rat \<Rightarrow> object" where
  "status_members P status =
    (if status \<ge> 400 then [(''http_status'', JNum (of_int \<lfloor>status\<rfloor>)), (''detail'', JStr (''HTTP '' @ pr_number P status))] else [])"

definition loading_members :: "object \<Rightarrow> object" where
  "loading_members event =
    (let canceled = flag_of event ''canceled'';
         raw = (case map_of event ''failure_type'' of Some (JStr k) \<Rightarrow> k | _ \<Rightarrow> text_of event ''errorText'')
     in [(''failure_type'', JStr (browserNetworkFailure raw canceled)), (''canceled'', JBool canceled)])"

definition locate :: "netlib \<Rightarrow> json option \<Rightarrow> object \<Rightarrow> object" where
  "locate N url entry =
    (case url of Some (JStr raw) \<Rightarrow> AList.update ''url'' (JStr (browserDiagnosticURL N raw)) entry | _ \<Rightarrow> entry)"

definition failure_entry :: "netlib \<Rightarrow> printers \<Rightarrow> time \<Rightarrow> string \<Rightarrow> object \<Rightarrow> tabEvents \<Rightarrow> object option" where
  "failure_entry N P now meth event t =
    (let response = members_of event ''response''; status = number_of response ''status''
     in if (meth = ''Runtime.consoleAPICalled'' \<and> map_of event ''type'' \<noteq> Some (JStr ''error'') \<and> map_of event ''type'' \<noteq> Some (JStr ''warning''))
           \<or> (meth = ''Network.responseReceived'' \<and> status < 400) then None
        else Some (locate N (map_of response ''url'')
              ([(''event'', JStr meth), (''at'', JStr (pr_time P now))] @ origin_members now meth event t)
            @ status_members P status
            @ (if meth = ''Network.loadingFailed'' then loading_members event else [])))"

definition keep_entry :: "object \<Rightarrow> tabEvents \<Rightarrow> tabEvents" where
  "keep_entry entry t =
    (if length (ev_diagnostics t) \<ge> 100
     then t\<lparr>ev_diagnostics := tl (ev_diagnostics t) @ [entry], ev_dropped := Suc (ev_dropped t)\<rparr>
     else t\<lparr>ev_diagnostics := ev_diagnostics t @ [entry]\<rparr>)"

definition recordBrowserEvent :: "netlib \<Rightarrow> printers \<Rightarrow> time \<Rightarrow> string \<Rightarrow> object \<Rightarrow> tabEvents \<Rightarrow> tabEvents" where
  "recordBrowserEvent N P now meth event t0 =
    (let t = t0\<lparr>ev_requests := fresh_requests now (ev_requests t0)\<rparr>;
         i = event_id event
     in if resets meth
        then t\<lparr>ev_frameEpoch := Suc (ev_frameEpoch t), ev_snapshot := [], ev_worlds := [],
               ev_requests := (if meth = ''WebCodex.detached'' then [] else ev_requests t)\<rparr>
        else if meth = ''Page.javascriptDialogOpening'' then t\<lparr>ev_dialog := True\<rparr>
        else if meth = ''Page.javascriptDialogClosed'' then t\<lparr>ev_dialog := False\<rparr>
        else if meth = ''Network.requestWillBeSent''
        then (if i = [] then t
              else let kept = (if length (ev_requests t) \<ge> 256 then AList.delete (oldest_key (ev_requests t)) (ev_requests t) else ev_requests t);
                       trace = \<lparr>tr_At = now, tr_Operation = ev_lastOperation t,
                                tr_URL = browserDiagnosticURL N (text_of (members_of event ''request'') ''url'')\<rparr>
                   in t\<lparr>ev_requests := AList.update i trace kept\<rparr>)
        else if meth = ''Network.loadingFinished'' then t\<lparr>ev_requests := AList.delete i (ev_requests t)\<rparr>
        else if \<not> failures meth then t
        else (case failure_entry N P now meth event t of
                None \<Rightarrow> t
              | Some entry \<Rightarrow>
                  keep_entry entry (if meth = ''Network.loadingFailed'' then t\<lparr>ev_requests := AList.delete i (ev_requests t)\<rparr> else t)))"

text \<open>What \<open>browser_diagnostics\<close> answers: of all operations, or of one.\<close>

definition browserDiagnostics :: "netlib \<Rightarrow> tabEvents \<Rightarrow> string \<Rightarrow> string \<Rightarrow> object" where
  "browserDiagnostics N t rawURL operation =
    [(''url'', JStr (browserDiagnosticURL N rawURL)),
     (''events'', JArr (map JObj (filter (\<lambda>e. operation = [] \<or> map_of e ''operation_id'' = Some (JStr operation)) (ev_diagnostics t)))),
     (''truncated'', JBool (ev_dropped t > 0)), (''dropped_events'', JNum (of_nat (ev_dropped t))),
     (''tracked_requests'', JNum (of_nat (length (ev_requests t))))]"

section \<open>What is kept\<close>

definition origin_only :: "netlib \<Rightarrow> string \<Rightarrow> bool" where
  "origin_only N s \<longleftrightarrow> s = [] \<or> (\<exists>raw u. nl_Parse N raw = Some u \<and> bu_Scheme u \<in> {''http'', ''https''} \<and> bu_Host u \<noteq> []
     \<and> s = bu_Scheme u @ ''://'' @ bu_Host u @ ''/'')"

text \<open>Of an entry: its members are of a fixed list, and of those that come from the page the URL is an origin, the kind of failure one
  of six words and the id of the request short and of one line.\<close>

definition member_ok :: "netlib \<Rightarrow> string \<times> json \<Rightarrow> bool" where
  "member_ok N = (\<lambda>(key, v).
     if key = ''event'' then (case v of JStr m \<Rightarrow> failures m | _ \<Rightarrow> False)
     else if key = ''request_id'' then (case v of JStr s \<Rightarrow> length s \<le> 160 \<and> CHR 0x0A \<notin> set s | _ \<Rightarrow> False)
     else if key = ''url'' then (case v of JStr s \<Rightarrow> origin_only N s | _ \<Rightarrow> False)
     else if key = ''failure_type''
     then (case v of JStr s \<Rightarrow> s \<in> {''cancelled'', ''timeout'', ''dns'', ''connection'', ''blocked'', ''other''} | _ \<Rightarrow> False)
     else key \<in> {''at'', ''duration_ms'', ''operation_id'', ''http_status'', ''detail'', ''canceled''})"

definition events_inv :: "netlib \<Rightarrow> tabEvents \<Rightarrow> bool" where
  "events_inv N t \<longleftrightarrow>
     length (ev_diagnostics t) \<le> 100 \<and> length (ev_requests t) \<le> 256 \<and> distinct (map fst (ev_requests t))
     \<and> (ev_dropped t = 0 \<or> length (ev_diagnostics t) = 100)
     \<and> list_all (list_all (member_ok N)) (ev_diagnostics t) \<and> list_all (\<lambda>(_, r). origin_only N (tr_URL r)) (ev_requests t)"

lemma diagnostic_url_origin: "origin_only N (browserDiagnosticURL N raw)"
  by (auto simp: origin_only_def browserDiagnosticURL_def split: option.splits)

lemma failure_kinds: "browserNetworkFailure raw c \<in> {''cancelled'', ''timeout'', ''dns'', ''connection'', ''blocked'', ''other''}"
  by (simp add: browserNetworkFailure_def)

lemma event_id_short: "length (event_id e) \<le> 160 \<and> CHR 0x0A \<notin> set (event_id e)"
  by (auto simp: event_id_def Let_def list_ex_iff)

lemma member_ok_simps [simp]:
  "member_ok N (''at'', v)" "member_ok N (''duration_ms'', v)" "member_ok N (''operation_id'', v)" "member_ok N (''http_status'', v)"
  "member_ok N (''detail'', v)" "member_ok N (''canceled'', v)" "member_ok N (''event'', JStr m) \<longleftrightarrow> failures m"
  "member_ok N (''request_id'', JStr s) \<longleftrightarrow> length s \<le> 160 \<and> CHR 0x0A \<notin> set s" "member_ok N (''url'', JStr s) \<longleftrightarrow> origin_only N s"
  "member_ok N (''failure_type'', JStr (browserNetworkFailure raw c))"
  using failure_kinds by (simp_all add: member_ok_def)

lemma set_update: "set (AList.update k v e) \<subseteq> insert (k, v) (set e)"
  by (induction e) auto

lemma failure_entry_ok:
  assumes "failure_entry N P now meth event t = Some entry" "failures meth" "list_all (\<lambda>(_, r). origin_only N (tr_URL r)) (ev_requests t)"
  shows "list_all (member_ok N) entry"
proof -
  have traced: "origin_only N (tr_URL r)" if "map_of (ev_requests t) i = Some r" for i r
    using assms(3) map_of_SomeD [OF that] by (auto simp: list_all_iff)
  have "list_all (member_ok N) (origin_members now meth event t)"
    using event_id_short [of event] traced by (auto simp: origin_members_def Let_def split: option.splits)
  then have "list_all (member_ok N) (locate N url ([(''event'', JStr meth), (''at'', JStr (pr_time P now))] @ origin_members now meth event t))" for url
    using assms(2) diagnostic_url_origin
    by (auto simp: locate_def list_all_iff dest: subsetD [OF set_update] split: option.splits json.splits)
  moreover have "list_all (member_ok N) (status_members P n)" "list_all (member_ok N) (loading_members event)" for n
    by (simp_all add: status_members_def loading_members_def Let_def)
  ultimately show ?thesis using assms(1) by (auto simp: failure_entry_def Let_def split: if_split_asm)
qed

definition new_tabEvents :: tabEvents where
  "new_tabEvents = \<lparr>ev_requests = [], ev_frameEpoch = 0, ev_snapshot = [], ev_worlds = [], ev_dialog = False, ev_lastOperation = [],
     ev_diagnostics = [], ev_dropped = 0\<rparr>"

lemma list_all_kept:
  "list_all p xs \<Longrightarrow> list_all p (AList.delete k xs)" "list_all p xs \<Longrightarrow> list_all p (filter q xs)"
  "list_all p xs \<Longrightarrow> p (k, v) \<Longrightarrow> list_all p (AList.update k v xs)"
  using set_update [of k v xs] by (auto simp: list_all_iff AList.delete_eq)

lemma length_update: "length (AList.update k v xs) \<le> Suc (length xs)"
  by (induction xs) auto

lemma oldest_key_in:
  assumes "rs \<noteq> []"
  shows "oldest_key rs \<in> fst ` set rs"
proof -
  obtain k v rest where c: "sort_key (\<lambda>(_, r). tr_At r) rs = (k, v) # rest"
    using assms length_sort [of "\<lambda>(_, r). tr_At r" rs] by (cases "sort_key (\<lambda>(_, r). tr_At r) rs") auto
  then have "(k, v) \<in> set rs" using set_sort [of "\<lambda>(_, r). tr_At r" rs] by (metis list.set_intros(1))
  then show ?thesis using imageI [of "(k, v)" "set rs" fst] by (simp add: oldest_key_def c)
qed

lemma delete_shorter:
  assumes "k \<in> fst ` set rs"
  shows "length (AList.delete k rs) < length rs"
proof -
  obtain v where "(k, v) \<in> set rs" using assms by force
  then show ?thesis unfolding AList.delete_eq by (rule length_filter_less) simp
qed

lemma fresh_kept:
  fixes rs :: "(string \<times> requestTrace) list" and now :: time
  shows "length (fresh_requests now rs) \<le> length rs" "distinct (map fst rs) \<Longrightarrow> distinct (map fst (fresh_requests now rs))"
  "list_all p rs \<Longrightarrow> list_all p (fresh_requests now rs)"
  by (auto simp: fresh_requests_def distinct_map_filter list_all_iff)

lemma keep_entry_inv: "events_inv N t \<Longrightarrow> list_all (member_ok N) e \<Longrightarrow> events_inv N (keep_entry e t)"
  by (cases "ev_diagnostics t") (auto simp: events_inv_def keep_entry_def)

lemma requests_inv:
  assumes "events_inv N t" "length rs \<le> 256" "distinct (map fst rs)" "list_all (\<lambda>(_, r). origin_only N (tr_URL r)) rs"
  shows "events_inv N (t\<lparr>ev_requests := rs\<rparr>)"
  using assms by (simp add: events_inv_def)

lemma events_inv_cases:
  "(c \<Longrightarrow> events_inv N a) \<Longrightarrow> (\<not> c \<Longrightarrow> events_inv N b) \<Longrightarrow> events_inv N (if c then a else b)"
  "(m = None \<Longrightarrow> events_inv N a) \<Longrightarrow> (\<And>x. m = Some x \<Longrightarrow> events_inv N (f x)) \<Longrightarrow> events_inv N (case m of None \<Rightarrow> a | Some x \<Rightarrow> f x)"
  by (auto split: option.splits)

lemma recordBrowserEvent_inv:
  assumes "events_inv N t0"
  shows "events_inv N (recordBrowserEvent N P now meth event t0)"
proof -
  let ?t = "t0\<lparr>ev_requests := fresh_requests now (ev_requests t0)\<rparr>" and ?i = "event_id event"
  have t: "events_inv N ?t"
    using assms fresh_kept [where now = now and rs = "ev_requests t0"] by (auto simp: events_inv_def)
  have gone: "events_inv N (?t\<lparr>ev_requests := AList.delete k (ev_requests ?t)\<rparr>)" for k
  proof (rule requests_inv [OF t])
    show "length (AList.delete k (ev_requests ?t)) \<le> 256"
      using t length_delete_le [of k "ev_requests ?t"] unfolding events_inv_def by linarith
    show "distinct (map fst (AList.delete k (ev_requests ?t)))" using t by (intro distinct_delete) (simp add: events_inv_def)
    show "list_all (\<lambda>(_, r). origin_only N (tr_URL r)) (AList.delete k (ev_requests ?t))"
      using t by (intro list_all_kept(1)) (simp add: events_inv_def)
  qed
  let ?kept = "if length (ev_requests ?t) \<ge> 256 then AList.delete (oldest_key (ev_requests ?t)) (ev_requests ?t) else ev_requests ?t"
  have kept: "length ?kept < 256 \<and> distinct (map fst ?kept) \<and> list_all (\<lambda>(_, r). origin_only N (tr_URL r)) ?kept"
  proof (cases "length (ev_requests ?t) \<ge> 256")
    case True
    then have "length (ev_requests ?t) = 256" using t unfolding events_inv_def by linarith
    moreover have "length (AList.delete (oldest_key (ev_requests ?t)) (ev_requests ?t)) < length (ev_requests ?t)"
      by (rule delete_shorter, rule oldest_key_in) (use True in auto)
    ultimately have "length (AList.delete (oldest_key (ev_requests ?t)) (ev_requests ?t)) < 256" by linarith
    then show ?thesis unfolding if_P [OF True]
      using gone [of "oldest_key (ev_requests ?t)"] unfolding events_inv_def by simp
  next
    case False
    then show ?thesis unfolding if_not_P [OF False] using t unfolding events_inv_def by simp
  qed
  have added: "events_inv N (?t\<lparr>ev_requests := AList.update ?i r ?kept\<rparr>)" if "origin_only N (tr_URL r)" for r
    using kept length_update [of ?i r ?kept] that
    by (intro requests_inv [OF t] distinct_update list_all_kept(3)) (simp_all del: update.simps)
  have failed: "list_all (member_ok N) e" if "failure_entry N P now meth event ?t = Some e" "failures meth" for e
    by (rule failure_entry_ok [OF that]) (use t in \<open>simp add: events_inv_def\<close>)
  have plain: "events_inv N (?t\<lparr>ev_dialog := d\<rparr>)" "events_inv N (?t\<lparr>ev_frameEpoch := n, ev_snapshot := x, ev_worlds := w, ev_requests := ev_requests ?t\<rparr>)"
    "events_inv N (?t\<lparr>ev_frameEpoch := n, ev_snapshot := x, ev_worlds := w, ev_requests := []\<rparr>)" for d n x w
    using t by (simp_all add: events_inv_def)
  have traced: "events_inv N (?t\<lparr>ev_requests := AList.update ?i \<lparr>tr_At = now, tr_Operation = o', tr_URL = browserDiagnosticURL N raw\<rparr> ?kept\<rparr>)" for o' raw
    by (rule added) (simp add: diagnostic_url_origin)
  have entered: "events_inv N (keep_entry e ?t) \<and> events_inv N (keep_entry e (?t\<lparr>ev_requests := AList.delete ?i (ev_requests ?t)\<rparr>))"
    if "failure_entry N P now meth event ?t = Some e" "failures meth" for e
    using keep_entry_inv [OF t failed [OF that]] keep_entry_inv [OF gone failed [OF that]] by blast
  have reset: "events_inv N (?t\<lparr>ev_frameEpoch := n, ev_snapshot := x, ev_worlds := w, ev_requests := (if d then [] else ev_requests ?t)\<rparr>)" for n x w d
    by (cases d) (simp_all only: if_True if_False plain)
  have kept_entry: "events_inv N (keep_entry e (if d then ?t\<lparr>ev_requests := AList.delete ?i (ev_requests ?t)\<rparr> else ?t))"
    if "failure_entry N P now meth event ?t = Some e" "failures meth" for e d
    using entered [OF that] by (cases d) (simp_all only: if_True if_False)
  show ?thesis
    unfolding recordBrowserEvent_def Let_def
    by (intro events_inv_cases reset plain(1) t traced gone kept_entry) (assumption | blast)+
qed

text \<open>A tab over its life: what it meets is a list of the running operation, the time, and the event.\<close>

definition tab_history :: "netlib \<Rightarrow> printers \<Rightarrow> (string \<times> time \<times> string \<times> object) list \<Rightarrow> tabEvents" where
  "tab_history N P events =
    fold (\<lambda>(operation, now, meth, event) t. recordBrowserEvent N P now meth event (t\<lparr>ev_lastOperation := operation\<rparr>)) events new_tabEvents"

lemma tab_history_inv: "events_inv N (tab_history N P events)"
proof -
  have "events_inv N t \<Longrightarrow> events_inv N (fold (\<lambda>(operation, now, meth, event) t.
      recordBrowserEvent N P now meth event (t\<lparr>ev_lastOperation := operation\<rparr>)) events t)" for t
  proof (induction events arbitrary: t)
    case (Cons e es)
    obtain operation now meth event where e: "e = (operation, now, meth, event)" by (cases e)
    have "events_inv N (t\<lparr>ev_lastOperation := operation\<rparr>)" using Cons.prems by (simp add: events_inv_def)
    from recordBrowserEvent_inv [OF this] show ?case unfolding e by (simp add: Cons.IH)
  qed simp
  then show ?thesis by (simp add: tab_history_def events_inv_def new_tabEvents_def)
qed


end
