(* ===== verification/BrowserDownloads.thy ===== *)
theory BrowserDownloads
  imports FileListing
begin

text \<open>Downloads and artifacts of a managed browser (\<open>src/cmd/agent/browser_download_metadata.go\<close>, \<open>browser_files.go\<close> and
  \<open>browser_artifacts.go\<close>): saving a downloaded file, the table of downloads, and the cleaning of the directory of artifacts.
  The detection of a content type and of the size of an image are arguments.\<close>

section \<open>Saving a download\<close>

definition browserDownloadMaxBytes :: nat where "browserDownloadMaxBytes = 64 * 2 ^ 20"

record savedDownload =
  sv_path :: path
  sv_id :: string
  sv_bytes :: nat
  sv_sha256 :: string
  sv_mime :: string
  sv_duplicate :: bool
  sv_size :: "(int \<times> int) option"

record contentLib =
  ct_Detect :: "string \<Rightarrow> string"
  ct_Decode :: "string \<Rightarrow> (int \<times> int) option"

definition download_metadata :: "contentLib \<Rightarrow> path \<Rightarrow> string \<Rightarrow> string \<Rightarrow> bool \<Rightarrow> savedDownload" where
  "download_metadata C destination i data duplicate =
    \<lparr>sv_path = destination, sv_id = i, sv_bytes = length data, sv_sha256 = hashBytes data, sv_mime = ct_Detect C data,
     sv_duplicate = duplicate,
     sv_size = (case ct_Decode C data of Some (w, h) \<Rightarrow> if w > 0 \<and> h > 0 then Some (w, h) else None | None \<Rightarrow> None)\<rparr>"

definition same_download :: "executor \<Rightarrow> fs \<Rightarrow> path \<Rightarrow> string \<Rightarrow> string \<Rightarrow> unit result" where
  "same_download ex fs destination data unread =
    (case readRegularFile ex fs destination browserDownloadMaxBytes of
       Inl _ \<Rightarrow> Inl (toolErr ''invalid_path'' unread)
     | Inr existing \<Rightarrow>
         if Sum256 existing \<noteq> Sum256 data then Inl (toolErr ''download_conflict'' ''destination already contains different data'')
         else Inr ())"

text \<open>\<open>between\<close> is what other processes do to the files after the destination was seen not to exist. A resolved destination is
  never empty.\<close>

definition saveBrowserDownloadedFile ::
  "executor \<Rightarrow> contentLib \<Rightarrow> (fs \<Rightarrow> fs) \<Rightarrow> path \<Rightarrow> path \<Rightarrow> string \<Rightarrow> fs \<Rightarrow> savedDownload result \<times> fs" where
  "saveBrowserDownloadedFile ex C between source destination i fs =
    (if i = [] \<or> length i > 64 then (Inl (toolErr ''invalid_arguments'' ''invalid download identifier''), fs)
     else case Lstat fs source of
       Inr (File _) \<Rightarrow>
         (case readRegularFile ex fs source browserDownloadMaxBytes of
            Inl e \<Rightarrow> (Inl (if ce_code e = ''too_large'' then toolErr ''too_large'' ''download exceeds the 64 MiB limit''
                          else toolErr ''invalid_path'' ''download source could not be read''), fs)
          | Inr data \<Rightarrow>
             (case Lstat fs destination of
                Inr (File _) \<Rightarrow>
                  (bind_result (same_download ex fs destination data ''download destination could not be read'')
                     (\<lambda>_. Inr (download_metadata C destination i data True)), fs)
              | Inr _ \<Rightarrow> (Inl (toolErr ''invalid_path'' ''download destination is not a regular file''), fs)
              | Inl e \<Rightarrow>
                  if e \<noteq> NotExist then (Inl (toolErr ''invalid_path'' ''download destination is unavailable''), fs)
                  else (case atomicCreate ex destination data (between fs) of
                          (Inr _, fs1) \<Rightarrow> (Inr (download_metadata C destination i data False), fs1)
                        | (Inl e, fs1) \<Rightarrow>
                            (if ce_code e = ''already_exists''
                             then bind_result (same_download ex fs1 destination data ''download destination is unavailable'')
                                    (\<lambda>_. Inr (download_metadata C destination i data True))
                             else Inl (toolErr ''io_error'' ''download could not be saved''), fs1))))
     | _ \<Rightarrow> (Inl (toolErr ''invalid_path'' ''download source is unavailable''), fs))"

section \<open>The table of downloads\<close>

record browserDownload =
  bd_ID :: string
  bd_Status :: string
  bd_Bytes :: int

type_synonym downloads = "(string \<times> browserDownload) list"

text \<open>The new table, and whether the download is to be cancelled.\<close>

definition recordManagedDownload :: "string \<Rightarrow> string \<Rightarrow> string \<Rightarrow> int \<Rightarrow> downloads \<Rightarrow> bool \<times> downloads" where
  "recordManagedDownload meth i state bytes ds =
    (let ds1 = (if map_of ds i = None \<and> length ds < 16
                then AList.update i \<lparr>bd_ID = i, bd_Status = ''running'', bd_Bytes = 0\<rparr> ds else ds)
     in case map_of ds1 i of
          None \<Rightarrow> (True, ds1)
        | Some d \<Rightarrow>
            (bytes > int browserDownloadMaxBytes,
             if meth = ''Browser.downloadProgress''
             then AList.update i (d\<lparr>bd_Bytes := (if bytes > bd_Bytes d then bytes else bd_Bytes d),
                                    bd_Status := (if state \<noteq> [] then state else bd_Status d)\<rparr>) ds1
             else ds1))"

text \<open>What \<open>browser_files\<close> does with a finished download; \<open>dir\<close> is the directory of the session.\<close>

definition save_download ::
  "executor \<Rightarrow> contentLib \<Rightarrow> (fs \<Rightarrow> fs) \<Rightarrow> path \<Rightarrow> downloads \<Rightarrow> object \<Rightarrow> fs \<Rightarrow> savedDownload result \<times> fs" where
  "save_download ex C between dir ds args fs =
    (case requiredString args ''download_id'' of
       Inl e \<Rightarrow> (Inl e, fs)
     | Inr i \<Rightarrow>
        if (case map_of ds i of None \<Rightarrow> True | Some d \<Rightarrow> bd_Status d \<noteq> ''completed'')
        then (Inl (toolErr ''download_not_ready'' ''download is not complete in this session''), fs)
        else (case bind_result (requiredString args ''path'') (resolvePath fs (ex_roots ex)) of
                Inl e \<Rightarrow> (Inl e, fs)
              | Inr p \<Rightarrow> saveBrowserDownloadedFile ex C between (dir @ [i]) p i fs))"

section \<open>Artifacts\<close>

definition browserArtifactMax :: int where "browserArtifactMax = 256 * 2 ^ 20"

definition hex_name :: "string \<Rightarrow> string \<Rightarrow> string \<Rightarrow> bool" where
  "hex_name pre post name \<longleftrightarrow> length name = length pre + 24 + length post \<and> HasPrefix name pre \<and> HasSuffix name post
     \<and> list_all lower_hex (take 24 (drop (length pre) name))"

definition browserArtifactName :: "string \<Rightarrow> bool" where "browserArtifactName = hex_name ''image_'' ''.jpg''"
definition browserSessionName :: "string \<Rightarrow> bool" where "browserSessionName = hex_name ''browser_'' []"

definition downloadGUID :: "string \<Rightarrow> bool" where
  "downloadGUID name \<longleftrightarrow> length name = 36 \<and> list_all (\<lambda>c. c \<in> set ''abcdefABCDEF0123456789-'') name"

definition browserArtifactAvailable :: "path \<Rightarrow> path \<Rightarrow> fs \<Rightarrow> bool" where
  "browserArtifactAvailable store p fs \<longleftrightarrow>
     p \<noteq> [] \<and> butlast p = store \<and> browserArtifactName (last p) \<and> (case Lstat fs p of Inr (File _) \<Rightarrow> True | _ \<Rightarrow> False)"

definition owned_artifact :: "path \<Rightarrow> bool" where
  "owned_artifact p \<longleftrightarrow>
     browserArtifactName (last p)
     \<or> (butlast p \<noteq> [] \<and> browserSessionName (last (butlast p)) \<and> (downloadGUID (last p) \<or> HasSuffix (last p) ''.crdownload''))"

text \<open>The callback of the walk: its state is the bytes that stay and the files. \<open>age\<close> is the time since a file was changed,
  and an error of any kind ends the walk.\<close>

definition clean_visit :: "(path \<Rightarrow> duration) \<Rightarrow> (path \<Rightarrow> bool) \<Rightarrow> (path \<Rightarrow> bool) \<Rightarrow> walkEvent \<Rightarrow> int \<times> fs \<Rightarrow> flow \<times> int \<times> fs" where
  "clean_visit age vanished undeletable e st =
    (case e of
       Unreadable p \<Rightarrow> (Cancelled, st)
     | Entry p n \<Rightarrow>
        if n = Dir \<or> is_link n \<or> \<not> owned_artifact p then (Continue, st)
        else if vanished p then (Cancelled, st)
        else (case n of
                File data \<Rightarrow>
                  if age p > 24 * hour \<and> \<not> HasSuffix (last p) ''.crdownload''
                  then (case Remove (snd st) p of
                          None \<Rightarrow> (Cancelled, st)
                        | Some fs1 \<Rightarrow> if undeletable p then (Cancelled, st) else (Continue, fst st, fs1))
                  else (Continue, fst st + int (length data), snd st)
              | _ \<Rightarrow> (Continue, st)))"

text \<open>The bytes that stay, whether the walk failed, and the files.\<close>

definition cleanArtifacts :: "walkEnv \<Rightarrow> (path \<Rightarrow> duration) \<Rightarrow> (path \<Rightarrow> bool) \<Rightarrow> path \<Rightarrow> fs \<Rightarrow> int \<times> bool \<times> fs" where
  "cleanArtifacts w age undeletable store fs =
    (case WalkDir w fs (clean_visit age (we_vanished w) undeletable) store (0, fs) of
       (failed, kept, fs1) \<Rightarrow> (kept, failed, fs1))"

text \<open>One event of the browser: the download is recorded, the artifacts are cleaned, and the download is cancelled when it, or all
  of them, are too large. An event of another form is ignored.\<close>

definition track_download ::
  "walkEnv \<Rightarrow> (path \<Rightarrow> duration) \<Rightarrow> (path \<Rightarrow> bool) \<Rightarrow> path \<Rightarrow> string \<Rightarrow> string \<Rightarrow> string \<Rightarrow> int \<Rightarrow> downloads \<times> fs \<Rightarrow> bool \<times> downloads \<times> fs" where
  "track_download w age undeletable store meth guid state bytes st =
    (if \<not> downloadGUID guid then (False, st)
     else case recordManagedDownload meth guid state bytes (fst st) of (tooLarge, ds) \<Rightarrow>
       case cleanArtifacts w age undeletable store (snd st) of (kept, failed, fs1) \<Rightarrow>
         (tooLarge \<or> failed \<or> kept > browserArtifactMax, ds, fs1))"

definition enable_downloads ::
  "walkEnv \<Rightarrow> (path \<Rightarrow> duration) \<Rightarrow> (path \<Rightarrow> bool) \<Rightarrow> path \<Rightarrow> string \<Rightarrow> (unit \<Rightarrow> bool) \<Rightarrow> fs \<Rightarrow> unit result \<times> fs" where
  "enable_downloads w age undeletable store session allow fs =
    (case cleanArtifacts w age undeletable store fs of (kept, failed, fs1) \<Rightarrow>
       if failed then (Inl (toolErr ''io_error'' ''inspect artifacts''), fs1)
       else if kept \<ge> browserArtifactMax then (Inl (toolErr ''limit_reached'' ''browser artifact budget reached''), fs1)
       else (case MkdirAll fs1 (store @ [session]) of
               (False, fs2) \<Rightarrow> (Inl (toolErr ''io_error'' ''create download directory''), fs2)
             | (True, fs2) \<Rightarrow> (if allow () then Inr () else Inl (toolErr ''browser_failed'' ''enable downloads''), fs2)))"

section \<open>Downloads of the user's own browser\<close>

record personalDownload =
  pd_ID :: string
  pd_Status :: string
  pd_Bytes :: int
  pd_Filename :: string

definition personalDownloadID :: "string \<Rightarrow> bool" where
  "personalDownloadID s \<longleftrightarrow> s \<noteq> [] \<and> length s \<le> 20 \<and> list_all (\<lambda>c. c \<in> set ''0123456789'') s"

text \<open>The first finished download of the id, if it lies where the extension of this session puts it; \<open>dir\<close> is the directory of
  downloads of the configuration or of the user's home.\<close>

definition personal_save_download ::
  "executor \<Rightarrow> contentLib \<Rightarrow> (fs \<Rightarrow> fs) \<Rightarrow> path \<Rightarrow> string \<Rightarrow> personalDownload list \<Rightarrow> object \<Rightarrow> fs \<Rightarrow> savedDownload result \<times> fs" where
  "personal_save_download ex C between dir session ds args fs =
    (case requiredString args ''download_id'' of
       Inl e \<Rightarrow> (Inl e, fs)
     | Inr i \<Rightarrow>
        if \<not> personalDownloadID i then (Inl (toolErr ''invalid_arguments'' ''invalid download_id''), fs)
        else (case List.find (\<lambda>d. pd_ID d = i \<and> pd_Status d = ''complete'') ds of
                None \<Rightarrow> (Inl (toolErr ''download_not_ready'' ''personal download has not completed''), fs)
              | Some d \<Rightarrow>
                  if \<not> IsAbs (pd_Filename d)
                  then (Inl (toolErr ''invalid_path'' ''download is outside the configured personal download directory''), fs)
                  else (case resolveExistingPrefix fs (Clean (pd_Filename d)) of
                     Inl e \<Rightarrow> (Inl e, fs)
                   | Inr resolved \<Rightarrow>
                      if resolved \<noteq> dir @ [''WebCodex'', session, i]
                      then (Inl (toolErr ''invalid_path'' ''download is outside the configured personal download directory''), fs)
                      else (case bind_result (requiredString args ''path'') (resolvePath fs (ex_roots ex)) of
                              Inl e \<Rightarrow> (Inl e, fs)
                            | Inr p \<Rightarrow> saveBrowserDownloadedFile ex C between resolved p i fs))))"

end
