(* ===== verification/DownloadFacts.thy ===== *)
theory DownloadFacts
  imports BrowserDownloads FileListingFacts
begin

text \<open>What downloads and their cleaning do to the files.\<close>

section \<open>Saving\<close>

lemma atomicCreate_exists:
  assumes "atomicCreate ex p data fs = (Inl e, fs1)" "ce_code e = ''already_exists''"
  obtains "MkdirAll fs (butlast p) = (True, fs1)" "Stat fs1 (butlast p) = Inr Dir" "link_new fs1 p data = Inr None"
proof -
  obtain ok fs2 where m: "MkdirAll fs (butlast p) = (ok, fs2)" by fastforce
  show thesis
    using assms that m unfolding atomicCreate_def by (auto simp: toolErr_def split: if_split_asm sum.split_asm option.split_asm)
qed

text \<open>A file that is read where the creation found something was there all along.\<close>

lemma create_found:
  assumes "tree fs" "existing_part fs q p" "list_all clean_component p"
    and "atomicCreate ex p data fs = (Inl e, fs1)" "ce_code e = ''already_exists''" "readRegularFile ex fs1 p m = Inr d"
  shows "node_at fs1 p = Some (File d)"
proof -
  obtain rest where r: "p = q @ rest" "physical fs q" "rest \<noteq> [] \<longrightarrow> missing fs q (hd rest)"
    using assms(2) by (auto simp: existing_part_def)
  have mk: "MkdirAll fs (butlast p) = (True, fs1)" "Stat fs1 (butlast p) = Inr Dir" "link_new fs1 p data = Inr None"
    using atomicCreate_exists [OF assms(4,5)] by blast+
  show ?thesis
  proof (cases "length rest \<le> 1")
    case True
    have "fs1 = fs"
    proof (cases rest)
      case Nil
      show ?thesis
      proof (cases "p = []")
        case False
        then show ?thesis using existing_parent [OF assms(1-3) False mk(1)] r(1) Nil by simp
      qed (use mk(1) in \<open>simp add: MkdirAll.simps [of fs "[]"] Stat_def EvalSymlinks_def\<close>)
    next
      case (Cons c cs)
      then have "butlast p = q" "node_at fs q = Some Dir" using True r by (simp_all add: missing_def)
      then show ?thesis using mk(1) Stat_physical [OF assms(1) r(2)] by (simp add: MkdirAll.simps [of fs q])
    qed
    then show ?thesis using readRegularFile_at [OF _ assms(1,2)] assms(6) by blast
  next
    case False
    then obtain c d cs where rest: "rest = c # d # cs" by (metis One_nat_def le_Suc_eq length_0_conv length_Cons linorder_le_cases list.exhaust list.size(3) not_less_eq_eq zero_order(1))
    have m: "missing fs q c" using r rest by simp
    have gone: "node_at fs p = None"
    proof (rule ccontr)
      assume "node_at fs p \<noteq> None"
      then have "node_at fs (q @ [c]) = Some Dir" using tree_prefix [OF assms(1), of "q @ [c]" "d # cs"] r(1) rest by auto
      moreover have "list_all clean_component (q @ [c])" using assms(3) r(1) rest by simp
      ultimately have "EvalSymlinks fs (q @ [c]) = Inr (q @ [c])" using physical_Dir EvalSymlinks_physical assms(1) by blast
      then show False using m by (simp add: missing_def)
    qed
    have g: "grown q fs fs1" "place fs1 p = Inr p" using prepared [OF assms(1-3), of True True fs1] mk by auto
    then have "node_at fs1 p \<noteq> None" using mk(3) by (auto simp: link_new_def split: if_split_asm)
    then have dir: "node_at fs1 p = Some Dir" "tree fs1" using g(1) gone unfolding grown_def by metis+
    then have "Stat fs1 p = Inr Dir" using physical_Dir [OF dir(2,1) assms(3)] Stat_physical by fastforce
    then show ?thesis using assms(6) by (simp add: readRegularFile_def)
  qed
qed

lemma read_bound: "readRegularFile ex fs p m = Inr data \<Longrightarrow> length data \<le> m"
  by (auto simp: readRegularFile_def readLimitedFile_def split: sum.splits node.splits if_splits bool.splits)

lemma same_download_Inr:
  "same_download ex fs p data unread = Inr () \<longleftrightarrow>
    (\<exists>existing. readRegularFile ex fs p browserDownloadMaxBytes = Inr existing \<and> Sum256 existing = Sum256 data)"
  by (auto simp: same_download_def split: sum.splits if_splits)

text \<open>Where the source was read, what the call did with its data.\<close>

lemma save_cases:
  assumes "saveBrowserDownloadedFile ex C between source destination i fs = (r, fs')"
  shows "(isl r \<and> fs' = fs)
    \<or> (\<exists>data. readRegularFile ex fs source browserDownloadMaxBytes = Inr data \<and>
        ((r = Inr (download_metadata C destination i data True) \<and> fs' = fs
            \<and> same_download ex fs destination data ''download destination could not be read'' = Inr ())
       \<or> (r = Inr (download_metadata C destination i data False) \<and> atomicCreate ex destination data (between fs) = (Inr (), fs'))
       \<or> (\<exists>e. atomicCreate ex destination data (between fs) = (Inl e, fs') \<and>
            (isl r \<or> (r = Inr (download_metadata C destination i data True) \<and> ce_code e = ''already_exists''
              \<and> same_download ex fs' destination data ''download destination is unavailable'' = Inr ())))))"
proof (cases "i = [] \<or> length i > 64")
  case False
  note run = assms [unfolded saveBrowserDownloadedFile_def if_not_P [OF False]]
  show ?thesis
  proof (cases "Lstat fs source")
    case (Inr n)
    show ?thesis
    proof (cases n)
      case (File d)
      show ?thesis
      proof (cases "readRegularFile ex fs source browserDownloadMaxBytes")
        case read: (Inr data)
        obtain r2 fs2 where made: "atomicCreate ex destination data (between fs) = (r2, fs2)" by fastforce
        show ?thesis
          using run unfolding Inr File read sum.case node.case made prod.case
          by (cases r2; cases "same_download ex fs destination data ''download destination could not be read''";
              cases "same_download ex fs2 destination data ''download destination is unavailable''")
             (auto simp: made read split: sum.split_asm node.split_asm if_split_asm)
      qed (use run Inr File in auto)
    qed (use run Inr in auto)
  qed (use run in auto)
qed (use assms in \<open>auto simp: saveBrowserDownloadedFile_def\<close>)


definition example_content :: contentLib where
  "example_content = \<lparr>ct_Detect = (\<lambda>_. ''text/plain''), ct_Decode = (\<lambda>_. None)\<rparr>"


end
